(* ===== verification/Prelude.thy ===== *)
theory Prelude
  imports Main "HOL-Library.Multiset" "HOL-Library.List_Lexorder"
begin

text \<open>
  Generic material the components share.

  \<^item> \<open>bindE\<close>, \<open>mapE\<close>, \<open>mapAccumE\<close> and \<open>foldE\<close>: code that may throw, as values of
    \<open>'e + 'a\<close>. \<open>Inl e\<close> is the exception \<open>e\<close>; sequencing stops at the first one, exactly as a
    JavaScript \<open>throw\<close> abandons the rest of the body. \<open>mapE f xs\<close> is \<open>xs.map(f)\<close> for a callback
    that may throw, \<open>foldE\<close> a \<open>for ... of\<close> loop over a mutable accumulator.
  \<^item> \<open>keep_first\<close>: the elements of a list in order of their first occurrence, which is what
    iterating a JavaScript \<open>Set\<close> or \<open>Map\<close> filled from that list yields.
  \<^item> facts on \<open>sort\<close>, \<open>sorted\<close>, \<open>map_of\<close> and \<open>distinct\<close> used by several components.

  The collection \<open>err_simps\<close> holds the inversion rules of the error combinators.
\<close>

named_theorems err_simps "inversion of computations that may throw"

section \<open>Computations that may throw\<close>

definition bindE :: "'e + 'a \<Rightarrow> ('a \<Rightarrow> 'e + 'b) \<Rightarrow> 'e + 'b" where
  "bindE m f = (case m of Inl e \<Rightarrow> Inl e | Inr x \<Rightarrow> f x)"

lemma bindE_Inl [simp]: "bindE (Inl e) f = Inl e"
  by (simp add: bindE_def)

lemma bindE_Inr [simp]: "bindE (Inr x) f = f x"
  by (simp add: bindE_def)

lemma bindE_eq_Inr [err_simps]:
  "bindE m f = Inr y \<longleftrightarrow> (\<exists>x. m = Inr x \<and> f x = Inr y)"
  by (cases m) auto

lemma bindE_eq_Inl:
  "bindE m f = Inl e \<longleftrightarrow> m = Inl e \<or> (\<exists>x. m = Inr x \<and> f x = Inl e)"
  by (cases m) auto

lemma bindE_cong [fundef_cong]:
  "m = m' \<Longrightarrow> (\<And>x. m' = Inr x \<Longrightarrow> f x = g x) \<Longrightarrow> bindE m f = bindE m' g"
  by (cases m') auto

lemma if_Inl_eq_Inr [err_simps]:
  "(if b then Inl e else m) = Inr y \<longleftrightarrow> \<not> b \<and> m = Inr y"
  by simp

lemma case_option_Inr:
  "(case a of None \<Rightarrow> Inl e | Some x \<Rightarrow> f x) = Inr r \<longleftrightarrow> (\<exists>x. a = Some x \<and> f x = Inr r)"
  "(case (a, b) of (Some x, Some y) \<Rightarrow> g x y | _ \<Rightarrow> Inl e) = Inr r \<longleftrightarrow>
     (\<exists>x y. a = Some x \<and> b = Some y \<and> g x y = Inr r)"
  by (auto split: option.splits)

fun mapE :: "('a \<Rightarrow> 'e + 'b) \<Rightarrow> 'a list \<Rightarrow> 'e + 'b list" where
  "mapE f [] = Inr []"
| "mapE f (x # xs) = bindE (f x) (\<lambda>y. bindE (mapE f xs) (\<lambda>ys. Inr (y # ys)))"

lemma mapE_eq_Inr: "mapE f xs = Inr ys \<longleftrightarrow> list_all2 (\<lambda>x y. f x = Inr y) xs ys"
  by (induction xs arbitrary: ys) (auto simp: bindE_eq_Inr list_all2_Cons1)

lemma mapE_Inr_map:
  "(\<And>x. x \<in> set xs \<Longrightarrow> f x = Inr (g x)) \<Longrightarrow> mapE f xs = Inr (map g xs)"
  by (induction xs) auto

lemma mapE_length: "mapE f xs = Inr ys \<Longrightarrow> length ys = length xs"
  by (auto simp: mapE_eq_Inr dest: list_all2_lengthD)

lemma mapE_in_set:
  "mapE f xs = Inr ys \<Longrightarrow> y \<in> set ys \<Longrightarrow> \<exists>x\<in>set xs. f x = Inr y"
  by (induction xs arbitrary: ys) (auto simp: bindE_eq_Inr)

lemma mapE_in_set1:
  "mapE f xs = Inr ys \<Longrightarrow> x \<in> set xs \<Longrightarrow> \<exists>y\<in>set ys. f x = Inr y"
  by (induction xs arbitrary: ys) (auto simp: bindE_eq_Inr)

lemma mapE_cong [fundef_cong]:
  "xs = ys \<Longrightarrow> (\<And>x. x \<in> set ys \<Longrightarrow> f x = g x) \<Longrightarrow> mapE f xs = mapE g ys"
  by (induction ys arbitrary: xs) auto

lemma mapE_inverse:
  assumes "mapE f xs = Inr ys" and "\<And>x y. x \<in> set xs \<Longrightarrow> f x = Inr y \<Longrightarrow> g y = x"
  shows "map g ys = xs"
  using assms
proof (induction xs arbitrary: ys)
  case Nil
  then show ?case by simp
next
  case (Cons x xs)
  then show ?case by (auto simp: bindE_eq_Inr)
qed

lemma mapE_projr: "mapE f xs = Inr ys \<Longrightarrow> ys = map (projr \<circ> f) xs \<and> (\<forall>x\<in>set xs. f x = Inr (projr (f x)))"
  by (induction xs arbitrary: ys) (auto simp: bindE_eq_Inr)

lemma mapE_perm:
  assumes "mapE f xs = Inr ys" "mset xs' = mset xs"
  shows "\<exists>ys'. mapE f xs' = Inr ys' \<and> mset ys = mset ys'"
proof -
  note p = mapE_projr [OF assms(1)]
  have "set xs' = set xs" using assms(2) by (rule mset_eq_setD)
  then have "mapE f xs' = Inr (map (projr \<circ> f) xs')" using p by (auto intro!: mapE_Inr_map)
  moreover have "mset ys = mset (map (projr \<circ> f) xs')" using p assms(2) by simp
  ultimately show ?thesis by blast
qed

fun mapAccumE :: "('s \<Rightarrow> 'a \<Rightarrow> 'e + 'b \<times> 's) \<Rightarrow> 's \<Rightarrow> 'a list \<Rightarrow> 'e + 'b list \<times> 's" where
  "mapAccumE f s [] = Inr ([], s)"
| "mapAccumE f s (x # xs) =
     bindE (f s x) (\<lambda>(y, s'). bindE (mapAccumE f s' xs) (\<lambda>(ys, s''). Inr (y # ys, s'')))"

lemma mapAccumE_cong [fundef_cong]:
  assumes "xs = ys" and "\<And>s x. x \<in> set ys \<Longrightarrow> f s x = g s x" and "s = t"
  shows "mapAccumE f s xs = mapAccumE g t ys"
  unfolding assms(1,3) using assms(2)
proof (induction ys arbitrary: t)
  case (Cons y ys)
  have "mapAccumE f u ys = mapAccumE g u ys" for u
    by (rule Cons.IH) (simp add: Cons.prems)
  then show ?case by (simp add: Cons.prems)
qed simp

fun foldE :: "('s \<Rightarrow> 'a \<Rightarrow> 'e + 's) \<Rightarrow> 's \<Rightarrow> 'a list \<Rightarrow> 'e + 's" where
  "foldE f s [] = Inr s"
| "foldE f s (x # xs) = bindE (f s x) (\<lambda>s'. foldE f s' xs)"

lemma foldE_append: "foldE f s (xs @ ys) = bindE (foldE f s xs) (\<lambda>s'. foldE f s' ys)"
proof (induction xs arbitrary: s)
  case Nil
  then show ?case by simp
next
  case (Cons x xs)
  then show ?case by (cases "f s x") simp_all
qed

lemma foldE_invariant:
  assumes "foldE f s xs = Inr s'" and "P s"
    and "\<And>s x s'. P s \<Longrightarrow> x \<in> set xs \<Longrightarrow> f s x = Inr s' \<Longrightarrow> P s'"
  shows "P s'"
  using assms
proof (induction xs arbitrary: s)
  case Nil
  then show ?case by simp
next
  case (Cons x xs)
  from Cons.prems(1) obtain t where t: "f s x = Inr t" "foldE f t xs = Inr s'"
    by (auto simp: bindE_eq_Inr)
  have "P t" by (rule Cons.prems(3) [OF Cons.prems(2) _ t(1)]) simp
  with t(2) show ?case by (rule Cons.IH) (rule Cons.prems(3), simp_all)
qed

lemma foldE_cong [fundef_cong]:
  assumes "s = t" and "xs = ys" and "\<And>s x. x \<in> set ys \<Longrightarrow> f s x = g s x"
  shows "foldE f s xs = foldE g t ys"
  unfolding assms(1,2) using assms(3)
proof (induction ys arbitrary: t)
  case (Cons y ys)
  have "foldE f u ys = foldE g u ys" for u by (rule Cons.IH) (simp add: Cons.prems)
  then show ?case by (simp add: Cons.prems)
qed simp

text \<open>A \<open>for ... of\<close> loop whose body only checks.\<close>

fun forE :: "('a \<Rightarrow> 'e + unit) \<Rightarrow> 'a list \<Rightarrow> 'e + unit" where
  "forE f [] = Inr ()"
| "forE f (x # xs) = bindE (f x) (\<lambda>_. forE f xs)"

lemma forE_eq_Inr [err_simps]: "forE f xs = Inr u \<longleftrightarrow> (\<forall>x\<in>set xs. f x = Inr ())"
  by (induction xs) (auto simp: bindE_eq_Inr)

section \<open>Lists without duplicates\<close>

text \<open>
  The loop \<open>xs.map((x) => { validate x; if (seen.has(x)) throw dup; seen.add(x); ... })\<close>: each
  element is validated, then compared with the ones before it.
\<close>

fun uniqueE :: "('a \<Rightarrow> 'e + 'b) \<Rightarrow> ('b \<Rightarrow> 'b \<Rightarrow> bool) \<Rightarrow> 'e \<Rightarrow> 'b list \<Rightarrow> 'a list \<Rightarrow> 'e + 'b list" where
  "uniqueE f clash dup seen [] = Inr []"
| "uniqueE f clash dup seen (x # xs) =
     bindE (f x) (\<lambda>y. if list_ex (\<lambda>s. clash s y) seen then Inl dup
       else bindE (uniqueE f clash dup (seen @ [y]) xs) (\<lambda>ys. Inr (y # ys)))"

lemma uniqueE_eq_Inr:
  "uniqueE f clash dup seen xs = Inr ys \<longleftrightarrow>
     mapE f xs = Inr ys \<and> (\<forall>s\<in>set seen. \<forall>y\<in>set ys. \<not> clash s y) \<and>
     sorted_wrt (\<lambda>a b. \<not> clash a b) ys"
proof (induction xs arbitrary: seen ys)
  case (Cons x xs)
  show ?case
  proof (cases "f x")
    case (Inr y)
    then show ?thesis
      using Cons.IH [of "seen @ [y]"] by (auto simp: bindE_eq_Inr list_ex_iff ball_Un)
  qed simp
qed auto

lemma sorted_wrt_distinct: "sorted_wrt (\<lambda>a b. k a \<noteq> k b) ys \<longleftrightarrow> distinct (map k ys)"
  by (induction ys) (auto simp: image_iff)

definition uniqueBy :: "('b \<Rightarrow> 'k) \<Rightarrow> ('a \<Rightarrow> 'e + 'b) \<Rightarrow> 'e \<Rightarrow> 'a list \<Rightarrow> 'e + 'b list" where
  "uniqueBy k f dup xs = uniqueE f (\<lambda>a b. k a = k b) dup [] xs"

lemma uniqueBy_eq_Inr:
  "uniqueBy k f dup xs = Inr ys \<longleftrightarrow> mapE f xs = Inr ys \<and> distinct (map k ys)"
  by (simp add: uniqueBy_def uniqueE_eq_Inr sorted_wrt_distinct)

fun findIndex :: "('a \<Rightarrow> bool) \<Rightarrow> 'a list \<Rightarrow> nat option" where
  "findIndex P [] = None"
| "findIndex P (x # xs) = (if P x then Some 0 else map_option Suc (findIndex P xs))"

lemma findIndex_None: "findIndex P xs = None \<longleftrightarrow> (\<forall>x\<in>set xs. \<not> P x)"
  by (induction xs) auto

lemma findIndex_Some: "findIndex P xs = Some i \<Longrightarrow> i < length xs \<and> P (xs ! i) \<and> (\<forall>j<i. \<not> P (xs ! j))"
  by (induction xs arbitrary: i) (auto split: if_splits simp: less_Suc_eq_0_disj)

text \<open>A list of records with distinct keys as a map, and an update of one of them in place.\<close>

definition keyed :: "('b \<Rightarrow> 'k) \<Rightarrow> 'b list \<Rightarrow> 'k \<Rightarrow> 'b option" where
  "keyed k xs = map_of (map (\<lambda>x. (k x, x)) xs)"

lemma keyed_simps [simp]:
  "keyed k [] = Map.empty" "keyed k (x # xs) = (keyed k xs)(k x \<mapsto> x)"
  by (simp_all add: keyed_def)

lemma keyed_Some: "keyed k xs a = Some x \<Longrightarrow> x \<in> set xs \<and> k x = a"
  by (auto simp: keyed_def dest: map_of_SomeD)

lemma keyed_update:
  "distinct (map k xs) \<Longrightarrow> i < length xs \<Longrightarrow> k x = k (xs ! i) \<Longrightarrow>
     keyed k (xs[i := x]) = (keyed k xs)(k x \<mapsto> x)"
proof (induction xs arbitrary: i)
  case (Cons y ys)
  show ?case
  proof (cases i)
    case (Suc j)
    have "k (ys ! j) \<noteq> k y" using Cons.prems Suc by (metis (no_types, lifting) Suc_less_eq
        distinct.simps(2) image_eqI length_Cons list.map(2) list.set_map nth_mem)
    then show ?thesis using Cons Suc by (auto simp: fun_eq_iff)
  qed (use Cons.prems in \<open>simp add: fun_eq_iff\<close>)
qed simp

lemma findIndex_keyed:
  "findIndex (\<lambda>x. k x = a) xs = Some i \<Longrightarrow> keyed k xs a = Some (xs ! i)"
  by (induction xs arbitrary: i) (auto split: if_splits)

lemma findIndex_keyed_None: "findIndex (\<lambda>x. k x = a) xs = None \<longleftrightarrow> keyed k xs a = None"
  by (induction xs) auto

lemma keyed_Some_iff:
  "distinct (map k xs) \<Longrightarrow> keyed k xs a = Some x \<longleftrightarrow> x \<in> set xs \<and> k x = a"
  by (induction xs) (auto simp: image_iff)

lemma keyed_None: "keyed k xs a = None \<longleftrightarrow> a \<notin> k ` set xs"
  by (induction xs) auto

lemma keyed_perm:
  assumes "distinct (map k xs)" and "mset xs = mset ys"
  shows "keyed k ys = keyed k xs"
proof
  fix a
  have "mset (map k xs) = mset (map k ys)" using assms(2) by simp
  then have ys: "distinct (map k ys)" using assms(1) by (metis mset_eq_imp_distinct_iff)
  have "set xs = set ys" using assms(2) by (rule mset_eq_setD)
  then have "keyed k ys a = Some x \<longleftrightarrow> keyed k xs a = Some x" for x
    by (simp add: keyed_Some_iff assms(1) ys)
  then show "keyed k ys a = keyed k xs a" by (metis not_Some_eq)
qed

section \<open>Sets and maps filled from a list\<close>

fun keep_first :: "'a list \<Rightarrow> 'a list" where
  "keep_first [] = []"
| "keep_first (x # xs) = x # filter (\<lambda>y. y \<noteq> x) (keep_first xs)"

lemma set_keep_first [simp]: "set (keep_first xs) = set xs"
  by (induction xs) auto

lemma distinct_keep_first [simp]: "distinct (keep_first xs)"
  by (induction xs) auto

lemma keep_first_distinct: "distinct xs \<Longrightarrow> keep_first xs = xs"
proof (induction xs)
  case Nil
  then show ?case by simp
next
  case (Cons x xs)
  have "filter (\<lambda>y. y \<noteq> x) xs = xs"
    using Cons.prems by (intro filter_True) auto
  then show ?case using Cons.IH Cons.prems by simp
qed

lemma length_keep_first_eq: "length (keep_first xs) = length xs \<longleftrightarrow> distinct xs"
proof
  assume eq: "length (keep_first xs) = length xs"
  have "card (set (keep_first xs)) = length (keep_first xs)"
    by (rule distinct_card) simp
  with eq show "distinct xs" by (intro card_distinct) simp
qed (simp add: keep_first_distinct)

lemma map_of_rev_distinct:
  assumes "distinct (map fst xs)"
  shows "map_of (rev xs) = map_of xs"
proof -
  have "distinct (map fst (rev xs))" using assms by (simp add: rev_map [symmetric])
  then show ?thesis using assms
    by (intro map_of_eqI) (auto simp: map_of_eq_Some_iff image_iff)
qed

section \<open>Sorting\<close>

lemma sort_eq_iff_mset: "sort xs = sort ys \<longleftrightarrow> mset xs = mset ys"
  by (metis mset_sort properties_for_sort sorted_sort)

lemma sort_eq_set: "sort xs = sort ys \<Longrightarrow> set xs = set ys"
  by (metis set_sort)

lemma sort_eq_distinct: "sort xs = sort ys \<Longrightarrow> distinct xs = distinct ys"
  by (metis distinct_sort)

lemma sort_key_distinct_sorted:
  "distinct (map f xs) \<Longrightarrow> sorted (map f xs) \<Longrightarrow> sort_key f xs = xs"
  by (simp add: sort_key_id_if_sorted)

lemma sort_key_perm_eq:
  assumes "mset xs = mset ys" and "inj_on f (set xs)"
  shows "sort_key f xs = sort_key f ys"
proof (rule properties_for_sort_key [symmetric])
  show "mset (sort_key f xs) = mset ys" using assms(1) by simp
  show "sorted (map f (sort_key f xs))" by simp
  show "\<And>k. k \<in> set (sort_key f xs) \<Longrightarrow>
      filter (\<lambda>x. f k = f x) (sort_key f xs) = filter (\<lambda>x. f k = f x) ys"
  proof -
    fix k assume "k \<in> set (sort_key f xs)"
    then have k: "k \<in> set xs" by simp
    have eq: "set xs = set ys" using assms(1) by (rule mset_eq_setD)
    have P: "\<And>zs. set zs = set xs \<Longrightarrow>
        filter (\<lambda>x. f k = f x) zs = replicate (count (mset zs) k) k"
    proof -
      fix zs assume z: "set zs = set xs"
      have "filter (\<lambda>x. f k = f x) zs = filter (\<lambda>x. k = x) zs"
        using z k assms(2) by (intro filter_cong) (auto dest: inj_onD)
      also have "\<dots> = replicate (count (mset zs) k) k"
        by (simp add: filter_eq_replicate_mset [symmetric] replicate_count_mset_eq_filter_eq)
      finally show "filter (\<lambda>x. f k = f x) zs = replicate (count (mset zs) k) k" .
    qed
    show "filter (\<lambda>x. f k = f x) (sort_key f xs) = filter (\<lambda>x. f k = f x) ys"
      using P [of "sort_key f xs"] P [of ys] eq assms(1) by simp
  qed
qed

end
