(* ===== verification/JsValues.thy ===== *)
theory JsValues
  imports Prelude "HOL-Library.Word"
begin

text \<open>
  The part of JavaScript the code rests on: strings, numbers, plain values, property access and
  the two standard-library routines with a content of their own (decimal printing of a number
  and \<open>Date.parse\<close>).

  \<^item> A string is a list of UTF-16 code units (\<open>jstr\<close>, each a \<open>16 word\<close>); \<open>lit ''abc''\<close> is the
    literal \<open>"abc"\<close>. \<open><\<close> on strings is the lexicographic order of \<open>List_Lexorder\<close> on code
    units, which is what \<open>left < right\<close> and the default \<open>Array.prototype.sort\<close> compare.
  \<^item> A finite number is its shortest decimal that round-trips, the form ECMAScript prints:
    \<open>Whole n\<close> for the integers below \<open>10^21\<close> in absolute value, \<open>Frac m e\<close> for every other
    \<open>m * 10^e\<close>. \<open>wf_num\<close> says which pairs are in that form. Both zeros are \<open>Whole 0\<close>, which no
    code here tells apart. \<open>NonFinite\<close> stands for \<open>NaN\<close> and the infinities.
  \<^item> \<open>val\<close> is a value seen as a tree: the JSON values, \<open>Undef\<close> (what a missing property reads
    as), and \<open>Exotic\<close> for everything that is neither (functions, symbols, class instances,
    cyclic objects). Objects are association lists in property order. Theory \<open>Canonical\<close> relates
    these trees to the object graph on the heap.
\<close>

section \<open>Strings\<close>

type_synonym jstr = "16 word list"

definition lit :: "string \<Rightarrow> jstr" where
  "lit s = map (\<lambda>c. word_of_nat (of_char c)) s"

lemma unat_unit_of_char: "unat (word_of_nat (of_char c) :: 16 word) = of_char c"
proof -
  have "of_char c < (256::nat)"
    using mod_less_divisor [of 256 "of_char c :: nat"] by (simp only: of_char_mod_256)
  then have "of_char c mod 65536 = (of_char c :: nat)" by (intro mod_less) linarith
  then show ?thesis by (simp add: unat_of_nat)
qed

lemma unit_of_char_inj:
  assumes "(word_of_nat (of_char c) :: 16 word) = word_of_nat (of_char d)"
  shows "c = d"
proof -
  have "(of_char c :: nat) = of_char d"
    using arg_cong [where f = unat, OF assms] unfolding unat_unit_of_char .
  then show ?thesis by simp
qed

lemma lit_eq [simp]: "lit s = lit t \<longleftrightarrow> s = t"
proof -
  have "inj (\<lambda>c. word_of_nat (of_char c) :: 16 word)"
    by (rule injI) (rule unit_of_char_inj)
  then show ?thesis by (simp add: lit_def inj_map_eq_map)
qed

lemma length_lit [simp]: "length (lit s) = length s"
  by (simp add: lit_def)

definition isLower :: "16 word \<Rightarrow> bool" where
  "isLower c \<longleftrightarrow> 97 \<le> c \<and> c \<le> 122"

definition isDigit :: "16 word \<Rightarrow> bool" where
  "isDigit c \<longleftrightarrow> 48 \<le> c \<and> c \<le> 57"

definition isHexLower :: "16 word \<Rightarrow> bool" where
  "isHexLower c \<longleftrightarrow> isDigit c \<or> 97 \<le> c \<and> c \<le> 102"

section \<open>Numbers\<close>

datatype number = Whole int | Frac int int | NonFinite

definition digit :: "nat \<Rightarrow> 16 word" where
  "digit d = word_of_nat (48 + d)"

fun decDigits :: "nat \<Rightarrow> jstr" where
  "decDigits n = (if n < 10 then [digit n] else decDigits (n div 10) @ [digit (n mod 10)])"

declare decDigits.simps [simp del]

definition natOf :: "jstr \<Rightarrow> nat" where
  "natOf ds = foldl (\<lambda>a c. 10 * a + (unat c - 48)) 0 ds"

lemma unat_digit: "d < 10 \<Longrightarrow> unat (digit d) = 48 + d"
proof -
  assume "d < 10"
  then have "(48 + d) mod 65536 = 48 + d" by (intro mod_less) linarith
  then show ?thesis unfolding digit_def unat_of_nat by simp
qed

lemma isDigit_digit: "d < 10 \<Longrightarrow> isDigit (digit d)"
  by (simp add: isDigit_def word_le_nat_alt unat_digit)

lemma natOf_decDigits [simp]: "natOf (decDigits n) = n"
proof (induction n rule: decDigits.induct)
  case (1 n)
  show ?case
  proof (cases "n < 10")
    case True
    then show ?thesis by (simp add: decDigits.simps [of n] natOf_def unat_digit)
  next
    case False
    then have "natOf (decDigits n) = 10 * natOf (decDigits (n div 10)) + n mod 10"
      by (simp add: decDigits.simps [of n] natOf_def unat_digit)
    with "1.IH" [OF False] show ?thesis by simp
  qed
qed

lemma decDigits_inject [simp]: "decDigits m = decDigits n \<longleftrightarrow> m = n"
  by (metis natOf_decDigits)

lemma decDigits_isDigit: "c \<in> set (decDigits n) \<Longrightarrow> isDigit c"
proof (induction n rule: decDigits.induct)
  case (1 n)
  then show ?case
    by (cases "n < 10") (auto simp: decDigits.simps [of n] isDigit_digit)
qed

lemma decDigits_not_Nil [simp]: "decDigits n \<noteq> []"
  by (subst decDigits.simps) simp

lemma hd_decDigits_nonzero: "0 < n \<Longrightarrow> hd (decDigits n) \<noteq> digit 0"
proof (induction n rule: decDigits.induct)
  case (1 n)
  show ?case
  proof (cases "n < 10")
    case True
    with "1.prems" have "unat (digit n) \<noteq> unat (digit 0)" by (simp add: unat_digit)
    with True show ?thesis by (auto simp: decDigits.simps [of n])
  next
    case False
    with "1.IH" show ?thesis by (simp add: decDigits.simps [of n] hd_append)
  qed
qed

text \<open>The well-formed decimals: each finite number has exactly one.\<close>

definition wf_num :: "number \<Rightarrow> bool" where
  "wf_num n = (case n of
     Whole i \<Rightarrow> \<bar>i\<bar> < 10 ^ 21
   | Frac m e \<Rightarrow> m mod 10 \<noteq> 0 \<and> (e < 0 \<or> 21 < int (length (decDigits (nat \<bar>m\<bar>))) + e)
   | NonFinite \<Rightarrow> False)"

text \<open>\<open>String(n)\<close> for an integer, then for any finite number (ECMA-262, \<open>Number::toString\<close>).\<close>

definition intStr :: "int \<Rightarrow> jstr" where
  "intStr i = (if i < 0 then lit ''-'' @ decDigits (nat (- i)) else decDigits (nat i))"

definition numberStr :: "number \<Rightarrow> jstr" where
  "numberStr x = (case x of
     Whole i \<Rightarrow> intStr i
   | Frac m e \<Rightarrow>
       (let ds = decDigits (nat \<bar>m\<bar>); k = int (length ds); n = k + e;
            sign = (if m < 0 then lit ''-'' else [])
        in sign @
          (if k \<le> n \<and> n \<le> 21 then ds @ replicate (nat (n - k)) (digit 0)
           else if 0 < n \<and> n \<le> 21 then take (nat n) ds @ lit ''.'' @ drop (nat n) ds
           else if - 6 < n \<and> n \<le> 0 then lit ''0.'' @ replicate (nat (- n)) (digit 0) @ ds
           else take 1 ds @ (if k = 1 then [] else lit ''.'' @ drop 1 ds)
                @ lit ''e'' @ (if n - 1 < 0 then lit ''-'' else lit ''+'')
                @ decDigits (nat \<bar>n - 1\<bar>)))
   | NonFinite \<Rightarrow> lit ''null'')"

text \<open>\<open>Number.isSafeInteger\<close>, and the order on finite numbers by their value.\<close>

definition maxSafe :: int where
  "maxSafe = 9007199254740991"

definition isSafe :: "int \<Rightarrow> bool" where
  "isSafe i \<longleftrightarrow> \<bar>i\<bar> \<le> maxSafe"

lemma safe_wf: "isSafe i \<Longrightarrow> wf_num (Whole i)"
  by (simp add: wf_num_def isSafe_def maxSafe_def)

lemma safe_bounds: "isSafe i \<longleftrightarrow> - maxSafe \<le> i \<and> i \<le> maxSafe"
  by (auto simp: isSafe_def)

definition decimal :: "number \<Rightarrow> int \<times> int" where
  "decimal x = (case x of Whole i \<Rightarrow> (i, 0) | Frac m e \<Rightarrow> (m, e) | NonFinite \<Rightarrow> (0, 0))"

definition num_le :: "number \<Rightarrow> number \<Rightarrow> bool" where
  "num_le x y = (case (decimal x, decimal y) of ((m, e), (m', e')) \<Rightarrow>
     m * 10 ^ nat (e - min e e') \<le> m' * 10 ^ nat (e' - min e e'))"

definition num_less :: "number \<Rightarrow> number \<Rightarrow> bool" where
  "num_less x y = (\<not> num_le y x)"

lemma num_le_Whole [simp]: "num_le (Whole i) (Whole j) \<longleftrightarrow> i \<le> j"
  by (simp add: num_le_def decimal_def)

lemma num_less_Whole [simp]: "num_less (Whole i) (Whole j) \<longleftrightarrow> i < j"
  by (auto simp: num_less_def)

section \<open>Values and property access\<close>

datatype val = Undef | Null | Bool bool | Num number | Str jstr
  | Arr "val list" | Obj "(jstr \<times> val) list" | Exotic

definition isRecord :: "val \<Rightarrow> bool" where
  "isRecord v = (case v of Obj _ \<Rightarrow> True | _ \<Rightarrow> False)"

definition props :: "val \<Rightarrow> (jstr \<times> val) list" where
  "props v = (case v of Obj kvs \<Rightarrow> kvs | _ \<Rightarrow> [])"

text \<open>\<open>Object.keys(v)\<close>, \<open>Object.hasOwn(v, k)\<close> and \<open>v.k\<close> on an object.\<close>

definition keys :: "val \<Rightarrow> jstr list" where
  "keys v = map fst (props v)"

definition hasOwn :: "val \<Rightarrow> jstr \<Rightarrow> bool" where
  "hasOwn v k \<longleftrightarrow> k \<in> set (keys v)"

definition field :: "val \<Rightarrow> jstr \<Rightarrow> val" where
  "field v k = (case map_of (props v) k of None \<Rightarrow> Undef | Some x \<Rightarrow> x)"

abbreviation get :: "val \<Rightarrow> string \<Rightarrow> val" where
  "get v k \<equiv> field v (lit k)"

text \<open>\<open>delete\<close> of a property, and the rest of a destructuring pattern.\<close>

definition without :: "val \<Rightarrow> string \<Rightarrow> val" where
  "without v k = Obj (filter (\<lambda>kv. fst kv \<noteq> lit k) (props v))"

text \<open>
  The comparison every \<open>assertExactKeys\<close> of the code makes: the sorted own keys against the
  sorted expected keys.
\<close>

definition exactKeys :: "val \<Rightarrow> string list \<Rightarrow> bool" where
  "exactKeys v ks \<longleftrightarrow> sort (keys v) = sort (map lit ks)"

text \<open>The plain finite values with distinct property names.\<close>

fun is_json :: "val \<Rightarrow> bool" where
  "is_json Undef = False"
| "is_json Null = True"
| "is_json (Bool b) = True"
| "is_json (Num n) = wf_num n"
| "is_json (Str s) = True"
| "is_json (Arr xs) = list_all is_json xs"
| "is_json (Obj kvs) = (distinct (map fst kvs) \<and> list_all (\<lambda>kv. is_json (snd kv)) kvs)"
| "is_json Exotic = False"

lemma isRecord_Obj [simp]: "isRecord (Obj kvs)"
  by (simp add: isRecord_def)

lemma isRecord_iff: "isRecord v \<longleftrightarrow> (\<exists>kvs. v = Obj kvs)"
  by (cases v) (simp_all add: isRecord_def)

lemma props_Obj [simp]: "props (Obj kvs) = kvs"
  by (simp add: props_def)

lemma keys_Obj [simp]: "keys (Obj kvs) = map fst kvs"
  by (simp add: keys_def)

lemma hasOwn_Obj [simp]: "hasOwn (Obj kvs) k \<longleftrightarrow> k \<in> fst ` set kvs"
  by (simp add: hasOwn_def)

lemma field_Obj_Nil [simp]: "field (Obj []) k = Undef"
  by (simp add: field_def)

lemma field_Obj_Cons [simp]:
  "field (Obj ((k', x) # kvs)) k = (if k' = k then x else field (Obj kvs) k)"
  by (simp add: field_def)

lemma field_append [simp]:
  "field (Obj (kvs @ kvs')) k =
     (if k \<in> fst ` set kvs then field (Obj kvs) k else field (Obj kvs') k)"
  by (auto simp: field_def map_add_def dom_map_of_conv_image_fst [symmetric]
      split: option.splits)

lemma exactKeys_same [simp]: "map fst kvs = map lit ks \<Longrightarrow> exactKeys (Obj kvs) ks"
  by (simp add: exactKeys_def)

lemma exactKeys_Obj:
  "exactKeys (Obj kvs) ks \<longleftrightarrow> mset (map fst kvs) = mset (map lit ks)"
  unfolding exactKeys_def keys_Obj by (rule sort_eq_iff_mset)

lemma exactKeys_set: "exactKeys v ks \<Longrightarrow> set (keys v) = lit ` set ks"
  unfolding exactKeys_def by (drule sort_eq_set) simp

lemma field_is_json:
  "is_json v \<Longrightarrow> hasOwn v k \<Longrightarrow> is_json (field v k)"
  by (cases v) (auto simp: field_def hasOwn_def keys_def props_def list_all_iff
      split: option.splits dest: map_of_SomeD)

lemma exactKeys_field_json:
  assumes "exactKeys v ks" "is_json v" "k \<in> set ks"
  shows "is_json (get v k)"
proof (rule field_is_json [OF assms(2)])
  show "hasOwn v (lit k)" using exactKeys_set [OF assms(1)] assms(3) by (simp add: hasOwn_def)
qed

lemma without_Obj [simp]: "without (Obj kvs) k = Obj (filter (\<lambda>kv. fst kv \<noteq> lit k) kvs)"
  by (simp add: without_def)

lemma isRecord_without [simp]: "isRecord (without v k)"
  by (simp add: without_def)

lemma field_without: "field (without v k) k' = (if k' = lit k then Undef else field v k')"
proof -
  have "map_of (filter (\<lambda>kv. fst kv \<noteq> lit k) kvs) k' = (if k' = lit k then None else map_of kvs k')" for kvs
    by (induction kvs) auto
  then have "map_of (filter (\<lambda>kv. fst kv \<noteq> lit k) (props v)) k' =
      (if k' = lit k then None else map_of (props v) k')" .
  then show ?thesis by (simp only: without_def field_def props_Obj) simp
qed

lemma is_json_without: "is_json v \<Longrightarrow> is_json (without v k)"
  by (cases v) (auto simp: without_def props_def list_all_iff distinct_map inj_on_def)

lemma is_json_list_all [simp]: "is_json (Arr xs) \<longleftrightarrow> (\<forall>x\<in>set xs. is_json x)"
  by (simp add: list_all_iff)

section \<open>Typed reads\<close>

definition safeInt :: "val \<Rightarrow> int option" where
  "safeInt v = (case v of Num (Whole i) \<Rightarrow> if isSafe i then Some i else None | _ \<Rightarrow> None)"

definition posSafeInt :: "val \<Rightarrow> int option" where
  "posSafeInt v = (case safeInt v of Some i \<Rightarrow> if 1 \<le> i then Some i else None | None \<Rightarrow> None)"

definition strOf :: "val \<Rightarrow> jstr option" where
  "strOf v = (case v of Str s \<Rightarrow> Some s | _ \<Rightarrow> None)"

definition arrOf :: "val \<Rightarrow> val list option" where
  "arrOf v = (case v of Arr xs \<Rightarrow> Some xs | _ \<Rightarrow> None)"

lemma safeInt_eq_Some: "safeInt v = Some i \<longleftrightarrow> v = Num (Whole i) \<and> isSafe i"
  by (auto simp: safeInt_def split: val.splits number.splits)

lemma posSafeInt_eq_Some: "posSafeInt v = Some i \<longleftrightarrow> v = Num (Whole i) \<and> isSafe i \<and> 1 \<le> i"
  by (auto simp: posSafeInt_def safeInt_def split: val.splits number.splits option.splits if_splits)

lemma strOf_eq_Some [simp]: "strOf v = Some s \<longleftrightarrow> v = Str s"
  by (cases v) (simp_all add: strOf_def)

lemma arrOf_eq_Some [simp]: "arrOf v = Some xs \<longleftrightarrow> v = Arr xs"
  by (cases v) (simp_all add: arrOf_def)

lemma arrOf_simps [simp]: "arrOf (Arr xs) = Some xs" "strOf (Str s) = Some s"
  by simp_all

lemma safeInt_Whole [simp]:
  "safeInt (Num (Whole i)) = (if isSafe i then Some i else None)"
  "posSafeInt (Num (Whole i)) = (if isSafe i \<and> 1 \<le> i then Some i else None)"
  by (simp_all add: safeInt_def posSafeInt_def)

end
