(* ===== verification/Errors.thy ===== *)
theory Errors
  imports Main
begin

text \<open>
  The exceptions the modelled code throws, as one datatype: an exception class of the source is a
  constructor of \<open>exn\<close>, its \<open>code\<close> field the argument. A body that throws is a value \<open>Inl e\<close>,
  so an exception of one module passes through its callers as it does in the code, and a
  \<open>catch\<close> with an \<open>instanceof\<close> test is a case distinction on \<open>e\<close>. Messages and diagnostic
  paths, which no code reads back, are left out.
\<close>

text \<open>\<open>GateErrorCode\<close> (gates.ts).\<close>

datatype gate_code = GInvalidReading | GInvalidPolicy | GInvalidCondition | GInvalidPointer
  | GInvalidEvaluationInput | GInvalidEvidence | GDuplicateReading | GReadingInputMismatch
  | GConditionDepthLimit | GConditionNodeLimit

text \<open>\<open>BudgetErrorCode\<close> (budgets.ts).\<close>

datatype budget_code = BInvalidLedger | BDuplicateBudget | BBudgetNotConfigured
  | BInvalidConsumption | BInvalidEscalation | BDuplicateCriterion | BDuplicateReading
  | BDuplicateAttempt | BDuplicateAllowedResponse | BInvalidAllowance | BDuplicateAllowance
  | BAllowanceNotAuthorized | BAllowanceMismatch | BAllowanceAuthorityMismatch
  | BAllowanceUnitNotAuthorized | BAllowanceLimitExceeded | BBudgetOverflow

text \<open>\<open>CompletionAccountingErrorCode\<close> (completion.ts).\<close>

datatype completion_code = CInvalidRequirements | CInvalidSubmission | CInvalidAssessment
  | CTaskReferenceMismatch | CDuplicateCriterion | CUnknownCriterion | CMissingCriterion
  | CRequiredSkip | CInvalidWaiver | CInvalidSupersession | CDuplicateCompletionEvidence

text \<open>\<open>GraphCompilationErrorCode\<close> (graph.ts).\<close>

datatype graph_code = WDuplicateId | WDuplicateKey | WInvalidInput | WInvalidIdentity
  | WInvalidKey | WInvalidGeneration | WInvalidRelation | WUnknownReference | WInvalidParent
  | WContainmentCycle | WDependencyCycle | WSupersessionCycle | WInvalidSupersession
  | WInvalidCompletionPolicy | WInvalidSource

text \<open>\<open>IterationError["code"]\<close> (iteration.ts).\<close>

datatype iteration_code = IInvalidIteration | IAttemptLimitMismatch

text \<open>\<open>RunTransitionErrorCode\<close> (run.ts).\<close>

datatype run_code = RAlreadyInstantiated | RNotInstantiated | RInvalidCommand | RInvalidEvent
  | RInvalidEventDigest | RInvalidEventIdentity | RInvalidSequence | RDuplicateEvent
  | RIdentityMismatch | RStaleRevision | RInvalidRevision

text \<open>\<open>DataflowErrorCode\<close> (dataflow.ts).\<close>

datatype dataflow_code = DInvalidRecord | DInvalidPointer | DMappingLimit | DMappingKeyConflict
  | DDestinationCollision | DSourceMissing | DPhaseDependency | DUndeclaredOutput
  | DEvidenceNotAllowed | DCurrentItemNotAllowed | DSourceBindingConflict

text \<open>\<open>CandidateErrorCode\<close> (candidates.ts).\<close>

datatype candidate_code = KInvalidCandidate | KGraphMismatch | KPhaseMismatch | KTaskMismatch
  | KTaskSetMismatch | KInvalidTaskSetDigest | KInvalidOutputSetDigest | KOutputAttemptMismatch
  | KDuplicateOutputSlot | KDuplicateTask | KInvalidAssessment | KUnacceptedAssessment
  | KInvalidAssessmentDigest | KDuplicateAssessment | KUnknownAssessment | KMissingAssessment
  | KAssessmentTaskMismatch | KInvalidDecision | KInvalidDecisionDigest | KInvalidGateEvaluation
  | KInvalidClosure | KCandidateMismatch | KPolicyMismatch | KRejectedGate | KInvalidApproval
  | KRejectedAuthority | KWrongAuthority

text \<open>\<open>LifecycleErrorCode\<close> (lifecycle.ts).\<close>

datatype lifecycle_code = LInvalidInput | LPhaseMismatch | LCandidateRequired
  | LGateCandidateMismatch | LGatePolicyMismatch | LDecisionPolicyMismatch
  | LDecisionCandidateMismatch | LDecisionBeforeGate | LDuplicateDecision | LMemberUndecided
  | LWrongAuthority | LClosureSourceMissing | LClosureEscalationConflict | LDuplicateEscalation
  | LEscalationCandidateMismatch | LEscalationPolicyMismatch | LEscalationOwnerMismatch
  | LEscalationContextMismatch

text \<open>\<open>FanOutErrorCode\<close> (fanout.ts).\<close>

datatype fanout_code = FInvalidFanOut | FBoundExceeded | FCollectionSchema | FItemSchema
  | FTaskInputSchema | FInvalidIdentity | FDuplicateIdentity | FUnknownDependency
  | FDependencyCycle | FTaskCollision

text \<open>
  The runtime throws plain \<open>TypeError\<close>s. The one that its runner tells apart, by the words
  \<open>stale or expired lease fence\<close> in the message, is \<open>StaleLeaseFence\<close>; \<open>ProtocolError\<close> is the
  protocol codec's exception, \<open>RunnerFault\<close> what an injected fault throws, and \<open>HostError\<close>
  what an effect host throws.
\<close>

datatype exn = TypeError
  | StaleLeaseFence | ProtocolError | RunnerFault | HostError | AggregateError
  | GateError gate_code
  | BudgetError budget_code
  | CompletionAccountingError completion_code
  | GraphCompilationError graph_code
  | GraphValidationError
  | ReadinessError
  | IterationError iteration_code
  | RunTransitionError run_code
  | ResumeBindingError
  | DataflowError dataflow_code
  | CandidateError candidate_code
  | LifecycleError lifecycle_code
  | IntegrationError
  | FanOutError fanout_code

end
