(* ===== verification/Canonical.thy ===== *)
theory Canonical
  imports JsValues Errors
begin

unbundle bit_operations_syntax

text \<open>
  packages/kernel/src/canonical.ts: the snapshot of an untrusted JavaScript value into a frozen
  JSON value, its canonical serialization, UTF-8 encoding and digest. This theory holds the
  definitions and the correctness of the snapshot; theory \<open>CanonicalCodec\<close> proves that the
  serialization and the encoding lose nothing.

  An untrusted value lives in an object graph: \<open>heap\<close> maps an address to an object, that is its
  kind, its prototype and its own property descriptors in \<open>Reflect.ownKeys\<close> order. Objects may
  share structure or point back to themselves. \<open>snapshotJsonValue\<close> walks the graph with the list
  of the objects it is inside of (the code's \<open>ancestors\<close> set) and yields a \<open>val\<close> tree.
\<close>

section \<open>Object graphs\<close>

datatype js = JUndef | JNull | JBool bool | JNum number | JStr jstr | JRef nat | JOther

datatype pkey = PStr jstr | PSym nat

text \<open>A property descriptor: a data property with its \<open>enumerable\<close> flag, or an accessor.\<close>

datatype descriptor = DataProp js bool | AccessorProp

datatype prototype = ObjectPrototype | NullPrototype | OtherPrototype

text \<open>\<open>objThrows\<close> is set for an object (a proxy) whose reflection traps throw.\<close>

record jsobj =
  objArray :: bool
  objProto :: prototype
  objThrows :: bool
  objProps :: "(pkey \<times> descriptor) list"

type_synonym heap = "(nat \<times> jsobj) list"

section \<open>The snapshot\<close>

text \<open>\<open>Inl ()\<close> is the code's \<open>INVALID_JSON_VALUE\<close>.\<close>

type_synonym snapshot_result = "unit + val"

definition snapshotProp :: "(js \<Rightarrow> snapshot_result) \<Rightarrow> descriptor option \<Rightarrow> snapshot_result" where
  "snapshotProp snap d = (case d of Some (DataProp v True) \<Rightarrow> snap v | _ \<Rightarrow> Inl ())"

text \<open>A key of an array of \<open>n\<close> elements that is a symbol, or neither \<open>length\<close> nor an index.\<close>

definition foreignKey :: "nat \<Rightarrow> pkey \<Rightarrow> bool" where
  "foreignKey n key = (case key of PSym _ \<Rightarrow> True
     | PStr k \<Rightarrow> k \<noteq> lit ''length'' \<and> k \<notin> set (map decDigits [0..<n]))"

definition snapshotJsonArray ::
  "(js \<Rightarrow> snapshot_result) \<Rightarrow> (pkey \<times> descriptor) list \<Rightarrow> snapshot_result" where
  "snapshotJsonArray snap ds =
     (case map_of ds (PStr (lit ''length'')) of
        Some (DataProp (JNum (Whole n)) _) \<Rightarrow>
          if \<not> isSafe n \<or> n < 0 \<or> int (length ds) \<noteq> n + 1 then Inl ()
          else bindE (mapE (\<lambda>i. snapshotProp snap (map_of ds (PStr (decDigits i)))) [0..<nat n])
            (\<lambda>items.
              if \<exists>key\<in>set (map fst ds). foreignKey (length items) key then Inl ()
              else Inr (Arr items))
      | _ \<Rightarrow> Inl ())"

definition snapshotJsonObject ::
  "(js \<Rightarrow> snapshot_result) \<Rightarrow> (pkey \<times> descriptor) list \<Rightarrow> snapshot_result" where
  "snapshotJsonObject snap ds =
     bindE (mapE (\<lambda>(key, d). case key of PSym _ \<Rightarrow> Inl ()
              | PStr k \<Rightarrow> bindE (snapshotProp snap (Some d)) (\<lambda>item. Inr (k, item))) ds)
       (\<lambda>kvs. Inr (Obj kvs))"

lemma fresh_ancestor_smaller:
  assumes "map_of h a = Some obj" and "a \<notin> set ancestors"
  shows "card (set (map fst h) - set (a # ancestors)) < card (set (map fst h) - set ancestors)"
proof (rule psubset_card_mono)
  have "a \<in> set (map fst h)" using map_of_SomeD [OF assms(1)] by force
  with assms(2) show "set (map fst h) - set (a # ancestors) \<subset> set (map fst h) - set ancestors"
    by auto
qed simp

function snapshotJsonValue :: "heap \<Rightarrow> js \<Rightarrow> nat list \<Rightarrow> snapshot_result" where
  "snapshotJsonValue h v ancestors =
     (case v of
        JNull \<Rightarrow> Inr Null
      | JStr s \<Rightarrow> Inr (Str s)
      | JBool b \<Rightarrow> Inr (Bool b)
      | JNum n \<Rightarrow> (if wf_num n then Inr (Num n) else Inl ())
      | JRef a \<Rightarrow>
          (case map_of h a of
             None \<Rightarrow> Inl ()
           | Some obj \<Rightarrow>
               if objThrows obj then Inl ()
               else if \<not> objArray obj \<and> objProto obj = OtherPrototype then Inl ()
               else if a \<in> set ancestors then Inl ()
               else if objArray obj
                 then snapshotJsonArray (\<lambda>x. snapshotJsonValue h x (a # ancestors)) (objProps obj)
                 else snapshotJsonObject (\<lambda>x. snapshotJsonValue h x (a # ancestors)) (objProps obj))
      | _ \<Rightarrow> Inl ())"
  by pat_completeness auto

termination
  by (relation "measure (\<lambda>(h, v, ancestors). card (set (map fst h) - set ancestors))")
    (simp_all add: fresh_ancestor_smaller del: set_map set_simps)

declare snapshotJsonValue.simps [simp del]

definition canonicalValue :: "heap \<Rightarrow> js \<Rightarrow> exn + val" where
  "canonicalValue h v = (case snapshotJsonValue h v [] of Inl _ \<Rightarrow> Inl TypeError | Inr x \<Rightarrow> Inr x)"

definition isJsonValue :: "heap \<Rightarrow> js \<Rightarrow> bool" where
  "isJsonValue h v = (case snapshotJsonValue h v [] of Inl _ \<Rightarrow> False | Inr _ \<Rightarrow> True)"

text \<open>
  The rest of the kernel reads its arguments as trees. On a tree the same snapshot is the test
  \<open>is_json\<close>; each entry point throws its own error code when it fails.
\<close>

definition snapshotCanonical :: "exn \<Rightarrow> val \<Rightarrow> exn + val" where
  "snapshotCanonical e v = (if is_json v then Inr v else Inl e)"

section \<open>Serialization\<close>

definition isHigh :: "16 word \<Rightarrow> bool" where
  "isHigh c \<longleftrightarrow> 0xD800 \<le> c \<and> c \<le> 0xDBFF"

definition isLow :: "16 word \<Rightarrow> bool" where
  "isLow c \<longleftrightarrow> 0xDC00 \<le> c \<and> c \<le> 0xDFFF"

definition hexDigit :: "nat \<Rightarrow> 16 word" where
  "hexDigit n = (if n < 10 then word_of_nat (48 + n) else word_of_nat (87 + n))"

definition unicodeEscape :: "16 word \<Rightarrow> jstr" where
  "unicodeEscape c = lit [CHR 0x5C, CHR ''u''] @
     map hexDigit [unat c div 4096, unat c div 256 mod 16, unat c div 16 mod 16, unat c mod 16]"

text \<open>One code unit of \<open>JSON.stringify\<close> of a string (\<open>QuoteJSONString\<close> of ECMA-262).\<close>

definition quoteUnit :: "16 word \<Rightarrow> jstr" where
  "quoteUnit c =
     (if c = 0x08 then lit [CHR 0x5C, CHR ''b''] else if c = 0x09 then lit [CHR 0x5C, CHR ''t'']
      else if c = 0x0A then lit [CHR 0x5C, CHR ''n''] else if c = 0x0C then lit [CHR 0x5C, CHR ''f'']
      else if c = 0x0D then lit [CHR 0x5C, CHR ''r''] else if c = 0x22 then lit [CHR 0x5C, CHR 0x22]
      else if c = 0x5C then lit [CHR 0x5C, CHR 0x5C]
      else if c < 0x20 \<or> isHigh c \<or> isLow c then unicodeEscape c
      else [c])"

fun quoteUnits :: "jstr \<Rightarrow> jstr" where
  "quoteUnits [] = []"
| "quoteUnits [c] = quoteUnit c"
| "quoteUnits (c # d # cs) =
     (if isHigh c \<and> isLow d then c # d # quoteUnits cs else quoteUnit c @ quoteUnits (d # cs))"

definition quoteStr :: "jstr \<Rightarrow> jstr" where
  "quoteStr s = 0x22 # quoteUnits s @ [0x22]"

fun joinWith :: "jstr \<Rightarrow> jstr list \<Rightarrow> jstr" where
  "joinWith sep [] = []"
| "joinWith sep [x] = x"
| "joinWith sep (x # y # xs) = x @ sep @ joinWith sep (y # xs)"

fun serialize :: "val \<Rightarrow> jstr" where
  "serialize Null = lit ''null''"
| "serialize (Bool b) = (if b then lit ''true'' else lit ''false'')"
| "serialize (Num n) = numberStr n"
| "serialize (Str s) = quoteStr s"
| "serialize (Arr xs) = lit ''['' @ joinWith (lit '','') (map serialize xs) @ lit '']''"
| "serialize (Obj kvs) =
     (let texts = map (\<lambda>kv. (fst kv, serialize (snd kv))) kvs;
          entries = map (\<lambda>key. quoteStr key @ lit '':'' @ the (map_of texts key)) (sort (map fst kvs))
      in lit ''{'' @ joinWith (lit '','') entries @ lit ''}'')"
| "serialize Undef = lit ''undefined''"
| "serialize Exotic = lit ''undefined''"

definition canonicalSerialize :: "val \<Rightarrow> jstr" where
  "canonicalSerialize v = serialize v"

section \<open>UTF-8 and the digest\<close>

text \<open>Iterating a string by code points: a surrogate pair is one, a lone surrogate is itself.\<close>

fun codePoints :: "jstr \<Rightarrow> nat list" where
  "codePoints [] = []"
| "codePoints [c] = [unat c]"
| "codePoints (c # d # cs) =
     (if isHigh c \<and> isLow d
      then (0x10000 + (unat c - 0xD800) * 0x400 + (unat d - 0xDC00)) # codePoints cs
      else unat c # codePoints (d # cs))"

definition encodeCodePoint :: "nat \<Rightarrow> nat list" where
  "encodeCodePoint cp =
     (if cp \<le> 0x7f then [cp]
      else if cp \<le> 0x7ff then [0xc0 OR (drop_bit 6 cp), 0x80 OR (cp AND 0x3f)]
      else if cp \<le> 0xffff then
        [0xe0 OR (drop_bit 12 cp), 0x80 OR (drop_bit 6 cp AND 0x3f), 0x80 OR (cp AND 0x3f)]
      else
        [0xf0 OR (drop_bit 18 cp), 0x80 OR (drop_bit 12 cp AND 0x3f),
         0x80 OR (drop_bit 6 cp AND 0x3f), 0x80 OR (cp AND 0x3f)])"

type_synonym bytes = "8 word list"

definition encodeUtf8 :: "jstr \<Rightarrow> bytes" where
  "encodeUtf8 s = map word_of_nat (concat (map encodeCodePoint (codePoints s)))"

definition canonicalBytes :: "val \<Rightarrow> bytes" where
  "canonicalBytes v = encodeUtf8 (canonicalSerialize v)"

text \<open>The injected \<open>Sha256\<close> implementation is a parameter of every definition that digests.\<close>

type_synonym sha256 = "bytes \<Rightarrow> jstr"

definition sha256Pattern :: "jstr \<Rightarrow> bool" where
  "sha256Pattern s \<longleftrightarrow> length s = 64 \<and> list_all isHexLower s"

definition canonicalDigest :: "val \<Rightarrow> sha256 \<Rightarrow> exn + jstr" where
  "canonicalDigest v sha =
     (let digest = sha (canonicalBytes v)
      in if \<not> sha256Pattern digest then Inl TypeError else Inr digest)"

definition isSha256Digest :: "val \<Rightarrow> bool" where
  "isSha256Digest v = (case v of Str s \<Rightarrow> sha256Pattern s | _ \<Rightarrow> False)"

definition sha256Digest :: "jstr \<Rightarrow> exn + jstr" where
  "sha256Digest s = (if \<not> isSha256Digest (Str s) then Inl TypeError else Inr s)"

lemma isSha256Digest_Str [simp]: "isSha256Digest (Str s) \<longleftrightarrow> sha256Pattern s"
  by (simp add: isSha256Digest_def)

lemma isSha256Digest_iff: "isSha256Digest v \<longleftrightarrow> (\<exists>s. v = Str s \<and> sha256Pattern s)"
  by (cases v) (simp_all add: isSha256Digest_def)

lemma canonicalDigest_eq_Inr [err_simps]:
  "canonicalDigest v sha = Inr d \<longleftrightarrow> d = sha (canonicalBytes v) \<and> sha256Pattern d"
  by (auto simp: canonicalDigest_def Let_def)

lemma canonicalDigest_pattern: "canonicalDigest v sha = Inr d \<Longrightarrow> sha256Pattern d"
  unfolding canonicalDigest_eq_Inr by (rule conjunct2)

lemma snapshotCanonical_eq_Inr [err_simps]:
  "snapshotCanonical e v = Inr w \<longleftrightarrow> w = v \<and> is_json v"
  by (auto simp: snapshotCanonical_def)

text \<open>
  \<open>assertExactKeys\<close>, of which each kernel module has a copy that differs in the error it throws:
  the value is a record and its own keys are exactly the expected ones.
\<close>

definition assertExactKeys :: "val \<Rightarrow> string list \<Rightarrow> exn \<Rightarrow> exn + unit" where
  "assertExactKeys v ks e = (if isRecord v \<and> exactKeys v ks then Inr () else Inl e)"

lemma assertExactKeys_eq_Inr [err_simps]:
  "assertExactKeys v ks e = Inr u \<longleftrightarrow> isRecord v \<and> exactKeys v ks"
  by (simp add: assertExactKeys_def)

lemma assertExactKeys_Obj [simp]:
  "map fst kvs = map lit ks \<Longrightarrow> assertExactKeys (Obj kvs) ks e = Inr ()"
  by (simp add: assertExactKeys_def)

end
