(* ===== verification/CanonicalSnapshot.thy ===== *)
theory CanonicalSnapshot
  imports Canonical
begin

text \<open>
  Correctness of \<open>snapshotJsonValue\<close> (canonical.ts). \<open>denotes h v x\<close> is the abstract contract:
  the object graph at \<open>v\<close> is the finite JSON tree \<open>x\<close>, every property on the way a plain
  enumerable data property of a plain object or a dense array. The walk with its set of ancestors
  accepts exactly the values that denote a tree and returns that tree (\<open>snapshot_iff_denotes\<close>);
  its results are well-formed; and no value that reaches a cycle is accepted.
\<close>

section \<open>The contract\<close>

definition arrayProps :: "(pkey \<times> descriptor) list \<Rightarrow> js list \<Rightarrow> bool" where
  "arrayProps ds vs \<longleftrightarrow>
     isSafe (int (length vs)) \<and> length ds = length vs + 1 \<and>
     (\<exists>e. map_of ds (PStr (lit ''length'')) = Some (DataProp (JNum (Whole (int (length vs)))) e)) \<and>
     (\<forall>i<length vs. map_of ds (PStr (decDigits i)) = Some (DataProp (vs ! i) True)) \<and>
     (\<forall>key\<in>set (map fst ds). \<not> foreignKey (length vs) key)"

inductive denotes :: "heap \<Rightarrow> js \<Rightarrow> val \<Rightarrow> bool" for h where
  den_null: "denotes h JNull Null"
| den_bool: "denotes h (JBool b) (Bool b)"
| den_str: "denotes h (JStr s) (Str s)"
| den_num: "wf_num n \<Longrightarrow> denotes h (JNum n) (Num n)"
| den_obj: "map_of h a = Some obj \<Longrightarrow> \<not> objThrows obj \<Longrightarrow> \<not> objArray obj \<Longrightarrow>
    objProto obj \<noteq> OtherPrototype \<Longrightarrow>
    list_all2 (\<lambda>p q. \<exists>k v x. p = (PStr k, DataProp v True) \<and> q = (k, x) \<and> denotes h v x)
      (objProps obj) kvs \<Longrightarrow>
    denotes h (JRef a) (Obj kvs)"
| den_arr: "map_of h a = Some obj \<Longrightarrow> \<not> objThrows obj \<Longrightarrow> objArray obj \<Longrightarrow>
    arrayProps (objProps obj) vs \<Longrightarrow> list_all2 (denotes h) vs xs \<Longrightarrow>
    denotes h (JRef a) (Arr xs)"

inductive_cases denotes_refE: "denotes h (JRef a) x"
inductive_simps denotes_prim [simp]:
  "denotes h JNull x" "denotes h (JBool b) x" "denotes h (JStr s) x" "denotes h (JNum n) x"
  "denotes h JUndef x" "denotes h JOther x"

text \<open>\<open>Reflect.ownKeys\<close> lists each key once.\<close>

definition wf_heap :: "heap \<Rightarrow> bool" where
  "wf_heap h \<longleftrightarrow> (\<forall>(a, obj)\<in>set h. distinct (map fst (objProps obj)))"

lemma wf_heapD: "wf_heap h \<Longrightarrow> map_of h a = Some obj \<Longrightarrow> distinct (map fst (objProps obj))"
  by (auto simp: wf_heap_def dest: map_of_SomeD)

definition edges :: "heap \<Rightarrow> (nat \<times> nat) set" where
  "edges h = {(a, b). \<exists>obj k. map_of h a = Some obj \<and>
     map_of (objProps obj) k = Some (DataProp (JRef b) True)}"

section \<open>Accepted values denote the tree they yield\<close>

lemma snapshotProp_eq_Inr:
  "snapshotProp snap d = Inr x \<longleftrightarrow> (\<exists>v. d = Some (DataProp v True) \<and> snap v = Inr x)"
  by (auto simp: snapshotProp_def split: option.splits descriptor.splits bool.splits)

lemma snapshotJsonObject_eq_Inr:
  "snapshotJsonObject snap ds = Inr x \<longleftrightarrow>
     (\<exists>kvs. x = Obj kvs \<and>
        list_all2 (\<lambda>p q. \<exists>k v y. p = (PStr k, DataProp v True) \<and> q = (k, y) \<and> snap v = Inr y) ds kvs)"
proof -
  have step: "(case p of (key, d) \<Rightarrow> case key of PSym _ \<Rightarrow> Inl ()
        | PStr k \<Rightarrow> bindE (snapshotProp snap (Some d)) (\<lambda>item. Inr (k, item))) = Inr q \<longleftrightarrow>
      (\<exists>k v y. p = (PStr k, DataProp v True) \<and> q = (k, y) \<and> snap v = Inr y)" for p q
    by (auto simp: bindE_eq_Inr snapshotProp_eq_Inr split: prod.splits pkey.splits)
  show ?thesis
    unfolding snapshotJsonObject_def by (auto simp: bindE_eq_Inr mapE_eq_Inr step)
qed

lemma snapshotJsonArray_eq_Inr:
  "snapshotJsonArray snap ds = Inr x \<longleftrightarrow>
     (\<exists>vs xs. x = Arr xs \<and> arrayProps ds vs \<and> list_all2 (\<lambda>v y. snap v = Inr y) vs xs)"
  (is "?lhs \<longleftrightarrow> ?rhs")
proof
  assume ?lhs
  then obtain n e items where len: "map_of ds (PStr (lit ''length'')) = Some (DataProp (JNum (Whole n)) e)"
    and n: "isSafe n" "0 \<le> n" "int (length ds) = n + 1"
    and items: "mapE (\<lambda>i. snapshotProp snap (map_of ds (PStr (decDigits i)))) [0..<nat n] = Inr items"
    and keys: "\<forall>key\<in>set (map fst ds). \<not> foreignKey (length items) key"
    and x: "x = Arr items"
    unfolding snapshotJsonArray_def
    by (auto simp: bindE_eq_Inr split: option.splits descriptor.splits js.splits number.splits
        if_splits)
  have li: "length items = nat n" using mapE_length [OF items] by simp
  have "\<forall>i<nat n. \<exists>v. map_of ds (PStr (decDigits i)) = Some (DataProp v True) \<and> snap v = Inr (items ! i)"
    using items by (auto simp: mapE_eq_Inr list_all2_conv_all_nth snapshotProp_eq_Inr)
  then obtain f where f: "\<And>i. i < nat n \<Longrightarrow>
      map_of ds (PStr (decDigits i)) = Some (DataProp (f i) True) \<and> snap (f i) = Inr (items ! i)"
    by metis
  let ?vs = "map f [0..<nat n]"
  have "arrayProps ds ?vs" using len n keys f li by (simp add: arrayProps_def)
  moreover have "list_all2 (\<lambda>v y. snap v = Inr y) ?vs items"
    using f li by (simp add: list_all2_conv_all_nth)
  ultimately show ?rhs using x by blast
next
  assume ?rhs
  then obtain vs xs where x: "x = Arr xs" and ap: "arrayProps ds vs"
    and xs: "list_all2 (\<lambda>v y. snap v = Inr y) vs xs" by blast
  have len: "length xs = length vs" using xs by (auto dest: list_all2_lengthD)
  have "mapE (\<lambda>i. snapshotProp snap (map_of ds (PStr (decDigits i)))) [0..<length vs] = Inr xs"
    using ap xs len
    by (auto simp: mapE_eq_Inr list_all2_conv_all_nth snapshotProp_eq_Inr arrayProps_def)
  moreover have "\<not> (\<exists>key\<in>set (map fst ds). foreignKey (length xs) key)"
    using ap unfolding len by (simp add: arrayProps_def)
  ultimately show ?lhs using ap x unfolding snapshotJsonArray_def
    by (auto simp: arrayProps_def)
qed

lemma snapshot_ref_eq_Inr:
  "snapshotJsonValue h (JRef a) anc = Inr x \<longleftrightarrow>
     (\<exists>obj. map_of h a = Some obj \<and> \<not> objThrows obj \<and> a \<notin> set anc \<and>
        (if objArray obj then snapshotJsonArray (\<lambda>v. snapshotJsonValue h v (a # anc)) (objProps obj) = Inr x
         else objProto obj \<noteq> OtherPrototype \<and>
           snapshotJsonObject (\<lambda>v. snapshotJsonValue h v (a # anc)) (objProps obj) = Inr x))"
  by (subst snapshotJsonValue.simps) (auto split: option.splits)

lemma snapshot_sound: "snapshotJsonValue h v anc = Inr x \<Longrightarrow> denotes h v x"
proof (induction "card (set (map fst h) - set anc)" arbitrary: v anc x rule: less_induct)
  case less
  show ?case
  proof (cases v)
    case (JRef a)
    with less.prems obtain obj where obj: "map_of h a = Some obj" "\<not> objThrows obj" "a \<notin> set anc"
      and sub: "if objArray obj
        then snapshotJsonArray (\<lambda>v. snapshotJsonValue h v (a # anc)) (objProps obj) = Inr x
        else objProto obj \<noteq> OtherPrototype \<and>
          snapshotJsonObject (\<lambda>v. snapshotJsonValue h v (a # anc)) (objProps obj) = Inr x"
      by (auto simp: snapshot_ref_eq_Inr)
    have IH: "\<And>w y. snapshotJsonValue h w (a # anc) = Inr y \<Longrightarrow> denotes h w y"
      using less.hyps [OF fresh_ancestor_smaller [OF obj(1,3)]] by blast
    show ?thesis
    proof (cases "objArray obj")
      case True
      with sub obtain vs xs where "x = Arr xs" "arrayProps (objProps obj) vs"
        "list_all2 (\<lambda>v y. snapshotJsonValue h v (a # anc) = Inr y) vs xs"
        by (auto simp: snapshotJsonArray_eq_Inr)
      then show ?thesis unfolding JRef using obj True IH
        by (auto intro!: den_arr elim: list_all2_mono)
    next
      case False
      with sub obtain kvs where "x = Obj kvs" "objProto obj \<noteq> OtherPrototype"
        "list_all2 (\<lambda>p q. \<exists>k v y. p = (PStr k, DataProp v True) \<and> q = (k, y) \<and>
           snapshotJsonValue h v (a # anc) = Inr y) (objProps obj) kvs"
        by (auto simp: snapshotJsonObject_eq_Inr)
      then show ?thesis unfolding JRef using obj False IH
        by (auto intro!: den_obj elim!: list_all2_mono)
    qed
  qed (use less.prems in \<open>auto simp: snapshotJsonValue.simps split: if_splits\<close>)
qed

section \<open>Trees have no cycles\<close>

lemma list_all2_det:
  "list_all2 P xs ys \<Longrightarrow> list_all2 Q xs zs \<Longrightarrow> (\<And>x y z. P x y \<Longrightarrow> Q x z \<Longrightarrow> y = z) \<Longrightarrow> ys = zs"
  by (induction xs ys arbitrary: zs rule: list_all2_induct) (auto simp: list_all2_Cons1)

lemma arrayProps_det: "arrayProps ds vs \<Longrightarrow> arrayProps ds ws \<Longrightarrow> vs = ws"
  by (rule nth_equalityI) (auto simp: arrayProps_def)

lemma denotes_det: "denotes h v x \<Longrightarrow> denotes h v y \<Longrightarrow> x = y"
proof (induction arbitrary: y rule: denotes.induct)
  case (den_obj a obj kvs)
  from den_obj.prems den_obj.hyps(1-4) obtain kvs' where y: "y = Obj kvs'"
    and rel: "list_all2 (\<lambda>p q. \<exists>k v x. p = (PStr k, DataProp v True) \<and> q = (k, x) \<and> denotes h v x)
      (objProps obj) kvs'"
    by (auto elim: denotes_refE)
  have "kvs = kvs'" by (rule list_all2_det [OF den_obj.IH(1) rel]) auto
  with y show ?case by simp
next
  case (den_arr a obj vs xs)
  from den_arr.prems den_arr.hyps(1-3) obtain ws ys where y: "y = Arr ys"
    and "arrayProps (objProps obj) ws" and rel: "list_all2 (denotes h) ws ys"
    by (auto elim: denotes_refE)
  with den_arr.hyps(4) have "vs = ws" by (blast intro: arrayProps_det)
  with rel have rel': "list_all2 (denotes h) vs ys" by simp
  have "xs = ys" by (rule list_all2_det [OF den_arr.IH(1) rel']) auto
  with y show ?case by simp
qed auto

lemma denotes_edge:
  assumes "denotes h (JRef a) x" and "(a, b) \<in> edges h"
  shows "\<exists>y. denotes h (JRef b) y \<and> size y < size x"
proof -
  from assms(2) obtain obj k where obj: "map_of h a = Some obj"
    and k: "map_of (objProps obj) k = Some (DataProp (JRef b) True)" by (auto simp: edges_def)
  from assms(1) obj consider kvs where "x = Obj kvs"
      "list_all2 (\<lambda>p q. \<exists>k v x. p = (PStr k, DataProp v True) \<and> q = (k, x) \<and> denotes h v x)
        (objProps obj) kvs"
    | vs xs where "x = Arr xs" "arrayProps (objProps obj) vs" "list_all2 (denotes h) vs xs"
    by (auto elim: denotes_refE)
  then show ?thesis
  proof cases
    case (1 kvs)
    with map_of_SomeD [OF k] obtain k' y where y: "(k', y) \<in> set kvs" "denotes h (JRef b) y"
      by (fastforce simp: list_all2_conv_all_nth in_set_conv_nth)
    have "size y < size (Obj kvs)"
      using size_list_estimation [OF y(1), of "size y" "size_prod (\<lambda>_. 0) size"] by simp
    with 1(1) y(2) show ?thesis by auto
  next
    case (2 vs xs)
    have "k \<in> set (map fst (objProps obj))" using map_of_SomeD [OF k] by force
    with 2(2) have "\<not> foreignKey (length vs) k" by (auto simp: arrayProps_def)
    with 2(2) k obtain i where "i < length vs" "vs ! i = JRef b"
      by (auto simp: arrayProps_def foreignKey_def split: pkey.splits)
    with 2(3) have i: "xs ! i \<in> set xs" "denotes h (JRef b) (xs ! i)"
      by (auto simp: list_all2_conv_all_nth)
    have "size (xs ! i) < size (Arr xs)"
      using size_list_estimation' [OF i(1), of "size (xs ! i)" size] by simp
    with 2(1) i(2) show ?thesis by auto
  qed
qed

lemma denotes_path:
  "(a, b) \<in> (edges h)\<^sup>+ \<Longrightarrow> denotes h (JRef a) x \<Longrightarrow> \<exists>y. denotes h (JRef b) y \<and> size y < size x"
proof (induction rule: trancl_induct)
  case (base y)
  then show ?case using denotes_edge by blast
next
  case (step b c)
  then show ?case using denotes_edge less_trans by blast
qed

lemma denotes_acyclic: "denotes h (JRef a) x \<Longrightarrow> (a, a) \<notin> (edges h)\<^sup>+"
  using denotes_path denotes_det by (metis less_irrefl)

section \<open>Every value that denotes a tree is accepted\<close>

lemma list_all2_conj_member:
  "list_all2 P xs ys \<Longrightarrow> (\<And>x y. x \<in> set xs \<Longrightarrow> P x y \<Longrightarrow> Q x y) \<Longrightarrow> list_all2 Q xs ys"
  by (auto simp: list_all2_conv_all_nth)

lemma snapshot_complete:
  assumes "wf_heap h" and "denotes h v x"
    and "\<And>a b. v = JRef a \<Longrightarrow> (a, b) \<in> (edges h)\<^sup>* \<Longrightarrow> b \<notin> set anc"
  shows "snapshotJsonValue h v anc = Inr x"
  using assms(2,3)
proof (induction arbitrary: anc rule: denotes.induct)
  case (den_obj a obj kvs)
  have "denotes h (JRef a) (Obj kvs)"
    using den_obj.hyps den_obj.IH by (auto intro!: denotes.den_obj elim!: list_all2_mono)
  then have acyc: "(a, a) \<notin> (edges h)\<^sup>+" by (rule denotes_acyclic)
  have child: "(a, b) \<in> edges h \<Longrightarrow> (b, c) \<in> (edges h)\<^sup>* \<Longrightarrow> c \<notin> set (a # anc)" for b c
    using acyc den_obj.prems [OF refl, of c]
    by (auto dest: rtrancl_into_trancl2 converse_rtrancl_into_rtrancl)
  have "list_all2 (\<lambda>p q. \<exists>k v y. p = (PStr k, DataProp v True) \<and> q = (k, y) \<and>
      snapshotJsonValue h v (a # anc) = Inr y) (objProps obj) kvs"
  proof (rule list_all2_conj_member [OF den_obj.IH])
    fix p q assume mem: "p \<in> set (objProps obj)"
      and "\<exists>k v x. p = (PStr k, DataProp v True) \<and> q = (k, x) \<and> denotes h v x \<and>
        (\<forall>anc. (\<forall>a. v = JRef a \<longrightarrow> (\<forall>b. (a, b) \<in> (edges h)\<^sup>* \<longrightarrow> b \<notin> set anc)) \<longrightarrow>
          snapshotJsonValue h v anc = Inr x)"
    then obtain k v y where p: "p = (PStr k, DataProp v True)" "q = (k, y)"
      and IH: "\<forall>anc. (\<forall>a. v = JRef a \<longrightarrow> (\<forall>b. (a, b) \<in> (edges h)\<^sup>* \<longrightarrow> b \<notin> set anc)) \<longrightarrow>
        snapshotJsonValue h v anc = Inr y" by blast
    have "map_of (objProps obj) (PStr k) = Some (DataProp v True)"
      using mem p wf_heapD [OF assms(1) den_obj.hyps(1)] by simp
    then have e: "v = JRef b \<Longrightarrow> (a, b) \<in> edges h" for b
      using den_obj.hyps(1) by (auto simp: edges_def)
    have "snapshotJsonValue h v (a # anc) = Inr y"
      by (rule IH [rule_format]) (rule child [OF e])
    with p show "\<exists>k v y. p = (PStr k, DataProp v True) \<and> q = (k, y) \<and>
        snapshotJsonValue h v (a # anc) = Inr y" by blast
  qed
  moreover have "a \<notin> set anc" using den_obj.prems by blast
  ultimately show ?case using den_obj.hyps
    by (simp add: snapshot_ref_eq_Inr snapshotJsonObject_eq_Inr)
next
  case (den_arr a obj vs xs)
  have "denotes h (JRef a) (Arr xs)"
    using den_arr.hyps den_arr.IH by (auto intro!: denotes.den_arr elim!: list_all2_mono)
  then have acyc: "(a, a) \<notin> (edges h)\<^sup>+" by (rule denotes_acyclic)
  have child: "(a, b) \<in> edges h \<Longrightarrow> (b, c) \<in> (edges h)\<^sup>* \<Longrightarrow> c \<notin> set (a # anc)" for b c
    using acyc den_arr.prems [OF refl, of c]
    by (auto dest: rtrancl_into_trancl2 converse_rtrancl_into_rtrancl)
  have "list_all2 (\<lambda>v y. snapshotJsonValue h v (a # anc) = Inr y) vs xs"
  proof (rule list_all2_conj_member [OF den_arr.IH])
    fix v xa assume mem: "v \<in> set vs"
      and "denotes h v xa \<and>
        (\<forall>anc. (\<forall>a. v = JRef a \<longrightarrow> (\<forall>b. (a, b) \<in> (edges h)\<^sup>* \<longrightarrow> b \<notin> set anc)) \<longrightarrow>
          snapshotJsonValue h v anc = Inr xa)"
    then have IH: "\<forall>anc. (\<forall>a. v = JRef a \<longrightarrow> (\<forall>b. (a, b) \<in> (edges h)\<^sup>* \<longrightarrow> b \<notin> set anc)) \<longrightarrow>
        snapshotJsonValue h v anc = Inr xa" by blast
    obtain i where "i < length vs" "v = vs ! i" using mem by (auto simp: in_set_conv_nth)
    then have "map_of (objProps obj) (PStr (decDigits i)) = Some (DataProp v True)"
      using den_arr.hyps(4) by (auto simp: arrayProps_def)
    then have e: "v = JRef b \<Longrightarrow> (a, b) \<in> edges h" for b
      using den_arr.hyps(1) by (auto simp: edges_def)
    show "snapshotJsonValue h v (a # anc) = Inr xa"
      by (rule IH [rule_format]) (rule child [OF e])
  qed
  moreover have "a \<notin> set anc" using den_arr.prems by blast
  ultimately show ?case using den_arr.hyps
    by (auto simp: snapshot_ref_eq_Inr snapshotJsonArray_eq_Inr)
qed (simp_all add: snapshotJsonValue.simps)

lemma denotes_is_json: "denotes h v x \<Longrightarrow> wf_heap h \<Longrightarrow> is_json x"
proof (induction rule: denotes.induct)
  case (den_obj a obj kvs)
  have "map PStr (map fst kvs) = map fst (objProps obj)"
    using den_obj.IH by (induction rule: list_all2_induct) auto
  then have "distinct (map fst kvs)"
    using wf_heapD [OF den_obj.prems den_obj.hyps(1)] by (metis distinct_map)
  moreover have "list_all (\<lambda>kv. is_json (snd kv)) kvs"
    using den_obj.IH den_obj.prems by (induction rule: list_all2_induct) auto
  ultimately show ?case by simp
next
  case (den_arr a obj vs xs)
  have "list_all is_json xs"
    using den_arr.IH den_arr.prems by (induction rule: list_all2_induct) auto
  then show ?case by (simp add: list_all_iff)
qed simp_all

section \<open>Properties\<close>

text \<open>
  A small object graph with sharing and a second one with a cycle, for the witnesses:
  \<open>{"n": 7, "l": [s, s]}\<close> with \<open>s = {"b": true}\<close> shared, and an object that contains itself.
\<close>

definition sharedHeap :: heap where
  "sharedHeap =
    [(0, \<lparr>objArray = False, objProto = ObjectPrototype, objThrows = False,
         objProps = [(PStr (lit ''n''), DataProp (JNum (Whole 7)) True),
                     (PStr (lit ''l''), DataProp (JRef 1) True)]\<rparr>),
     (1, \<lparr>objArray = True, objProto = OtherPrototype, objThrows = False,
         objProps = [(PStr (decDigits 0), DataProp (JRef 2) True),
                     (PStr (decDigits 1), DataProp (JRef 2) True),
                     (PStr (lit ''length''), DataProp (JNum (Whole 2)) False)]\<rparr>),
     (2, \<lparr>objArray = False, objProto = NullPrototype, objThrows = False,
         objProps = [(PStr (lit ''b''), DataProp (JBool True) True)]\<rparr>)]"

definition cyclicHeap :: heap where
  "cyclicHeap =
    [(0, \<lparr>objArray = False, objProto = ObjectPrototype, objThrows = False,
         objProps = [(PStr (lit ''self''), DataProp (JRef 0) True)]\<rparr>)]"

lemma decDigits_0_1: "decDigits 0 = lit ''0''" "decDigits (Suc 0) = lit ''1''" "decDigits 1 = lit ''1''"
  by (simp_all add: decDigits.simps digit_def lit_def)

lemma sharedHeap_value:
  "canonicalValue sharedHeap (JRef 0) =
     Inr (Obj [(lit ''n'', Num (Whole 7)),
               (lit ''l'', Arr [Obj [(lit ''b'', Bool True)], Obj [(lit ''b'', Bool True)]])])"
  by code_simp

lemma sharedHeap_wf: "wf_heap sharedHeap"
  by (simp add: wf_heap_def sharedHeap_def decDigits_0_1)

text \<open>
  C30. \<open>canonicalValue\<close> accepts a value exactly when the object graph below it is a finite tree of
  JSON data, and returns that tree: sharing is copied, and cycles, accessors, symbol keys,
  non-enumerable properties, holes, foreign prototypes, non-finite numbers and throwing proxies
  are all refused.
\<close>

theorem snapshot_iff_denotes:
  "wf_heap h \<Longrightarrow> canonicalValue h v = Inr x \<longleftrightarrow> denotes h v x"
  using snapshot_sound [of h v "[]" x] snapshot_complete [of h v x "[]"]
  by (auto simp: canonicalValue_def split: sum.splits)

theorem snapshot_iff_denotes_witness:
  "denotes sharedHeap (JRef 0) (Obj [(lit ''n'', Num (Whole 7)),
     (lit ''l'', Arr [Obj [(lit ''b'', Bool True)], Obj [(lit ''b'', Bool True)]])])"
  using snapshot_iff_denotes [OF sharedHeap_wf] sharedHeap_value by blast

text \<open>
  An object that can reach itself through enumerable data properties is refused with a
  \<open>TypeError\<close>, and so is everything that contains it: the walk terminates on every object graph.
\<close>

theorem snapshot_rejects_cycles:
  assumes "v = JRef b" and "(b, a) \<in> (edges h)\<^sup>*" and "(a, a) \<in> (edges h)\<^sup>+"
  shows "canonicalValue h v = Inl TypeError"
proof (cases "snapshotJsonValue h v []")
  case (Inr x)
  then have den: "denotes h (JRef b) x" using snapshot_sound assms(1) by blast
  have "\<exists>y. denotes h (JRef a) y"
    using rtranclD [OF assms(2)] den denotes_path by blast
  then show ?thesis using assms(3) denotes_acyclic by blast
qed (simp add: canonicalValue_def)

theorem snapshot_rejects_cycles_witness: "canonicalValue cyclicHeap (JRef 0) = Inl TypeError"
proof (rule snapshot_rejects_cycles)
  show "(0, 0) \<in> (edges cyclicHeap)\<^sup>*" by simp
  show "(0, 0) \<in> (edges cyclicHeap)\<^sup>+"
    by (rule r_into_trancl) (auto simp: edges_def cyclicHeap_def)
qed (rule refl)

end
