(* ===== verification/CanonicalInjective.thy ===== *)
theory CanonicalInjective
  imports CanonicalCodec
begin

text \<open>
  The second half of the losslessness argument for canonical.ts: printed numbers, then whole
  values. \<open>decodeNum\<close> reads a printed number back as a signed decimal mantissa and exponent, which
  determine a well-formed number. For values, \<open>norm\<close> sorts the properties of every object and
  \<open>ser\<close> prints a value without sorting; \<open>serialize v = ser (norm v)\<close>, and \<open>ser\<close> is unambiguous:
  no printed value is a proper prefix of another up to a delimiter.
\<close>

section \<open>Numbers\<close>

definition decodeExp :: "jstr \<Rightarrow> int" where
  "decodeExp s = (case s of _ # c # ds \<Rightarrow> if c = 45 then - int (natOf ds) else int (natOf ds)
     | _ \<Rightarrow> 0)"

definition decodeNum :: "jstr \<Rightarrow> int \<times> int" where
  "decodeNum s =
     (let neg = (s \<noteq> [] \<and> hd s = 45); body = (if neg then tl s else s);
          mant = takeWhile (\<lambda>c. c \<noteq> 101) body; ex = dropWhile (\<lambda>c. c \<noteq> 101) body;
          ip = takeWhile (\<lambda>c. c \<noteq> 46) mant; fp = tl (dropWhile (\<lambda>c. c \<noteq> 46) mant)
      in ((if neg then - 1 else 1) * int (natOf (ip @ fp)), decodeExp ex - int (length fp)))"

lemma isDigit_not: "isDigit c \<Longrightarrow> c \<noteq> 45 \<and> c \<noteq> 46 \<and> c \<noteq> 101 \<and> c \<noteq> 43"
  by (auto simp: isDigit_def)

lemma decodeNum_parts:
  assumes ip: "\<forall>c\<in>set ip. isDigit c" "ip \<noteq> []" and fp: "\<forall>c\<in>set fp. isDigit c"
    and dot: "dot = [] \<and> fp = [] \<or> dot = [46]" and ex: "ex = [] \<or> hd ex = 101"
  shows "decodeNum ((if neg then [45] else []) @ ip @ dot @ fp @ ex) =
     ((if neg then - 1 else 1) * int (natOf (ip @ fp)), decodeExp ex - int (length fp))"
proof -
  let ?s = "(if neg then [45] else []) @ ip @ dot @ fp @ ex"
  have hd: "(?s \<noteq> [] \<and> hd ?s = 45) = neg"
    using ip isDigit_not [of "hd ip"] by (cases neg) (auto simp: hd_append)
  have body: "(if neg then tl ?s else ?s) = (ip @ dot @ fp) @ ex" by simp
  have m: "\<forall>c\<in>set (ip @ dot @ fp). c \<noteq> 101"
    using ip fp dot isDigit_not by auto
  have mant: "takeWhile (\<lambda>c. c \<noteq> 101) ((ip @ dot @ fp) @ ex) = ip @ dot @ fp"
    "dropWhile (\<lambda>c. c \<noteq> 101) ((ip @ dot @ fp) @ ex) = ex"
    using m ex by (cases ex; auto simp: takeWhile_append2 dropWhile_append2)+
  have i: "\<forall>c\<in>set ip. c \<noteq> 46" using ip isDigit_not by blast
  have ipfp: "takeWhile (\<lambda>c. c \<noteq> 46) (ip @ dot @ fp) = ip"
    "tl (dropWhile (\<lambda>c. c \<noteq> 46) (ip @ dot @ fp)) = fp"
    using i dot by (auto simp: takeWhile_append2 dropWhile_append2)
  show ?thesis unfolding decodeNum_def Let_def hd body mant ipfp ..
qed

lemma natOf_zeros: "natOf (replicate k (digit 0) @ ds) = natOf ds"
proof -
  have "foldl (\<lambda>a c. 10 * a + (unat c - 48)) 0 (replicate k (digit 0)) = (0::nat)"
    by (induction k) (simp_all add: unat_digit)
  then show ?thesis by (simp add: natOf_def)
qed

lemma natOf_zero: "natOf (48 # ds) = natOf ds"
  by (simp add: natOf_def)

lemma lit_signs: "lit ''-'' = [45]" "lit ''+'' = [43]" "lit ''.'' = [46]" "lit ''e'' = [101]"
    "lit ''0.'' = [48, 46]" "digit 0 = 48"
  by (simp_all add: lit_def digit_def)

lemma decodeExp_print:
  "decodeExp (101 # (if x < 0 then [45] else [43]) @ decDigits (nat \<bar>x\<bar>)) = x"
  by (simp add: decodeExp_def)

lemma decDigits_all_digits: "\<forall>c\<in>set (decDigits n). isDigit c"
  using decDigits_isDigit by blast

lemma decodeNum_intStr: "decodeNum (intStr i) = (i, 0)"
  using decodeNum_parts [of "decDigits (nat \<bar>i\<bar>)" "[]" "[]" "[]" "i < 0"] decDigits_all_digits
  by (cases "i < 0") (simp_all add: intStr_def lit_signs decodeExp_def)

lemma sgn_nat_abs: "(if m < 0 then - 1 else 1) * int (nat \<bar>m\<bar>) = (m::int)"
  by simp

lemma decodeNum_numberStr:
  assumes "wf_num x"
  shows "decodeNum (numberStr x) = decimal x"
proof (cases x)
  case (Whole i)
  then show ?thesis by (simp add: numberStr_def decimal_def decodeNum_intStr)
next
  case (Frac m e)
  define ds where "ds = decDigits (nat \<bar>m\<bar>)"
  define k where "k = int (length ds)"
  have ds: "\<forall>c\<in>set ds. isDigit c" "ds \<noteq> []" "natOf ds = nat \<bar>m\<bar>"
    by (simp_all add: ds_def decDigits_all_digits)
  have k: "0 < k" using ds(2) by (simp add: k_def)
  have big: "e < 0 \<or> 21 < k + e" using assms Frac by (simp add: wf_num_def ds_def k_def)
  have z: "isDigit 48" by (simp add: isDigit_def)
  have str: "numberStr x = (if m < 0 then [45] else []) @
      (if 0 < k + e \<and> k + e \<le> 21 then take (nat (k + e)) ds @ [46] @ drop (nat (k + e)) ds @ []
       else if - 6 < k + e \<and> k + e \<le> 0 then [48] @ [46] @ (replicate (nat (- (k + e))) 48 @ ds) @ []
       else take 1 ds @ (if k = 1 then [] else [46]) @ drop 1 ds @
         (101 # (if k + e - 1 < 0 then [45] else [43]) @ decDigits (nat \<bar>k + e - 1\<bar>)))"
    using big k unfolding Frac by (auto simp: numberStr_def Let_def ds_def [symmetric]
        k_def [symmetric] lit_signs) (simp_all add: k_def)
  consider (b) "0 < k + e" "k + e \<le> 21" | (c) "- 6 < k + e" "k + e \<le> 0"
    | (d) "\<not> (0 < k + e \<and> k + e \<le> 21)" "\<not> (- 6 < k + e \<and> k + e \<le> 0)" by linarith
  then show ?thesis
  proof cases
    case b
    have "set (take (nat (k + e)) ds) \<subseteq> set ds" "set (drop (nat (k + e)) ds) \<subseteq> set ds"
      by (rule set_take_subset, rule set_drop_subset)
    then have "decodeNum (numberStr x) = ((if m < 0 then - 1 else 1) *
        int (natOf (take (nat (k + e)) ds @ drop (nat (k + e)) ds)),
        decodeExp [] - int (length (drop (nat (k + e)) ds)))"
      unfolding str if_P [OF conjI, OF b] using ds(1,2) b by (intro decodeNum_parts) auto
    then show ?thesis using b big ds(3)
      by (simp add: Frac decimal_def decodeExp_def k_def sgn_nat_abs)
  next
    case c
    then have c': "\<not> (0 < k + e \<and> k + e \<le> 21)" by simp
    have "decodeNum (numberStr x) = ((if m < 0 then - 1 else 1) *
        int (natOf ([48] @ (replicate (nat (- (k + e))) 48 @ ds))),
        decodeExp [] - int (length (replicate (nat (- (k + e))) (48 :: 16 word) @ ds)))"
      unfolding str if_not_P [OF c'] if_P [OF conjI, OF c] using ds(1) z
      by (intro decodeNum_parts) auto
    then show ?thesis using c ds(3) natOf_zeros [of "nat (- (k + e))" ds]
      by (simp add: Frac decimal_def decodeExp_def k_def [symmetric] natOf_zero lit_signs sgn_nat_abs)
  next
    case d
    have "set (take 1 ds) \<subseteq> set ds" "set (drop 1 ds) \<subseteq> set ds"
      by (rule set_take_subset, rule set_drop_subset)
    moreover have "k = 1 \<Longrightarrow> drop 1 ds = []" by (simp add: k_def)
    ultimately have "decodeNum (numberStr x) = ((if m < 0 then - 1 else 1) *
        int (natOf (take 1 ds @ drop 1 ds)),
        decodeExp (101 # (if k + e - 1 < 0 then [45] else [43]) @ decDigits (nat \<bar>k + e - 1\<bar>))
          - int (length (drop 1 ds)))"
      unfolding str if_not_P [OF d(1)] if_not_P [OF d(2)] using ds(1,2)
      by (intro decodeNum_parts) auto
    moreover have "int (length (drop 1 ds)) = k - 1" using ds(2) by (cases ds) (simp_all add: k_def)
    ultimately show ?thesis using ds(3) unfolding decodeExp_print append_take_drop_id
      by (simp add: Frac decimal_def sgn_nat_abs)
  qed
qed (use assms in \<open>simp add: wf_num_def\<close>)

lemma decDigits_length: "n < 10 ^ Suc k \<Longrightarrow> length (decDigits n) \<le> Suc k"
proof (induction k arbitrary: n)
  case 0
  then show ?case by (simp add: decDigits.simps [of n])
next
  case (Suc k)
  show ?case
  proof (cases "n < 10")
    case False
    have "n div 10 < 10 ^ Suc k" using Suc.prems by (simp add: div_less_iff_less_mult mult.commute)
    with Suc.IH False show ?thesis by (simp add: decDigits.simps [of n])
  qed (simp add: decDigits.simps [of n])
qed

lemma numberStr_inject:
  assumes "wf_num x" "wf_num y" "numberStr x = numberStr y"
  shows "x = y"
proof -
  have eq: "decimal x = decimal y" using assms decodeNum_numberStr by metis
  have small: "length (decDigits (nat \<bar>i\<bar>)) \<le> 21" if "\<bar>i\<bar> < 10 ^ 21" for i :: int
    using that by (intro decDigits_length [of _ 20, simplified]) (simp add: nat_less_iff)
  show ?thesis
    using eq assms(1,2) small
    by (cases x; cases y) (force simp: decimal_def wf_num_def)+
qed

text \<open>A delimited rest: the end of the text, or one of the characters comma, bracket, brace.\<close>

definition delim :: "jstr \<Rightarrow> bool" where
  "delim r \<longleftrightarrow> r = [] \<or> hd r \<in> {44, 93, 125}"

lemma numberStr_chars:
  assumes "wf_num x" and "c \<in> set (numberStr x)"
  shows "isDigit c \<or> c \<in> {43, 45, 46, 101}"
proof -
  have d: "isDigit (48 :: 16 word)" by (simp add: isDigit_def)
  have "c \<in> set (intStr i) \<Longrightarrow> isDigit c \<or> c = 45" for i
    by (auto simp: intStr_def lit_signs dest: decDigits_isDigit split: if_splits)
  with assms d show ?thesis
    by (cases x) (auto simp: numberStr_def Let_def lit_signs wf_num_def
        dest: decDigits_isDigit in_set_takeD in_set_dropD split: if_splits)
qed

lemma span_unique:
  assumes "s @ r = t @ r'" and "\<forall>c\<in>set s. P c" "\<forall>c\<in>set t. P c"
    and "r = [] \<or> \<not> P (hd r)" "r' = [] \<or> \<not> P (hd r')"
  shows "s = t \<and> r = r'"
proof -
  have "takeWhile P (s @ r) = s" using assms(2,4) by (cases r) (auto simp: takeWhile_append2)
  moreover have "takeWhile P (t @ r') = t" using assms(3,5) by (cases r') (auto simp: takeWhile_append2)
  ultimately show ?thesis using assms(1) by simp
qed

lemma numberStr_prefix:
  assumes "wf_num x" "wf_num y" "delim r" "delim r'" and eq: "numberStr x @ r = numberStr y @ r'"
  shows "x = y \<and> r = r'"
proof -
  let ?P = "\<lambda>c :: 16 word. isDigit c \<or> c \<in> {43, 45, 46, 101}"
  have "numberStr x = numberStr y \<and> r = r'"
    using eq assms(1-4) numberStr_chars
    by (intro span_unique [where P = ?P]) (auto simp: delim_def isDigit_def)
  then show ?thesis using assms(1,2) numberStr_inject by blast
qed

section \<open>Values\<close>

fun norm :: "val \<Rightarrow> val" where
  "norm (Arr xs) = Arr (map norm xs)"
| "norm (Obj kvs) = Obj (sort_key fst (map (\<lambda>kv. (fst kv, norm (snd kv))) kvs))"
| "norm v = v"

fun ser :: "val \<Rightarrow> jstr" where
  "ser (Arr xs) = 91 # joinWith [44] (map ser xs) @ [93]"
| "ser (Obj kvs) = 123 # joinWith [44] (map (\<lambda>kv. quoteStr (fst kv) @ [58] @ ser (snd kv)) kvs) @ [125]"
| "ser Null = serialize Null"
| "ser (Bool b) = serialize (Bool b)"
| "ser (Num n) = serialize (Num n)"
| "ser (Str s) = serialize (Str s)"
| "ser Undef = serialize Undef"
| "ser Exotic = serialize Exotic"

lemma lit_marks: "lit ''['' = [91]" "lit '']'' = [93]" "lit ''{'' = [123]" "lit ''}'' = [125]"
    "lit '','' = [44]" "lit '':'' = [58]" "lit ''null'' = [110, 117, 108, 108]"
    "lit ''true'' = [116, 114, 117, 101]" "lit ''false'' = [102, 97, 108, 115, 101]"
  by (simp_all add: lit_def)

lemma serialize_norm: "is_json v \<Longrightarrow> serialize v = ser (norm v)"
proof (induction v rule: norm.induct)
  case (1 xs)
  then have "map serialize xs = map (ser \<circ> norm) xs"
    unfolding is_json_list_all by (intro map_cong) simp_all
  then have "joinWith [44] (map serialize xs) = joinWith [44] (map ser (map norm xs))"
    by (simp only: map_map)
  then show ?case by (simp add: lit_marks)
next
  case (2 kvs)
  let ?n = "\<lambda>kv. (fst kv, norm (snd kv))"
  let ?e = "\<lambda>kv. quoteStr (fst kv) @ [58] @ ser (snd kv)"
  have d: "distinct (map fst kvs)" and j: "\<And>kv. kv \<in> set kvs \<Longrightarrow> is_json (snd kv)"
    using "2.prems" by (auto simp: list_all_iff)
  have eq: "map (\<lambda>kv. (fst kv, serialize (snd kv))) kvs = map (\<lambda>kv. (fst kv, ser (norm (snd kv)))) kvs"
    using 2 j by (intro map_cong) auto
  let ?t = "map (\<lambda>kv. (fst kv, ser (norm (snd kv)))) kvs"
  have dt: "distinct (map fst ?t)" using d by (simp add: comp_def)
  have sk: "sort (map fst kvs) = map fst (sort_key fst (map ?n kvs))"
    by (rule properties_for_sort) (simp_all add: multiset.map_comp comp_def)
  have "map (\<lambda>key. quoteStr key @ [58] @ the (map_of ?t key)) (map fst (sort_key fst (map ?n kvs))) =
      map ?e (sort_key fst (map ?n kvs))"
  proof (unfold map_map, rule map_cong [OF refl])
    fix kv assume "kv \<in> set (sort_key fst (map ?n kvs))"
    then obtain kv' where "kv' \<in> set kvs" "kv = ?n kv'" by auto
    then have "map_of ?t (fst kv) = Some (ser (snd kv))"
      by (intro map_of_is_SomeI [OF dt]) force
    then show "((\<lambda>key. quoteStr key @ [58] @ the (map_of ?t key)) \<circ> fst) kv = ?e kv" by simp
  qed
  then show ?case by (simp add: eq sk lit_marks Let_def del: map_map)
qed simp_all

lemma joinWith_Cons: "joinWith sep (x # xs) = x @ concat (map (\<lambda>y. sep @ y) xs)"
  by (induction xs arbitrary: x) simp_all

definition unambiguous :: "('a \<Rightarrow> jstr) \<Rightarrow> 'a set \<Rightarrow> 'a set \<Rightarrow> bool" where
  "unambiguous f A B \<longleftrightarrow> (\<forall>x\<in>A. \<forall>y\<in>B. \<forall>r r'. delim r \<longrightarrow> delim r' \<longrightarrow>
     f x @ r = f y @ r' \<longrightarrow> x = y \<and> r = r')"

lemma concat_unambiguous:
  assumes "unambiguous f (set xs) (set ys)" and c: "c = 93 \<or> c = 125"
    and "concat (map (\<lambda>x. [44] @ f x) xs) @ c # r = concat (map (\<lambda>x. [44] @ f x) ys) @ c # r'"
  shows "xs = ys \<and> r = r'"
  using assms
proof (induction xs arbitrary: ys)
  case Nil
  then show ?case by (cases ys) auto
next
  case (Cons x xs)
  then obtain y ys' where ys: "ys = y # ys'" by (cases ys) auto
  let ?rest = "\<lambda>zs r. concat (map (\<lambda>x. [44] @ f x) zs) @ c # r"
  have del: "delim (?rest zs r)" for zs r
    using c by (cases zs) (auto simp: delim_def)
  have "f x @ ?rest xs r = f y @ ?rest ys' r'" using Cons.prems(3) ys by simp
  then have "x = y \<and> ?rest xs r = ?rest ys' r'"
    using Cons.prems(1) ys del unfolding unambiguous_def by (meson list.set_intros(1))
  then show ?case using Cons.IH [of ys'] Cons.prems(1) c ys by (auto simp: unambiguous_def)
qed

lemma Cons_eq_append_hd: "c # r = s @ t \<Longrightarrow> s \<noteq> [] \<Longrightarrow> hd s = c"
  by (cases s) simp_all

lemma join_unambiguous:
  assumes u: "unambiguous f (set xs) (set ys)" and c: "c = 93 \<or> c = 125"
    and start: "\<And>x. x \<in> set xs \<union> set ys \<Longrightarrow> f x \<noteq> [] \<and> hd (f x) \<notin> {93, 125}"
    and eq: "joinWith [44] (map f xs) @ c # r = joinWith [44] (map f ys) @ c # r'"
  shows "xs = ys \<and> r = r'"
proof (cases xs)
  case Nil
  then show ?thesis
    using eq c start by (cases ys) (auto simp: joinWith_Cons dest: Cons_eq_append_hd)
next
  case x: (Cons x xs')
  show ?thesis
  proof (cases ys)
    case Nil
    then show ?thesis
      using eq c start x by (auto simp: joinWith_Cons dest: Cons_eq_append_hd [OF sym])
  next
    case y: (Cons y ys')
    let ?rest = "\<lambda>zs r. concat (map (\<lambda>x. [44] @ f x) zs) @ c # r"
    have del: "delim (?rest zs r)" for zs r
      using c by (cases zs) (auto simp: delim_def)
    have "f x @ ?rest xs' r = f y @ ?rest ys' r'"
      using eq x y by (simp add: joinWith_Cons comp_def)
    then have xy: "x = y" and rest: "?rest xs' r = ?rest ys' r'"
      using u x y del unfolding unambiguous_def by (meson list.set_intros(1))+
    have "unambiguous f (set xs') (set ys')" using u x y by (auto simp: unambiguous_def)
    from concat_unambiguous [OF this c rest] show ?thesis using x y xy by simp
  qed
qed

text \<open>The first character of a printed value tells its kind.\<close>

fun startsWith :: "val \<Rightarrow> 16 word \<Rightarrow> bool" where
  "startsWith Null c \<longleftrightarrow> c = 110"
| "startsWith (Bool b) c \<longleftrightarrow> c = (if b then 116 else 102)"
| "startsWith (Num n) c \<longleftrightarrow> isDigit c \<or> c \<in> {43, 45, 46, 101}"
| "startsWith (Str s) c \<longleftrightarrow> c = 34"
| "startsWith (Arr xs) c \<longleftrightarrow> c = 91"
| "startsWith (Obj kvs) c \<longleftrightarrow> c = 123"
| "startsWith v c \<longleftrightarrow> False"

lemma intStr_not_Nil [simp]: "intStr i \<noteq> []"
  by (simp add: intStr_def lit_signs)

lemma numberStr_not_Nil: "numberStr n \<noteq> []"
  by (cases n) (auto simp: numberStr_def Let_def lit_signs lit_marks)

lemma ser_start: "is_json v \<Longrightarrow> ser v \<noteq> [] \<and> startsWith v (hd (ser v))"
  using numberStr_chars [OF _ hd_in_set] numberStr_not_Nil
  by (cases v) (auto simp: lit_marks quoteStr_def)

lemma starts_not_delim: "startsWith v c \<Longrightarrow> c \<noteq> 44 \<and> c \<noteq> 93 \<and> c \<noteq> 125"
  by (cases v) (auto simp: isDigit_def split: if_splits)

lemma starts_disjoint:
  assumes "startsWith v c" "startsWith w c"
  shows "(\<exists>xs ys. v = Arr xs \<and> w = Arr ys) \<or> (\<exists>xs ys. v = Obj xs \<and> w = Obj ys) \<or>
    (\<exists>m n. v = Num m \<and> w = Num n) \<or> (\<exists>s t. v = Str s \<and> w = Str t) \<or>
    (\<exists>b. v = Bool b \<and> w = Bool b) \<or> v = Null \<and> w = Null"
  using assms by (cases v; cases w) (auto simp: isDigit_def split: if_splits)

lemma ser_same_kind:
  assumes "is_json v" "is_json w" and eq: "ser v @ r = ser w @ r'"
  shows "(\<exists>xs ys. v = Arr xs \<and> w = Arr ys) \<or> (\<exists>xs ys. v = Obj xs \<and> w = Obj ys) \<or>
    (\<exists>m n. v = Num m \<and> w = Num n) \<or> (\<exists>s t. v = Str s \<and> w = Str t) \<or>
    (\<exists>b. v = Bool b \<and> w = Bool b) \<or> v = Null \<and> w = Null"
proof (rule starts_disjoint)
  show "startsWith v (hd (ser v))" using assms(1) ser_start by blast
  have "hd (ser v) = hd (ser w)"
    using eq ser_start [OF assms(1)] ser_start [OF assms(2)] by (metis hd_append2)
  then show "startsWith w (hd (ser v))" using assms(2) ser_start by metis
qed

lemma ser_prefix:
  "is_json v \<Longrightarrow> is_json w \<Longrightarrow> delim r \<Longrightarrow> delim r' \<Longrightarrow> ser v @ r = ser w @ r' \<Longrightarrow> v = w \<and> r = r'"
proof (induction v arbitrary: w r r' rule: ser.induct)
  case (1 xs)
  obtain ys where w: "w = Arr ys" using ser_same_kind [OF "1.prems"(1,2,5)] by auto
  have "unambiguous ser (set xs) (set ys)"
    using 1 w by (auto simp: unambiguous_def list_all_iff)
  moreover have "ser x \<noteq> [] \<and> hd (ser x) \<notin> {93, 125}" if "x \<in> set xs \<union> set ys" for x
    using ser_start [of x] starts_not_delim [of x "hd (ser x)"] that "1.prems"(1,2) w
    by (auto simp: list_all_iff)
  moreover have "joinWith [44] (map ser xs) @ 93 # r = joinWith [44] (map ser ys) @ 93 # r'"
    using "1.prems"(5) w by simp
  ultimately have "xs = ys \<and> r = r'" by (intro join_unambiguous) auto
  with w show ?case by simp
next
  case (2 kvs)
  let ?f = "\<lambda>kv. quoteStr (fst kv) @ [58] @ ser (snd kv)"
  obtain lvs where w: "w = Obj lvs" using ser_same_kind [OF "2.prems"(1,2,5)] by auto
  have "unambiguous ?f (set kvs) (set lvs)"
    unfolding unambiguous_def
  proof (intro ballI allI impI)
    fix x y s s'
    assume x: "x \<in> set kvs" and y: "y \<in> set lvs" and d: "delim s" "delim s'"
      and eq: "?f x @ s = ?f y @ s'"
    have "quoteStr (fst x) @ 58 # ser (snd x) @ s = quoteStr (fst y) @ 58 # ser (snd y) @ s'"
      using eq by simp
    from quoteStr_prefix [OF this]
    have k: "fst x = fst y" and rest: "ser (snd x) @ s = ser (snd y) @ s'" by auto
    have "is_json (snd x)" "is_json (snd y)"
      using x y "2.prems"(1,2) w by (auto simp: list_all_iff)
    with "2.IH" [OF x _ _ d rest] k show "x = y \<and> s = s'" by (simp add: prod_eq_iff)
  qed
  moreover have "?f x \<noteq> [] \<and> hd (?f x) \<notin> {93, 125}" for x :: "jstr \<times> val"
    by (simp add: quoteStr_def)
  moreover have "joinWith [44] (map ?f kvs) @ 125 # r = joinWith [44] (map ?f lvs) @ 125 # r'"
    using "2.prems"(5) w by simp
  ultimately have "kvs = lvs \<and> r = r'" by (intro join_unambiguous) auto
  with w show ?case by simp
next
  case (5 n)
  obtain m where w: "w = Num m"
    using ser_same_kind [OF "5.prems"(1,2,5)] by auto
  have "n = m \<and> r = r'" using "5.prems" unfolding w by (intro numberStr_prefix) simp_all
  with w show ?case by simp
next
  case (6 s)
  obtain t where w: "w = Str t"
    using ser_same_kind [OF "6.prems"(1,2,5)] by auto
  have "s = t \<and> r = r'" using "6.prems" unfolding w by (intro quoteStr_prefix) simp_all
  with w show ?case by simp
next
  case 3
  have "w = Null" using ser_same_kind [OF "3.prems"(1,2,5)] by auto
  with "3.prems"(5) show ?case by simp
next
  case (4 b)
  have "w = Bool b" using ser_same_kind [OF "4.prems"(1,2,5)] by auto
  with "4.prems"(5) show ?case by simp
qed simp_all

lemma norm_is_json: "is_json v \<Longrightarrow> is_json (norm v)"
proof (induction v rule: norm.induct)
  case (2 kvs)
  have "mset (map fst (sort_key fst (map (\<lambda>kv. (fst kv, norm (snd kv))) kvs))) = mset (map fst kvs)"
    by (simp add: multiset.map_comp comp_def)
  then have "distinct (map fst (sort_key fst (map (\<lambda>kv. (fst kv, norm (snd kv))) kvs)))"
    using "2.prems" mset_eq_imp_distinct_iff by fastforce
  moreover have "\<forall>kv\<in>set kvs. is_json (norm (snd kv))"
    using 2 by (simp add: list_all_iff)
  ultimately show ?case by (simp add: list_all_iff)
qed (simp_all add: list_all_iff)

lemma serialize_eq_iff:
  assumes "is_json v" "is_json w"
  shows "serialize v = serialize w \<longleftrightarrow> norm v = norm w"
proof -
  have "norm v = norm w" if "ser (norm v) = ser (norm w)"
    using ser_prefix [of "norm v" "norm w" "[]" "[]"] assms that
    by (simp add: norm_is_json delim_def)
  then show ?thesis using assms serialize_norm by metis
qed

text \<open>Two records are equal up to order when their keys and, up to order, their fields are.\<close>

lemma map_of_norm: "map_of (map (\<lambda>kv. (fst kv, norm (snd kv))) kvs) k = map_option norm (map_of kvs k)"
  by (induction kvs) auto

lemma norm_recordI:
  assumes "is_json (Obj xs)" "is_json (Obj ys)" "mset (map fst xs) = mset (map fst ys)"
    "\<And>k. k \<in> fst ` set xs \<Longrightarrow> norm (field (Obj xs) k) = norm (field (Obj ys) k)"
  shows "norm (Obj xs) = norm (Obj ys)"
proof -
  let ?n = "map (\<lambda>kv. (fst kv, norm (snd kv)))"
  have d: "distinct (map fst (?n zs))" if "is_json (Obj zs)" for zs using that by (simp add: o_def)
  have keys: "fst ` set xs = fst ` set ys" using mset_eq_setD [OF assms(3)] by simp
  have "map_of (?n xs) k = map_of (?n ys) k" for k
  proof (cases "k \<in> fst ` set xs")
    case True
    with keys obtain x y where "map_of xs k = Some x" "map_of ys k = Some y"
      by (metis map_of_eq_None_iff not_None_eq)
    then show ?thesis using assms(4) [OF True] by (simp add: map_of_norm field_def)
  next
    case False
    then have "map_of xs k = None" "map_of ys k = None" using keys by (simp_all add: map_of_eq_None_iff)
    then show ?thesis by (simp add: map_of_norm)
  qed
  then have "map_of (?n xs) = map_of (?n ys)" by (rule ext)
  then have "set (?n xs) = set (?n ys)"
    using map_of_inject_set [OF d [OF assms(1)] d [OF assms(2)]] by blast
  then have "mset (?n xs) = mset (?n ys)"
    using d [OF assms(1)] d [OF assms(2)] by (meson distinct_map set_eq_iff_mset_eq_distinct)
  moreover have "inj_on fst (set (?n xs))" using d [OF assms(1)] distinct_map by blast
  ultimately have "sort_key fst (?n xs) = sort_key fst (?n ys)" by (rule sort_key_perm_eq)
  then show ?thesis by (simp only: norm.simps)
qed

lemma norm_recordD:
  assumes "norm (Obj xs) = norm (Obj ys)" "is_json (Obj xs)" "is_json (Obj ys)"
  shows "mset (map fst xs) = mset (map fst ys)" "norm (field (Obj xs) k) = norm (field (Obj ys) k)"
proof -
  let ?n = "map (\<lambda>kv. (fst kv, norm (snd kv)))"
  have "sort_key fst (?n xs) = sort_key fst (?n ys)" using assms(1) by (simp only: norm.simps val.inject)
  from arg_cong [OF this, of mset] have eq: "mset (?n xs) = mset (?n ys)" by (simp only: mset_sort)
  from arg_cong [OF this, of "image_mset fst"] show "mset (map fst xs) = mset (map fst ys)"
    by (simp add: multiset.map_comp comp_def)
  have d: "distinct (map fst (?n zs))" if "is_json (Obj zs)" for zs using that by (simp add: o_def)
  have "map_of (?n xs) = map_of (?n ys)"
    using map_of_inject_set [OF d [OF assms(2)] d [OF assms(3)]] mset_eq_setD [OF eq] by blast
  from fun_cong [OF this, of k] have "map_option norm (map_of xs k) = map_option norm (map_of ys k)"
    by (simp only: map_of_norm)
  then show "norm (field (Obj xs) k) = norm (field (Obj ys) k)"
    by (cases "map_of xs k"; cases "map_of ys k") (simp_all add: field_def)
qed

section \<open>Properties\<close>

text \<open>
  C29. Canonical bytes are a faithful encoding: two JSON values have the same bytes exactly when
  they are equal up to the order of object properties. In particular reordering the properties of
  an object changes nothing, and nothing else is lost by quoting, number printing or UTF-8.
\<close>

theorem canonicalBytes_eq_iff:
  assumes "is_json v" "is_json w"
  shows "canonicalBytes v = canonicalBytes w \<longleftrightarrow> norm v = norm w"
  using assms by (simp add: canonicalBytes_def canonicalSerialize_def encodeUtf8_inject serialize_eq_iff)

theorem canonicalBytes_eq_iff_witness:
  "canonicalBytes (Obj [(lit ''b'', Null), (lit ''a'', Arr [Bool True])]) =
   canonicalBytes (Obj [(lit ''a'', Arr [Bool True]), (lit ''b'', Null)])"
  by (subst canonicalBytes_eq_iff) (simp_all add: lit_def)

text \<open>
  Two values that get the same digest are the same JSON value, or the injected hash
  function collides on two different byte strings.
\<close>

theorem canonicalDigest_eq_or_collision:
  assumes "is_json v" "is_json w" "canonicalDigest v sha = Inr d" "canonicalDigest w sha = Inr d"
  shows "norm v = norm w \<or>
    canonicalBytes v \<noteq> canonicalBytes w \<and> sha (canonicalBytes v) = sha (canonicalBytes w)"
proof (cases "canonicalBytes v = canonicalBytes w")
  case True
  then have "norm v = norm w"
    using assms(1,2)
    by (simp add: canonicalBytes_def canonicalSerialize_def encodeUtf8_inject serialize_eq_iff)
  then show ?thesis ..
next
  case False
  then show ?thesis using assms(3,4) by (auto simp: err_simps)
qed

theorem canonicalDigest_eq_or_collision_witness:
  "norm (Obj [(lit ''b'', Null), (lit ''a'', Null)]) = norm (Obj [(lit ''a'', Null), (lit ''b'', Null)]) \<or>
   canonicalBytes (Obj [(lit ''b'', Null), (lit ''a'', Null)]) \<noteq>
     canonicalBytes (Obj [(lit ''a'', Null), (lit ''b'', Null)]) \<and>
   (\<lambda>b. replicate 64 48) (canonicalBytes (Obj [(lit ''b'', Null), (lit ''a'', Null)])) =
     (\<lambda>b. replicate 64 (48 :: 16 word)) (canonicalBytes (Obj [(lit ''a'', Null), (lit ''b'', Null)]))"
  by (rule canonicalDigest_eq_or_collision [where d = "replicate 64 48"])
    (simp_all add: err_simps sha256Pattern_def isHexLower_def isDigit_def list_all_iff)

end
