(* ===== verification/Identity.thy ===== *)
theory Identity
  imports Canonical
begin

text \<open>
  packages/kernel/src/identity.ts: the opaque identities (a kind prefix, an underscore and a
  token), consumer keys and definition generations. An \<open>Opaque\<close> value is the string or number
  itself; the \<open>isXId\<close> and \<open>xId\<close> pairs of the source are \<open>isIdentity\<close> and \<open>identityOf\<close> at a kind.
\<close>

datatype identityKind = WorkflowKind | RunKind | PhaseKind | TaskKind | CriterionKind | AssetKind
  | AssetBindingKind | ContextKind | DispatchKind | ApprovalKind | AmendmentKind
  | EscalationKind | EventKind

fun kindStr :: "identityKind \<Rightarrow> string" where
  "kindStr WorkflowKind = ''workflow''"
| "kindStr RunKind = ''run''"
| "kindStr PhaseKind = ''phase''"
| "kindStr TaskKind = ''task''"
| "kindStr CriterionKind = ''criterion''"
| "kindStr AssetKind = ''asset''"
| "kindStr AssetBindingKind = ''asset-binding''"
| "kindStr ContextKind = ''context''"
| "kindStr DispatchKind = ''dispatch''"
| "kindStr ApprovalKind = ''approval''"
| "kindStr AmendmentKind = ''amendment''"
| "kindStr EscalationKind = ''escalation''"
| "kindStr EventKind = ''event''"

definition isAlnum :: "16 word \<Rightarrow> bool" where
  "isAlnum c \<longleftrightarrow> isLower c \<or> isDigit c"

definition isTokenChar :: "16 word \<Rightarrow> bool" where
  "isTokenChar c \<longleftrightarrow> isAlnum c \<or> c = 45"

text \<open>
  The two anchored patterns \<open>[a-z0-9](?:[a-z0-9-]{0,n}[a-z0-9])?\<close>: one letter or digit, then
  nothing, or at most \<open>n\<close> token characters and a letter or digit.
\<close>

definition tokenPattern :: "nat \<Rightarrow> jstr \<Rightarrow> bool" where
  "tokenPattern n s = (case s of [] \<Rightarrow> False
     | c # cs \<Rightarrow> isAlnum c \<and>
         (cs = [] \<or> list_all isTokenChar (butlast cs) \<and> length (butlast cs) \<le> n \<and> isAlnum (last cs)))"

definition identityTokenPattern :: "jstr \<Rightarrow> bool" where
  "identityTokenPattern s = tokenPattern 62 s"

definition consumerKeyPattern :: "jstr \<Rightarrow> bool" where
  "consumerKeyPattern s = tokenPattern 61 s"

definition startsWithStr :: "jstr \<Rightarrow> jstr \<Rightarrow> bool" where
  "startsWithStr s p \<longleftrightarrow> take (length p) s = p"

definition isIdentity :: "identityKind \<Rightarrow> val \<Rightarrow> bool" where
  "isIdentity kind value = (case value of
     Str s \<Rightarrow> (let pre = lit (kindStr kind) @ lit ''_''
               in startsWithStr s pre \<and> identityTokenPattern (drop (length pre) s))
   | _ \<Rightarrow> False)"

definition identityOf :: "identityKind \<Rightarrow> jstr \<Rightarrow> exn + jstr" where
  "identityOf kind s = (if \<not> isIdentity kind (Str s) then Inl TypeError else Inr s)"

definition isConsumerKey :: "val \<Rightarrow> bool" where
  "isConsumerKey value = (case value of Str s \<Rightarrow> consumerKeyPattern s | _ \<Rightarrow> False)"

definition consumerKey :: "jstr \<Rightarrow> exn + jstr" where
  "consumerKey s = (if \<not> isConsumerKey (Str s) then Inl TypeError else Inr s)"

definition isDefinitionGeneration :: "val \<Rightarrow> bool" where
  "isDefinitionGeneration value = (case value of Num (Whole i) \<Rightarrow> isSafe i \<and> i \<ge> 1 | _ \<Rightarrow> False)"

definition definitionGeneration :: "number \<Rightarrow> exn + int" where
  "definitionGeneration n =
     (if \<not> isDefinitionGeneration (Num n) then Inl TypeError
      else case n of Whole i \<Rightarrow> Inr i | _ \<Rightarrow> Inl TypeError)"

section \<open>Facts\<close>

lemma isIdentity_iff:
  "isIdentity kind v \<longleftrightarrow>
     (\<exists>token. v = Str (lit (kindStr kind) @ lit ''_'' @ token) \<and> identityTokenPattern token)"
proof -
  have "startsWithStr s p \<longleftrightarrow> (\<exists>t. s = p @ t)" for s p
    unfolding startsWithStr_def by (metis append_eq_conv_conj)
  then show ?thesis by (cases v) (force simp: isIdentity_def Let_def)+
qed

lemma isConsumerKey_iff: "isConsumerKey v \<longleftrightarrow> (\<exists>s. v = Str s \<and> consumerKeyPattern s)"
  by (cases v) (simp_all add: isConsumerKey_def)

lemma isDefinitionGeneration_iff:
  "isDefinitionGeneration v \<longleftrightarrow> (\<exists>i. posSafeInt v = Some i)"
  by (auto simp: isDefinitionGeneration_def posSafeInt_eq_Some split: val.splits number.splits)

lemma identityOf_eq_Inr [err_simps]: "identityOf k s = Inr t \<longleftrightarrow> t = s \<and> isIdentity k (Str s)"
  by (auto simp: identityOf_def)

lemma isAlnum_token: "isAlnum c \<Longrightarrow> isTokenChar c"
  by (simp add: isTokenChar_def)

lemma tokenPattern_iff:
  "tokenPattern n s \<longleftrightarrow>
     s \<noteq> [] \<and> list_all isTokenChar s \<and> isAlnum (hd s) \<and> isAlnum (last s) \<and> length s \<le> n + 2"
proof (cases s)
  case (Cons c cs)
  show ?thesis
  proof (cases cs rule: rev_cases)
    case Nil
    with Cons show ?thesis by (auto simp: tokenPattern_def isAlnum_token)
  next
    case (snoc ds d)
    with Cons show ?thesis by (auto simp: tokenPattern_def isAlnum_token)
  qed
qed (simp add: tokenPattern_def)

lemma tokenPattern_mono: "tokenPattern m s \<Longrightarrow> m \<le> n \<Longrightarrow> tokenPattern n s"
  by (auto simp: tokenPattern_iff)

lemma token_no_underscore: "isTokenChar c \<Longrightarrow> c \<noteq> 95 \<and> c \<noteq> 0 \<and> c \<noteq> 58 \<and> c \<noteq> 47"
  by (auto simp: isTokenChar_def isAlnum_def isLower_def isDigit_def)

lemma kindStr_token: "list_all isTokenChar (lit (kindStr kind))"
  by (cases kind) (simp_all add: lit_def isTokenChar_def isAlnum_def isLower_def isDigit_def)

lemma kindStr_inject [simp]: "kindStr j = kindStr k \<longleftrightarrow> j = k"
  by (cases j; cases k) simp_all

text \<open>The identity kinds are disjoint, although one prefix (\<open>asset\<close>) starts another.\<close>

lemma identity_kind_split:
  assumes "list_all isTokenChar p" "list_all isTokenChar q" "p @ lit ''_'' @ s = q @ lit ''_'' @ t"
  shows "p = q \<and> s = t"
proof -
  have u: "lit ''_'' = [95]" by (simp add: lit_def)
  have P: "takeWhile (\<lambda>c. c \<noteq> 95) (p @ lit ''_'' @ s) = p" if "list_all isTokenChar p" for p s
    using that token_no_underscore by (auto simp: u list_all_iff takeWhile_append2)
  show ?thesis using P [OF assms(1), of s] P [OF assms(2), of t] assms(3) by auto
qed

lemma isIdentity_kind_unique:
  assumes "isIdentity j v" "isIdentity k v"
  shows "j = k"
proof -
  from assms obtain s t where "lit (kindStr j) @ lit ''_'' @ s = lit (kindStr k) @ lit ''_'' @ t"
    by (auto simp: isIdentity_iff)
  then have "lit (kindStr j) = lit (kindStr k)"
    using identity_kind_split [OF kindStr_token kindStr_token] by blast
  then show ?thesis by simp
qed

lemma identity_chars:
  assumes "isIdentity k (Str s)" and "c \<in> set s"
  shows "isTokenChar c \<or> c = 95"
proof -
  obtain token where s: "s = lit (kindStr k) @ lit ''_'' @ token" and t: "identityTokenPattern token"
    using assms(1) by (auto simp: isIdentity_iff)
  have "lit ''_'' = [95]" by (simp add: lit_def)
  then show ?thesis
    using assms(2) t kindStr_token [of k]
    by (auto simp: s identityTokenPattern_def tokenPattern_iff list_all_iff)
qed

lemma isIdentity_is_json: "isIdentity k v \<Longrightarrow> is_json v"
  by (auto simp: isIdentity_iff)

section \<open>Properties\<close>

text \<open>
  The identity kinds are disjoint: no value is an identity of two kinds, although
  \<open>asset_\<close> and \<open>asset-binding_\<close> share their first letters.
\<close>

theorem identity_kinds_disjoint:
  assumes "identityOf j s = Inr a" and "identityOf k s = Inr b"
  shows "j = k \<and> a = s"
  using assms isIdentity_kind_unique by (auto simp: err_simps)

theorem identity_kinds_disjoint_witness:
  "TaskKind = TaskKind \<and> lit ''task_a-1'' = lit ''task_a-1''"
  by (rule identity_kinds_disjoint [of _ "lit ''task_a-1''" _ _ "lit ''task_a-1''"]; code_simp)

end
