(* ===== verification/Pointers.thy ===== *)
theory Pointers
  imports JsValues "HOL-Library.Sublist"
begin

text \<open>
  JSON pointers (RFC 6901) as gates.ts and dataflow.ts read them. A pointer is empty or a slash
  before each of its segments, in which \<open>~0\<close> stands for \<open>~\<close> and \<open>~1\<close> for \<open>/\<close>. Reading a
  pointer and printing its segments are inverse to each other.
\<close>

text \<open>\<open>s.split("/")\<close>, the escape test \<open>~(?:[^01]|$)\<close> and the two global replacements.\<close>

fun splitSlash :: "jstr \<Rightarrow> jstr list" where
  "splitSlash [] = [[]]"
| "splitSlash (c # cs) = (if c = 47 then [] # splitSlash cs
     else case splitSlash cs of [] \<Rightarrow> [[c]] | seg # segs \<Rightarrow> (c # seg) # segs)"

fun badEscape :: "jstr \<Rightarrow> bool" where
  "badEscape [] = False"
| "badEscape [c] = (c = 126)"
| "badEscape (c # d # cs) = (c = 126 \<and> d \<noteq> 48 \<and> d \<noteq> 49 \<or> badEscape (d # cs))"

fun replaceEscape :: "16 word \<Rightarrow> 16 word \<Rightarrow> jstr \<Rightarrow> jstr" where
  "replaceEscape k r [] = []"
| "replaceEscape k r [c] = [c]"
| "replaceEscape k r (c # d # cs) =
     (if c = 126 \<and> d = k then r # replaceEscape k r cs else c # replaceEscape k r (d # cs))"

text \<open>\<open>/^(?:0|[1-9][0-9]*)$/\<close>\<close>

definition indexPattern :: "jstr \<Rightarrow> bool" where
  "indexPattern s \<longleftrightarrow> s = [48] \<or> s \<noteq> [] \<and> hd s \<noteq> 48 \<and> list_all isDigit s"

definition decodeSegment :: "jstr \<Rightarrow> jstr" where
  "decodeSegment s = replaceEscape 48 126 (replaceEscape 49 47 s)"

definition readPointer :: "nat \<Rightarrow> nat \<Rightarrow> 'e \<Rightarrow> jstr \<Rightarrow> 'e + jstr list" where
  "readPointer maxLength maxSegments e pointer =
     (if length pointer > maxLength then Inl e
      else case pointer of [] \<Rightarrow> Inr []
      | c # rest \<Rightarrow>
          if c \<noteq> 47 then Inl e
          else let encoded = splitSlash rest in
            if length encoded > maxSegments then Inl e
            else mapE (\<lambda>segment. if badEscape segment then Inl e
                   else Inr (decodeSegment segment)) encoded)"

section \<open>Printing\<close>

definition encodeSegment :: "jstr \<Rightarrow> jstr" where
  "encodeSegment s = concat (map (\<lambda>c. if c = 126 then [126, 48] else if c = 47 then [126, 49] else [c]) s)"

definition printPointer :: "jstr list \<Rightarrow> jstr" where
  "printPointer segments = concat (map (\<lambda>s. 47 # encodeSegment s) segments)"

lemma replaceEscape_other: "c \<noteq> 126 \<Longrightarrow> replaceEscape k r (c # s) = c # replaceEscape k r s"
  by (cases s) auto

lemma badEscape_other: "c \<noteq> 126 \<Longrightarrow> badEscape (c # s) = badEscape s"
  by (cases s) auto

lemma badEscape_tilde:
  "badEscape (126 # s) \<longleftrightarrow> s = [] \<or> hd s \<noteq> 48 \<and> hd s \<noteq> 49 \<or> badEscape (tl s)"
proof (cases s)
  case (Cons d cs)
  then show ?thesis by (cases "d = 126") (auto simp: badEscape_other)
qed simp

lemma decodeSegment_simps [simp]:
  "decodeSegment [] = []"
  "c \<noteq> 126 \<Longrightarrow> decodeSegment (c # s) = c # decodeSegment s"
  "decodeSegment (126 # 48 # s) = 126 # decodeSegment s"
  "decodeSegment (126 # 49 # s) = 47 # decodeSegment s"
  by (simp_all add: decodeSegment_def replaceEscape_other)

lemma encodeSegment_simps [simp]:
  "encodeSegment [] = []" "encodeSegment (126 # s) = 126 # 48 # encodeSegment s" "encodeSegment (47 # s) = 126 # 49 # encodeSegment s"
  "c \<noteq> 126 \<Longrightarrow> c \<noteq> 47 \<Longrightarrow> encodeSegment (c # s) = c # encodeSegment s"
  by (simp_all add: encodeSegment_def)

lemma encodeSegment_Cons:
  "encodeSegment (c # s) = (if c = 126 then [126, 48] else if c = 47 then [126, 49] else [c]) @ encodeSegment s"
  by (simp add: encodeSegment_def)

lemma decode_encodeSegment: "decodeSegment (encodeSegment s) = s"
  by (induction s) (auto simp: encodeSegment_Cons)

lemma encode_decodeSegment: "\<not> badEscape s \<Longrightarrow> 47 \<notin> set s \<Longrightarrow> encodeSegment (decodeSegment s) = s"
proof (induction s rule: length_induct)
  case (1 s)
  show ?case
  proof (cases s)
    case Nil
    then show ?thesis by simp
  next
    case s: (Cons c cs)
    show ?thesis
    proof (cases "c = 126")
      case False
      then show ?thesis using 1 s by (simp add: badEscape_other)
    next
      case True
      then obtain d ds where d: "cs = d # ds" "d = 48 \<or> d = 49" "\<not> badEscape ds"
        using "1.prems"(1) s by (cases cs) (auto simp: badEscape_tilde badEscape_other)
      have "encodeSegment (decodeSegment ds) = ds" using 1 s d by simp
      then show ?thesis using s True d by auto
    qed
  qed
qed

lemma encodeSegment_ok: "\<not> badEscape (encodeSegment s)" "47 \<notin> set (encodeSegment s)"
  by (induction s) (auto simp: encodeSegment_Cons badEscape_tilde badEscape_other)

lemma splitSlash_plain: "47 \<notin> set s \<Longrightarrow> splitSlash s = [s]"
  by (induction s) auto

lemma splitSlash_append: "47 \<notin> set s \<Longrightarrow> splitSlash (s @ 47 # t) = s # splitSlash t"
  by (induction s) auto

lemma splitSlash_not_Nil [simp]: "splitSlash s \<noteq> []"
  by (cases s) (auto split: list.splits)

lemma splitSlash_segment: "seg \<in> set (splitSlash s) \<Longrightarrow> 47 \<notin> set seg"
  by (induction s arbitrary: seg) (auto split: if_splits list.splits)

lemma join_splitSlash: "concat (map ((#) 47) (splitSlash s)) = 47 # s"
proof (induction s)
  case (Cons c s)
  then show ?case by (cases "splitSlash s") auto
qed simp

lemma splitSlash_join:
  assumes "\<And>s. s \<in> set segs \<Longrightarrow> 47 \<notin> set s" "segs \<noteq> []"
  shows "splitSlash (tl (concat (map ((#) 47) segs))) = segs"
  using assms
proof (induction segs)
  case (Cons s segs)
  show ?case
  proof (cases "segs = []")
    case True
    with Cons.prems show ?thesis by (simp add: splitSlash_plain)
  next
    case False
    then obtain t where t: "concat (map ((#) 47) segs) = 47 # t" by (cases segs) auto
    have "splitSlash t = segs" using Cons False t by simp
    moreover have "47 \<notin> set s" using Cons.prems by simp
    ultimately show ?thesis by (simp add: t splitSlash_append)
  qed
qed simp

text \<open>A pointer is read exactly when it is the print of the segments it reads as.\<close>

lemma readPointer_eq_Inr:
  "readPointer n m e p = Inr segs \<longleftrightarrow> p = printPointer segs \<and> length p \<le> n \<and> length segs \<le> m"
proof
  assume r: "readPointer n m e p = Inr segs"
  show "p = printPointer segs \<and> length p \<le> n \<and> length segs \<le> m"
  proof (cases p)
    case Nil
    with r show ?thesis by (auto simp: readPointer_def printPointer_def)
  next
    case (Cons c rest)
    then have c: "c = 47" "length p \<le> n" "length (splitSlash rest) \<le> m"
        and segs: "mapE (\<lambda>s. if badEscape s then Inl e else Inr (decodeSegment s)) (splitSlash rest) = Inr segs"
      using r by (auto simp: readPointer_def Let_def split: if_splits)
    have "map encodeSegment segs = splitSlash rest"
    proof (rule mapE_inverse [OF segs])
      fix s t assume "s \<in> set (splitSlash rest)" "(if badEscape s then Inl e else Inr (decodeSegment s)) = Inr t"
      then show "encodeSegment t = s" by (auto split: if_splits intro: encode_decodeSegment dest: splitSlash_segment)
    qed
    then have "printPointer segs = concat (map ((#) 47) (splitSlash rest))"
      by (simp add: printPointer_def comp_def flip: \<open>map encodeSegment segs = splitSlash rest\<close>)
    then show ?thesis using Cons c mapE_length [OF segs] by (simp add: join_splitSlash)
  qed
next
  assume p: "p = printPointer segs \<and> length p \<le> n \<and> length segs \<le> m"
  show "readPointer n m e p = Inr segs"
  proof (cases segs)
    case Nil
    with p show ?thesis by (simp add: readPointer_def printPointer_def)
  next
    case (Cons s ss)
    have "printPointer segs = concat (map ((#) 47) (map encodeSegment segs))"
      by (simp add: printPointer_def comp_def)
    moreover have "splitSlash (tl (concat (map ((#) 47) (map encodeSegment segs)))) = map encodeSegment segs"
      using Cons by (intro splitSlash_join) (auto simp: encodeSegment_ok)
    ultimately have split: "splitSlash (tl p) = map encodeSegment segs" using p by simp
    have "mapE (\<lambda>s. if badEscape s then Inl e else Inr (decodeSegment s)) (map encodeSegment segs) = Inr segs"
      by (auto simp: mapE_eq_Inr list_all2_conv_all_nth encodeSegment_ok decode_encodeSegment)
    moreover obtain rest where "p = 47 # rest" using p Cons by (simp add: printPointer_def)
    ultimately show ?thesis using p split by (auto simp: readPointer_def)
  qed
qed

lemma printPointer_inject: "printPointer segs = printPointer segs' \<longleftrightarrow> segs = segs'"
proof
  assume eq: "printPointer segs = printPointer segs'"
  define n where "n = length (printPointer segs)"
  define m where "m = max (length segs) (length segs')"
  have "readPointer n m () (printPointer segs) = Inr segs" by (simp add: readPointer_eq_Inr n_def m_def)
  moreover have "readPointer n m () (printPointer segs) = Inr segs'"
    by (simp add: readPointer_eq_Inr n_def m_def eq)
  ultimately show "segs = segs'" by simp
qed simp

end
