(* ===== verification/Gates.thy ===== *)
theory Gates
  imports Identity Pointers
begin

text \<open>
  packages/kernel/src/gates.ts: sensor readings, gate definitions with their condition language,
  three-valued evaluation of conditions against readings, gate evaluations and gate evidence.

  A validator of the source takes an unknown value and returns a typed object; here it takes a
  \<open>val\<close> and returns a record, and \<open>enc...\<close> is the object again, which is what the code digests
  and hands on. The mutable node \<open>budget\<close> of the validators is threaded through as a counter.
\<close>

section \<open>Readings\<close>

datatype readingOutcome = Succeeded val | Failed val

record readingContent =
  sensorKey :: jstr
  inputDigest :: jstr
  outcome :: readingOutcome
  readingTaskId :: "jstr option"

record sensorReading = readingContent +
  readingDigest :: jstr

definition encReadingContent :: "'a readingContent_scheme \<Rightarrow> val" where
  "encReadingContent r = Obj (
     [(lit ''sensorKey'', Str (sensorKey r)), (lit ''inputDigest'', Str (inputDigest r))] @
     (case outcome r of
        Succeeded d \<Rightarrow> [(lit ''outcome'', Str (lit ''succeeded'')), (lit ''data'', d)]
      | Failed x \<Rightarrow> [(lit ''outcome'', Str (lit ''failed'')), (lit ''error'', x)]) @
     (case readingTaskId r of None \<Rightarrow> [] | Some t \<Rightarrow> [(lit ''taskId'', Str t)]))"

definition encReading :: "sensorReading \<Rightarrow> val" where
  "encReading r = Obj (props (encReadingContent r) @ [(lit ''readingDigest'', Str (readingDigest r))])"

definition assertReadingKeys :: "val \<Rightarrow> string \<Rightarrow> exn + unit" where
  "assertReadingKeys v payload =
     assertExactKeys (without v ''taskId'') [''sensorKey'', ''inputDigest'', ''outcome'', payload]
       (GateError GInvalidReading)"

definition readingTask :: "val \<Rightarrow> exn + jstr option" where
  "readingTask v = (case get v ''taskId'' of
     Undef \<Rightarrow> Inr None
   | Str t \<Rightarrow> if t = [] then Inl (GateError GInvalidReading) else Inr (Some t)
   | _ \<Rightarrow> Inl (GateError GInvalidReading))"

definition assertReadingEnvelope :: "val \<Rightarrow> exn + jstr \<times> jstr" where
  "assertReadingEnvelope v =
     (if \<not> isConsumerKey (get v ''sensorKey'') then Inl (GateError GInvalidReading)
      else if \<not> isSha256Digest (get v ''inputDigest'') then Inl (GateError GInvalidReading)
      else case (get v ''sensorKey'', get v ''inputDigest'') of
        (Str k, Str d) \<Rightarrow> Inr (k, d) | _ \<Rightarrow> Inl (GateError GInvalidReading))"

definition readingContentOf :: "val \<Rightarrow> exn + readingContent" where
  "readingContentOf v =
     (if \<not> isRecord v then Inl (GateError GInvalidReading)
      else if get v ''outcome'' = Str (lit ''succeeded'') then
        bindE (assertReadingKeys v ''data'') (\<lambda>_. bindE (assertReadingEnvelope v) (\<lambda>(k, d).
          bindE (readingTask v) (\<lambda>t.
            Inr \<lparr>sensorKey = k, inputDigest = d, outcome = Succeeded (get v ''data''), readingTaskId = t\<rparr>)))
      else if get v ''outcome'' = Str (lit ''failed'') then
        bindE (assertReadingKeys v ''error'') (\<lambda>_. bindE (assertReadingEnvelope v) (\<lambda>(k, d).
          bindE (readingTask v) (\<lambda>t.
            Inr \<lparr>sensorKey = k, inputDigest = d, outcome = Failed (get v ''error''), readingTaskId = t\<rparr>)))
      else Inl (GateError GInvalidReading))"

definition createSensorReading :: "val \<Rightarrow> sha256 \<Rightarrow> exn + sensorReading" where
  "createSensorReading input sha =
     bindE (snapshotCanonical (GateError GInvalidReading) input) (\<lambda>snapshot.
     bindE (readingContentOf snapshot) (\<lambda>content.
     bindE (canonicalDigest (encReadingContent content) sha) (\<lambda>digest.
       Inr (readingContent.extend content \<lparr>readingDigest = digest\<rparr>))))"

definition validateReadingSnapshot :: "val \<Rightarrow> sha256 \<Rightarrow> exn + sensorReading" where
  "validateReadingSnapshot v sha =
     (if \<not> isRecord v then Inl (GateError GInvalidReading)
      else bindE (assertExactKeys (without v ''taskId'')
          (if get v ''outcome'' = Str (lit ''succeeded'')
           then [''sensorKey'', ''inputDigest'', ''outcome'', ''data'', ''readingDigest'']
           else [''sensorKey'', ''inputDigest'', ''outcome'', ''error'', ''readingDigest''])
          (GateError GInvalidReading)) (\<lambda>_.
        if \<not> isSha256Digest (get v ''readingDigest'') then Inl (GateError GInvalidReading)
        else bindE (readingContentOf (without v ''readingDigest'')) (\<lambda>content.
          bindE (canonicalDigest (encReadingContent content) sha) (\<lambda>computed.
            if Str computed \<noteq> get v ''readingDigest'' then Inl (GateError GInvalidReading)
            else Inr (readingContent.extend content \<lparr>readingDigest = computed\<rparr>)))))"

definition validateSensorReading :: "val \<Rightarrow> sha256 \<Rightarrow> exn + sensorReading" where
  "validateSensorReading v sha =
     bindE (snapshotCanonical (GateError GInvalidReading) v) (\<lambda>s. validateReadingSnapshot s sha)"

section \<open>Conditions\<close>

datatype truthValue = TrueV | FalseV | UnknownV

record readingAccessor =
  accSensorKey :: jstr
  accPointer :: jstr

datatype comparison = Equals | NotEquals | GreaterThan | GreaterThanOrEqual | LessThan
  | LessThanOrEqual

datatype condition = CAll "condition list" | CAny "condition list" | CNot condition
  | CExists readingAccessor | CCompare comparison readingAccessor val

record gateLimits =
  maxConditionDepth :: int
  maxConditionNodes :: int
  maxPointerSegments :: nat
  maxPointerLength :: nat

definition defaultLimits :: gateLimits where
  "defaultLimits = \<lparr>maxConditionDepth = 32, maxConditionNodes = 256,
     maxPointerSegments = 64, maxPointerLength = 1024\<rparr>"

definition parsePointer :: "jstr \<Rightarrow> gateLimits \<Rightarrow> exn + jstr list" where
  "parsePointer pointer limits =
     (if length pointer > maxPointerLength limits then Inl (GateError GInvalidPointer)
      else case pointer of [] \<Rightarrow> Inr []
      | c # rest \<Rightarrow>
          if c \<noteq> 47 then Inl (GateError GInvalidPointer)
          else let encoded = splitSlash rest in
            if length encoded > maxPointerSegments limits then Inl (GateError GInvalidPointer)
            else mapE (\<lambda>segment. if badEscape segment then Inl (GateError GInvalidPointer)
                   else Inr (replaceEscape 48 126 (replaceEscape 49 47 segment))) encoded)"

fun comparisonStr :: "comparison \<Rightarrow> string" where
  "comparisonStr Equals = ''equals''"
| "comparisonStr NotEquals = ''not-equals''"
| "comparisonStr GreaterThan = ''greater-than''"
| "comparisonStr GreaterThanOrEqual = ''greater-than-or-equal''"
| "comparisonStr LessThan = ''less-than''"
| "comparisonStr LessThanOrEqual = ''less-than-or-equal''"

definition comparisonOperator :: "jstr \<Rightarrow> comparison option" where
  "comparisonOperator s = find (\<lambda>c. s = lit (comparisonStr c))
     [Equals, NotEquals, GreaterThan, GreaterThanOrEqual, LessThan, LessThanOrEqual]"

definition isNumberComparisonOperator :: "comparison \<Rightarrow> bool" where
  "isNumberComparisonOperator c \<longleftrightarrow> c \<noteq> Equals \<and> c \<noteq> NotEquals"

definition isNum :: "val \<Rightarrow> bool" where
  "isNum v = (case v of Num _ \<Rightarrow> True | _ \<Rightarrow> False)"

definition validateAccessor :: "val \<Rightarrow> gateLimits \<Rightarrow> exn + readingAccessor" where
  "validateAccessor v limits =
     bindE (assertExactKeys v [''sensorKey'', ''pointer''] (GateError GInvalidCondition)) (\<lambda>_.
     if \<not> isConsumerKey (get v ''sensorKey'') then Inl (GateError GInvalidCondition)
     else case (get v ''sensorKey'', get v ''pointer'') of
       (Str k, Str p) \<Rightarrow> bindE (parsePointer p limits) (\<lambda>_. Inr \<lparr>accSensorKey = k, accPointer = p\<rparr>)
     | _ \<Rightarrow> Inl (GateError GInvalidPointer))"

lemma size_field_less:
  assumes "isRecord v"
  shows "size (field v k) < size v"
proof -
  obtain kvs where v: "v = Obj kvs" using assms by (auto simp: isRecord_iff)
  show ?thesis
  proof (cases "map_of kvs k")
    case None
    then show ?thesis by (simp add: v field_def)
  next
    case (Some x)
    then have "(k, x) \<in> set kvs" by (rule map_of_SomeD)
    then have "size x \<le> size_list (size_prod (\<lambda>_. 0) size) kvs"
      by (rule size_list_estimation') simp
    with Some show ?thesis by (simp add: v field_def)
  qed
qed

lemma size_arr_member: "arrOf v = Some xs \<Longrightarrow> x \<in> set xs \<Longrightarrow> size x < size v"
  by (auto simp: size_list_estimation' less_Suc_eq_le)

function validateCondition ::
  "gateLimits \<Rightarrow> int \<Rightarrow> int \<Rightarrow> val \<Rightarrow> exn + condition \<times> int" where
  "validateCondition limits depth nodes v =
     (let nodes = nodes + 1 in
      if nodes > maxConditionNodes limits then Inl (GateError GConditionNodeLimit)
      else if depth > maxConditionDepth limits then Inl (GateError GConditionDepthLimit)
      else if \<not> isRecord v then Inl (GateError GInvalidCondition)
      else case get v ''operator'' of
        Str oper \<Rightarrow>
          if oper = lit ''all'' \<or> oper = lit ''any'' then
            bindE (assertExactKeys v [''operator'', ''conditions''] (GateError GInvalidCondition)) (\<lambda>_.
            case arrOf (get v ''conditions'') of
              None \<Rightarrow> Inl (GateError GInvalidCondition)
            | Some cs \<Rightarrow>
                bindE (mapAccumE (\<lambda>n c. validateCondition limits (depth + 1) n c) nodes cs)
                  (\<lambda>(conds, n). Inr (if oper = lit ''all'' then CAll conds else CAny conds, n)))
          else if oper = lit ''not'' then
            bindE (assertExactKeys v [''operator'', ''condition''] (GateError GInvalidCondition)) (\<lambda>_.
            bindE (validateCondition limits (depth + 1) nodes (get v ''condition''))
              (\<lambda>(c, n). Inr (CNot c, n)))
          else if oper = lit ''exists'' then
            bindE (assertExactKeys v [''operator'', ''accessor''] (GateError GInvalidCondition)) (\<lambda>_.
            bindE (validateAccessor (get v ''accessor'') limits) (\<lambda>a. Inr (CExists a, nodes)))
          else (case comparisonOperator oper of
            Some c \<Rightarrow>
              bindE (assertExactKeys v [''operator'', ''accessor'', ''expected'']
                (GateError GInvalidCondition)) (\<lambda>_.
              if isNumberComparisonOperator c \<and> \<not> isNum (get v ''expected'')
              then Inl (GateError GInvalidCondition)
              else bindE (validateAccessor (get v ''accessor'') limits)
                (\<lambda>a. Inr (CCompare c a (get v ''expected''), nodes)))
          | None \<Rightarrow> Inl (GateError GInvalidCondition))
      | _ \<Rightarrow> Inl (GateError GInvalidCondition))"
  by pat_completeness auto
termination
  by (relation "measure (\<lambda>(limits, depth, nodes, v). size v)")
    (auto intro: size_field_less less_trans [OF size_arr_member size_field_less]
      simp del: arrOf_eq_Some)

declare validateCondition.simps [simp del]

fun encAccessor :: "readingAccessor \<Rightarrow> val" where
  "encAccessor a = Obj [(lit ''sensorKey'', Str (accSensorKey a)), (lit ''pointer'', Str (accPointer a))]"

fun encCondition :: "condition \<Rightarrow> val" where
  "encCondition (CAll cs) =
     Obj [(lit ''operator'', Str (lit ''all'')), (lit ''conditions'', Arr (map encCondition cs))]"
| "encCondition (CAny cs) =
     Obj [(lit ''operator'', Str (lit ''any'')), (lit ''conditions'', Arr (map encCondition cs))]"
| "encCondition (CNot c) =
     Obj [(lit ''operator'', Str (lit ''not'')), (lit ''condition'', encCondition c)]"
| "encCondition (CExists a) =
     Obj [(lit ''operator'', Str (lit ''exists'')), (lit ''accessor'', encAccessor a)]"
| "encCondition (CCompare c a x) =
     Obj [(lit ''operator'', Str (lit (comparisonStr c))), (lit ''accessor'', encAccessor a),
          (lit ''expected'', x)]"

section \<open>Gate definitions\<close>

record gateRule =
  ruleKey :: jstr
  ruleCondition :: condition

record gateContent =
  gateKey :: jstr
  blocking :: "gateRule list"
  advisory :: "gateRule list"

record gateDefinition = gateContent +
  policyDigest :: jstr

definition encRule :: "gateRule \<Rightarrow> val" where
  "encRule r = Obj [(lit ''key'', Str (ruleKey r)), (lit ''condition'', encCondition (ruleCondition r))]"

definition encGateContent :: "'a gateContent_scheme \<Rightarrow> val" where
  "encGateContent g = Obj [(lit ''key'', Str (gateKey g)),
     (lit ''blocking'', Arr (map encRule (blocking g))),
     (lit ''advisory'', Arr (map encRule (advisory g)))]"

definition encGateDefinition :: "gateDefinition \<Rightarrow> val" where
  "encGateDefinition g = Obj (props (encGateContent g) @ [(lit ''policyDigest'', Str (policyDigest g))])"

definition gateRules :: "gateLimits \<Rightarrow> int \<Rightarrow> val \<Rightarrow> exn + gateRule list \<times> int" where
  "gateRules limits nodes v = (case arrOf v of
     None \<Rightarrow> Inl (GateError GInvalidPolicy)
   | Some rules \<Rightarrow>
       mapAccumE (\<lambda>n rule.
         bindE (assertExactKeys rule [''key'', ''condition''] (GateError GInvalidPolicy)) (\<lambda>_.
         if \<not> isConsumerKey (get rule ''key'') then Inl (GateError GInvalidPolicy)
         else case strOf (get rule ''key'') of
           None \<Rightarrow> Inl (GateError GInvalidPolicy)
         | Some k \<Rightarrow> bindE (validateCondition limits 1 n (get rule ''condition''))
             (\<lambda>(c, n'). Inr (\<lparr>ruleKey = k, ruleCondition = c\<rparr>, n')))) nodes rules)"

definition gateContentOf :: "val \<Rightarrow> int \<Rightarrow> gateLimits \<Rightarrow> exn + gateContent" where
  "gateContentOf v nodes limits =
     bindE (assertExactKeys v [''key'', ''blocking'', ''advisory''] (GateError GInvalidPolicy)) (\<lambda>_.
     if \<not> isConsumerKey (get v ''key'') then Inl (GateError GInvalidPolicy)
     else case strOf (get v ''key'') of
       None \<Rightarrow> Inl (GateError GInvalidPolicy)
     | Some k \<Rightarrow>
         bindE (gateRules limits nodes (get v ''blocking'')) (\<lambda>(bs, n).
         bindE (gateRules limits n (get v ''advisory'')) (\<lambda>(as, n').
           if \<not> distinct (map ruleKey (bs @ as)) then Inl (GateError GInvalidPolicy)
           else Inr \<lparr>gateKey = k, blocking = bs, advisory = as\<rparr>)))"

definition defineGate :: "val \<Rightarrow> sha256 \<Rightarrow> exn + gateDefinition" where
  "defineGate input sha =
     bindE (snapshotCanonical (GateError GInvalidPolicy) input) (\<lambda>snapshot.
     bindE (gateContentOf snapshot 0 defaultLimits) (\<lambda>content.
     bindE (canonicalDigest (encGateContent content) sha) (\<lambda>digest.
       Inr (gateContent.extend content \<lparr>policyDigest = digest\<rparr>))))"

definition validateGateDefinitionSnapshot :: "val \<Rightarrow> sha256 \<Rightarrow> exn + gateDefinition" where
  "validateGateDefinitionSnapshot v sha =
     bindE (assertExactKeys v [''key'', ''blocking'', ''advisory'', ''policyDigest'']
       (GateError GInvalidPolicy)) (\<lambda>_.
     if \<not> isSha256Digest (get v ''policyDigest'') then Inl (GateError GInvalidPolicy)
     else bindE (gateContentOf (Obj [(lit ''key'', get v ''key''),
         (lit ''blocking'', get v ''blocking''), (lit ''advisory'', get v ''advisory'')])
         0 defaultLimits) (\<lambda>content.
       bindE (canonicalDigest (encGateContent content) sha) (\<lambda>computed.
         if Str computed \<noteq> get v ''policyDigest'' then Inl (GateError GInvalidPolicy)
         else Inr (gateContent.extend content \<lparr>policyDigest = computed\<rparr>))))"

definition validateGateDefinition :: "val \<Rightarrow> sha256 \<Rightarrow> exn + gateDefinition" where
  "validateGateDefinition v sha =
     bindE (snapshotCanonical (GateError GInvalidPolicy) v)
       (\<lambda>s. validateGateDefinitionSnapshot s sha)"

section \<open>Evaluation\<close>

text \<open>The insertion-ordered \<open>Map\<close> from sensor key to reading.\<close>

type_synonym readingIndex = "(jstr \<times> sensorReading) list"

datatype resolvedAccessor = Found val | Missing | Unavailable

fun followPointer :: "val \<Rightarrow> jstr list \<Rightarrow> resolvedAccessor" where
  "followPointer current [] = Found current"
| "followPointer current (segment # segments) =
     (case current of
        Arr xs \<Rightarrow>
          if \<not> indexPattern segment then Missing
          else if \<not> isSafe (int (natOf segment)) \<or> natOf segment \<ge> length xs then Missing
          else followPointer (xs ! natOf segment) segments
      | Obj kvs \<Rightarrow>
          if \<not> hasOwn current segment then Missing
          else followPointer (field current segment) segments
      | _ \<Rightarrow> Missing)"

definition resolveAccessor :: "readingAccessor \<Rightarrow> readingIndex \<Rightarrow> exn + resolvedAccessor" where
  "resolveAccessor a readings = (case map_of readings (accSensorKey a) of
     None \<Rightarrow> Inr Unavailable
   | Some reading \<Rightarrow> (case outcome reading of
       Failed _ \<Rightarrow> Inr Unavailable
     | Succeeded d \<Rightarrow>
         bindE (parsePointer (accPointer a) defaultLimits) (\<lambda>segs. Inr (followPointer d segs))))"

fun invert :: "truthValue \<Rightarrow> truthValue" where
  "invert UnknownV = UnknownV"
| "invert TrueV = FalseV"
| "invert FalseV = TrueV"

definition truth :: "bool \<Rightarrow> truthValue" where
  "truth b = (if b then TrueV else FalseV)"

definition compareValues :: "comparison \<Rightarrow> val \<Rightarrow> val \<Rightarrow> truthValue" where
  "compareValues c value expected =
     (if c = Equals \<or> c = NotEquals then
        (let result = truth (canonicalSerialize value = canonicalSerialize expected)
         in if c = Equals then result else invert result)
      else case (value, expected) of
        (Num x, Num y) \<Rightarrow> (case c of
            GreaterThan \<Rightarrow> truth (num_less y x)
          | GreaterThanOrEqual \<Rightarrow> truth (num_le y x)
          | LessThan \<Rightarrow> truth (num_less x y)
          | _ \<Rightarrow> truth (num_le x y))
      | _ \<Rightarrow> UnknownV)"

text \<open>\<open>evaluateAll\<close> and \<open>evaluateAny\<close> are the two loops, with their variable \<open>result\<close>.\<close>

fun evaluateCondition :: "readingIndex \<Rightarrow> condition \<Rightarrow> exn + truthValue"
  and evaluateAll :: "readingIndex \<Rightarrow> truthValue \<Rightarrow> condition list \<Rightarrow> exn + truthValue"
  and evaluateAny :: "readingIndex \<Rightarrow> truthValue \<Rightarrow> condition list \<Rightarrow> exn + truthValue" where
  "evaluateCondition rs (CAll cs) = evaluateAll rs TrueV cs"
| "evaluateCondition rs (CAny cs) = evaluateAny rs FalseV cs"
| "evaluateCondition rs (CNot c) = bindE (evaluateCondition rs c) (\<lambda>r. Inr (invert r))"
| "evaluateCondition rs (CExists a) =
     bindE (resolveAccessor a rs) (\<lambda>r. Inr (case r of
       Unavailable \<Rightarrow> UnknownV | Found _ \<Rightarrow> TrueV | Missing \<Rightarrow> FalseV))"
| "evaluateCondition rs (CCompare c a expected) =
     bindE (resolveAccessor a rs) (\<lambda>r. Inr (case r of
       Found value \<Rightarrow> compareValues c value expected | _ \<Rightarrow> UnknownV))"
| "evaluateAll rs result [] = Inr result"
| "evaluateAll rs result (c # cs) =
     bindE (evaluateCondition rs c) (\<lambda>r.
       if r = FalseV then Inr FalseV
       else evaluateAll rs (if r = UnknownV then UnknownV else result) cs)"
| "evaluateAny rs result [] = Inr result"
| "evaluateAny rs result (c # cs) =
     bindE (evaluateCondition rs c) (\<lambda>r.
       if r = TrueV then Inr TrueV
       else evaluateAny rs (if r = UnknownV then UnknownV else result) cs)"

record ruleEvaluation =
  evalKey :: jstr
  evalResult :: truthValue

record evaluationContent =
  candidateInputDigest :: jstr
  evaluationPolicyDigest :: jstr
  readingDigests :: "jstr list"
  blockingResults :: "ruleEvaluation list"
  advisoryResults :: "ruleEvaluation list"
  accepted :: bool

record gateEvaluation = evaluationContent +
  evaluationDigest :: jstr

record gateEvidence =
  evidenceDefinition :: gateDefinition
  evidenceReadings :: "sensorReading list"
  evidenceEvaluation :: gateEvaluation

fun truthStr :: "truthValue \<Rightarrow> string" where
  "truthStr TrueV = ''true''"
| "truthStr FalseV = ''false''"
| "truthStr UnknownV = ''unknown''"

definition encRuleEvaluation :: "ruleEvaluation \<Rightarrow> val" where
  "encRuleEvaluation r = Obj [(lit ''key'', Str (evalKey r)), (lit ''result'', Str (lit (truthStr (evalResult r))))]"

definition encEvaluationContent :: "'a evaluationContent_scheme \<Rightarrow> val" where
  "encEvaluationContent e = Obj
     [(lit ''candidateInputDigest'', Str (candidateInputDigest e)),
      (lit ''policyDigest'', Str (evaluationPolicyDigest e)),
      (lit ''readingDigests'', Arr (map Str (readingDigests e))),
      (lit ''blocking'', Arr (map encRuleEvaluation (blockingResults e))),
      (lit ''advisory'', Arr (map encRuleEvaluation (advisoryResults e))),
      (lit ''decision'', Str (lit (if accepted e then ''accepted'' else ''rejected'')))]"

definition encEvaluation :: "gateEvaluation \<Rightarrow> val" where
  "encEvaluation e = Obj (props (encEvaluationContent e) @
     [(lit ''evaluationDigest'', Str (evaluationDigest e))])"

definition encEvidence :: "gateEvidence \<Rightarrow> val" where
  "encEvidence e = Obj [(lit ''definition'', encGateDefinition (evidenceDefinition e)),
     (lit ''readings'', Arr (map encReading (evidenceReadings e))),
     (lit ''evaluation'', encEvaluation (evidenceEvaluation e))]"

definition evaluateRules :: "gateRule list \<Rightarrow> readingIndex \<Rightarrow> exn + ruleEvaluation list" where
  "evaluateRules rules rs =
     mapE (\<lambda>rule. bindE (evaluateCondition rs (ruleCondition rule))
       (\<lambda>r. Inr \<lparr>evalKey = ruleKey rule, evalResult = r\<rparr>)) rules"

definition validateReadings :: "val \<Rightarrow> jstr \<Rightarrow> sha256 \<Rightarrow> exn + readingIndex" where
  "validateReadings v candidate sha = (case arrOf v of
     None \<Rightarrow> Inl (GateError GInvalidEvaluationInput)
   | Some submitted \<Rightarrow>
       foldE (\<lambda>index s.
         bindE (validateReadingSnapshot s sha) (\<lambda>reading.
         if inputDigest reading \<noteq> candidate then Inl (GateError GReadingInputMismatch)
         else if sensorKey reading \<in> set (map fst index) then Inl (GateError GDuplicateReading)
         else Inr (index @ [(sensorKey reading, reading)]))) [] submitted)"

definition evaluateGate :: "val \<Rightarrow> val \<Rightarrow> val \<Rightarrow> sha256 \<Rightarrow> exn + gateEvaluation" where
  "evaluateGate definition readings candidate sha =
     bindE (snapshotCanonical (GateError GInvalidEvaluationInput)
       (Obj [(lit ''definition'', definition), (lit ''readings'', readings),
             (lit ''candidateInputDigest'', candidate)])) (\<lambda>submitted.
     bindE (assertExactKeys submitted [''definition'', ''readings'', ''candidateInputDigest'']
       (GateError GInvalidEvaluationInput)) (\<lambda>_.
     case get submitted ''candidateInputDigest'' of
       Str cand \<Rightarrow>
         if \<not> sha256Pattern cand then Inl (GateError GInvalidEvaluationInput)
         else bindE (validateGateDefinitionSnapshot (get submitted ''definition'') sha) (\<lambda>d.
           bindE (validateReadings (get submitted ''readings'') cand sha) (\<lambda>index.
           bindE (evaluateRules (blocking d) index) (\<lambda>bs.
           bindE (evaluateRules (advisory d) index) (\<lambda>as.
           let content = \<lparr>candidateInputDigest = cand, evaluationPolicyDigest = policyDigest d,
                 readingDigests = sort (map (readingDigest \<circ> snd) index),
                 blockingResults = bs, advisoryResults = as,
                 accepted = list_all (\<lambda>e. evalResult e = TrueV) bs\<rparr>
           in bindE (canonicalDigest (encEvaluationContent content) sha) (\<lambda>digest.
             Inr (evaluationContent.extend content \<lparr>evaluationDigest = digest\<rparr>))))))
     | _ \<Rightarrow> Inl (GateError GInvalidEvaluationInput)))"

definition validateGateEvidence :: "val \<Rightarrow> val \<Rightarrow> sha256 \<Rightarrow> exn + gateEvidence" where
  "validateGateEvidence v candidate sha =
     bindE (snapshotCanonical (GateError GInvalidEvidence) v) (\<lambda>snapshot.
     bindE (assertExactKeys snapshot [''definition'', ''readings'', ''evaluation'']
       (GateError GInvalidEvidence)) (\<lambda>_.
     if \<not> isSha256Digest candidate then Inl (GateError GInvalidEvidence)
     else bindE (validateGateDefinitionSnapshot (get snapshot ''definition'') sha) (\<lambda>d.
       case arrOf (get snapshot ''readings'') of
         None \<Rightarrow> Inl (GateError GInvalidEvidence)
       | Some submitted \<Rightarrow>
           bindE (mapE (\<lambda>r. validateReadingSnapshot r sha) submitted) (\<lambda>rs.
           bindE (evaluateGate (encGateDefinition d) (Arr (map encReading rs)) candidate sha) (\<lambda>e.
             if canonicalSerialize (get snapshot ''evaluation'') \<noteq> canonicalSerialize (encEvaluation e)
             then Inl (GateError GInvalidEvidence)
             else Inr \<lparr>evidenceDefinition = d, evidenceReadings = rs, evidenceEvaluation = e\<rparr>)))))"

end
