(* ===== verification/Codecs.thy ===== *)
theory Codecs
  imports Canonical
begin

section \<open>Typed fields\<close>

text \<open>
  Fields every validator reads: a digest, a string with a test, a generation, a word of a fixed
  vocabulary (a \<open>datatype\<close> with the string of each constructor), and optional properties.
\<close>

definition digestOf :: "exn \<Rightarrow> val \<Rightarrow> exn + jstr" where
  "digestOf e v = (case v of Str s \<Rightarrow> if sha256Pattern s then Inr s else Inl e | _ \<Rightarrow> Inl e)"

definition strIf :: "(val \<Rightarrow> bool) \<Rightarrow> exn \<Rightarrow> val \<Rightarrow> exn + jstr" where
  "strIf P e v = (if \<not> P v then Inl e else case v of Str s \<Rightarrow> Inr s | _ \<Rightarrow> Inl e)"

definition generationOf :: "exn \<Rightarrow> val \<Rightarrow> exn + int" where
  "generationOf e v = (case posSafeInt v of None \<Rightarrow> Inl e | Some i \<Rightarrow> Inr i)"

definition enumOf :: "('a \<Rightarrow> string) \<Rightarrow> 'a list \<Rightarrow> val \<Rightarrow> 'a option" where
  "enumOf f xs v = (case v of Str s \<Rightarrow> find (\<lambda>x. s = lit (f x)) xs | _ \<Rightarrow> None)"

definition enumText :: "('a \<Rightarrow> string) \<Rightarrow> 'a \<Rightarrow> val" where
  "enumText f x = Str (lit (f x))"

definition optionalField :: "string \<Rightarrow> ('a \<Rightarrow> val) \<Rightarrow> 'a option \<Rightarrow> (jstr \<times> val) list" where
  "optionalField k enc x = (case x of None \<Rightarrow> [] | Some y \<Rightarrow> [(lit k, enc y)])"

definition optionalOf :: "val \<Rightarrow> string \<Rightarrow> val option" where
  "optionalOf v k = (if hasOwn v (lit k) then Some (get v k) else None)"

definition assertAllowedKeys :: "val \<Rightarrow> string list \<Rightarrow> string list \<Rightarrow> exn \<Rightarrow> exn + unit" where
  "assertAllowedKeys v required optional e =
     (if \<not> isRecord v then Inl e
      else if list_ex (\<lambda>k. \<not> hasOwn v (lit k)) required \<or>
        list_ex (\<lambda>k. k \<notin> lit ` set (required @ optional)) (keys v) then Inl e
      else Inr ())"

text \<open>A new object with some of the properties of another.\<close>

definition pickFields :: "val \<Rightarrow> string list \<Rightarrow> val" where
  "pickFields v ks = Obj (map (\<lambda>k. (lit k, get v k)) ks)"

text \<open>\<open>{ ...a, ...b }\<close>: a property of \<open>b\<close> takes the place of the one of the same name in \<open>a\<close>.\<close>

definition spread :: "(jstr \<times> val) list \<Rightarrow> (jstr \<times> val) list \<Rightarrow> (jstr \<times> val) list" where
  "spread a b = map (\<lambda>(k, v). (k, case map_of b k of None \<Rightarrow> v | Some w \<Rightarrow> w)) a @
     filter (\<lambda>(k, v). k \<notin> fst ` set a) b"

lemma digestOf_eq_Inr: "digestOf e v = Inr d \<longleftrightarrow> v = Str d \<and> sha256Pattern d"
  by (cases v) (auto simp: digestOf_def)

lemma strIf_eq_Inr: "strIf P e v = Inr s \<longleftrightarrow> v = Str s \<and> P v"
  by (cases v) (auto simp: strIf_def)

lemma generationOf_eq_Inr: "generationOf e v = Inr i \<longleftrightarrow> v = Num (Whole i) \<and> isSafe i \<and> 1 \<le> i"
  by (auto simp: generationOf_def posSafeInt_eq_Some split: option.splits)

lemma enumOf_eq_Some: "enumOf f xs v = Some x \<Longrightarrow> v = enumText f x \<and> x \<in> set xs"
  by (cases v) (auto simp: enumOf_def enumText_def find_Some_iff)

lemma enumOf_text:
  assumes "inj f" "x \<in> set xs"
  shows "enumOf f xs (enumText f x) = Some x"
proof -
  have "(\<lambda>y. lit (f x) = lit (f y)) = (\<lambda>y. y = x)" using assms(1) by (auto simp: fun_eq_iff dest: injD)
  moreover have "find (\<lambda>y. y = x) xs = Some x" using assms(2) by (induction xs) auto
  ultimately show ?thesis by (simp add: enumOf_def enumText_def)
qed

lemma pickFields_get: "k \<in> set ks \<Longrightarrow> get (pickFields e ks) k = get e k"
  by (induction ks) (auto simp: pickFields_def)

lemma spread_fresh: "fst ` set a \<inter> fst ` set b = {} \<Longrightarrow> spread a b = a @ b"
proof -
  assume d: "fst ` set a \<inter> fst ` set b = {}"
  have "map (\<lambda>(k, v). (k, case map_of b k of None \<Rightarrow> v | Some w \<Rightarrow> w)) a = a"
  proof (rule map_idI)
    fix kv assume "kv \<in> set a"
    then have "fst kv \<notin> fst ` set b" using d by auto
    then have "map_of b (fst kv) = None" by (simp add: map_of_eq_None_iff)
    then show "(case kv of (k, v) \<Rightarrow> (k, case map_of b k of None \<Rightarrow> v | Some w \<Rightarrow> w)) = kv" by (cases kv) simp
  qed
  moreover have "filter (\<lambda>(k, v). k \<notin> fst ` set a) b = b"
    using d by (intro filter_True) force
  ultimately show ?thesis by (simp add: spread_def)
qed

lemma optionalField_keys [simp]:
  "fst ` set (optionalField k enc x) = (if x = None then {} else {lit k})"
  "map fst (optionalField k enc x) = (if x = None then [] else [lit k])"
  by (cases x; simp add: optionalField_def)+

lemma field_optional [simp]:
  "field (Obj (optionalField k enc x)) (lit k') =
     (if k = k' then (case x of None \<Rightarrow> Undef | Some y \<Rightarrow> enc y) else Undef)"
  by (cases x) (simp_all add: optionalField_def)

lemma optionalOf_eq:
  "optionalOf (Obj (kvs @ optionalField k enc x)) k = map_option enc x" if "lit k \<notin> fst ` set kvs"
  using that by (cases x) (auto simp: optionalOf_def optionalField_def)

lemma assertAllowedKeys_eq_Inr [err_simps]:
  "assertAllowedKeys v required optional e = Inr u \<longleftrightarrow> isRecord v \<and> (\<forall>k\<in>set required. hasOwn v (lit k)) \<and>
     set (keys v) \<subseteq> lit ` set (required @ optional)"
  by (auto simp: assertAllowedKeys_def list_ex_iff)

text \<open>A validated and sorted list of distinct elements reads back as itself.\<close>

lemma uniqueBy_sorted_ok:
  assumes "uniqueBy k f dup xs = Inr ys"
  shows "distinct (map k (sort_key g ys))" "set (sort_key g ys) = set ys"
proof -
  have "mset (map k (sort_key g ys)) = mset (map k ys)" by simp
  then have "distinct (map k (sort_key g ys)) \<longleftrightarrow> distinct (map k ys)" by (rule mset_eq_imp_distinct_iff)
  with assms show "distinct (map k (sort_key g ys))" by (simp add: uniqueBy_eq_Inr)
qed simp

lemma uniqueBy_enc:
  assumes "\<And>y. y \<in> set ys \<Longrightarrow> f (enc y) = Inr y" and "distinct (map k ys)"
  shows "uniqueBy k f dup (map enc ys) = Inr ys"
  using assms by (auto simp: uniqueBy_eq_Inr mapE_eq_Inr list_all2_conv_all_nth)

section \<open>Codecs and sealed objects\<close>

text \<open>
  The contract every validator of the kernel shares. \<open>dec\<close> reads an unknown value into a typed
  object, \<open>enc\<close> is the object as the plain value the code digests, stores and reads back, and
  \<open>ok\<close> says which typed objects a validator can yield. The laws are that a validator only yields
  \<open>ok\<close> objects and that it reads an \<open>ok\<close> object back unchanged. Each validating component
  interprets the locale on its own functions.
\<close>

locale codec =
  fixes dec :: "val \<Rightarrow> exn + 'a"
    and enc :: "'a \<Rightarrow> val"
    and ok :: "'a \<Rightarrow> bool"
  assumes dec_ok: "dec v = Inr x \<Longrightarrow> ok x"
    and dec_enc: "ok x \<Longrightarrow> dec (enc x) = Inr x"
begin

lemma dec_again: "dec v = Inr x \<Longrightarrow> dec (enc x) = Inr x"
  by (rule dec_enc) (erule dec_ok)

lemma accepted_iff: "(\<exists>v. dec v = Inr x) \<longleftrightarrow> ok x"
  using dec_ok dec_enc by blast

lemma enc_inject: "ok x \<Longrightarrow> ok y \<Longrightarrow> enc x = enc y \<Longrightarrow> x = y"
  by (metis dec_enc sum.inject(2))

lemma decs_ok:
  assumes "mapE dec vs = Inr xs" "x \<in> set xs"
  shows "ok x"
proof -
  obtain v where "dec v = Inr x" using mapE_in_set [OF assms] by (elim bexE)
  then show ?thesis by (rule dec_ok)
qed

lemma decs_enc: "(\<And>x. x \<in> set xs \<Longrightarrow> ok x) \<Longrightarrow> mapE dec (map enc xs) = Inr xs"
  by (induction xs) (simp_all add: dec_enc)

lemma decs_again: "mapE dec vs = Inr xs \<Longrightarrow> mapE dec (map enc xs) = Inr xs"
  by (rule decs_enc) (erule (1) decs_ok)

end

text \<open>
  A sealed object is a content together with the digest of its encoding. Creating one computes
  the digest, validating one recomputes and compares it.
\<close>

locale sealed = codec dec enc ok
  for dec :: "val \<Rightarrow> exn + 's" and enc :: "'s \<Rightarrow> val" and ok :: "'s \<Rightarrow> bool" +
  fixes create :: "val \<Rightarrow> exn + 's"
    and content :: "'s \<Rightarrow> val"
    and seal :: "'s \<Rightarrow> jstr"
    and sha :: sha256
  assumes create_ok: "create v = Inr s \<Longrightarrow> ok s"
    and ok_seal: "ok s \<Longrightarrow> canonicalDigest (content s) sha = Inr (seal s)"
begin

lemma created_validates: "create v = Inr s \<Longrightarrow> dec (enc s) = Inr s"
  by (rule dec_enc) (erule create_ok)

lemma sealed_digest: "dec v = Inr s \<Longrightarrow> seal s = sha (canonicalBytes (content s))"
  using ok_seal [OF dec_ok] by (simp add: err_simps)

end

text \<open>A concrete digest function, for closed examples: every digest is sixty-four zeros.\<close>

definition flatSha :: sha256 where
  "flatSha b = replicate 64 48"

lemma flatSha_digest [simp]: "canonicalDigest v flatSha = Inr (replicate 64 48)"
  by (simp add: canonicalDigest_def flatSha_def sha256Pattern_def isHexLower_def isDigit_def
      list_all_iff)

end
