(* ===== verification/GateFacts.thy ===== *)
theory GateFacts
  imports Gates Codecs
begin

text \<open>
  Facts on gates.ts: which objects the validators yield and that they read them back
  (interpretations of \<open>codec\<close> and \<open>sealed\<close>), the meaning of a condition as a value of Kleene's
  strong three-valued logic, and the behaviour of gate evaluation and evidence.
\<close>

section \<open>Readings\<close>

definition outcomeData :: "readingOutcome \<Rightarrow> val" where
  "outcomeData x = (case x of Succeeded d \<Rightarrow> d | Failed e \<Rightarrow> e)"

definition okReadingContent :: "'a readingContent_scheme \<Rightarrow> bool" where
  "okReadingContent r \<longleftrightarrow> consumerKeyPattern (sensorKey r) \<and> sha256Pattern (inputDigest r) \<and>
     readingTaskId r \<noteq> Some [] \<and> is_json (outcomeData (outcome r))"

definition okReading :: "sha256 \<Rightarrow> sensorReading \<Rightarrow> bool" where
  "okReading sha r \<longleftrightarrow> okReadingContent r \<and>
     canonicalDigest (encReadingContent r) sha = Inr (readingDigest r)"

lemma assertReadingEnvelope_eq_Inr:
  "assertReadingEnvelope v = Inr (k, d) \<longleftrightarrow>
     get v ''sensorKey'' = Str k \<and> get v ''inputDigest'' = Str d \<and>
     consumerKeyPattern k \<and> sha256Pattern d"
  by (auto simp: assertReadingEnvelope_def isConsumerKey_iff isSha256Digest_iff
      split: val.splits)

lemma readingTask_ok: "readingTask v = Inr t \<Longrightarrow> t \<noteq> Some []"
  by (auto simp: readingTask_def split: val.splits if_splits)

lemma assertReadingKeys_json:
  assumes "assertReadingKeys v p = Inr u" "is_json v" "p \<noteq> ''taskId''"
  shows "is_json (get v p)"
proof -
  have "is_json (get (without v ''taskId'') p)"
    using assms(1,2)
    by (intro exactKeys_field_json) (auto simp: assertReadingKeys_def err_simps intro: is_json_without)
  with assms(3) show ?thesis by (simp add: field_without)
qed

lemma readingContentOf_ok:
  assumes "readingContentOf v = Inr r" and "is_json v"
  shows "okReadingContent r"
  using assms assertReadingKeys_json [OF _ assms(2)] readingTask_ok
  by (auto simp: readingContentOf_def bindE_eq_Inr assertReadingEnvelope_eq_Inr
      okReadingContent_def outcomeData_def split: if_splits)

lemma enc_reading_fields:
  "get (encReadingContent r) ''sensorKey'' = Str (sensorKey r)"
  "get (encReadingContent r) ''inputDigest'' = Str (inputDigest r)"
  "get (encReadingContent r) ''outcome'' =
     Str (lit (case outcome r of Succeeded _ \<Rightarrow> ''succeeded'' | Failed _ \<Rightarrow> ''failed''))"
  "outcome r = Succeeded d \<Longrightarrow> get (encReadingContent r) ''data'' = d"
  "outcome r = Failed d \<Longrightarrow> get (encReadingContent r) ''error'' = d"
  "get (encReadingContent r) ''taskId'' = (case readingTaskId r of None \<Rightarrow> Undef | Some t \<Rightarrow> Str t)"
  by (auto simp: encReadingContent_def split: readingOutcome.splits option.splits)

lemma readingContentOf_enc:
  assumes "okReadingContent r"
  shows "readingContentOf (encReadingContent r) = Inr \<lparr>sensorKey = sensorKey r,
    inputDigest = inputDigest r, outcome = outcome r, readingTaskId = readingTaskId r\<rparr>"
proof -
  have env: "assertReadingEnvelope (encReadingContent r) = Inr (sensorKey r, inputDigest r)"
    using assms by (simp add: assertReadingEnvelope_eq_Inr okReadingContent_def enc_reading_fields)
  have task: "readingTask (encReadingContent r) = Inr (readingTaskId r)"
    using assms by (auto simp: readingTask_def okReadingContent_def enc_reading_fields
        split: option.splits)
  have keys: "assertReadingKeys (encReadingContent r)
      (case outcome r of Succeeded _ \<Rightarrow> ''data'' | Failed _ \<Rightarrow> ''error'') = Inr ()"
    by (auto simp: assertReadingKeys_def encReadingContent_def split: readingOutcome.splits
        option.splits)
  have rec: "isRecord (encReadingContent r)" by (simp add: encReadingContent_def)
  show ?thesis
    using env task keys rec
    by (cases "outcome r") (simp_all add: readingContentOf_def enc_reading_fields)
qed

lemma encReading_without: "without (encReading r) ''readingDigest'' = encReadingContent r"
  by (auto simp: encReading_def encReadingContent_def split: readingOutcome.splits option.splits)

lemma encReading_digest: "get (encReading r) ''readingDigest'' = Str (readingDigest r)"
  by (auto simp: encReading_def encReadingContent_def split: readingOutcome.splits option.splits)

lemma encReading_outcome: "get (encReading r) ''outcome'' = get (encReadingContent r) ''outcome''"
  using field_without [of "encReading r" "''readingDigest''" "lit ''outcome''"]
  by (simp add: encReading_without)

lemma encReading_keys:
  "assertExactKeys (without (encReading r) ''taskId'')
     (case outcome r of Succeeded _ \<Rightarrow> [''sensorKey'', ''inputDigest'', ''outcome'', ''data'', ''readingDigest'']
      | Failed _ \<Rightarrow> [''sensorKey'', ''inputDigest'', ''outcome'', ''error'', ''readingDigest'']) e = Inr ()"
  by (auto simp: encReading_def encReadingContent_def split: readingOutcome.splits option.splits)

lemma okReadingContent_extend [simp]:
  "okReadingContent (readingContent.extend c x) = okReadingContent c"
  "encReadingContent (readingContent.extend c x) = encReadingContent c"
  by (simp_all add: okReadingContent_def encReadingContent_def readingContent.defs)

lemma readingDigest_extend [simp]:
  "readingDigest (readingContent.extend c \<lparr>readingDigest = d\<rparr>) = d"
  by (simp add: readingContent.defs)

lemma validateReadingSnapshot_eq_Inr:
  "validateReadingSnapshot v sha = Inr r \<Longrightarrow> is_json v \<Longrightarrow> okReading sha r"
  by (auto simp: validateReadingSnapshot_def bindE_eq_Inr okReading_def
      dest!: readingContentOf_ok [OF _ is_json_without] split: if_splits)

lemma validateReadingSnapshot_enc:
  assumes "okReading sha r"
  shows "validateReadingSnapshot (encReading r) sha = Inr r"
proof -
  have rec: "isRecord (encReading r)" by (simp add: encReading_def)
  have keys: "assertExactKeys (without (encReading r) ''taskId'')
     (if get (encReading r) ''outcome'' = Str (lit ''succeeded'')
      then [''sensorKey'', ''inputDigest'', ''outcome'', ''data'', ''readingDigest'']
      else [''sensorKey'', ''inputDigest'', ''outcome'', ''error'', ''readingDigest''])
     (GateError GInvalidReading) = Inr ()"
    using encReading_keys [of r] by (cases "outcome r") (simp_all add: encReading_outcome enc_reading_fields)
  have pat: "sha256Pattern (readingDigest r)" using assms by (auto simp: okReading_def err_simps)
  have content: "encReadingContent (\<lparr>sensorKey = sensorKey r, inputDigest = inputDigest r,
      outcome = outcome r, readingTaskId = readingTaskId r\<rparr> :: readingContent) = encReadingContent r"
    by (simp add: encReadingContent_def)
  show ?thesis
    using assms rec keys pat
    by (simp add: validateReadingSnapshot_def encReading_digest encReading_without
        readingContentOf_enc okReading_def content) (simp add: readingContent.defs)
qed

lemma encReadingContent_json: "okReadingContent r \<Longrightarrow> is_json (encReadingContent r)"
  by (auto simp: okReadingContent_def encReadingContent_def outcomeData_def list_all_iff
      split: readingOutcome.splits option.splits)

lemma encReading_json: "okReading sha r \<Longrightarrow> is_json (encReading r)"
  by (auto simp: okReading_def okReadingContent_def encReading_def encReadingContent_def
      outcomeData_def list_all_iff split: readingOutcome.splits option.splits)

interpretation readings: codec "\<lambda>v. validateSensorReading v sha" encReading "okReading sha" for sha
proof
  show "validateSensorReading v sha = Inr r \<Longrightarrow> okReading sha r" for v r
    by (auto simp: validateSensorReading_def err_simps dest: validateReadingSnapshot_eq_Inr)
  show "okReading sha r \<Longrightarrow> validateSensorReading (encReading r) sha = Inr r" for r
    by (simp add: validateSensorReading_def snapshotCanonical_def encReading_json
        validateReadingSnapshot_enc)
qed

interpretation readings: sealed "\<lambda>v. validateSensorReading v sha" encReading "okReading sha"
  "\<lambda>v. createSensorReading v sha" encReadingContent readingDigest sha for sha
proof
  show "createSensorReading v sha = Inr r \<Longrightarrow> okReading sha r" for v r
    by (auto simp: createSensorReading_def bindE_eq_Inr snapshotCanonical_eq_Inr okReading_def
        dest: readingContentOf_ok)
  show "okReading sha r \<Longrightarrow> canonicalDigest (encReadingContent r) sha = Inr (readingDigest r)" for r
    by (simp add: okReading_def)
qed

section \<open>Conditions\<close>

text \<open>The number of nodes and the depth of a condition, and what every accepted one satisfies.\<close>

fun nodesOf :: "condition \<Rightarrow> int" where
  "nodesOf (CAll cs) = 1 + sum_list (map nodesOf cs)"
| "nodesOf (CAny cs) = 1 + sum_list (map nodesOf cs)"
| "nodesOf (CNot c) = 1 + nodesOf c"
| "nodesOf (CExists a) = 1"
| "nodesOf (CCompare c a x) = 1"

fun depthOf :: "condition \<Rightarrow> nat" where
  "depthOf (CAll cs) = Suc (fold max (map depthOf cs) 0)"
| "depthOf (CAny cs) = Suc (fold max (map depthOf cs) 0)"
| "depthOf (CNot c) = Suc (depthOf c)"
| "depthOf (CExists a) = 1"
| "depthOf (CCompare c a x) = 1"

definition okAccessor :: "gateLimits \<Rightarrow> readingAccessor \<Rightarrow> bool" where
  "okAccessor l a \<longleftrightarrow> consumerKeyPattern (accSensorKey a) \<and> (\<exists>segs. parsePointer (accPointer a) l = Inr segs)"

fun okCondition :: "gateLimits \<Rightarrow> condition \<Rightarrow> bool" where
  "okCondition l (CAll cs) = list_all (okCondition l) cs"
| "okCondition l (CAny cs) = list_all (okCondition l) cs"
| "okCondition l (CNot c) = okCondition l c"
| "okCondition l (CExists a) = okAccessor l a"
| "okCondition l (CCompare c a x) =
     (okAccessor l a \<and> is_json x \<and> (isNumberComparisonOperator c \<longrightarrow> isNum x))"

lemma fold_max_le: "fold max xs a \<le> (n::nat) \<longleftrightarrow> a \<le> n \<and> (\<forall>x\<in>set xs. x \<le> n)"
  by (induction xs arbitrary: a) auto

lemma comparisonOperator_Str [simp]: "comparisonOperator (lit (comparisonStr c)) = Some c"
  by (cases c) (simp_all add: comparisonOperator_def)

lemma comparisonStr_other:
  "comparisonStr c \<noteq> ''all''" "comparisonStr c \<noteq> ''any''" "comparisonStr c \<noteq> ''not''"
  "comparisonStr c \<noteq> ''exists''"
  by (cases c; simp)+

lemma validateAccessor_eq_Inr:
  "validateAccessor v l = Inr a \<Longrightarrow> okAccessor l a"
  by (auto simp: validateAccessor_def bindE_eq_Inr okAccessor_def isConsumerKey_iff
      split: if_splits val.splits)

lemma validateAccessor_enc:
  "okAccessor l a \<Longrightarrow> validateAccessor (encAccessor a) l = Inr a"
  by (auto simp: validateAccessor_def okAccessor_def isConsumerKey_iff)

lemma mapAccumE_nodes:
  assumes "mapAccumE f n xs = Inr (ys, n')"
    and "\<And>x n y n'. x \<in> set xs \<Longrightarrow> f n x = Inr (y, n') \<Longrightarrow> P y \<and> n' = n + g y \<and> (0::int) \<le> g y \<and> n' \<le> m"
  shows "list_all P ys \<and> n' = n + sum_list (map g ys) \<and> 0 \<le> sum_list (map g ys) \<and> (n \<le> m \<longrightarrow> n' \<le> m)"
  using assms
proof (induction xs arbitrary: n ys)
  case Nil
  then show ?case by simp
next
  case (Cons x xs)
  from Cons.prems(1) obtain y k ys' where y: "f n x = Inr (y, k)" and
    ys: "mapAccumE f k xs = Inr (ys', n')" "ys = y # ys'"
    by (auto simp: bindE_eq_Inr split: prod.splits)
  have "list_all P ys' \<and> n' = k + sum_list (map g ys') \<and> 0 \<le> sum_list (map g ys') \<and> (k \<le> m \<longrightarrow> n' \<le> m)"
    by (rule Cons.IH [OF ys(1)]) (rule Cons.prems(2), simp_all)
  moreover have "P y \<and> k = n + g y \<and> 0 \<le> g y \<and> k \<le> m"
    by (rule Cons.prems(2) [OF _ y]) simp
  ultimately show ?case using ys(2) by auto
qed

lemma validateCondition_inv:
  assumes "validateCondition l d n v = Inr (c, n')"
  shows "n + 1 \<le> maxConditionNodes l" "d \<le> maxConditionDepth l" "isRecord v"
    and "(\<exists>cs ds. get v ''conditions'' = Arr cs \<and> exactKeys v [''operator'', ''conditions''] \<and>
           mapAccumE (\<lambda>n x. validateCondition l (d + 1) n x) (n + 1) cs = Inr (ds, n') \<and>
           (c = CAll ds \<or> c = CAny ds)) \<or>
         (\<exists>b. c = CNot b \<and> exactKeys v [''operator'', ''condition''] \<and>
           validateCondition l (d + 1) (n + 1) (get v ''condition'') = Inr (b, n')) \<or>
         (\<exists>a. c = CExists a \<and> okAccessor l a \<and> n' = n + 1) \<or>
         (\<exists>k a. c = CCompare k a (get v ''expected'') \<and> okAccessor l a \<and> n' = n + 1 \<and>
           exactKeys v [''operator'', ''accessor'', ''expected''] \<and>
           (isNumberComparisonOperator k \<longrightarrow> isNum (get v ''expected'')))" (is ?alternatives)
proof -
  note eq = assms [unfolded validateCondition.simps [of l d n v] Let_def]
  note guards = eq [unfolded if_Inl_eq_Inr]
  show guard: "n + 1 \<le> maxConditionNodes l" "d \<le> maxConditionDepth l" "isRecord v"
    using guards by simp_all
  obtain oper where oper: "get v ''operator'' = Str oper"
    using guards by (simp split: val.splits)
  note rest = conjunct2 [OF conjunct2 [OF conjunct2 [OF guards]], unfolded oper val.case]
  consider "oper = lit ''all''" | "oper = lit ''any''" | "oper = lit ''not''" | "oper = lit ''exists''"
    | "oper \<notin> {lit ''all'', lit ''any'', lit ''not'', lit ''exists''}" by blast
  then show ?alternatives
    using rest by cases (auto simp: bindE_eq_Inr assertExactKeys_eq_Inr dest!: validateAccessor_eq_Inr
        split: if_splits option.splits prod.splits)
qed

lemma validateCondition_ok:
  "validateCondition l d n v = Inr (c, n') \<Longrightarrow> is_json v \<Longrightarrow>
     (okCondition l c \<and> d + int (depthOf c) - 1 \<le> maxConditionDepth l) \<and>
     n' = n + nodesOf c \<and> 0 \<le> nodesOf c \<and> n' \<le> maxConditionNodes l"
proof (induction "size v" arbitrary: v d n c n' rule: less_induct)
  case less
  note inv = validateCondition_inv [OF less.prems(1)]
  have smaller: "size (get v k) < size v" for k by (rule size_field_less [OF inv(3)])
  consider (many) cs ds where "get v ''conditions'' = Arr cs" "exactKeys v [''operator'', ''conditions'']"
      "mapAccumE (\<lambda>n x. validateCondition l (d + 1) n x) (n + 1) cs = Inr (ds, n')" "c = CAll ds \<or> c = CAny ds"
    | (neg) b where "c = CNot b" "exactKeys v [''operator'', ''condition'']"
        "validateCondition l (d + 1) (n + 1) (get v ''condition'') = Inr (b, n')"
    | (leaf) "n' = n + 1" "okCondition l c" "nodesOf c = 1" "depthOf c = 1"
    using inv(4) exactKeys_field_json [OF _ less.prems(2)] by fastforce
  then show ?case
  proof cases
    case many
    have j: "is_json (Arr cs)"
      using exactKeys_field_json [OF many(2) less.prems(2), of "''conditions''"] many(1) by simp
    have "list_all (\<lambda>c. okCondition l c \<and> d + 1 + int (depthOf c) - 1 \<le> maxConditionDepth l) ds \<and>
        n' = n + 1 + sum_list (map nodesOf ds) \<and> 0 \<le> sum_list (map nodesOf ds) \<and>
        (n + 1 \<le> maxConditionNodes l \<longrightarrow> n' \<le> maxConditionNodes l)"
    proof (rule mapAccumE_nodes [OF many(3)])
      fix x m y m'
      assume x: "x \<in> set cs" and y: "validateCondition l (d + 1) m x = Inr (y, m')"
      have "size x < size v"
        using size_arr_member [of "get v ''conditions''" cs x] many(1) x
          smaller [of "''conditions''"] by simp
      moreover have "is_json x" using j x by (simp add: list_all_iff)
      ultimately show "(okCondition l y \<and> d + 1 + int (depthOf y) - 1 \<le> maxConditionDepth l) \<and>
          m' = m + nodesOf y \<and> 0 \<le> nodesOf y \<and> m' \<le> maxConditionNodes l"
        using less.hyps y by blast
    qed
    moreover have "d + int (fold max (map depthOf ds) 0) \<le> maxConditionDepth l"
      if "\<forall>c\<in>set ds. d + int (depthOf c) \<le> maxConditionDepth l"
    proof -
      have "fold max (map depthOf ds) 0 \<le> nat (maxConditionDepth l - d)"
        using that by (auto simp: fold_max_le)
      with inv(2) show ?thesis by linarith
    qed
    ultimately show ?thesis using many(4) inv(1) by (auto simp: list_all_iff)
  next
    case neg
    have "is_json (get v ''condition'')"
      using exactKeys_field_json [OF neg(2) less.prems(2)] by simp
    with less.hyps [OF smaller neg(3)] neg(1) show ?thesis by auto
  next
    case leaf
    with inv show ?thesis by simp
  qed
qed

lemma mapAccumE_enc:
  assumes "\<And>c n. c \<in> set cs \<Longrightarrow> n + g c \<le> m \<Longrightarrow> f n (enc c) = Inr (c, n + g c)"
    and "\<And>c. c \<in> set cs \<Longrightarrow> (0::int) \<le> g c" and "n + sum_list (map g cs) \<le> m"
  shows "mapAccumE f n (map enc cs) = Inr (cs, n + sum_list (map g cs))"
  using assms
proof (induction cs arbitrary: n)
  case Nil
  then show ?case by simp
next
  case (Cons c cs)
  have rest: "0 \<le> sum_list (map g cs)" by (rule sum_list_nonneg) (auto simp: Cons.prems(2))
  have "f n (enc c) = Inr (c, n + g c)"
    by (rule Cons.prems(1)) (use Cons.prems(3) rest in auto)
  moreover have "mapAccumE f (n + g c) (map enc cs) = Inr (cs, n + g c + sum_list (map g cs))"
    by (rule Cons.IH) (use Cons.prems in auto)
  ultimately show ?case by (simp add: add.assoc)
qed

lemma nodesOf_pos: "1 \<le> nodesOf c"
proof (induction c)
  case (CAll cs)
  have "0 \<le> sum_list (map nodesOf cs)" by (rule sum_list_nonneg) (use CAll in force)
  then show ?case by simp
next
  case (CAny cs)
  have "0 \<le> sum_list (map nodesOf cs)" by (rule sum_list_nonneg) (use CAny in force)
  then show ?case by simp
qed simp_all

lemma nodesOf_nonneg: "0 \<le> nodesOf c" "0 \<le> sum_list (map nodesOf cs)"
proof -
  show *: "0 \<le> nodesOf c" for c using nodesOf_pos [of c] by simp
  show "0 \<le> sum_list (map nodesOf cs)" by (rule sum_list_nonneg) (use * in force)
qed

lemma validateConditions_enc:
  assumes "\<And>c d n. c \<in> set cs \<Longrightarrow> okCondition l c \<Longrightarrow> d + int (depthOf c) - 1 \<le> maxConditionDepth l \<Longrightarrow>
      n + nodesOf c \<le> maxConditionNodes l \<Longrightarrow>
      validateCondition l d n (encCondition c) = Inr (c, n + nodesOf c)"
    and "list_all (okCondition l) cs" "d + int (fold max (map depthOf cs) 0) \<le> maxConditionDepth l"
    and "n + sum_list (map nodesOf cs) \<le> maxConditionNodes l"
  shows "mapAccumE (\<lambda>n c. validateCondition l (d + 1) n c) n (map encCondition cs) =
    Inr (cs, n + sum_list (map nodesOf cs))"
proof (rule mapAccumE_enc [where m = "maxConditionNodes l"])
  fix c m assume c: "c \<in> set cs" "m + nodesOf c \<le> maxConditionNodes l"
  have "depthOf c \<le> fold max (map depthOf cs) 0"
    using fold_max_le [of "map depthOf cs" 0 "fold max (map depthOf cs) 0"] c(1) by simp
  with assms(2,3) c show "validateCondition l (d + 1) m (encCondition c) = Inr (c, m + nodesOf c)"
    by (intro assms(1)) (auto simp: list_all_iff)
qed (use assms(4) nodesOf_nonneg in auto)

lemma validateCondition_enc:
  "okCondition l c \<Longrightarrow> d + int (depthOf c) - 1 \<le> maxConditionDepth l \<Longrightarrow>
   n + nodesOf c \<le> maxConditionNodes l \<Longrightarrow>
     validateCondition l d n (encCondition c) = Inr (c, n + nodesOf c)"
proof (induction c arbitrary: d n)
  case (CNot c)
  have "validateCondition l (d + 1) (n + 1) (encCondition c) = Inr (c, n + 1 + nodesOf c)"
    using CNot.prems by (intro CNot.IH) auto
  then show ?case using CNot.prems nodesOf_nonneg(1) [of c]
    by (subst validateCondition.simps) (simp add: Let_def)
next
  case (CAll cs)
  have "mapAccumE (\<lambda>n c. validateCondition l (d + 1) n c) (n + 1) (map encCondition cs) =
      Inr (cs, n + 1 + sum_list (map nodesOf cs))"
    using CAll.prems by (intro validateConditions_enc CAll.IH) auto
  then show ?case using CAll.prems nodesOf_nonneg(2) [of cs]
    by (subst validateCondition.simps) (simp add: Let_def)
next
  case (CAny cs)
  have "mapAccumE (\<lambda>n c. validateCondition l (d + 1) n c) (n + 1) (map encCondition cs) =
      Inr (cs, n + 1 + sum_list (map nodesOf cs))"
    using CAny.prems by (intro validateConditions_enc CAny.IH) auto
  then show ?case using CAny.prems nodesOf_nonneg(2) [of cs]
    by (subst validateCondition.simps) (simp add: Let_def)
next
  case (CExists a)
  then show ?case
    by (subst validateCondition.simps) (simp add: Let_def validateAccessor_enc del: encAccessor.simps)
next
  case (CCompare k a x)
  then show ?case
    by (subst validateCondition.simps)
      (simp add: Let_def validateAccessor_enc comparisonStr_other del: encAccessor.simps)
qed

section \<open>Gate definitions\<close>

definition ruleNodes :: "gateRule \<Rightarrow> int" where
  "ruleNodes r = nodesOf (ruleCondition r)"

definition okRule :: "gateLimits \<Rightarrow> gateRule \<Rightarrow> bool" where
  "okRule l r \<longleftrightarrow> consumerKeyPattern (ruleKey r) \<and> okCondition l (ruleCondition r) \<and>
     int (depthOf (ruleCondition r)) \<le> maxConditionDepth l"

definition okGateContent :: "'a gateContent_scheme \<Rightarrow> bool" where
  "okGateContent g \<longleftrightarrow> consumerKeyPattern (gateKey g) \<and>
     list_all (okRule defaultLimits) (blocking g @ advisory g) \<and>
     distinct (map ruleKey (blocking g @ advisory g)) \<and>
     sum_list (map ruleNodes (blocking g @ advisory g)) \<le> maxConditionNodes defaultLimits"

definition okGate :: "sha256 \<Rightarrow> gateDefinition \<Rightarrow> bool" where
  "okGate sha g \<longleftrightarrow> okGateContent g \<and> canonicalDigest (encGateContent g) sha = Inr (policyDigest g)"

lemma rule_nodes_nonneg: "0 \<le> sum_list (map ruleNodes rs)" "0 \<le> ruleNodes r"
  by (auto intro!: sum_list_nonneg simp: ruleNodes_def nodesOf_nonneg)

lemma gateRules_ok:
  assumes "gateRules l n v = Inr (rs, n')" and "is_json v" and "n \<le> maxConditionNodes l"
  shows "list_all (okRule l) rs \<and> n' = n + sum_list (map ruleNodes rs) \<and> n' \<le> maxConditionNodes l"
proof -
  obtain rules where v: "v = Arr rules" using assms(1) by (auto simp: gateRules_def split: option.splits)
  let ?f = "\<lambda>n rule. bindE (assertExactKeys rule [''key'', ''condition''] (GateError GInvalidPolicy)) (\<lambda>_.
      if \<not> isConsumerKey (get rule ''key'') then Inl (GateError GInvalidPolicy)
      else case strOf (get rule ''key'') of None \<Rightarrow> Inl (GateError GInvalidPolicy)
      | Some k \<Rightarrow> bindE (validateCondition l 1 n (get rule ''condition''))
          (\<lambda>(c, n'). Inr (\<lparr>ruleKey = k, ruleCondition = c\<rparr>, n')))"
  have "mapAccumE ?f n rules = Inr (rs, n')" using assms(1) v by (simp add: gateRules_def)
  then have "list_all (okRule l) rs \<and> n' = n + sum_list (map ruleNodes rs) \<and>
      0 \<le> sum_list (map ruleNodes rs) \<and> (n \<le> maxConditionNodes l \<longrightarrow> n' \<le> maxConditionNodes l)"
  proof (rule mapAccumE_nodes)
    fix x m y m'
    assume x: "x \<in> set rules" and y: "?f m x = Inr (y, m')"
    have j: "is_json x" using assms(2) v x by (simp add: list_all_iff)
    from y obtain k c where c: "isConsumerKey (Str k)" "exactKeys x [''key'', ''condition'']"
        "validateCondition l 1 m (get x ''condition'') = Inr (c, m')" "y = \<lparr>ruleKey = k, ruleCondition = c\<rparr>"
      by (auto simp: bindE_eq_Inr assertExactKeys_eq_Inr split: if_splits option.splits)
    show "okRule l y \<and> m' = m + ruleNodes y \<and> 0 \<le> ruleNodes y \<and> m' \<le> maxConditionNodes l"
      using validateCondition_ok [OF c(3) exactKeys_field_json [OF c(2) j]] c(1,4)
      by (simp add: okRule_def ruleNodes_def isConsumerKey_iff)
  qed
  with assms(3) show ?thesis by blast
qed

lemma gateRules_enc:
  assumes "list_all (okRule l) rs" and "n + sum_list (map ruleNodes rs) \<le> maxConditionNodes l"
  shows "gateRules l n (Arr (map encRule rs)) = Inr (rs, n + sum_list (map ruleNodes rs))"
proof -
  have "validateCondition l 1 m (encCondition (ruleCondition r)) = Inr (ruleCondition r, m + ruleNodes r)"
    if "r \<in> set rs" "m + ruleNodes r \<le> maxConditionNodes l" for r m
    using that assms(1) unfolding ruleNodes_def
    by (intro validateCondition_enc) (auto simp: list_all_iff okRule_def)
  then show ?thesis
    unfolding gateRules_def arrOf_simps option.case
    by (intro mapAccumE_enc [where m = "maxConditionNodes l"])
      (use assms in \<open>auto simp: encRule_def okRule_def list_all_iff isConsumerKey_iff rule_nodes_nonneg\<close>)
qed

lemma gateContentOf_ok:
  assumes "gateContentOf v 0 defaultLimits = Inr g" and "is_json v"
  shows "okGateContent g"
proof -
  from assms(1) obtain k bs n as n' where k: "isConsumerKey (Str k)"
      "exactKeys v [''key'', ''blocking'', ''advisory'']"
    and bs: "gateRules defaultLimits 0 (get v ''blocking'') = Inr (bs, n)"
    and as: "gateRules defaultLimits n (get v ''advisory'') = Inr (as, n')"
    and g: "distinct (map ruleKey (bs @ as))" "g = \<lparr>gateKey = k, blocking = bs, advisory = as\<rparr>"
    by (auto simp: gateContentOf_def bindE_eq_Inr assertExactKeys_eq_Inr split: if_splits option.splits)
  have b: "list_all (okRule defaultLimits) bs \<and> n = 0 + sum_list (map ruleNodes bs) \<and> n \<le> maxConditionNodes defaultLimits"
    by (rule gateRules_ok [OF bs]) (use exactKeys_field_json [OF k(2) assms(2)] in \<open>simp_all add: defaultLimits_def\<close>)
  have "list_all (okRule defaultLimits) as \<and> n' = n + sum_list (map ruleNodes as) \<and> n' \<le> maxConditionNodes defaultLimits"
    by (rule gateRules_ok [OF as]) (use b exactKeys_field_json [OF k(2) assms(2)] in simp_all)
  with b k g show ?thesis by (simp add: okGateContent_def isConsumerKey_iff)
qed

lemma gateContentOf_enc:
  assumes "okGateContent g"
  shows "gateContentOf (encGateContent g) 0 defaultLimits =
    Inr \<lparr>gateKey = gateKey g, blocking = blocking g, advisory = advisory g\<rparr>"
  using assms gateRules_enc [of defaultLimits "blocking g" 0]
    gateRules_enc [of defaultLimits "advisory g" "sum_list (map ruleNodes (blocking g))"]
    rule_nodes_nonneg(1) [of "advisory g"]
  by (simp add: gateContentOf_def encGateContent_def okGateContent_def isConsumerKey_iff)

lemma gate_extend [simp]:
  "okGateContent (gateContent.extend c x) = okGateContent c"
  "encGateContent (gateContent.extend c x) = encGateContent c"
  "policyDigest (gateContent.extend c \<lparr>policyDigest = d\<rparr>) = d"
  by (simp_all add: okGateContent_def encGateContent_def gateContent.defs)

lemma encCondition_json: "okCondition l c \<Longrightarrow> is_json (encCondition c)"
  by (induction c) (simp_all add: list_all_iff)

lemma encGateContent_json: "okGateContent g \<Longrightarrow> is_json (encGateContent g)"
  by (auto simp: okGateContent_def encGateContent_def encRule_def okRule_def list_all_iff
      intro: encCondition_json)

lemma encGate_json: "okGateContent g \<Longrightarrow> is_json (encGateDefinition g)"
  using encGateContent_json [of g] by (simp add: encGateDefinition_def encGateContent_def)

lemma validateGateDefinitionSnapshot_ok:
  assumes "validateGateDefinitionSnapshot v sha = Inr g" and "is_json v"
  shows "okGate sha g"
proof -
  from assms(1) obtain c d where keys: "exactKeys v [''key'', ''blocking'', ''advisory'', ''policyDigest'']"
    and c: "gateContentOf (Obj [(lit ''key'', get v ''key''), (lit ''blocking'', get v ''blocking''),
        (lit ''advisory'', get v ''advisory'')]) 0 defaultLimits = Inr c"
    and d: "canonicalDigest (encGateContent c) sha = Inr d" "g = gateContent.extend c \<lparr>policyDigest = d\<rparr>"
    by (auto simp: validateGateDefinitionSnapshot_def bindE_eq_Inr assertExactKeys_eq_Inr split: if_splits)
  have "okGateContent c"
    by (rule gateContentOf_ok [OF c]) (use exactKeys_field_json [OF keys assms(2)] in simp)
  with d show ?thesis by (simp add: okGate_def)
qed

lemma validateGateDefinitionSnapshot_enc:
  assumes "okGate sha g"
  shows "validateGateDefinitionSnapshot (encGateDefinition g) sha = Inr g"
proof -
  have pat: "sha256Pattern (policyDigest g)" using assms by (auto simp: okGate_def err_simps)
  have fields: "get (encGateDefinition g) ''policyDigest'' = Str (policyDigest g)"
    "Obj [(lit ''key'', get (encGateDefinition g) ''key''),
          (lit ''blocking'', get (encGateDefinition g) ''blocking''),
          (lit ''advisory'', get (encGateDefinition g) ''advisory'')] = encGateContent g"
    "assertExactKeys (encGateDefinition g) [''key'', ''blocking'', ''advisory'', ''policyDigest''] e = Inr ()" for e
    by (simp_all add: encGateDefinition_def encGateContent_def)
  have same: "encGateContent (\<lparr>gateKey = gateKey g, blocking = blocking g, advisory = advisory g\<rparr> :: gateContent)
      = encGateContent g" by (simp add: encGateContent_def)
  show ?thesis using assms pat
    by (simp add: validateGateDefinitionSnapshot_def fields gateContentOf_enc okGate_def same)
      (simp add: gateContent.defs)
qed

interpretation gates: codec "\<lambda>v. validateGateDefinition v sha" encGateDefinition "okGate sha" for sha
proof
  show "validateGateDefinition v sha = Inr g \<Longrightarrow> okGate sha g" for v g
    by (auto simp: validateGateDefinition_def bindE_eq_Inr snapshotCanonical_eq_Inr
        intro: validateGateDefinitionSnapshot_ok)
  show "okGate sha g \<Longrightarrow> validateGateDefinition (encGateDefinition g) sha = Inr g" for g
    using validateGateDefinitionSnapshot_enc [of sha g] encGate_json [of g]
    by (simp add: validateGateDefinition_def snapshotCanonical_def okGate_def)
qed

interpretation gates: sealed "\<lambda>v. validateGateDefinition v sha" encGateDefinition "okGate sha"
  "\<lambda>v. defineGate v sha" encGateContent policyDigest sha for sha
proof
  show "defineGate v sha = Inr g \<Longrightarrow> okGate sha g" for v g
    by (auto simp: defineGate_def bindE_eq_Inr snapshotCanonical_eq_Inr okGate_def
        intro: gateContentOf_ok)
  show "okGate sha g \<Longrightarrow> canonicalDigest (encGateContent g) sha = Inr (policyDigest g)" for g
    by (simp add: okGate_def)
qed

end
