(* ===== verification/GateEvaluation.thy ===== *)
theory GateEvaluation
  imports GateFacts
begin

text \<open>
  The meaning of gate evaluation (gates.ts). Truth values are linearly ordered,
  \<open>false < unknown < true\<close>; \<open>kleene\<close> is the strong three-valued semantics in which \<open>all\<close> is the
  minimum, \<open>any\<close> the maximum and \<open>not\<close> the reflection. The short-circuiting loops of
  \<open>evaluateCondition\<close> compute it on every accepted condition and never throw; more readings only
  resolve unknowns; and a gate is accepted exactly when every blocking rule is true.
\<close>

section \<open>The order of truth values\<close>

instantiation truthValue :: linorder
begin

definition rank :: "truthValue \<Rightarrow> nat" where
  "rank t = (case t of FalseV \<Rightarrow> 0 | UnknownV \<Rightarrow> 1 | TrueV \<Rightarrow> 2)"

definition less_eq_truthValue :: "truthValue \<Rightarrow> truthValue \<Rightarrow> bool" where
  "less_eq_truthValue s t \<longleftrightarrow> rank s \<le> rank t"

definition less_truthValue :: "truthValue \<Rightarrow> truthValue \<Rightarrow> bool" where
  "less_truthValue s t \<longleftrightarrow> rank s < rank t"

instance
proof
  fix s t u :: truthValue
  show "s \<le> s" by (simp add: less_eq_truthValue_def)
  show "(s < t) = (s \<le> t \<and> \<not> t \<le> s)"
    by (auto simp: less_eq_truthValue_def less_truthValue_def)
  show "s \<le> t \<or> t \<le> s" by (auto simp: less_eq_truthValue_def)
  show "s \<le> t \<Longrightarrow> t \<le> u \<Longrightarrow> s \<le> u" by (simp add: less_eq_truthValue_def)
  show "s \<le> t \<Longrightarrow> t \<le> s \<Longrightarrow> s = t"
    by (cases s; cases t) (simp_all add: less_eq_truthValue_def rank_def)
qed

end

lemmas truth_order = less_eq_truthValue_def less_truthValue_def rank_def

lemma truth_bounds [simp]: "FalseV \<le> t" "t \<le> TrueV"
  by (cases t; simp add: truth_order)+

lemma invert_antimono: "s \<le> t \<longleftrightarrow> invert t \<le> invert s"
  by (cases s; cases t) (simp_all add: truth_order)

lemma invert_invert [simp]: "invert (invert t) = t"
  by (cases t) simp_all

section \<open>The reference semantics\<close>

definition resolved :: "readingAccessor \<Rightarrow> readingIndex \<Rightarrow> resolvedAccessor" where
  "resolved a rs = (case resolveAccessor a rs of Inr r \<Rightarrow> r | Inl _ \<Rightarrow> Unavailable)"

fun kleene :: "readingIndex \<Rightarrow> condition \<Rightarrow> truthValue" where
  "kleene rs (CAll cs) = fold min (map (kleene rs) cs) TrueV"
| "kleene rs (CAny cs) = fold max (map (kleene rs) cs) FalseV"
| "kleene rs (CNot c) = invert (kleene rs c)"
| "kleene rs (CExists a) =
     (case resolved a rs of Unavailable \<Rightarrow> UnknownV | Found _ \<Rightarrow> TrueV | Missing \<Rightarrow> FalseV)"
| "kleene rs (CCompare c a expected) =
     (case resolved a rs of Found value \<Rightarrow> compareValues c value expected | _ \<Rightarrow> UnknownV)"

lemma fold_min_FalseV [simp]: "fold min ts FalseV = FalseV"
  by (induction ts) (simp_all add: min_absorb2)

lemma fold_max_TrueV [simp]: "fold max ts TrueV = TrueV"
  by (induction ts) (simp_all add: max_absorb2)

lemma resolveAccessor_ok: "okAccessor defaultLimits a \<Longrightarrow> resolveAccessor a rs = Inr (resolved a rs)"
  by (auto simp: resolveAccessor_def resolved_def okAccessor_def split: option.splits
      readingOutcome.splits)

lemma min_step: "t \<noteq> FalseV \<Longrightarrow> s \<noteq> FalseV \<Longrightarrow> (if t = UnknownV then UnknownV else s) = min t s"
  by (cases s; cases t) (simp_all add: min_def truth_order)

lemma max_step: "t \<noteq> TrueV \<Longrightarrow> s \<noteq> TrueV \<Longrightarrow> (if t = UnknownV then UnknownV else s) = max t s"
  by (cases s; cases t) (simp_all add: max_def truth_order)

lemma min_not_false: "t \<noteq> FalseV \<Longrightarrow> s \<noteq> FalseV \<Longrightarrow> min t s \<noteq> FalseV"
  and max_not_true: "t \<noteq> TrueV \<Longrightarrow> s \<noteq> TrueV \<Longrightarrow> max t s \<noteq> TrueV"
  by (simp_all add: min_def max_def)

lemma evaluate_kleene:
  "okCondition defaultLimits c \<Longrightarrow> evaluateCondition rs c = Inr (kleene rs c)"
  "list_all (okCondition defaultLimits) cs \<Longrightarrow> result \<noteq> FalseV \<Longrightarrow>
     evaluateAll rs result cs = Inr (fold min (map (kleene rs) cs) result)"
  "list_all (okCondition defaultLimits) cs \<Longrightarrow> result' \<noteq> TrueV \<Longrightarrow>
     evaluateAny rs result' cs = Inr (fold max (map (kleene rs) cs) result')"
proof (induction rs c and rs result cs and rs result' cs
    rule: evaluateCondition_evaluateAll_evaluateAny.induct)
  case (7 rs result c cs)
  show ?case
  proof (cases "kleene rs c = FalseV")
    case True
    then show ?thesis using 7 by (simp add: min_absorb1)
  next
    case False
    then show ?thesis using 7 by (simp add: min_step [OF False "7.prems"(2)] min_not_false)
  qed
next
  case (9 rs result c cs)
  show ?case
  proof (cases "kleene rs c = TrueV")
    case True
    then show ?thesis using 9 by (simp add: max_absorb1)
  next
    case False
    then show ?thesis using 9 by (simp add: max_step [OF False "9.prems"(2)] max_not_true)
  qed
qed (simp_all add: resolveAccessor_ok)

lemma fold_min_ge: "t \<le> fold min ts s \<longleftrightarrow> t \<le> s \<and> (\<forall>u\<in>set ts. t \<le> (u :: truthValue))"
  by (induction ts arbitrary: s) auto

lemma fold_max_le_iff: "fold max ts s \<le> t \<longleftrightarrow> s \<le> t \<and> (\<forall>u\<in>set ts. u \<le> (t :: truthValue))"
  by (induction ts arbitrary: s) auto

text \<open>
  The information order: \<open>unknown\<close> is below everything. Connectives respect it, so a condition
  that is already decided stays decided when readings are added.
\<close>

definition resolves :: "truthValue \<Rightarrow> truthValue \<Rightarrow> bool" where
  "resolves s t \<longleftrightarrow> s = UnknownV \<or> s = t"

lemma resolves_min: "resolves s s' \<Longrightarrow> resolves t t' \<Longrightarrow> resolves (min s t) (min s' t')"
  by (cases s; cases t; cases s'; cases t') (simp_all add: resolves_def min_def truth_order)

lemma resolves_max: "resolves s s' \<Longrightarrow> resolves t t' \<Longrightarrow> resolves (max s t) (max s' t')"
  by (cases s; cases t; cases s'; cases t') (simp_all add: resolves_def max_def truth_order)

lemma resolves_fold:
  assumes "\<And>s t s' t'. resolves s s' \<Longrightarrow> resolves t t' \<Longrightarrow> resolves (f s t) (f s' t')"
    and "list_all2 resolves ts ts'" and "resolves a a'"
  shows "resolves (fold f ts a) (fold f ts' a')"
  using assms(2,3) by (induction arbitrary: a a' rule: list_all2_induct) (simp_all add: assms(1))

lemma resolved_extends:
  assumes "map_of rs \<subseteq>\<^sub>m map_of rs'"
  shows "resolved a rs = Unavailable \<or> resolved a rs' = resolved a rs"
proof (cases "map_of rs (accSensorKey a)")
  case (Some r)
  with assms have "map_of rs' (accSensorKey a) = Some r" by (metis domI map_le_def)
  with Some show ?thesis by (simp add: resolved_def resolveAccessor_def)
qed (simp add: resolved_def resolveAccessor_def)

lemma kleene_extends:
  assumes "map_of rs \<subseteq>\<^sub>m map_of rs'"
  shows "resolves (kleene rs c) (kleene rs' c)"
proof (induction c)
  case (CAll cs)
  then have "list_all2 resolves (map (kleene rs) cs) (map (kleene rs') cs)"
    by (simp add: list_all2_conv_all_nth)
  then show ?case by (simp add: resolves_fold [OF resolves_min] resolves_def [of TrueV])
next
  case (CAny cs)
  then have "list_all2 resolves (map (kleene rs) cs) (map (kleene rs') cs)"
    by (simp add: list_all2_conv_all_nth)
  then show ?case by (simp add: resolves_fold [OF resolves_max] resolves_def [of FalseV])
next
  case (CNot c)
  then show ?case by (auto simp: resolves_def)
next
  case (CExists a)
  then show ?case using resolved_extends [OF assms, of a] by (auto simp: resolves_def)
next
  case (CCompare k a x)
  then show ?case using resolved_extends [OF assms, of a] by (auto simp: resolves_def)
qed

section \<open>Gate evaluation and evidence\<close>

definition indexOf :: "sensorReading list \<Rightarrow> readingIndex" where
  "indexOf rs = map (\<lambda>r. (sensorKey r, r)) rs"

definition ruleResults :: "readingIndex \<Rightarrow> gateRule list \<Rightarrow> ruleEvaluation list" where
  "ruleResults index rules =
     map (\<lambda>r. \<lparr>evalKey = ruleKey r, evalResult = kleene index (ruleCondition r)\<rparr>) rules"

text \<open>What an evaluation of gate \<open>g\<close> on readings \<open>rs\<close> is to say.\<close>

definition evaluationSpec :: "gateDefinition \<Rightarrow> sensorReading list \<Rightarrow> jstr \<Rightarrow> evaluationContent" where
  "evaluationSpec g rs cand =
     \<lparr>candidateInputDigest = cand, evaluationPolicyDigest = policyDigest g,
      readingDigests = sort (map readingDigest rs),
      blockingResults = ruleResults (indexOf rs) (blocking g),
      advisoryResults = ruleResults (indexOf rs) (advisory g),
      accepted = (\<forall>rule\<in>set (blocking g). kleene (indexOf rs) (ruleCondition rule) = TrueV)\<rparr>"

definition admissible :: "sensorReading list \<Rightarrow> jstr \<Rightarrow> bool" where
  "admissible rs cand \<longleftrightarrow> (\<forall>r\<in>set rs. inputDigest r = cand) \<and> distinct (map sensorKey rs)"

lemma evaluateRules_kleene:
  "list_all (okRule defaultLimits) rules \<Longrightarrow> evaluateRules rules index = Inr (ruleResults index rules)"
  unfolding evaluateRules_def ruleResults_def
  by (rule mapE_Inr_map) (simp add: evaluate_kleene list_all_iff okRule_def)

lemma validateReadings_fold:
  "foldE (\<lambda>index s. bindE (validateReadingSnapshot s sha) (\<lambda>reading.
       if inputDigest reading \<noteq> cand then Inl (GateError GReadingInputMismatch)
       else if sensorKey reading \<in> set (map fst index) then Inl (GateError GDuplicateReading)
       else Inr (index @ [(sensorKey reading, reading)]))) start vs = Inr index \<longleftrightarrow>
   (\<exists>rs. mapE (\<lambda>v. validateReadingSnapshot v sha) vs = Inr rs \<and> admissible rs cand \<and>
      set (map sensorKey rs) \<inter> set (map fst start) = {} \<and> index = start @ indexOf rs)"
proof (induction vs arbitrary: start)
  case Nil
  then show ?case by (auto simp: admissible_def indexOf_def)
next
  case (Cons v vs)
  show ?case
  proof (cases "validateReadingSnapshot v sha")
    case (Inr r)
    show ?thesis
      unfolding foldE.simps mapE.simps Inr bindE_Inr bindE_eq_Inr [of "if _ then _ else _"] if_Inl_eq_Inr
        bindE_eq_Inr [of "mapE _ _"]
      using Cons.IH by (fastforce simp: admissible_def indexOf_def)
  qed simp
qed

lemma validateReadings_iff:
  "validateReadings v cand sha = Inr index \<longleftrightarrow>
   (\<exists>vs rs. v = Arr vs \<and> mapE (\<lambda>v. validateReadingSnapshot v sha) vs = Inr rs \<and>
      admissible rs cand \<and> index = indexOf rs)"
proof (cases "arrOf v")
  case (Some vs)
  then show ?thesis by (simp add: validateReadings_def validateReadings_fold)
qed (auto simp: validateReadings_def)

lemma readings_json:
  "is_json (Arr vs) \<Longrightarrow> mapE (\<lambda>v. validateReadingSnapshot v sha) vs = Inr rs \<longleftrightarrow>
     mapE (\<lambda>v. validateSensorReading v sha) vs = Inr rs"
  by (subst mapE_cong [OF refl, of vs "\<lambda>v. validateReadingSnapshot v sha" "\<lambda>v. validateSensorReading v sha"])
    (simp_all add: validateSensorReading_def snapshotCanonical_def list_all_iff)

lemma mapE_reading_json: "mapE (\<lambda>v. validateSensorReading v sha) vs = Inr rs \<Longrightarrow> is_json (Arr vs)"
  by (auto simp: list_all_iff validateSensorReading_def bindE_eq_Inr snapshotCanonical_eq_Inr
      dest!: mapE_in_set1)

lemma evaluateGate_unfold:
  "evaluateGate d r c sha = Inr e \<longleftrightarrow>
   is_json d \<and> is_json r \<and> (\<exists>cand g index digest. c = Str cand \<and> sha256Pattern cand \<and>
     validateGateDefinitionSnapshot d sha = Inr g \<and> validateReadings r cand sha = Inr index \<and>
     (let content = \<lparr>candidateInputDigest = cand, evaluationPolicyDigest = policyDigest g,
            readingDigests = sort (map (readingDigest \<circ> snd) index),
            blockingResults = ruleResults index (blocking g), advisoryResults = ruleResults index (advisory g),
            accepted = list_all (\<lambda>e. evalResult e = TrueV) (ruleResults index (blocking g))\<rparr>
      in canonicalDigest (encEvaluationContent content) sha = Inr digest \<and>
         evaluationContent.extend content \<lparr>evaluationDigest = digest\<rparr> = e))"
proof (cases "is_json d \<and> is_json r \<and> (\<exists>cand. c = Str cand \<and> sha256Pattern cand)")
  case True
  then obtain cand where c: "c = Str cand" "sha256Pattern cand" and j: "is_json d" "is_json r" by blast
  show ?thesis
  proof (cases "validateGateDefinitionSnapshot d sha")
    case (Inr g)
    have ok: "list_all (okRule defaultLimits) (blocking g)" "list_all (okRule defaultLimits) (advisory g)"
      using validateGateDefinitionSnapshot_ok [OF Inr j(1)] by (simp_all add: okGate_def okGateContent_def)
    show ?thesis
      using c j Inr by (simp add: evaluateGate_def snapshotCanonical_def bindE_eq_Inr Let_def
          evaluateRules_kleene [OF ok(1)] evaluateRules_kleene [OF ok(2)])
  qed (use c j in \<open>simp add: evaluateGate_def snapshotCanonical_def\<close>)
next
  case False
  then show ?thesis
    by (cases c) (auto simp: evaluateGate_def snapshotCanonical_def split: if_splits)
qed

lemma evaluateGate_iff:
  "evaluateGate d r c sha = Inr e \<longleftrightarrow>
   (\<exists>cand g vs rs digest. c = Str cand \<and> sha256Pattern cand \<and> validateGateDefinition d sha = Inr g \<and>
     r = Arr vs \<and> mapE (\<lambda>v. validateSensorReading v sha) vs = Inr rs \<and> admissible rs cand \<and>
     canonicalDigest (encEvaluationContent (evaluationSpec g rs cand)) sha = Inr digest \<and>
     evaluationContent.extend (evaluationSpec g rs cand) \<lparr>evaluationDigest = digest\<rparr> = e)" (is "_ \<longleftrightarrow> ?rhs")
proof -
  have spec: "\<lparr>candidateInputDigest = cand, evaluationPolicyDigest = policyDigest g,
      readingDigests = sort (map (readingDigest \<circ> snd) (indexOf rs)),
      blockingResults = ruleResults (indexOf rs) (blocking g),
      advisoryResults = ruleResults (indexOf rs) (advisory g),
      accepted = list_all (\<lambda>e. evalResult e = TrueV) (ruleResults (indexOf rs) (blocking g))\<rparr> =
    evaluationSpec g rs cand" for cand g rs
    by (simp add: evaluationSpec_def indexOf_def comp_def ruleResults_def list_all_iff)
  have d: "validateGateDefinition d sha = Inr g \<longleftrightarrow> is_json d \<and> validateGateDefinitionSnapshot d sha = Inr g" for g
    by (auto simp: validateGateDefinition_def snapshotCanonical_def)
  have r: "is_json r \<and> validateReadings r cand sha = Inr index \<longleftrightarrow>
      (\<exists>vs rs. r = Arr vs \<and> mapE (\<lambda>v. validateSensorReading v sha) vs = Inr rs \<and>
        admissible rs cand \<and> index = indexOf rs)" for cand index
    using readings_json mapE_reading_json unfolding validateReadings_iff by blast
  show ?thesis
  proof
    assume "evaluateGate d r c sha = Inr e"
    then obtain cand g index digest where 1: "c = Str cand" "sha256Pattern cand" "is_json d"
        "validateGateDefinitionSnapshot d sha = Inr g"
      and 2: "is_json r \<and> validateReadings r cand sha = Inr index"
      and 3: "let content = \<lparr>candidateInputDigest = cand, evaluationPolicyDigest = policyDigest g,
            readingDigests = sort (map (readingDigest \<circ> snd) index),
            blockingResults = ruleResults index (blocking g), advisoryResults = ruleResults index (advisory g),
            accepted = list_all (\<lambda>e. evalResult e = TrueV) (ruleResults index (blocking g))\<rparr>
          in canonicalDigest (encEvaluationContent content) sha = Inr digest \<and>
            evaluationContent.extend content \<lparr>evaluationDigest = digest\<rparr> = e"
      unfolding evaluateGate_unfold by blast
    from 2 obtain vs rs where 4: "r = Arr vs" "mapE (\<lambda>v. validateSensorReading v sha) vs = Inr rs"
        "admissible rs cand" "index = indexOf rs" unfolding r by blast
    from 1 3 4 show ?rhs unfolding d Let_def 4(4) spec by blast
  next
    assume ?rhs
    then obtain cand g vs rs digest where 1: "c = Str cand" "sha256Pattern cand"
        "validateGateDefinition d sha = Inr g"
      and 2: "r = Arr vs" "mapE (\<lambda>v. validateSensorReading v sha) vs = Inr rs" "admissible rs cand"
      and 3: "canonicalDigest (encEvaluationContent (evaluationSpec g rs cand)) sha = Inr digest"
        "evaluationContent.extend (evaluationSpec g rs cand) \<lparr>evaluationDigest = digest\<rparr> = e"
      by blast
    have "is_json r \<and> validateReadings r cand sha = Inr (indexOf rs)" using 2 r by blast
    with 1 3 show "evaluateGate d r c sha = Inr e"
      unfolding evaluateGate_unfold d Let_def spec [symmetric] by blast
  qed
qed

text \<open>Evaluating a validated gate on validated readings, and what evidence guarantees.\<close>

lemma evaluateGate_valid:
  assumes "okGate sha g" and "\<forall>r\<in>set rs. okReading sha r"
  shows "evaluateGate (encGateDefinition g) (Arr (map encReading rs)) (Str cand) sha = Inr e \<longleftrightarrow>
    sha256Pattern cand \<and> admissible rs cand \<and>
    (\<exists>digest. canonicalDigest (encEvaluationContent (evaluationSpec g rs cand)) sha = Inr digest \<and>
       evaluationContent.extend (evaluationSpec g rs cand) \<lparr>evaluationDigest = digest\<rparr> = e)"
proof -
  have "validateGateDefinition (encGateDefinition g) sha = Inr g" by (rule gates.dec_enc [OF assms(1)])
  moreover have "mapE (\<lambda>v. validateSensorReading v sha) (map encReading rs) = Inr rs"
    by (rule readings.decs_enc) (use assms(2) in blast)
  ultimately show ?thesis unfolding evaluateGate_iff by simp
qed

definition okEvidence :: "sha256 \<Rightarrow> jstr \<Rightarrow> gateEvidence \<Rightarrow> bool" where
  "okEvidence sha cand ev \<longleftrightarrow>
     sha256Pattern cand \<and> okGate sha (evidenceDefinition ev) \<and>
     (\<forall>r\<in>set (evidenceReadings ev). okReading sha r) \<and> admissible (evidenceReadings ev) cand \<and>
     (\<exists>digest. canonicalDigest (encEvaluationContent
          (evaluationSpec (evidenceDefinition ev) (evidenceReadings ev) cand)) sha = Inr digest \<and>
        evaluationContent.extend (evaluationSpec (evidenceDefinition ev) (evidenceReadings ev) cand)
          \<lparr>evaluationDigest = digest\<rparr> = evidenceEvaluation ev)"

lemma encEvidence_json:
  assumes "okEvidence sha cand ev"
  shows "is_json (encEvidence ev)"
proof -
  have "is_json (encGateDefinition (evidenceDefinition ev))"
    using assms by (auto simp: okEvidence_def okGate_def intro: encGate_json)
  moreover have "\<forall>r\<in>set (evidenceReadings ev). is_json (encReading r)"
    using assms encReading_json by (auto simp: okEvidence_def)
  moreover have "is_json (encEvaluation e)" for e
    by (auto simp: encEvaluation_def encEvaluationContent_def encRuleEvaluation_def list_all_iff)
  ultimately show ?thesis by (simp add: encEvidence_def list_all_iff)
qed

lemma evidence_ok:
  assumes "validateGateEvidence v (Str cand) sha = Inr ev"
  shows "okEvidence sha cand ev"
proof -
  from assms obtain d vs rs e where keys: "is_json v" "exactKeys v [''definition'', ''readings'', ''evaluation'']"
    and d: "validateGateDefinitionSnapshot (get v ''definition'') sha = Inr d"
    and rs: "get v ''readings'' = Arr vs" "mapE (\<lambda>r. validateReadingSnapshot r sha) vs = Inr rs"
    and e: "evaluateGate (encGateDefinition d) (Arr (map encReading rs)) (Str cand) sha = Inr e"
    and ev: "ev = \<lparr>evidenceDefinition = d, evidenceReadings = rs, evidenceEvaluation = e\<rparr>"
    by (auto simp: validateGateEvidence_def bindE_eq_Inr snapshotCanonical_eq_Inr
        assertExactKeys_eq_Inr split: if_splits option.splits)
  have okd: "okGate sha d"
    by (rule validateGateDefinitionSnapshot_ok [OF d exactKeys_field_json [OF keys(2,1)]]) simp
  have "is_json (Arr vs)" using exactKeys_field_json [OF keys(2,1), of "''readings''"] rs(1) by simp
  then have okr: "\<forall>r\<in>set rs. okReading sha r"
    using rs(2) by (auto simp: list_all_iff dest!: mapE_in_set intro: validateReadingSnapshot_eq_Inr)
  show ?thesis using e unfolding evaluateGate_valid [OF okd okr] by (simp add: okEvidence_def okd okr ev)
qed

lemma evidence_enc:
  assumes ok: "okEvidence sha cand ev"
  shows "validateGateEvidence (encEvidence ev) (Str cand) sha = Inr ev"
proof -
  have g: "okGate sha (evidenceDefinition ev)" and r: "\<forall>r\<in>set (evidenceReadings ev). okReading sha r"
    and c: "sha256Pattern cand" using ok by (simp_all add: okEvidence_def)
  have "evaluateGate (encGateDefinition (evidenceDefinition ev)) (Arr (map encReading (evidenceReadings ev)))
      (Str cand) sha = Inr (evidenceEvaluation ev)"
    using ok unfolding evaluateGate_valid [OF g r] by (simp add: okEvidence_def)
  moreover have "mapE (\<lambda>r. validateReadingSnapshot r sha) (map encReading (evidenceReadings ev)) =
      Inr (evidenceReadings ev)"
    using r validateReadingSnapshot_enc by (induction "evidenceReadings ev") (simp_all add: mapE_eq_Inr list_all2_conv_all_nth)
  moreover have "get (encEvidence ev) ''definition'' = encGateDefinition (evidenceDefinition ev)"
    "get (encEvidence ev) ''readings'' = Arr (map encReading (evidenceReadings ev))"
    "get (encEvidence ev) ''evaluation'' = encEvaluation (evidenceEvaluation ev)"
    "assertExactKeys (encEvidence ev) [''definition'', ''readings'', ''evaluation''] x = Inr ()" for x
    by (simp_all add: encEvidence_def)
  ultimately show ?thesis using c validateGateDefinitionSnapshot_enc [OF g]
    by (simp add: validateGateEvidence_def snapshotCanonical_def encEvidence_json [OF ok])
qed

interpretation evidence: codec "\<lambda>v. validateGateEvidence v (Str cand) sha" encEvidence "okEvidence sha cand"
  for sha cand
  by unfold_locales (fact evidence_ok, fact evidence_enc)

text \<open>What validated evidence says of its readings and its decision.\<close>

lemma evidence_sound:
  assumes "validateGateEvidence v (Str cand) sha = Inr ev"
  shows "(\<forall>r\<in>set (evidenceReadings ev). inputDigest r = cand) \<and>
    distinct (map sensorKey (evidenceReadings ev)) \<and>
    candidateInputDigest (evidenceEvaluation ev) = cand \<and>
    evaluationPolicyDigest (evidenceEvaluation ev) =
      sha (canonicalBytes (encGateContent (evidenceDefinition ev))) \<and>
    (accepted (evidenceEvaluation ev) \<longleftrightarrow>
      (\<forall>rule\<in>set (blocking (evidenceDefinition ev)).
        evaluateCondition (map (\<lambda>r. (sensorKey r, r)) (evidenceReadings ev)) (ruleCondition rule) = Inr TrueV))"
proof -
  have ok: "okEvidence sha cand ev" by (rule evidence.dec_ok [OF assms])
  then have "\<forall>rule\<in>set (blocking (evidenceDefinition ev)). okCondition defaultLimits (ruleCondition rule)"
    by (simp add: okEvidence_def okGate_def okGateContent_def okRule_def list_all_iff)
  moreover obtain digest where e: "evidenceEvaluation ev = evaluationContent.extend
      (evaluationSpec (evidenceDefinition ev) (evidenceReadings ev) cand) \<lparr>evaluationDigest = digest\<rparr>"
    using ok by (metis okEvidence_def)
  ultimately show ?thesis
    using ok unfolding e
    by (simp add: okEvidence_def admissible_def evaluationSpec_def evaluationContent.defs
        evaluate_kleene indexOf_def okGate_def canonicalDigest_eq_Inr)
qed

end
