(* ===== verification/GateProperties.thy ===== *)
theory GateProperties
  imports GateEvaluation
begin

text \<open>
  The properties of gates.ts, with a small gate as the concrete input of their witnesses: its one
  blocking rule asks that the sensor \<open>lint\<close> reports \<open>{"errors": 0}\<close>.
\<close>

definition demoCondition :: condition where
  "demoCondition = CAll [CNot (CCompare GreaterThan
     \<lparr>accSensorKey = lit ''lint'', accPointer = lit ''/errors''\<rparr> (Num (Whole 0)))]"

definition demoGateInput :: val where
  "demoGateInput = Obj [(lit ''key'', Str (lit ''g'')),
     (lit ''blocking'', Arr [Obj [(lit ''key'', Str (lit ''clean'')),
        (lit ''condition'', encCondition demoCondition)]]),
     (lit ''advisory'', Arr [])]"

definition demoGate :: gateDefinition where
  "demoGate = \<lparr>gateKey = lit ''g'',
     blocking = [\<lparr>ruleKey = lit ''clean'', ruleCondition = demoCondition\<rparr>],
     advisory = [], policyDigest = replicate 64 48\<rparr>"

definition demoReadingInput :: val where
  "demoReadingInput = Obj [(lit ''sensorKey'', Str (lit ''lint'')),
     (lit ''inputDigest'', Str (replicate 64 49)), (lit ''outcome'', Str (lit ''succeeded'')),
     (lit ''data'', Obj [(lit ''errors'', Num (Whole 0))])]"

definition demoReading :: sensorReading where
  "demoReading = \<lparr>sensorKey = lit ''lint'', inputDigest = replicate 64 49,
     outcome = Succeeded (Obj [(lit ''errors'', Num (Whole 0))]), readingTaskId = None,
     readingDigest = replicate 64 48\<rparr>"

definition demoEvaluation :: gateEvaluation where
  "demoEvaluation = \<lparr>candidateInputDigest = replicate 64 49, evaluationPolicyDigest = replicate 64 48,
     readingDigests = [replicate 64 48],
     blockingResults = [\<lparr>evalKey = lit ''clean'', evalResult = TrueV\<rparr>], advisoryResults = [],
     accepted = True, evaluationDigest = replicate 64 48\<rparr>"

lemma demoCondition_valid:
  "validateCondition defaultLimits 1 0 (encCondition demoCondition) = Inr (demoCondition, 3)"
  by code_simp

lemma demoCondition_json: "is_json (encCondition demoCondition)"
  by code_simp

lemma demoGate_content:
  "is_json demoGateInput"
  "gateContentOf demoGateInput 0 defaultLimits = Inr (gateContent.truncate demoGate)"
  by code_simp+

lemma demoReading_content:
  "is_json demoReadingInput"
  "readingContentOf demoReadingInput = Inr (readingContent.truncate demoReading)"
  by code_simp+

lemma demoGate_defined: "defineGate demoGateInput flatSha = Inr demoGate"
  by (simp add: defineGate_def snapshotCanonical_def demoGate_content)
    (simp add: demoGate_def gateContent.defs)

lemma demoReading_created: "createSensorReading demoReadingInput flatSha = Inr demoReading"
  by (simp add: createSensorReading_def snapshotCanonical_def demoReading_content)
    (simp add: demoReading_def readingContent.defs)

lemma demo_spec:
  "evaluationSpec demoGate [demoReading] (replicate 64 49) = evaluationContent.truncate demoEvaluation"
  "admissible [demoReading] (replicate 64 49)" "sha256Pattern (replicate 64 49)"
  by code_simp+

lemma demoEvaluation_result:
  "evaluateGate (encGateDefinition demoGate) (Arr (map encReading [demoReading]))
     (Str (replicate 64 49)) flatSha = Inr demoEvaluation"
proof -
  have "okGate flatSha demoGate" by (rule gates.create_ok [OF demoGate_defined])
  moreover have "\<forall>r\<in>set [demoReading]. okReading flatSha r"
    using readings.create_ok [OF demoReading_created] by simp
  ultimately show ?thesis
    by (simp only: evaluateGate_valid demo_spec flatSha_digest)
      (simp add: demoEvaluation_def evaluationContent.defs)
qed

section \<open>Properties\<close>

text \<open>
  C1. Accepted gate evidence means what it says: the evidence validates only if its readings are
  all bound to the candidate it is checked for and come from distinct sensors, its evaluation
  names the digest of exactly its policy, and the decision is \<open>accepted\<close> exactly when the condition
  of every blocking rule evaluates to \<open>true\<close> on those readings. Advisory rules do not enter.
\<close>

theorem gate_evidence_sound:
  assumes "validateGateEvidence v (Str cand) sha = Inr ev"
  shows "(\<forall>r\<in>set (evidenceReadings ev). inputDigest r = cand) \<and>
    distinct (map sensorKey (evidenceReadings ev)) \<and>
    candidateInputDigest (evidenceEvaluation ev) = cand \<and>
    evaluationPolicyDigest (evidenceEvaluation ev) =
      sha (canonicalBytes (encGateContent (evidenceDefinition ev))) \<and>
    (accepted (evidenceEvaluation ev) \<longleftrightarrow>
      (\<forall>rule\<in>set (blocking (evidenceDefinition ev)).
        evaluateCondition (map (\<lambda>r. (sensorKey r, r)) (evidenceReadings ev)) (ruleCondition rule) = Inr TrueV))"
  by (rule evidence_sound [OF assms])

theorem gate_evidence_sound_witness:
  "accepted demoEvaluation \<longleftrightarrow> (\<forall>rule\<in>set (blocking demoGate).
     evaluateCondition (map (\<lambda>r. (sensorKey r, r)) [demoReading]) (ruleCondition rule) = Inr TrueV)"
proof -
  let ?ev = "\<lparr>evidenceDefinition = demoGate, evidenceReadings = [demoReading],
    evidenceEvaluation = demoEvaluation\<rparr>"
  have "okEvidence flatSha (replicate 64 49) ?ev"
    using gates.create_ok [OF demoGate_defined] readings.create_ok [OF demoReading_created]
    by (simp only: okEvidence_def gateEvidence.select_convs demo_spec flatSha_digest list.set)
      (simp add: demoEvaluation_def evaluationContent.defs)
  from gate_evidence_sound [OF evidence.dec_enc [OF this]] show ?thesis by simp
qed

text \<open>
  Defining a gate, creating readings for a candidate, evaluating the gate on them and
  validating the resulting evidence for that candidate agree: the evidence is accepted and read
  back unchanged.
\<close>

theorem gate_evidence_roundtrip:
  assumes "defineGate gv sha = Inr g" and "mapE (\<lambda>v. createSensorReading v sha) vs = Inr rs"
    and "evaluateGate (encGateDefinition g) (Arr (map encReading rs)) (Str cand) sha = Inr e"
  shows "validateGateEvidence (encEvidence \<lparr>evidenceDefinition = g, evidenceReadings = rs,
      evidenceEvaluation = e\<rparr>) (Str cand) sha =
    Inr \<lparr>evidenceDefinition = g, evidenceReadings = rs, evidenceEvaluation = e\<rparr>"
proof (rule evidence.dec_enc)
  have g: "okGate sha g" by (rule gates.create_ok [OF assms(1)])
  have r: "\<forall>r\<in>set rs. okReading sha r"
    using assms(2) readings.create_ok by (auto dest!: mapE_in_set)
  show "okEvidence sha cand \<lparr>evidenceDefinition = g, evidenceReadings = rs, evidenceEvaluation = e\<rparr>"
    using assms(3) unfolding evaluateGate_valid [OF g r] by (simp add: okEvidence_def g r)
qed

theorem gate_evidence_roundtrip_witness:
  "validateGateEvidence (encEvidence \<lparr>evidenceDefinition = demoGate, evidenceReadings = [demoReading],
      evidenceEvaluation = demoEvaluation\<rparr>) (Str (replicate 64 49)) flatSha =
    Inr \<lparr>evidenceDefinition = demoGate, evidenceReadings = [demoReading], evidenceEvaluation = demoEvaluation\<rparr>"
  by (rule gate_evidence_roundtrip [OF demoGate_defined _ demoEvaluation_result, of "[demoReadingInput]"])
    (simp add: demoReading_created)

text \<open>
  C39. On every condition the validator accepts, evaluation returns (no pointer can throw) and its
  short-circuiting loops compute Kleene's strong three-valued logic: \<open>all\<close> is the minimum and \<open>any\<close>
  the maximum in the order \<open>false < unknown < true\<close>, whatever the order of the conditions.
\<close>

theorem evaluateCondition_kleene:
  assumes "validateCondition defaultLimits 1 0 v = Inr (c, n)" and "is_json v"
  shows "evaluateCondition readings c = Inr (kleene readings c)"
  by (rule evaluate_kleene(1)) (use validateCondition_ok [OF assms] in blast)

theorem evaluateCondition_kleene_witness:
  "evaluateCondition [(lit ''lint'', demoReading)] demoCondition = Inr TrueV"
proof -
  have "kleene [(lit ''lint'', demoReading)] demoCondition = TrueV" by code_simp
  then show ?thesis
    using evaluateCondition_kleene [OF demoCondition_valid demoCondition_json] by simp
qed

text \<open>
  Evaluation is monotone in the readings: adding readings can only decide what was unknown.
  A condition that is true or false on some readings keeps that value on more of them.
\<close>

theorem evaluateCondition_monotone:
  assumes "validateCondition defaultLimits 1 0 v = Inr (c, n)" and "is_json v"
    and "map_of readings \<subseteq>\<^sub>m map_of readings'" and "evaluateCondition readings c = Inr t" and "t \<noteq> UnknownV"
  shows "evaluateCondition readings' c = Inr t"
proof -
  have "okCondition defaultLimits c" using validateCondition_ok [OF assms(1,2)] by blast
  then show ?thesis using kleene_extends [OF assms(3), of c] assms(4,5)
    by (auto simp: evaluate_kleene resolves_def)
qed

theorem evaluateCondition_monotone_witness:
  "evaluateCondition [(lit ''lint'', demoReading), (lit ''test'', demoReading)] demoCondition = Inr TrueV"
proof (rule evaluateCondition_monotone [OF demoCondition_valid demoCondition_json])
  show "evaluateCondition [(lit ''lint'', demoReading)] demoCondition = Inr TrueV" by code_simp
qed (auto simp: map_le_def)

text \<open>
  The limits hold and validation is stable: an accepted condition has at most 256 nodes
  (counted over the whole gate by the shared budget) and depth at most 32, and validating the
  condition it returned yields the same condition and the same count.
\<close>

theorem validateCondition_bounds:
  assumes "validateCondition defaultLimits 1 0 v = Inr (c, n)" and "is_json v"
  shows "n = nodesOf c \<and> n \<le> 256 \<and> depthOf c \<le> 32 \<and>
    validateCondition defaultLimits 1 0 (encCondition c) = Inr (c, n)"
  using validateCondition_ok [OF assms] validateCondition_enc [of defaultLimits c 1 0]
  by (simp add: defaultLimits_def)

theorem validateCondition_bounds_witness: "nodesOf demoCondition \<le> 256 \<and> depthOf demoCondition \<le> 32"
  using validateCondition_bounds [OF demoCondition_valid demoCondition_json] by simp

end
