(* ===== verification/Timestamps.thy ===== *)
theory Timestamps
  imports Canonical
begin

text \<open>
  Timestamps as text: the RFC 3339 UTC pattern the kernel checks
  (\<open>isTimestamp\<close> of budgets.ts and its copies).
\<close>

definition twoDigits :: "16 word \<Rightarrow> 16 word \<Rightarrow> nat" where
  "twoDigits c d = natOf [c, d]"

definition twoIn :: "16 word \<Rightarrow> 16 word \<Rightarrow> nat \<Rightarrow> nat \<Rightarrow> bool" where
  "twoIn c d lo hi \<longleftrightarrow> isDigit c \<and> isDigit d \<and> lo \<le> twoDigits c d \<and> twoDigits c d \<le> hi"

text \<open>\<open>(?:\.\d+)?Z$\<close>\<close>

definition fractionZ :: "jstr \<Rightarrow> bool" where
  "fractionZ s \<longleftrightarrow> s = [90] \<or>
     (s \<noteq> [] \<and> hd s = 46 \<and> last s = 90 \<and> length s \<ge> 3 \<and> list_all isDigit (butlast (tl s)))"

definition timestampPattern :: "jstr \<Rightarrow> bool" where
  "timestampPattern s \<longleftrightarrow> length s \<ge> 20 \<and> list_all isDigit (take 4 s) \<and> s ! 4 = 45 \<and>
     twoIn (s ! 5) (s ! 6) 1 12 \<and> s ! 7 = 45 \<and> twoIn (s ! 8) (s ! 9) 1 31 \<and> s ! 10 = 84 \<and>
     twoIn (s ! 11) (s ! 12) 0 23 \<and> s ! 13 = 58 \<and> twoIn (s ! 14) (s ! 15) 0 59 \<and> s ! 16 = 58 \<and>
     twoIn (s ! 17) (s ! 18) 0 59 \<and> fractionZ (drop 19 s)"

definition isTimestamp :: "val \<Rightarrow> bool" where
  "isTimestamp v = (case v of Str s \<Rightarrow> timestampPattern s | _ \<Rightarrow> False)"

lemma isTimestamp_iff: "isTimestamp v \<longleftrightarrow> (\<exists>s. v = Str s \<and> timestampPattern s)"
  by (cases v) (simp_all add: isTimestamp_def)

section \<open>Date.parse\<close>

text \<open>
  The runtime accepts \<open>^\d{4}-\d{2}-\d{2}T\d{2}:\d{2}:\d{2}(?:\.\d{3})?Z$\<close> when \<open>Date.parse\<close> of it
  is finite, and compares the parsed times. \<open>dateParse\<close> is \<open>Date.parse\<close> on strings of this shape:
  month 1 to 12, day 1 to 31 (a day past the end of its month rolls over), hour up to 23 or
  exactly 24:00:00, in milliseconds since 1970.
\<close>

definition isoPattern :: "jstr \<Rightarrow> bool" where
  "isoPattern s \<longleftrightarrow> (length s = 20 \<or> length s = 24) \<and>
     list_all isDigit (take 4 s) \<and> s ! 4 = 45 \<and> isDigit (s ! 5) \<and> isDigit (s ! 6) \<and> s ! 7 = 45 \<and>
     isDigit (s ! 8) \<and> isDigit (s ! 9) \<and> s ! 10 = 84 \<and> isDigit (s ! 11) \<and> isDigit (s ! 12) \<and>
     s ! 13 = 58 \<and> isDigit (s ! 14) \<and> isDigit (s ! 15) \<and> s ! 16 = 58 \<and> isDigit (s ! 17) \<and>
     isDigit (s ! 18) \<and>
     (if length s = 20 then s ! 19 = 90
      else s ! 19 = 46 \<and> list_all isDigit (take 3 (drop 20 s)) \<and> s ! 23 = 90)"

definition daysFromCivil :: "int \<Rightarrow> int \<Rightarrow> int \<Rightarrow> int" where
  "daysFromCivil y m d =
     (let y' = (if m \<le> 2 then y - 1 else y); era = y' div 400; yoe = y' - era * 400;
          doy = (153 * (if m > 2 then m - 3 else m + 9) + 2) div 5 + d - 1;
          doe = yoe * 365 + yoe div 4 - yoe div 100 + doy
      in era * 146097 + doe - 719468)"

definition dateParse :: "jstr \<Rightarrow> int option" where
  "dateParse s = (if \<not> isoPattern s then None else
     (let num = (\<lambda>i n. int (natOf (take n (drop i s)))); y = num 0 4; mo = num 5 2; d = num 8 2;
          h = num 11 2; mi = num 14 2; sec = num 17 2; ms = (if length s = 24 then num 20 3 else 0)
      in if 1 \<le> mo \<and> mo \<le> 12 \<and> 1 \<le> d \<and> d \<le> 31 \<and>
            (h \<le> 23 \<and> mi \<le> 59 \<and> sec \<le> 59 \<or> h = 24 \<and> mi = 0 \<and> sec = 0 \<and> ms = 0)
         then Some (((daysFromCivil y mo d * 24 + h) * 60 + mi) * 60000 + sec * 1000 + ms)
         else None))"

definition validTimestamp :: "jstr \<Rightarrow> bool" where
  "validTimestamp s \<longleftrightarrow> dateParse s \<noteq> None"

text \<open>\<open>Date.parse(a) >= Date.parse(b)\<close>, false when either is \<open>NaN\<close>.\<close>

definition timeGe :: "jstr \<Rightarrow> jstr \<Rightarrow> bool" where
  "timeGe a b = (case (dateParse a, dateParse b) of (Some s, Some t) \<Rightarrow> s \<ge> t | _ \<Rightarrow> False)"

definition timeGt :: "jstr \<Rightarrow> jstr \<Rightarrow> bool" where
  "timeGt a b = (case (dateParse a, dateParse b) of (Some s, Some t) \<Rightarrow> s > t | _ \<Rightarrow> False)"

lemma dateParse_epoch: "dateParse (lit ''1970-01-01T00:00:00.000Z'') = Some 0"
  by code_simp

lemma dateParse_sample: "dateParse (lit ''2024-03-01T12:30:15Z'') = Some 1709296215000"
  by code_simp

end
