(* ===== verification/Budgets.thy ===== *)
theory Budgets
  imports Identity Codecs Timestamps "HOL-Library.Product_Lexorder"
begin

text \<open>
  packages/kernel/src/budgets.ts: budget ledgers, consumption, escalations, allowance decisions
  and the authority policies that allow them.
\<close>

section \<open>Units, ledgers and facts\<close>

datatype budgetUnit = WorkAttempt | DispatchFailure | SensorRetry | ReviewIteration
  | IntegrationAttempt | RebaseAttempt

fun unitStr :: "budgetUnit \<Rightarrow> string" where
  "unitStr WorkAttempt = ''work-attempt''"
| "unitStr DispatchFailure = ''dispatch-failure''"
| "unitStr SensorRetry = ''sensor-retry''"
| "unitStr ReviewIteration = ''review-iteration''"
| "unitStr IntegrationAttempt = ''integration-attempt''"
| "unitStr RebaseAttempt = ''rebase-attempt''"

definition budgetUnits :: "budgetUnit list" where
  "budgetUnits = [WorkAttempt, DispatchFailure, SensorRetry, ReviewIteration, IntegrationAttempt,
     RebaseAttempt]"

definition unitText :: "budgetUnit \<Rightarrow> jstr" where
  "unitText u = lit (unitStr u)"

definition budgetUnitOf :: "val \<Rightarrow> budgetUnit option" where
  "budgetUnitOf v = (case v of Str s \<Rightarrow> find (\<lambda>u. s = unitText u) budgetUnits | _ \<Rightarrow> None)"

definition nonnegSafeInt :: "val \<Rightarrow> int option" where
  "nonnegSafeInt v = (case v of Num (Whole i) \<Rightarrow> if isSafe i \<and> i \<ge> 0 then Some i else None | _ \<Rightarrow> None)"

record budgetCounter =
  counterUnit :: budgetUnit
  counterLimit :: int
  counterUsed :: int

record budgetLedger =
  counters :: "budgetCounter list"
  appliedAllowances :: "jstr list"

record exhaustedFact =
  factUnit :: budgetUnit
  factLimit :: int
  factUsed :: int
  factRequested :: int
  factRemaining :: int

datatype consumption = Consumed budgetLedger budgetCounter
  | Exhausted budgetLedger budgetCounter exhaustedFact

definition encCounter :: "budgetCounter \<Rightarrow> val" where
  "encCounter c = Obj [(lit ''unit'', Str (unitText (counterUnit c))),
     (lit ''limit'', Num (Whole (counterLimit c))), (lit ''used'', Num (Whole (counterUsed c)))]"

definition encLedger :: "budgetLedger \<Rightarrow> val" where
  "encLedger l = Obj [(lit ''counters'', Arr (map encCounter (counters l))),
     (lit ''appliedAllowanceDecisionDigests'', Arr (map Str (appliedAllowances l)))]"

definition encFact :: "exhaustedFact \<Rightarrow> val" where
  "encFact f = Obj [(lit ''unit'', Str (unitText (factUnit f))), (lit ''limit'', Num (Whole (factLimit f))),
     (lit ''used'', Num (Whole (factUsed f))), (lit ''requested'', Num (Whole (factRequested f))),
     (lit ''remaining'', Num (Whole (factRemaining f)))]"

definition sortedDigestList :: "val \<Rightarrow> exn \<Rightarrow> exn \<Rightarrow> exn + jstr list" where
  "sortedDigestList v e dup = (case arrOf v of None \<Rightarrow> Inl e
     | Some xs \<Rightarrow> bindE (uniqueBy id (digestOf e) dup xs) (\<lambda>ds. Inr (sort ds)))"

definition validateCounter :: "exn \<Rightarrow> val \<Rightarrow> exn + budgetCounter" where
  "validateCounter e v =
     bindE (assertExactKeys v [''unit'', ''limit'', ''used''] e) (\<lambda>_.
     case budgetUnitOf (get v ''unit'') of None \<Rightarrow> Inl e
     | Some u \<Rightarrow> (case posSafeInt (get v ''limit'') of None \<Rightarrow> Inl e
       | Some l \<Rightarrow> (case nonnegSafeInt (get v ''used'') of None \<Rightarrow> Inl e
         | Some n \<Rightarrow> if n > l then Inl e
             else Inr \<lparr>counterUnit = u, counterLimit = l, counterUsed = n\<rparr>)))"

definition validateLedger :: "val \<Rightarrow> exn \<Rightarrow> exn + budgetLedger" where
  "validateLedger v e =
     bindE (assertExactKeys v [''counters'', ''appliedAllowanceDecisionDigests''] e) (\<lambda>_.
     case arrOf (get v ''counters'') of None \<Rightarrow> Inl e
     | Some xs \<Rightarrow>
         bindE (uniqueBy counterUnit (validateCounter e) (BudgetError BDuplicateBudget) xs) (\<lambda>cs.
         bindE (sortedDigestList (get v ''appliedAllowanceDecisionDigests'') e
             (BudgetError BDuplicateAllowance)) (\<lambda>ds.
           Inr \<lparr>counters = sort_key (unitText \<circ> counterUnit) cs, appliedAllowances = ds\<rparr>)))"

definition createBudgetLedger :: "val \<Rightarrow> exn + budgetLedger" where
  "createBudgetLedger v = bindE (snapshotCanonical (BudgetError BInvalidLedger) v)
     (\<lambda>s. validateLedger s (BudgetError BInvalidLedger))"

definition budgetCounterOf :: "val \<Rightarrow> val \<Rightarrow> exn + budgetCounter option" where
  "budgetCounterOf ledger u =
     bindE (createBudgetLedger ledger) (\<lambda>l.
     case budgetUnitOf u of None \<Rightarrow> Inl (BudgetError BInvalidLedger)
     | Some unit \<Rightarrow> Inr (find (\<lambda>c. counterUnit c = unit) (counters l)))"

definition consumeBudget :: "val \<Rightarrow> val \<Rightarrow> exn + consumption" where
  "consumeBudget ledger input =
     (let e = BudgetError BInvalidConsumption in
     bindE (snapshotCanonical e (Obj [(lit ''ledger'', ledger), (lit ''input'', input)])) (\<lambda>snapshot.
     bindE (assertExactKeys snapshot [''ledger'', ''input''] e) (\<lambda>_.
     bindE (validateLedger (get snapshot ''ledger'') e) (\<lambda>l.
     bindE (assertExactKeys (get snapshot ''input'') [''unit'', ''amount''] e) (\<lambda>_.
     case (budgetUnitOf (get (get snapshot ''input'') ''unit''),
           posSafeInt (get (get snapshot ''input'') ''amount'')) of
       (Some u, Some amount) \<Rightarrow>
         (case findIndex (\<lambda>c. counterUnit c = u) (counters l) of
            None \<Rightarrow> Inl (BudgetError BBudgetNotConfigured)
          | Some i \<Rightarrow>
              let c = counters l ! i; remaining = counterLimit c - counterUsed c in
              if amount > remaining
              then Inr (Exhausted l c \<lparr>factUnit = counterUnit c, factLimit = counterLimit c,
                factUsed = counterUsed c, factRequested = amount, factRemaining = remaining\<rparr>)
              else let c' = \<lparr>counterUnit = counterUnit c, counterLimit = counterLimit c,
                       counterUsed = counterUsed c + amount\<rparr>
                in Inr (Consumed \<lparr>counters = (counters l)[i := c'],
                     appliedAllowances = appliedAllowances l\<rparr> c'))
     | _ \<Rightarrow> Inl e)))))"

section \<open>Escalations\<close>

datatype escalationOwner = PhaseOwner jstr int jstr | TaskOwner jstr int jstr

datatype escalationTrigger = BudgetTrigger exhaustedFact | BlockedTrigger

record attemptFact =
  attemptUnit :: budgetUnit
  attemptOrdinal :: int
  attemptDigest :: jstr

datatype escalationResponse = GrantAdditional | Reassign | EscalateModel | ApproveAmendment
  | Waive | Supersede | EndRun

fun responseStr :: "escalationResponse \<Rightarrow> string" where
  "responseStr GrantAdditional = ''grant-additional''"
| "responseStr Reassign = ''reassign''"
| "responseStr EscalateModel = ''escalate-model''"
| "responseStr ApproveAmendment = ''approve-amendment''"
| "responseStr Waive = ''waive''"
| "responseStr Supersede = ''supersede''"
| "responseStr EndRun = ''end-run''"

definition responseText :: "escalationResponse \<Rightarrow> jstr" where
  "responseText r = lit (responseStr r)"

definition escalationResponses :: "escalationResponse list" where
  "escalationResponses = [GrantAdditional, Reassign, EscalateModel, ApproveAmendment, Waive,
     Supersede, EndRun]"

record escalationContent =
  escalationId :: jstr
  owner :: escalationOwner
  trigger :: escalationTrigger
  contextDigest :: jstr
  candidateDigest :: jstr
  escalationPolicy :: jstr
  unresolvedCriteria :: "jstr list"
  failedReadings :: "jstr list"
  unknownReadings :: "jstr list"
  attemptFacts :: "attemptFact list"
  allowedResponses :: "escalationResponse list"
  timestamp :: jstr

record escalation = escalationContent +
  escalationDigest :: jstr

abbreviation invalidEscalation :: exn where
  "invalidEscalation \<equiv> BudgetError BInvalidEscalation"

definition ownerOf :: "val \<Rightarrow> exn + escalationOwner" where
  "ownerOf v =
     (let e = invalidEscalation;
          tail = (\<lambda>mk i. bindE (generationOf e (get v ''definitionGeneration'')) (\<lambda>g.
             bindE (digestOf e (get v ''contextRevisionDigest'')) (\<lambda>d. Inr (mk i g d))))
      in if \<not> isRecord v then Inl e
      else if get v ''kind'' = Str (lit ''phase'') then
        bindE (assertExactKeys v [''kind'', ''phaseId'', ''definitionGeneration'', ''contextRevisionDigest''] e)
          (\<lambda>_. bindE (strIf (isIdentity PhaseKind) e (get v ''phaseId'')) (\<lambda>i. tail PhaseOwner i))
      else if get v ''kind'' = Str (lit ''task'') then
        bindE (assertExactKeys v [''kind'', ''taskId'', ''definitionGeneration'', ''contextRevisionDigest''] e)
          (\<lambda>_. bindE (strIf (isIdentity TaskKind) e (get v ''taskId'')) (\<lambda>i. tail TaskOwner i))
      else Inl e)"

definition exhaustedFactOf :: "val \<Rightarrow> exn + exhaustedFact" where
  "exhaustedFactOf v =
     bindE (assertExactKeys v [''unit'', ''limit'', ''used'', ''requested'', ''remaining''] invalidEscalation) (\<lambda>_.
     case (budgetUnitOf (get v ''unit''), posSafeInt (get v ''limit''), nonnegSafeInt (get v ''used''),
           posSafeInt (get v ''requested'')) of
       (Some u, Some l, Some n, Some r) \<Rightarrow>
         if n > l \<or> get v ''remaining'' \<noteq> Num (Whole (l - n)) \<or> r \<le> l - n then Inl invalidEscalation
         else Inr \<lparr>factUnit = u, factLimit = l, factUsed = n, factRequested = r, factRemaining = l - n\<rparr>
     | _ \<Rightarrow> Inl invalidEscalation)"

definition triggerOf :: "val \<Rightarrow> exn + escalationTrigger" where
  "triggerOf v =
     (if \<not> isRecord v then Inl invalidEscalation
      else if get v ''kind'' = Str (lit ''blocked'') then
        bindE (assertExactKeys v [''kind''] invalidEscalation) (\<lambda>_. Inr BlockedTrigger)
      else if get v ''kind'' \<noteq> Str (lit ''budget-exhausted'') then Inl invalidEscalation
      else bindE (assertExactKeys v [''kind'', ''fact''] invalidEscalation) (\<lambda>_.
        bindE (exhaustedFactOf (get v ''fact'')) (\<lambda>f. Inr (BudgetTrigger f))))"

definition attemptKey :: "attemptFact \<Rightarrow> jstr" where
  "attemptKey f = unitText (attemptUnit f) @ lit '':'' @ intStr (attemptOrdinal f)"

definition attemptFactOf :: "val \<Rightarrow> exn + attemptFact" where
  "attemptFactOf v =
     bindE (assertExactKeys v [''kind'', ''ordinal'', ''factDigest''] invalidEscalation) (\<lambda>_.
     case (budgetUnitOf (get v ''kind''), posSafeInt (get v ''ordinal''), get v ''factDigest'') of
       (Some u, Some n, Str d) \<Rightarrow> if sha256Pattern d
         then Inr \<lparr>attemptUnit = u, attemptOrdinal = n, attemptDigest = d\<rparr> else Inl invalidEscalation
     | _ \<Rightarrow> Inl invalidEscalation)"

definition validateAttemptFacts :: "val \<Rightarrow> exn + attemptFact list" where
  "validateAttemptFacts v = (case arrOf v of None \<Rightarrow> Inl invalidEscalation
     | Some xs \<Rightarrow>
         bindE (uniqueE attemptFactOf
             (\<lambda>a b. attemptKey a = attemptKey b \<or> attemptDigest a = attemptDigest b)
             (BudgetError BDuplicateAttempt) [] xs)
           (\<lambda>fs. Inr (sort_key (\<lambda>f. (unitText (attemptUnit f), attemptOrdinal f)) fs)))"

definition uniqueSortedValues :: "(val \<Rightarrow> exn + 'a) \<Rightarrow> ('a \<Rightarrow> jstr) \<Rightarrow> exn \<Rightarrow> val \<Rightarrow> exn + 'a list" where
  "uniqueSortedValues f text dup v = (case arrOf v of None \<Rightarrow> Inl invalidEscalation
     | Some xs \<Rightarrow> bindE (uniqueBy text f dup xs) (\<lambda>ys. Inr (sort_key text ys)))"

definition escalationResponseOf :: "val \<Rightarrow> exn + escalationResponse" where
  "escalationResponseOf v = (case v of
     Str s \<Rightarrow> (case find (\<lambda>r. s = responseText r) escalationResponses of
         None \<Rightarrow> Inl invalidEscalation | Some r \<Rightarrow> Inr r)
   | _ \<Rightarrow> Inl invalidEscalation)"

definition digestList :: "val \<Rightarrow> exn + jstr list" where
  "digestList v = uniqueSortedValues (digestOf invalidEscalation) id (BudgetError BDuplicateReading) v"

definition escalationContentOf :: "val \<Rightarrow> exn + escalationContent" where
  "escalationContentOf v =
     (let e = invalidEscalation in
     bindE (assertExactKeys v [''escalationId'', ''owner'', ''trigger'', ''contextDigest'',
       ''candidateDigest'', ''policyDigest'', ''unresolvedCriterionIds'', ''failedReadingDigests'',
       ''unknownReadingDigests'', ''attemptFacts'', ''allowedResponses'', ''timestamp''] e) (\<lambda>_.
     bindE (strIf (isIdentity EscalationKind) e (get v ''escalationId'')) (\<lambda>eid.
     bindE (ownerOf (get v ''owner'')) (\<lambda>own.
     bindE (triggerOf (get v ''trigger'')) (\<lambda>trig.
     bindE (digestOf e (get v ''contextDigest'')) (\<lambda>ctx.
     bindE (digestOf e (get v ''candidateDigest'')) (\<lambda>cand.
     bindE (digestOf e (get v ''policyDigest'')) (\<lambda>pol.
     bindE (strIf isTimestamp e (get v ''timestamp'')) (\<lambda>ts.
     bindE (uniqueSortedValues (strIf (isIdentity CriterionKind) e) id
       (BudgetError BDuplicateCriterion) (get v ''unresolvedCriterionIds'')) (\<lambda>crit.
     bindE (digestList (get v ''failedReadingDigests'')) (\<lambda>failed.
     bindE (digestList (get v ''unknownReadingDigests'')) (\<lambda>unknown.
     if list_ex (\<lambda>d. d \<in> set failed) unknown then Inl (BudgetError BDuplicateReading)
     else bindE (validateAttemptFacts (get v ''attemptFacts'')) (\<lambda>facts.
     bindE (uniqueSortedValues escalationResponseOf responseText
       (BudgetError BDuplicateAllowedResponse) (get v ''allowedResponses'')) (\<lambda>responses.
     if responses = [] then Inl e
     else Inr \<lparr>escalationId = eid, owner = own, trigger = trig, contextDigest = ctx,
       candidateDigest = cand, escalationPolicy = pol, unresolvedCriteria = crit,
       failedReadings = failed, unknownReadings = unknown, attemptFacts = facts,
       allowedResponses = responses, timestamp = ts\<rparr>))))))))))))))"

fun encOwner :: "escalationOwner \<Rightarrow> val" where
  "encOwner (PhaseOwner i g d) = Obj [(lit ''kind'', Str (lit ''phase'')), (lit ''phaseId'', Str i),
     (lit ''definitionGeneration'', Num (Whole g)), (lit ''contextRevisionDigest'', Str d)]"
| "encOwner (TaskOwner i g d) = Obj [(lit ''kind'', Str (lit ''task'')), (lit ''taskId'', Str i),
     (lit ''definitionGeneration'', Num (Whole g)), (lit ''contextRevisionDigest'', Str d)]"

fun encTrigger :: "escalationTrigger \<Rightarrow> val" where
  "encTrigger BlockedTrigger = Obj [(lit ''kind'', Str (lit ''blocked''))]"
| "encTrigger (BudgetTrigger f) = Obj [(lit ''kind'', Str (lit ''budget-exhausted'')), (lit ''fact'', encFact f)]"

definition encAttempt :: "attemptFact \<Rightarrow> val" where
  "encAttempt f = Obj [(lit ''kind'', Str (unitText (attemptUnit f))),
     (lit ''ordinal'', Num (Whole (attemptOrdinal f))), (lit ''factDigest'', Str (attemptDigest f))]"

definition encEscalationContent :: "'a escalationContent_scheme \<Rightarrow> val" where
  "encEscalationContent x = Obj [(lit ''escalationId'', Str (escalationId x)),
     (lit ''owner'', encOwner (owner x)), (lit ''trigger'', encTrigger (trigger x)),
     (lit ''contextDigest'', Str (contextDigest x)), (lit ''candidateDigest'', Str (candidateDigest x)),
     (lit ''policyDigest'', Str (escalationPolicy x)),
     (lit ''unresolvedCriterionIds'', Arr (map Str (unresolvedCriteria x))),
     (lit ''failedReadingDigests'', Arr (map Str (failedReadings x))),
     (lit ''unknownReadingDigests'', Arr (map Str (unknownReadings x))),
     (lit ''attemptFacts'', Arr (map encAttempt (attemptFacts x))),
     (lit ''allowedResponses'', Arr (map (Str \<circ> responseText) (allowedResponses x))),
     (lit ''timestamp'', Str (timestamp x))]"

definition encEscalation :: "escalation \<Rightarrow> val" where
  "encEscalation x = Obj (props (encEscalationContent x) @ [(lit ''escalationDigest'', Str (escalationDigest x))])"

definition createEscalation :: "val \<Rightarrow> sha256 \<Rightarrow> exn + escalation" where
  "createEscalation v sha =
     bindE (snapshotCanonical invalidEscalation v) (\<lambda>s.
     bindE (escalationContentOf s) (\<lambda>content.
     bindE (canonicalDigest (encEscalationContent content) sha) (\<lambda>d.
       Inr (escalationContent.extend content \<lparr>escalationDigest = d\<rparr>))))"

definition validateEscalationSnapshot :: "val \<Rightarrow> sha256 \<Rightarrow> exn + escalation" where
  "validateEscalationSnapshot v sha =
     (if \<not> isRecord v then Inl invalidEscalation
      else if length (keys v) \<noteq> 13 \<or> \<not> isSha256Digest (get v ''escalationDigest'') then Inl invalidEscalation
      else bindE (escalationContentOf (without v ''escalationDigest'')) (\<lambda>content.
        bindE (canonicalDigest (encEscalationContent content) sha) (\<lambda>d.
        if Str d \<noteq> get v ''escalationDigest'' then Inl invalidEscalation
        else Inr (escalationContent.extend content \<lparr>escalationDigest = d\<rparr>))))"

definition validateEscalation :: "val \<Rightarrow> sha256 \<Rightarrow> exn + escalation" where
  "validateEscalation v sha =
     bindE (snapshotCanonical invalidEscalation v) (\<lambda>s. validateEscalationSnapshot s sha)"

section \<open>Allowances\<close>

record allowanceContent =
  allowanceEscalation :: jstr
  allowanceUnit :: budgetUnit
  additionalLimit :: int
  allowanceAuthority :: val

record allowanceDecision = allowanceContent +
  decisionDigest :: jstr

record allowancePolicyContent =
  policyAuthority :: val
  allowedUnits :: "budgetUnit list"
  maxAdditionalLimit :: int

record allowancePolicy = allowancePolicyContent +
  allowancePolicyDigest :: jstr

abbreviation invalidAllowance :: exn where
  "invalidAllowance \<equiv> BudgetError BInvalidAllowance"

definition encAllowanceContent :: "'a allowanceContent_scheme \<Rightarrow> val" where
  "encAllowanceContent a = Obj [(lit ''escalationDigest'', Str (allowanceEscalation a)),
     (lit ''unit'', Str (unitText (allowanceUnit a))),
     (lit ''additionalLimit'', Num (Whole (additionalLimit a))),
     (lit ''authorityFact'', allowanceAuthority a)]"

definition encAllowance :: "allowanceDecision \<Rightarrow> val" where
  "encAllowance a = Obj (props (encAllowanceContent a) @ [(lit ''decisionDigest'', Str (decisionDigest a))])"

definition encPolicyContent :: "'a allowancePolicyContent_scheme \<Rightarrow> val" where
  "encPolicyContent p = Obj [(lit ''authorityFact'', policyAuthority p),
     (lit ''allowedUnits'', Arr (map (Str \<circ> unitText) (allowedUnits p))),
     (lit ''maxAdditionalLimit'', Num (Whole (maxAdditionalLimit p)))]"

definition encPolicy :: "allowancePolicy \<Rightarrow> val" where
  "encPolicy p = Obj (props (encPolicyContent p) @ [(lit ''policyDigest'', Str (allowancePolicyDigest p))])"

definition allowanceContentOf :: "val \<Rightarrow> exn + allowanceContent" where
  "allowanceContentOf v =
     bindE (assertExactKeys v [''escalationDigest'', ''unit'', ''additionalLimit'', ''authorityFact'']
       invalidAllowance) (\<lambda>_.
     bindE (digestOf invalidAllowance (get v ''escalationDigest'')) (\<lambda>d.
     case (budgetUnitOf (get v ''unit''), posSafeInt (get v ''additionalLimit'')) of
       (Some u, Some n) \<Rightarrow> Inr \<lparr>allowanceEscalation = d, allowanceUnit = u, additionalLimit = n,
         allowanceAuthority = get v ''authorityFact''\<rparr>
     | _ \<Rightarrow> Inl invalidAllowance))"

definition createAdditionalAllowanceDecision :: "val \<Rightarrow> sha256 \<Rightarrow> exn + allowanceDecision" where
  "createAdditionalAllowanceDecision v sha =
     bindE (snapshotCanonical invalidAllowance v) (\<lambda>s.
     bindE (allowanceContentOf s) (\<lambda>content.
     bindE (canonicalDigest (encAllowanceContent content) sha) (\<lambda>d.
       Inr (allowanceContent.extend content \<lparr>decisionDigest = d\<rparr>))))"

definition validateAllowanceDecision :: "val \<Rightarrow> sha256 \<Rightarrow> exn + allowanceDecision" where
  "validateAllowanceDecision v sha =
     (if \<not> isRecord v then Inl invalidAllowance
      else if length (keys v) \<noteq> 5 \<or> \<not> isSha256Digest (get v ''decisionDigest'') then Inl invalidAllowance
      else bindE (allowanceContentOf (without v ''decisionDigest'')) (\<lambda>content.
        bindE (canonicalDigest (encAllowanceContent content) sha) (\<lambda>d.
        if Str d \<noteq> get v ''decisionDigest'' then Inl invalidAllowance
        else Inr (allowanceContent.extend content \<lparr>decisionDigest = d\<rparr>))))"

definition budgetUnitE :: "exn \<Rightarrow> val \<Rightarrow> exn + budgetUnit" where
  "budgetUnitE e v = (case budgetUnitOf v of None \<Rightarrow> Inl e | Some u \<Rightarrow> Inr u)"

definition uniqueSortedBudgetUnits :: "val \<Rightarrow> exn + budgetUnit list" where
  "uniqueSortedBudgetUnits v = (case arrOf v of None \<Rightarrow> Inl invalidAllowance
     | Some xs \<Rightarrow> bindE (uniqueBy id (budgetUnitE invalidAllowance) invalidAllowance xs)
         (\<lambda>us. Inr (sort_key unitText us)))"

definition policyContentOf :: "val \<Rightarrow> exn + allowancePolicyContent" where
  "policyContentOf v =
     bindE (assertExactKeys v [''authorityFact'', ''allowedUnits'', ''maxAdditionalLimit'']
       invalidAllowance) (\<lambda>_.
     bindE (uniqueSortedBudgetUnits (get v ''allowedUnits'')) (\<lambda>us.
     if us = [] then Inl invalidAllowance
     else case posSafeInt (get v ''maxAdditionalLimit'') of None \<Rightarrow> Inl invalidAllowance
       | Some n \<Rightarrow> Inr \<lparr>policyAuthority = get v ''authorityFact'', allowedUnits = us,
           maxAdditionalLimit = n\<rparr>))"

definition createAllowanceAuthorityPolicy :: "val \<Rightarrow> sha256 \<Rightarrow> exn + allowancePolicy" where
  "createAllowanceAuthorityPolicy v sha =
     bindE (snapshotCanonical invalidAllowance v) (\<lambda>s.
     bindE (policyContentOf s) (\<lambda>content.
     bindE (canonicalDigest (encPolicyContent content) sha) (\<lambda>d.
       Inr (allowancePolicyContent.extend content \<lparr>allowancePolicyDigest = d\<rparr>))))"

definition validateAllowanceAuthorityPolicy :: "val \<Rightarrow> sha256 \<Rightarrow> exn + allowancePolicy" where
  "validateAllowanceAuthorityPolicy v sha =
     (if \<not> isRecord v then Inl invalidAllowance
      else if length (keys v) \<noteq> 4 \<or> \<not> isSha256Digest (get v ''policyDigest'') then Inl invalidAllowance
      else bindE (policyContentOf (without v ''policyDigest'')) (\<lambda>content.
        bindE (canonicalDigest (encPolicyContent content) sha) (\<lambda>d.
        if Str d \<noteq> get v ''policyDigest'' then Inl invalidAllowance
        else Inr (allowancePolicyContent.extend content \<lparr>allowancePolicyDigest = d\<rparr>))))"

definition applyAdditionalAllowance ::
  "val \<Rightarrow> val \<Rightarrow> val \<Rightarrow> val \<Rightarrow> sha256 \<Rightarrow> exn + budgetLedger" where
  "applyAdditionalAllowance ledger escalation decision policy sha =
     (let e = invalidAllowance in
     bindE (snapshotCanonical e (Obj [(lit ''ledger'', ledger), (lit ''escalation'', escalation),
       (lit ''decision'', decision), (lit ''policy'', policy)])) (\<lambda>snapshot.
     bindE (assertExactKeys snapshot [''ledger'', ''escalation'', ''decision'', ''policy''] e) (\<lambda>_.
     bindE (validateLedger (get snapshot ''ledger'') e) (\<lambda>l.
     bindE (validateEscalationSnapshot (get snapshot ''escalation'') sha) (\<lambda>x.
     bindE (validateAllowanceDecision (get snapshot ''decision'') sha) (\<lambda>d.
     bindE (validateAllowanceAuthorityPolicy (get snapshot ''policy'') sha) (\<lambda>p.
     if allowanceEscalation d \<noteq> escalationDigest x then Inl (BudgetError BAllowanceMismatch)
     else if GrantAdditional \<notin> set (allowedResponses x) then Inl (BudgetError BAllowanceNotAuthorized)
     else if allowancePolicyDigest p \<noteq> escalationPolicy x then Inl (BudgetError BAllowanceNotAuthorized)
     else if canonicalSerialize (allowanceAuthority d) \<noteq> canonicalSerialize (policyAuthority p)
     then Inl (BudgetError BAllowanceAuthorityMismatch)
     else if allowanceUnit d \<notin> set (allowedUnits p) then Inl (BudgetError BAllowanceUnitNotAuthorized)
     else if additionalLimit d > maxAdditionalLimit p then Inl (BudgetError BAllowanceLimitExceeded)
     else if decisionDigest d \<in> set (appliedAllowances l) then Inl (BudgetError BDuplicateAllowance)
     else case findIndex (\<lambda>c. counterUnit c = allowanceUnit d) (counters l) of
         None \<Rightarrow> Inl (BudgetError BBudgetNotConfigured)
       | Some i \<Rightarrow>
           let c = counters l ! i in
           if additionalLimit d > maxSafe - counterLimit c then Inl (BudgetError BBudgetOverflow)
           else Inr \<lparr>counters = (counters l)[i := \<lparr>counterUnit = counterUnit c,
                    counterLimit = counterLimit c + additionalLimit d, counterUsed = counterUsed c\<rparr>],
                  appliedAllowances = sort (appliedAllowances l @ [decisionDigest d])\<rparr>)))))))"

end
