(* ===== verification/BudgetFacts.thy ===== *)
theory BudgetFacts
  imports Budgets
begin

text \<open>
  Facts on budgets.ts: well-formed ledgers and the codec laws of every record of the module, the
  exact effect of consumption and of an allowance, and the accounting over a whole history of
  ledger operations (\<open>ledgerStep\<close>).
\<close>

section \<open>Reading back the parts\<close>

lemma unitText_inject [simp]: "unitText u = unitText w \<longleftrightarrow> u = w"
  by (cases u; cases w) (simp_all add: unitText_def)

lemma budgetUnitOf_text [simp]: "budgetUnitOf (Str (unitText u)) = Some u"
  by (cases u) (simp_all add: budgetUnitOf_def budgetUnits_def)

lemma budgetUnitOf_eq_Some: "budgetUnitOf v = Some u \<longleftrightarrow> v = Str (unitText u)"
  by (cases v; cases u) (auto simp: budgetUnitOf_def budgetUnits_def split: if_splits)

lemma nonnegSafeInt_eq_Some: "nonnegSafeInt v = Some i \<longleftrightarrow> v = Num (Whole i) \<and> isSafe i \<and> 0 \<le> i"
  by (auto simp: nonnegSafeInt_def split: val.splits number.splits if_splits)

lemma nonnegSafeInt_Whole [simp]:
  "nonnegSafeInt (Num (Whole i)) = (if isSafe i \<and> 0 \<le> i then Some i else None)"
  by (simp add: nonnegSafeInt_def)

section \<open>Ledgers\<close>

definition okCounter :: "budgetCounter \<Rightarrow> bool" where
  "okCounter c \<longleftrightarrow> 1 \<le> counterLimit c \<and> counterLimit c \<le> maxSafe \<and>
     0 \<le> counterUsed c \<and> counterUsed c \<le> counterLimit c"

definition okLedger :: "budgetLedger \<Rightarrow> bool" where
  "okLedger l \<longleftrightarrow> list_all okCounter (counters l) \<and> distinct (map counterUnit (counters l)) \<and>
     sorted (map (unitText \<circ> counterUnit) (counters l)) \<and>
     list_all sha256Pattern (appliedAllowances l) \<and> distinct (appliedAllowances l) \<and>
     sorted (appliedAllowances l)"

lemma validateCounter_eq_Inr:
  "validateCounter e v = Inr c \<longleftrightarrow> isRecord v \<and> exactKeys v [''unit'', ''limit'', ''used''] \<and>
     get v ''unit'' = Str (unitText (counterUnit c)) \<and> get v ''limit'' = Num (Whole (counterLimit c)) \<and>
     get v ''used'' = Num (Whole (counterUsed c)) \<and> okCounter c"
  by (cases c) (auto simp: validateCounter_def bindE_eq_Inr assertExactKeys_eq_Inr budgetUnitOf_eq_Some
      posSafeInt_eq_Some nonnegSafeInt_eq_Some okCounter_def safe_bounds maxSafe_def split: option.splits)

lemma validateCounter_enc: "okCounter c \<Longrightarrow> validateCounter e (encCounter c) = Inr c"
  unfolding validateCounter_eq_Inr by (simp add: encCounter_def)

lemma sortedDigestList_eq_Inr:
  "sortedDigestList v e dup = Inr ds \<Longrightarrow> list_all sha256Pattern ds \<and> distinct ds \<and> sorted ds"
  by (auto simp: sortedDigestList_def bindE_eq_Inr uniqueBy_eq_Inr list_all_iff digestOf_eq_Inr
      dest: mapE_in_set split: option.splits)

lemma sortedDigestList_enc:
  assumes "list_all sha256Pattern ds" "distinct ds" "sorted ds"
  shows "sortedDigestList (Arr (map Str ds)) e dup = Inr ds"
proof -
  have "uniqueBy id (digestOf e) dup (map Str ds) = Inr ds"
    by (rule uniqueBy_enc) (use assms in \<open>simp_all add: digestOf_eq_Inr list_all_iff\<close>)
  then show ?thesis using assms(3) by (simp add: sortedDigestList_def sorted_sort_id)
qed

lemma validateLedger_ok:
  assumes "validateLedger v e = Inr l"
  shows "okLedger l"
proof -
  from assms obtain xs cs ds where cs: "uniqueBy counterUnit (validateCounter e) (BudgetError BDuplicateBudget) xs = Inr cs"
    and ds: "sortedDigestList (get v ''appliedAllowanceDecisionDigests'') e (BudgetError BDuplicateAllowance) = Inr ds"
    and l: "l = \<lparr>counters = sort_key (unitText \<circ> counterUnit) cs, appliedAllowances = ds\<rparr>"
    by (auto simp: validateLedger_def bindE_eq_Inr split: option.splits)
  have "list_all okCounter cs"
    using cs by (auto simp: uniqueBy_eq_Inr list_all_iff validateCounter_eq_Inr dest!: mapE_in_set)
  with uniqueBy_sorted_ok [OF cs] sortedDigestList_eq_Inr [OF ds] show ?thesis
    by (simp add: okLedger_def l list_all_iff)
qed

lemma validateLedger_enc:
  assumes "okLedger l"
  shows "validateLedger (encLedger l) e = Inr l"
proof -
  have "uniqueBy counterUnit (validateCounter e) (BudgetError BDuplicateBudget) (map encCounter (counters l)) =
      Inr (counters l)"
    by (rule uniqueBy_enc) (use assms in \<open>auto simp: okLedger_def list_all_iff validateCounter_enc\<close>)
  moreover have "sort_key (unitText \<circ> counterUnit) (counters l) = counters l"
    using assms by (simp add: okLedger_def sort_key_id_if_sorted)
  ultimately show ?thesis using assms
    by (simp add: validateLedger_def encLedger_def sortedDigestList_enc okLedger_def)
qed

lemma encLedger_json: "okLedger l \<Longrightarrow> is_json (encLedger l)"
  by (auto simp: okLedger_def okCounter_def encLedger_def encCounter_def list_all_iff
      intro!: safe_wf simp: safe_bounds maxSafe_def)

interpretation ledgers: codec createBudgetLedger encLedger okLedger
proof
  show "createBudgetLedger v = Inr l \<Longrightarrow> okLedger l" for v l
    by (auto simp: createBudgetLedger_def bindE_eq_Inr dest: validateLedger_ok)
  show "okLedger l \<Longrightarrow> createBudgetLedger (encLedger l) = Inr l" for l
    by (simp add: createBudgetLedger_def snapshotCanonical_def encLedger_json validateLedger_enc)
qed

section \<open>Consumption\<close>

definition encConsumption :: "budgetUnit \<Rightarrow> int \<Rightarrow> val" where
  "encConsumption u n = Obj [(lit ''unit'', Str (unitText u)), (lit ''amount'', Num (Whole n))]"

lemma ledger_updates:
  "\<lparr>counterUnit = counterUnit c, counterLimit = counterLimit c, counterUsed = x\<rparr> = c\<lparr>counterUsed := x\<rparr>"
  "\<lparr>counterUnit = counterUnit c, counterLimit = x, counterUsed = counterUsed c\<rparr> = c\<lparr>counterLimit := x\<rparr>"
  "\<lparr>counters = cs, appliedAllowances = appliedAllowances l\<rparr> = l\<lparr>counters := cs\<rparr>"
  by (cases c; cases l; simp)+

lemma consumeBudget_valid:
  assumes "okLedger l" and "1 \<le> n" "n \<le> maxSafe"
  shows "consumeBudget (encLedger l) (encConsumption u n) =
    (case findIndex (\<lambda>c. counterUnit c = u) (counters l) of
       None \<Rightarrow> Inl (BudgetError BBudgetNotConfigured)
     | Some i \<Rightarrow>
         let c = counters l ! i in
         if n > counterLimit c - counterUsed c
         then Inr (Exhausted l c \<lparr>factUnit = counterUnit c, factLimit = counterLimit c,
           factUsed = counterUsed c, factRequested = n, factRemaining = counterLimit c - counterUsed c\<rparr>)
         else Inr (Consumed (l\<lparr>counters := (counters l)[i := c\<lparr>counterUsed := counterUsed c + n\<rparr>]\<rparr>)
           (c\<lparr>counterUsed := counterUsed c + n\<rparr>)))"
proof -
  have "posSafeInt (Num (Whole n)) = Some n" "wf_num (Whole n)"
    using assms by (simp_all add: posSafeInt_eq_Some safe_bounds safe_wf maxSafe_def)
  then show ?thesis
    using encLedger_json [OF assms(1)] validateLedger_enc [OF assms(1)]
    by (simp add: consumeBudget_def encConsumption_def snapshotCanonical_def Let_def
        ledger_updates split: option.splits)
qed

lemma uniqueSortedValues_ok:
  assumes "uniqueSortedValues f text dup v = Inr ys"
  shows "distinct (map text ys) \<and> sorted (map text ys) \<and> (\<forall>y\<in>set ys. \<exists>x. f x = Inr y)"
proof -
  from assms obtain xs zs where z: "uniqueBy text f dup xs = Inr zs" and ys: "ys = sort_key text zs"
    by (auto simp: uniqueSortedValues_def bindE_eq_Inr split: option.splits)
  then have "\<forall>y\<in>set zs. \<exists>x. f x = Inr y" by (auto simp: uniqueBy_eq_Inr dest: mapE_in_set)
  with uniqueBy_sorted_ok [OF z] ys show ?thesis by simp
qed

lemma uniqueSortedValues_enc:
  assumes "\<And>y. y \<in> set ys \<Longrightarrow> f (enc y) = Inr y" and "distinct (map text ys)" "sorted (map text ys)"
  shows "uniqueSortedValues f text dup (Arr (map enc ys)) = Inr ys"
proof -
  have "uniqueBy text f dup (map enc ys) = Inr ys" by (rule uniqueBy_enc) (use assms in auto)
  then show ?thesis using assms(3) by (simp add: uniqueSortedValues_def sort_key_id_if_sorted)
qed

section \<open>Escalations\<close>

fun okOwner :: "escalationOwner \<Rightarrow> bool" where
  "okOwner (PhaseOwner i g d) \<longleftrightarrow> isIdentity PhaseKind (Str i) \<and> isSafe g \<and> 1 \<le> g \<and> sha256Pattern d"
| "okOwner (TaskOwner i g d) \<longleftrightarrow> isIdentity TaskKind (Str i) \<and> isSafe g \<and> 1 \<le> g \<and> sha256Pattern d"

definition okFact :: "exhaustedFact \<Rightarrow> bool" where
  "okFact f \<longleftrightarrow> 1 \<le> factLimit f \<and> factLimit f \<le> maxSafe \<and> 0 \<le> factUsed f \<and> factUsed f \<le> factLimit f \<and>
     1 \<le> factRequested f \<and> factRequested f \<le> maxSafe \<and> factRemaining f = factLimit f - factUsed f \<and>
     factRemaining f < factRequested f"

fun okTrigger :: "escalationTrigger \<Rightarrow> bool" where
  "okTrigger BlockedTrigger \<longleftrightarrow> True"
| "okTrigger (BudgetTrigger f) \<longleftrightarrow> okFact f"

definition okAttempts :: "attemptFact list \<Rightarrow> bool" where
  "okAttempts fs \<longleftrightarrow> (\<forall>f\<in>set fs. 1 \<le> attemptOrdinal f \<and> attemptOrdinal f \<le> maxSafe \<and> sha256Pattern (attemptDigest f)) \<and>
     distinct (map attemptKey fs) \<and> distinct (map attemptDigest fs) \<and>
     sorted (map (\<lambda>f. (unitText (attemptUnit f), attemptOrdinal f)) fs)"

definition okStrings :: "(jstr \<Rightarrow> bool) \<Rightarrow> jstr list \<Rightarrow> bool" where
  "okStrings P xs \<longleftrightarrow> list_all P xs \<and> distinct xs \<and> sorted xs"

definition okEscalationContent :: "'a escalationContent_scheme \<Rightarrow> bool" where
  "okEscalationContent x \<longleftrightarrow> isIdentity EscalationKind (Str (escalationId x)) \<and> okOwner (owner x) \<and>
     okTrigger (trigger x) \<and> sha256Pattern (contextDigest x) \<and> sha256Pattern (candidateDigest x) \<and>
     sha256Pattern (escalationPolicy x) \<and> timestampPattern (timestamp x) \<and>
     okStrings (\<lambda>i. isIdentity CriterionKind (Str i)) (unresolvedCriteria x) \<and>
     okStrings sha256Pattern (failedReadings x) \<and> okStrings sha256Pattern (unknownReadings x) \<and>
     set (failedReadings x) \<inter> set (unknownReadings x) = {} \<and> okAttempts (attemptFacts x) \<and>
     allowedResponses x \<noteq> [] \<and> distinct (map responseText (allowedResponses x)) \<and>
     sorted (map responseText (allowedResponses x))"

definition okEscalation :: "sha256 \<Rightarrow> escalation \<Rightarrow> bool" where
  "okEscalation sha x \<longleftrightarrow> okEscalationContent x \<and>
     canonicalDigest (encEscalationContent x) sha = Inr (escalationDigest x)"

lemma ownerOf_ok: "ownerOf v = Inr x \<Longrightarrow> okOwner x"
  by (auto simp: ownerOf_def Let_def bindE_eq_Inr strIf_eq_Inr generationOf_eq_Inr digestOf_eq_Inr
      split: if_splits)

lemma ownerOf_enc: "okOwner x \<Longrightarrow> ownerOf (encOwner x) = Inr x"
  by (cases x) (simp_all add: ownerOf_def Let_def bindE_eq_Inr strIf_eq_Inr generationOf_eq_Inr
      digestOf_eq_Inr)

lemma exhaustedFactOf_ok: "exhaustedFactOf v = Inr f \<Longrightarrow> okFact f"
  by (auto simp: exhaustedFactOf_def bindE_eq_Inr posSafeInt_eq_Some nonnegSafeInt_eq_Some okFact_def
      safe_bounds split: option.splits if_splits)

lemma exhaustedFactOf_enc: "okFact f \<Longrightarrow> exhaustedFactOf (encFact f) = Inr f"
  by (cases f) (simp add: exhaustedFactOf_def encFact_def okFact_def safe_bounds maxSafe_def)

lemma triggerOf_ok: "triggerOf v = Inr x \<Longrightarrow> okTrigger x"
  by (auto simp: triggerOf_def bindE_eq_Inr dest: exhaustedFactOf_ok split: if_splits)

lemma triggerOf_enc: "okTrigger x \<Longrightarrow> triggerOf (encTrigger x) = Inr x"
  by (cases x) (simp_all add: triggerOf_def exhaustedFactOf_enc)

lemma attemptFactOf_ok:
  "attemptFactOf v = Inr f \<Longrightarrow> 1 \<le> attemptOrdinal f \<and> attemptOrdinal f \<le> maxSafe \<and> sha256Pattern (attemptDigest f)"
  by (auto simp: attemptFactOf_def bindE_eq_Inr posSafeInt_eq_Some safe_bounds
      split: option.splits val.splits if_splits)

lemma attemptFactOf_enc:
  "1 \<le> attemptOrdinal f \<Longrightarrow> attemptOrdinal f \<le> maxSafe \<Longrightarrow> sha256Pattern (attemptDigest f) \<Longrightarrow>
     attemptFactOf (encAttempt f) = Inr f"
  by (cases f) (simp add: attemptFactOf_def encAttempt_def safe_bounds maxSafe_def)

lemma clash_distinct:
  "sorted_wrt (\<lambda>a b. k a \<noteq> k b \<and> d a \<noteq> d b) ys \<longleftrightarrow> distinct (map k ys) \<and> distinct (map d ys)"
  by (induction ys) (auto simp: image_iff)

lemma validateAttemptFacts_ok:
  assumes "validateAttemptFacts v = Inr fs"
  shows "okAttempts fs"
proof -
  let ?k = "\<lambda>f. (unitText (attemptUnit f), attemptOrdinal f)"
  from assms obtain xs gs where g: "mapE attemptFactOf xs = Inr gs" "distinct (map attemptKey gs)"
      "distinct (map attemptDigest gs)" and fs: "fs = sort_key ?k gs"
    by (auto simp: validateAttemptFacts_def bindE_eq_Inr uniqueE_eq_Inr clash_distinct split: option.splits)
  have "mset (map attemptKey fs) = mset (map attemptKey gs)" "mset (map attemptDigest fs) = mset (map attemptDigest gs)"
    by (simp_all add: fs)
  then have "distinct (map attemptKey fs)" "distinct (map attemptDigest fs)"
    using g(2,3) by (metis mset_eq_imp_distinct_iff)+
  moreover have "\<forall>f\<in>set fs. 1 \<le> attemptOrdinal f \<and> attemptOrdinal f \<le> maxSafe \<and> sha256Pattern (attemptDigest f)"
    using g(1) attemptFactOf_ok by (auto simp: fs dest!: mapE_in_set)
  ultimately show ?thesis by (simp add: okAttempts_def fs)
qed

lemma validateAttemptFacts_enc:
  assumes "okAttempts fs"
  shows "validateAttemptFacts (Arr (map encAttempt fs)) = Inr fs"
proof -
  have "mapE attemptFactOf (map encAttempt fs) = Inr fs"
    using assms by (auto simp: mapE_eq_Inr list_all2_conv_all_nth okAttempts_def attemptFactOf_enc)
  then show ?thesis using assms
    by (simp add: validateAttemptFacts_def bindE_eq_Inr uniqueE_eq_Inr clash_distinct okAttempts_def
        sort_key_id_if_sorted)
qed

lemma responseText_inject [simp]: "responseText r = responseText s \<longleftrightarrow> r = s"
  by (cases r; cases s) (simp_all add: responseText_def)

lemma escalationResponseOf_text [simp]: "escalationResponseOf (Str (responseText r)) = Inr r"
  by (cases r) (simp_all add: escalationResponseOf_def escalationResponses_def)

lemma okStrings_dec:
  assumes "uniqueSortedValues f id dup v = Inr xs" and "\<And>v x. f v = Inr x \<Longrightarrow> P x"
  shows "okStrings P xs"
  using uniqueSortedValues_ok [OF assms(1)] assms(2) by (auto simp: okStrings_def list_all_iff)

lemma okStrings_enc:
  assumes "okStrings P xs" and "\<And>x. P x \<Longrightarrow> f (Str x) = Inr x"
  shows "uniqueSortedValues f id dup (Arr (map Str xs)) = Inr xs"
  by (rule uniqueSortedValues_enc) (use assms in \<open>auto simp: okStrings_def list_all_iff\<close>)

lemma escalationContentOf_ok:
  assumes "escalationContentOf v = Inr x"
  shows "okEscalationContent x"
proof -
  from assms obtain eid own trig ctx cand pol ts crit failed unknown facts responses where
    parts: "strIf (isIdentity EscalationKind) invalidEscalation (get v ''escalationId'') = Inr eid"
      "ownerOf (get v ''owner'') = Inr own" "triggerOf (get v ''trigger'') = Inr trig"
      "digestOf invalidEscalation (get v ''contextDigest'') = Inr ctx"
      "digestOf invalidEscalation (get v ''candidateDigest'') = Inr cand"
      "digestOf invalidEscalation (get v ''policyDigest'') = Inr pol"
      "strIf isTimestamp invalidEscalation (get v ''timestamp'') = Inr ts"
    and crit: "uniqueSortedValues (strIf (isIdentity CriterionKind) invalidEscalation) id
       (BudgetError BDuplicateCriterion) (get v ''unresolvedCriterionIds'') = Inr crit"
    and failed: "digestList (get v ''failedReadingDigests'') = Inr failed"
    and unknown: "digestList (get v ''unknownReadingDigests'') = Inr unknown"
    and apart: "\<not> list_ex (\<lambda>d. d \<in> set failed) unknown"
    and facts: "validateAttemptFacts (get v ''attemptFacts'') = Inr facts"
    and resp: "uniqueSortedValues escalationResponseOf responseText
       (BudgetError BDuplicateAllowedResponse) (get v ''allowedResponses'') = Inr responses" "responses \<noteq> []"
    and x: "x = \<lparr>escalationId = eid, owner = own, trigger = trig, contextDigest = ctx,
       candidateDigest = cand, escalationPolicy = pol, unresolvedCriteria = crit,
       failedReadings = failed, unknownReadings = unknown, attemptFacts = facts,
       allowedResponses = responses, timestamp = ts\<rparr>"
    unfolding escalationContentOf_def Let_def bindE_eq_Inr if_Inl_eq_Inr by blast
  have "okStrings sha256Pattern failed" "okStrings sha256Pattern unknown"
    using failed unknown unfolding digestList_def by (auto elim!: okStrings_dec simp: digestOf_eq_Inr)
  moreover have "okStrings (\<lambda>i. isIdentity CriterionKind (Str i)) crit"
    by (rule okStrings_dec [OF crit]) (simp add: strIf_eq_Inr)
  ultimately show ?thesis
    using parts apart ownerOf_ok [OF parts(2)] triggerOf_ok [OF parts(3)] validateAttemptFacts_ok [OF facts]
      uniqueSortedValues_ok [OF resp(1)] resp(2)
    by (auto simp: okEscalationContent_def x strIf_eq_Inr digestOf_eq_Inr isTimestamp_iff list_ex_iff)
qed

lemma escalationContentOf_enc:
  assumes "okEscalationContent x"
  shows "escalationContentOf (encEscalationContent x) = Inr (escalationContent.truncate x)"
proof -
  have "digestList (Arr (map Str xs)) = Inr xs" if "okStrings sha256Pattern xs" for xs
    unfolding digestList_def by (rule okStrings_enc [OF that]) (simp add: digestOf_eq_Inr)
  moreover have "uniqueSortedValues (strIf (isIdentity CriterionKind) invalidEscalation) id
       (BudgetError BDuplicateCriterion) (Arr (map Str (unresolvedCriteria x))) = Inr (unresolvedCriteria x)"
    by (rule okStrings_enc) (use assms in \<open>auto simp: okEscalationContent_def strIf_eq_Inr\<close>)
  moreover have "uniqueSortedValues escalationResponseOf responseText (BudgetError BDuplicateAllowedResponse)
      (Arr (map (Str \<circ> responseText) (allowedResponses x))) = Inr (allowedResponses x)"
    by (rule uniqueSortedValues_enc) (use assms in \<open>auto simp: okEscalationContent_def\<close>)
  moreover have "\<not> list_ex (\<lambda>d. d \<in> set (failedReadings x)) (unknownReadings x)"
    using assms by (auto simp: okEscalationContent_def list_ex_iff)
  ultimately show ?thesis using assms
    by (simp add: escalationContentOf_def Let_def encEscalationContent_def okEscalationContent_def
        bindE_eq_Inr strIf_eq_Inr digestOf_eq_Inr isTimestamp_iff ownerOf_enc triggerOf_enc
        validateAttemptFacts_enc escalationContent.defs)
qed

lemma encEscalationContent_json: "okEscalationContent x \<Longrightarrow> is_json (encEscalationContent x)"
proof -
  assume ok: "okEscalationContent x"
  have w: "wf_num (Whole i)" if "\<bar>i\<bar> \<le> maxSafe" for i using that by (intro safe_wf) (simp add: isSafe_def)
  have "is_json (encOwner (owner x))"
    using ok by (cases "owner x") (auto simp: okEscalationContent_def isSafe_def intro!: w)
  moreover have "is_json (encTrigger (trigger x))"
    using ok by (cases "trigger x") (auto simp: okEscalationContent_def okFact_def encFact_def intro!: w)
  moreover have "\<forall>f\<in>set (attemptFacts x). is_json (encAttempt f)"
    using ok by (auto simp: okEscalationContent_def okAttempts_def encAttempt_def intro!: w)
  ultimately show ?thesis by (simp add: encEscalationContent_def list_all_iff)
qed

lemma escalation_extend [simp]:
  "okEscalationContent (escalationContent.extend c z) = okEscalationContent c"
  "encEscalationContent (escalationContent.extend c z) = encEscalationContent c"
  "okEscalationContent (escalationContent.truncate x) = okEscalationContent x"
  "encEscalationContent (escalationContent.truncate x) = encEscalationContent x"
  "escalationDigest (escalationContent.extend c \<lparr>escalationDigest = d\<rparr>) = d"
  "escalationContent.extend (escalationContent.truncate e) \<lparr>escalationDigest = escalationDigest e\<rparr> = e"
  by (simp_all add: okEscalationContent_def encEscalationContent_def escalationContent.defs)

lemma encEscalation_parts:
  "isRecord (encEscalation x)" "length (keys (encEscalation x)) = 13"
  "get (encEscalation x) ''escalationDigest'' = Str (escalationDigest x)"
  "without (encEscalation x) ''escalationDigest'' = encEscalationContent x"
  by (simp_all add: encEscalation_def encEscalationContent_def)

lemma validateEscalationSnapshot_ok:
  assumes "validateEscalationSnapshot v sha = Inr x" shows "okEscalation sha x"
proof -
  from assms obtain c d where c: "escalationContentOf (without v ''escalationDigest'') = Inr c"
    and d: "canonicalDigest (encEscalationContent c) sha = Inr d"
      "x = escalationContent.extend c \<lparr>escalationDigest = d\<rparr>"
    by (auto simp: validateEscalationSnapshot_def bindE_eq_Inr split: if_splits)
  with escalationContentOf_ok [OF c] show ?thesis by (simp add: okEscalation_def)
qed

lemma validateEscalationSnapshot_enc:
  assumes "okEscalation sha x" shows "validateEscalationSnapshot (encEscalation x) sha = Inr x"
  using assms by (auto simp: validateEscalationSnapshot_def encEscalation_parts okEscalation_def
      escalationContentOf_enc dest: canonicalDigest_pattern)

lemma encEscalation_json: "okEscalationContent x \<Longrightarrow> is_json (encEscalation x)"
  using encEscalationContent_json [of x] by (simp add: encEscalation_def encEscalationContent_def)

interpretation escalations: sealed "\<lambda>v. validateEscalation v sha" encEscalation "okEscalation sha"
  "\<lambda>v. createEscalation v sha" encEscalationContent escalationDigest sha for sha
proof
  show "validateEscalation v sha = Inr x \<Longrightarrow> okEscalation sha x" for v x
    by (auto simp: validateEscalation_def bindE_eq_Inr intro: validateEscalationSnapshot_ok)
  show "okEscalation sha x \<Longrightarrow> validateEscalation (encEscalation x) sha = Inr x" for x
    using validateEscalationSnapshot_enc [of sha x] encEscalation_json [of x]
    by (simp add: validateEscalation_def snapshotCanonical_def okEscalation_def)
  show "createEscalation v sha = Inr x \<Longrightarrow> okEscalation sha x" for v x
    by (auto simp: createEscalation_def bindE_eq_Inr okEscalation_def dest: escalationContentOf_ok)
  show "okEscalation sha x \<Longrightarrow> canonicalDigest (encEscalationContent x) sha = Inr (escalationDigest x)" for x
    by (simp add: okEscalation_def)
qed

section \<open>Allowance decisions and policies\<close>

definition okAllowance :: "sha256 \<Rightarrow> allowanceDecision \<Rightarrow> bool" where
  "okAllowance sha a \<longleftrightarrow> sha256Pattern (allowanceEscalation a) \<and> 1 \<le> additionalLimit a \<and>
     additionalLimit a \<le> maxSafe \<and> is_json (allowanceAuthority a) \<and>
     canonicalDigest (encAllowanceContent a) sha = Inr (decisionDigest a)"

definition okPolicy :: "sha256 \<Rightarrow> allowancePolicy \<Rightarrow> bool" where
  "okPolicy sha p \<longleftrightarrow> is_json (policyAuthority p) \<and> allowedUnits p \<noteq> [] \<and> distinct (allowedUnits p) \<and>
     sorted (map unitText (allowedUnits p)) \<and> 1 \<le> maxAdditionalLimit p \<and> maxAdditionalLimit p \<le> maxSafe \<and>
     canonicalDigest (encPolicyContent p) sha = Inr (allowancePolicyDigest p)"

lemma allowance_extend [simp]:
  "encAllowanceContent (allowanceContent.extend c z) = encAllowanceContent c"
  "encAllowanceContent (allowanceContent.truncate a) = encAllowanceContent a"
  "allowanceContent.extend (allowanceContent.truncate a) \<lparr>decisionDigest = decisionDigest a\<rparr> = a"
  "encPolicyContent (allowancePolicyContent.extend p y) = encPolicyContent p"
  "encPolicyContent (allowancePolicyContent.truncate q) = encPolicyContent q"
  "allowancePolicyContent.extend (allowancePolicyContent.truncate q)
     \<lparr>allowancePolicyDigest = allowancePolicyDigest q\<rparr> = q"
  by (simp_all add: encAllowanceContent_def encPolicyContent_def allowanceContent.defs
      allowancePolicyContent.defs)

lemma encAllowance_parts:
  "isRecord (encAllowance a)" "length (keys (encAllowance a)) = 5"
  "get (encAllowance a) ''decisionDigest'' = Str (decisionDigest a)"
  "without (encAllowance a) ''decisionDigest'' = encAllowanceContent a"
  "isRecord (encPolicy p)" "length (keys (encPolicy p)) = 4"
  "get (encPolicy p) ''policyDigest'' = Str (allowancePolicyDigest p)"
  "without (encPolicy p) ''policyDigest'' = encPolicyContent p"
  by (simp_all add: encAllowance_def encAllowanceContent_def encPolicy_def encPolicyContent_def)

lemma allowanceContentOf_ok:
  assumes "allowanceContentOf v = Inr a" and "is_json v"
  shows "sha256Pattern (allowanceEscalation a) \<and> 1 \<le> additionalLimit a \<and> additionalLimit a \<le> maxSafe \<and>
    is_json (allowanceAuthority a)"
proof -
  from assms(1) obtain d u n where k: "exactKeys v [''escalationDigest'', ''unit'', ''additionalLimit'', ''authorityFact'']"
    and d: "digestOf invalidAllowance (get v ''escalationDigest'') = Inr d"
    and n: "posSafeInt (get v ''additionalLimit'') = Some n"
    and a: "a = \<lparr>allowanceEscalation = d, allowanceUnit = u, additionalLimit = n,
         allowanceAuthority = get v ''authorityFact''\<rparr>"
    by (cases "budgetUnitOf (get v ''unit'')"; cases "posSafeInt (get v ''additionalLimit'')")
      (auto simp: allowanceContentOf_def bindE_eq_Inr assertExactKeys_eq_Inr)
  have "is_json (get v ''authorityFact'')" by (rule exactKeys_field_json [OF k assms(2)]) simp
  with d n show ?thesis by (simp add: a digestOf_eq_Inr posSafeInt_eq_Some safe_bounds)
qed

lemma allowanceContentOf_enc:
  "okAllowance sha a \<Longrightarrow> allowanceContentOf (encAllowanceContent a) = Inr (allowanceContent.truncate a)"
  by (simp add: allowanceContentOf_def encAllowanceContent_def okAllowance_def digestOf_def safe_bounds
      maxSafe_def allowanceContent.defs)

lemma validateAllowanceDecision_ok:
  assumes "validateAllowanceDecision v sha = Inr a" and "is_json v"
  shows "okAllowance sha a"
proof -
  from assms(1) obtain c d where c: "allowanceContentOf (without v ''decisionDigest'') = Inr c"
    and d: "canonicalDigest (encAllowanceContent c) sha = Inr d"
      "a = allowanceContent.extend c \<lparr>decisionDigest = d\<rparr>"
    by (auto simp: validateAllowanceDecision_def bindE_eq_Inr split: if_splits)
  with allowanceContentOf_ok [OF c is_json_without [OF assms(2)]] show ?thesis
    by (simp add: okAllowance_def) (simp add: allowanceContent.defs)
qed

lemma validateAllowanceDecision_enc:
  "okAllowance sha a \<Longrightarrow> validateAllowanceDecision (encAllowance a) sha = Inr a"
  by (simp add: validateAllowanceDecision_def encAllowance_parts allowanceContentOf_enc)
    (auto simp: okAllowance_def dest: canonicalDigest_pattern)

lemma encAllowance_json: "okAllowance sha a \<Longrightarrow> is_json (encAllowance a)"
  by (auto simp: okAllowance_def encAllowance_def encAllowanceContent_def isSafe_def intro!: safe_wf)

interpretation allowances: codec
  "\<lambda>v. bindE (snapshotCanonical invalidAllowance v) (\<lambda>s. validateAllowanceDecision s sha)"
  encAllowance "okAllowance sha" for sha
proof
  show "bindE (snapshotCanonical invalidAllowance v) (\<lambda>s. validateAllowanceDecision s sha) = Inr a \<Longrightarrow>
      okAllowance sha a" for v a
    by (auto simp: bindE_eq_Inr snapshotCanonical_eq_Inr intro: validateAllowanceDecision_ok)
  show "okAllowance sha a \<Longrightarrow>
      bindE (snapshotCanonical invalidAllowance (encAllowance a)) (\<lambda>s. validateAllowanceDecision s sha) = Inr a" for a
    by (simp add: snapshotCanonical_def encAllowance_json validateAllowanceDecision_enc)
qed

lemma policyContentOf_ok:
  assumes "policyContentOf v = Inr p" and "is_json v"
  shows "is_json (policyAuthority p) \<and> allowedUnits p \<noteq> [] \<and> distinct (allowedUnits p) \<and>
    sorted (map unitText (allowedUnits p)) \<and> 1 \<le> maxAdditionalLimit p \<and> maxAdditionalLimit p \<le> maxSafe"
proof -
  from assms(1) obtain us n where k: "exactKeys v [''authorityFact'', ''allowedUnits'', ''maxAdditionalLimit'']"
    and us: "uniqueSortedBudgetUnits (get v ''allowedUnits'') = Inr us" "us \<noteq> []"
    and n: "posSafeInt (get v ''maxAdditionalLimit'') = Some n"
    and p: "p = \<lparr>policyAuthority = get v ''authorityFact'', allowedUnits = us, maxAdditionalLimit = n\<rparr>"
    by (auto simp: policyContentOf_def bindE_eq_Inr assertExactKeys_eq_Inr split: if_splits option.splits)
  from us(1) obtain xs ws where w: "uniqueBy id (budgetUnitE invalidAllowance) invalidAllowance xs = Inr ws"
      "us = sort_key unitText ws"
    by (auto simp: uniqueSortedBudgetUnits_def bindE_eq_Inr split: option.splits)
  have "is_json (get v ''authorityFact'')" by (rule exactKeys_field_json [OF k assms(2)]) simp
  then show ?thesis using uniqueBy_sorted_ok [OF w(1), of unitText] w(2) us(2) n
    by (simp add: p posSafeInt_eq_Some safe_bounds)
qed

lemma policyContentOf_enc:
  assumes "okPolicy sha p"
  shows "policyContentOf (encPolicyContent p) = Inr (allowancePolicyContent.truncate p)"
proof -
  have "uniqueBy id (budgetUnitE invalidAllowance) invalidAllowance (map (Str \<circ> unitText) (allowedUnits p)) =
      Inr (allowedUnits p)"
    by (rule uniqueBy_enc) (use assms in \<open>simp_all add: budgetUnitE_def okPolicy_def\<close>)
  then show ?thesis using assms
    by (simp add: policyContentOf_def encPolicyContent_def okPolicy_def uniqueSortedBudgetUnits_def
        sort_key_id_if_sorted safe_bounds maxSafe_def allowancePolicyContent.defs)
qed

lemma validatePolicy_ok:
  assumes "validateAllowanceAuthorityPolicy v sha = Inr p" and "is_json v"
  shows "okPolicy sha p"
proof -
  from assms(1) obtain c d where c: "policyContentOf (without v ''policyDigest'') = Inr c"
    and d: "canonicalDigest (encPolicyContent c) sha = Inr d"
      "p = allowancePolicyContent.extend c \<lparr>allowancePolicyDigest = d\<rparr>"
    by (auto simp: validateAllowanceAuthorityPolicy_def bindE_eq_Inr split: if_splits)
  with policyContentOf_ok [OF c is_json_without [OF assms(2)]] show ?thesis
    by (simp add: okPolicy_def) (simp add: allowancePolicyContent.defs)
qed

lemma validatePolicy_enc:
  "okPolicy sha p \<Longrightarrow> validateAllowanceAuthorityPolicy (encPolicy p) sha = Inr p"
  by (simp add: validateAllowanceAuthorityPolicy_def encAllowance_parts policyContentOf_enc)
    (auto simp: okPolicy_def dest: canonicalDigest_pattern)

lemma encPolicy_json: "okPolicy sha p \<Longrightarrow> is_json (encPolicy p)"
  by (auto simp: okPolicy_def encPolicy_def encPolicyContent_def isSafe_def list_all_iff intro!: safe_wf)

end
