(* ===== verification/BudgetHistory.thy ===== *)
theory BudgetHistory
  imports BudgetFacts
begin

text \<open>
  Accounting over budgets.ts: a ledger seen as a map from units to counters (\<open>accounts\<close>), each
  operation as an update of that map, and the invariants of whole histories of operations.
\<close>

definition accounts :: "budgetLedger \<Rightarrow> budgetUnit \<Rightarrow> budgetCounter option" where
  "accounts l = keyed counterUnit (counters l)"

definition usedOf :: "budgetLedger \<Rightarrow> budgetUnit \<Rightarrow> int" where
  "usedOf l u = (case accounts l u of None \<Rightarrow> 0 | Some c \<Rightarrow> counterUsed c)"

definition limitOf :: "budgetLedger \<Rightarrow> budgetUnit \<Rightarrow> int" where
  "limitOf l u = (case accounts l u of None \<Rightarrow> 0 | Some c \<Rightarrow> counterLimit c)"

lemma accounts_ok: "okLedger l \<Longrightarrow> accounts l u = Some c \<Longrightarrow> okCounter c \<and> counterUnit c = u"
  by (auto simp: accounts_def okLedger_def list_all_iff dest: keyed_Some)

text \<open>Replacing the counter of one unit keeps the ledger well-formed and updates the map.\<close>

lemma update_counter:
  assumes ok: "okLedger l" and i: "findIndex (\<lambda>c. counterUnit c = u) (counters l) = Some i"
    and c: "okCounter c" "counterUnit c = u"
  shows "okLedger (l\<lparr>counters := (counters l)[i := c]\<rparr>)"
    and "accounts (l\<lparr>counters := (counters l)[i := c]\<rparr>) = (accounts l)(u \<mapsto> c)"
proof -
  have i': "i < length (counters l)" "counterUnit (counters l ! i) = u"
    using findIndex_Some [OF i] by auto
  have units: "map counterUnit ((counters l)[i := c]) = map counterUnit (counters l)"
    using i' c(2) by (metis list_update_id map_update)
  then have texts: "map (unitText \<circ> counterUnit) ((counters l)[i := c]) = map (unitText \<circ> counterUnit) (counters l)"
    by (metis map_map)
  have "list_all okCounter ((counters l)[i := c])"
    using ok c(1) set_update_subset_insert [of "counters l" i c] by (auto simp: okLedger_def list_all_iff)
  with units texts ok show "okLedger (l\<lparr>counters := (counters l)[i := c]\<rparr>)"
    by (simp add: okLedger_def)
  show "accounts (l\<lparr>counters := (counters l)[i := c]\<rparr>) = (accounts l)(u \<mapsto> c)"
    using keyed_update [of counterUnit "counters l" i c] ok i' c(2)
    by (simp add: accounts_def okLedger_def)
qed

text \<open>Consumption on the account map.\<close>

lemma consumeBudget_cases:
  assumes ok: "okLedger l" and n: "1 \<le> n" "n \<le> maxSafe"
  shows "case consumeBudget (encLedger l) (encConsumption u n) of
     Inl e \<Rightarrow> e = BudgetError BBudgetNotConfigured \<and> accounts l u = None
   | Inr (Exhausted l' c f) \<Rightarrow> l' = l \<and> accounts l u = Some c \<and> counterLimit c < counterUsed c + n \<and>
       okFact f \<and> f = \<lparr>factUnit = u, factLimit = counterLimit c, factUsed = counterUsed c,
         factRequested = n, factRemaining = counterLimit c - counterUsed c\<rparr>
   | Inr (Consumed l' c') \<Rightarrow> \<exists>c. accounts l u = Some c \<and> counterUsed c + n \<le> counterLimit c \<and>
       c' = c\<lparr>counterUsed := counterUsed c + n\<rparr> \<and> accounts l' = (accounts l)(u \<mapsto> c') \<and>
       appliedAllowances l' = appliedAllowances l \<and> okLedger l'"
proof (cases "findIndex (\<lambda>c. counterUnit c = u) (counters l)")
  case None
  moreover from None have "accounts l u = None"
    by (simp add: accounts_def findIndex_keyed_None [symmetric])
  ultimately show ?thesis by (simp add: consumeBudget_valid [OF assms])
next
  case (Some i)
  define c where "c = counters l ! i"
  have acc: "accounts l u = Some c" using findIndex_keyed [OF Some] by (simp add: accounts_def c_def)
  have okc: "okCounter c" "counterUnit c = u" using accounts_ok [OF ok acc] by auto
  show ?thesis
  proof (cases "n > counterLimit c - counterUsed c")
    case True
    then show ?thesis using Some acc okc n
      by (simp add: consumeBudget_valid [OF assms] c_def [symmetric] okFact_def okCounter_def)
  next
    case False
    let ?c = "c\<lparr>counterUsed := counterUsed c + n\<rparr>"
    have "okCounter ?c" "counterUnit ?c = u" using okc n False by (auto simp: okCounter_def)
    from update_counter [OF ok Some this] show ?thesis using Some acc False
      by (simp add: consumeBudget_valid [OF assms] c_def [symmetric])
  qed
qed

text \<open>An allowance: what an accepted application has checked, and its effect.\<close>

lemma applyAllowance_inv:
  assumes ok: "okLedger l" and d: "okAllowance sha d"
    and app: "applyAdditionalAllowance (encLedger l) xv (encAllowance d) pv sha = Inr l'"
  obtains x p c where "validateEscalation xv sha = Inr x" and "is_json pv"
    and "validateAllowanceAuthorityPolicy pv sha = Inr p"
    and "allowanceEscalation d = escalationDigest x" "GrantAdditional \<in> set (allowedResponses x)"
      "allowancePolicyDigest p = escalationPolicy x" "allowanceUnit d \<in> set (allowedUnits p)"
      "additionalLimit d \<le> maxAdditionalLimit p" "decisionDigest d \<notin> set (appliedAllowances l)"
    and "accounts l (allowanceUnit d) = Some c"
    and "accounts l' = (accounts l)(allowanceUnit d \<mapsto> c\<lparr>counterLimit := counterLimit c + additionalLimit d\<rparr>)"
    and "set (appliedAllowances l') = insert (decisionDigest d) (set (appliedAllowances l))" and "okLedger l'"
proof -
  let ?snap = "Obj [(lit ''ledger'', encLedger l), (lit ''escalation'', xv),
       (lit ''decision'', encAllowance d), (lit ''policy'', pv)]"
  have j: "is_json xv" "is_json pv"
    using app by (auto simp: applyAdditionalAllowance_def Let_def bindE_eq_Inr snapshotCanonical_eq_Inr)
  obtain x p i where x: "validateEscalationSnapshot xv sha = Inr x"
    and p: "validateAllowanceAuthorityPolicy pv sha = Inr p"
    and guards: "allowanceEscalation d = escalationDigest x" "GrantAdditional \<in> set (allowedResponses x)"
      "allowancePolicyDigest p = escalationPolicy x" "allowanceUnit d \<in> set (allowedUnits p)"
      "additionalLimit d \<le> maxAdditionalLimit p" "decisionDigest d \<notin> set (appliedAllowances l)"
    and i: "findIndex (\<lambda>c. counterUnit c = allowanceUnit d) (counters l) = Some i"
    and safe: "additionalLimit d \<le> maxSafe - counterLimit (counters l ! i)"
    and l': "l' = \<lparr>counters = (counters l)[i := (counters l ! i)\<lparr>counterLimit :=
        counterLimit (counters l ! i) + additionalLimit d\<rparr>],
        appliedAllowances = sort (appliedAllowances l @ [decisionDigest d])\<rparr>"
    using app
    by (auto simp: applyAdditionalAllowance_def Let_def bindE_eq_Inr snapshotCanonical_eq_Inr
        validateLedger_enc [OF ok] validateAllowanceDecision_enc [OF d] ledger_updates
        not_le not_less split: if_splits option.splits)
  define c where "c = counters l ! i"
  have acc: "accounts l (allowanceUnit d) = Some c" using findIndex_keyed [OF i] by (simp add: accounts_def c_def)
  have okc: "okCounter c" "counterUnit c = allowanceUnit d" using accounts_ok [OF ok acc] by auto
  let ?c = "c\<lparr>counterLimit := counterLimit c + additionalLimit d\<rparr>"
  have "okCounter ?c" "counterUnit ?c = allowanceUnit d"
    using okc safe d by (auto simp: okCounter_def c_def okAllowance_def)
  note upd = update_counter [OF ok i this]
  have l'': "l' = l\<lparr>counters := (counters l)[i := ?c], appliedAllowances := sort (appliedAllowances l @ [decisionDigest d])\<rparr>"
    by (cases l) (simp add: l' c_def)
  have dig: "sha256Pattern (decisionDigest d)" using d by (auto simp: okAllowance_def dest: canonicalDigest_pattern)
  have "okLedger l'" using upd(1) guards(6) dig ok
    by (auto simp: l'' okLedger_def list_all_iff sorted_insort)
  moreover have "accounts l' = (accounts l)(allowanceUnit d \<mapsto> ?c)"
    using upd(2) by (simp add: l'' accounts_def)
  moreover have "validateEscalation xv sha = Inr x"
    using x j by (simp add: validateEscalation_def snapshotCanonical_def)
  ultimately show thesis using that [of x p c] p j guards acc by (simp add: l'')
qed

section \<open>Histories\<close>

datatype ledgerEvent = Spend budgetUnit int | Refuse exhaustedFact | Grant budgetUnit int jstr

inductive ledgerStep :: "sha256 \<Rightarrow> budgetLedger \<Rightarrow> ledgerEvent \<Rightarrow> budgetLedger \<Rightarrow> bool" for sha where
  spend: "1 \<le> n \<Longrightarrow> n \<le> maxSafe \<Longrightarrow>
    consumeBudget (encLedger l) (encConsumption u n) = Inr (Consumed l' c) \<Longrightarrow> ledgerStep sha l (Spend u n) l'"
| refuse: "1 \<le> n \<Longrightarrow> n \<le> maxSafe \<Longrightarrow>
    consumeBudget (encLedger l) (encConsumption u n) = Inr (Exhausted l' c f) \<Longrightarrow> ledgerStep sha l (Refuse f) l'"
| grant: "okAllowance sha d \<Longrightarrow>
    applyAdditionalAllowance (encLedger l) x (encAllowance d) p sha = Inr l' \<Longrightarrow>
    ledgerStep sha l (Grant (allowanceUnit d) (additionalLimit d) (decisionDigest d)) l'"

inductive_cases ledgerStep_elims: "ledgerStep sha l (Spend u n) l'" "ledgerStep sha l (Refuse f) l'"
  "ledgerStep sha l (Grant u n d) l'"

inductive ledgerRun :: "sha256 \<Rightarrow> budgetLedger \<Rightarrow> ledgerEvent list \<Rightarrow> budgetLedger \<Rightarrow> bool" for sha where
  run_nil: "ledgerRun sha l [] l"
| run_step: "ledgerStep sha l e l' \<Longrightarrow> ledgerRun sha l' es l'' \<Longrightarrow> ledgerRun sha l (e # es) l''"

fun spentOf :: "budgetUnit \<Rightarrow> ledgerEvent \<Rightarrow> int" where
  "spentOf u (Spend w n) = (if w = u then n else 0)"
| "spentOf u _ = 0"

fun grantedOf :: "budgetUnit \<Rightarrow> ledgerEvent \<Rightarrow> int" where
  "grantedOf u (Grant w n d) = (if w = u then n else 0)"
| "grantedOf u _ = 0"

fun grantDigest :: "ledgerEvent \<Rightarrow> jstr list" where
  "grantDigest (Grant u n d) = [d]"
| "grantDigest _ = []"

lemma ledgerStep_effect:
  assumes "ledgerStep sha l e l'" and "okLedger l"
  shows "okLedger l' \<and> dom (accounts l') = dom (accounts l) \<and>
    (\<forall>u. usedOf l' u = usedOf l u + spentOf u e \<and> limitOf l' u = limitOf l u + grantedOf u e) \<and>
    set (appliedAllowances l') = set (grantDigest e) \<union> set (appliedAllowances l) \<and>
    set (grantDigest e) \<inter> set (appliedAllowances l) = {} \<and> distinct (grantDigest e)"
  using assms
proof (cases rule: ledgerStep.cases)
  case (spend n u c)
  then show ?thesis using consumeBudget_cases [OF assms(2) spend(2,3), of u]
    by (auto simp: usedOf_def limitOf_def split: option.splits if_splits)
next
  case (refuse n u c f)
  then show ?thesis using consumeBudget_cases [OF assms(2) refuse(2,3), of u] assms(2) by simp
next
  case (grant d x p)
  from assms(2) grant(2,3) show ?thesis
    by (rule applyAllowance_inv) (use grant(1) in \<open>auto simp: usedOf_def limitOf_def split: option.splits\<close>)
qed

lemma ledgerRun_effect:
  assumes "ledgerRun sha l es l'" and "okLedger l"
  shows "okLedger l' \<and> dom (accounts l') = dom (accounts l) \<and>
    (\<forall>u. usedOf l' u = usedOf l u + sum_list (map (spentOf u) es) \<and>
         limitOf l' u = limitOf l u + sum_list (map (grantedOf u) es)) \<and>
    set (appliedAllowances l') = set (concat (map grantDigest es)) \<union> set (appliedAllowances l) \<and>
    set (concat (map grantDigest es)) \<inter> set (appliedAllowances l) = {} \<and>
    distinct (concat (map grantDigest es))"
  using assms
proof (induction rule: ledgerRun.induct)
  case (run_step l e l' es l'')
  from ledgerStep_effect [OF run_step.hyps(1) run_step.prems] run_step.IH show ?case by auto
qed simp

lemma used_le_limit: "okLedger l \<Longrightarrow> usedOf l u \<le> limitOf l u"
  by (auto simp: usedOf_def limitOf_def okCounter_def split: option.splits dest: accounts_ok)

end
