(* ===== verification/BudgetProperties.thy ===== *)
theory BudgetProperties
  imports BudgetHistory
begin

text \<open>The properties of budgets.ts, with a concrete ledger, escalation, decision and policy.\<close>

definition demoLedger :: budgetLedger where
  "demoLedger = \<lparr>counters = [\<lparr>counterUnit = WorkAttempt, counterLimit = 2, counterUsed = 1\<rparr>],
     appliedAllowances = []\<rparr>"

definition demoEscalation :: escalation where
  "demoEscalation = \<lparr>escalationId = lit ''escalation_1'', owner = TaskOwner (lit ''task_1'') 1 (replicate 64 48),
     trigger = BudgetTrigger \<lparr>factUnit = WorkAttempt, factLimit = 2, factUsed = 2, factRequested = 1,
       factRemaining = 0\<rparr>,
     contextDigest = replicate 64 48, candidateDigest = replicate 64 48, escalationPolicy = replicate 64 48,
     unresolvedCriteria = [lit ''criterion_1''], failedReadings = [replicate 64 49], unknownReadings = [],
     attemptFacts = [\<lparr>attemptUnit = WorkAttempt, attemptOrdinal = 1, attemptDigest = replicate 64 50\<rparr>],
     allowedResponses = [GrantAdditional], timestamp = lit ''2024-01-02T03:04:05.678Z'',
     escalationDigest = replicate 64 48\<rparr>"

definition demoDecision :: allowanceDecision where
  "demoDecision = \<lparr>allowanceEscalation = replicate 64 48, allowanceUnit = WorkAttempt, additionalLimit = 3,
     allowanceAuthority = Null, decisionDigest = replicate 64 48\<rparr>"

definition demoPolicy :: allowancePolicy where
  "demoPolicy = \<lparr>policyAuthority = Null, allowedUnits = [WorkAttempt], maxAdditionalLimit = 5,
     allowancePolicyDigest = replicate 64 48\<rparr>"

definition demoGranted :: budgetLedger where
  "demoGranted = \<lparr>counters = [\<lparr>counterUnit = WorkAttempt, counterLimit = 5, counterUsed = 1\<rparr>],
     appliedAllowances = [replicate 64 48]\<rparr>"

lemma demo_ledger_ok: "okLedger demoLedger"
  by code_simp

lemma demoDecision_ok: "okAllowance flatSha demoDecision"
  by (simp add: okAllowance_def) code_simp

lemma demoPolicy_ok: "okPolicy flatSha demoPolicy"
  by (simp add: okPolicy_def) code_simp

lemma demoEscalation_ok: "okEscalation flatSha demoEscalation"
  by (simp add: okEscalation_def) code_simp

lemma demo_allowance:
  "applyAdditionalAllowance (encLedger demoLedger) (encEscalation demoEscalation)
     (encAllowance demoDecision) (encPolicy demoPolicy) flatSha = Inr demoGranted"
proof -
  have "okEscalationContent demoEscalation" using demoEscalation_ok by (simp add: okEscalation_def)
  then show ?thesis
    by (simp add: applyAdditionalAllowance_def snapshotCanonical_def encLedger_json [OF demo_ledger_ok]
        encEscalation_json encAllowance_json [OF demoDecision_ok] encPolicy_json [OF demoPolicy_ok]
        validateLedger_enc [OF demo_ledger_ok] validateEscalationSnapshot_enc [OF demoEscalation_ok]
        validateAllowanceDecision_enc [OF demoDecision_ok] validatePolicy_enc [OF demoPolicy_ok])
      (simp add: demoDecision_def demoEscalation_def demoPolicy_def demoLedger_def demoGranted_def maxSafe_def)
qed

section \<open>Properties\<close>

text \<open>
  C7. Budget accounting over any history: starting from an accepted ledger, after any sequence of
  consumptions and applied allowances, what is used of each unit is exactly what was spent, its
  limit is exactly the original limit plus what was granted, so spending never exceeds limit plus
  grants; and no allowance decision is ever applied twice.
\<close>

theorem ledger_history:
  assumes "createBudgetLedger v = Inr l" and "ledgerRun sha l events l'"
  shows "usedOf l' u = usedOf l u + sum_list (map (spentOf u) events) \<and>
    limitOf l' u = limitOf l u + sum_list (map (grantedOf u) events) \<and>
    usedOf l u + sum_list (map (spentOf u) events) \<le> limitOf l u + sum_list (map (grantedOf u) events) \<and>
    distinct (concat (map grantDigest events)) \<and>
    set (concat (map grantDigest events)) \<inter> set (appliedAllowances l) = {}"
proof -
  have "okLedger l" by (rule ledgers.dec_ok [OF assms(1)])
  from ledgerRun_effect [OF assms(2) this] used_le_limit [of l' u] show ?thesis by auto
qed

theorem ledger_history_witness:
  "limitOf demoGranted WorkAttempt = limitOf demoLedger WorkAttempt + 3"
proof -
  have "ledgerRun flatSha demoLedger [Grant WorkAttempt 3 (replicate 64 48)] demoGranted"
    using ledgerStep.grant [OF demoDecision_ok demo_allowance]
    by (auto intro!: ledgerRun.intros simp: demoDecision_def)
  from ledger_history [OF ledgers.dec_enc [OF demo_ledger_ok] this, of WorkAttempt] show ?thesis by simp
qed

text \<open>
  C31. Consumption is all or nothing: a request is either granted in full, raising the counter by
  exactly the amount and touching nothing else, or refused with the ledger unchanged and the exact
  facts of the exhausted counter; the only error is a unit the ledger does not configure.
\<close>

theorem consumeBudget_exact:
  assumes "createBudgetLedger v = Inr l" and "1 \<le> n" "n \<le> maxSafe"
  shows "case consumeBudget (encLedger l) (encConsumption u n) of
     Inl e \<Rightarrow> e = BudgetError BBudgetNotConfigured \<and> accounts l u = None
   | Inr (Exhausted l' c f) \<Rightarrow> l' = l \<and> accounts l u = Some c \<and> counterLimit c < counterUsed c + n \<and>
       f = \<lparr>factUnit = u, factLimit = counterLimit c, factUsed = counterUsed c,
         factRequested = n, factRemaining = counterLimit c - counterUsed c\<rparr>
   | Inr (Consumed l' c') \<Rightarrow> \<exists>c. accounts l u = Some c \<and> counterUsed c + n \<le> counterLimit c \<and>
       c' = c\<lparr>counterUsed := counterUsed c + n\<rparr> \<and> accounts l' = (accounts l)(u \<mapsto> c') \<and>
       appliedAllowances l' = appliedAllowances l \<and> createBudgetLedger (encLedger l') = Inr l'"
proof -
  have "okLedger l" by (rule ledgers.dec_ok [OF assms(1)])
  from consumeBudget_cases [OF this assms(2,3), of u] show ?thesis
    by (auto split: sum.splits consumption.splits intro: ledgers.dec_enc)
qed

theorem consumeBudget_exact_witness:
  "\<exists>l' c f. consumeBudget (encLedger demoLedger) (encConsumption WorkAttempt 2) = Inr (Exhausted l' c f) \<and>
     l' = demoLedger"
proof -
  have "accounts demoLedger WorkAttempt = Some \<lparr>counterUnit = WorkAttempt, counterLimit = 2, counterUsed = 1\<rparr>"
    by (simp add: accounts_def demoLedger_def)
  then show ?thesis
    using consumeBudget_exact [OF ledgers.dec_enc [OF demo_ledger_ok], of 2 WorkAttempt]
    by (auto simp: maxSafe_def split: sum.splits consumption.splits)
qed



text \<open>
  The facts of a refused consumption are accepted as the trigger of an escalation, whatever
  ledger and request they came from: the two halves of the module agree on what exhausted means.
\<close>

theorem exhausted_triggers_escalation:
  assumes "consumeBudget lv iv = Inr (Exhausted l c f)"
  shows "triggerOf (encTrigger (BudgetTrigger f)) = Inr (BudgetTrigger f)"
proof (rule triggerOf_enc)
  obtain n i where l: "validateLedger lv (BudgetError BInvalidConsumption) = Inr l"
    and n: "posSafeInt (get iv ''amount'') = Some n" and i: "i < length (counters l)" "c = counters l ! i"
    and f: "n > counterLimit c - counterUsed c" "f = \<lparr>factUnit = counterUnit c, factLimit = counterLimit c,
      factUsed = counterUsed c, factRequested = n, factRemaining = counterLimit c - counterUsed c\<rparr>"
  proof -
    obtain l0 u n where l0: "validateLedger lv (BudgetError BInvalidConsumption) = Inr l0"
      and n: "posSafeInt (get iv ''amount'') = Some n"
      and body: "(case findIndex (\<lambda>c. counterUnit c = u) (counters l0) of
          None \<Rightarrow> Inl (BudgetError BBudgetNotConfigured)
        | Some i \<Rightarrow>
            let c = counters l0 ! i; remaining = counterLimit c - counterUsed c in
            if n > remaining
            then Inr (Exhausted l0 c \<lparr>factUnit = counterUnit c, factLimit = counterLimit c,
              factUsed = counterUsed c, factRequested = n, factRemaining = remaining\<rparr>)
            else let c' = \<lparr>counterUnit = counterUnit c, counterLimit = counterLimit c,
                     counterUsed = counterUsed c + n\<rparr>
              in Inr (Consumed \<lparr>counters = (counters l0)[i := c'],
                   appliedAllowances = appliedAllowances l0\<rparr> c')) = Inr (Exhausted l c f)"
      using assms unfolding consumeBudget_def Let_def
      by (cases "budgetUnitOf (get iv ''unit'')"; cases "posSafeInt (get iv ''amount'')")
        (auto simp: bindE_eq_Inr snapshotCanonical_eq_Inr)
    then obtain i where i: "findIndex (\<lambda>c. counterUnit c = u) (counters l0) = Some i"
      by (cases "findIndex (\<lambda>c. counterUnit c = u) (counters l0)") auto
    show ?thesis
      by (rule that [of n i]) (use l0 n body i findIndex_Some [OF i] in \<open>auto simp: Let_def split: if_splits\<close>)
  qed
  have "okCounter c" using validateLedger_ok [OF l] i by (simp add: okLedger_def list_all_length)
  with n f show "okTrigger (BudgetTrigger f)"
    by (simp add: okFact_def okCounter_def posSafeInt_eq_Some safe_bounds)
qed

theorem exhausted_triggers_escalation_witness:
  "\<exists>f. triggerOf (encTrigger (BudgetTrigger f)) = Inr (BudgetTrigger f) \<and> factRemaining f = 1"
proof -
  have "consumeBudget (encLedger demoLedger) (encConsumption WorkAttempt 2) = Inr (Exhausted demoLedger
      \<lparr>counterUnit = WorkAttempt, counterLimit = 2, counterUsed = 1\<rparr>
      \<lparr>factUnit = WorkAttempt, factLimit = 2, factUsed = 1, factRequested = 2, factRemaining = 1\<rparr>)"
    by (simp add: consumeBudget_valid [OF demo_ledger_ok] maxSafe_def) (simp add: demoLedger_def Let_def)
  note ok = exhausted_triggers_escalation [OF this]
  show ?thesis by (rule exI, rule conjI, rule ok) simp
qed

text \<open>
  A created escalation validates and reads back unchanged, whatever order its lists came in,
  and its digest is the digest of its normalised content.
\<close>

theorem escalation_roundtrip:
  assumes "createEscalation v sha = Inr x"
  shows "validateEscalation (encEscalation x) sha = Inr x \<and>
    escalationDigest x = sha (canonicalBytes (encEscalationContent x))"
  using escalations.created_validates [OF assms] escalations.sealed_digest by blast

theorem escalation_roundtrip_witness:
  "validateEscalation (encEscalation demoEscalation) flatSha = Inr demoEscalation"
proof -
  have ok: "okEscalationContent demoEscalation" using demoEscalation_ok by (simp add: okEscalation_def)
  have "createEscalation (encEscalationContent demoEscalation) flatSha = Inr demoEscalation"
    by (simp add: createEscalation_def snapshotCanonical_def encEscalationContent_json [OF ok]
        escalationContentOf_enc [OF ok]) (simp add: escalationContent.defs demoEscalation_def)
  from escalation_roundtrip [OF this] show ?thesis by blast
qed

end
