(* ===== verification/ProtocolJson.thy ===== *)
theory ProtocolJson
  imports CanonicalInjective
begin

text \<open>
  The bounded JSON of the wire protocol (packages/protocol/src/codec.ts): \<open>snapshotJsonValue\<close> with
  its node and depth budget, \<open>boundedString\<close> and \<open>canonicalStringify\<close>. The runtime compares
  records by comparing their canonical texts; on values within the limits that is equality up to
  property order (\<open>canonicalStringify_eq\<close>).
\<close>

record protocolLimits =
  maxWireBytes :: int
  maxJsonDepth :: int
  maxJsonNodes :: int
  maxStringLength :: int

definition PROTOCOL_LIMITS :: protocolLimits where
  "PROTOCOL_LIMITS = \<lparr>maxWireBytes = 262144, maxJsonDepth = 32, maxJsonNodes = 10000,
     maxStringLength = 65536\<rparr>"

fun hasWellFormedUtf16 :: "jstr \<Rightarrow> bool" where
  "hasWellFormedUtf16 [] = True"
| "hasWellFormedUtf16 [c] = (\<not> isHigh c \<and> \<not> isLow c)"
| "hasWellFormedUtf16 (c # d # cs) =
     (if isHigh c then isLow d \<and> hasWellFormedUtf16 cs
      else \<not> isLow c \<and> hasWellFormedUtf16 (d # cs))"

definition boundedString :: "int \<Rightarrow> int \<Rightarrow> jstr \<Rightarrow> bool" where
  "boundedString lo hi s \<longleftrightarrow> lo \<le> int (length s) \<and> int (length s) \<le> hi \<and> hasWellFormedUtf16 s"

function snapshotWire :: "nat \<Rightarrow> nat \<Rightarrow> val \<Rightarrow> exn + val \<times> nat" where
  "snapshotWire depth nodes v =
     (let nodes = Suc nodes in
      if int nodes > maxJsonNodes PROTOCOL_LIMITS then Inl ProtocolError
      else case v of
        Null \<Rightarrow> Inr (v, nodes)
      | Bool _ \<Rightarrow> Inr (v, nodes)
      | Str s \<Rightarrow> if boundedString 0 (maxStringLength PROTOCOL_LIMITS) s then Inr (v, nodes)
          else Inl ProtocolError
      | Num n \<Rightarrow> if wf_num n then Inr (v, nodes) else Inl ProtocolError
      | Arr xs \<Rightarrow>
          if int depth \<ge> maxJsonDepth PROTOCOL_LIMITS then Inl ProtocolError
          else bindE (mapAccumE (\<lambda>n x. snapshotWire (Suc depth) n x) nodes xs)
            (\<lambda>(ys, n). Inr (Arr ys, n))
      | Obj kvs \<Rightarrow>
          if int depth \<ge> maxJsonDepth PROTOCOL_LIMITS then Inl ProtocolError
          else bindE (mapAccumE (\<lambda>n kv. bindE (snapshotWire (Suc depth) n (snd kv))
              (\<lambda>(y, n'). Inr ((fst kv, y), n'))) nodes kvs)
            (\<lambda>(ys, n). Inr (Obj ys, n))
      | _ \<Rightarrow> Inl ProtocolError)"
  by pat_completeness auto
termination
  by (relation "measure (\<lambda>(depth, nodes, v). size v)")
    (auto simp: less_Suc_eq_le size_prod_simp intro!: size_list_estimation')

declare snapshotWire.simps [simp del]

definition canonicalStringify :: "val \<Rightarrow> exn + jstr" where
  "canonicalStringify v =
     bindE (snapshotWire 0 0 v) (\<lambda>(w, _).
       let encoded = serialize w in
       if int (length (encodeUtf8 encoded)) > maxWireBytes PROTOCOL_LIMITS then Inl ProtocolError
       else Inr encoded)"

section \<open>Facts\<close>

lemma mapAccumE_same:
  assumes "mapAccumE f n xs = Inr (ys, n')"
    and "\<And>x m y m'. x \<in> set xs \<Longrightarrow> f m x = Inr (y, m') \<Longrightarrow> y = x"
  shows "ys = xs"
  using assms
proof (induction xs arbitrary: n ys)
  case (Cons x xs)
  then obtain y m ys' where "f n x = Inr (y, m)" "mapAccumE f m xs = Inr (ys', n')" "ys = y # ys'"
    by (auto simp: bindE_eq_Inr split: prod.splits)
  then show ?case using Cons.IH [of m ys'] Cons.prems(2) by auto
qed simp

lemma snapshotWire_same: "snapshotWire depth nodes v = Inr (w, n) \<Longrightarrow> w = v"
proof (induction depth nodes v arbitrary: w n rule: snapshotWire.induct)
  case (1 depth nodes v)
  show ?case
  proof (cases v)
    case (Arr xs)
    with "1.prems" obtain ys m where "mapAccumE (\<lambda>n x. snapshotWire (Suc depth) n x) (Suc nodes) xs = Inr (ys, m)"
      and w: "w = Arr ys" and g: "\<not> maxJsonNodes PROTOCOL_LIMITS < int (Suc nodes)" "\<not> maxJsonDepth PROTOCOL_LIMITS \<le> int depth"
      by (subst (asm) snapshotWire.simps) (auto simp: bindE_eq_Inr Let_def split: if_splits)
    from this(1) have "ys = xs"
      by (rule mapAccumE_same) (use "1.IH"(1) [OF refl g(1) Arr g(2)] in blast)
    with w Arr show ?thesis by simp
  next
    case (Obj kvs)
    with "1.prems" obtain ys m where "mapAccumE (\<lambda>n kv. bindE (snapshotWire (Suc depth) n (snd kv))
              (\<lambda>(y, n'). Inr ((fst kv, y), n'))) (Suc nodes) kvs = Inr (ys, m)"
      and w: "w = Obj ys" and g: "\<not> maxJsonNodes PROTOCOL_LIMITS < int (Suc nodes)" "\<not> maxJsonDepth PROTOCOL_LIMITS \<le> int depth"
      by (subst (asm) snapshotWire.simps) (auto simp: bindE_eq_Inr Let_def split: if_splits)
    from this(1) have "ys = kvs"
      by (rule mapAccumE_same)
        (use "1.IH"(2) [OF refl g(1) Obj g(2)] in \<open>fastforce simp: bindE_eq_Inr split: prod.splits\<close>)
    with w Obj show ?thesis by simp
  qed (use "1.prems" in \<open>subst (asm) snapshotWire.simps, auto simp: Let_def split: if_splits\<close>)+
qed

lemma canonicalStringify_eq_Inr: "canonicalStringify v = Inr t \<Longrightarrow> t = serialize v"
  by (auto simp: canonicalStringify_def bindE_eq_Inr Let_def split: prod.splits if_splits
      dest: snapshotWire_same)

lemma canonicalStringify_eq:
  assumes "canonicalStringify v = Inr s" "canonicalStringify w = Inr t" "is_json v" "is_json w"
  shows "s = t \<longleftrightarrow> norm v = norm w"
  using assms canonicalStringify_eq_Inr serialize_eq_iff by metis

end
