(* ===== verification/JsMaps.thy ===== *)
theory JsMaps
  imports Prelude
begin

text \<open>
  JavaScript's \<open>Map\<close>: an insertion-ordered association list in which setting an existing key keeps
  its place. The laws the code relies on are the locale \<open>dictionary\<close>: reading back a write,
  a removal, and the list of entries as the graph of the lookup. The in-memory authority's maps
  are the interpretation \<open>jsmap\<close>.
\<close>

type_synonym ('k, 'v) jsmap = "('k \<times> 'v) list"

definition mapGet :: "('k, 'v) jsmap \<Rightarrow> 'k \<Rightarrow> 'v option" where
  "mapGet m k = map_of m k"

fun mapSet :: "'k \<Rightarrow> 'v \<Rightarrow> ('k, 'v) jsmap \<Rightarrow> ('k, 'v) jsmap" where
  "mapSet k v [] = [(k, v)]"
| "mapSet k v ((k', v') # m) = (if k' = k then (k, v) # m else (k', v') # mapSet k v m)"

definition mapDelete :: "'k \<Rightarrow> ('k, 'v) jsmap \<Rightarrow> ('k, 'v) jsmap" where
  "mapDelete k m = filter (\<lambda>e. fst e \<noteq> k) m"

definition mapHas :: "('k, 'v) jsmap \<Rightarrow> 'k \<Rightarrow> bool" where
  "mapHas m k \<longleftrightarrow> mapGet m k \<noteq> None"

definition mapValues :: "('k, 'v) jsmap \<Rightarrow> 'v list" where
  "mapValues m = map snd m"

locale dictionary =
  fixes lookup :: "'d \<Rightarrow> 'k \<Rightarrow> 'v option"
    and update :: "'k \<Rightarrow> 'v \<Rightarrow> 'd \<Rightarrow> 'd"
    and remove :: "'k \<Rightarrow> 'd \<Rightarrow> 'd"
    and entries :: "'d \<Rightarrow> ('k \<times> 'v) list"
    and valid :: "'d \<Rightarrow> bool"
  assumes lookup_update: "lookup (update k v d) j = (if j = k then Some v else lookup d j)"
    and lookup_remove: "lookup (remove k d) j = (if j = k then None else lookup d j)"
    and entries_distinct: "valid d \<Longrightarrow> distinct (map fst (entries d))"
    and entries_lookup: "valid d \<Longrightarrow> (k, v) \<in> set (entries d) \<longleftrightarrow> lookup d k = Some v"
    and valid_update: "valid d \<Longrightarrow> valid (update k v d)"
    and valid_remove: "valid d \<Longrightarrow> valid (remove k d)"
begin

definition total :: "('k \<Rightarrow> 'v \<Rightarrow> int) \<Rightarrow> 'd \<Rightarrow> int" where
  "total f d = sum_list (map (\<lambda>(k, v). f k v) (entries d))"

lemma total_sum:
  assumes "valid d"
  shows "total f d = (\<Sum>k\<in>dom (lookup d). f k (the (lookup d k)))"
proof -
  have inj: "inj_on fst (set (entries d))"
    using entries_distinct [OF assms] by (simp add: distinct_map)
  have "total f d = (\<Sum>e\<in>set (entries d). f (fst e) (snd e))"
    using entries_distinct [OF assms]
    by (simp add: total_def sum_list_distinct_conv_sum_set distinct_map case_prod_beta)
  also have "\<dots> = (\<Sum>k\<in>fst ` set (entries d). f k (the (lookup d k)))"
  proof (subst sum.reindex [OF inj], rule sum.cong [OF refl])
    fix e assume "e \<in> set (entries d)"
    then have "lookup d (fst e) = Some (snd e)"
      using entries_lookup [OF assms, of "fst e" "snd e"] by simp
    then show "f (fst e) (snd e) = ((\<lambda>k. f k (the (lookup d k))) \<circ> fst) e" by simp
  qed
  also have "fst ` set (entries d) = dom (lookup d)"
    using entries_lookup [OF assms] by (force simp: dom_def image_iff)
  finally show ?thesis .
qed

lemma finite_dom: "valid d \<Longrightarrow> finite (dom (lookup d))"
proof -
  assume v: "valid d"
  then have "dom (lookup d) = fst ` set (entries d)"
    using entries_lookup by (force simp: dom_def image_iff)
  then show ?thesis by simp
qed

text \<open>The effect of a write on a sum over all entries.\<close>

lemma total_update:
  assumes "valid d"
  shows "total f (update k v d) =
    total f d + f k v - (case lookup d k of None \<Rightarrow> 0 | Some w \<Rightarrow> f k w)"
proof -
  let ?D = "dom (lookup d) - {k}"
  have dom: "dom (lookup (update k v d)) = insert k ?D"
    by (auto simp: lookup_update dom_def)
  have fin: "finite ?D" using finite_dom [OF assms] by simp
  have rest: "(\<Sum>j\<in>?D. f j (the (lookup (update k v d) j))) = (\<Sum>j\<in>?D. f j (the (lookup d j)))"
    by (rule sum.cong) (simp_all add: lookup_update)
  have new: "total f (update k v d) = f k v + (\<Sum>j\<in>?D. f j (the (lookup d j)))"
  proof -
    have "total f (update k v d) = (\<Sum>j\<in>insert k ?D. f j (the (lookup (update k v d) j)))"
      by (simp only: total_sum [OF valid_update [OF assms]] dom)
    also have "\<dots> = f k v + (\<Sum>j\<in>?D. f j (the (lookup (update k v d) j)))"
      by (subst sum.insert [OF fin]) (simp_all add: lookup_update)
    finally show ?thesis using rest by simp
  qed
  show ?thesis
  proof (cases "lookup d k")
    case None
    then have "?D = dom (lookup d)" by auto
    with new None show ?thesis by (simp add: total_sum [OF assms])
  next
    case (Some w)
    then have "k \<in> dom (lookup d)" by auto
    then have "total f d = f k w + (\<Sum>j\<in>?D. f j (the (lookup d j)))"
      unfolding total_sum [OF assms]
      using Some by (subst sum.remove [OF finite_dom [OF assms], of k]) simp_all
    with new Some show ?thesis by simp
  qed
qed

lemma total_cong:
  "valid d \<Longrightarrow> (\<And>k v. lookup d k = Some v \<Longrightarrow> f k v = g k v) \<Longrightarrow> total f d = total g d"
  by (auto simp: total_sum intro!: sum.cong)

lemma total_lookup_cong:
  assumes "valid d" "valid d'"
    and "\<And>k. map_option (f k) (lookup d k) = map_option (g k) (lookup d' k)"
  shows "total f d = total g d'"
proof -
  have dom: "dom (lookup d) = dom (lookup d')"
  proof (rule set_eqI)
    fix k show "k \<in> dom (lookup d) \<longleftrightarrow> k \<in> dom (lookup d')"
      using assms(3) [of k] by (cases "lookup d k"; cases "lookup d' k") auto
  qed
  have "f k (the (lookup d k)) = g k (the (lookup d' k))" if "k \<in> dom (lookup d')" for k
    using assms(3) [of k] that dom by (cases "lookup d k"; cases "lookup d' k") auto
  then show ?thesis using assms(1,2) dom by (simp add: total_sum)
qed

lemma total_zero:
  "valid d \<Longrightarrow> (\<And>k v. lookup d k = Some v \<Longrightarrow> f k v = 0) \<Longrightarrow> total f d = 0"
  by (auto simp: total_sum intro!: sum.neutral)

lemma total_nonneg:
  "valid d \<Longrightarrow> (\<And>k v. lookup d k = Some v \<Longrightarrow> 0 \<le> f k v) \<Longrightarrow> 0 \<le> total f d"
  by (auto simp: total_sum intro!: sum_nonneg)

lemma total_member:
  assumes "valid d" and "\<And>k v. lookup d k = Some v \<Longrightarrow> 0 \<le> f k v" and "lookup d k = Some v"
  shows "f k v \<le> total f d"
proof -
  have "f k (the (lookup d k)) \<le> (\<Sum>j\<in>dom (lookup d). f j (the (lookup d j)))"
    using assms finite_dom [OF assms(1)] by (intro member_le_sum) auto
  then show ?thesis using assms(1,3) by (simp add: total_sum)
qed

end

definition mapValid :: "('k, 'v) jsmap \<Rightarrow> bool" where
  "mapValid m \<longleftrightarrow> distinct (map fst m)"

lemma mapGet_set [simp]: "mapGet (mapSet k v m) j = (if j = k then Some v else mapGet m j)"
  by (induction m) (auto simp: mapGet_def)

lemma mapGet_delete [simp]: "mapGet (mapDelete k m) j = (if j = k then None else mapGet m j)"
  by (induction m) (auto simp: mapGet_def mapDelete_def)

lemma mapGet_Nil [simp]: "mapGet [] k = None"
  by (simp add: mapGet_def)

lemma mapSet_keys: "fst ` set (mapSet k v m) = insert k (fst ` set m)"
proof (induction m)
  case (Cons e m)
  then show ?case by (cases e) auto
qed simp

lemma mapValid_simps [simp]:
  "mapValid []" "mapValid m \<Longrightarrow> mapValid (mapSet k v m)" "mapValid m \<Longrightarrow> mapValid (mapDelete k m)"
proof -
  show "mapValid []" by (simp add: mapValid_def)
  show "mapValid m \<Longrightarrow> mapValid (mapSet k v m)"
  proof (induction m)
    case (Cons e m)
    then show ?case using mapSet_keys [of k v m] by (cases e) (auto simp: mapValid_def)
  qed (simp add: mapValid_def)
  show "mapValid m \<Longrightarrow> mapValid (mapDelete k m)"
    by (simp add: mapValid_def mapDelete_def distinct_map inj_on_def)
qed

lemma mapGet_entries: "mapValid m \<Longrightarrow> (k, v) \<in> set m \<longleftrightarrow> mapGet m k = Some v"
  by (simp add: mapValid_def mapGet_def)

interpretation jsmap: dictionary mapGet mapSet mapDelete id mapValid
  by unfold_locales (simp_all add: mapGet_entries, simp add: mapValid_def)

lemma mapValues_iff: "mapValid m \<Longrightarrow> v \<in> set (mapValues m) \<longleftrightarrow> (\<exists>k. mapGet m k = Some v)"
  by (force simp: mapValues_def mapGet_entries [symmetric] image_iff)

text \<open>Rewriting every entry, as a loop of \<open>set\<close> calls over existing keys does.\<close>

definition mapEntries :: "('k \<Rightarrow> 'v \<Rightarrow> 'v) \<Rightarrow> ('k, 'v) jsmap \<Rightarrow> ('k, 'v) jsmap" where
  "mapEntries f m = map (\<lambda>(k, v). (k, f k v)) m"

lemma mapGet_mapEntries [simp]: "mapGet (mapEntries f m) k = map_option (f k) (mapGet m k)"
  by (induction m) (auto simp: mapEntries_def mapGet_def)

lemma mapValid_mapEntries [simp]: "mapValid (mapEntries f m) = mapValid m"
  by (simp add: mapValid_def mapEntries_def comp_def case_prod_beta)

end
