(* ===== verification/Runner.thy ===== *)
theory Runner
  imports ProtocolJson Codecs Timestamps JsMaps "HOL-Library.Product_Lexorder"
begin

text \<open>
  packages/runtime/src/task-currentness.ts and the pure part of runner.ts: the durable records of
  the effect runner, the choice of the next transitions from a snapshot
  (\<open>scheduleRunnerTransitions\<close>) and of the action for a claimed effect
  (\<open>selectEffectAttemptAction\<close>).

  The inputs here are typed: a field declared as a union of literals is a \<open>datatype\<close>, so the run
  time test that it is one of them holds by typing, and a numeric field is an \<open>int\<close>, so that
  \<open>Number.isSafeInteger\<close> of it is the range test \<open>isSafe\<close>. JSON payloads are \<open>val\<close>.
\<close>

section \<open>Task scopes (task-currentness.ts)\<close>

record taskScope =
  scopeRun :: jstr
  scopeTask :: jstr
  scopeGeneration :: int

record taskScopeFence = taskScope +
  scopeContext :: jstr
  scopeFence :: int

record taskScopeCurrentness = taskScopeFence +
  claimsAccepted :: bool

record fenceInstallation =
  instScope :: taskScope
  expectedFence :: int
  expectedContext :: jstr

definition taskScopeKey :: "'a taskScope_scheme \<Rightarrow> jstr" where
  "taskScopeKey s = scopeRun s @ [0] @ scopeTask s @ [0] @ intStr (scopeGeneration s)"

definition taskScopeFenceOf :: "taskScopeCurrentness \<Rightarrow> taskScopeFence" where
  "taskScopeFenceOf c = \<lparr>scopeRun = scopeRun c, scopeTask = scopeTask c,
     scopeGeneration = scopeGeneration c, scopeContext = scopeContext c, scopeFence = scopeFence c\<rparr>"

definition sameTaskScope :: "'a taskScope_scheme \<Rightarrow> 'b taskScope_scheme \<Rightarrow> bool" where
  "sameTaskScope l r \<longleftrightarrow> scopeRun l = scopeRun r \<and> scopeTask l = scopeTask r \<and>
     scopeGeneration l = scopeGeneration r"

definition sameTaskScopeFence :: "'a taskScopeFence_scheme \<Rightarrow> 'b taskScopeFence_scheme \<Rightarrow> bool" where
  "sameTaskScopeFence l r \<longleftrightarrow> sameTaskScope l r \<and> scopeContext l = scopeContext r \<and>
     scopeFence l = scopeFence r"

section \<open>Durable records (runner.ts)\<close>

datatype effectKind = Worker | Sensor | Git | Asset | Time

datatype effectStatus = Active | Completed | FailedS | Cancelled | UnknownS

datatype attemptOrigin = Dispatch | Inspection | Cancellation | Settlement

record runnerLease =
  leaseOwner :: jstr
  leaseFence :: int
  leaseExpires :: jstr

record reservation =
  resUnit :: jstr
  resAmount :: int

record capacityReservation =
  capResource :: jstr
  capAmount :: int

record finalizedUsage =
  usageUnit :: jstr
  usageReserved :: int
  usageReported :: "int option"
  usageUnreported :: int

record queuedCommand =
  cmdSequence :: int
  cmdId :: jstr
  cmdRepository :: jstr
  cmdRun :: jstr
  cmdOperation :: jstr
  cmdKind :: effectKind
  cmdScope :: taskScopeFence
  cmdContext :: jstr
  cmdInputDigest :: jstr
  cmdInput :: val
  cmdBudget :: reservation
  cmdCapacity :: "capacityReservation option"
  cmdQueuedAt :: jstr
  cmdDeadline :: "jstr option"
  cmdMaxReconciliation :: int

record effectIntent =
  intCommand :: queuedCommand
  intOwner :: jstr
  intFence :: int
  intAttempt :: jstr
  intPersistedAt :: jstr

record observation =
  obsStatus :: effectStatus
  obsAt :: jstr
  obsDetails :: "val option"
  obsOutput :: "jstr option"
  obsUsage :: "reservation option"

datatype inspectionStatus = InspectCompleted | InspectActive | InspectMissing | InspectCancelled
  | InspectUnknown

record inspection =
  insStatus :: inspectionStatus
  insAt :: jstr
  insDetails :: "val option"
  insOutput :: "jstr option"
  insUsage :: "reservation option"

record effectOutcome =
  outCommand :: jstr
  outOperation :: jstr
  outKind :: effectKind
  outOwner :: jstr
  outFence :: int
  outAttempt :: jstr
  outCommandScope :: taskScopeFence
  outClaimScope :: taskScopeFence
  outContext :: jstr
  outInputDigest :: jstr
  outStatus :: effectStatus
  outCurrent :: bool
  outAt :: jstr
  outReconciliations :: int
  outUsage :: finalizedUsage
  outOrigin :: attemptOrigin
  outDetails :: "val option"
  outOutput :: "jstr option"

record runnerEscalation =
  rescCommand :: jstr
  rescOperation :: jstr
  rescUnit :: jstr
  rescRequested :: int
  rescAvailable :: int
  rescAt :: jstr

record effectRecord =
  recIntent :: effectIntent
  recOutcome :: "effectOutcome option"
  recCancelAt :: "jstr option"

record capacityState =
  capStateResource :: jstr
  capLimit :: int
  capOccupied :: int

record authoritySnapshot =
  snapRepository :: jstr
  snapRun :: jstr
  snapScopes :: "taskScopeCurrentness list"
  snapQueue :: "queuedCommand list"
  snapEffects :: "effectRecord list"
  snapEscalations :: "runnerEscalation list"
  snapCapacities :: "capacityState list"

record runOnceInput =
  inRepository :: jstr
  inRun :: jstr
  inLease :: runnerLease
  inTime :: jstr
  inAttempt :: jstr

datatype runnerPlan = Start queuedCommand | Reconcile effectRecord

definition isTerminal :: "effectStatus \<Rightarrow> bool" where
  "isTerminal s \<longleftrightarrow> s = Completed \<or> s = FailedS \<or> s = Cancelled"

definition isTerminalRecord :: "effectRecord \<Rightarrow> bool" where
  "isTerminalRecord r = (case recOutcome r of None \<Rightarrow> False | Some out \<Rightarrow> isTerminal (outStatus out))"

section \<open>Choosing transitions\<close>

definition isAtOrAfter :: "jstr \<Rightarrow> jstr option \<Rightarrow> bool" where
  "isAtOrAfter now deadline = (case deadline of None \<Rightarrow> False | Some d \<Rightarrow> timeGe now d)"

definition cancellationRequired :: "effectRecord \<Rightarrow> jstr \<Rightarrow> bool" where
  "cancellationRequired r now \<longleftrightarrow>
     recCancelAt r \<noteq> None \<or> isAtOrAfter now (cmdDeadline (intCommand (recIntent r)))"

definition cancellationPriority :: "effectRecord \<Rightarrow> jstr \<Rightarrow> nat" where
  "cancellationPriority r now = (if cancellationRequired r now then 0 else 1)"

definition validBatchLimit :: "int \<Rightarrow> bool" where
  "validBatchLimit n \<longleftrightarrow> isSafe n \<and> n \<ge> 1"

definition reconcilable :: "effectRecord \<Rightarrow> bool" where
  "reconcilable r = (case recOutcome r of None \<Rightarrow> True
     | Some out \<Rightarrow> outStatus out = Active \<or> outStatus out = UnknownS)"

definition startable :: "authoritySnapshot \<Rightarrow> queuedCommand \<Rightarrow> bool" where
  "startable snap c \<longleftrightarrow>
     cmdId c \<notin> set (map (cmdId \<circ> intCommand \<circ> recIntent) (snapEffects snap)) \<and>
     cmdId c \<notin> set (map rescCommand (snapEscalations snap)) \<and>
     list_ex (\<lambda>s. claimsAccepted s \<and> sameTaskScopeFence (cmdScope c) s) (snapScopes snap)"

text \<open>The loop over the sorted commands, with the running capacities and the plans so far.\<close>

fun startCommands ::
  "nat \<Rightarrow> (jstr, int) jsmap \<Rightarrow> runnerPlan list \<Rightarrow> queuedCommand list \<Rightarrow> runnerPlan list" where
  "startCommands limit capacities plans [] = plans"
| "startCommands limit capacities plans (c # cs) =
     (if length plans \<ge> limit then plans
      else case cmdCapacity c of
        None \<Rightarrow> startCommands limit capacities (plans @ [Start c]) cs
      | Some r \<Rightarrow>
          let available = (case mapGet capacities (capResource r) of None \<Rightarrow> 0 | Some n \<Rightarrow> n) in
          if capAmount r > available then startCommands limit capacities plans cs
          else startCommands limit (mapSet (capResource r) (available - capAmount r) capacities)
                 (plans @ [Start c]) cs)"

definition scheduleRunnerTransitions ::
  "authoritySnapshot \<Rightarrow> jstr \<Rightarrow> int \<Rightarrow> exn + runnerPlan list" where
  "scheduleRunnerTransitions snap now maxTransitions =
     (if \<not> validBatchLimit maxTransitions then Inl TypeError
      else let reconciles = sort_key (\<lambda>r. (cancellationPriority r now, cmdOperation (intCommand (recIntent r))))
                 (filter reconcilable (snapEffects snap));
               capacities = fold (\<lambda>c m. mapSet (capStateResource c) (max 0 (capLimit c - capOccupied c)) m)
                 (snapCapacities snap) [];
               commands = sort_key (\<lambda>c. (cmdOperation c, cmdSequence c, cmdId c))
                 (filter (startable snap) (snapQueue snap))
           in Inr (startCommands (nat maxTransitions) capacities
                (map Reconcile (take (nat maxTransitions) reconciles)) commands))"

definition scheduleRunnerTransition :: "authoritySnapshot \<Rightarrow> exn + runnerPlan option" where
  "scheduleRunnerTransition snap =
     bindE (scheduleRunnerTransitions snap (lit ''0000-01-01T00:00:00.000Z'') 1)
       (\<lambda>plans. Inr (case plans of [] \<Rightarrow> None | p # _ \<Rightarrow> Some p))"

definition selectEffectAttemptAction :: "effectRecord \<Rightarrow> jstr \<Rightarrow> jstr \<Rightarrow> attemptOrigin" where
  "selectEffectAttemptAction r now attempt =
     (case recOutcome r of
        None \<Rightarrow> if cancellationRequired r now then Settlement
                else if intAttempt (recIntent r) = attempt then Dispatch else Inspection
      | Some out \<Rightarrow>
          if cancellationRequired r now \<and> outOrigin out \<noteq> Cancellation then Cancellation
          else if cancellationRequired r now \<or>
               outReconciliations out \<ge> cmdMaxReconciliation (intCommand (recIntent r))
          then Settlement
          else Inspection)"

section \<open>Records as JSON\<close>

text \<open>The plain object of a durable record, which \<open>canonicalStringify\<close> turns into text.\<close>

fun kindText :: "effectKind \<Rightarrow> string" where
  "kindText Worker = ''worker''"
| "kindText Sensor = ''sensor''"
| "kindText Git = ''git''"
| "kindText Asset = ''asset''"
| "kindText Time = ''time''"

definition encScope :: "'a taskScopeFence_scheme \<Rightarrow> (jstr \<times> val) list" where
  "encScope s = [(lit ''runId'', Str (scopeRun s)), (lit ''taskId'', Str (scopeTask s)),
     (lit ''definitionGeneration'', Num (Whole (scopeGeneration s))),
     (lit ''acceptedContextDigest'', Str (scopeContext s)),
     (lit ''fenceGeneration'', Num (Whole (scopeFence s)))]"

definition encCurrentness :: "taskScopeCurrentness \<Rightarrow> val" where
  "encCurrentness s = Obj (encScope s @ [(lit ''claimsAccepted'', Bool (claimsAccepted s))])"

definition encReservation :: "reservation \<Rightarrow> val" where
  "encReservation r = Obj [(lit ''unit'', Str (resUnit r)), (lit ''amount'', Num (Whole (resAmount r)))]"

definition encCapacityReservation :: "capacityReservation \<Rightarrow> val" where
  "encCapacityReservation r = Obj [(lit ''resource'', Str (capResource r)),
     (lit ''amount'', Num (Whole (capAmount r)))]"

definition encCommand :: "queuedCommand \<Rightarrow> val" where
  "encCommand c = Obj (
     [(lit ''sequence'', Num (Whole (cmdSequence c))), (lit ''commandId'', Str (cmdId c)),
      (lit ''repositoryId'', Str (cmdRepository c)), (lit ''runId'', Str (cmdRun c)),
      (lit ''operationId'', Str (cmdOperation c)), (lit ''kind'', Str (lit (kindText (cmdKind c)))),
      (lit ''taskScope'', Obj (encScope (cmdScope c))), (lit ''contextDigest'', Str (cmdContext c)),
      (lit ''inputDigest'', Str (cmdInputDigest c)), (lit ''input'', cmdInput c),
      (lit ''budgetReservation'', encReservation (cmdBudget c)),
      (lit ''queuedAt'', Str (cmdQueuedAt c)),
      (lit ''maxReconciliationAttempts'', Num (Whole (cmdMaxReconciliation c)))] @
     optionalField ''capacityReservation'' encCapacityReservation (cmdCapacity c) @
     optionalField ''deadline'' Str (cmdDeadline c))"

definition encIntent :: "effectIntent \<Rightarrow> val" where
  "encIntent i = Obj [(lit ''command'', encCommand (intCommand i)), (lit ''owner'', Str (intOwner i)),
     (lit ''fence'', Num (Whole (intFence i))), (lit ''attemptId'', Str (intAttempt i)),
     (lit ''status'', Str (lit ''intent'')), (lit ''persistedAt'', Str (intPersistedAt i))]"

fun statusText :: "effectStatus \<Rightarrow> string" where
  "statusText Active = ''active''"
| "statusText Completed = ''completed''"
| "statusText FailedS = ''failed''"
| "statusText Cancelled = ''cancelled''"
| "statusText UnknownS = ''unknown''"

definition encObservation :: "observation \<Rightarrow> val" where
  "encObservation x = Obj (
     [(lit ''status'', Str (lit (statusText (obsStatus x)))), (lit ''observedAt'', Str (obsAt x))] @
     optionalField ''details'' id (obsDetails x) @
     optionalField ''outputDigest'' Str (obsOutput x) @
     optionalField ''usage'' encReservation (obsUsage x))"

text \<open>\<open>canonicalStringify(a) === canonicalStringify(b)\<close>, which throws when either exceeds the limits.\<close>

definition sameText :: "val \<Rightarrow> val \<Rightarrow> exn + bool" where
  "sameText a b = bindE (canonicalStringify a) (\<lambda>s. bindE (canonicalStringify b) (\<lambda>t. Inr (s = t)))"

end
