(* ===== verification/RunnerAuthority.thy ===== *)
theory RunnerAuthority
  imports Runner
begin

text \<open>
  packages/runtime/src/in-memory-runner-authority.ts: the durable authority of effect execution.
  It holds, per run, the queued commands, the effect records, the attempt claims, the budgets and
  capacities they reserve, the task-scope fences and the receipts and events of every transition.

  An operation takes the state and returns the result (or exception) together with the state it
  leaves: \<open>(exn + 'a) \<times> runState\<close>, since an injected fault throws after the state has changed. The
  fault injector is the parameter \<open>faults\<close>, the set of points at which it throws.
\<close>

section \<open>State\<close>

record budgetState =
  budUnit :: jstr
  budLimit :: int
  budReserved :: int
  budSpent :: int
  budUnreported :: int

record effectClaim =
  claimScope :: taskScopeFence
  claimAttempt :: jstr
  claimOwner :: jstr
  claimFence :: int
  claimOrigin :: attemptOrigin

datatype receiptStatus = Queued | IntentS | OutcomeS effectStatus | ContextUpdated | ScopeFenced
  | CancellationRequested | BudgetEscalated

record receipt =
  rcCursor :: int
  rcCommand :: "jstr option"
  rcOperation :: "jstr option"
  rcStatus :: receiptStatus
  rcAt :: jstr
  rcAttempt :: "jstr option"

record runnerEvent =
  evCursor :: int
  evCommand :: "jstr option"
  evOperation :: "jstr option"
  evType :: jstr
  evAt :: jstr
  evPayload :: val

record projectedEffect =
  peOperation :: jstr
  peStatus :: effectStatus
  peOutput :: "jstr option"

record projection =
  prCursor :: int
  prContext :: jstr
  prEffects :: "projectedEffect list"

record runState =
  rsRepository :: jstr
  rsRun :: jstr
  rsContext :: jstr
  rsScopes :: "(jstr, taskScopeCurrentness) jsmap"
  rsLease :: runnerLease
  rsQueue :: "queuedCommand list"
  rsEffects :: "(jstr, effectRecord) jsmap"
  rsAttempts :: "(jstr, (jstr, effectOutcome) jsmap) jsmap"
  rsClaims :: "(jstr, effectClaim) jsmap"
  rsEscalations :: "runnerEscalation list"
  rsBudgets :: "(jstr, budgetState) jsmap"
  rsCapacities :: "(jstr, capacityState) jsmap"
  rsCursor :: int
  rsReceipts :: "receipt list"
  rsEvents :: "runnerEvent list"
  rsProjection :: projection

type_synonym authority = "(jstr, runState) jsmap"

datatype faultPoint = BeforeIntentPersist | AfterIntentPersist | BeforeEffectCommit
  | AfterEffectCommit

section \<open>Validation\<close>

definition validIdentity :: "jstr \<Rightarrow> bool" where
  "validIdentity s \<longleftrightarrow> s \<noteq> [] \<and> length s \<le> 128"

text \<open>\<open>/^[a-z][a-z0-9-]{0,63}$/\<close>\<close>

definition validUnit :: "jstr \<Rightarrow> bool" where
  "validUnit s = (case s of [] \<Rightarrow> False
     | c # cs \<Rightarrow> isLower c \<and> length cs \<le> 63 \<and> list_all (\<lambda>d. isLower d \<or> isDigit d \<or> d = 45) cs)"

definition validAmount :: "int \<Rightarrow> bool" where
  "validAmount n \<longleftrightarrow> isSafe n \<and> n \<ge> 0"

definition validPositive :: "int \<Rightarrow> bool" where
  "validPositive n \<longleftrightarrow> isSafe n \<and> n \<ge> 1"

definition validLease :: "runnerLease \<Rightarrow> bool" where
  "validLease l \<longleftrightarrow> validIdentity (leaseOwner l) \<and> validPositive (leaseFence l) \<and>
     validTimestamp (leaseExpires l)"

definition validScopeFence :: "'a taskScopeFence_scheme \<Rightarrow> jstr \<Rightarrow> bool" where
  "validScopeFence s run \<longleftrightarrow> scopeRun s = run \<and> validIdentity (scopeTask s) \<and>
     validPositive (scopeGeneration s) \<and> sha256Pattern (scopeContext s) \<and> validPositive (scopeFence s)"

definition validCapacityState :: "capacityState \<Rightarrow> bool" where
  "validCapacityState c \<longleftrightarrow> capStateResource c = lit ''writer'' \<and> validPositive (capLimit c) \<and>
     validAmount (capOccupied c) \<and> capOccupied c \<le> capLimit c"

text \<open>
  The checks of \<open>validateCommand\<close> before and after it stringifies the input, which may throw an
  exception of its own.
\<close>

definition validCommandHead :: "queuedCommand \<Rightarrow> bool" where
  "validCommandHead c \<longleftrightarrow> validPositive (cmdSequence c) \<and> validIdentity (cmdId c) \<and>
     validIdentity (cmdRepository c) \<and> validIdentity (cmdRun c) \<and> validIdentity (cmdOperation c) \<and>
     validScopeFence (cmdScope c) (cmdRun c) \<and> cmdContext c = scopeContext (cmdScope c) \<and>
     sha256Pattern (cmdContext c) \<and> sha256Pattern (cmdInputDigest c)"

definition validCommandTail :: "queuedCommand \<Rightarrow> bool" where
  "validCommandTail c \<longleftrightarrow> validUnit (resUnit (cmdBudget c)) \<and> validAmount (resAmount (cmdBudget c)) \<and>
     (case cmdCapacity c of None \<Rightarrow> True
        | Some r \<Rightarrow> capResource r = lit ''writer'' \<and> validPositive (capAmount r)) \<and>
     validTimestamp (cmdQueuedAt c) \<and>
     (case cmdDeadline c of None \<Rightarrow> True | Some d \<Rightarrow> validTimestamp d) \<and>
     validPositive (cmdMaxReconciliation c)"

definition validateCommand :: "queuedCommand \<Rightarrow> exn + unit" where
  "validateCommand c =
     (if \<not> validCommandHead c then Inl TypeError
      else bindE (canonicalStringify (cmdInput c)) (\<lambda>_.
        if \<not> validCommandTail c then Inl TypeError else Inr ()))"

text \<open>
  A command is stored as parsed back from its canonical text, which is \<open>norm\<close> of its input: every
  other field is a string or a safe integer and comes back as it was.
\<close>

definition snapshotCommand :: "queuedCommand \<Rightarrow> exn + queuedCommand" where
  "snapshotCommand c = bindE (canonicalStringify (encCommand c)) (\<lambda>_.
     Inr (c\<lparr>cmdInput := norm (cmdInput c)\<rparr>))"

definition snapshotObservation :: "observation \<Rightarrow> exn + observation" where
  "snapshotObservation x =
     (if \<not> validTimestamp (obsAt x) then Inl TypeError
      else bindE (case obsDetails x of None \<Rightarrow> Inr () | Some d \<Rightarrow> bindE (canonicalStringify d) (\<lambda>_. Inr ())) (\<lambda>_.
        if (case obsOutput x of None \<Rightarrow> False | Some d \<Rightarrow> \<not> sha256Pattern d) then Inl TypeError
        else if (case obsUsage x of None \<Rightarrow> False
               | Some u \<Rightarrow> \<not> validUnit (resUnit u) \<or> \<not> validAmount (resAmount u)) then Inl TypeError
        else bindE (canonicalStringify (encObservation x)) (\<lambda>_.
          Inr (x\<lparr>obsDetails := map_option norm (obsDetails x)\<rparr>))))"

section \<open>Projection, receipts and events\<close>

definition isCurrentOutcome :: "runState \<Rightarrow> taskScopeFence \<Rightarrow> taskScopeFence \<Rightarrow> bool" where
  "isCurrentOutcome run commandScope claimedScope =
     (case mapGet (rsScopes run) (taskScopeKey commandScope) of
        None \<Rightarrow> False
      | Some c \<Rightarrow> claimsAccepted c \<and> sameTaskScopeFence commandScope c \<and> sameTaskScopeFence claimedScope c)"

definition projectRun :: "runState \<Rightarrow> projection" where
  "projectRun run = \<lparr>prCursor = rsCursor run, prContext = rsContext run,
     prEffects = sort_key peOperation (concat (map (\<lambda>r. case recOutcome r of
         None \<Rightarrow> []
       | Some out \<Rightarrow> if isCurrentOutcome run (outCommandScope out) (outClaimScope out)
           then [\<lparr>peOperation = outOperation out, peStatus = outStatus out, peOutput = outOutput out\<rparr>]
           else []) (mapValues (rsEffects run))))\<rparr>"

fun receiptText :: "receiptStatus \<Rightarrow> string" where
  "receiptText Queued = ''queued''"
| "receiptText IntentS = ''intent''"
| "receiptText (OutcomeS s) = statusText s"
| "receiptText ContextUpdated = ''context-updated''"
| "receiptText ScopeFenced = ''scope-fenced''"
| "receiptText CancellationRequested = ''cancellation-requested''"
| "receiptText BudgetEscalated = ''budget-escalated''"

text \<open>Every transition takes the next cursor, records one receipt and one event, and reprojects.\<close>

definition record_transition ::
  "jstr option \<Rightarrow> jstr option \<Rightarrow> receiptStatus \<Rightarrow> jstr \<Rightarrow> jstr \<Rightarrow> jstr option \<Rightarrow> val \<Rightarrow> runState \<Rightarrow> runState" where
  "record_transition cmd oper status eventType at attempt payload run =
     (let cursor = rsCursor run + 1;
          run' = run\<lparr>rsCursor := cursor,
            rsReceipts := rsReceipts run @ [\<lparr>rcCursor = cursor, rcCommand = cmd, rcOperation = oper,
              rcStatus = (if status = BudgetEscalated then OutcomeS FailedS else status),
              rcAt = at, rcAttempt = attempt\<rparr>],
            rsEvents := rsEvents run @ [\<lparr>evCursor = cursor, evCommand = cmd, evOperation = oper,
              evType = eventType, evAt = at, evPayload = payload\<rparr>]\<rparr>
      in run'\<lparr>rsProjection := projectRun run'\<rparr>)"

definition appendTransition ::
  "queuedCommand \<Rightarrow> receiptStatus \<Rightarrow> jstr \<Rightarrow> jstr option \<Rightarrow> val \<Rightarrow> runState \<Rightarrow> runState" where
  "appendTransition c status at attempt payload run =
     record_transition (Some (cmdId c)) (Some (cmdOperation c)) status
       (lit ''effect-'' @ lit (receiptText status)) at attempt payload run"

definition appendRunTransition :: "receiptStatus \<Rightarrow> jstr \<Rightarrow> val \<Rightarrow> runState \<Rightarrow> runState" where
  "appendRunTransition status at payload run =
     record_transition None None status (lit ''runner-'' @ lit (receiptText status)) at None payload run"

section \<open>Configuration and queueing\<close>

definition runKey :: "jstr \<Rightarrow> jstr \<Rightarrow> jstr" where
  "runKey repository run = repository @ [0] @ run"

definition requiredRun :: "authority \<Rightarrow> jstr \<Rightarrow> jstr \<Rightarrow> exn + runState" where
  "requiredRun a repository run = (case mapGet a (runKey repository run) of
     None \<Rightarrow> Inl TypeError | Some r \<Rightarrow> Inr r)"

record configureInput =
  cfgRepository :: jstr
  cfgRun :: jstr
  cfgContext :: jstr
  cfgScopes :: "taskScopeCurrentness list"
  cfgBudgets :: "(jstr \<times> int) list"
  cfgCapacities :: "capacityState list option"
  cfgLease :: runnerLease

definition newBudget :: "jstr \<Rightarrow> int \<Rightarrow> budgetState" where
  "newBudget unit limit =
     \<lparr>budUnit = unit, budLimit = limit, budReserved = 0, budSpent = 0, budUnreported = 0\<rparr>"

definition configureScopes :: "configureInput \<Rightarrow> exn + (jstr, taskScopeCurrentness) jsmap" where
  "configureScopes input = foldE (\<lambda>m s.
     if \<not> validScopeFence s (cfgRun input) then Inl TypeError
     else if mapHas m (taskScopeKey s) then Inl TypeError
     else Inr (mapSet (taskScopeKey s) s m)) [] (cfgScopes input)"

definition configureBudgets :: "configureInput \<Rightarrow> exn + (jstr, budgetState) jsmap" where
  "configureBudgets input = foldE (\<lambda>m (u, l).
     if \<not> validUnit u \<or> \<not> validAmount l then Inl TypeError
     else if mapHas m u then Inl TypeError
     else Inr (mapSet u (newBudget u l) m)) [] (cfgBudgets input)"

definition configureCapacities :: "configureInput \<Rightarrow> exn + (jstr, capacityState) jsmap" where
  "configureCapacities input = foldE (\<lambda>m c.
     if \<not> validCapacityState c then Inl TypeError
     else if mapHas m (capStateResource c) then Inl TypeError
     else Inr (mapSet (capStateResource c) c m)) []
     (case cfgCapacities input of
        None \<Rightarrow> [\<lparr>capStateResource = lit ''writer'', capLimit = 1, capOccupied = 0\<rparr>]
      | Some cs \<Rightarrow> cs)"

definition newRun :: "configureInput \<Rightarrow> (jstr, taskScopeCurrentness) jsmap \<Rightarrow> (jstr, budgetState) jsmap \<Rightarrow>
    (jstr, capacityState) jsmap \<Rightarrow> runState" where
  "newRun input scopes budgets capacities =
     \<lparr>rsRepository = cfgRepository input, rsRun = cfgRun input, rsContext = cfgContext input,
      rsScopes = scopes, rsLease = cfgLease input, rsQueue = [], rsEffects = [], rsAttempts = [],
      rsClaims = [], rsEscalations = [], rsBudgets = budgets, rsCapacities = capacities,
      rsCursor = 0, rsReceipts = [], rsEvents = [],
      rsProjection = \<lparr>prCursor = 0, prContext = cfgContext input, prEffects = []\<rparr>\<rparr>"

definition configureRun :: "authority \<Rightarrow> configureInput \<Rightarrow> exn + authority" where
  "configureRun a input =
     (if \<not> validIdentity (cfgRepository input) \<or> \<not> validIdentity (cfgRun input) \<or>
         \<not> sha256Pattern (cfgContext input) then Inl TypeError
      else bindE (configureScopes input) (\<lambda>scopes.
      if \<not> validLease (cfgLease input) then Inl TypeError
      else if mapHas a (runKey (cfgRepository input) (cfgRun input)) then Inl TypeError
      else bindE (configureBudgets input) (\<lambda>budgets.
      bindE (configureCapacities input) (\<lambda>capacities.
        Inr (mapSet (runKey (cfgRepository input) (cfgRun input))
          (newRun input scopes budgets capacities) a)))))"

text \<open>\<open>enqueue\<close> after the command is validated and the run found.\<close>

definition enqueueRun :: "queuedCommand \<Rightarrow> runState \<Rightarrow> exn + runState" where
  "enqueueRun c run =
     (if list_ex (\<lambda>q. cmdId q = cmdId c) (rsQueue run) \<or>
         list_ex (\<lambda>r. cmdId (intCommand (recIntent r)) = cmdId c) (mapValues (rsEffects run))
      then Inl TypeError
      else if list_ex (\<lambda>q. cmdOperation q = cmdOperation c) (rsQueue run) \<or>
         mapHas (rsEffects run) (cmdOperation c)
      then Inl TypeError
      else bindE (snapshotCommand c) (\<lambda>stored.
        Inr (record_transition (Some (cmdId stored)) (Some (cmdOperation stored)) Queued
          (lit ''effect-command-queued'') (cmdQueuedAt stored) None
          (Obj [(lit ''kind'', Str (lit (kindText (cmdKind stored))))])
          (run\<lparr>rsQueue := rsQueue run @ [stored]\<rparr>))))"

definition loadRun :: "runState \<Rightarrow> authoritySnapshot" where
  "loadRun run = \<lparr>snapRepository = rsRepository run, snapRun = rsRun run,
     snapScopes = sort_key (\<lambda>s. (scopeRun s, scopeTask s, scopeGeneration s)) (mapValues (rsScopes run)),
     snapQueue = rsQueue run, snapEffects = mapValues (rsEffects run),
     snapEscalations = rsEscalations run,
     snapCapacities = sort_key capStateResource (mapValues (rsCapacities run))\<rparr>"

definition assertFence :: "runState \<Rightarrow> runnerLease \<Rightarrow> jstr \<Rightarrow> exn + unit" where
  "assertFence run supplied now =
     (if \<not> validTimestamp now then Inl TypeError
      else if leaseOwner supplied \<noteq> leaseOwner (rsLease run) \<or> leaseFence supplied \<noteq> leaseFence (rsLease run) \<or>
         leaseExpires supplied \<noteq> leaseExpires (rsLease run) \<or> timeGe now (leaseExpires (rsLease run))
      then Inl StaleLeaseFence
      else Inr ())"

section \<open>Scopes and budgets\<close>

definition ensureTaskScopesAndBudgetsRun ::
  "runState \<Rightarrow> runnerLease \<Rightarrow> jstr \<Rightarrow> taskScopeCurrentness list \<Rightarrow> (jstr \<times> int) list \<Rightarrow> exn + runState" where
  "ensureTaskScopesAndBudgetsRun run lease now scopes budgets =
     bindE (assertFence run lease now) (\<lambda>_.
     bindE (foldE (\<lambda>m s.
         if \<not> validScopeFence s (rsRun run) then Inl TypeError
         else if \<not> claimsAccepted s then Inl TypeError
         else if mapHas m (taskScopeKey s) then Inl TypeError
         else bindE (case mapGet (rsScopes run) (taskScopeKey s) of
             None \<Rightarrow> Inr True | Some e \<Rightarrow> sameText (encCurrentness e) (encCurrentness s)) (\<lambda>same.
           if \<not> same then Inl TypeError else Inr (mapSet (taskScopeKey s) s m))) [] scopes) (\<lambda>admitted.
     bindE (foldE (\<lambda>m (u, l).
         if \<not> validUnit u \<or> \<not> validAmount l then Inl TypeError
         else if mapHas m u then Inl TypeError
         else (case mapGet (rsBudgets run) u of
             None \<Rightarrow> Inr (mapSet u l m)
           | Some e \<Rightarrow> if l < budLimit e then Inl TypeError else Inr (mapSet u l m))) [] budgets) (\<lambda>limits.
       Inr (run\<lparr>rsScopes := fold (\<lambda>(k, s) m. if mapHas m k then m else mapSet k s m) admitted (rsScopes run),
            rsBudgets := fold (\<lambda>(u, l) m. case mapGet m u of
                None \<Rightarrow> mapSet u (newBudget u l) m
              | Some e \<Rightarrow> mapSet u (e\<lparr>budLimit := l\<rparr>) m) limits (rsBudgets run)\<rparr>))))"

text \<open>One validated installation: its scope is named once, is known, current and not yet fenced.\<close>

definition checkInstallation :: "runState \<Rightarrow> jstr \<Rightarrow> jstr list \<Rightarrow> fenceInstallation \<Rightarrow> exn + taskScopeCurrentness \<times> jstr list" where
  "checkInstallation run runId seen f =
     (if scopeRun (instScope f) \<noteq> runId then Inl TypeError
      else let key = taskScopeKey (instScope f) in
        if key \<in> set seen then Inl TypeError
        else case mapGet (rsScopes run) key of
          None \<Rightarrow> Inl TypeError
        | Some s \<Rightarrow>
            if scopeFence s \<noteq> expectedFence f \<or> scopeContext s \<noteq> expectedContext f then Inl TypeError
            else if \<not> claimsAccepted s then Inl TypeError
            else Inr (s, key # seen))"

definition fenceScope :: "jstr \<Rightarrow> taskScopeCurrentness \<Rightarrow> runState \<Rightarrow> runState" where
  "fenceScope at s run =
     (let next = s\<lparr>scopeFence := scopeFence s + 1, claimsAccepted := False\<rparr>
      in run\<lparr>rsScopes := mapSet (taskScopeKey s) next (rsScopes run),
           rsEffects := mapEntries (\<lambda>oper r.
             if \<not> isTerminalRecord r \<and> sameTaskScope (cmdScope (intCommand (recIntent r))) s \<and>
                recCancelAt r = None
             then r\<lparr>recCancelAt := Some at\<rparr> else r) (rsEffects run)\<rparr>)"

definition installTaskScopeFencesRun ::
  "runState \<Rightarrow> jstr \<Rightarrow> jstr \<Rightarrow> fenceInstallation list \<Rightarrow> exn + taskScopeCurrentness list \<times> runState" where
  "installTaskScopeFencesRun run runId at fences =
     (if \<not> validTimestamp at then Inl TypeError
      else bindE (mapAccumE (checkInstallation run runId) []
          (sort_key (\<lambda>f. (scopeRun (instScope f), scopeTask (instScope f), scopeGeneration (instScope f))) fences))
        (\<lambda>(current, _).
          let installed = map (\<lambda>s. s\<lparr>scopeFence := scopeFence s + 1, claimsAccepted := False\<rparr>) current;
              run' = fold (fenceScope at) current run
          in Inr (installed,
               fold (\<lambda>s. appendRunTransition ScopeFenced at
                 (Obj [(lit ''taskId'', Str (scopeTask s)),
                       (lit ''definitionGeneration'', Num (Whole (scopeGeneration s))),
                       (lit ''acceptedContextDigest'', Str (scopeContext s)),
                       (lit ''fenceGeneration'', Num (Whole (scopeFence s)))])) installed run')))"

section \<open>Claims\<close>

datatype claimResult = Claimed attemptOrigin effectRecord | Busy | Fenced taskScopeCurrentness
  | Replay effectOutcome

definition attemptOutcome :: "runState \<Rightarrow> jstr \<Rightarrow> jstr \<Rightarrow> effectOutcome option" where
  "attemptOutcome run oper attempt =
     (case mapGet (rsAttempts run) oper of None \<Rightarrow> None | Some m \<Rightarrow> mapGet m attempt)"

definition durableRecord :: "runState \<Rightarrow> effectIntent \<Rightarrow> exn + effectRecord" where
  "durableRecord run i = (case mapGet (rsEffects run) (cmdOperation (intCommand i)) of
     None \<Rightarrow> Inl TypeError
   | Some r \<Rightarrow> bindE (sameText (encIntent (recIntent r)) (encIntent i)) (\<lambda>same.
       if \<not> same then Inl TypeError else Inr r))"

definition claimEffectAttemptRun ::
  "runState \<Rightarrow> runOnceInput \<Rightarrow> effectIntent \<Rightarrow> taskScopeFence \<Rightarrow> exn + claimResult \<times> runState" where
  "claimEffectAttemptRun run input i scope =
     bindE (assertFence run (inLease input) (inTime input)) (\<lambda>_.
     bindE (durableRecord run i) (\<lambda>r.
     let oper = cmdOperation (intCommand i) in
     case attemptOutcome run oper (inAttempt input) of
       Some out \<Rightarrow> Inr (Replay out, run)
     | None \<Rightarrow>
     if isTerminalRecord r then Inr (Replay (the (recOutcome r)), run)
     else case mapGet (rsScopes run) (taskScopeKey (cmdScope (intCommand (recIntent r)))) of
       None \<Rightarrow> Inl TypeError
     | Some currentness \<Rightarrow>
         if \<not> sameTaskScopeFence scope currentness then Inl TypeError
         else let action = selectEffectAttemptAction r (inTime input) (inAttempt input) in
           if action = Dispatch \<and> (\<not> claimsAccepted currentness \<or>
                \<not> sameTaskScopeFence (cmdScope (intCommand (recIntent r))) currentness)
           then Inr (Fenced currentness, run)
           else if (case mapGet (rsClaims run) oper of None \<Rightarrow> False
                    | Some c \<Rightarrow> claimFence c = leaseFence (inLease input))
           then Inr (Busy, run)
           else Inr (Claimed action r, run\<lparr>rsClaims := mapSet oper
             \<lparr>claimScope = scope, claimAttempt = inAttempt input,
              claimOwner = leaseOwner (inLease input), claimFence = leaseFence (inLease input),
              claimOrigin = action\<rparr> (rsClaims run)\<rparr>)))"

section \<open>Intents\<close>

text \<open>
  An operation that may throw after it has changed the state: the outer \<open>Inl\<close> is an exception that
  leaves the state as it was, the inner one an exception thrown after the change.
\<close>

type_synonym 'a effectful = "exn + (exn + 'a) \<times> runState"

definition settle :: "runState \<Rightarrow> 'a effectful \<Rightarrow> (exn + 'a) \<times> runState" where
  "settle run m = (case m of Inl e \<Rightarrow> (Inl e, run) | Inr p \<Rightarrow> p)"

definition faulted :: "faultPoint set \<Rightarrow> faultPoint \<Rightarrow> 'a \<Rightarrow> exn + 'a" where
  "faulted faults point x = (if point \<in> faults then Inl RunnerFault else Inr x)"

datatype persistResult = Persisted effectIntent | Escalated runnerEscalation
  | CapacityUnavailable capacityReservation int

definition available :: "budgetState \<Rightarrow> int" where
  "available b = max 0 (budLimit b - budSpent b - budReserved b)"

definition escalate ::
  "faultPoint set \<Rightarrow> runOnceInput \<Rightarrow> queuedCommand \<Rightarrow> budgetState \<Rightarrow> runState \<Rightarrow>
     (exn + persistResult) \<times> runState" where
  "escalate faults input queued b run =
     (let esc = \<lparr>rescCommand = cmdId queued, rescOperation = cmdOperation queued,
            rescUnit = budUnit b, rescRequested = resAmount (cmdBudget queued),
            rescAvailable = available b, rescAt = inTime input\<rparr>
      in (faulted faults AfterIntentPersist (Escalated esc),
          appendTransition queued BudgetEscalated (inTime input) (Some (inAttempt input))
            (Obj [(lit ''unit'', Str (budUnit b)),
                  (lit ''requested'', Num (Whole (resAmount (cmdBudget queued)))),
                  (lit ''available'', Num (Whole (available b)))])
            (run\<lparr>rsEscalations := rsEscalations run @ [esc]\<rparr>)))"

text \<open>The capacity a command asks for, with the state of its resource.\<close>

definition requestedCapacity ::
  "runState \<Rightarrow> queuedCommand \<Rightarrow> exn + (capacityReservation \<times> capacityState) option" where
  "requestedCapacity run queued = (case cmdCapacity queued of
     None \<Rightarrow> Inr None
   | Some r \<Rightarrow> (case mapGet (rsCapacities run) (capResource r) of
       None \<Rightarrow> Inl TypeError
     | Some s \<Rightarrow> Inr (Some (r, s))))"

definition capacityAvailable :: "capacityState \<Rightarrow> int" where
  "capacityAvailable s = max 0 (capLimit s - capOccupied s)"

definition storeIntent ::
  "faultPoint set \<Rightarrow> runOnceInput \<Rightarrow> queuedCommand \<Rightarrow> budgetState \<Rightarrow>
     (capacityReservation \<times> capacityState) option \<Rightarrow> runState \<Rightarrow> (exn + persistResult) \<times> runState" where
  "storeIntent faults input queued b reserved run =
     (let intent = \<lparr>intCommand = queued, intOwner = leaseOwner (inLease input),
            intFence = leaseFence (inLease input), intAttempt = inAttempt input,
            intPersistedAt = inTime input\<rparr>
      in (faulted faults AfterIntentPersist (Persisted intent),
          appendTransition queued IntentS (inTime input) (Some (inAttempt input))
            (Obj [(lit ''owner'', Str (intOwner intent)), (lit ''fence'', Num (Whole (intFence intent))),
                  (lit ''contextDigest'', Str (cmdContext queued)),
                  (lit ''inputDigest'', Str (cmdInputDigest queued)),
                  (lit ''budgetReservation'', encReservation (cmdBudget queued))])
            (run\<lparr>rsBudgets := mapSet (resUnit (cmdBudget queued))
                   (b\<lparr>budReserved := budReserved b + resAmount (cmdBudget queued)\<rparr>) (rsBudgets run),
                 rsCapacities := (case reserved of None \<Rightarrow> rsCapacities run
                   | Some (r, s) \<Rightarrow> mapSet (capResource r)
                       (s\<lparr>capOccupied := capOccupied s + capAmount r\<rparr>) (rsCapacities run)),
                 rsEffects := mapSet (cmdOperation queued)
                   \<lparr>recIntent = intent, recOutcome = None, recCancelAt = None\<rparr> (rsEffects run)\<rparr>)))"

definition scopeAccepts :: "runState \<Rightarrow> taskScopeFence \<Rightarrow> bool" where
  "scopeAccepts run s = (case mapGet (rsScopes run) (taskScopeKey s) of None \<Rightarrow> False
     | Some c \<Rightarrow> claimsAccepted c \<and> sameTaskScopeFence s c)"

text \<open>\<open>persistIntent\<close> after the first fault point, on the run it found.\<close>

definition persistIntentRun ::
  "faultPoint set \<Rightarrow> runOnceInput \<Rightarrow> queuedCommand \<Rightarrow> runState \<Rightarrow> persistResult effectful" where
  "persistIntentRun faults input cmd run =
     bindE (assertFence run (inLease input) (inTime input)) (\<lambda>_.
     case find (\<lambda>q. cmdId q = cmdId cmd) (rsQueue run) of
       None \<Rightarrow> Inl TypeError
     | Some queued \<Rightarrow> bindE (sameText (encCommand queued) (encCommand cmd)) (\<lambda>same.
     if \<not> same then Inl TypeError
     else case mapGet (rsEffects run) (cmdOperation queued) of
       Some r \<Rightarrow> Inr (Inr (Persisted (recIntent r)), run)
     | None \<Rightarrow>
     if \<not> scopeAccepts run (cmdScope queued) then Inl TypeError
     else case mapGet (rsBudgets run) (resUnit (cmdBudget queued)) of
       None \<Rightarrow> Inl TypeError
     | Some b \<Rightarrow>
     if resAmount (cmdBudget queued) > available b then Inr (escalate faults input queued b run)
     else bindE (requestedCapacity run queued) (\<lambda>reserved.
       case reserved of
         None \<Rightarrow> Inr (storeIntent faults input queued b None run)
       | Some (r, s) \<Rightarrow>
           if capAmount r > capacityAvailable s
           then Inr (Inr (CapacityUnavailable r (capacityAvailable s)), run)
           else Inr (storeIntent faults input queued b (Some (r, s)) run))))"

section \<open>Outcomes\<close>

definition finalizeUsage :: "reservation \<Rightarrow> observation \<Rightarrow> bool \<Rightarrow> exn + finalizedUsage" where
  "finalizeUsage r x terminal =
     (if (case obsUsage x of None \<Rightarrow> False | Some u \<Rightarrow> resUnit u \<noteq> resUnit r) then Inl TypeError
      else if (case obsUsage x of None \<Rightarrow> False | Some u \<Rightarrow> resAmount u > resAmount r) then Inl TypeError
      else Inr \<lparr>usageUnit = resUnit r, usageReserved = resAmount r,
        usageReported = map_option resAmount (obsUsage x),
        usageUnreported = (if terminal \<and> obsUsage x = None then resAmount r else 0)\<rparr>)"

definition charged :: "finalizedUsage \<Rightarrow> int" where
  "charged u = (case usageReported u of None \<Rightarrow> usageUnreported u | Some n \<Rightarrow> n)"

text \<open>The reservation released and the usage spent, when the outcome is terminal.\<close>

definition settleBudget :: "finalizedUsage \<Rightarrow> budgetState \<Rightarrow> budgetState" where
  "settleBudget u b = b\<lparr>budReserved := budReserved b - usageReserved u,
     budSpent := budSpent b + charged u, budUnreported := budUnreported b + usageUnreported u\<rparr>"

definition buildOutcome ::
  "runState \<Rightarrow> runOnceInput \<Rightarrow> effectRecord \<Rightarrow> effectClaim \<Rightarrow> observation \<Rightarrow> finalizedUsage \<Rightarrow> effectOutcome" where
  "buildOutcome run input r claim x usage =
     (let c = intCommand (recIntent r) in
      \<lparr>outCommand = cmdId c, outOperation = cmdOperation c, outKind = cmdKind c,
       outOwner = leaseOwner (inLease input), outFence = leaseFence (inLease input),
       outAttempt = inAttempt input, outCommandScope = cmdScope c, outClaimScope = claimScope claim,
       outContext = cmdContext c, outInputDigest = cmdInputDigest c, outStatus = obsStatus x,
       outCurrent = isCurrentOutcome run (cmdScope c) (claimScope claim), outAt = obsAt x,
       outReconciliations = (case recOutcome r of
           None \<Rightarrow> (if obsStatus x = UnknownS then 1 else 0)
         | Some p \<Rightarrow> min (outReconciliations p + 1) (cmdMaxReconciliation c)),
       outUsage = usage, outOrigin = claimOrigin claim, outDetails = obsDetails x,
       outOutput = obsOutput x\<rparr>)"

definition outcomePayload :: "effectOutcome \<Rightarrow> val" where
  "outcomePayload out = Obj (
     [(lit ''freshness'', Str (lit (if outCurrent out then ''current'' else ''stale''))),
      (lit ''reconciliationAttempts'', Num (Whole (outReconciliations out))),
      (lit ''usage'', Obj ([(lit ''unit'', Str (usageUnit (outUsage out))),
          (lit ''reserved'', Num (Whole (usageReserved (outUsage out))))] @
          optionalField ''reported'' (\<lambda>n. Num (Whole n)) (usageReported (outUsage out)) @
          [(lit ''unreported'', Num (Whole (usageUnreported (outUsage out))))]))] @
     optionalField ''outputDigest'' Str (outOutput out))"

definition storeOutcome ::
  "faultPoint set \<Rightarrow> effectRecord \<Rightarrow> effectOutcome \<Rightarrow> runState \<Rightarrow> (exn + effectOutcome) \<times> runState" where
  "storeOutcome faults r out run =
     (let oper = outOperation out;
          attempts = (case mapGet (rsAttempts run) oper of None \<Rightarrow> [] | Some m \<Rightarrow> m)
      in (faulted faults AfterEffectCommit out,
          appendTransition (intCommand (recIntent r)) (OutcomeS (outStatus out)) (outAt out)
            (Some (outAttempt out)) (outcomePayload out)
            (run\<lparr>rsEffects := mapSet oper (r\<lparr>recOutcome := Some out\<rparr>) (rsEffects run),
                 rsAttempts := mapSet oper (mapSet (outAttempt out) out attempts) (rsAttempts run),
                 rsClaims := mapDelete oper (rsClaims run)\<rparr>)))"

definition liveClaim :: "runState \<Rightarrow> runOnceInput \<Rightarrow> effectIntent \<Rightarrow> effectClaim option" where
  "liveClaim run input i = (case mapGet (rsClaims run) (cmdOperation (intCommand i)) of
     None \<Rightarrow> None
   | Some c \<Rightarrow> if claimAttempt c = inAttempt input \<and> claimOwner c = leaseOwner (inLease input) \<and>
       claimFence c = leaseFence (inLease input) \<and> sameTaskScope (claimScope c) (cmdScope (intCommand i))
     then Some c else None)"

definition commitEffectRun ::
  "faultPoint set \<Rightarrow> runOnceInput \<Rightarrow> effectIntent \<Rightarrow> observation \<Rightarrow> runState \<Rightarrow> effectOutcome effectful" where
  "commitEffectRun faults input i observed run =
     bindE (assertFence run (inLease input) (inTime input)) (\<lambda>_.
     bindE (durableRecord run i) (\<lambda>r.
     case attemptOutcome run (cmdOperation (intCommand i)) (inAttempt input) of
       Some out \<Rightarrow> Inr (Inr out, run)
     | None \<Rightarrow>
     if isTerminalRecord r then Inr (Inr (the (recOutcome r)), run)
     else case liveClaim run input i of
       None \<Rightarrow> Inl TypeError
     | Some claim \<Rightarrow> bindE (snapshotObservation observed) (\<lambda>x.
     let reserved = cmdBudget (intCommand (recIntent r)) in
     bindE (finalizeUsage reserved x (isTerminal (obsStatus x))) (\<lambda>usage.
     let out = buildOutcome run input r claim x usage in
     case mapGet (rsBudgets run) (resUnit reserved) of
       None \<Rightarrow> Inl TypeError
     | Some b \<Rightarrow>
     if \<not> isTerminal (outStatus out) then Inr (storeOutcome faults r out run)
     else let run' = run\<lparr>rsBudgets := mapSet (resUnit reserved) (settleBudget usage b) (rsBudgets run)\<rparr> in
       case cmdCapacity (intCommand (recIntent r)) of
         None \<Rightarrow> Inr (storeOutcome faults r out run')
       | Some cr \<Rightarrow> (case mapGet (rsCapacities run) (capResource cr) of
           None \<Rightarrow> Inr (Inl TypeError, run')
         | Some s \<Rightarrow> Inr (storeOutcome faults r out (run'\<lparr>rsCapacities := mapSet (capResource cr)
             (s\<lparr>capOccupied := capOccupied s - capAmount cr\<rparr>) (rsCapacities run)\<rparr>)))))))"

section \<open>Lease, context and cancellation\<close>

definition setLeaseRun :: "runnerLease \<Rightarrow> runState \<Rightarrow> exn + runState" where
  "setLeaseRun l run = (if \<not> validLease l then Inl TypeError else Inr (run\<lparr>rsLease := l\<rparr>))"

definition updateContextRun :: "jstr \<Rightarrow> runnerLease \<Rightarrow> jstr \<Rightarrow> runState \<Rightarrow> exn + runState" where
  "updateContextRun digest lease now run =
     (if \<not> sha256Pattern digest then Inl TypeError
      else bindE (assertFence run lease now) (\<lambda>_.
        if list_ex (\<lambda>c. claimFence c = leaseFence lease) (mapValues (rsClaims run)) then Inl TypeError
        else let cleared = run\<lparr>rsClaims := []\<rparr> in
          if rsContext run = digest then Inr cleared
          else Inr (appendRunTransition ContextUpdated now
            (Obj [(lit ''previousContextDigest'', Str (rsContext run)), (lit ''contextDigest'', Str digest)])
            (cleared\<lparr>rsContext := digest\<rparr>))))"

definition requestCancellationRun ::
  "jstr \<Rightarrow> jstr \<Rightarrow> runnerLease \<Rightarrow> jstr \<Rightarrow> runState \<Rightarrow> exn + runState" where
  "requestCancellationRun oper requestedAt lease now run =
     (if \<not> validTimestamp requestedAt then Inl TypeError
      else if timeGt requestedAt now then Inl TypeError
      else bindE (assertFence run lease now) (\<lambda>_. case mapGet (rsEffects run) oper of
          None \<Rightarrow> Inl TypeError
        | Some r \<Rightarrow>
            if isTerminalRecord r then Inr run
            else if recCancelAt r \<noteq> None then Inr run
            else Inr (appendTransition (intCommand (recIntent r)) CancellationRequested requestedAt None
              (Obj [(lit ''owner'', Str (leaseOwner lease)), (lit ''fence'', Num (Whole (leaseFence lease)))])
              (run\<lparr>rsEffects := mapSet oper (r\<lparr>recCancelAt := Some requestedAt\<rparr>) (rsEffects run)\<rparr>))))"

definition queryBudgets :: "runState \<Rightarrow> budgetState list" where
  "queryBudgets run = sort_key budUnit (mapValues (rsBudgets run))"

definition queryCapacities :: "runState \<Rightarrow> capacityState list" where
  "queryCapacities run = sort_key capStateResource (mapValues (rsCapacities run))"

section \<open>The authority\<close>

text \<open>
  A method of the authority finds the run it names and acts on it. \<open>onRun\<close> puts the run a method
  leaves, also when it throws, back in the map.
\<close>

definition onRun ::
  "authority \<Rightarrow> jstr \<Rightarrow> jstr \<Rightarrow> (runState \<Rightarrow> (exn + 'a) \<times> runState) \<Rightarrow> (exn + 'a) \<times> authority" where
  "onRun a repository runId f = (case requiredRun a repository runId of
     Inl e \<Rightarrow> (Inl e, a)
   | Inr run \<Rightarrow> (case f run of (res, run') \<Rightarrow> (res, mapSet (runKey repository runId) run' a)))"

definition orSame :: "runState \<Rightarrow> exn + 'a \<times> runState \<Rightarrow> (exn + 'a) \<times> runState" where
  "orSame run m = (case m of Inl e \<Rightarrow> (Inl e, run) | Inr (x, run') \<Rightarrow> (Inr x, run'))"

definition quiet :: "exn + runState \<Rightarrow> exn + unit \<times> runState" where
  "quiet m = bindE m (\<lambda>run. Inr ((), run))"

definition enqueue :: "authority \<Rightarrow> queuedCommand \<Rightarrow> (exn + unit) \<times> authority" where
  "enqueue a c = (case validateCommand c of
     Inl e \<Rightarrow> (Inl e, a)
   | Inr _ \<Rightarrow> onRun a (cmdRepository c) (cmdRun c) (\<lambda>run. orSame run (quiet (enqueueRun c run))))"

definition assertLease :: "authority \<Rightarrow> runOnceInput \<Rightarrow> exn + unit" where
  "assertLease a input = bindE (requiredRun a (inRepository input) (inRun input))
     (\<lambda>run. assertFence run (inLease input) (inTime input))"

definition ensureTaskScopesAndBudgets :: "authority \<Rightarrow> jstr \<Rightarrow> jstr \<Rightarrow> runnerLease \<Rightarrow> jstr \<Rightarrow>
    taskScopeCurrentness list \<Rightarrow> (jstr \<times> int) list \<Rightarrow> (exn + unit) \<times> authority" where
  "ensureTaskScopesAndBudgets a repository runId lease now scopes budgets =
     onRun a repository runId (\<lambda>run. orSame run
       (quiet (ensureTaskScopesAndBudgetsRun run lease now scopes budgets)))"

definition installTaskScopeFences :: "authority \<Rightarrow> jstr \<Rightarrow> jstr \<Rightarrow> jstr \<Rightarrow> fenceInstallation list \<Rightarrow>
    (exn + taskScopeCurrentness list) \<times> authority" where
  "installTaskScopeFences a repository runId at fences =
     onRun a repository runId (\<lambda>run. orSame run (installTaskScopeFencesRun run runId at fences))"

definition claimEffectAttempt :: "authority \<Rightarrow> runOnceInput \<Rightarrow> effectIntent \<Rightarrow> taskScopeFence \<Rightarrow>
    (exn + claimResult) \<times> authority" where
  "claimEffectAttempt a input i scope = onRun a (inRepository input) (inRun input)
     (\<lambda>run. orSame run (claimEffectAttemptRun run input i scope))"

definition persistIntent :: "faultPoint set \<Rightarrow> authority \<Rightarrow> runOnceInput \<Rightarrow> queuedCommand \<Rightarrow>
    (exn + persistResult) \<times> authority" where
  "persistIntent faults a input cmd =
     (if BeforeIntentPersist \<in> faults then (Inl RunnerFault, a)
      else onRun a (inRepository input) (inRun input)
        (\<lambda>run. settle run (persistIntentRun faults input cmd run)))"

definition commitEffect :: "faultPoint set \<Rightarrow> authority \<Rightarrow> runOnceInput \<Rightarrow> effectIntent \<Rightarrow> observation \<Rightarrow>
    (exn + effectOutcome) \<times> authority" where
  "commitEffect faults a input i observed =
     (if BeforeEffectCommit \<in> faults then (Inl RunnerFault, a)
      else onRun a (inRepository input) (inRun input)
        (\<lambda>run. settle run (commitEffectRun faults input i observed run)))"

definition setLease :: "authority \<Rightarrow> jstr \<Rightarrow> jstr \<Rightarrow> runnerLease \<Rightarrow> (exn + unit) \<times> authority" where
  "setLease a repository runId l =
     onRun a repository runId (\<lambda>run. orSame run (quiet (setLeaseRun l run)))"

definition updateContext :: "authority \<Rightarrow> jstr \<Rightarrow> jstr \<Rightarrow> jstr \<Rightarrow> runnerLease \<Rightarrow> jstr \<Rightarrow>
    (exn + unit) \<times> authority" where
  "updateContext a repository runId digest lease now =
     onRun a repository runId (\<lambda>run. orSame run (quiet (updateContextRun digest lease now run)))"

definition requestCancellation :: "authority \<Rightarrow> jstr \<Rightarrow> jstr \<Rightarrow> jstr \<Rightarrow> jstr \<Rightarrow> runnerLease \<Rightarrow> jstr \<Rightarrow>
    (exn + unit) \<times> authority" where
  "requestCancellation a repository runId oper requestedAt lease now =
     onRun a repository runId (\<lambda>run. orSame run
       (quiet (requestCancellationRun oper requestedAt lease now run)))"

lemma onRun_other:
  "k \<noteq> runKey repository runId \<Longrightarrow> onRun a repository runId f = (res, a') \<Longrightarrow> mapGet a' k = mapGet a k"
  by (auto simp: onRun_def split: sum.splits prod.splits)

end
