(* ===== verification/RunnerFacts.thy ===== *)
theory RunnerFacts
  imports RunnerAuthority
begin

text \<open>
  The invariant of a run of the in-memory authority and its preservation by every method.

  \<^item> \<open>tablesOk\<close>: every map is keyed by its entries' own identity, and an effect record names a known
    budget, capacity and task scope;
  \<^item> \<open>accountsOk\<close>: what a budget has reserved and a capacity has occupied is the sum over the
    non-terminal effects, within the limit;
  \<^item> \<open>claimsOk\<close>: a claim is held on a non-terminal effect by an attempt without an outcome, and every
    outcome is recorded under its attempt;
  \<^item> \<open>logOk\<close>: the cursor counts the receipts and events, and the projection is up to date.

  \<open>runnerStep\<close> is one method call, and \<open>reachable\<close> the states such calls lead to.
\<close>

section \<open>Steps\<close>

inductive runnerStep :: "runState \<Rightarrow> runState \<Rightarrow> bool" where
  stepEnqueue: "validateCommand c = Inr () \<Longrightarrow> enqueueRun c run = Inr run' \<Longrightarrow> runnerStep run run'"
| stepEnsure: "ensureTaskScopesAndBudgetsRun run lease now scopes budgets = Inr run' \<Longrightarrow> runnerStep run run'"
| stepFence: "installTaskScopeFencesRun run runId at fences = Inr (installed, run') \<Longrightarrow> runnerStep run run'"
| stepClaim: "claimEffectAttemptRun run input i scope = Inr (claim, run') \<Longrightarrow> runnerStep run run'"
| stepPersist: "persistIntentRun faults input cmd run = Inr (stored, run') \<Longrightarrow> runnerStep run run'"
| stepCommit: "commitEffectRun faults input i observed run = Inr (committed, run') \<Longrightarrow> runnerStep run run'"
| stepLease: "setLeaseRun l run = Inr run' \<Longrightarrow> runnerStep run run'"
| stepContext: "updateContextRun digest lease now run = Inr run' \<Longrightarrow> runnerStep run run'"
| stepCancel: "requestCancellationRun oper at lease now run = Inr run' \<Longrightarrow> runnerStep run run'"

inductive runnerSteps :: "runState \<Rightarrow> runState \<Rightarrow> bool" where
  stepsNone: "runnerSteps run run"
| stepsMore: "runnerSteps run run' \<Longrightarrow> runnerStep run' run'' \<Longrightarrow> runnerSteps run run''"

definition configured :: "runState \<Rightarrow> bool" where
  "configured run \<longleftrightarrow> (\<exists>a input a'. configureRun a input = Inr a' \<and>
     mapGet a' (runKey (cfgRepository input) (cfgRun input)) = Some run)"

text \<open>A property every step preserves holds after any number of them.\<close>

lemma runnerSteps_preserve:
  assumes "runnerSteps run run'" and "P run"
    and "\<And>r r'. P r \<Longrightarrow> runnerStep r r' \<Longrightarrow> P r'"
  shows "P run'"
  using assms(1,2) by (induction rule: runnerSteps.induct) (auto intro: assms(3))

section \<open>What a transition record leaves alone\<close>

lemma transition_simps [simp]:
  "rsRepository (record_transition a b st ty t at p run) = rsRepository run"
  "rsRun (record_transition a b st ty t at p run) = rsRun run"
  "rsContext (record_transition a b st ty t at p run) = rsContext run"
  "rsScopes (record_transition a b st ty t at p run) = rsScopes run"
  "rsLease (record_transition a b st ty t at p run) = rsLease run"
  "rsQueue (record_transition a b st ty t at p run) = rsQueue run"
  "rsEffects (record_transition a b st ty t at p run) = rsEffects run"
  "rsAttempts (record_transition a b st ty t at p run) = rsAttempts run"
  "rsClaims (record_transition a b st ty t at p run) = rsClaims run"
  "rsEscalations (record_transition a b st ty t at p run) = rsEscalations run"
  "rsBudgets (record_transition a b st ty t at p run) = rsBudgets run"
  "rsCapacities (record_transition a b st ty t at p run) = rsCapacities run"
  by (simp_all add: record_transition_def Let_def)

lemmas transition_defs = appendTransition_def appendRunTransition_def

section \<open>The invariant\<close>

definition held :: "jstr \<Rightarrow> effectRecord \<Rightarrow> int" where
  "held u r = (if \<not> isTerminalRecord r \<and> resUnit (cmdBudget (intCommand (recIntent r))) = u
     then resAmount (cmdBudget (intCommand (recIntent r))) else 0)"

definition occupying :: "jstr \<Rightarrow> effectRecord \<Rightarrow> int" where
  "occupying c r = (if isTerminalRecord r then 0 else
     case cmdCapacity (intCommand (recIntent r)) of None \<Rightarrow> 0
     | Some k \<Rightarrow> if capResource k = c then capAmount k else 0)"

definition heldUnits :: "runState \<Rightarrow> jstr \<Rightarrow> int" where
  "heldUnits run u = jsmap.total (\<lambda>_. held u) (rsEffects run)"

definition occupied :: "runState \<Rightarrow> jstr \<Rightarrow> int" where
  "occupied run c = jsmap.total (\<lambda>_. occupying c) (rsEffects run)"

definition recordOk :: "runState \<Rightarrow> jstr \<Rightarrow> effectRecord \<Rightarrow> bool" where
  "recordOk run k r \<longleftrightarrow> (let c = intCommand (recIntent r) in
     cmdOperation c = k \<and> 0 \<le> resAmount (cmdBudget c) \<and>
     mapGet (rsBudgets run) (resUnit (cmdBudget c)) \<noteq> None \<and>
     mapGet (rsScopes run) (taskScopeKey (cmdScope c)) \<noteq> None \<and>
     (\<forall>cr. cmdCapacity c = Some cr \<longrightarrow>
        1 \<le> capAmount cr \<and> mapGet (rsCapacities run) (capResource cr) \<noteq> None) \<and>
     (\<forall>out. recOutcome r = Some out \<longrightarrow> outOperation out = k \<and> outCommandScope out = cmdScope c \<and>
        attemptOutcome run k (outAttempt out) = Some out))"

definition tablesOk :: "runState \<Rightarrow> bool" where
  "tablesOk run \<longleftrightarrow>
     mapValid (rsScopes run) \<and> mapValid (rsEffects run) \<and> mapValid (rsBudgets run) \<and>
     mapValid (rsCapacities run) \<and>
     (\<forall>k s. mapGet (rsScopes run) k = Some s \<longrightarrow> k = taskScopeKey s) \<and>
     (\<forall>q\<in>set (rsQueue run). 0 \<le> resAmount (cmdBudget q) \<and>
        (\<forall>cr. cmdCapacity q = Some cr \<longrightarrow> 1 \<le> capAmount cr)) \<and>
     (\<forall>k r. mapGet (rsEffects run) k = Some r \<longrightarrow> recordOk run k r)"

definition budgetOk :: "runState \<Rightarrow> jstr \<Rightarrow> budgetState \<Rightarrow> bool" where
  "budgetOk run u b \<longleftrightarrow> budUnit b = u \<and> budReserved b = heldUnits run u \<and>
     0 \<le> budSpent b \<and> 0 \<le> budUnreported b \<and> budUnreported b \<le> budSpent b \<and>
     budSpent b + budReserved b \<le> budLimit b"

definition capacityOk :: "(jstr \<Rightarrow> int) \<Rightarrow> runState \<Rightarrow> jstr \<Rightarrow> capacityState \<Rightarrow> bool" where
  "capacityOk base run c s \<longleftrightarrow> capStateResource s = c \<and> capOccupied s = base c + occupied run c \<and>
     0 \<le> base c \<and> capOccupied s \<le> capLimit s"

definition accountsOk :: "(jstr \<Rightarrow> int) \<Rightarrow> runState \<Rightarrow> bool" where
  "accountsOk base run \<longleftrightarrow>
     (\<forall>u b. mapGet (rsBudgets run) u = Some b \<longrightarrow> budgetOk run u b) \<and>
     (\<forall>c s. mapGet (rsCapacities run) c = Some s \<longrightarrow> capacityOk base run c s)"

definition claimsOk :: "runState \<Rightarrow> bool" where
  "claimsOk run \<longleftrightarrow> mapValid (rsClaims run) \<and>
     (\<forall>k c. mapGet (rsClaims run) k = Some c \<longrightarrow> attemptOutcome run k (claimAttempt c) = None \<and>
        (\<exists>r. mapGet (rsEffects run) k = Some r \<and> \<not> isTerminalRecord r)) \<and>
     (\<forall>k a out. attemptOutcome run k a = Some out \<longrightarrow> outOperation out = k \<and> outAttempt out = a \<and>
        (\<exists>r. mapGet (rsEffects run) k = Some r \<and> recOutcome r \<noteq> None))"

definition coreOk :: "(jstr \<Rightarrow> int) \<Rightarrow> runState \<Rightarrow> bool" where
  "coreOk base run \<longleftrightarrow> tablesOk run \<and> accountsOk base run \<and> claimsOk run"

definition logOk :: "runState \<Rightarrow> bool" where
  "logOk run \<longleftrightarrow> map rcCursor (rsReceipts run) = map int [1..<Suc (length (rsReceipts run))] \<and>
     map evCursor (rsEvents run) = map rcCursor (rsReceipts run) \<and>
     rsCursor run = int (length (rsReceipts run)) \<and> rsProjection run = projectRun run"

section \<open>The log\<close>

text \<open>The projection reads only the context, the scopes, the effects and the cursor.\<close>

lemma projectRun_cong:
  assumes "rsCursor run = rsCursor run'" "rsContext run = rsContext run'"
    "rsScopes run = rsScopes run'" "rsEffects run = rsEffects run'"
  shows "projectRun run = projectRun run'"
  using assms by (simp add: projectRun_def isCurrentOutcome_def cong: option.case_cong if_cong)

lemma record_transition_log:
  assumes "map rcCursor (rsReceipts run) = map int [1..<Suc (length (rsReceipts run))]"
    and "map evCursor (rsEvents run) = map rcCursor (rsReceipts run)"
    and "rsCursor run = int (length (rsReceipts run))"
  shows "logOk (record_transition a b st ty t at p run)"
  using assms
  by (auto simp: logOk_def record_transition_def Let_def intro!: projectRun_cong)

lemma logOk_cong:
  assumes "logOk run" "rsCursor run' = rsCursor run" "rsReceipts run' = rsReceipts run"
    "rsEvents run' = rsEvents run" "rsProjection run' = rsProjection run"
    "projectRun run' = projectRun run"
  shows "logOk run'"
  using assms by (simp add: logOk_def)

lemma transition_logOk:
  assumes "logOk run" "rsCursor run' = rsCursor run" "rsReceipts run' = rsReceipts run"
    "rsEvents run' = rsEvents run"
  shows "logOk (record_transition a b st ty t at p run')"
  by (rule record_transition_log) (use assms in \<open>simp_all add: logOk_def\<close>)

lemma projectRun_currentness:
  assumes "rsCursor run' = rsCursor run" "rsContext run' = rsContext run"
    "rsEffects run' = rsEffects run"
    and "\<And>r out. r \<in> set (mapValues (rsEffects run)) \<Longrightarrow> recOutcome r = Some out \<Longrightarrow>
      mapGet (rsScopes run') (taskScopeKey (outCommandScope out)) =
      mapGet (rsScopes run) (taskScopeKey (outCommandScope out))"
  shows "projectRun run' = projectRun run"
proof -
  have "map (\<lambda>r. case recOutcome r of None \<Rightarrow> []
       | Some out \<Rightarrow> if isCurrentOutcome run' (outCommandScope out) (outClaimScope out)
           then [\<lparr>peOperation = outOperation out, peStatus = outStatus out, peOutput = outOutput out\<rparr>]
           else []) (mapValues (rsEffects run)) =
     map (\<lambda>r. case recOutcome r of None \<Rightarrow> []
       | Some out \<Rightarrow> if isCurrentOutcome run (outCommandScope out) (outClaimScope out)
           then [\<lparr>peOperation = outOperation out, peStatus = outStatus out, peOutput = outOutput out\<rparr>]
           else []) (mapValues (rsEffects run))"
    by (rule map_cong [OF refl]) (auto simp: isCurrentOutcome_def assms(4) split: option.split)
  then show ?thesis unfolding projectRun_def assms(1-3) by (rule arg_cong)
qed

section \<open>Frames\<close>

lemma attemptOutcome_transition [simp]:
  "attemptOutcome (record_transition a b st ty t at p run) = attemptOutcome run"
  by (simp add: attemptOutcome_def fun_eq_iff)

lemma accountsOk_cong:
  assumes "rsEffects run' = rsEffects run" "rsBudgets run' = rsBudgets run"
    "rsCapacities run' = rsCapacities run"
  shows "accountsOk base run' = accountsOk base run"
  unfolding accountsOk_def budgetOk_def capacityOk_def heldUnits_def occupied_def assms by (rule refl)

lemma recordOk_cong:
  assumes "rsScopes run' = rsScopes run" "rsAttempts run' = rsAttempts run"
    "rsBudgets run' = rsBudgets run" "rsCapacities run' = rsCapacities run"
  shows "recordOk run' = recordOk run"
  unfolding recordOk_def attemptOutcome_def fun_eq_iff assms by simp

lemma claimsOk_cong:
  assumes "rsEffects run' = rsEffects run" "rsAttempts run' = rsAttempts run" "rsClaims run' = rsClaims run"
  shows "claimsOk run' = claimsOk run"
  unfolding claimsOk_def attemptOutcome_def assms by (rule refl)

lemma tablesOk_cong:
  assumes "rsScopes run' = rsScopes run" "rsEffects run' = rsEffects run"
    "rsAttempts run' = rsAttempts run" "rsBudgets run' = rsBudgets run"
    "rsCapacities run' = rsCapacities run" "rsQueue run' = rsQueue run"
  shows "tablesOk run' = tablesOk run"
  using assms recordOk_cong [of run' run] by (simp add: tablesOk_def)

lemma coreOk_cong:
  assumes "rsScopes run' = rsScopes run" "rsEffects run' = rsEffects run"
    "rsAttempts run' = rsAttempts run" "rsClaims run' = rsClaims run"
    "rsBudgets run' = rsBudgets run" "rsCapacities run' = rsCapacities run" "rsQueue run' = rsQueue run"
  shows "coreOk base run' = coreOk base run"
  using assms tablesOk_cong [of run' run] accountsOk_cong [of run' run base] claimsOk_cong [of run' run]
  by (simp add: coreOk_def)

lemma coreOk_transition [simp]:
  "coreOk base (record_transition a b st ty t at p run) = coreOk base run"
  by (rule coreOk_cong) simp_all

text \<open>
  A change that keeps every intent and outcome, keeps or adds task scopes, and keeps or drops claims:
  fences, cancellations, context and lease changes.
\<close>

definition sameWork :: "effectRecord \<Rightarrow> effectRecord \<Rightarrow> bool" where
  "sameWork r r' \<longleftrightarrow> recIntent r' = recIntent r \<and> recOutcome r' = recOutcome r"

lemma sameWork_simps:
  "sameWork r r' \<Longrightarrow> isTerminalRecord r' = isTerminalRecord r"
  "sameWork r r' \<Longrightarrow> held u r' = held u r"
  "sameWork r r' \<Longrightarrow> occupying c r' = occupying c r"
  by (auto simp: sameWork_def isTerminalRecord_def held_def occupying_def)

lemma touch_total:
  assumes "mapValid m" "mapValid m'" "\<And>k. rel_option sameWork (mapGet m k) (mapGet m' k)"
    and "\<And>r r'. sameWork r r' \<Longrightarrow> f r' = f r"
  shows "jsmap.total (\<lambda>_. f) m' = jsmap.total (\<lambda>_. f) m"
proof (rule jsmap.total_lookup_cong [OF assms(2,1)])
  fix k show "map_option f (mapGet m' k) = map_option f (mapGet m k)"
    using assms(3) [of k] by (auto simp: assms(4) option_rel_Some1 split: option.split elim: option.rel_cases)
qed

lemma coreOk_touch:
  assumes ok: "coreOk base run"
    and eq: "rsBudgets run' = rsBudgets run" "rsCapacities run' = rsCapacities run"
      "rsAttempts run' = rsAttempts run" "rsQueue run' = rsQueue run"
    and eff: "mapValid (rsEffects run')" "\<And>k. rel_option sameWork (mapGet (rsEffects run) k) (mapGet (rsEffects run') k)"
    and scopes: "mapValid (rsScopes run')" "\<And>k s. mapGet (rsScopes run') k = Some s \<Longrightarrow> k = taskScopeKey s"
      "\<And>k s. mapGet (rsScopes run) k = Some s \<Longrightarrow> mapGet (rsScopes run') k \<noteq> None"
    and claims: "mapValid (rsClaims run')" "\<And>k c. mapGet (rsClaims run') k = Some c \<Longrightarrow> mapGet (rsClaims run) k = Some c"
  shows "coreOk base run'"
proof -
  have valid: "mapValid (rsEffects run)" using ok by (simp add: coreOk_def tablesOk_def)
  note totals = touch_total [OF valid eff sameWork_simps(2)]
    touch_total [OF valid eff sameWork_simps(3)]
  have sums: "heldUnits run' u = heldUnits run u" "occupied run' c = occupied run c" for u c
    by (simp_all add: heldUnits_def occupied_def totals)
  have att: "attemptOutcome run' = attemptOutcome run" by (simp add: attemptOutcome_def eq fun_eq_iff)
  have older: "\<exists>r. mapGet (rsEffects run) k = Some r \<and> sameWork r r'"
    if "mapGet (rsEffects run') k = Some r'" for k r'
    using eff(2) [of k] that by (auto simp: option_rel_Some2)
  have newer: "\<exists>r'. mapGet (rsEffects run') k = Some r' \<and> sameWork r r'"
    if "mapGet (rsEffects run) k = Some r" for k r
    using eff(2) [of k] that by (auto simp: option_rel_Some1)
  have records: "recordOk run' k r'" if r': "mapGet (rsEffects run') k = Some r'" for k r'
  proof -
    obtain r where r: "mapGet (rsEffects run) k = Some r" "sameWork r r'" using older [OF r'] by auto
    then have "recordOk run k r" using ok by (simp add: coreOk_def tablesOk_def)
    then show ?thesis using r(2) scopes(3) by (auto simp: recordOk_def sameWork_def Let_def eq att)
  qed
  have "tablesOk run'" using ok eff(1) scopes records by (auto simp: coreOk_def tablesOk_def eq)
  moreover have "accountsOk base run'"
    using ok unfolding coreOk_def accountsOk_def budgetOk_def capacityOk_def eq sums by blast
  moreover have "claimsOk run'"
  proof -
    have old: "claimsOk run" using ok by (simp add: coreOk_def)
    have "\<exists>r. mapGet (rsEffects run') k = Some r \<and> \<not> isTerminalRecord r"
      if "mapGet (rsClaims run') k = Some c" for k c
      using claims(2) [OF that] old newer sameWork_simps(1) unfolding claimsOk_def by metis
    moreover have "\<exists>r. mapGet (rsEffects run') k = Some r \<and> recOutcome r \<noteq> None"
      if "attemptOutcome run k a = Some out" for k a out
      using old that newer unfolding claimsOk_def sameWork_def by metis
    ultimately show ?thesis using old claims unfolding claimsOk_def att by (simp; blast)
  qed
  ultimately show ?thesis by (simp add: coreOk_def)
qed

lemma coreOk_maps:
  assumes "coreOk base run"
  shows "mapValid (rsScopes run)" "mapValid (rsEffects run)" "mapValid (rsBudgets run)"
    "mapValid (rsCapacities run)" "mapValid (rsClaims run)"
    "mapGet (rsScopes run) k = Some s \<Longrightarrow> k = taskScopeKey s"
    "mapGet (rsEffects run) k = Some r \<Longrightarrow> recordOk run k r"
    "mapGet (rsBudgets run) u = Some b \<Longrightarrow> budgetOk run u b"
    "mapGet (rsCapacities run) c = Some cap \<Longrightarrow> capacityOk base run c cap"
    "q \<in> set (rsQueue run) \<Longrightarrow> 0 \<le> resAmount (cmdBudget q)"
    "q \<in> set (rsQueue run) \<Longrightarrow> cmdCapacity q = Some cr \<Longrightarrow> 1 \<le> capAmount cr"
  using assms by (simp_all add: coreOk_def tablesOk_def accountsOk_def claimsOk_def)

lemma sameWork_refl [simp]: "sameWork r r"
  by (simp add: sameWork_def)

lemma rel_sameWork_refl [simp]: "rel_option sameWork x x"
  by (cases x) simp_all

section \<open>Each operation\<close>

lemma enqueueRun_ok:
  assumes "coreOk base run" "validateCommand c = Inr ()" "enqueueRun c run = Inr run'"
  shows "coreOk base run'"
proof -
  obtain stored where s: "snapshotCommand c = Inr stored"
    and run': "run' = record_transition (Some (cmdId stored)) (Some (cmdOperation stored)) Queued
          (lit ''effect-command-queued'') (cmdQueuedAt stored) None
          (Obj [(lit ''kind'', Str (lit (kindText (cmdKind stored))))])
          (run\<lparr>rsQueue := rsQueue run @ [stored]\<rparr>)"
    using assms(3) by (auto simp: enqueueRun_def bindE_eq_Inr split: if_split_asm)
  have tail: "validCommandTail c"
    using assms(2) by (auto simp: validateCommand_def bindE_eq_Inr split: if_split_asm)
  have eq: "cmdBudget stored = cmdBudget c" "cmdCapacity stored = cmdCapacity c"
    using s by (auto simp: snapshotCommand_def bindE_eq_Inr)
  have amounts: "0 \<le> resAmount (cmdBudget stored)" "\<And>cr. cmdCapacity stored = Some cr \<Longrightarrow> 1 \<le> capAmount cr"
    using tail eq by (auto simp: validCommandTail_def validAmount_def validPositive_def)
  let ?run = "run\<lparr>rsQueue := rsQueue run @ [stored]\<rparr>"
  have "coreOk base ?run"
    using assms(1) amounts accountsOk_cong [of ?run run base] claimsOk_cong [of ?run run]
      recordOk_cong [of ?run run]
    by (auto simp: coreOk_def tablesOk_def)
  then show ?thesis by (simp add: run')
qed

lemma enqueueRun_log: "logOk run \<Longrightarrow> enqueueRun c run = Inr run' \<Longrightarrow> logOk run'"
  by (auto simp: enqueueRun_def bindE_eq_Inr split: if_split_asm intro!: transition_logOk)

lemma setLeaseRun_ok: "coreOk base run \<Longrightarrow> setLeaseRun l run = Inr run' \<Longrightarrow> coreOk base run'"
  by (subst coreOk_cong [of run' run]) (auto simp: setLeaseRun_def split: if_split_asm)

lemma logOk_same:
  assumes "logOk run" "rsCursor run' = rsCursor run" "rsContext run' = rsContext run"
    "rsScopes run' = rsScopes run" "rsEffects run' = rsEffects run"
    "rsReceipts run' = rsReceipts run" "rsEvents run' = rsEvents run" "rsProjection run' = rsProjection run"
  shows "logOk run'"
  using assms projectRun_cong [of run' run] by (simp add: logOk_def)

lemma setLeaseRun_log: "logOk run \<Longrightarrow> setLeaseRun l run = Inr run' \<Longrightarrow> logOk run'"
  by (erule logOk_same) (auto simp: setLeaseRun_def split: if_split_asm)

lemma updateContextRun_ok:
  assumes "coreOk base run" "updateContextRun digest lease now run = Inr run'"
  shows "coreOk base run'"
proof -
  have "coreOk base (run\<lparr>rsClaims := []\<rparr>)" "coreOk base (run\<lparr>rsClaims := [], rsContext := digest\<rparr>)"
    by (rule coreOk_touch [OF assms(1)]; use coreOk_maps [OF assms(1)] in simp)+
  then show ?thesis using assms(2)
    by (auto simp: updateContextRun_def bindE_eq_Inr Let_def transition_defs split: if_split_asm)
qed

lemma updateContextRun_log:
  "logOk run \<Longrightarrow> updateContextRun digest lease now run = Inr run' \<Longrightarrow> logOk run'"
  by (auto simp: updateContextRun_def bindE_eq_Inr Let_def transition_defs split: if_split_asm
      intro!: transition_logOk intro: logOk_same [of run "run\<lparr>rsClaims := []\<rparr>"])

lemma requestCancellationRun_ok:
  assumes "coreOk base run" "requestCancellationRun oper requestedAt lease now run = Inr run'"
  shows "coreOk base run'"
proof -
  have "coreOk base (run\<lparr>rsEffects := mapSet oper (r\<lparr>recCancelAt := t\<rparr>) (rsEffects run)\<rparr>)"
    if "mapGet (rsEffects run) oper = Some r" for r t
    by (rule coreOk_touch [OF assms(1)]; use coreOk_maps [OF assms(1)] that in \<open>simp add: sameWork_def\<close>)
  then show ?thesis using assms
    by (auto simp: requestCancellationRun_def bindE_eq_Inr Let_def transition_defs
        split: if_split_asm option.split_asm)
qed

lemma requestCancellationRun_log:
  "logOk run \<Longrightarrow> requestCancellationRun oper requestedAt lease now run = Inr run' \<Longrightarrow> logOk run'"
  by (auto simp: requestCancellationRun_def bindE_eq_Inr Let_def transition_defs
      split: if_split_asm option.split_asm intro!: transition_logOk)

lemma claimEffectAttemptRun_cases:
  assumes "claimEffectAttemptRun run input i scope = Inr (res, run')"
  obtains "run' = run" "\<And>action r. res \<noteq> Claimed action r"
  | action r where "res = Claimed action r" "durableRecord run i = Inr r" "\<not> isTerminalRecord r"
      "attemptOutcome run (cmdOperation (intCommand i)) (inAttempt input) = None"
      "action = selectEffectAttemptAction r (inTime input) (inAttempt input)"
      "run' = run\<lparr>rsClaims := mapSet (cmdOperation (intCommand i))
             \<lparr>claimScope = scope, claimAttempt = inAttempt input,
              claimOwner = leaseOwner (inLease input), claimFence = leaseFence (inLease input),
              claimOrigin = action\<rparr> (rsClaims run)\<rparr>"
proof -
  obtain r where r: "durableRecord run i = Inr r"
    using assms by (auto simp: claimEffectAttemptRun_def bindE_eq_Inr)
  have fence: "assertFence run (inLease input) (inTime input) = Inr ()"
    using assms by (auto simp: claimEffectAttemptRun_def bindE_eq_Inr)
  note step = assms [unfolded claimEffectAttemptRun_def fence r bindE_Inr Let_def]
  show thesis
  proof (cases "run' = run \<and> (\<forall>action r. res \<noteq> Claimed action r)")
    case True
    then show thesis using that(1) by blast
  next
    case False
    then show thesis using step r
      by (intro that(2)) (auto split: if_split_asm option.split_asm)
  qed
qed

lemma durableRecord_get:
  "durableRecord run i = Inr r \<Longrightarrow> mapGet (rsEffects run) (cmdOperation (intCommand i)) = Some r"
  by (auto simp: durableRecord_def bindE_eq_Inr split: option.split_asm if_split_asm)

lemma claimEffectAttemptRun_ok:
  assumes "coreOk base run" "claimEffectAttemptRun run input i scope = Inr (res, run')"
  shows "coreOk base run'"
  using assms(2)
proof (cases rule: claimEffectAttemptRun_cases)
  case (2 action r)
  then have "tablesOk run'" "accountsOk base run'"
    using assms(1) tablesOk_cong [of run' run] accountsOk_cong [of run' run base]
    by (simp_all add: coreOk_def)
  moreover have "attemptOutcome run' = attemptOutcome run" using 2(6) by (simp add: attemptOutcome_def fun_eq_iff)
  then have "claimsOk run'" using assms(1) 2 durableRecord_get [OF 2(2)]
    by (auto simp: coreOk_def claimsOk_def)
  ultimately show ?thesis by (simp add: coreOk_def)
qed (use assms(1) in simp)

lemma claimEffectAttemptRun_log:
  assumes "logOk run" "claimEffectAttemptRun run input i scope = Inr (res, run')"
  shows "logOk run'"
  by (rule logOk_same [OF assms(1)]; use assms(2) in \<open>cases rule: claimEffectAttemptRun_cases; simp\<close>)

end
