(* ===== verification/RunnerSteps.thy ===== *)
theory RunnerSteps
  imports RunnerFacts
begin

text \<open>
  The invariant across the operations that move money: persisting an intent reserves its budget and
  capacity, committing a terminal outcome releases them and charges the usage, admitting budgets
  raises limits, and fencing a scope cancels its effects. The last lemmas put the operations together:
  \<open>coreOk\<close> and \<open>logOk\<close> hold in every state that steps reach from a configured run.
\<close>

section \<open>Sums over the effects\<close>

lemma heldUnits_set:
  assumes "mapValid (rsEffects run)" "rsEffects run' = mapSet k r (rsEffects run)"
  shows "heldUnits run' u = heldUnits run u + held u r -
    (case mapGet (rsEffects run) k of None \<Rightarrow> 0 | Some w \<Rightarrow> held u w)"
  unfolding heldUnits_def assms(2) by (rule jsmap.total_update [OF assms(1)])

lemma occupied_set:
  assumes "mapValid (rsEffects run)" "rsEffects run' = mapSet k r (rsEffects run)"
  shows "occupied run' c = occupied run c + occupying c r -
    (case mapGet (rsEffects run) k of None \<Rightarrow> 0 | Some w \<Rightarrow> occupying c w)"
  unfolding occupied_def assms(2) by (rule jsmap.total_update [OF assms(1)])

lemma held_nonneg: "recordOk run k r \<Longrightarrow> 0 \<le> held u r"
  by (auto simp: recordOk_def held_def Let_def)

lemma occupying_nonneg: "recordOk run k r \<Longrightarrow> 0 \<le> occupying c r"
  by (auto simp: recordOk_def occupying_def Let_def split: option.split)

lemma heldUnits_nonneg: "coreOk base run \<Longrightarrow> 0 \<le> heldUnits run u"
  unfolding heldUnits_def
  by (rule jsmap.total_nonneg) (auto intro: held_nonneg dest: coreOk_maps)

lemma occupied_nonneg: "coreOk base run \<Longrightarrow> 0 \<le> occupied run c"
  unfolding occupied_def
  by (rule jsmap.total_nonneg) (auto intro: occupying_nonneg dest: coreOk_maps)

section \<open>A new intent\<close>

lemma storeIntent_ok:
  assumes ok: "coreOk base run" and q: "q \<in> set (rsQueue run)"
    and new: "mapGet (rsEffects run) (cmdOperation q) = None"
    and scope: "mapGet (rsScopes run) (taskScopeKey (cmdScope q)) \<noteq> None"
    and b: "mapGet (rsBudgets run) (resUnit (cmdBudget q)) = Some b" "resAmount (cmdBudget q) \<le> available b"
    and cap: "requestedCapacity run q = Inr reserved"
      "\<And>r s. reserved = Some (r, s) \<Longrightarrow> capAmount r \<le> capacityAvailable s"
  shows "coreOk base (snd (storeIntent faults input q b reserved run))"
proof -
  define intent where "intent = \<lparr>intCommand = q, intOwner = leaseOwner (inLease input),
            intFence = leaseFence (inLease input), intAttempt = inAttempt input,
            intPersistedAt = inTime input\<rparr>"
  define r where "r = \<lparr>recIntent = intent, recOutcome = None, recCancelAt = None\<rparr>"
  define run' where "run' = run\<lparr>rsBudgets := mapSet (resUnit (cmdBudget q))
                   (b\<lparr>budReserved := budReserved b + resAmount (cmdBudget q)\<rparr>) (rsBudgets run),
                 rsCapacities := (case reserved of None \<Rightarrow> rsCapacities run
                   | Some (r, s) \<Rightarrow> mapSet (capResource r)
                       (s\<lparr>capOccupied := capOccupied s + capAmount r\<rparr>) (rsCapacities run)),
                 rsEffects := mapSet (cmdOperation q) r (rsEffects run)\<rparr>"
  note maps = coreOk_maps [OF ok]
  have r_simps: "recOutcome r = None" "intCommand (recIntent r) = q" "\<not> isTerminalRecord r"
    by (simp_all add: r_def intent_def isTerminalRecord_def)
  have caps: "mapGet (rsCapacities run) c \<noteq> None \<Longrightarrow> mapGet (rsCapacities run') c \<noteq> None" for c
    by (auto simp: run'_def split: option.split)
  have keep: "recordOk run' k w" if "recordOk run k w" for k w
    using that caps by (auto simp: recordOk_def Let_def run'_def attemptOutcome_def)
  have "recordOk run' (cmdOperation q) r"
    using r_simps scope cap(1) caps maps(10) [OF q] maps(11) [OF q]
    by (auto simp: recordOk_def Let_def run'_def requestedCapacity_def split: option.split_asm)
  then have "\<And>k w. mapGet (rsEffects run') k = Some w \<Longrightarrow> recordOk run' k w"
    using keep maps(7) by (auto simp: run'_def split: if_split_asm)
  moreover have "mapValid (rsCapacities run')" using maps(4) by (auto simp: run'_def split: option.split)
  ultimately have tables: "tablesOk run'"
    using ok maps(1-4) unfolding tablesOk_def coreOk_def by (auto simp: run'_def)
  have eff: "rsEffects run' = mapSet (cmdOperation q) r (rsEffects run)" by (simp add: run'_def)
  have hu: "heldUnits run' u = heldUnits run u + (if u = resUnit (cmdBudget q) then resAmount (cmdBudget q) else 0)" for u
    using heldUnits_set [OF maps(2) eff, of u] r_simps new by (auto simp: held_def)
  have oc: "occupied run' c = occupied run c +
      (case reserved of None \<Rightarrow> 0 | Some (cr, s) \<Rightarrow> if capResource cr = c then capAmount cr else 0)" for c
    using occupied_set [OF maps(2) eff, of c] r_simps new cap(1)
    by (auto simp: occupying_def requestedCapacity_def split: option.split_asm)
  have "budgetOk run' u b'" if "mapGet (rsBudgets run') u = Some b'" for u b'
  proof (cases "u = resUnit (cmdBudget q)")
    case True
    then have "b' = b\<lparr>budReserved := budReserved b + resAmount (cmdBudget q)\<rparr>"
      using that by (simp add: run'_def)
    then show ?thesis using True maps(8) [OF b(1)] b(2) hu [of u]
      by (simp add: budgetOk_def available_def)
  next
    case False
    then have "mapGet (rsBudgets run) u = Some b'" "heldUnits run' u = heldUnits run u"
      using that hu [of u] by (simp_all add: run'_def)
    then show ?thesis using maps(8) [of u b'] by (simp add: budgetOk_def)
  qed
  moreover have "capacityOk base run' c s'" if s': "mapGet (rsCapacities run') c = Some s'" for c s'
  proof (cases reserved)
    case None
    then show ?thesis using s' maps(9) [of c s'] oc [of c] by (simp add: run'_def capacityOk_def)
  next
    case (Some cs)
    then obtain cr s where cs: "reserved = Some (cr, s)" by (cases cs) auto
    then have s: "mapGet (rsCapacities run) (capResource cr) = Some s"
      using cap(1) by (auto simp: requestedCapacity_def split: option.split_asm)
    have "1 \<le> capAmount cr" using cs cap(1) maps(11) [OF q]
      by (auto simp: requestedCapacity_def split: option.split_asm)
    then have le: "capOccupied s + capAmount cr \<le> capLimit s"
      using cap(2) [OF cs] by (simp add: capacityAvailable_def max_def split: if_split_asm)
    show ?thesis using s' cs maps(9) [OF s] maps(9) [of c s'] oc [of c] le
      by (auto simp: run'_def capacityOk_def split: if_split_asm)
  qed
  ultimately have accounts: "accountsOk base run'" by (simp add: accountsOk_def)
  have att: "attemptOutcome run' = attemptOutcome run" by (simp add: run'_def attemptOutcome_def fun_eq_iff)
  have old: "claimsOk run" using ok by (simp add: coreOk_def)
  have grow: "mapGet (rsEffects run') k = Some w" if "mapGet (rsEffects run) k = Some w" for k w
    using that new by (auto simp: run'_def)
  have "claimsOk run'" using old grow unfolding claimsOk_def att
    by (simp add: run'_def del: mapGet_set) blast
  with tables accounts have "coreOk base run'" by (simp add: coreOk_def)
  then show ?thesis
    by (simp add: storeIntent_def Let_def transition_defs run'_def r_def intent_def)
qed

lemma persistIntentRun_cases:
  assumes "persistIntentRun faults input cmd run = Inr (res, run')"
  obtains (existing) q r where "run' = run" "find (\<lambda>q. cmdId q = cmdId cmd) (rsQueue run) = Some q"
      "sameText (encCommand q) (encCommand cmd) = Inr True" "mapGet (rsEffects run) (cmdOperation q) = Some r"
      "res = Inr (Persisted (recIntent r))"
  | (full) cr n where "run' = run" "res = Inr (CapacityUnavailable cr n)"
  | (escalated) q b where "q \<in> set (rsQueue run)" "(res, run') = escalate faults input q b run"
  | (stored) q b reserved where "find (\<lambda>q. cmdId q = cmdId cmd) (rsQueue run) = Some q"
      "sameText (encCommand q) (encCommand cmd) = Inr True"
      "mapGet (rsEffects run) (cmdOperation q) = None" "scopeAccepts run (cmdScope q)"
      "mapGet (rsBudgets run) (resUnit (cmdBudget q)) = Some b" "resAmount (cmdBudget q) \<le> available b"
      "requestedCapacity run q = Inr reserved"
      "\<And>r s. reserved = Some (r, s) \<Longrightarrow> capAmount r \<le> capacityAvailable s"
      "(res, run') = storeIntent faults input q b reserved run"
proof -
  obtain q where q: "find (\<lambda>q. cmdId q = cmdId cmd) (rsQueue run) = Some q"
      "sameText (encCommand q) (encCommand cmd) = Inr True"
    and fence: "assertFence run (inLease input) (inTime input) = Inr ()"
    using assms by (auto simp: persistIntentRun_def bindE_eq_Inr split: option.split_asm if_split_asm)
  note step = assms [unfolded persistIntentRun_def fence q bindE_Inr option.case if_True simp_thms if_False]
  have mem: "q \<in> set (rsQueue run)" using q(1) by (metis find_Some_iff nth_mem)
  show thesis
  proof (cases "mapGet (rsEffects run) (cmdOperation q)")
    case (Some r)
    then show thesis using step q by (intro existing) auto
  next
    case None
    with step have acc: "scopeAccepts run (cmdScope q)" by (simp split: if_split_asm)
    with step None obtain b where b: "mapGet (rsBudgets run) (resUnit (cmdBudget q)) = Some b"
      by (auto split: option.split_asm)
    note step2 = step [unfolded None option.case b, simplified acc simp_thms if_False]
    show thesis
    proof (cases "resAmount (cmdBudget q) > available b")
      case True
      then show thesis using step2 mem by (intro escalated [of q b]) auto
    next
      case False
      then obtain reserved where reserved: "requestedCapacity run q = Inr reserved"
        using step2 by (auto simp: bindE_eq_Inr)
      show thesis
      proof (cases "\<exists>r s. reserved = Some (r, s) \<and> capAmount r > capacityAvailable s")
        case True
        then show thesis using step2 False reserved by (auto intro: full)
      next
        case roomy: False
        then have "(res, run') = storeIntent faults input q b reserved run"
          using step2 False reserved by (auto split: option.split_asm prod.split_asm if_split_asm)
        then show thesis using q None acc b False reserved roomy by (intro stored) auto
      qed
    qed
  qed
qed

lemma persistIntentRun_ok:
  assumes "coreOk base run" "persistIntentRun faults input cmd run = Inr (res, run')"
  shows "coreOk base run'"
  using assms(2)
proof (cases rule: persistIntentRun_cases)
  case (escalated q b)
  have "coreOk base run' = coreOk base run"
    by (rule coreOk_cong) (use escalated(2) in \<open>simp_all add: escalate_def Let_def transition_defs\<close>)
  then show ?thesis using assms(1) by simp
next
  case (stored q b reserved)
  have "q \<in> set (rsQueue run)" using stored(1) by (metis find_Some_iff nth_mem)
  moreover have "mapGet (rsScopes run) (taskScopeKey (cmdScope q)) \<noteq> None"
    using stored(4) by (auto simp: scopeAccepts_def split: option.split_asm)
  ultimately have "coreOk base (snd (storeIntent faults input q b reserved run))"
    using stored(3,5-8) by (intro storeIntent_ok [OF assms(1)]) auto
  then show ?thesis using stored(9) by (metis snd_conv)
qed (use assms(1) in simp_all)

lemma persistIntentRun_log:
  assumes "logOk run" "persistIntentRun faults input cmd run = Inr (res, run')"
  shows "logOk run'"
  using assms(2)
proof (cases rule: persistIntentRun_cases)
  case (escalated q b)
  then show ?thesis by (auto simp: escalate_def Let_def transition_defs intro!: transition_logOk [OF assms(1)])
next
  case (stored q b reserved)
  then show ?thesis by (auto simp: storeIntent_def Let_def transition_defs intro!: transition_logOk [OF assms(1)])
qed (use assms(1) in simp_all)

section \<open>A committed outcome\<close>

text \<open>The run whose reservations a terminal outcome has released.\<close>

definition released :: "effectRecord \<Rightarrow> finalizedUsage \<Rightarrow> budgetState \<Rightarrow> runState \<Rightarrow> runState" where
  "released r usage b run = (let c = intCommand (recIntent r) in
     run\<lparr>rsBudgets := mapSet (resUnit (cmdBudget c)) (settleBudget usage b) (rsBudgets run),
         rsCapacities := (case cmdCapacity c of None \<Rightarrow> rsCapacities run
           | Some cr \<Rightarrow> (case mapGet (rsCapacities run) (capResource cr) of None \<Rightarrow> rsCapacities run
               | Some s \<Rightarrow> mapSet (capResource cr) (s\<lparr>capOccupied := capOccupied s - capAmount cr\<rparr>)
                   (rsCapacities run)))\<rparr>)"

lemma commitEffectRun_cases:
  assumes ok: "coreOk base run" and commit: "commitEffectRun faults input i observed run = Inr (res, run')"
  obtains (replay) r out where "run' = run" "res = Inr out" "durableRecord run i = Inr r"
      "attemptOutcome run (cmdOperation (intCommand i)) (inAttempt input) = Some out \<or>
       attemptOutcome run (cmdOperation (intCommand i)) (inAttempt input) = None \<and>
       isTerminalRecord r \<and> recOutcome r = Some out"
  | (fresh) r claim x usage b where "durableRecord run i = Inr r" "\<not> isTerminalRecord r"
      "attemptOutcome run (cmdOperation (intCommand i)) (inAttempt input) = None"
      "liveClaim run input i = Some claim" "snapshotObservation observed = Inr x"
      "finalizeUsage (cmdBudget (intCommand (recIntent r))) x (isTerminal (obsStatus x)) = Inr usage"
      "mapGet (rsBudgets run) (resUnit (cmdBudget (intCommand (recIntent r)))) = Some b"
      "(res, run') = storeOutcome faults r (buildOutcome run input r claim x usage)
         (if isTerminal (obsStatus x) then released r usage b run else run)"
proof -
  obtain r where r: "durableRecord run i = Inr r"
    and fence: "assertFence run (inLease input) (inTime input) = Inr ()"
    using commit by (auto simp: commitEffectRun_def bindE_eq_Inr)
  note step = commit [unfolded commitEffectRun_def fence r bindE_Inr Let_def]
  show thesis
  proof (cases "attemptOutcome run (cmdOperation (intCommand i)) (inAttempt input)")
    case (Some out)
    then show thesis using step r by (intro replay) auto
  next
    case None
    note step = step [unfolded None option.case]
    show thesis
    proof (cases "isTerminalRecord r")
      case True
      then show thesis using step r None
        by (intro replay [of "the (recOutcome r)"]) (auto simp: isTerminalRecord_def split: option.split_asm)
    next
      case False
      with step obtain claim where claim: "liveClaim run input i = Some claim"
        by (auto split: option.split_asm)
      note step = step [unfolded claim option.case, simplified False if_False]
      then obtain x usage where x: "snapshotObservation observed = Inr x"
        and u: "finalizeUsage (cmdBudget (intCommand (recIntent r))) x (isTerminal (obsStatus x)) = Inr usage"
        by (auto simp: bindE_eq_Inr)
      note step = step [unfolded x u bindE_Inr]
      have rec: "recordOk run (cmdOperation (intCommand i)) r"
        by (rule coreOk_maps(7) [OF ok]) (rule durableRecord_get [OF r])
      then obtain b where b: "mapGet (rsBudgets run) (resUnit (cmdBudget (intCommand (recIntent r)))) = Some b"
        by (auto simp: recordOk_def Let_def)
      have "(res, run') = storeOutcome faults r (buildOutcome run input r claim x usage)
         (if isTerminal (obsStatus x) then released r usage b run else run)"
        using step [unfolded b option.case] rec
        by (auto simp: released_def Let_def recordOk_def buildOutcome_def split: option.split_asm if_split_asm)
      then show thesis using r False None claim x u b by (intro fresh)
    qed
  qed
qed

lemma released_simps [simp]:
  "rsEffects (released r usage b run) = rsEffects run" "rsScopes (released r usage b run) = rsScopes run"
  "rsAttempts (released r usage b run) = rsAttempts run" "rsClaims (released r usage b run) = rsClaims run"
  "rsQueue (released r usage b run) = rsQueue run" "rsCursor (released r usage b run) = rsCursor run"
  "rsReceipts (released r usage b run) = rsReceipts run" "rsEvents (released r usage b run) = rsEvents run"
  "rsContext (released r usage b run) = rsContext run" "rsLease (released r usage b run) = rsLease run"
  by (simp_all add: released_def Let_def)

lemma finalizeUsage_amounts:
  assumes "finalizeUsage q x terminal = Inr usage" "\<And>u. obsUsage x = Some u \<Longrightarrow> 0 \<le> resAmount u"
    and "0 \<le> resAmount q"
  shows "usageReserved usage = resAmount q" "0 \<le> charged usage" "charged usage \<le> resAmount q"
    "0 \<le> usageUnreported usage" "usageUnreported usage \<le> charged usage"
  using assms by (auto simp: finalizeUsage_def charged_def split: if_split_asm option.split_asm)

lemma snapshotObservation_usage:
  "snapshotObservation observed = Inr x \<Longrightarrow> obsUsage x = Some u \<Longrightarrow> 0 \<le> resAmount u"
  by (auto simp: snapshotObservation_def bindE_eq_Inr validAmount_def split: if_split_asm option.split_asm)

text \<open>Records, claims and attempts after an outcome, whatever became of the accounts.\<close>

lemma outcome_tables:
  assumes ok: "coreOk base run" and r: "mapGet (rsEffects run) k = Some r"
    and out: "outOperation out = k" "outCommandScope out = cmdScope (intCommand (recIntent r))"
    and new: "attemptOutcome run k (outAttempt out) = None"
    and run': "rsScopes run' = rsScopes run" "rsQueue run' = rsQueue run"
      "rsEffects run' = mapSet k (r\<lparr>recOutcome := Some out\<rparr>) (rsEffects run)"
      "rsAttempts run' = mapSet k (mapSet (outAttempt out) out
         (case mapGet (rsAttempts run) k of None \<Rightarrow> [] | Some m \<Rightarrow> m)) (rsAttempts run)"
      "rsClaims run' = mapDelete k (rsClaims run)"
    and money: "mapValid (rsBudgets run')" "mapValid (rsCapacities run')"
      "\<And>u. mapGet (rsBudgets run) u \<noteq> None \<Longrightarrow> mapGet (rsBudgets run') u \<noteq> None"
      "\<And>c. mapGet (rsCapacities run) c \<noteq> None \<Longrightarrow> mapGet (rsCapacities run') c \<noteq> None"
  shows "tablesOk run'" and "claimsOk run'"
proof -
  note maps = coreOk_maps [OF ok]
  have att: "attemptOutcome run' j a =
      (if j = k \<and> a = outAttempt out then Some out else attemptOutcome run j a)" for j a
    by (auto simp: attemptOutcome_def run' split: option.split)
  have keep: "recordOk run' j w" if "recordOk run j w" for j w
    using that money(3,4) new by (auto simp: recordOk_def Let_def att run')
  have "recordOk run' k (r\<lparr>recOutcome := Some out\<rparr>)"
    using keep [OF maps(7) [OF r]] out by (auto simp: recordOk_def Let_def att)
  then have "\<And>j w. mapGet (rsEffects run') j = Some w \<Longrightarrow> recordOk run' j w"
    using keep maps(7) by (auto simp: run' split: if_split_asm)
  then show "tablesOk run'" using ok money(1,2) maps(1,2)
    by (auto simp: tablesOk_def coreOk_def run')
  have old: "claimsOk run" using ok by (simp add: coreOk_def)
  have grow: "\<exists>w'. mapGet (rsEffects run') j = Some w' \<and> recOutcome w' \<noteq> None"
    if "mapGet (rsEffects run) j = Some w" "recOutcome w \<noteq> None" for j w
    using that by (auto simp: run')
  show "claimsOk run'"
    unfolding claimsOk_def
  proof (intro conjI allI impI)
    show "mapValid (rsClaims run')" using maps(5) by (simp add: run')
  next
    fix j c assume c: "mapGet (rsClaims run') j = Some c"
    then have j: "j \<noteq> k" "mapGet (rsClaims run) j = Some c" by (auto simp: run' split: if_split_asm)
    then show "attemptOutcome run' j (claimAttempt c) = None" using old by (simp add: att claimsOk_def)
    show "\<exists>r. mapGet (rsEffects run') j = Some r \<and> \<not> isTerminalRecord r"
      using j old by (simp add: claimsOk_def run')
  next
    fix j a o' assume o': "attemptOutcome run' j a = Some o'"
    show "outOperation o' = j" "outAttempt o' = a" using o' out old
      by (auto simp: att claimsOk_def split: if_split_asm)
    show "\<exists>r. mapGet (rsEffects run') j = Some r \<and> recOutcome r \<noteq> None"
    proof (cases "j = k")
      case False
      then show ?thesis using o' old grow unfolding claimsOk_def att by (metis (no_types))
    qed (simp add: run')
  qed
qed

lemma terminal_accounts:
  assumes ok: "coreOk base run" and r: "mapGet (rsEffects run) k = Some r" "\<not> isTerminalRecord r"
    and usage: "usageReserved usage = resAmount (cmdBudget (intCommand (recIntent r)))"
      "0 \<le> charged usage" "charged usage \<le> resAmount (cmdBudget (intCommand (recIntent r)))"
      "0 \<le> usageUnreported usage" "usageUnreported usage \<le> charged usage"
    and b: "mapGet (rsBudgets run) (resUnit (cmdBudget (intCommand (recIntent r)))) = Some b"
    and out: "isTerminal (outStatus out)"
    and run': "rsEffects run' = mapSet k (r\<lparr>recOutcome := Some out\<rparr>) (rsEffects run)"
      "rsBudgets run' = rsBudgets (released r usage b run)"
      "rsCapacities run' = rsCapacities (released r usage b run)"
  shows "accountsOk base run'"
proof -
  note maps = coreOk_maps [OF ok]
  let ?c = "intCommand (recIntent r)" and ?r = "r\<lparr>recOutcome := Some out\<rparr>"
  have done': "isTerminalRecord ?r" using out by (simp add: isTerminalRecord_def)
  have hu: "heldUnits run' u = heldUnits run u - (if u = resUnit (cmdBudget ?c) then resAmount (cmdBudget ?c) else 0)" for u
    using heldUnits_set [OF maps(2) run'(1), of u] r done' by (auto simp: held_def)
  have oc: "occupied run' c = occupied run c - occupying c r" for c
    using occupied_set [OF maps(2) run'(1), of c] r done' by (auto simp: occupying_def)
  have "budgetOk run' u b'" if b': "mapGet (rsBudgets run') u = Some b'" for u b'
  proof (cases "u = resUnit (cmdBudget ?c)")
    case True
    then have "b' = settleBudget usage b" using b' by (simp add: run' released_def Let_def)
    then show ?thesis using True maps(8) [OF b] usage hu [of u]
      by (simp add: budgetOk_def settleBudget_def)
  next
    case False
    then have "mapGet (rsBudgets run) u = Some b'" "heldUnits run' u = heldUnits run u"
      using b' hu [of u] by (simp_all add: run' released_def Let_def)
    then show ?thesis using maps(8) [of u b'] by (simp add: budgetOk_def)
  qed
  moreover have "capacityOk base run' c s'" if s': "mapGet (rsCapacities run') c = Some s'" for c s'
  proof (cases "cmdCapacity ?c")
    case None
    then show ?thesis using s' maps(9) [of c s'] oc [of c]
      by (simp add: run' released_def Let_def capacityOk_def occupying_def)
  next
    case (Some cr)
    then obtain s where s: "mapGet (rsCapacities run) (capResource cr) = Some s" and one: "1 \<le> capAmount cr"
      using maps(7) [OF r(1)] by (auto simp: recordOk_def Let_def)
    then show ?thesis using s' Some r(2) maps(9) [OF s] maps(9) [of c s'] oc [of c]
      by (auto simp: run' released_def Let_def capacityOk_def occupying_def split: if_split_asm)
  qed
  ultimately show ?thesis by (simp add: accountsOk_def)
qed

lemma active_accounts:
  assumes ok: "coreOk base run" and r: "mapGet (rsEffects run) k = Some r" "\<not> isTerminalRecord r"
    and out: "\<not> isTerminal (outStatus out)"
    and run': "rsEffects run' = mapSet k (r\<lparr>recOutcome := Some out\<rparr>) (rsEffects run)"
      "rsBudgets run' = rsBudgets run" "rsCapacities run' = rsCapacities run"
  shows "accountsOk base run'"
proof -
  note valid = coreOk_maps(2) [OF ok]
  have live: "\<not> isTerminalRecord (r\<lparr>recOutcome := Some out\<rparr>)" using out by (simp add: isTerminalRecord_def)
  have sums: "heldUnits run' u = heldUnits run u" "occupied run' c = occupied run c" for u c
    using heldUnits_set [OF valid run'(1), of u] occupied_set [OF valid run'(1), of c] r live
    by (simp_all add: held_def occupying_def)
  show ?thesis using ok
    unfolding coreOk_def accountsOk_def budgetOk_def capacityOk_def run' sums by blast
qed

lemma commitEffectRun_ok:
  assumes ok: "coreOk base run" and commit: "commitEffectRun faults input i observed run = Inr (res, run')"
  shows "coreOk base run'"
  using ok commit
proof (cases rule: commitEffectRun_cases)
  case (fresh r claim x usage b)
  let ?k = "cmdOperation (intCommand i)" and ?c = "intCommand (recIntent r)"
  define out where "out = buildOutcome run input r claim x usage"
  define run1 where "run1 = (if isTerminal (obsStatus x) then released r usage b run else run)"
  define run2 where "run2 = run1\<lparr>rsEffects := mapSet ?k (r\<lparr>recOutcome := Some out\<rparr>) (rsEffects run1),
                 rsAttempts := mapSet ?k (mapSet (outAttempt out) out
                   (case mapGet (rsAttempts run1) ?k of None \<Rightarrow> [] | Some m \<Rightarrow> m)) (rsAttempts run1),
                 rsClaims := mapDelete ?k (rsClaims run1)\<rparr>"
  note r = durableRecord_get [OF fresh(1)] and maps = coreOk_maps [OF ok]
  have k: "cmdOperation ?c = ?k" using maps(7) [OF r] by (simp add: recordOk_def Let_def)
  have out: "outOperation out = ?k" "outCommandScope out = cmdScope ?c" "outAttempt out = inAttempt input"
      "outStatus out = obsStatus x"
    by (simp_all add: out_def buildOutcome_def Let_def k)
  have money: "mapValid (rsBudgets run2)" "mapValid (rsCapacities run2)"
      "mapGet (rsBudgets run) u \<noteq> None \<Longrightarrow> mapGet (rsBudgets run2) u \<noteq> None"
      "mapGet (rsCapacities run) c \<noteq> None \<Longrightarrow> mapGet (rsCapacities run2) c \<noteq> None" for u c
    using maps(3,4) by (auto simp: run2_def run1_def released_def Let_def split: option.split)
  have tables: "tablesOk run2" "claimsOk run2"
    by (rule outcome_tables [OF ok r out(1,2)]; use fresh(3) money in \<open>simp add: out run2_def run1_def\<close>)+
  have amount: "0 \<le> resAmount (cmdBudget ?c)" using maps(7) [OF r] by (simp add: recordOk_def Let_def)
  note usage = finalizeUsage_amounts [OF fresh(6) snapshotObservation_usage [OF fresh(5)] amount]
  have "accountsOk base run2"
  proof (cases "isTerminal (obsStatus x)")
    case True
    then show ?thesis by (intro terminal_accounts [OF ok r fresh(2) usage fresh(7)])
        (simp_all add: out run2_def run1_def)
  next
    case False
    then show ?thesis by (intro active_accounts [OF ok r fresh(2)]) (simp_all add: out run2_def run1_def)
  qed
  with tables have "coreOk base run2" by (simp add: coreOk_def)
  moreover have "\<exists>a b st ty t at p. run' = record_transition a b st ty t at p run2"
    using fresh(8) out(1) unfolding storeOutcome_def Let_def transition_defs out_def [symmetric]
      run1_def [symmetric] run2_def [symmetric] by (simp add: run2_def, blast)
  ultimately show ?thesis by auto
qed (use ok in simp)

lemma commitEffectRun_log:
  assumes "coreOk base run" "logOk run" "commitEffectRun faults input i observed run = Inr (res, run')"
  shows "logOk run'"
  using assms(1,3)
proof (cases rule: commitEffectRun_cases)
  case (fresh r claim x usage b)
  then show ?thesis
    by (auto simp: storeOutcome_def Let_def transition_defs intro!: transition_logOk [OF assms(2)])
qed (use assms(2) in simp)

section \<open>Admission and fences\<close>

lemma foldE_keyed:
  assumes "foldE f m xs = Inr m'" "mapValid m" "\<And>k v. mapGet m k = Some v \<Longrightarrow> Q k v"
    and "\<And>m x m'. f m x = Inr m' \<Longrightarrow> \<exists>k v. m' = mapSet k v m \<and> Q k v"
  shows "mapValid m' \<and> (\<forall>k v. mapGet m' k = Some v \<longrightarrow> Q k v)"
proof (rule foldE_invariant [OF assms(1), where P = "\<lambda>m. mapValid m \<and> (\<forall>k v. mapGet m k = Some v \<longrightarrow> Q k v)"])
  fix s x s' assume "mapValid s \<and> (\<forall>k v. mapGet s k = Some v \<longrightarrow> Q k v)" and "f s x = Inr s'"
  with assms(4) [of s x s'] show "mapValid s' \<and> (\<forall>k v. mapGet s' k = Some v \<longrightarrow> Q k v)"
    by (auto split: if_split_asm)
qed (use assms(2,3) in simp)

text \<open>The two loops that merge admitted scopes and limits into the run's maps.\<close>

lemma admit_scopes:
  assumes "distinct (map fst admitted)" "mapValid m"
  shows "mapValid (fold (\<lambda>(k, s) m. if mapHas m k then m else mapSet k s m) admitted m) \<and>
    (\<forall>j. mapGet (fold (\<lambda>(k, s) m. if mapHas m k then m else mapSet k s m) admitted m) j =
      (case mapGet m j of Some s \<Rightarrow> Some s | None \<Rightarrow> mapGet admitted j))"
  using assms
proof (induction admitted arbitrary: m)
  case (Cons e es)
  obtain k s where e: "e = (k, s)" by (cases e)
  define M where "M = (if mapHas m k then m else mapSet k s m)"
  have es: "distinct (map fst es)" "mapValid M" "mapGet es k = None"
    using Cons.prems e by (auto simp: M_def mapGet_def map_of_eq_None_iff)
  have get: "mapGet ((k, s) # es) j = (if j = k then Some s else mapGet es j)" for j
    by (simp add: mapGet_def)
  have first: "mapGet M j = (case mapGet m j of Some t \<Rightarrow> Some t | None \<Rightarrow> if j = k then Some s else None)" for j
    by (auto simp: M_def mapHas_def split: option.split)
  show ?case using Cons.IH [OF es(1,2)] es(3)
    unfolding fold.simps comp_def e prod.case M_def [symmetric] get
    by (auto simp: first split: option.split)
qed (simp add: mapGet_def option.case_eq_if)

lemma admit_limits:
  assumes "distinct (map fst limits)" "mapValid m"
  shows "mapValid (fold (\<lambda>(u, l) m. case mapGet m u of None \<Rightarrow> mapSet u (newBudget u l) m
      | Some e \<Rightarrow> mapSet u (e\<lparr>budLimit := l\<rparr>) m) limits m) \<and>
    (\<forall>j. mapGet (fold (\<lambda>(u, l) m. case mapGet m u of None \<Rightarrow> mapSet u (newBudget u l) m
      | Some e \<Rightarrow> mapSet u (e\<lparr>budLimit := l\<rparr>) m) limits m) j =
      (case mapGet limits j of None \<Rightarrow> mapGet m j
       | Some l \<Rightarrow> Some (case mapGet m j of None \<Rightarrow> newBudget j l | Some e \<Rightarrow> e\<lparr>budLimit := l\<rparr>)))"
  using assms
proof (induction limits arbitrary: m)
  case (Cons e es)
  obtain u l where e: "e = (u, l)" by (cases e)
  define M where "M = (case mapGet m u of None \<Rightarrow> mapSet u (newBudget u l) m
    | Some e \<Rightarrow> mapSet u (e\<lparr>budLimit := l\<rparr>) m)"
  have es: "distinct (map fst es)" "mapValid M" "mapGet es u = None"
    using Cons.prems e by (auto simp: M_def mapGet_def map_of_eq_None_iff split: option.split)
  have get: "mapGet ((u, l) # es) j = (if j = u then Some l else mapGet es j)" for j
    by (simp add: mapGet_def)
  have first: "mapGet M j = (if j = u then Some (case mapGet m u of None \<Rightarrow> newBudget u l
      | Some e \<Rightarrow> e\<lparr>budLimit := l\<rparr>) else mapGet m j)" for j
    by (simp add: M_def split: option.split)
  show ?case using Cons.IH [OF es(1,2)] es(3)
    unfolding fold.simps comp_def e prod.case M_def [symmetric] get
    by (auto simp: first split: option.split)
qed simp

lemma ensure_cases:
  assumes "ensureTaskScopesAndBudgetsRun run lease now scopes budgets = Inr run'"
  obtains admitted limits where "mapValid admitted" "mapValid limits"
    "\<And>k s. mapGet admitted k = Some s \<Longrightarrow> k = taskScopeKey s \<and> validScopeFence s (rsRun run)"
    "\<And>u l. mapGet limits u = Some l \<Longrightarrow> 0 \<le> l \<and> (\<forall>b. mapGet (rsBudgets run) u = Some b \<longrightarrow> budLimit b \<le> l)"
    "run' = run\<lparr>rsScopes := fold (\<lambda>(k, s) m. if mapHas m k then m else mapSet k s m) admitted (rsScopes run),
            rsBudgets := fold (\<lambda>(u, l) m. case mapGet m u of
                None \<Rightarrow> mapSet u (newBudget u l) m
              | Some e \<Rightarrow> mapSet u (e\<lparr>budLimit := l\<rparr>) m) limits (rsBudgets run)\<rparr>"
proof -
  obtain admitted limits where a: "foldE (\<lambda>m s.
         if \<not> validScopeFence s (rsRun run) then Inl TypeError
         else if \<not> claimsAccepted s then Inl TypeError
         else if mapHas m (taskScopeKey s) then Inl TypeError
         else bindE (case mapGet (rsScopes run) (taskScopeKey s) of
             None \<Rightarrow> Inr True | Some e \<Rightarrow> sameText (encCurrentness e) (encCurrentness s)) (\<lambda>same.
           if \<not> same then Inl TypeError else Inr (mapSet (taskScopeKey s) s m))) [] scopes = Inr admitted"
    and l: "foldE (\<lambda>m (u, l).
         if \<not> validUnit u \<or> \<not> validAmount l then Inl TypeError
         else if mapHas m u then Inl TypeError
         else (case mapGet (rsBudgets run) u of
             None \<Rightarrow> Inr (mapSet u l m)
           | Some e \<Rightarrow> if l < budLimit e then Inl TypeError else Inr (mapSet u l m))) [] budgets = Inr limits"
    and run': "run' = run\<lparr>rsScopes := fold (\<lambda>(k, s) m. if mapHas m k then m else mapSet k s m) admitted (rsScopes run),
            rsBudgets := fold (\<lambda>(u, l) m. case mapGet m u of
                None \<Rightarrow> mapSet u (newBudget u l) m
              | Some e \<Rightarrow> mapSet u (e\<lparr>budLimit := l\<rparr>) m) limits (rsBudgets run)\<rparr>"
    using assms unfolding ensureTaskScopesAndBudgetsRun_def by (auto simp: bindE_eq_Inr)
  have "mapValid admitted \<and> (\<forall>k s. mapGet admitted k = Some s \<longrightarrow> k = taskScopeKey s \<and> validScopeFence s (rsRun run))"
    by (rule foldE_keyed [OF a]) (auto simp: bindE_eq_Inr split: if_split_asm)
  moreover have "mapValid limits \<and> (\<forall>u l. mapGet limits u = Some l \<longrightarrow>
      0 \<le> l \<and> (\<forall>b. mapGet (rsBudgets run) u = Some b \<longrightarrow> budLimit b \<le> l))"
    by (rule foldE_keyed [OF l])
      (fastforce simp: validAmount_def split: if_split_asm option.split_asm)+
  ultimately show thesis using run' by (intro that) auto
qed

lemma ensure_ok:
  assumes ok: "coreOk base run" and step: "ensureTaskScopesAndBudgetsRun run lease now scopes budgets = Inr run'"
  shows "coreOk base run'"
proof -
  note maps = coreOk_maps [OF ok]
  from step obtain admitted limits where valid: "mapValid admitted" "mapValid limits"
    and scope: "\<And>k s. mapGet admitted k = Some s \<Longrightarrow> k = taskScopeKey s \<and> validScopeFence s (rsRun run)"
    and limit: "\<And>u l. mapGet limits u = Some l \<Longrightarrow> 0 \<le> l \<and> (\<forall>b. mapGet (rsBudgets run) u = Some b \<longrightarrow> budLimit b \<le> l)"
    and run': "run' = run\<lparr>rsScopes := fold (\<lambda>(k, s) m. if mapHas m k then m else mapSet k s m) admitted (rsScopes run),
            rsBudgets := fold (\<lambda>(u, l) m. case mapGet m u of
                None \<Rightarrow> mapSet u (newBudget u l) m
              | Some e \<Rightarrow> mapSet u (e\<lparr>budLimit := l\<rparr>) m) limits (rsBudgets run)\<rparr>"
    by (cases rule: ensure_cases) (rule that)
  note scopes' = conjunct1 [OF admit_scopes [OF valid(1) [unfolded mapValid_def] maps(1)]]
    spec [OF conjunct2 [OF admit_scopes [OF valid(1) [unfolded mapValid_def] maps(1)]]]
  note budgets' = conjunct1 [OF admit_limits [OF valid(2) [unfolded mapValid_def] maps(3)]]
    spec [OF conjunct2 [OF admit_limits [OF valid(2) [unfolded mapValid_def] maps(3)]]]
  define run1 where "run1 = run\<lparr>rsScopes := rsScopes run'\<rparr>"
  have core1: "coreOk base run1"
    by (rule coreOk_touch [OF ok]; use maps scopes' scope in
        \<open>auto simp: run1_def run' split: option.split_asm option.split\<close>)
  note maps1 = coreOk_maps [OF core1]
  have same: "rsScopes run' = rsScopes run1" "rsEffects run' = rsEffects run1" "rsAttempts run' = rsAttempts run1"
      "rsClaims run' = rsClaims run1" "rsCapacities run' = rsCapacities run1" "rsQueue run' = rsQueue run1"
      "rsBudgets run1 = rsBudgets run"
    by (simp_all add: run1_def run')
  have bud: "mapValid (rsBudgets run')" "mapGet (rsBudgets run') j = (case mapGet limits j of
        None \<Rightarrow> mapGet (rsBudgets run1) j
      | Some l \<Rightarrow> Some (case mapGet (rsBudgets run1) j of None \<Rightarrow> newBudget j l | Some e \<Rightarrow> e\<lparr>budLimit := l\<rparr>))" for j
    using budgets' unfolding same(7) by (simp_all add: run')
  have att: "attemptOutcome run' = attemptOutcome run1" by (simp add: attemptOutcome_def same fun_eq_iff)
  have sums: "heldUnits run' u = heldUnits run1 u" "occupied run' c = occupied run1 c" for u c
    by (simp_all add: heldUnits_def occupied_def same)
  have known: "mapGet (rsBudgets run1) u \<noteq> None \<Longrightarrow> mapGet (rsBudgets run') u \<noteq> None" for u
    by (simp add: bud split: option.split)
  have "recordOk run' k r" if "recordOk run1 k r" for k r
    using that known by (auto simp: recordOk_def Let_def same att)
  then have "tablesOk run'" using core1 bud(1) unfolding coreOk_def tablesOk_def same(1,2,5,6) by blast
  moreover have "budgetOk run' u b'" if b': "mapGet (rsBudgets run') u = Some b'" for u b'
  proof (cases "mapGet limits u")
    case None
    then have "mapGet (rsBudgets run1) u = Some b'" using b' by (simp add: bud)
    then show ?thesis using maps1(8) [of u b'] by (simp add: budgetOk_def sums)
  next
    case (Some l)
    show ?thesis
    proof (cases "mapGet (rsBudgets run1) u")
      case none: None
      have "heldUnits run1 u = 0" unfolding heldUnits_def
        by (rule jsmap.total_zero [OF maps1(2)]) (use none maps1(7) in \<open>fastforce simp: held_def recordOk_def Let_def\<close>)
      then show ?thesis using b' Some none limit [OF Some]
        by (auto simp: bud budgetOk_def newBudget_def sums same(7))
    next
      case (Some b)
      then show ?thesis using b' \<open>mapGet limits u = Some l\<close> limit [of u l] maps1(8) [of u b]
        by (auto simp: bud same(7) budgetOk_def sums)
    qed
  qed
  moreover have "capacityOk base run' c s" if "mapGet (rsCapacities run') c = Some s" for c s
    using that maps1(9) [of c s] by (simp add: capacityOk_def same sums)
  ultimately show ?thesis using core1 claimsOk_cong [OF same(2-4)] by (simp add: coreOk_def accountsOk_def)
qed

lemma ensure_log:
  assumes ok: "coreOk base run" and "logOk run"
    and step: "ensureTaskScopesAndBudgetsRun run lease now scopes budgets = Inr run'"
  shows "logOk run'"
  using step
proof (cases rule: ensure_cases)
  case (1 admitted limits)
  note maps = coreOk_maps [OF ok]
  have scopes': "mapGet (rsScopes run') k = mapGet (rsScopes run) k" if "mapGet (rsScopes run) k \<noteq> None" for k
    using conjunct2 [OF admit_scopes [OF 1(1) [unfolded mapValid_def] maps(1)]] that
    by (auto simp: 1(5))
  have "projectRun run' = projectRun run"
  proof (rule projectRun_currentness)
    fix r out assume r: "r \<in> set (mapValues (rsEffects run))" "recOutcome r = Some out"
    then obtain k where "mapGet (rsEffects run) k = Some r" using maps(2) by (auto simp: mapValues_iff)
    then have "recordOk run k r" by (rule maps(7))
    then show "mapGet (rsScopes run') (taskScopeKey (outCommandScope out)) =
        mapGet (rsScopes run) (taskScopeKey (outCommandScope out))"
      using r(2) by (intro scopes') (auto simp: recordOk_def Let_def)
  qed (simp_all add: 1(5))
  then show ?thesis using assms(2) by (auto simp: 1(5) intro: logOk_cong)
qed

lemma fenceScope_frame:
  "rsCursor (fenceScope at s run) = rsCursor run" "rsReceipts (fenceScope at s run) = rsReceipts run"
  "rsEvents (fenceScope at s run) = rsEvents run" "rsClaims (fenceScope at s run) = rsClaims run"
  "rsAttempts (fenceScope at s run) = rsAttempts run" "rsBudgets (fenceScope at s run) = rsBudgets run"
  "rsCapacities (fenceScope at s run) = rsCapacities run" "rsQueue (fenceScope at s run) = rsQueue run"
  by (simp_all add: fenceScope_def Let_def)

lemma taskScopeKey_fenced [simp]:
  "taskScopeKey (s\<lparr>scopeFence := n, claimsAccepted := b\<rparr>) = taskScopeKey s"
  by (simp add: taskScopeKey_def)

lemma fenceScope_ok:
  assumes "coreOk base run"
  shows "coreOk base (fenceScope at s run)"
  by (rule coreOk_touch [OF assms]; use coreOk_maps [OF assms] in
      \<open>auto simp: fenceScope_def Let_def sameWork_def option_rel_Some1 split: if_split_asm
        intro!: option.rel_map [THEN iffD2] option.rel_refl\<close>)

lemma fold_fenceScope:
  "coreOk base run \<Longrightarrow> coreOk base (fold (fenceScope at) ss run)"
  "rsCursor (fold (fenceScope at) ss run) = rsCursor run"
  "rsReceipts (fold (fenceScope at) ss run) = rsReceipts run"
  "rsEvents (fold (fenceScope at) ss run) = rsEvents run"
  by (induction ss arbitrary: run) (simp_all add: fenceScope_ok fenceScope_frame)

lemma fold_transitions:
  assumes "\<And>s run. f s run = record_transition a b st ty (t s) at (p s) run"
  shows "coreOk base (fold f ss run) = coreOk base run"
    and "rsScopes (fold f ss run) = rsScopes run"
    and "ss \<noteq> [] \<or> logOk run \<Longrightarrow>
      map rcCursor (rsReceipts run) = map int [1..<Suc (length (rsReceipts run))] \<Longrightarrow>
      map evCursor (rsEvents run) = map rcCursor (rsReceipts run) \<Longrightarrow>
      rsCursor run = int (length (rsReceipts run)) \<Longrightarrow> logOk (fold f ss run)"
proof -
  show "coreOk base (fold f ss run) = coreOk base run" "rsScopes (fold f ss run) = rsScopes run"
    by (induction ss arbitrary: run) (simp_all add: assms)
  show "logOk (fold f ss run)"
    if "ss \<noteq> [] \<or> logOk run"
      "map rcCursor (rsReceipts run) = map int [1..<Suc (length (rsReceipts run))]"
      "map evCursor (rsEvents run) = map rcCursor (rsReceipts run)"
      "rsCursor run = int (length (rsReceipts run))"
    using that
  proof (induction ss arbitrary: run)
    case (Cons s ss)
    have log: "logOk (f s run)" unfolding assms by (rule record_transition_log) (use Cons.prems in auto)
    show ?case unfolding fold.simps comp_def
      by (rule Cons.IH) (use log in \<open>auto simp: logOk_def\<close>)
  qed simp
qed

lemma install_cases:
  assumes "installTaskScopeFencesRun run runId at fences = Inr (installed, run')"
  obtains current where
    "run' = fold (\<lambda>s. appendRunTransition ScopeFenced at
                 (Obj [(lit ''taskId'', Str (scopeTask s)),
                       (lit ''definitionGeneration'', Num (Whole (scopeGeneration s))),
                       (lit ''acceptedContextDigest'', Str (scopeContext s)),
                       (lit ''fenceGeneration'', Num (Whole (scopeFence s)))])) installed
        (fold (fenceScope at) current run)"
    "installed = map (\<lambda>s. s\<lparr>scopeFence := scopeFence s + 1, claimsAccepted := False\<rparr>) current"
  using assms unfolding installTaskScopeFencesRun_def
  by (auto simp: bindE_eq_Inr Let_def split: if_split_asm)

lemma install_ok:
  assumes "coreOk base run" "installTaskScopeFencesRun run runId at fences = Inr (installed, run')"
  shows "coreOk base run'"
  using assms(2)
proof (cases rule: install_cases)
  case (1 current)
  then show ?thesis using assms(1)
    by (simp add: fold_transitions(1) [OF appendRunTransition_def] fold_fenceScope)
qed

lemma install_log:
  assumes "logOk run" "installTaskScopeFencesRun run runId at fences = Inr (installed, run')"
  shows "logOk run'"
  using assms(2)
proof (cases rule: install_cases)
  case (1 current)
  have "installed \<noteq> [] \<or> logOk (fold (fenceScope at) current run)"
    using 1(2) assms(1) by (cases current) simp_all
  then show ?thesis unfolding 1(1) using assms(1)
    by (intro fold_transitions(3) [OF appendRunTransition_def]) (simp_all add: fold_fenceScope logOk_def)
qed

section \<open>Every step and every reachable state\<close>

theorem runnerStep_ok: "runnerStep run run' \<Longrightarrow> coreOk base run \<Longrightarrow> coreOk base run'"
  by (induction rule: runnerStep.induct)
    (blast intro: enqueueRun_ok ensure_ok install_ok claimEffectAttemptRun_ok persistIntentRun_ok
      commitEffectRun_ok setLeaseRun_ok updateContextRun_ok requestCancellationRun_ok)+

theorem runnerStep_log: "runnerStep run run' \<Longrightarrow> coreOk base run \<Longrightarrow> logOk run \<Longrightarrow> logOk run'"
  by (induction rule: runnerStep.induct)
    (blast intro: enqueueRun_log ensure_log install_log claimEffectAttemptRun_log persistIntentRun_log
      commitEffectRun_log setLeaseRun_log updateContextRun_log requestCancellationRun_log)+

end
