(* ===== verification/RunnerHistory.thy ===== *)
theory RunnerHistory
  imports RunnerSteps
begin

text \<open>
  What a run of the authority never takes back. \<open>extends run run'\<close>: the log grows at its end, every
  recorded attempt keeps its outcome, an effect keeps its intent, its terminal outcome and its
  cancellation request, and a task scope stays as it is or is fenced for good. Every step extends
  (\<open>runnerStep_extends\<close>), so does any sequence of steps.
\<close>

definition scopeMoves :: "taskScopeCurrentness \<Rightarrow> taskScopeCurrentness \<Rightarrow> bool" where
  "scopeMoves s s' \<longleftrightarrow> s' = s \<or>
     claimsAccepted s \<and> s' = s\<lparr>scopeFence := scopeFence s + 1, claimsAccepted := False\<rparr>"

definition recordMoves :: "effectRecord \<Rightarrow> effectRecord \<Rightarrow> bool" where
  "recordMoves r r' \<longleftrightarrow> recIntent r' = recIntent r \<and>
     (isTerminalRecord r \<longrightarrow> recOutcome r' = recOutcome r) \<and>
     (recCancelAt r \<noteq> None \<longrightarrow> recCancelAt r' = recCancelAt r)"

definition extends :: "runState \<Rightarrow> runState \<Rightarrow> bool" where
  "extends run run' \<longleftrightarrow>
     (\<exists>es. rsEvents run' = rsEvents run @ es) \<and> (\<exists>rs. rsReceipts run' = rsReceipts run @ rs) \<and>
     (\<forall>k a out. attemptOutcome run k a = Some out \<longrightarrow> attemptOutcome run' k a = Some out) \<and>
     (\<forall>k r. mapGet (rsEffects run) k = Some r \<longrightarrow> (\<exists>r'. mapGet (rsEffects run') k = Some r' \<and> recordMoves r r')) \<and>
     (\<forall>k s. mapGet (rsScopes run) k = Some s \<longrightarrow> (\<exists>s'. mapGet (rsScopes run') k = Some s' \<and> scopeMoves s s'))"

lemma moves_refl [simp]: "scopeMoves s s" "recordMoves r r"
  by (simp_all add: scopeMoves_def recordMoves_def)

lemma scopeMoves_trans: "scopeMoves s t \<Longrightarrow> scopeMoves t u \<Longrightarrow> scopeMoves s u"
  by (auto simp: scopeMoves_def)

lemma recordMoves_trans: "recordMoves r s \<Longrightarrow> recordMoves s t \<Longrightarrow> recordMoves r t"
  by (auto simp: recordMoves_def isTerminalRecord_def)

lemma extends_refl [simp]: "extends run run"
  by (auto simp: extends_def)

lemma extendsD:
  "extends run run' \<Longrightarrow> attemptOutcome run k a = Some out \<Longrightarrow> attemptOutcome run' k a = Some out"
  "extends run run' \<Longrightarrow> mapGet (rsEffects run) k = Some r \<Longrightarrow>
     \<exists>r'. mapGet (rsEffects run') k = Some r' \<and> recordMoves r r'"
  "extends run run' \<Longrightarrow> mapGet (rsScopes run) k = Some s \<Longrightarrow>
     \<exists>s'. mapGet (rsScopes run') k = Some s' \<and> scopeMoves s s'"
  by (simp_all add: extends_def)

lemma extends_trans:
  assumes "extends run run'" "extends run' run''"
  shows "extends run run''"
  unfolding extends_def
proof (intro conjI allI impI)
  obtain es fs rs ss where "rsEvents run' = rsEvents run @ es" "rsEvents run'' = rsEvents run' @ fs"
      "rsReceipts run' = rsReceipts run @ rs" "rsReceipts run'' = rsReceipts run' @ ss"
    using assms unfolding extends_def by blast
  then show "\<exists>es. rsEvents run'' = rsEvents run @ es" "\<exists>rs. rsReceipts run'' = rsReceipts run @ rs" by simp_all
  show "attemptOutcome run'' k a = Some out" if "attemptOutcome run k a = Some out" for k a out
    using assms that extendsD(1) by blast
  show "\<exists>r'. mapGet (rsEffects run'') k = Some r' \<and> recordMoves r r'"
    if "mapGet (rsEffects run) k = Some r" for k r
    using extendsD(2) [OF assms(1) that] extendsD(2) [OF assms(2)] recordMoves_trans by blast
  show "\<exists>s'. mapGet (rsScopes run'') k = Some s' \<and> scopeMoves s s'"
    if "mapGet (rsScopes run) k = Some s" for k s
    using extendsD(3) [OF assms(1) that] extendsD(3) [OF assms(2)] scopeMoves_trans by blast
qed

lemma extends_transition:
  assumes "extends run run'"
  shows "extends run (record_transition a b st ty t at p run')"
proof -
  have "\<exists>es. rsEvents (record_transition a b st ty t at p run') = rsEvents run' @ es"
    "\<exists>rs. rsReceipts (record_transition a b st ty t at p run') = rsReceipts run' @ rs"
    by (simp_all add: record_transition_def Let_def)
  then show ?thesis using assms by (auto simp: extends_def)
qed

text \<open>A step that leaves the effects, attempts, scopes and log as they are.\<close>

lemma extends_frame:
  assumes "rsEvents run' = rsEvents run" "rsReceipts run' = rsReceipts run" "rsEffects run' = rsEffects run"
    "rsAttempts run' = rsAttempts run" "rsScopes run' = rsScopes run"
  shows "extends run run'"
  using assms by (simp add: extends_def attemptOutcome_def)

lemma extends_effects:
  assumes "rsEvents run' = rsEvents run" "rsReceipts run' = rsReceipts run"
    "rsAttempts run' = rsAttempts run" "rsScopes run' = rsScopes run"
    and "\<And>k r. mapGet (rsEffects run) k = Some r \<Longrightarrow> \<exists>r'. mapGet (rsEffects run') k = Some r' \<and> recordMoves r r'"
  shows "extends run run'"
  using assms by (simp add: extends_def attemptOutcome_def)

section \<open>The fenced scopes\<close>

lemma checkInstallation_eq:
  "checkInstallation run runId seen f = Inr (s, seen') \<Longrightarrow> seen' = taskScopeKey (instScope f) # seen \<and>
     mapGet (rsScopes run) (taskScopeKey (instScope f)) = Some s \<and> claimsAccepted s \<and>
     taskScopeKey (instScope f) \<notin> set seen"
  by (auto simp: checkInstallation_def Let_def split: if_split_asm option.split_asm)

lemma checked_installations:
  assumes "mapAccumE (checkInstallation run runId) seen fences = Inr (current, seen')"
    and "\<And>k s. mapGet (rsScopes run) k = Some s \<Longrightarrow> k = taskScopeKey s"
  shows "taskScopeKey ` set current = (taskScopeKey \<circ> instScope) ` set fences \<and>
    distinct (map taskScopeKey current) \<and> set (map taskScopeKey current) \<inter> set seen = {} \<and>
    (\<forall>s\<in>set current. mapGet (rsScopes run) (taskScopeKey s) = Some s \<and> claimsAccepted s)"
  using assms(1)
proof (induction fences arbitrary: seen current)
  case (Cons f fs)
  then obtain s seen1 ss where c: "checkInstallation run runId seen f = Inr (s, seen1)"
      "mapAccumE (checkInstallation run runId) seen1 fs = Inr (ss, seen')" "current = s # ss"
    by (auto simp: bindE_eq_Inr)
  have s: "seen1 = taskScopeKey (instScope f) # seen"
      "mapGet (rsScopes run) (taskScopeKey (instScope f)) = Some s" "claimsAccepted s"
      "taskScopeKey (instScope f) \<notin> set seen"
    using checkInstallation_eq [OF c(1)] by auto
  then have "taskScopeKey s = taskScopeKey (instScope f)" using assms(2) by metis
  then show ?case using Cons.IH [OF c(2)] s c(3) by auto
qed auto

lemma fold_fenceScope_scopes:
  assumes "distinct (map taskScopeKey ss)"
  shows "mapGet (rsScopes (fold (fenceScope at) ss run)) k =
    (case find (\<lambda>s. taskScopeKey s = k) ss of
       Some s \<Rightarrow> Some (s\<lparr>scopeFence := scopeFence s + 1, claimsAccepted := False\<rparr>)
     | None \<Rightarrow> mapGet (rsScopes run) k)"
  using assms
proof (induction ss arbitrary: run)
  case (Cons s ss)
  have "find (\<lambda>t. taskScopeKey t = taskScopeKey s) ss = None" using Cons.prems by (simp add: find_None_iff image_iff) metis
  moreover have "mapGet (rsScopes (fenceScope at s run)) k = (if k = taskScopeKey s then
      Some (s\<lparr>scopeFence := scopeFence s + 1, claimsAccepted := False\<rparr>) else mapGet (rsScopes run) k)"
    by (simp add: fenceScope_def Let_def)
  ultimately show ?case using Cons.IH [of "fenceScope at s run"] Cons.prems
    by (auto split: option.split)
qed simp

lemma fold_fenceScope_effects:
  "mapGet (rsEffects run) k = Some r \<Longrightarrow> \<exists>r'. mapGet (rsEffects (fold (fenceScope at) ss run)) k = Some r' \<and>
     recordMoves r r' \<and> (\<forall>s\<in>set ss. \<not> isTerminalRecord r \<longrightarrow>
       sameTaskScope (cmdScope (intCommand (recIntent r))) s \<longrightarrow> recCancelAt r' \<noteq> None)"
proof (induction ss arbitrary: run r)
  case (Cons s ss)
  define r1 where "r1 = (if \<not> isTerminalRecord r \<and> sameTaskScope (cmdScope (intCommand (recIntent r))) s \<and>
                recCancelAt r = None then r\<lparr>recCancelAt := Some at\<rparr> else r)"
  have "mapGet (rsEffects (fenceScope at s run)) k = Some r1"
    using Cons.prems by (simp add: fenceScope_def Let_def r1_def)
  from Cons.IH [OF this] obtain r' where r': "mapGet (rsEffects (fold (fenceScope at) ss (fenceScope at s run))) k = Some r'"
    "recordMoves r1 r'" "\<forall>s\<in>set ss. \<not> isTerminalRecord r1 \<longrightarrow>
       sameTaskScope (cmdScope (intCommand (recIntent r1))) s \<longrightarrow> recCancelAt r' \<noteq> None" by auto
  have r1: "recordMoves r r1" "isTerminalRecord r1 = isTerminalRecord r" "recIntent r1 = recIntent r"
    by (auto simp: r1_def recordMoves_def isTerminalRecord_def)
  have "recCancelAt r' \<noteq> None"
    if "\<not> isTerminalRecord r" "sameTaskScope (cmdScope (intCommand (recIntent r))) s"
    using that r'(2) by (auto simp: recordMoves_def r1_def split: if_split_asm)
  then show ?case using r' r1 recordMoves_trans by auto
qed auto

lemma fold_fenceScope_attempts: "rsAttempts (fold (fenceScope at) ss run) = rsAttempts run"
  by (induction ss arbitrary: run) (simp_all add: fenceScope_frame)

lemma fold_transitions_frame:
  "rsEffects (fold (\<lambda>s. appendRunTransition st at (p s)) ss run) = rsEffects run"
  "rsScopes (fold (\<lambda>s. appendRunTransition st at (p s)) ss run) = rsScopes run"
  by (induction ss arbitrary: run) (simp_all add: appendRunTransition_def)

lemma extends_fold_transitions:
  "extends run run' \<Longrightarrow> extends run (fold (\<lambda>s. appendRunTransition st at (p s)) ss run')"
  by (induction ss arbitrary: run') (simp_all add: appendRunTransition_def extends_transition)

section \<open>Every step extends\<close>

lemma install_cases':
  assumes "installTaskScopeFencesRun run runId at fences = Inr (installed, run')" "coreOk base run"
  obtains current where
    "installed = map (\<lambda>s. s\<lparr>scopeFence := scopeFence s + 1, claimsAccepted := False\<rparr>) current"
    "rsScopes run' = rsScopes (fold (fenceScope at) current run)"
    "rsEffects run' = rsEffects (fold (fenceScope at) current run)"
    "extends (fold (fenceScope at) current run) run'"
    "taskScopeKey ` set current = (taskScopeKey \<circ> instScope) ` set fences"
    "distinct (map taskScopeKey current)"
    "\<And>s. s \<in> set current \<Longrightarrow> mapGet (rsScopes run) (taskScopeKey s) = Some s \<and> claimsAccepted s"
proof -
  obtain current seen where c: "mapAccumE (checkInstallation run runId) []
      (sort_key (\<lambda>f. (scopeRun (instScope f), scopeTask (instScope f), scopeGeneration (instScope f))) fences) =
        Inr (current, seen)"
    and step: "installed = map (\<lambda>s. s\<lparr>scopeFence := scopeFence s + 1, claimsAccepted := False\<rparr>) current"
      "run' = fold (\<lambda>s. appendRunTransition ScopeFenced at
                 (Obj [(lit ''taskId'', Str (scopeTask s)),
                       (lit ''definitionGeneration'', Num (Whole (scopeGeneration s))),
                       (lit ''acceptedContextDigest'', Str (scopeContext s)),
                       (lit ''fenceGeneration'', Num (Whole (scopeFence s)))])) installed
        (fold (fenceScope at) current run)"
    using assms(1) unfolding installTaskScopeFencesRun_def
    by (auto simp: bindE_eq_Inr Let_def split: if_split_asm)
  note checked = checked_installations [OF c coreOk_maps(6) [OF assms(2)]]
  show thesis
    by (rule that [OF step(1)]; use checked in \<open>simp add: step(2) fold_transitions_frame extends_fold_transitions\<close>)
qed

lemma install_extends:
  assumes "installTaskScopeFencesRun run runId at fences = Inr (installed, run')" "coreOk base run"
  shows "extends run run'"
  using assms
proof (cases rule: install_cases')
  case (1 current)
  have "extends run (fold (fenceScope at) current run)"
    unfolding extends_def
  proof (intro conjI allI impI)
    fix k s assume s: "mapGet (rsScopes run) k = Some s"
    show "\<exists>s'. mapGet (rsScopes (fold (fenceScope at) current run)) k = Some s' \<and> scopeMoves s s'"
    proof (cases "find (\<lambda>s. taskScopeKey s = k) current")
      case None
      then show ?thesis using s by (simp add: fold_fenceScope_scopes [OF 1(6)])
    next
      case (Some t)
      then have "t \<in> set current" "taskScopeKey t = k" by (auto simp: find_Some_iff)
      then have "t = s" "claimsAccepted s" using 1(7) s by auto
      then show ?thesis using Some by (simp add: fold_fenceScope_scopes [OF 1(6)] scopeMoves_def)
    qed
  qed (use fold_fenceScope_effects in
      \<open>simp_all add: fold_fenceScope fold_fenceScope_attempts attemptOutcome_def, blast\<close>)
  then show ?thesis using 1(4) by (rule extends_trans)
qed

lemma storeIntent_extends:
  assumes "(res, run') = storeIntent faults input q b reserved run" "mapGet (rsEffects run) (cmdOperation q) = None"
  shows "extends run run'"
  using assms by (auto simp: storeIntent_def Let_def transition_defs intro!: extends_transition extends_effects)

lemma storeOutcome_extends:
  assumes "(res, run') = storeOutcome faults r out run1"
    and run1: "rsEvents run1 = rsEvents run" "rsReceipts run1 = rsReceipts run" "rsEffects run1 = rsEffects run"
      "rsAttempts run1 = rsAttempts run" "rsScopes run1 = rsScopes run"
    and r: "mapGet (rsEffects run) (outOperation out) = Some r" "\<not> isTerminalRecord r"
    and new: "attemptOutcome run (outOperation out) (outAttempt out) = None"
  shows "extends run run'"
proof -
  define run2 where "run2 = run1\<lparr>rsEffects := mapSet (outOperation out) (r\<lparr>recOutcome := Some out\<rparr>) (rsEffects run1),
                 rsAttempts := mapSet (outOperation out) (mapSet (outAttempt out) out
                   (case mapGet (rsAttempts run1) (outOperation out) of None \<Rightarrow> [] | Some m \<Rightarrow> m)) (rsAttempts run1),
                 rsClaims := mapDelete (outOperation out) (rsClaims run1)\<rparr>"
  have att: "attemptOutcome run2 k a = Some o'" if "attemptOutcome run k a = Some o'" for k a o'
    using that new by (auto simp: run2_def attemptOutcome_def run1 split: option.split)
  have "extends run run2" unfolding extends_def
    using att r by (auto simp: run2_def run1 recordMoves_def)
  then have "extends run (snd (storeOutcome faults r out run1))"
    unfolding storeOutcome_def Let_def transition_defs run2_def by (simp add: extends_transition)
  then show ?thesis using assms(1) by (metis snd_conv)
qed

lemma commit_extends:
  assumes ok: "coreOk base run" and commit: "commitEffectRun faults input i observed run = Inr (res, run')"
  shows "extends run run'"
  using ok commit
proof (cases rule: commitEffectRun_cases)
  case (fresh r claim x usage b)
  note r = durableRecord_get [OF fresh(1)]
  have "cmdOperation (intCommand (recIntent r)) = cmdOperation (intCommand i)"
    using coreOk_maps(7) [OF ok r] by (simp add: recordOk_def Let_def)
  then show ?thesis
    by (intro storeOutcome_extends [OF fresh(8)]) (use fresh(2,3) r in \<open>simp_all add: buildOutcome_def Let_def\<close>)
qed simp

lemma persist_extends:
  assumes "persistIntentRun faults input cmd run = Inr (res, run')"
  shows "extends run run'"
  using assms
proof (cases rule: persistIntentRun_cases)
  case (escalated q b)
  then show ?thesis by (auto simp: escalate_def Let_def transition_defs intro!: extends_transition extends_frame)
next
  case (stored q b reserved)
  then show ?thesis by (intro storeIntent_extends [OF stored(9)])
qed simp_all

lemma ensure_extends:
  assumes ok: "coreOk base run" and step: "ensureTaskScopesAndBudgetsRun run lease now scopes budgets = Inr run'"
  shows "extends run run'"
  using step
proof (cases rule: ensure_cases)
  case (1 admitted limits)
  have "mapGet (rsScopes run') k = Some s" if "mapGet (rsScopes run) k = Some s" for k s
    using conjunct2 [OF admit_scopes [OF 1(1) [unfolded mapValid_def] coreOk_maps(1) [OF ok]]] that
    by (auto simp: 1(5))
  then show ?thesis by (auto simp: extends_def 1(5) attemptOutcome_def)
qed

lemma other_extends:
  "enqueueRun c run = Inr run' \<Longrightarrow> extends run run'"
  "setLeaseRun l run = Inr run' \<Longrightarrow> extends run run'"
  "updateContextRun digest lease now run = Inr run' \<Longrightarrow> extends run run'"
  "requestCancellationRun oper at lease now run = Inr run' \<Longrightarrow> extends run run'"
  "claimEffectAttemptRun run input i scope = Inr (res, run') \<Longrightarrow> extends run run'"
proof -
  show "enqueueRun c run = Inr run' \<Longrightarrow> extends run run'"
    by (auto simp: enqueueRun_def bindE_eq_Inr split: if_split_asm intro!: extends_transition extends_frame)
  show "setLeaseRun l run = Inr run' \<Longrightarrow> extends run run'"
    by (auto simp: setLeaseRun_def split: if_split_asm intro!: extends_frame)
  show "updateContextRun digest lease now run = Inr run' \<Longrightarrow> extends run run'"
    by (auto simp: updateContextRun_def bindE_eq_Inr Let_def transition_defs split: if_split_asm
        intro!: extends_transition extends_frame)
  show "requestCancellationRun oper at lease now run = Inr run' \<Longrightarrow> extends run run'"
    by (auto simp: requestCancellationRun_def bindE_eq_Inr Let_def transition_defs recordMoves_def
        split: if_split_asm option.split_asm intro!: extends_transition extends_effects)
  show "claimEffectAttemptRun run input i scope = Inr (res, run') \<Longrightarrow> extends run run'"
    by (erule claimEffectAttemptRun_cases) (auto intro: extends_frame)
qed

lemma runnerStep_extends: "runnerStep run run' \<Longrightarrow> coreOk base run \<Longrightarrow> extends run run'"
  by (induction rule: runnerStep.induct)
    (blast intro: install_extends commit_extends persist_extends ensure_extends other_extends)+

lemma runnerSteps_ok: "runnerSteps run run' \<Longrightarrow> coreOk base run \<Longrightarrow> coreOk base run'"
  by (erule runnerSteps_preserve) (auto intro: runnerStep_ok)

lemma runnerSteps_log: "runnerSteps run run' \<Longrightarrow> coreOk base run \<Longrightarrow> logOk run \<Longrightarrow> logOk run'"
proof (induction rule: runnerSteps.induct)
  case (stepsMore run run' run'')
  then show ?case using runnerSteps_ok runnerStep_log by blast
qed

lemma runnerSteps_extends: "runnerSteps run run' \<Longrightarrow> coreOk base run \<Longrightarrow> extends run run'"
proof (induction rule: runnerSteps.induct)
  case (stepsMore run run' run'')
  then show ?case using runnerSteps_ok runnerStep_extends extends_trans by blast
qed simp

section \<open>The configured run\<close>

definition initialOccupied :: "runState \<Rightarrow> jstr \<Rightarrow> int" where
  "initialOccupied run c = (case mapGet (rsCapacities run) c of None \<Rightarrow> 0 | Some s \<Rightarrow> capOccupied s)"

lemma configured_ok:
  assumes "configured run"
  shows "coreOk (initialOccupied run) run" and "logOk run"
proof -
  obtain input scopes budgets capacities where
    s: "configureScopes input = Inr scopes" and b: "configureBudgets input = Inr budgets" and
    c: "configureCapacities input = Inr capacities" and run: "run = newRun input scopes budgets capacities"
    using assms by (auto simp: configured_def configureRun_def bindE_eq_Inr split: if_split_asm)
  note s = s [unfolded configureScopes_def] and b = b [unfolded configureBudgets_def]
    and c = c [unfolded configureCapacities_def] and run = run [unfolded newRun_def]
  have sc: "mapValid scopes \<and> (\<forall>k s. mapGet scopes k = Some s \<longrightarrow> k = taskScopeKey s)"
    by (rule foldE_keyed [OF s]) (auto split: if_split_asm)
  have bu: "mapValid budgets \<and> (\<forall>u b. mapGet budgets u = Some b \<longrightarrow> budUnit b = u \<and> budReserved b = 0 \<and>
      budSpent b = 0 \<and> budUnreported b = 0 \<and> 0 \<le> budLimit b)"
  proof (rule foldE_keyed [OF b])
    fix m x m' assume "(case x of (u, l) \<Rightarrow> if \<not> validUnit u \<or> \<not> validAmount l then Inl TypeError
      else if mapHas m u then Inl TypeError else Inr (mapSet u (newBudget u l) m)) = Inr m'"
    then show "\<exists>u b. m' = mapSet u b m \<and> budUnit b = u \<and> budReserved b = 0 \<and>
        budSpent b = 0 \<and> budUnreported b = 0 \<and> 0 \<le> budLimit b"
      by (intro exI [of _ "fst x"] exI [of _ "newBudget (fst x) (snd x)"])
        (auto simp: newBudget_def validAmount_def split: if_split_asm prod.split_asm)
  qed simp_all
  have ca: "mapValid capacities \<and> (\<forall>k s. mapGet capacities k = Some s \<longrightarrow> capStateResource s = k \<and>
      0 \<le> capOccupied s \<and> capOccupied s \<le> capLimit s)"
  proof (rule foldE_keyed [OF c])
    fix m m' :: "(jstr, capacityState) jsmap" and x
    assume "(if \<not> validCapacityState x then Inl TypeError
      else if mapHas m (capStateResource x) then Inl TypeError
      else Inr (mapSet (capStateResource x) x m)) = Inr m'"
    then show "\<exists>k s. m' = mapSet k s m \<and> capStateResource s = k \<and> 0 \<le> capOccupied s \<and> capOccupied s \<le> capLimit s"
      by (intro exI [of _ "capStateResource x"] exI [of _ x])
        (auto simp: validCapacityState_def validAmount_def split: if_split_asm)
  qed simp_all
  have none: "heldUnits run u = 0" "occupied run k = 0" "attemptOutcome run k a = None" for u k a
    by (simp_all add: heldUnits_def occupied_def attemptOutcome_def run jsmap.total_def)
  show "coreOk (initialOccupied run) run"
    using sc bu ca
    by (auto simp: coreOk_def tablesOk_def accountsOk_def claimsOk_def budgetOk_def capacityOk_def none)
      (auto simp: run initialOccupied_def)
  show "logOk run" by (simp add: logOk_def run projectRun_def mapValues_def)
qed

end
