(* ===== verification/ProtocolLimits.thy ===== *)
theory ProtocolLimits
  imports ProtocolJson
begin

text \<open>
  When \<open>canonicalStringify\<close> succeeds. \<open>snapshotWire\<close> walks a value exactly when it stays within the
  depth and node limits and its strings and numbers are well formed (\<open>snapshotWire_eq\<close>), and the
  text of a value within \<open>textBound\<close> is within the byte limit.
\<close>

fun wireNodes :: "val \<Rightarrow> nat" where
  "wireNodes (Arr xs) = Suc (sum_list (map wireNodes xs))"
| "wireNodes (Obj kvs) = Suc (sum_list (map (\<lambda>kv. wireNodes (snd kv)) kvs))"
| "wireNodes _ = 1"

fun wireOk :: "nat \<Rightarrow> val \<Rightarrow> bool" where
  "wireOk d Null = True"
| "wireOk d (Bool b) = True"
| "wireOk d (Num n) = wf_num n"
| "wireOk d (Str s) = boundedString 0 (maxStringLength PROTOCOL_LIMITS) s"
| "wireOk d (Arr xs) = (int d < maxJsonDepth PROTOCOL_LIMITS \<and> (\<forall>x\<in>set xs. wireOk (Suc d) x))"
| "wireOk d (Obj kvs) = (int d < maxJsonDepth PROTOCOL_LIMITS \<and> (\<forall>kv\<in>set kvs. wireOk (Suc d) (snd kv)))"
| "wireOk d Undef = False"
| "wireOk d Exotic = False"

lemma wireNodes_pos: "0 < wireNodes v"
  by (cases v) auto

lemma mapAccumE_count:
  assumes "\<And>x n. x \<in> set xs \<Longrightarrow> f n x = (if ok x \<and> int (n + w x) \<le> lim then Inr (x, n + w x) else Inl e)"
  shows "mapAccumE f n xs = (if (\<forall>x\<in>set xs. ok x) \<and> (xs = [] \<or> int (n + sum_list (map w xs)) \<le> lim)
    then Inr (xs, n + sum_list (map w xs)) else Inl e)"
  using assms
proof (induction xs arbitrary: n)
  case (Cons x xs)
  have tail: "mapAccumE f m xs = (if (\<forall>x\<in>set xs. ok x) \<and> (xs = [] \<or> int (m + sum_list (map w xs)) \<le> lim)
    then Inr (xs, m + sum_list (map w xs)) else Inl e)" for m
    by (rule Cons.IH) (simp add: Cons.prems)
  have head: "f n x = (if ok x \<and> int (n + w x) \<le> lim then Inr (x, n + w x) else Inl e)"
    by (simp add: Cons.prems)
  show ?case by (auto simp: head tail)
qed simp

text \<open>The snapshot is the value itself, or the one error.\<close>

lemma snapshotWire_eq:
  "snapshotWire d n v = (if wireOk d v \<and> int (n + wireNodes v) \<le> maxJsonNodes PROTOCOL_LIMITS
     then Inr (v, n + wireNodes v) else Inl ProtocolError)"
proof (induction v arbitrary: d n)
  case (Arr xs)
  have step: "mapAccumE (\<lambda>n x. snapshotWire (Suc d) n x) (Suc n) xs =
     (if (\<forall>x\<in>set xs. wireOk (Suc d) x) \<and> (xs = [] \<or> int (Suc n + sum_list (map wireNodes xs)) \<le> maxJsonNodes PROTOCOL_LIMITS)
      then Inr (xs, Suc n + sum_list (map wireNodes xs)) else Inl ProtocolError)"
    by (rule mapAccumE_count) (rule Arr)
  show ?case by (subst snapshotWire.simps) (auto simp: step Let_def)
next
  case (Obj kvs)
  have step: "mapAccumE (\<lambda>n kv. bindE (snapshotWire (Suc d) n (snd kv)) (\<lambda>(y, n'). Inr ((fst kv, y), n'))) (Suc n) kvs =
     (if (\<forall>kv\<in>set kvs. wireOk (Suc d) (snd kv)) \<and>
         (kvs = [] \<or> int (Suc n + sum_list (map (\<lambda>kv. wireNodes (snd kv)) kvs)) \<le> maxJsonNodes PROTOCOL_LIMITS)
      then Inr (kvs, Suc n + sum_list (map (\<lambda>kv. wireNodes (snd kv)) kvs)) else Inl ProtocolError)"
  proof (rule mapAccumE_count)
    fix kv m assume "kv \<in> set kvs"
    moreover have "snd kv \<in> Basic_BNFs.snds kv" by (simp add: prod_set_defs)
    ultimately show "bindE (snapshotWire (Suc d) m (snd kv)) (\<lambda>(y, n'). Inr ((fst kv, y), n')) =
      (if wireOk (Suc d) (snd kv) \<and> int (m + wireNodes (snd kv)) \<le> maxJsonNodes PROTOCOL_LIMITS
       then Inr (kv, m + wireNodes (snd kv)) else Inl ProtocolError)"
      by (simp add: Obj)
  qed
  show ?case by (subst snapshotWire.simps) (auto simp: step Let_def)
qed (subst snapshotWire.simps, auto simp: Let_def)+

section \<open>The length of the text\<close>

fun textBound :: "val \<Rightarrow> nat" where
  "textBound (Str s) = 6 * length s + 2"
| "textBound (Num n) = length (numberStr n)"
| "textBound (Arr xs) = 2 + sum_list (map (\<lambda>x. Suc (textBound x)) xs)"
| "textBound (Obj kvs) = 2 + sum_list (map (\<lambda>kv. 6 * length (fst kv) + 4 + textBound (snd kv)) kvs)"
| "textBound _ = 9"

lemma quoteUnit_length: "length (quoteUnit c) \<le> 6"
  by (simp add: quoteUnit_def unicodeEscape_def lit_def)

lemma quoteUnits_length: "length (quoteUnits s) \<le> 6 * length s"
proof (induction s rule: quoteUnits.induct)
  case (2 c)
  then show ?case using quoteUnit_length by simp
next
  case (3 c d cs)
  then show ?case using quoteUnit_length [of c] by auto
qed simp

lemma joinWith_length: "length (joinWith sep xs) \<le> sum_list (map (\<lambda>x. length x + length sep) xs)"
  by (induction sep xs rule: joinWith.induct) auto

lemma sum_list_sort: "sum_list (map (f :: _ \<Rightarrow> nat) (sort xs)) = sum_list (map f xs)"
  by (metis mset_map mset_sort sum_mset_sum_list)

lemma serialize_length: "is_json v \<Longrightarrow> length (serialize v) \<le> textBound v"
proof (induction v)
  case (Str s)
  then show ?case using quoteUnits_length [of s] by (simp add: quoteStr_def)
next
  case (Arr xs)
  have "sum_list (map (\<lambda>x. length x + 1) (map serialize xs)) \<le> sum_list (map (\<lambda>x. Suc (textBound x)) xs)"
    unfolding map_map by (rule sum_list_mono) (use Arr in \<open>auto simp: list_all_iff\<close>)
  then show ?case using joinWith_length [of "lit '',''" "map serialize xs"] by (simp add: lit_def comp_def)
next
  case (Obj kvs)
  let ?texts = "map (\<lambda>kv. (fst kv, serialize (snd kv))) kvs"
  let ?entry = "\<lambda>key. quoteStr key @ lit '':'' @ the (map_of ?texts key)"
  let ?bound = "\<lambda>kv. 6 * length (fst kv) + 4 + textBound (snd kv)"
  have keys: "distinct (map fst kvs)" using Obj.prems by simp
  have entry: "length (?entry (fst kv)) + 1 \<le> ?bound kv" if kv: "kv \<in> set kvs" for kv
  proof -
    have "map_of ?texts (fst kv) = Some (serialize (snd kv))"
      using kv keys by (intro map_of_is_SomeI) (auto simp: comp_def)
    moreover have "length (serialize (snd kv)) \<le> textBound (snd kv)"
      using Obj kv by (cases kv) (auto simp: list_all_iff)
    ultimately show ?thesis using quoteUnits_length [of "fst kv"] by (simp add: quoteStr_def lit_def)
  qed
  have "sum_list (map (\<lambda>x. length x + 1) (map ?entry (sort (map fst kvs)))) =
      sum_list (map (\<lambda>kv. length (?entry (fst kv)) + 1) kvs)"
    unfolding map_map comp_def sum_list_sort by (simp add: comp_def)
  also have "\<dots> \<le> sum_list (map ?bound kvs)" by (rule sum_list_mono) (rule entry)
  finally show ?case
    using joinWith_length [of "lit '',''" "map ?entry (sort (map fst kvs))"]
    by (simp add: lit_def Let_def)
qed (simp_all add: lit_def)

lemma encodeCodePoint_length: "cp \<le> 0xffff \<Longrightarrow> length (encodeCodePoint cp) \<le> 3"
  by (simp add: encodeCodePoint_def)

lemma unat_unit: "unat (c :: 16 word) \<le> 0xffff"
  using unsigned_less [of c, where 'a = nat] by simp

lemma encodeUtf8_length: "length (encodeUtf8 s) \<le> 3 * length s"
proof -
  have "sum_list (map (length \<circ> encodeCodePoint) (codePoints s)) \<le> 3 * length s"
  proof (induction s rule: codePoints.induct)
    case (2 c)
    have "unat c \<le> 0xffff" using unat_unit [of c] by simp
    then show ?case using encodeCodePoint_length by simp
  next
    case (3 c d cs)
    have "unat c \<le> 0xffff" using unat_unit [of c] by simp
    then show ?case using 3 encodeCodePoint_length [of "unat c"]
      by (auto simp: encodeCodePoint_def [of "_ + _"] encodeCodePoint_def)
  qed simp
  then show ?thesis by (simp add: encodeUtf8_def length_concat)
qed

lemma canonicalStringify_fits:
  assumes "is_json v" "wireOk 0 v" "int (wireNodes v) \<le> maxJsonNodes PROTOCOL_LIMITS"
    and "int (3 * textBound v) \<le> maxWireBytes PROTOCOL_LIMITS"
  shows "canonicalStringify v = Inr (serialize v)"
proof -
  have "length (encodeUtf8 (serialize v)) \<le> 3 * textBound v"
    using encodeUtf8_length [of "serialize v"] serialize_length [OF assms(1)] by linarith
  then show ?thesis using assms by (simp add: canonicalStringify_def snapshotWire_eq Let_def)
qed

lemma below_surrogates: "c < 0xD800 \<Longrightarrow> \<not> isHigh c \<and> \<not> isLow c"
  by (auto simp: isHigh_def isLow_def word_less_nat_alt word_le_nat_alt)

lemma wellFormed_below: "list_all (\<lambda>c. c < 0xD800) s \<Longrightarrow> hasWellFormedUtf16 s"
  by (induction s rule: hasWellFormedUtf16.induct) (simp_all add: below_surrogates)

text \<open>
  \<open>canonicalStringify\<close> has exact limits: it returns the canonical text precisely for the values whose
  nesting stays below depth 32, that have at most 10000 nodes, whose strings are well formed UTF-16
  of at most 65536 units, and whose text takes at most 262144 bytes; for all others it throws.
\<close>

theorem canonicalStringify_exact:
  "canonicalStringify v =
     (if wireOk 0 v \<and> int (wireNodes v) \<le> maxJsonNodes PROTOCOL_LIMITS \<and>
         int (length (encodeUtf8 (serialize v))) \<le> maxWireBytes PROTOCOL_LIMITS
      then Inr (serialize v) else Inl ProtocolError)"
  by (simp add: canonicalStringify_def snapshotWire_eq Let_def)

end
