(* ===== verification/RunnerDemo.thy ===== *)
theory RunnerDemo
  imports RunnerHistory ProtocolLimits
begin

text \<open>
  A concrete history of one run, step by step: a writer command is queued, its intent persisted, the
  dispatch claimed and its outcome committed; on a second branch its task scope is fenced after the
  claim. The witnesses of the runner's properties evaluate on these states.
\<close>

definition demoDigest :: jstr where
  "demoDigest = replicate 64 0x61"

definition demoTime :: jstr where
  "demoTime = lit ''2026-01-01T00:00:00Z''"

definition demoLease :: runnerLease where
  "demoLease = \<lparr>leaseOwner = lit ''owner'', leaseFence = 1, leaseExpires = lit ''2026-01-02T00:00:00Z''\<rparr>"

definition demoScope :: taskScopeFence where
  "demoScope = \<lparr>scopeRun = lit ''run'', scopeTask = lit ''task'', scopeGeneration = 1,
     scopeContext = demoDigest, scopeFence = 1\<rparr>"

definition demoCurrentness :: taskScopeCurrentness where
  "demoCurrentness = \<lparr>scopeRun = lit ''run'', scopeTask = lit ''task'', scopeGeneration = 1,
     scopeContext = demoDigest, scopeFence = 1, claimsAccepted = True\<rparr>"

definition demoCommand :: queuedCommand where
  "demoCommand = \<lparr>cmdSequence = 1, cmdId = lit ''cmd'', cmdRepository = lit ''repo'', cmdRun = lit ''run'',
     cmdOperation = lit ''op'', cmdKind = Worker, cmdScope = demoScope, cmdContext = demoDigest,
     cmdInputDigest = demoDigest, cmdInput = Null, cmdBudget = \<lparr>resUnit = lit ''tokens'', resAmount = 6\<rparr>,
     cmdCapacity = Some \<lparr>capResource = lit ''writer'', capAmount = 1\<rparr>, cmdQueuedAt = demoTime,
     cmdDeadline = None, cmdMaxReconciliation = 3\<rparr>"

definition demoConfigure :: configureInput where
  "demoConfigure = \<lparr>cfgRepository = lit ''repo'', cfgRun = lit ''run'', cfgContext = demoDigest,
     cfgScopes = [demoCurrentness], cfgBudgets = [(lit ''tokens'', 10)], cfgCapacities = None,
     cfgLease = demoLease\<rparr>"

definition demoInput :: runOnceInput where
  "demoInput = \<lparr>inRepository = lit ''repo'', inRun = lit ''run'', inLease = demoLease,
     inTime = demoTime, inAttempt = lit ''attempt''\<rparr>"

definition demoConfigured :: runState where
  "demoConfigured = newRun demoConfigure [(taskScopeKey demoCurrentness, demoCurrentness)]
     [(lit ''tokens'', newBudget (lit ''tokens'') 10)]
     [(lit ''writer'', \<lparr>capStateResource = lit ''writer'', capLimit = 1, capOccupied = 0\<rparr>)]"

definition demoIntent :: effectIntent where
  "demoIntent = \<lparr>intCommand = demoCommand, intOwner = lit ''owner'', intFence = 1,
     intAttempt = lit ''attempt'', intPersistedAt = demoTime\<rparr>"

definition demoObservation :: observation where
  "demoObservation = \<lparr>obsStatus = Completed, obsAt = demoTime, obsDetails = None, obsOutput = None,
     obsUsage = Some \<lparr>resUnit = lit ''tokens'', resAmount = 4\<rparr>\<rparr>"

definition demoFence :: fenceInstallation where
  "demoFence = \<lparr>instScope = \<lparr>scopeRun = lit ''run'', scopeTask = lit ''task'', scopeGeneration = 1\<rparr>,
     expectedFence = 1, expectedContext = demoDigest\<rparr>"

section \<open>Texts within the limits\<close>

lemma demoDigest_facts [simp]: "length demoDigest = 64" "hasWellFormedUtf16 demoDigest" "sha256Pattern demoDigest"
proof -
  show "hasWellFormedUtf16 demoDigest"
    by (rule wellFormed_below) (simp add: demoDigest_def list_all_iff)
  show "sha256Pattern demoDigest" by code_simp
qed (simp add: demoDigest_def)

lemma demo_texts:
  "hasWellFormedUtf16 (lit ''run'')" "hasWellFormedUtf16 (lit ''task'')" "hasWellFormedUtf16 (lit ''cmd'')"
  "hasWellFormedUtf16 (lit ''repo'')" "hasWellFormedUtf16 (lit ''op'')" "hasWellFormedUtf16 (lit ''tokens'')"
  "hasWellFormedUtf16 (lit ''writer'')" "hasWellFormedUtf16 (lit ''worker'')" "hasWellFormedUtf16 (lit ''owner'')"
  "hasWellFormedUtf16 (lit ''attempt'')" "hasWellFormedUtf16 (lit ''intent'')" "hasWellFormedUtf16 (lit ''completed'')"
  "hasWellFormedUtf16 demoTime"
  by code_simp+

lemma demo_numbers: "length (numberStr (Whole 1)) = 1" "length (numberStr (Whole 3)) = 1"
  "length (numberStr (Whole 4)) = 1" "length (numberStr (Whole 6)) = 1"
  by code_simp+

lemma demoTime_length: "length demoTime = 20"
  by (simp add: demoTime_def)

lemmas demo_wire = demo_texts demo_numbers demoTime_length PROTOCOL_LIMITS_def boundedString_def
  wf_num_def isSafe_def optionalField_def encScope_def encReservation_def encCapacityReservation_def

lemma demo_command_text: "canonicalStringify (encCommand demoCommand) = Inr (serialize (encCommand demoCommand))"
  by (rule canonicalStringify_fits)
    (simp_all add: encCommand_def demoCommand_def demoScope_def demo_wire maxSafe_def)

lemma demo_intent_text: "canonicalStringify (encIntent demoIntent) = Inr (serialize (encIntent demoIntent))"
  by (rule canonicalStringify_fits)
    (simp_all add: encIntent_def demoIntent_def encCommand_def demoCommand_def demoScope_def demo_wire maxSafe_def)

lemma demo_observation_text:
  "canonicalStringify (encObservation demoObservation) = Inr (serialize (encObservation demoObservation))"
  by (rule canonicalStringify_fits)
    (simp_all add: encObservation_def demoObservation_def demo_wire maxSafe_def)

lemma sameText_refl: "canonicalStringify v = Inr t \<Longrightarrow> sameText v v = Inr True"
  by (simp add: sameText_def)

lemmas demo_same = demo_command_text [THEN sameText_refl] demo_intent_text [THEN sameText_refl]

section \<open>The steps\<close>

definition stateAfter :: "exn + 'a \<times> runState \<Rightarrow> runState" where
  "stateAfter m = (case m of Inl e \<Rightarrow> demoConfigured | Inr (x, run) \<Rightarrow> run)"

definition demoQueued :: runState where
  "demoQueued = stateAfter (quiet (enqueueRun demoCommand demoConfigured))"

definition demoIntended :: runState where
  "demoIntended = stateAfter (persistIntentRun {} demoInput demoCommand demoQueued)"

definition demoClaimed :: runState where
  "demoClaimed = stateAfter (claimEffectAttemptRun demoIntended demoInput demoIntent demoScope)"

definition demoCommitted :: runState where
  "demoCommitted = stateAfter (commitEffectRun {} demoInput demoIntent demoObservation demoClaimed)"

definition demoFenced :: runState where
  "demoFenced = stateAfter (installTaskScopeFencesRun demoClaimed (lit ''run'') demoTime [demoFence])"

lemma demo_configured: "configured demoConfigured"
proof -
  have scopes: "configureScopes demoConfigure = Inr [(taskScopeKey demoCurrentness, demoCurrentness)]"
    by (simp add: configureScopes_def demoConfigure_def demoCurrentness_def validScopeFence_def
        validIdentity_def validPositive_def isSafe_def maxSafe_def mapHas_def lit_def)
  have budgets: "configureBudgets demoConfigure = Inr [(lit ''tokens'', newBudget (lit ''tokens'') 10)]"
  proof -
    have "validUnit (lit ''tokens'')" by code_simp
    then show ?thesis by (simp add: configureBudgets_def demoConfigure_def validAmount_def isSafe_def maxSafe_def mapHas_def)
  qed
  have capacities: "configureCapacities demoConfigure =
      Inr [(lit ''writer'', \<lparr>capStateResource = lit ''writer'', capLimit = 1, capOccupied = 0\<rparr>)]"
    by (simp add: configureCapacities_def demoConfigure_def validCapacityState_def validPositive_def
        validAmount_def isSafe_def maxSafe_def mapHas_def)
  have lease: "validLease demoLease" by code_simp
  have "configureRun [] demoConfigure = Inr [(runKey (lit ''repo'') (lit ''run''), demoConfigured)]"
    using lease by (simp add: configureRun_def scopes budgets capacities demoConfigured_def)
      (simp add: demoConfigure_def validIdentity_def mapHas_def lit_def)
  then show ?thesis unfolding configured_def
    by (intro exI [of _ "[]"] exI [of _ demoConfigure]
        exI [of _ "[(runKey (lit ''repo'') (lit ''run''), demoConfigured)]"] conjI)
      (assumption, simp add: demoConfigure_def mapGet_def)
qed

lemma demo_validates: "validateCommand demoCommand = Inr ()"
proof -
  have "validCommandHead demoCommand" "validCommandTail demoCommand" "canonicalStringify Null = Inr (serialize Null)"
    by code_simp+
  then show ?thesis by (simp add: validateCommand_def demoCommand_def [THEN arg_cong [where f = cmdInput]])
qed

definition outcomeOf :: "exn + 'a \<times> runState \<Rightarrow> 'a option" where
  "outcomeOf m = (case m of Inl e \<Rightarrow> None | Inr (x, run) \<Rightarrow> Some x)"

lemma stepped: "m = Inr (x, run) \<Longrightarrow> m = Inr (x, stateAfter m)"
  by (simp add: stateAfter_def)

lemmas demo_fields = demoCommand_def demoConfigure_def demoLease_def demoInput_def demoIntent_def
  demoScope_def demoCurrentness_def

lemma demo_stored: "demoCommand\<lparr>cmdInput := norm (cmdInput demoCommand)\<rparr> = demoCommand"
  by (simp add: demoCommand_def)

lemma demo_enqueue: "enqueueRun demoCommand demoConfigured = Inr demoQueued"
proof -
  have "\<exists>run. quiet (enqueueRun demoCommand demoConfigured) = Inr ((), run)"
    by (simp add: enqueueRun_def snapshotCommand_def demo_command_text demo_stored quiet_def
        demoConfigured_def newRun_def mapValues_def mapHas_def)
  then obtain run where "quiet (enqueueRun demoCommand demoConfigured) = Inr ((), run)" by blast
  then show ?thesis by (auto simp: demoQueued_def stateAfter_def quiet_def bindE_eq_Inr)
qed

lemma demoQueued_fields [simp]:
  "rsQueue demoQueued = [demoCommand]" "rsEffects demoQueued = []" "rsAttempts demoQueued = []"
  "rsClaims demoQueued = []" "rsLease demoQueued = demoLease" "rsRun demoQueued = lit ''run''"
  "rsScopes demoQueued = [(taskScopeKey demoCurrentness, demoCurrentness)]"
  "rsBudgets demoQueued = [(lit ''tokens'', newBudget (lit ''tokens'') 10)]"
  "rsCapacities demoQueued = [(lit ''writer'', \<lparr>capStateResource = lit ''writer'', capLimit = 1, capOccupied = 0\<rparr>)]"
  by (simp_all add: demoQueued_def stateAfter_def enqueueRun_def snapshotCommand_def demo_command_text
      demo_stored quiet_def demoConfigured_def newRun_def mapValues_def mapHas_def)
    (simp_all add: demoConfigure_def)

lemma demo_fence: "rsLease run = demoLease \<Longrightarrow> assertFence run demoLease demoTime = Inr ()"
proof -
  have "validTimestamp demoTime" "\<not> timeGe demoTime (leaseExpires demoLease)" by code_simp+
  then show "rsLease run = demoLease \<Longrightarrow> ?thesis" by (simp add: assertFence_def)
qed

lemma demo_input [simp]: "inLease demoInput = demoLease" "inTime demoInput = demoTime"
  "inAttempt demoInput = lit ''attempt''"
  by (simp_all add: demoInput_def)

lemma demo_command [simp]: "cmdId demoCommand = lit ''cmd''" "cmdOperation demoCommand = lit ''op''"
  "cmdScope demoCommand = demoScope" "cmdBudget demoCommand = \<lparr>resUnit = lit ''tokens'', resAmount = 6\<rparr>"
  "cmdCapacity demoCommand = Some \<lparr>capResource = lit ''writer'', capAmount = 1\<rparr>" "cmdDeadline demoCommand = None"
  "intCommand demoIntent = demoCommand" "intAttempt demoIntent = lit ''attempt''"
  "cmdMaxReconciliation demoCommand = 3"
  by (simp_all add: demoCommand_def demoIntent_def)

lemma demo_scope [simp]: "taskScopeKey demoScope = taskScopeKey demoCurrentness"
  "sameTaskScopeFence demoScope demoCurrentness" "claimsAccepted demoCurrentness" "sameTaskScope demoScope demoScope"
  by (simp_all add: taskScopeKey_def demo_fields sameTaskScopeFence_def sameTaskScope_def)

lemma demo_persist: "persistIntentRun {} demoInput demoCommand demoQueued = Inr (Inr (Persisted demoIntent), demoIntended)"
  unfolding demoIntended_def
  by (rule stepped) (simp add: persistIntentRun_def demo_fence demo_same scopeAccepts_def mapGet_def
      requestedCapacity_def available_def newBudget_def capacityAvailable_def storeIntent_def faulted_def
      Let_def, simp add: demoIntent_def demoLease_def)

lemma demoIntended_fields [simp]:
  "rsEffects demoIntended = [(lit ''op'', \<lparr>recIntent = demoIntent, recOutcome = None, recCancelAt = None\<rparr>)]"
  "rsAttempts demoIntended = []" "rsClaims demoIntended = []" "rsLease demoIntended = demoLease"
  "rsScopes demoIntended = [(taskScopeKey demoCurrentness, demoCurrentness)]" "rsRun demoIntended = lit ''run''"
  "rsBudgets demoIntended = [(lit ''tokens'', \<lparr>budUnit = lit ''tokens'', budLimit = 10, budReserved = 6,
     budSpent = 0, budUnreported = 0\<rparr>)]"
  "rsCapacities demoIntended = [(lit ''writer'', \<lparr>capStateResource = lit ''writer'', capLimit = 1, capOccupied = 1\<rparr>)]"
  by (simp_all add: demoIntended_def stateAfter_def persistIntentRun_def demo_fence demo_same scopeAccepts_def
      mapGet_def requestedCapacity_def available_def newBudget_def capacityAvailable_def storeIntent_def
      faulted_def Let_def transition_defs)
    (simp_all add: demo_fields)

lemma demo_durable:
  "rsEffects run = [(lit ''op'', r)] \<Longrightarrow> recIntent r = demoIntent \<Longrightarrow> durableRecord run demoIntent = Inr r"
  by (simp add: durableRecord_def mapGet_def demo_same)

lemma demo_claim: "claimEffectAttemptRun demoIntended demoInput demoIntent demoScope = Inr
    (Claimed Dispatch \<lparr>recIntent = demoIntent, recOutcome = None, recCancelAt = None\<rparr>, demoClaimed)"
  unfolding demoClaimed_def
  by (rule stepped) (simp add: claimEffectAttemptRun_def demo_fence demo_durable attemptOutcome_def
      isTerminalRecord_def mapGet_def selectEffectAttemptAction_def cancellationRequired_def isAtOrAfter_def)

lemma demoClaimed_fields [simp]:
  "rsEffects demoClaimed = [(lit ''op'', \<lparr>recIntent = demoIntent, recOutcome = None, recCancelAt = None\<rparr>)]"
  "rsAttempts demoClaimed = []" "rsLease demoClaimed = demoLease" "rsRun demoClaimed = lit ''run''"
  "rsClaims demoClaimed = [(lit ''op'', \<lparr>claimScope = demoScope, claimAttempt = lit ''attempt'',
     claimOwner = lit ''owner'', claimFence = 1, claimOrigin = Dispatch\<rparr>)]"
  "rsScopes demoClaimed = [(taskScopeKey demoCurrentness, demoCurrentness)]"
  "rsBudgets demoClaimed = [(lit ''tokens'', \<lparr>budUnit = lit ''tokens'', budLimit = 10, budReserved = 6,
     budSpent = 0, budUnreported = 0\<rparr>)]"
  "rsCapacities demoClaimed = [(lit ''writer'', \<lparr>capStateResource = lit ''writer'', capLimit = 1, capOccupied = 1\<rparr>)]"
  by (simp_all add: demoClaimed_def stateAfter_def claimEffectAttemptRun_def demo_fence demo_durable attemptOutcome_def
      isTerminalRecord_def mapGet_def selectEffectAttemptAction_def cancellationRequired_def isAtOrAfter_def)
    (simp_all add: demo_fields)

lemma demo_observed: "snapshotObservation demoObservation = Inr demoObservation"
proof -
  have "validTimestamp demoTime" "validUnit (lit ''tokens'')" by code_simp+
  then show ?thesis
    by (simp add: snapshotObservation_def demo_observation_text)
      (simp add: demoObservation_def validAmount_def isSafe_def maxSafe_def)
qed

lemma demo_status: "obsStatus demoObservation = Completed" "isTerminal Completed"
  by (simp_all add: demoObservation_def isTerminal_def)

lemma demo_usage: "finalizeUsage \<lparr>resUnit = lit ''tokens'', resAmount = 6\<rparr> demoObservation True =
    Inr \<lparr>usageUnit = lit ''tokens'', usageReserved = 6, usageReported = Some 4, usageUnreported = 0\<rparr>"
  by (simp add: finalizeUsage_def demoObservation_def)

lemma demo_commit: "\<exists>out. commitEffectRun {} demoInput demoIntent demoObservation demoClaimed =
    Inr (Inr out, demoCommitted) \<and> outStatus out = Completed"
  and demoCommitted_fields [simp]: "rsLease demoCommitted = demoLease"
    "rsBudgets demoCommitted = [(lit ''tokens'', \<lparr>budUnit = lit ''tokens'', budLimit = 10, budReserved = 0,
       budSpent = 4, budUnreported = 0\<rparr>)]" "rsClaims demoCommitted = []"
proof -
  have claim: "liveClaim demoClaimed demoInput demoIntent = Some \<lparr>claimScope = demoScope, claimAttempt = lit ''attempt'',
     claimOwner = lit ''owner'', claimFence = 1, claimOrigin = Dispatch\<rparr>"
    by (simp add: liveClaim_def mapGet_def) (simp add: demoLease_def)
  note steps = commitEffectRun_def demo_fence demo_durable attemptOutcome_def isTerminalRecord_def mapGet_def
    claim demo_observed demo_usage demo_status buildOutcome_def storeOutcome_def faulted_def Let_def
  show "\<exists>out. commitEffectRun {} demoInput demoIntent demoObservation demoClaimed =
      Inr (Inr out, demoCommitted) \<and> outStatus out = Completed"
    unfolding demoCommitted_def by (intro exI conjI, rule stepped, simp add: steps, simp)
  show "rsLease demoCommitted = demoLease"
    "rsBudgets demoCommitted = [(lit ''tokens'', \<lparr>budUnit = lit ''tokens'', budLimit = 10, budReserved = 0,
       budSpent = 4, budUnreported = 0\<rparr>)]" "rsClaims demoCommitted = []"
    by (simp_all add: demoCommitted_def stateAfter_def steps transition_defs settleBudget_def charged_def mapDelete_def)
qed

lemma demo_fenced: "installTaskScopeFencesRun demoClaimed (lit ''run'') demoTime [demoFence] =
    Inr ([demoCurrentness\<lparr>scopeFence := 2, claimsAccepted := False\<rparr>], demoFenced)"
proof -
  have key: "taskScopeKey (instScope demoFence) = taskScopeKey demoCurrentness"
    by (simp add: demoFence_def demoCurrentness_def taskScopeKey_def)
  have "checkInstallation demoClaimed (lit ''run'') [] demoFence =
      Inr (demoCurrentness, [taskScopeKey demoCurrentness])"
    by (simp add: checkInstallation_def key mapGet_def Let_def) (simp add: demoFence_def demoCurrentness_def)
  moreover have "validTimestamp demoTime" by code_simp
  ultimately show ?thesis unfolding demoFenced_def
    by (intro stepped) (simp add: installTaskScopeFencesRun_def Let_def, simp add: demoCurrentness_def)
qed

lemma demo_steps:
  "runnerSteps demoConfigured demoQueued" "runnerSteps demoConfigured demoIntended"
  "runnerSteps demoConfigured demoClaimed" "runnerSteps demoConfigured demoCommitted"
  "runnerSteps demoConfigured demoFenced"
proof -
  obtain out where commit: "commitEffectRun {} demoInput demoIntent demoObservation demoClaimed =
      Inr (Inr out, demoCommitted)"
    using demo_commit by blast
  note steps = stepEnqueue [OF demo_validates demo_enqueue] stepPersist [OF demo_persist]
    stepClaim [OF demo_claim] stepCommit [OF commit] stepFence [OF demo_fenced]
  show queued: "runnerSteps demoConfigured demoQueued" by (rule stepsMore [OF stepsNone steps(1)])
  show intended: "runnerSteps demoConfigured demoIntended" by (rule stepsMore [OF queued steps(2)])
  show claimed: "runnerSteps demoConfigured demoClaimed" by (rule stepsMore [OF intended steps(3)])
  show "runnerSteps demoConfigured demoCommitted" by (rule stepsMore [OF claimed steps(4)])
  show "runnerSteps demoConfigured demoFenced" by (rule stepsMore [OF claimed steps(5)])
qed

lemmas demo_core = runnerSteps_ok [OF _ configured_ok(1) [OF demo_configured]]

end
