(* ===== verification/RunnerProperties.thy ===== *)
theory RunnerProperties
  imports RunnerDemo
begin

text \<open>
  The promises of the in-memory runner authority: its accounts balance, its log has no gaps, outcomes
  are final, a lost reply can be retried, an effect has one claimant per lease, a fenced scope starts
  nothing new, and a stale lease changes nothing. The witnesses evaluate on the demo history.
\<close>

text \<open>
  C2. The accounts always balance: whatever sequence of operations the authority has served, also when
  they threw after changing the run, every budget's reserved amount is the sum over its non-terminal
  effects, spending never exceeds the limit even together with all reservations, unreported usage is
  part of what was spent, and a capacity's occupied amount is the configured one plus what its
  non-terminal effects hold, within its limit.
\<close>

theorem runner_accounts:
  assumes "configured run0" and "runnerSteps run0 run"
  shows "(\<forall>u b. mapGet (rsBudgets run) u = Some b \<longrightarrow>
      budReserved b = heldUnits run u \<and> 0 \<le> budReserved b \<and> 0 \<le> budUnreported b \<and>
      budUnreported b \<le> budSpent b \<and> budSpent b + budReserved b \<le> budLimit b) \<and>
    (\<forall>c s. mapGet (rsCapacities run) c = Some s \<longrightarrow>
      capOccupied s = initialOccupied run0 c + occupied run c \<and> 0 \<le> occupied run c \<and> capOccupied s \<le> capLimit s)"
proof -
  have ok: "coreOk (initialOccupied run0) run" by (rule runnerSteps_ok [OF assms(2) configured_ok(1) [OF assms(1)]])
  show ?thesis
  proof (intro conjI allI impI)
    fix u b assume "mapGet (rsBudgets run) u = Some b"
    then have b: "budgetOk run u b" by (rule coreOk_maps(8) [OF ok])
    then show "budReserved b = heldUnits run u" "0 \<le> budReserved b" "0 \<le> budUnreported b"
      "budUnreported b \<le> budSpent b" "budSpent b + budReserved b \<le> budLimit b"
      using heldUnits_nonneg [OF ok] by (simp_all add: budgetOk_def)
  next
    fix c s assume "mapGet (rsCapacities run) c = Some s"
    then have "capacityOk (initialOccupied run0) run c s" by (rule coreOk_maps(9) [OF ok])
    then show "capOccupied s = initialOccupied run0 c + occupied run c" "0 \<le> occupied run c"
      "capOccupied s \<le> capLimit s"
      using occupied_nonneg [OF ok] by (simp_all add: capacityOk_def)
  qed
qed

theorem runner_accounts_witness:
  "heldUnits demoIntended (lit ''tokens'') = 6 \<and> occupied demoIntended (lit ''writer'') = 1 \<and>
   heldUnits demoCommitted (lit ''tokens'') = 0"
proof -
  have "mapGet (rsBudgets demoIntended) (lit ''tokens'') \<noteq> None" "mapGet (rsBudgets demoCommitted) (lit ''tokens'') \<noteq> None"
    "mapGet (rsCapacities demoIntended) (lit ''writer'') \<noteq> None"
    by (simp_all add: mapGet_def)
  then show ?thesis
    using conjunct1 [OF runner_accounts [OF demo_configured demo_steps(2)], rule_format, of "lit ''tokens''"]
      conjunct1 [OF runner_accounts [OF demo_configured demo_steps(4)], rule_format, of "lit ''tokens''"]
      conjunct2 [OF runner_accounts [OF demo_configured demo_steps(2)], rule_format, of "lit ''writer''"]
    by (auto simp: mapGet_def initialOccupied_def demoConfigured_def newRun_def)
qed

text \<open>
  The log has no gaps and the projection is never behind: receipts and events carry the cursors
  \<open>1, 2, ...\<close> in order, the run's cursor is the number of receipts, and the stored projection is the
  one computed from the current state.
\<close>

theorem runner_log:
  assumes "configured run0" and "runnerSteps run0 run"
  shows "map rcCursor (rsReceipts run) = map int [1..<Suc (length (rsReceipts run))] \<and>
    map evCursor (rsEvents run) = map rcCursor (rsReceipts run) \<and>
    rsCursor run = int (length (rsReceipts run)) \<and> rsProjection run = projectRun run"
  using runnerSteps_log [OF assms(2) configured_ok [OF assms(1)]] by (simp add: logOk_def)

theorem runner_log_witness: "rsProjection demoCommitted = projectRun demoCommitted"
  using runner_log [OF demo_configured demo_steps(4)] by simp

text \<open>
  C16. History is final: however the run goes on, its log only grows at the end, the outcome recorded
  for an attempt stays, and an effect keeps its intent, its terminal outcome and its request to cancel.
\<close>

theorem runner_history_final:
  assumes "configured run0" and "runnerSteps run0 run" and "runnerSteps run run'"
  shows "(\<exists>es. rsEvents run' = rsEvents run @ es) \<and> (\<exists>rs. rsReceipts run' = rsReceipts run @ rs) \<and>
    (\<forall>k a out. attemptOutcome run k a = Some out \<longrightarrow> attemptOutcome run' k a = Some out) \<and>
    (\<forall>k r. mapGet (rsEffects run) k = Some r \<longrightarrow> (\<exists>r'. mapGet (rsEffects run') k = Some r' \<and>
       recIntent r' = recIntent r \<and> (isTerminalRecord r \<longrightarrow> recOutcome r' = recOutcome r) \<and>
       (recCancelAt r \<noteq> None \<longrightarrow> recCancelAt r' = recCancelAt r)))"
proof -
  have "coreOk (initialOccupied run0) run" by (rule runnerSteps_ok [OF assms(2) configured_ok(1) [OF assms(1)]])
  from runnerSteps_extends [OF assms(3) this] show ?thesis by (simp add: extends_def recordMoves_def)
qed

theorem runner_history_final_witness:
  "\<exists>r'. mapGet (rsEffects demoFenced) (lit ''op'') = Some r' \<and> recIntent r' = demoIntent"
proof -
  have "mapGet (rsEffects demoClaimed) (lit ''op'') = Some \<lparr>recIntent = demoIntent, recOutcome = None, recCancelAt = None\<rparr>"
    by (simp add: mapGet_def)
  then show ?thesis
    using runner_history_final [OF demo_configured demo_steps(3) stepsMore [OF stepsNone stepFence [OF demo_fenced]]]
    by fastforce
qed

section \<open>Lost replies\<close>

lemma storeOutcome_lease:
  "rsLease (snd (storeOutcome faults r out run)) = rsLease run"
  by (simp add: storeOutcome_def Let_def transition_defs)

lemma storeIntent_lease:
  "rsLease (snd (storeIntent faults input q b reserved run)) = rsLease run"
  by (simp add: storeIntent_def Let_def transition_defs)

lemma assertFence_cong: "rsLease run' = rsLease run \<Longrightarrow> assertFence run' l t = assertFence run l t"
  by (simp add: assertFence_def)

lemma durableRecord_moves:
  "durableRecord run i = Inr r \<Longrightarrow> mapGet (rsEffects run') (cmdOperation (intCommand i)) = Some r' \<Longrightarrow>
     recIntent r' = recIntent r \<Longrightarrow> durableRecord run' i = Inr r'"
  by (auto simp: durableRecord_def bindE_eq_Inr split: option.split_asm if_split_asm)

lemma commit_fence: "commitEffectRun faults input i observed run = Inr p \<Longrightarrow>
    assertFence run (inLease input) (inTime input) = Inr ()"
  by (auto simp: commitEffectRun_def bindE_eq_Inr)

text \<open>
  C35. A commit can be retried: once \<open>commitEffect\<close> has recorded an outcome, whether its reply arrived
  or was lost to a fault after the commit, repeating it for the same attempt under the same lease, with
  any observation, returns the recorded outcome and leaves the run as it is.
\<close>

theorem commit_retry:
  assumes "configured run0" and "runnerSteps run0 run"
    and commit: "commitEffectRun faults input i observed run = Inr (res, run')"
  shows "\<exists>out. res \<in> {Inr out, Inl RunnerFault} \<and>
    (\<forall>faults' observed'. commitEffectRun faults' input i observed' run' = Inr (Inr out, run'))"
proof -
  have ok: "coreOk (initialOccupied run0) run" by (rule runnerSteps_ok [OF assms(2) configured_ok(1) [OF assms(1)]])
  have ok': "coreOk (initialOccupied run0) run'" by (rule commitEffectRun_ok [OF ok commit])
  have fence: "assertFence run (inLease input) (inTime input) = Inr ()" by (rule commit_fence [OF commit])
  show ?thesis using ok commit
  proof (cases rule: commitEffectRun_cases)
    case (replay r out)
    then show ?thesis using fence by (auto simp: commitEffectRun_def)
  next
    case (fresh r claim x usage b)
    let ?out = "buildOutcome run input r claim x usage"
    have k: "cmdOperation (intCommand (recIntent r)) = cmdOperation (intCommand i)"
      using coreOk_maps(7) [OF ok durableRecord_get [OF fresh(1)]] by (simp add: recordOk_def Let_def)
    have lease: "rsLease run' = rsLease run"
      using arg_cong [OF fresh(8), where f = "\<lambda>p. rsLease (snd p)"]
      by (simp add: storeOutcome_lease split: if_split_asm)
    have out: "mapGet (rsEffects run') (cmdOperation (intCommand i)) = Some (r\<lparr>recOutcome := Some ?out\<rparr>)"
      "attemptOutcome run' (cmdOperation (intCommand i)) (inAttempt input) = Some ?out"
      "res = faulted faults AfterEffectCommit ?out"
      using fresh(8) k by (simp_all add: storeOutcome_def buildOutcome_def Let_def transition_defs attemptOutcome_def)
    have "durableRecord run' i = Inr (r\<lparr>recOutcome := Some ?out\<rparr>)"
      by (rule durableRecord_moves [OF fresh(1) out(1)]) simp
    then have "commitEffectRun faults' input i observed' run' = Inr (Inr ?out, run')" for faults' observed'
      using fence out(2) by (simp add: commitEffectRun_def assertFence_cong [OF lease])
    then show ?thesis using out(3) by (auto simp: faulted_def)
  qed
qed

theorem commit_retry_witness:
  "\<exists>out. \<forall>faults' observed'. commitEffectRun faults' demoInput demoIntent observed' demoCommitted =
     Inr (Inr out, demoCommitted)"
  using demo_commit commit_retry [OF demo_configured demo_steps(3)] by blast

text \<open>
  An intent can be retried: once \<open>persistIntent\<close> has stored one, also when its reply was lost to a
  fault, repeating the request under the same lease returns that intent and reserves nothing again.
\<close>

theorem persist_retry:
  assumes persist: "persistIntentRun faults input cmd run = Inr (res, run')"
    and stored: "res = Inr (Persisted j) \<or> res = Inl RunnerFault \<and> rsEscalations run' = rsEscalations run"
  shows "\<exists>i. res \<in> {Inr (Persisted i), Inl RunnerFault} \<and>
    (\<forall>faults'. persistIntentRun faults' input cmd run' = Inr (Inr (Persisted i), run'))"
proof -
  have fence: "assertFence run (inLease input) (inTime input) = Inr ()"
    using persist by (auto simp: persistIntentRun_def bindE_eq_Inr)
  show ?thesis using persist
  proof (cases rule: persistIntentRun_cases)
    case (existing q r)
    then show ?thesis using fence by (simp add: persistIntentRun_def)
  next
    case (full cr n)
    then show ?thesis using stored by simp
  next
    case (escalated q b)
    then have "rsEscalations run' \<noteq> rsEscalations run"
      by (auto simp: escalate_def Let_def transition_defs)
    moreover have "res \<noteq> Inr (Persisted j)" using escalated by (auto simp: escalate_def faulted_def Let_def split: if_split_asm)
    ultimately show ?thesis using stored by simp
  next
    case (stored q b reserved)
    have lease: "rsLease run' = rsLease run" using stored(9) storeIntent_lease by (metis snd_conv)
    have queue: "rsQueue run' = rsQueue run" using stored(9) by (simp add: storeIntent_def Let_def transition_defs)
    obtain j where j: "mapGet (rsEffects run') (cmdOperation q) =
        Some \<lparr>recIntent = j, recOutcome = None, recCancelAt = None\<rparr>" "res = faulted faults AfterIntentPersist (Persisted j)"
      using stored(9) by (simp add: storeIntent_def Let_def transition_defs)
    have "persistIntentRun faults' input cmd run' = Inr (Inr (Persisted j), run')" for faults'
      using fence stored(1,2) j(1) by (simp add: persistIntentRun_def assertFence_cong [OF lease] queue)
    then show ?thesis using j(2) by (auto simp: faulted_def)
  qed
qed

theorem persist_retry_witness:
  "\<exists>i. \<forall>faults'. persistIntentRun faults' demoInput demoCommand demoIntended = Inr (Inr (Persisted i), demoIntended)"
  using persist_retry [OF demo_persist] by blast

end
