(* ===== verification/RunnerFencing.thy ===== *)
theory RunnerFencing
  imports RunnerDemo
begin

text \<open>
  Exclusion in the runner authority: one claimant per effect and lease, fences that stop a task scope
  for good, and leases that stop a deposed owner. The last section shows that an effect whose owner
  disappeared can always be finished by the next one, unless its intent is too deep to be written down.
\<close>

section \<open>Claims\<close>

lemma selectEffectAttemptAction_dispatch:
  "selectEffectAttemptAction r t a = Dispatch \<longleftrightarrow>
     recOutcome r = None \<and> \<not> cancellationRequired r t \<and> intAttempt (recIntent r) = a"
  by (auto simp: selectEffectAttemptAction_def split: option.split)



section \<open>Fences\<close>

lemma fenced_stays:
  assumes "coreOk base run" "runnerSteps run run'" "mapGet (rsScopes run) k = Some s" "\<not> claimsAccepted s"
  shows "mapGet (rsScopes run') k = Some s"
  using extendsD(3) [OF runnerSteps_extends [OF assms(2,1)] assms(3)] assms(4) by (auto simp: scopeMoves_def)

lemma new_effect:
  assumes "runnerStep run run'" "coreOk base run" "mapGet (rsEffects run') k = Some r" "mapGet (rsEffects run) k = None"
  shows "scopeAccepts run (cmdScope (intCommand (recIntent r)))"
  using assms
proof (induction rule: runnerStep.induct)
  case (stepPersist faults input cmd run stored run')
  from stepPersist(1) show ?case
  proof (cases rule: persistIntentRun_cases)
    case (escalated q b)
    then show ?thesis using stepPersist(3,4) by (auto simp: escalate_def Let_def transition_defs)
  next
    case (stored q b reserved)
    then show ?thesis using stepPersist(3,4)
      by (auto simp: storeIntent_def Let_def transition_defs split: if_split_asm)
  qed (use stepPersist(3,4) in simp_all)
next
  case (stepCommit faults input i observed run committed run')
  from stepCommit(2,1) show ?case
  proof (cases rule: commitEffectRun_cases)
    case (fresh r' claim x usage b)
    have "cmdOperation (intCommand (recIntent r')) = cmdOperation (intCommand i)"
      using coreOk_maps(7) [OF stepCommit(2) durableRecord_get [OF fresh(1)]] by (simp add: recordOk_def Let_def)
    then show ?thesis using fresh(8) stepCommit(3,4) durableRecord_get [OF fresh(1)]
      by (auto simp: storeOutcome_def buildOutcome_def Let_def transition_defs split: if_split_asm)
  qed (use stepCommit(3,4) in simp_all)
next
  case (stepFence run runId at fences installed run')
  from stepFence(1,2) show ?case
  proof (cases rule: install_cases')
    case (1 current)
    have "mapGet (rsEffects (fold (fenceScope at) ss run)) k = None" if "mapGet (rsEffects run) k = None" for ss run
      using that by (induction ss arbitrary: run) (simp_all add: fenceScope_def Let_def)
    then show ?thesis using stepFence(3,4) 1(3) by simp
  qed
next
  case (stepClaim run input i scope claim run')
  from stepClaim(1) show ?case
    by (cases rule: claimEffectAttemptRun_cases) (use stepClaim(3,4) in simp_all)
next
  case (stepEnsure run lease now scopes budgets run')
  from stepEnsure(1) show ?case by (cases rule: ensure_cases) (use stepEnsure(3,4) in simp)
qed (auto simp: enqueueRun_def setLeaseRun_def updateContextRun_def requestCancellationRun_def bindE_eq_Inr Let_def
    transition_defs split: if_split_asm option.split_asm)

lemma fenced_effects:
  assumes "runnerSteps run run'" "coreOk base run" "mapGet (rsScopes run) key = Some s" "\<not> claimsAccepted s"
    "mapGet (rsEffects run') k = Some r" "taskScopeKey (cmdScope (intCommand (recIntent r))) = key"
  shows "mapGet (rsEffects run) k \<noteq> None"
  using assms
proof (induction arbitrary: r rule: runnerSteps.induct)
  case (stepsMore run run' run'')
  have ok': "coreOk base run'" by (rule runnerSteps_ok [OF stepsMore(1,4)])
  show ?case
  proof (cases "mapGet (rsEffects run') k")
    case None
    have "mapGet (rsScopes run') key = Some s" by (rule fenced_stays [OF stepsMore(4,1,5,6)])
    then have "\<not> scopeAccepts run' (cmdScope (intCommand (recIntent r)))"
      using stepsMore(6,8) by (simp add: scopeAccepts_def)
    then show ?thesis using new_effect [OF stepsMore(2) ok' stepsMore(7) None] by simp
  next
    case (Some r')
    then have "recIntent r = recIntent r'"
      using extendsD(2) [OF runnerStep_extends [OF stepsMore(2) ok']] stepsMore(7) by (force simp: recordMoves_def)
    then show ?thesis using stepsMore Some by metis
  qed
qed simp

text \<open>
  Every stored effect belongs to the scope stored under its key: \<open>taskScopeKey\<close> alone does not say so,
  but an intent is only stored for a scope that is the same, and no step changes whose scope it is.
\<close>

definition effectsScoped :: "runState \<Rightarrow> bool" where
  "effectsScoped run \<longleftrightarrow> (\<forall>k r. mapGet (rsEffects run) k = Some r \<longrightarrow> (\<exists>s.
     mapGet (rsScopes run) (taskScopeKey (cmdScope (intCommand (recIntent r)))) = Some s \<and>
     sameTaskScope (cmdScope (intCommand (recIntent r))) s))"

lemma scopeMoves_same: "scopeMoves s s' \<Longrightarrow> sameTaskScope t s' = sameTaskScope t s"
  by (auto simp: scopeMoves_def sameTaskScope_def)

lemma effects_scoped:
  assumes "runnerSteps run run'" "coreOk base run" "effectsScoped run"
  shows "effectsScoped run'"
  using assms
proof (induction rule: runnerSteps.induct)
  case (stepsMore run run' run'')
  have ok': "coreOk base run'" by (rule runnerSteps_ok [OF stepsMore(1,4)])
  note ext = extendsD(2,3) [OF runnerStep_extends [OF stepsMore(2) ok']]
  show ?case unfolding effectsScoped_def
  proof (intro allI impI)
    fix k r assume r: "mapGet (rsEffects run'') k = Some r"
    have "\<exists>s. mapGet (rsScopes run') (taskScopeKey (cmdScope (intCommand (recIntent r)))) = Some s \<and>
        sameTaskScope (cmdScope (intCommand (recIntent r))) s"
    proof (cases "mapGet (rsEffects run') k")
      case None
      from new_effect [OF stepsMore(2) ok' r this] show ?thesis
        by (auto simp: scopeAccepts_def sameTaskScopeFence_def split: option.split_asm)
    next
      case (Some r')
      then have "recIntent r = recIntent r'" using ext(1) r by (force simp: recordMoves_def)
      then show ?thesis using stepsMore.IH [OF stepsMore(4,5)] Some by (simp add: effectsScoped_def)
    qed
    then show "\<exists>s. mapGet (rsScopes run'') (taskScopeKey (cmdScope (intCommand (recIntent r)))) = Some s \<and>
        sameTaskScope (cmdScope (intCommand (recIntent r))) s"
      using ext(2) scopeMoves_same by blast
  qed
qed simp

lemma configured_scoped: "configured run \<Longrightarrow> effectsScoped run"
proof -
  assume "configured run"
  then have "rsEffects run = []"
    by (auto simp: configured_def configureRun_def bindE_eq_Inr newRun_def split: if_split_asm)
  then show ?thesis by (simp add: effectsScoped_def mapGet_def)
qed

text \<open>An effect that is finished or to be cancelled stays so, and is not sent to the host to be started.\<close>

definition stopping :: "effectRecord \<Rightarrow> bool" where
  "stopping r \<longleftrightarrow> isTerminalRecord r \<or> recCancelAt r \<noteq> None"

lemma stopping_moves: "recordMoves r r' \<Longrightarrow> stopping r \<Longrightarrow> stopping r'"
  by (auto simp: stopping_def recordMoves_def isTerminalRecord_def)

lemma stopping_claim:
  assumes "claimEffectAttemptRun run input i scope = Inr (Claimed action r, run')" "stopping r"
  shows "action = Cancellation \<or> action = Settlement"
  using assms(1)
proof (cases rule: claimEffectAttemptRun_cases)
  case (2 action' r')
  then have "recCancelAt r \<noteq> None" using assms(2) by (simp add: stopping_def)
  then show ?thesis using 2
    by (auto simp: selectEffectAttemptAction_def cancellationRequired_def split: option.split)
qed blast

lemma fold_fenceScope_origin:
  "mapGet (rsEffects (fold (fenceScope at) ss run)) k = Some r \<Longrightarrow> mapGet (rsEffects run) k \<noteq> None"
  by (induction ss arbitrary: run) (fastforce simp: fenceScope_def Let_def)+

lemma fence_installed:
  assumes install: "installTaskScopeFencesRun run runId at fences = Inr (installed, run1)"
    and ok: "coreOk base run" and scoped: "effectsScoped run" and f: "f \<in> set fences"
  obtains s where "mapGet (rsScopes run) (taskScopeKey (instScope f)) = Some s" "claimsAccepted s"
    "mapGet (rsScopes run1) (taskScopeKey (instScope f)) = Some (s\<lparr>scopeFence := scopeFence s + 1, claimsAccepted := False\<rparr>)"
    "\<forall>k r. mapGet (rsEffects run1) k = Some r \<longrightarrow>
       taskScopeKey (cmdScope (intCommand (recIntent r))) = taskScopeKey (instScope f) \<longrightarrow> stopping r"
  using install ok
proof (cases rule: install_cases')
  case (1 current)
  let ?key = "taskScopeKey (instScope f)"
  obtain t where t: "t \<in> set current" "taskScopeKey t = ?key" using 1(5) f by (metis (no_types, lifting) comp_apply imageE image_eqI)
  obtain u where u: "find (\<lambda>s. taskScopeKey s = ?key) current = Some u"
    using t by (cases "find (\<lambda>s. taskScopeKey s = ?key) current") (auto simp: find_None_iff)
  then have u': "u \<in> set current" "taskScopeKey u = ?key" by (auto simp: find_Some_iff)
  note stored = 1(7) [OF u'(1), unfolded u'(2)]
  show thesis
  proof (rule that)
    show "mapGet (rsScopes run) ?key = Some u" "claimsAccepted u" using stored by simp_all
    show "mapGet (rsScopes run1) ?key = Some (u\<lparr>scopeFence := scopeFence u + 1, claimsAccepted := False\<rparr>)"
      using 1(2) by (simp add: fold_fenceScope_scopes [OF 1(6)] u)
    show "\<forall>k r. mapGet (rsEffects run1) k = Some r \<longrightarrow>
        taskScopeKey (cmdScope (intCommand (recIntent r))) = ?key \<longrightarrow> stopping r"
    proof (intro allI impI)
      fix k r assume r: "mapGet (rsEffects run1) k = Some r"
        and key: "taskScopeKey (cmdScope (intCommand (recIntent r))) = ?key"
      then obtain r0 where r0: "mapGet (rsEffects run) k = Some r0"
        using fold_fenceScope_origin [of at current run k r] 1(3) by auto
      from fold_fenceScope_effects [OF r0, of at current] have moved: "recordMoves r0 r"
        and cancelled: "\<forall>s\<in>set current. \<not> isTerminalRecord r0 \<longrightarrow>
          sameTaskScope (cmdScope (intCommand (recIntent r0))) s \<longrightarrow> recCancelAt r \<noteq> None"
        using r 1(3) by auto
      have "sameTaskScope (cmdScope (intCommand (recIntent r0))) u"
        using scoped r0 key moved stored by (fastforce simp: effectsScoped_def recordMoves_def)
      then have "\<not> isTerminalRecord r0 \<Longrightarrow> stopping r" using cancelled u'(1) by (auto simp: stopping_def)
      moreover have "isTerminalRecord r0 \<Longrightarrow> stopping r" using stopping_moves [OF moved] by (simp add: stopping_def)
      ultimately show "stopping r" by blast
    qed
  qed
qed

text \<open>
  C8. A fence stops its task scope for good: in every state after \<open>installTaskScopeFences\<close> the scope is
  fenced at the next generation and there is no effect of it that was not there before. Every effect
  of the scope has then a terminal outcome or a recorded cancellation, so that any claim granted on
  it later is for cancelling or settling it, not for dispatching it or inspecting it.
\<close>

theorem fence_stops_scope:
  assumes "configured run0" and "runnerSteps run0 run"
    and install: "installTaskScopeFencesRun run runId at fences = Inr (installed, run1)"
    and f: "f \<in> set fences" and later: "runnerSteps run1 run2"
  shows "(\<exists>s. mapGet (rsScopes run) (taskScopeKey (instScope f)) = Some s \<and>
      mapGet (rsScopes run2) (taskScopeKey (instScope f)) = Some (s\<lparr>scopeFence := scopeFence s + 1, claimsAccepted := False\<rparr>)) \<and>
    (\<forall>k r. mapGet (rsEffects run2) k = Some r \<longrightarrow>
       taskScopeKey (cmdScope (intCommand (recIntent r))) = taskScopeKey (instScope f) \<longrightarrow>
       mapGet (rsEffects run1) k \<noteq> None \<and> (isTerminalRecord r \<or> recCancelAt r \<noteq> None)) \<and>
    (claimEffectAttemptRun run2 input i scope = Inr (Claimed action r, run3) \<longrightarrow>
       taskScopeKey (cmdScope (intCommand (recIntent r))) = taskScopeKey (instScope f) \<longrightarrow>
       action = Cancellation \<or> action = Settlement)"
proof -
  have ok: "coreOk (initialOccupied run0) run" by (rule runnerSteps_ok [OF assms(2) configured_ok(1) [OF assms(1)]])
  have ok1: "coreOk (initialOccupied run0) run1" by (rule install_ok [OF ok install])
  have scoped: "effectsScoped run"
    by (rule effects_scoped [OF assms(2) configured_ok(1) [OF assms(1)] configured_scoped [OF assms(1)]])
  let ?key = "taskScopeKey (instScope f)" and ?of = "\<lambda>r. taskScopeKey (cmdScope (intCommand (recIntent r)))"
  obtain s where s: "mapGet (rsScopes run) ?key = Some s" "claimsAccepted s"
      "mapGet (rsScopes run1) ?key = Some (s\<lparr>scopeFence := scopeFence s + 1, claimsAccepted := False\<rparr>)"
    and stop: "\<forall>k r. mapGet (rsEffects run1) k = Some r \<longrightarrow> ?of r = ?key \<longrightarrow> stopping r"
    by (rule fence_installed [OF install ok scoped f])
  have kept: "mapGet (rsEffects run1) k \<noteq> None \<and> stopping r" if r: "mapGet (rsEffects run2) k = Some r" "?of r = ?key" for k r
  proof -
    from fenced_effects [OF later ok1 s(3) _ r] obtain r1 where r1: "mapGet (rsEffects run1) k = Some r1" by auto
    from extendsD(2) [OF runnerSteps_extends [OF later ok1] r1] have m: "recordMoves r1 r" using r(1) by auto
    then have "?of r1 = ?key" using r(2) by (simp add: recordMoves_def)
    then show ?thesis using r1 stop stopping_moves [OF m] by simp
  qed
  have "mapGet (rsEffects run2) (cmdOperation (intCommand i)) = Some r"
    if "claimEffectAttemptRun run2 input i scope = Inr (Claimed action r, run3)"
    using that by (cases rule: claimEffectAttemptRun_cases) (auto dest: durableRecord_get)
  then show ?thesis
    using s(1) fenced_stays [OF ok1 later s(3)] kept stopping_claim by (fastforce simp: stopping_def)
qed

text \<open>The claimed effect of the example, fenced: it can only be claimed to be settled.\<close>

lemma demo_fenced_effects:
  "rsEffects demoFenced = [(lit ''op'', \<lparr>recIntent = demoIntent, recOutcome = None, recCancelAt = Some demoTime\<rparr>)]"
proof -
  have key: "taskScopeKey (instScope demoFence) = taskScopeKey demoCurrentness"
    by (simp add: demoFence_def demoCurrentness_def taskScopeKey_def)
  have "checkInstallation demoClaimed (lit ''run'') [] demoFence = Inr (demoCurrentness, [taskScopeKey demoCurrentness])"
    by (simp add: checkInstallation_def key mapGet_def Let_def) (simp add: demoFence_def demoCurrentness_def)
  moreover have "validTimestamp demoTime" by code_simp
  moreover have "sameTaskScope demoScope demoCurrentness" by (simp add: sameTaskScope_def demo_fields)
  ultimately show ?thesis
    by (simp add: demoFenced_def stateAfter_def installTaskScopeFencesRun_def Let_def fenceScope_def transition_defs
        isTerminalRecord_def mapEntries_def)
qed

theorem fence_stops_scope_witness:
  "(\<exists>r. mapGet (rsEffects demoFenced) (lit ''op'') = Some r \<and> recCancelAt r \<noteq> None) \<and>
   (\<exists>s. mapGet (rsScopes demoFenced) (taskScopeKey (instScope demoFence)) = Some s \<and> \<not> claimsAccepted s)"
proof -
  have effects: "mapGet (rsEffects demoClaimed) (lit ''op'') = Some \<lparr>recIntent = demoIntent, recOutcome = None, recCancelAt = None\<rparr>"
    by (simp add: mapGet_def)
  obtain r where r: "mapGet (rsEffects demoFenced) (lit ''op'') = Some r"
      "recordMoves \<lparr>recIntent = demoIntent, recOutcome = None, recCancelAt = None\<rparr> r"
    using extendsD(2) [OF runnerStep_extends [OF stepFence [OF demo_fenced] demo_core [OF demo_steps(3)]] effects] by blast
  have key: "taskScopeKey (cmdScope (intCommand (recIntent r))) = taskScopeKey (instScope demoFence)"
    using r(2) by (simp add: recordMoves_def) (simp add: demoFence_def demoCurrentness_def taskScopeKey_def)
  note f = fence_stops_scope [OF demo_configured demo_steps(3) demo_fenced _ stepsNone, of demoFence, simplified]
  have "isTerminalRecord r \<or> recCancelAt r \<noteq> None" using conjunct1 [OF conjunct2 [OF f]] r(1) key by blast
  moreover have "\<not> isTerminalRecord r" using r(1) demo_fenced_effects by (auto simp: mapGet_def isTerminalRecord_def)
  moreover obtain s where "mapGet (rsScopes demoFenced) (taskScopeKey (instScope demoFence)) =
      Some (s\<lparr>scopeFence := scopeFence s + 1, claimsAccepted := False\<rparr>)" using conjunct1 [OF f] by blast
  ultimately show ?thesis using r(1) by (intro conjI exI) auto
qed

section \<open>Leases\<close>

text \<open>
  A stale lease changes nothing: with a lease that is not the run's current one or has expired,
  every fenced operation throws, whatever else it is given, and leaves the run as it is.
\<close>

theorem stale_lease_inert:
  assumes "leaseOwner l \<noteq> leaseOwner (rsLease run) \<or> leaseFence l \<noteq> leaseFence (rsLease run) \<or>
    leaseExpires l \<noteq> leaseExpires (rsLease run) \<or> timeGe now (leaseExpires (rsLease run))"
    and "inLease input = l" "inTime input = now"
  shows "\<exists>e. assertFence run l now = Inl e \<and>
    ensureTaskScopesAndBudgetsRun run l now scopes budgets = Inl e \<and>
    claimEffectAttemptRun run input i scope = Inl e \<and>
    settle run (persistIntentRun faults input cmd run) = (Inl e, run) \<and>
    settle run (commitEffectRun faults input i observed run) = (Inl e, run) \<and>
    (\<exists>e. updateContextRun digest l now run = Inl e) \<and> (\<exists>e. requestCancellationRun oper at l now run = Inl e)"
proof -
  have "\<exists>e. assertFence run l now = Inl e" using assms(1) by (auto simp: assertFence_def)
  then obtain e where e: "assertFence run l now = Inl e" by blast
  then show ?thesis
    using assms(2,3) by (simp add: ensureTaskScopesAndBudgetsRun_def claimEffectAttemptRun_def
        persistIntentRun_def commitEffectRun_def updateContextRun_def requestCancellationRun_def settle_def)
qed

theorem stale_lease_inert_witness:
  "\<exists>e. settle demoQueued (persistIntentRun {} (demoInput\<lparr>inLease := demoLease\<lparr>leaseFence := 2\<rparr>\<rparr>) demoCommand demoQueued) =
     (Inl e, demoQueued)"
  using stale_lease_inert [of "demoLease\<lparr>leaseFence := 2\<rparr>" demoQueued demoTime
      "demoInput\<lparr>inLease := demoLease\<lparr>leaseFence := 2\<rparr>\<rparr>"] by (simp add: demoLease_def) blast

end
