(* ===== verification/RunnerRecovery.thy ===== *)
theory RunnerRecovery
  imports RunnerDemo
begin

text \<open>
  Progress of the runner authority: an effect whose owner disappeared can be claimed under a new lease
  and settled with a terminal outcome. The exception is an intent too deep for the wire's JSON
  limits, which is stored but can neither be claimed nor committed.
\<close>

lemma durableRecord_self:
  assumes "mapGet (rsEffects run) (cmdOperation (intCommand (recIntent r))) = Some r"
    and "canonicalStringify (encIntent (recIntent r)) = Inr t"
  shows "durableRecord run (recIntent r) = Inr r"
  using assms by (simp add: durableRecord_def sameText_def)

lemma durableRecord_printed: "durableRecord run (recIntent r) = Inr r' \<Longrightarrow> \<exists>t. canonicalStringify (encIntent (recIntent r)) = Inr t"
  by (auto simp: durableRecord_def sameText_def bindE_eq_Inr split: option.split_asm)

text \<open>
  A claim of the effect \<open>r\<close> is granted, and committing the observation \<open>x\<close> under it ends the effect,
  releases the claim and settles the budget by \<open>usage\<close>.
\<close>

definition recovers ::
  "runState \<Rightarrow> runOnceInput \<Rightarrow> effectRecord \<Rightarrow> taskScopeFence \<Rightarrow> observation \<Rightarrow> finalizedUsage \<Rightarrow> bool" where
  "recovers run input r scope x usage \<longleftrightarrow> (\<exists>action run1 out run2 b.
    let k = cmdOperation (intCommand (recIntent r)); unit = resUnit (cmdBudget (intCommand (recIntent r))) in
    claimEffectAttemptRun run input (recIntent r) scope = Inr (Claimed action r, run1) \<and>
    commitEffectRun {} input (recIntent r) x run1 = Inr (Inr out, run2) \<and> isTerminal (outStatus out) \<and>
    mapGet (rsEffects run2) k = Some (r\<lparr>recOutcome := Some out\<rparr>) \<and> mapGet (rsClaims run2) k = None \<and>
    mapGet (rsBudgets run) unit = Some b \<and> mapGet (rsBudgets run2) unit = Some (settleBudget usage b))"

lemma recovers_printed: "recovers run input r scope x usage \<Longrightarrow> \<exists>t. canonicalStringify (encIntent (recIntent r)) = Inr t"
  by (auto simp: recovers_def Let_def claimEffectAttemptRun_def bindE_eq_Inr dest!: durableRecord_printed)

lemma printed_recovers:
  assumes "configured run0" and "runnerSteps run0 run"
    and r: "mapGet (rsEffects run) k = Some r" "\<not> isTerminalRecord r"
    and fence: "assertFence run (inLease input) (inTime input) = Inr ()"
    and free: "\<forall>c. mapGet (rsClaims run) k = Some c \<longrightarrow> claimFence c \<noteq> leaseFence (inLease input)"
    and attempt: "attemptOutcome run k (inAttempt input) = None" "inAttempt input \<noteq> intAttempt (recIntent r)"
    and scope: "mapGet (rsScopes run) (taskScopeKey (cmdScope (intCommand (recIntent r)))) = Some cur"
      "sameTaskScope cur (cmdScope (intCommand (recIntent r)))"
    and printed: "canonicalStringify (encIntent (recIntent r)) = Inr t"
    and observed: "snapshotObservation x = Inr x'" "isTerminal (obsStatus x')"
      "finalizeUsage (cmdBudget (intCommand (recIntent r))) x' True = Inr usage"
  shows "recovers run input r (taskScopeFenceOf cur) x usage"
proof -
  have ok: "coreOk (initialOccupied run0) run" by (rule runnerSteps_ok [OF assms(2) configured_ok(1) [OF assms(1)]])
  have k: "cmdOperation (intCommand (recIntent r)) = k"
    using coreOk_maps(7) [OF ok r(1)] by (simp add: recordOk_def Let_def)
  have durable: "durableRecord run (recIntent r) = Inr r"
    using r(1) printed k by (intro durableRecord_self) simp_all
  define action where "action = selectEffectAttemptAction r (inTime input) (inAttempt input)"
  define claim where "claim = \<lparr>claimScope = taskScopeFenceOf cur, claimAttempt = inAttempt input,
              claimOwner = leaseOwner (inLease input), claimFence = leaseFence (inLease input),
              claimOrigin = action\<rparr>"
  define run1 where "run1 = run\<lparr>rsClaims := mapSet k claim (rsClaims run)\<rparr>"
  have action: "action \<noteq> Dispatch"
    using attempt(2) by (auto simp: action_def selectEffectAttemptAction_def split: option.split)
  have same: "sameTaskScopeFence (taskScopeFenceOf cur) cur" "sameTaskScope (taskScopeFenceOf cur) s = sameTaskScope cur s" for s :: taskScopeFence
    by (simp_all add: sameTaskScopeFence_def sameTaskScope_def taskScopeFenceOf_def)
  have idle: "(case mapGet (rsClaims run) k of None \<Rightarrow> False | Some c \<Rightarrow> claimFence c = leaseFence (inLease input)) = False"
    using free by (auto split: option.split)
  have claimed: "claimEffectAttemptRun run input (recIntent r) (taskScopeFenceOf cur) = Inr (Claimed action r, run1)"
    by (simp add: claimEffectAttemptRun_def fence durable k attempt(1) r(2) scope(1) same Let_def
        action_def [symmetric] action idle run1_def claim_def)
  have ok1: "coreOk (initialOccupied run0) run1" by (rule claimEffectAttemptRun_ok [OF ok claimed])
  have unchanged: "assertFence run1 = assertFence run" "durableRecord run1 = durableRecord run"
      "attemptOutcome run1 = attemptOutcome run"
    by (simp_all add: run1_def assertFence_def durableRecord_def attemptOutcome_def fun_eq_iff)
  have one: "assertFence run1 (inLease input) (inTime input) = Inr ()" "durableRecord run1 (recIntent r) = Inr r"
      "attemptOutcome run1 k (inAttempt input) = None" "liveClaim run1 input (recIntent r) = Some claim"
    using fence durable attempt(1) scope(2)
    by (simp_all add: unchanged) (simp add: run1_def liveClaim_def k claim_def same)
  have record1: "recordOk run1 k r" using r(1) by (intro coreOk_maps(7) [OF ok1]) (simp add: run1_def)
  then obtain b where b: "mapGet (rsBudgets run1) (resUnit (cmdBudget (intCommand (recIntent r)))) = Some b"
    by (auto simp: recordOk_def Let_def)
  have caps: "mapGet (rsCapacities run1) (capResource cr) \<noteq> None" if "cmdCapacity (intCommand (recIntent r)) = Some cr" for cr
    using record1 that by (simp add: recordOk_def Let_def)
  let ?out = "buildOutcome run1 input r claim x' usage"
  have out: "outOperation ?out = k" "outStatus ?out = obsStatus x'" by (simp_all add: buildOutcome_def Let_def k)
  have "commitEffectRun {} input (recIntent r) x run1 =
      Inr (storeOutcome {} r ?out (released r usage b run1))"
    using observed b caps
    by (cases "cmdCapacity (intCommand (recIntent r))")
      (auto simp: commitEffectRun_def one k r(2) Let_def out released_def)
  moreover have "mapGet (rsBudgets run) (resUnit (cmdBudget (intCommand (recIntent r)))) = Some b" using b by (simp add: run1_def)
  ultimately show ?thesis using claimed observed(2) unfolding recovers_def
    by (intro exI [of _ action] exI [of _ run1] exI [of _ ?out]
        exI [of _ "snd (storeOutcome {} r ?out (released r usage b run1))"] exI [of _ b])
      (simp add: out storeOutcome_def faulted_def Let_def transition_defs k released_def)
qed

text \<open>
  C33. An effect without a terminal outcome is not stuck as long as its intent is within the wire's
  JSON limits: under a lease that is current and holds no claim on it, a new attempt is granted the
  claim, and committing a terminal observation within the reservation ends the effect, releases
  its claim and settles its budget. Exactly the effects whose intent is beyond those limits cannot be
  finished so.
\<close>

theorem effect_recoverable:
  assumes "configured run0" and "runnerSteps run0 run"
    and r: "mapGet (rsEffects run) k = Some r" "\<not> isTerminalRecord r"
    and fence: "assertFence run (inLease input) (inTime input) = Inr ()"
    and free: "\<forall>c. mapGet (rsClaims run) k = Some c \<longrightarrow> claimFence c \<noteq> leaseFence (inLease input)"
    and attempt: "attemptOutcome run k (inAttempt input) = None" "inAttempt input \<noteq> intAttempt (recIntent r)"
    and scope: "mapGet (rsScopes run) (taskScopeKey (cmdScope (intCommand (recIntent r)))) = Some cur"
      "sameTaskScope cur (cmdScope (intCommand (recIntent r)))"
    and observed: "snapshotObservation x = Inr x'" "isTerminal (obsStatus x')"
      "finalizeUsage (cmdBudget (intCommand (recIntent r))) x' True = Inr usage"
  shows "recovers run input r (taskScopeFenceOf cur) x usage \<longleftrightarrow>
    (\<exists>t. canonicalStringify (encIntent (recIntent r)) = Inr t)"
  using recovers_printed [of run input r "taskScopeFenceOf cur" x usage] printed_recovers [OF assms(1-10) _ assms(11-13)]
  by blast

theorem effect_recoverable_witness:
  "recovers demoIntended (demoInput\<lparr>inAttempt := lit ''second''\<rparr>)
     \<lparr>recIntent = demoIntent, recOutcome = None, recCancelAt = None\<rparr> demoScope demoObservation
     \<lparr>usageUnit = lit ''tokens'', usageReserved = 6, usageReported = Some 4, usageUnreported = 0\<rparr>"
proof -
  let ?r = "\<lparr>recIntent = demoIntent, recOutcome = None, recCancelAt = None\<rparr>"
  have cur: "taskScopeFenceOf demoCurrentness = demoScope"
    by (simp add: taskScopeFenceOf_def demoScope_def demoCurrentness_def)
  have "recovers demoIntended (demoInput\<lparr>inAttempt := lit ''second''\<rparr>) ?r (taskScopeFenceOf demoCurrentness) demoObservation
      \<lparr>usageUnit = lit ''tokens'', usageReserved = 6, usageReported = Some 4, usageUnreported = 0\<rparr> \<longleftrightarrow>
    (\<exists>t. canonicalStringify (encIntent (recIntent ?r)) = Inr t)"
    by (rule effect_recoverable [OF demo_configured demo_steps(2), where k = "lit ''op''" and x' = demoObservation])
      (simp_all add: mapGet_def isTerminalRecord_def demo_fence attemptOutcome_def demo_observed
        demo_status demo_usage, simp add: sameTaskScope_def demoScope_def demoCurrentness_def)
  then show ?thesis by (simp add: cur demo_intent_text)
qed

section \<open>Intents that are too deep\<close>

definition nestedInput :: "nat \<Rightarrow> val" where
  "nestedInput n = ((\<lambda>v. Arr [v]) ^^ n) Null"

definition deepCommand :: queuedCommand where
  "deepCommand = demoCommand\<lparr>cmdInput := nestedInput 31\<rparr>"

lemma deep_command_text: "canonicalStringify (encCommand deepCommand) = Inr (serialize (encCommand deepCommand))"
proof -
  have input: "is_json (nestedInput 31)" "wireOk 1 (nestedInput 31)" "wireNodes (nestedInput 31) = 32"
    "textBound (nestedInput 31) = 102"
    by code_simp+
  show ?thesis
    by (rule canonicalStringify_fits)
      (simp_all add: encCommand_def deepCommand_def input demo_wire maxSafe_def input(2) [simplified],
       simp_all add: demoCommand_def demoScope_def demo_wire maxSafe_def)
qed

lemma deep_intent_text: "intCommand i = deepCommand \<Longrightarrow> canonicalStringify (encIntent i) = Inl ProtocolError"
proof -
  assume "intCommand i = deepCommand"
  moreover have "\<not> wireOk (Suc (Suc 0)) (nestedInput 31)" by code_simp
  ultimately have "\<not> wireOk 0 (encIntent i)" by (simp add: encIntent_def encCommand_def deepCommand_def)
  then show ?thesis by (simp add: canonicalStringify_def snapshotWire_eq)
qed

text \<open>
  A command can be too deep for its own intent: one whose input nests 31 arrays is accepted and
  queued, since its text is within the depth limit of 32, but the text of its intent, which wraps the
  command once more, is not. So once its intent is stored and its budget reserved, every claim
  and every commit of it throws.
\<close>

theorem deep_command_unclaimable:
  "validateCommand deepCommand = Inr () \<and> snapshotCommand deepCommand = Inr deepCommand \<and>
   sameText (encCommand deepCommand) (encCommand deepCommand) = Inr True \<and>
   (\<forall>run input i scope p. intCommand i = deepCommand \<longrightarrow> claimEffectAttemptRun run input i scope \<noteq> Inr p) \<and>
   (\<forall>faults run input i observed p. intCommand i = deepCommand \<longrightarrow> commitEffectRun faults input i observed run \<noteq> Inr p)"
proof (intro conjI allI impI)
  have head: "validCommandHead deepCommand" "validCommandTail deepCommand" by code_simp+
  have "canonicalStringify (nestedInput 31) = Inr (serialize (nestedInput 31))"
    by (rule canonicalStringify_fits) (code_simp+)
  then show "validateCommand deepCommand = Inr ()"
    using head by (simp add: validateCommand_def) (simp add: deepCommand_def)
  have "norm (nestedInput 31) = nestedInput 31" by code_simp
  then show "snapshotCommand deepCommand = Inr deepCommand"
    by (simp add: snapshotCommand_def deep_command_text) (simp add: deepCommand_def)
  show "sameText (encCommand deepCommand) (encCommand deepCommand) = Inr True"
    by (rule sameText_refl [OF deep_command_text])
  have durable: "durableRecord run i \<noteq> Inr r" if "intCommand i = deepCommand" for run i r
    using deep_intent_text [OF that]
    by (auto simp: durableRecord_def sameText_def bindE_eq_Inr split: option.split)
  show "claimEffectAttemptRun run input i scope \<noteq> Inr p" if "intCommand i = deepCommand" for run input i scope p
    using durable [OF that] by (auto simp: claimEffectAttemptRun_def bindE_eq_Inr)
  show "commitEffectRun faults input i observed run \<noteq> Inr p" if "intCommand i = deepCommand" for faults run input i observed p
    using durable [OF that] by (auto simp: commitEffectRun_def bindE_eq_Inr)
qed

theorem deep_command_unclaimable_witness:
  "\<forall>p. claimEffectAttemptRun demoQueued demoInput (demoIntent\<lparr>intCommand := deepCommand\<rparr>) demoScope \<noteq> Inr p"
proof -
  have "intCommand (demoIntent\<lparr>intCommand := deepCommand\<rparr>) = deepCommand" by simp
  then show ?thesis using deep_command_unclaimable by blast
qed

end
