(* ===== verification/RunnerScheduling.thy ===== *)
theory RunnerScheduling
  imports RunnerDemo "HOL-Library.Sublist"
begin

text \<open>
  \<open>scheduleRunnerTransitions\<close>: what a batch may contain. The loop over the commands (\<open>startCommands\<close>)
  keeps within the batch limit and within the free capacity of every resource.
\<close>

definition freeCapacity :: "(jstr, int) jsmap \<Rightarrow> jstr \<Rightarrow> int" where
  "freeCapacity m c = (case mapGet m c of None \<Rightarrow> 0 | Some n \<Rightarrow> n)"

definition requested :: "jstr \<Rightarrow> queuedCommand \<Rightarrow> int" where
  "requested c q = (case cmdCapacity q of None \<Rightarrow> 0
     | Some r \<Rightarrow> if capResource r = c then capAmount r else 0)"

lemma freeCapacity_set: "freeCapacity (mapSet c n m) d = (if d = c then n else freeCapacity m d)"
  by (simp add: freeCapacity_def)

lemma startCommands_spec:
  assumes "\<And>c. 0 \<le> freeCapacity m c"
  shows "\<exists>started. startCommands limit m plans cs = plans @ map Start started \<and> subseq started cs \<and>
    length plans + length started \<le> max limit (length plans) \<and>
    (\<forall>c. sum_list (map (requested c) started) \<le> freeCapacity m c)"
  using assms
proof (induction limit m plans cs rule: startCommands.induct)
  case (1 limit m plans)
  then show ?case by (intro exI [of _ "[]"]) simp
next
  case (2 limit m plans q cs)
  show ?case
  proof (cases "limit \<le> length plans")
    case True
    then show ?thesis using 2(4) by (intro exI [of _ "[]"]) simp
  next
    case False
    show ?thesis
    proof (cases "cmdCapacity q")
      case None
      obtain started where IH: "startCommands limit m (plans @ [Start q]) cs = (plans @ [Start q]) @ map Start started"
        "subseq started cs" "length (plans @ [Start q]) + length started \<le> max limit (length (plans @ [Start q]))"
        "\<forall>c. sum_list (map (requested c) started) \<le> freeCapacity m c"
        using 2(1) [OF False None 2(4)] by blast
      moreover have "requested c q = 0" for c using None by (simp add: requested_def)
      ultimately show ?thesis using False None by (intro exI [of _ "q # started"]) simp
    next
      case (Some r)
      let ?free = "freeCapacity m (capResource r)"
      have eq: "startCommands limit m plans (q # cs) =
          (if capAmount r > ?free then startCommands limit m plans cs
           else startCommands limit (mapSet (capResource r) (?free - capAmount r) m) (plans @ [Start q]) cs)"
        using False Some by (simp add: freeCapacity_def Let_def)
      show ?thesis
      proof (cases "capAmount r > ?free")
        case True
        then obtain started where "startCommands limit m plans cs = plans @ map Start started"
          "subseq started cs" "length plans + length started \<le> max limit (length plans)"
          "\<forall>c. sum_list (map (requested c) started) \<le> freeCapacity m c"
          using 2(2) [OF False Some refl _ 2(4)] by (auto simp: freeCapacity_def)
        then show ?thesis using True eq by (intro exI [of _ started]) auto
      next
        case fits: False
        let ?m = "mapSet (capResource r) (?free - capAmount r) m"
        have "\<And>c. 0 \<le> freeCapacity ?m c" using fits 2(4) by (simp add: freeCapacity_set)
        then obtain started where IH: "startCommands limit ?m (plans @ [Start q]) cs = (plans @ [Start q]) @ map Start started"
          "subseq started cs" "length (plans @ [Start q]) + length started \<le> max limit (length (plans @ [Start q]))"
          "\<forall>c. sum_list (map (requested c) started) \<le> freeCapacity ?m c"
          using 2(3) [OF False Some refl] fits by (auto simp: freeCapacity_def)
        have "sum_list (map (requested c) (q # started)) \<le> freeCapacity m c" for c
          using spec [OF IH(4), of c] Some by (auto simp: requested_def freeCapacity_set)
        then show ?thesis using fits eq IH False by (intro exI [of _ "q # started"]) simp
      qed
    qed
  qed
qed

lemma fold_capacities:
  "\<forall>c. 0 \<le> freeCapacity m c \<Longrightarrow>
     0 \<le> freeCapacity (fold (\<lambda>c m. mapSet (capStateResource c) (max 0 (capLimit c - capOccupied c)) m) cs m) d"
  by (induction cs arbitrary: m) (simp_all add: freeCapacity_set)

lemma fold_capacities_member:
  assumes "distinct (map capStateResource cs)" "s \<in> set cs"
  shows "freeCapacity (fold (\<lambda>c m. mapSet (capStateResource c) (max 0 (capLimit c - capOccupied c)) m) cs m)
    (capStateResource s) = max 0 (capLimit s - capOccupied s)"
proof -
  have other: "freeCapacity (fold (\<lambda>c m. mapSet (capStateResource c) (max 0 (capLimit c - capOccupied c)) m) ds m) d =
      freeCapacity m d" if "d \<notin> capStateResource ` set ds" for d ds m
    using that by (induction ds arbitrary: m) (auto simp: freeCapacity_set)
  show ?thesis using assms
    by (induction cs arbitrary: m) (auto simp: other freeCapacity_set)
qed

text \<open>
  A batch stays within its bounds: it holds at most the allowed number of transitions, the pending
  effects to reconcile first (those to cancel before the others) and then commands to start; a started
  command has neither an effect nor an escalation yet and its task scope accepts it; and for
  every resource the started commands together ask for no more than its free capacity.
\<close>

theorem schedule_within_bounds:
  assumes "scheduleRunnerTransitions snap now n = Inr plans"
    and "distinct (map capStateResource (snapCapacities snap))"
  shows "\<exists>rs cs. plans = map Reconcile rs @ map Start cs \<and> int (length plans) \<le> n \<and>
    set rs \<subseteq> {r \<in> set (snapEffects snap). \<not> isTerminalRecord r} \<and>
    sorted (map (\<lambda>r. cancellationPriority r now) rs) \<and>
    (\<forall>c\<in>set cs. c \<in> set (snapQueue snap) \<and> startable snap c) \<and>
    (\<forall>s\<in>set (snapCapacities snap). sum_list (map (requested (capStateResource s)) cs) \<le> max 0 (capLimit s - capOccupied s))"
proof -
  have n: "validBatchLimit n" using assms(1) by (simp add: scheduleRunnerTransitions_def split: if_split_asm)
  define sorted_rs where "sorted_rs = sort_key (\<lambda>r. (cancellationPriority r now, cmdOperation (intCommand (recIntent r))))
                 (filter reconcilable (snapEffects snap))"
  define rs where "rs = take (nat n) sorted_rs"
  define m where "m = fold (\<lambda>c m. mapSet (capStateResource c) (max 0 (capLimit c - capOccupied c)) m) (snapCapacities snap) []"
  define cs where "cs = sort_key (\<lambda>c. (cmdOperation c, cmdSequence c, cmdId c)) (filter (startable snap) (snapQueue snap))"
  have plans: "plans = startCommands (nat n) m (map Reconcile rs) cs"
    using assms(1) n by (simp add: scheduleRunnerTransitions_def Let_def rs_def sorted_rs_def m_def cs_def)
  have "0 \<le> freeCapacity m c" for c unfolding m_def by (rule fold_capacities) (simp add: freeCapacity_def)
  from startCommands_spec [OF this] obtain started where s: "plans = map Reconcile rs @ map Start started"
    "subseq started cs" "length (map Reconcile rs) + length started \<le> max (nat n) (length (map Reconcile rs))"
    "\<forall>c. sum_list (map (requested c) started) \<le> freeCapacity m c"
    unfolding plans by blast
  have "length plans \<le> nat n" using s(1,3) by (simp add: rs_def)
  then have "int (length plans) \<le> n" using n by (simp add: validBatchLimit_def le_nat_iff)
  moreover have "set rs \<subseteq> {r \<in> set (snapEffects snap). \<not> isTerminalRecord r}"
    by (auto simp: rs_def sorted_rs_def reconcilable_def isTerminalRecord_def isTerminal_def
        dest!: in_set_takeD split: option.split_asm)
  moreover have "sorted (map (\<lambda>r. cancellationPriority r now) sorted_rs)"
  proof -
    have "sorted (map (\<lambda>r. (cancellationPriority r now, cmdOperation (intCommand (recIntent r)))) sorted_rs)"
      by (simp add: sorted_rs_def)
    then show ?thesis by (auto simp: sorted_map less_eq_prod_def elim: sorted_wrt_mono_rel [rotated])
  qed
  then have "sorted (map (\<lambda>r. cancellationPriority r now) rs)"
    unfolding rs_def take_map [symmetric] by (rule sorted_wrt_take)
  moreover have "\<forall>c\<in>set started. c \<in> set (snapQueue snap) \<and> startable snap c"
    using set_nths_subset [of cs] s(2) [unfolded subseq_conv_nths] by (auto simp: cs_def)
  moreover have "sum_list (map (requested (capStateResource t)) started) \<le> max 0 (capLimit t - capOccupied t)"
    if "t \<in> set (snapCapacities snap)" for t
    using spec [OF s(4), of "capStateResource t"] fold_capacities_member [OF assms(2) that, of "[]"]
    by (simp add: m_def)
  ultimately show ?thesis using s(1) by blast
qed

theorem schedule_within_bounds_witness:
  "\<exists>plans. scheduleRunnerTransitions (loadRun demoQueued) demoTime 1 = Inr plans \<and> int (length plans) \<le> 1"
proof -
  have "validBatchLimit 1" by code_simp
  then have "\<exists>plans. scheduleRunnerTransitions (loadRun demoQueued) demoTime 1 = Inr plans"
    by (simp add: scheduleRunnerTransitions_def Let_def)
  then obtain plans where p: "scheduleRunnerTransitions (loadRun demoQueued) demoTime 1 = Inr plans" by blast
  have "distinct (map capStateResource (snapCapacities (loadRun demoQueued)))"
    by (simp add: loadRun_def mapValues_def)
  from schedule_within_bounds [OF p this] p show ?thesis by blast
qed

end
