(* ===== verification/Scheduler.thy ===== *)
theory Scheduler
  imports BudgetHistory
begin

text \<open>
  packages/runtime/src/scheduler.ts: the writer limit of a run, the batch of ready siblings, the
  reaction to failed siblings, the frontier of an applied task set, and task retries. Fields that
  the code checks against a fixed set of words are strings here, the other unions are datatypes.
\<close>

section \<open>Policies, limits and facts\<close>

record executionPolicy =
  workspaceMode :: jstr
  maxWriterConcurrency :: int
  failurePolicy :: jstr

record schedulerLimits =
  supervisorWriterLimit :: int
  hostWriterLimit :: int
  availableDurableWriterCapacity :: int

record taskRef =
  refTask :: jstr
  refGeneration :: int

datatype readyStatus = QueuedR | ActiveR | UnknownR | CompletedR | FailedR | CancelledR

record siblingFact =
  siblingTask :: jstr
  siblingOperation :: jstr
  siblingStatus :: readyStatus

record batchMember = taskRef +
  memberOperation :: jstr

datatype memberState = PendingM | ActiveM | CompletedM | FailedM | SupersededM

datatype repositoryChanges = ChangesRequired | ChangesAllowed | ChangesForbidden

record frontierMember = taskRef +
  dependencyTasks :: "jstr list"
  memberState :: memberState
  memberChanges :: repositoryChanges

record frontierInput =
  applied :: bool
  maxActive :: int
  frontierPolicy :: executionPolicy
  frontierLimits :: schedulerLimits
  frontierMembers :: "frontierMember list"

record frontierPlan =
  effectiveTaskSet :: "taskRef list"
  admitted :: "taskRef list"
  blockedByApplication :: bool
  complete :: bool

datatype failureAction = StopNewWriterAdmission | FenceTask jstr | RequestCancellation jstr

datatype retryKind = DispatchFailureRetry | ReworkRetry

datatype retryExhaustion = EscalateX | FailX

datatype retryAction = RetryA | OnExhaustion retryExhaustion

record retryPlan =
  retryAction :: retryAction
  retryLedger :: budgetLedger

section \<open>Validation\<close>

definition requireE :: "bool \<Rightarrow> exn + unit" where
  "requireE b = (if b then Inr () else Inl TypeError)"

definition validateLimit :: "int \<Rightarrow> bool \<Rightarrow> exn + unit" where
  "validateLimit n allowZero = requireE (isSafe n \<and> (if allowZero then 0 else 1) \<le> n)"

definition validateIdentity :: "jstr \<Rightarrow> exn + unit" where
  "validateIdentity s = requireE (\<not> (length s = 0 \<or> length s > 128))"

definition validateExecutionPolicy :: "executionPolicy \<Rightarrow> exn + unit" where
  "validateExecutionPolicy p =
     (if workspaceMode p \<noteq> lit ''repository'' \<and> workspaceMode p \<noteq> lit ''worktree'' then Inl TypeError
      else bindE (validateLimit (maxWriterConcurrency p) False) (\<lambda>_.
        if workspaceMode p = lit ''repository'' \<and> maxWriterConcurrency p \<noteq> 1 then Inl TypeError
        else if failurePolicy p \<noteq> lit ''continue'' \<and> failurePolicy p \<noteq> lit ''fail-fast'' then Inl TypeError
        else Inr ()))"

definition validateGeneration :: "int \<Rightarrow> exn + unit" where
  "validateGeneration n = requireE (\<not> (\<not> isSafe n \<or> n < 1))"

section \<open>The writer limit and the ready batch\<close>

definition effectiveWriterLimit :: "executionPolicy \<Rightarrow> schedulerLimits \<Rightarrow> exn + int" where
  "effectiveWriterLimit p l =
     bindE (validateExecutionPolicy p) (\<lambda>_.
     bindE (validateLimit (supervisorWriterLimit l) False) (\<lambda>_.
     bindE (validateLimit (hostWriterLimit l) False) (\<lambda>_.
     bindE (validateLimit (availableDurableWriterCapacity l) True) (\<lambda>_.
       let workflowLimit = (if workspaceMode p = lit ''repository'' then 1 else maxWriterConcurrency p)
       in Inr (min workflowLimit (min (supervisorWriterLimit l)
            (min (hostWriterLimit l) (availableDurableWriterCapacity l))))))))"

definition readyTaskOf :: "taskRef \<Rightarrow> exn + taskRef" where
  "readyTaskOf t = bindE (validateIdentity (refTask t)) (\<lambda>_.
     bindE (validateGeneration (refGeneration t)) (\<lambda>_. Inr t))"

definition readyEffectOf :: "siblingFact \<Rightarrow> exn + siblingFact" where
  "readyEffectOf x = bindE (validateIdentity (siblingTask x)) (\<lambda>_.
     bindE (validateIdentity (siblingOperation x)) (\<lambda>_. Inr x))"

text \<open>\<open>compareBatchMember\<close> and \<open>compareSiblingFact\<close> order by task, then by operation.\<close>

definition batchOrder :: "batchMember \<Rightarrow> jstr \<times> jstr" where
  "batchOrder m = (refTask m, memberOperation m)"

definition siblingOrder :: "siblingFact \<Rightarrow> jstr \<times> jstr" where
  "siblingOrder s = (siblingTask s, siblingOperation s)"

definition batchMemberOf :: "taskRef list \<Rightarrow> siblingFact \<Rightarrow> batchMember list" where
  "batchMemberOf tasks x = (case keyed refTask tasks (siblingTask x) of
     Some t \<Rightarrow> if siblingStatus x = QueuedR
       then [taskRef.extend t \<lparr>memberOperation = siblingOperation x\<rparr>] else []
   | None \<Rightarrow> [])"

definition planReadySiblingBatch ::
  "executionPolicy \<Rightarrow> schedulerLimits \<Rightarrow> taskRef list \<Rightarrow> siblingFact list \<Rightarrow> exn + int \<times> batchMember list" where
  "planReadySiblingBatch p l readyTasks effects =
     bindE (effectiveWriterLimit p l) (\<lambda>limit.
     bindE (uniqueBy refTask readyTaskOf TypeError readyTasks) (\<lambda>tasks.
     bindE (uniqueBy siblingOperation readyEffectOf TypeError effects) (\<lambda>xs.
       Inr (limit, take (nat limit) (sort_key batchOrder (concat (map (batchMemberOf tasks) xs)))))))"

section \<open>Failed siblings\<close>

definition planFailurePolicyActions :: "jstr \<Rightarrow> siblingFact list \<Rightarrow> exn + failureAction list" where
  "planFailurePolicyActions policy siblings =
     (let ordered = sort_key siblingOrder siblings in
      if \<not> list_ex (\<lambda>s. siblingStatus s = FailedR) ordered then Inr []
      else if policy = lit ''continue'' then
        Inr (map (FenceTask \<circ> siblingTask) (filter (\<lambda>s. siblingStatus s = FailedR) ordered))
      else if policy \<noteq> lit ''fail-fast'' then Inl TypeError
      else Inr (StopNewWriterAdmission #
        map FenceTask (sort (keep_first (map siblingTask ordered))) @
        map (RequestCancellation \<circ> siblingOperation)
          (filter (\<lambda>s. siblingStatus s = ActiveR \<or> siblingStatus s = UnknownR) ordered)))"

section \<open>The frontier of an applied task set\<close>

definition taskRefOf :: "frontierMember \<Rightarrow> taskRef" where
  "taskRefOf m = \<lparr>refTask = refTask m, refGeneration = refGeneration m\<rparr>"

definition frontierMemberOf :: "frontierMember \<Rightarrow> exn + frontierMember" where
  "frontierMemberOf m = bindE (validateIdentity (refTask m)) (\<lambda>_.
     bindE (validateGeneration (refGeneration m)) (\<lambda>_. Inr m))"

text \<open>\<open>byTask.get(dependency)?.state ?? "pending"\<close> is one of the two states that release a dependent.\<close>

definition releasedBy :: "(jstr \<Rightarrow> frontierMember option) \<Rightarrow> jstr \<Rightarrow> bool" where
  "releasedBy byTask d = (case byTask d of None \<Rightarrow> False
     | Some m \<Rightarrow> memberState m = CompletedM \<or> memberState m = SupersededM)"

text \<open>The \<open>flatMap\<close> callback, with the two counters it decrements.\<close>

fun admitMembers ::
  "(jstr \<Rightarrow> frontierMember option) \<Rightarrow> int \<Rightarrow> int \<Rightarrow> frontierMember list \<Rightarrow> frontierMember list" where
  "admitMembers byTask capacity writerCapacity [] = []"
| "admitMembers byTask capacity writerCapacity (m # ms) =
     (if memberState m \<noteq> PendingM \<or> capacity = 0 then admitMembers byTask capacity writerCapacity ms
      else if list_ex (\<lambda>d. \<not> releasedBy byTask d) (dependencyTasks m)
      then admitMembers byTask capacity writerCapacity ms
      else if memberChanges m \<noteq> ChangesForbidden then
        (if writerCapacity = 0 then admitMembers byTask capacity writerCapacity ms
         else m # admitMembers byTask (capacity - 1) (writerCapacity - 1) ms)
      else m # admitMembers byTask (capacity - 1) writerCapacity ms)"

definition checkFrontierMembers :: "frontierMember list \<Rightarrow> exn + unit" where
  "checkFrontierMembers members =
     bindE (uniqueBy refTask frontierMemberOf TypeError members) (\<lambda>_.
     requireE (list_all (\<lambda>m. list_all (\<lambda>d. keyed refTask members d \<noteq> None) (dependencyTasks m)) members))"

definition planAppliedTaskFrontier :: "frontierInput \<Rightarrow> exn + frontierPlan" where
  "planAppliedTaskFrontier input =
     bindE (validateLimit (maxActive input) False) (\<lambda>_.
     bindE (requireE (\<not> maxActive input > 32)) (\<lambda>_.
     let members = sort_key refTask (frontierMembers input) in
     bindE (checkFrontierMembers members) (\<lambda>_.
     let effective = filter (\<lambda>m. memberState m \<noteq> SupersededM) members;
         taskSet = map taskRefOf effective in
     if \<not> applied input then Inr \<lparr>effectiveTaskSet = taskSet, admitted = [],
       blockedByApplication = True, complete = False\<rparr>
     else
       let active = int (length (filter (\<lambda>m. memberState m = ActiveM) members));
           capacity = max 0 (maxActive input - active) in
       bindE (effectiveWriterLimit (frontierPolicy input) (frontierLimits input)) (\<lambda>writerCapacity.
         Inr \<lparr>effectiveTaskSet = taskSet,
           admitted = map taskRefOf (admitMembers (keyed refTask members) capacity writerCapacity members),
           blockedByApplication = False,
           complete = (effective \<noteq> [] \<and> list_all (\<lambda>m. memberState m = CompletedM) effective)\<rparr>))))"

section \<open>Task retries\<close>

definition retryUnit :: "retryKind \<Rightarrow> budgetUnit" where
  "retryUnit k = (case k of DispatchFailureRetry \<Rightarrow> DispatchFailure | ReworkRetry \<Rightarrow> ReviewIteration)"

definition planTaskRetry :: "retryKind \<Rightarrow> val \<Rightarrow> retryExhaustion \<Rightarrow> exn + retryPlan" where
  "planTaskRetry kind ledgerValue exhaustion =
     bindE (createBudgetLedger ledgerValue) (\<lambda>ledger.
     bindE (consumeBudget (encLedger ledger) (encConsumption (retryUnit kind) 1)) (\<lambda>c.
       Inr (case c of
         Consumed l _ \<Rightarrow> \<lparr>retryAction = RetryA, retryLedger = l\<rparr>
       | Exhausted _ _ _ \<Rightarrow> \<lparr>retryAction = OnExhaustion exhaustion, retryLedger = ledger\<rparr>)))"

end
