(* ===== verification/SchedulerFacts.thy ===== *)
theory SchedulerFacts
  imports Scheduler
begin

text \<open>
  Facts on scheduler.ts: what each validation accepts, what the admission loop yields, and the
  dependency relation of a frontier.
\<close>

lemma requireE_eq_Inr [err_simps]: "requireE b = Inr u \<longleftrightarrow> b"
  by (simp add: requireE_def)

lemma requireE_eq_Inl: "requireE b = Inl e \<longleftrightarrow> \<not> b \<and> e = TypeError"
  by (auto simp: requireE_def)

lemma effectiveWriterLimit_eq_Inr:
  "effectiveWriterLimit p l = Inr n \<Longrightarrow>
     0 \<le> n \<and> n \<le> maxWriterConcurrency p \<and> n \<le> supervisorWriterLimit l \<and> n \<le> hostWriterLimit l \<and>
     n \<le> availableDurableWriterCapacity l \<and> (workspaceMode p = lit ''repository'' \<longrightarrow> n \<le> 1) \<and>
     (0 < availableDurableWriterCapacity l \<longrightarrow> 0 < n)"
  by (auto simp: effectiveWriterLimit_def validateExecutionPolicy_def validateLimit_def err_simps Let_def
      split: if_splits)

section \<open>The admission loop\<close>

definition writer :: "frontierMember \<Rightarrow> bool" where
  "writer m \<longleftrightarrow> memberChanges m \<noteq> ChangesForbidden"

definition eligible :: "(jstr \<Rightarrow> frontierMember option) \<Rightarrow> frontierMember \<Rightarrow> bool" where
  "eligible byTask m \<longleftrightarrow> memberState m = PendingM \<and> (\<forall>d\<in>set (dependencyTasks m). releasedBy byTask d)"

abbreviation writers :: "frontierMember list \<Rightarrow> frontierMember list" where
  "writers ms \<equiv> filter writer ms"

lemma admit_step:
  "admitMembers b c w (m # ms) =
     (if \<not> eligible b m \<or> c = 0 \<or> writer m \<and> w = 0 then admitMembers b c w ms
      else m # admitMembers b (c - 1) (if writer m then w - 1 else w) ms)"
  by (auto simp: eligible_def writer_def list_ex_iff)

declare admitMembers.simps(2) [simp del] admit_step [simp]

lemma admit_eligible: "m \<in> set (admitMembers b c w ms) \<Longrightarrow> m \<in> set ms \<and> eligible b m"
  by (induction ms arbitrary: c w) (auto split: if_splits)

lemma admit_distinct: "distinct (map k ms) \<Longrightarrow> distinct (map k (admitMembers b c w ms))"
  by (induction ms arbitrary: c w) (auto dest!: admit_eligible)

lemma admit_sorted: "sorted (map k ms) \<Longrightarrow> sorted (map k (admitMembers b c w ms))"
  by (induction ms arbitrary: c w) (auto dest!: admit_eligible)

lemma admit_capacity: "0 \<le> c \<Longrightarrow> int (length (admitMembers b c w ms)) \<le> c"
proof (induction ms arbitrary: c w)
  case (Cons m ms)
  show ?case using Cons.IH [of c w] Cons.IH [of "c - 1" "if writer m then w - 1 else w"] Cons.prems by auto
qed simp

lemma admit_writers: "0 \<le> w \<Longrightarrow> int (length (writers (admitMembers b c w ms))) \<le> w"
proof (induction ms arbitrary: c w)
  case (Cons m ms)
  show ?case using Cons.IH [of w c] Cons.IH [of "if writer m then w - 1 else w" "c - 1"] Cons.prems by auto
qed simp

text \<open>An eligible member is left out only when a capacity is used up.\<close>

lemma admit_conserves:
  assumes "m \<in> set ms" "eligible b m" "m \<notin> set (admitMembers b c w ms)" "0 \<le> c" "0 \<le> w"
  shows "int (length (admitMembers b c w ms)) = c \<or>
    writer m \<and> int (length (writers (admitMembers b c w ms))) = w"
  using assms
proof (induction ms arbitrary: c w)
  case (Cons x ms)
  show ?case
  proof (cases "\<not> eligible b x \<or> c = 0 \<or> writer x \<and> w = 0")
    case skip: True
    show ?thesis
    proof (cases "m = x")
      case True
      then show ?thesis
        using skip Cons.prems admit_capacity [of 0 b w ms] admit_writers [of 0 b c ms] by auto
    next
      case False
      then show ?thesis using Cons.IH [of c w] Cons.prems skip by auto
    qed
  next
    case False
    then show ?thesis
      using Cons.IH [of "c - 1" "if writer x then w - 1 else w"] Cons.prems by (auto split: if_splits)
  qed
qed simp

section \<open>Accepted frontiers\<close>

lemma frontierMemberOf_eq_Inr: "frontierMemberOf m = Inr m' \<Longrightarrow> m' = m"
  by (auto simp: frontierMemberOf_def err_simps)

lemma uniqueBy_id:
  assumes "uniqueBy k f dup xs = Inr ys" and "\<And>x y. f x = Inr y \<Longrightarrow> y = x"
  shows "ys = xs \<and> distinct (map k xs)"
  using assms by (auto simp: uniqueBy_eq_Inr dest: mapE_inverse [where g = "\<lambda>x. x"])

lemma checkFrontier_ok:
  assumes "checkFrontierMembers ms = Inr u"
  shows "distinct (map refTask ms)" "\<And>m d. m \<in> set ms \<Longrightarrow> d \<in> set (dependencyTasks m) \<Longrightarrow> d \<in> refTask ` set ms"
  using assms
  by (auto simp: checkFrontierMembers_def err_simps list_all_iff keyed_None
      dest!: uniqueBy_id [OF _ frontierMemberOf_eq_Inr])

text \<open>An accepted frontier, seen from its input.\<close>

lemma frontier_accepted:
  assumes "planAppliedTaskFrontier input = Inr plan"
  defines "members \<equiv> sort_key refTask (frontierMembers input)"
    and "byTask \<equiv> keyed refTask (frontierMembers input)"
  shows "distinct (map refTask (frontierMembers input))"
    and "\<And>m d. m \<in> set (frontierMembers input) \<Longrightarrow> d \<in> set (dependencyTasks m) \<Longrightarrow> byTask d \<noteq> None"
    and "applied input \<Longrightarrow> \<exists>w. effectiveWriterLimit (frontierPolicy input) (frontierLimits input) = Inr w \<and>
      admitted plan = map taskRefOf (admitMembers byTask
        (max 0 (maxActive input - int (length (filter (\<lambda>m. memberState m = ActiveM) (frontierMembers input)))))
        w members)"
    and "\<not> applied input \<Longrightarrow> admitted plan = []"
proof -
  from assms(1) have c: "checkFrontierMembers members = Inr ()"
    by (auto simp: planAppliedTaskFrontier_def err_simps Let_def members_def)
  note ok = checkFrontier_ok [OF c]
  have perm: "mset members = mset (frontierMembers input)" by (simp add: members_def)
  have keyed: "keyed refTask members = byTask"
    unfolding byTask_def using keyed_perm [OF ok(1) perm] by simp
  have "mset (map refTask members) = mset (map refTask (frontierMembers input))" using perm by simp
  with ok(1) show "distinct (map refTask (frontierMembers input))" by (metis mset_eq_imp_distinct_iff)
  show "\<And>m d. m \<in> set (frontierMembers input) \<Longrightarrow> d \<in> set (dependencyTasks m) \<Longrightarrow> byTask d \<noteq> None"
    using ok(2) by (auto simp: byTask_def members_def keyed_None)
  have "length (filter P members) = length (filter P (frontierMembers input))" for P
    unfolding members_def by (metis mset_filter mset_sort size_mset)
  then show "applied input \<Longrightarrow> \<exists>w. effectiveWriterLimit (frontierPolicy input) (frontierLimits input) = Inr w \<and>
      admitted plan = map taskRefOf (admitMembers byTask
        (max 0 (maxActive input - int (length (filter (\<lambda>m. memberState m = ActiveM) (frontierMembers input)))))
        w members)"
    using assms(1) keyed by (auto simp: planAppliedTaskFrontier_def err_simps Let_def members_def)
  show "\<not> applied input \<Longrightarrow> admitted plan = []"
    using assms(1) by (auto simp: planAppliedTaskFrontier_def err_simps Let_def)
qed

end
