(* ===== verification/SchedulerProperties.thy ===== *)
theory SchedulerProperties
  imports SchedulerFacts
begin

text \<open>
  The properties of scheduler.ts: what a frontier admits and when it is stuck, the ready batch,
  the reaction to failed siblings, and the end of every sequence of retries.
\<close>

section \<open>The admitted members of a frontier\<close>

definition admittedMembers :: "frontierInput \<Rightarrow> frontierPlan \<Rightarrow> frontierMember list" where
  "admittedMembers input plan =
     filter (\<lambda>m. taskRefOf m \<in> set (admitted plan)) (frontierMembers input)"

definition activeMembers :: "frontierInput \<Rightarrow> frontierMember list" where
  "activeMembers input = filter (\<lambda>m. memberState m = ActiveM) (frontierMembers input)"

lemma filter_image_mset:
  assumes "distinct ms" "distinct as" "set as \<subseteq> set ms" "inj_on f (set ms)"
  shows "mset (filter (\<lambda>m. f m \<in> f ` set as) ms) = mset as"
proof -
  have "set (filter (\<lambda>m. f m \<in> f ` set as) ms) = set as"
    using assms(3,4) by (auto dest: inj_onD)
  then show ?thesis using assms(1,2)
    by (subst set_eq_iff_mset_eq_distinct [symmetric]) simp_all
qed

lemma refTask_taskRefOf [simp]: "refTask (taskRefOf m) = refTask m" "refTask \<circ> taskRefOf = refTask"
  by (simp_all add: taskRefOf_def fun_eq_iff)

lemma taskRefOf_inj: "distinct (map refTask ms) \<Longrightarrow> inj_on taskRefOf (set ms)"
  by (auto simp: distinct_map taskRefOf_def inj_on_def)

lemma admitted_loop:
  assumes "planAppliedTaskFrontier input = Inr plan" and "applied input"
  obtains w as where "effectiveWriterLimit (frontierPolicy input) (frontierLimits input) = Inr w"
    and "as = admitMembers (keyed refTask (frontierMembers input))
      (max 0 (maxActive input - int (length (activeMembers input)))) w (sort_key refTask (frontierMembers input))"
    and "admitted plan = map taskRefOf as" and "mset (admittedMembers input plan) = mset as"
    and "distinct (map refTask as)"
proof -
  obtain w where w: "effectiveWriterLimit (frontierPolicy input) (frontierLimits input) = Inr w"
    and a: "admitted plan = map taskRefOf (admitMembers (keyed refTask (frontierMembers input))
      (max 0 (maxActive input - int (length (activeMembers input)))) w (sort_key refTask (frontierMembers input)))"
      (is "_ = map _ ?as")
    using frontier_accepted(3) [OF assms] unfolding activeMembers_def by blast
  note d = frontier_accepted(1) [OF assms(1)]
  have "mset (map refTask (sort_key refTask (frontierMembers input))) = mset (map refTask (frontierMembers input))"
    by simp
  with d have "distinct (map refTask (sort_key refTask (frontierMembers input)))"
    by (metis mset_eq_imp_distinct_iff)
  then have das: "distinct (map refTask ?as)" by (rule admit_distinct)
  have "set ?as \<subseteq> set (frontierMembers input)" by (auto dest: admit_eligible)
  then have "mset (admittedMembers input plan) = mset ?as"
    using filter_image_mset [OF _ _ _ taskRefOf_inj [OF d]] d das
    by (simp add: admittedMembers_def a distinct_map)
  with that [OF w refl a _ das] show thesis by blast
qed

lemma mset_filter_length: "mset xs = mset ys \<Longrightarrow> length (filter P xs) = length (filter P ys)"
  by (metis mset_filter size_mset)

lemma eligible_iff:
  assumes "distinct (map refTask ms)"
  shows "eligible (keyed refTask ms) m \<longleftrightarrow> memberState m = PendingM \<and>
    (\<forall>d\<in>set (dependencyTasks m). \<exists>x\<in>set ms. refTask x = d \<and> memberState x \<in> {CompletedM, SupersededM})"
proof -
  have "releasedBy (keyed refTask ms) d \<longleftrightarrow> (\<exists>x\<in>set ms. refTask x = d \<and> memberState x \<in> {CompletedM, SupersededM})" for d
  proof (cases "keyed refTask ms d")
    case None
    then have "d \<notin> refTask ` set ms" by (simp add: keyed_None)
    with None show ?thesis by (auto simp: releasedBy_def)
  next
    case (Some x)
    then have "\<And>y. y \<in> set ms \<and> refTask y = d \<longleftrightarrow> y = x"
      using keyed_Some_iff [OF assms, of d] by (metis option.inject)
    then have "(\<exists>y\<in>set ms. refTask y = d \<and> memberState y \<in> {CompletedM, SupersededM}) \<longleftrightarrow>
        memberState x \<in> {CompletedM, SupersededM}" by metis
    with Some show ?thesis by (simp add: releasedBy_def)
  qed
  then show ?thesis by (simp add: eligible_def)
qed

section \<open>Properties\<close>

text \<open>
  C21. Every task a frontier admits is a pending member of the applied set whose dependencies are
  all completed or superseded, and each is admitted once. The admitted and the active members
  together never exceed the frontier's maximum (unless more were active before), and the admitted
  members that may write to the repository never exceed the writer limit of policy, supervisor,
  host and durable capacity. Nothing is admitted before the task set is applied.
\<close>

theorem frontier_admission:
  assumes "planAppliedTaskFrontier input = Inr plan"
  shows "distinct (map refTask (admitted plan)) \<and>
    set (admitted plan) = taskRefOf ` set (admittedMembers input plan) \<and>
    (\<forall>m\<in>set (admittedMembers input plan). memberState m = PendingM \<and>
      (\<forall>d\<in>set (dependencyTasks m). \<exists>x\<in>set (frontierMembers input).
        refTask x = d \<and> memberState x \<in> {CompletedM, SupersededM})) \<and>
    int (length (admitted plan)) \<le> max 0 (maxActive input - int (length (activeMembers input))) \<and>
    (\<forall>w. effectiveWriterLimit (frontierPolicy input) (frontierLimits input) = Inr w \<longrightarrow>
      int (length (writers (admittedMembers input plan))) \<le> w) \<and>
    (\<not> applied input \<longrightarrow> admitted plan = [])"
proof (cases "applied input")
  case False
  then show ?thesis
    using frontier_accepted(4) [OF assms False] effectiveWriterLimit_eq_Inr
    by (auto simp: admittedMembers_def)
next
  case True
  from assms True obtain w as where w: "effectiveWriterLimit (frontierPolicy input) (frontierLimits input) = Inr w"
    and as: "as = admitMembers (keyed refTask (frontierMembers input))
      (max 0 (maxActive input - int (length (activeMembers input)))) w (sort_key refTask (frontierMembers input))"
    and plan: "admitted plan = map taskRefOf as" "mset (admittedMembers input plan) = mset as" "distinct (map refTask as)"
    by (rule admitted_loop)
  note el = eligible_iff [OF frontier_accepted(1) [OF assms]]
  have "set (admittedMembers input plan) = set as" using plan(2) by (rule mset_eq_setD)
  moreover have "\<And>m. m \<in> set as \<Longrightarrow> eligible (keyed refTask (frontierMembers input)) m"
    unfolding as by (blast dest: admit_eligible)
  moreover have "int (length (writers as)) \<le> w"
    unfolding as using effectiveWriterLimit_eq_Inr [OF w] by (intro admit_writers) simp
  moreover have "int (length as) \<le> max 0 (maxActive input - int (length (activeMembers input)))"
    unfolding as by (intro admit_capacity) simp
  ultimately show ?thesis
    using plan w True mset_filter_length [OF plan(2), of writer] by (auto simp: el)
qed

lemma frontier_conserves:
  assumes "planAppliedTaskFrontier input = Inr plan" and "applied input"
    and "m \<in> set (frontierMembers input)" "memberState m = PendingM"
    and "\<forall>d\<in>set (dependencyTasks m). \<exists>x\<in>set (frontierMembers input).
      refTask x = d \<and> memberState x \<in> {CompletedM, SupersededM}"
    and "taskRefOf m \<notin> set (admitted plan)"
  shows "maxActive input \<le> int (length (activeMembers input)) + int (length (admitted plan)) \<or>
    memberChanges m \<noteq> ChangesForbidden \<and>
    effectiveWriterLimit (frontierPolicy input) (frontierLimits input) =
      Inr (int (length (writers (admittedMembers input plan))))"
proof -
  from assms(1,2) obtain w as where w: "effectiveWriterLimit (frontierPolicy input) (frontierLimits input) = Inr w"
    and as: "as = admitMembers (keyed refTask (frontierMembers input))
      (max 0 (maxActive input - int (length (activeMembers input)))) w (sort_key refTask (frontierMembers input))"
    and plan: "admitted plan = map taskRefOf as" "mset (admittedMembers input plan) = mset as" "distinct (map refTask as)"
    by (rule admitted_loop)
  have "int (length as) = max 0 (maxActive input - int (length (activeMembers input))) \<or>
      writer m \<and> int (length (writers as)) = w"
    unfolding as
  proof (rule admit_conserves)
    show "m \<in> set (sort_key refTask (frontierMembers input))" using assms(3) by simp
    show "eligible (keyed refTask (frontierMembers input)) m"
      using eligible_iff [OF frontier_accepted(1) [OF assms(1)]] assms(4,5) by blast
    show "m \<notin> set (admitMembers (keyed refTask (frontierMembers input))
      (max 0 (maxActive input - int (length (activeMembers input)))) w (sort_key refTask (frontierMembers input)))"
      using assms(6) plan(1) unfolding as by auto
  qed (use effectiveWriterLimit_eq_Inr [OF w] in simp_all)
  then show ?thesis
    using plan w mset_filter_length [OF plan(2), of writer] by (auto simp: writer_def)
qed

text \<open>
  Admission wastes no capacity: a pending member whose dependencies are all completed or
  superseded is left out only when the active and admitted members fill the frontier's maximum,
  or the member may write and the admitted writers fill the writer limit.
\<close>

theorem frontier_work_conserving:
  assumes "planAppliedTaskFrontier input = Inr plan" and "applied input"
    and "m \<in> set (frontierMembers input)" "memberState m = PendingM"
    and "\<forall>d\<in>set (dependencyTasks m). \<exists>x\<in>set (frontierMembers input).
      refTask x = d \<and> memberState x \<in> {CompletedM, SupersededM}"
    and "taskRefOf m \<notin> set (admitted plan)"
  shows "maxActive input \<le> int (length (activeMembers input)) + int (length (admitted plan)) \<or>
    memberChanges m \<noteq> ChangesForbidden \<and>
    effectiveWriterLimit (frontierPolicy input) (frontierLimits input) =
      Inr (int (length (writers (admittedMembers input plan))))"
  by (rule frontier_conserves [OF assms])

definition waitsFor :: "frontierMember list \<Rightarrow> (frontierMember \<times> frontierMember) set" where
  "waitsFor ms = {(x, m). m \<in> set ms \<and> x \<in> set ms \<and> refTask x \<in> set (dependencyTasks m)}"

lemma finite_waitsFor: "finite (waitsFor ms)"
  by (rule finite_subset [of _ "set ms \<times> set ms"]) (auto simp: waitsFor_def)

text \<open>
  C27. A frontier is never stuck on its own: when its dependencies are acyclic, fewer members are
  active than the maximum and the writer limit is not zero, it admits a member unless every pending
  member waits, through its dependencies, for one that is active or has failed.
\<close>

theorem frontier_progress:
  assumes "planAppliedTaskFrontier input = Inr plan" and "applied input"
    and "acyclic (waitsFor (frontierMembers input))"
    and "int (length (activeMembers input)) < maxActive input"
    and "effectiveWriterLimit (frontierPolicy input) (frontierLimits input) = Inr w" and "w \<noteq> 0"
    and "m \<in> set (frontierMembers input)" "memberState m = PendingM" and "admitted plan = []"
  shows "\<exists>x. (x, m) \<in> (waitsFor (frontierMembers input))\<^sup>+ \<and> memberState x \<in> {ActiveM, FailedM}"
  using finite_acyclic_wf [OF finite_waitsFor assms(3)] assms(7,8)
proof (induction m rule: wf_induct_rule)
  case (less m)
  have empty: "admittedMembers input plan = []" using assms(9) by (simp add: admittedMembers_def)
  have "\<exists>d\<in>set (dependencyTasks m). \<forall>x\<in>set (frontierMembers input).
      refTask x = d \<longrightarrow> memberState x \<notin> {CompletedM, SupersededM}"
    using frontier_conserves [OF assms(1,2) less.prems] assms(4-6,9) empty by auto
  then obtain d where d: "d \<in> set (dependencyTasks m)"
    and nd: "\<And>x. x \<in> set (frontierMembers input) \<Longrightarrow> refTask x = d \<Longrightarrow> memberState x \<notin> {CompletedM, SupersededM}"
    by blast
  obtain x where "keyed refTask (frontierMembers input) d = Some x"
    using frontier_accepted(2) [OF assms(1) less.prems(1) d] by auto
  then have x: "x \<in> set (frontierMembers input)" "refTask x = d"
    using keyed_Some [of refTask "frontierMembers input" d x] by simp_all
  then have e: "(x, m) \<in> waitsFor (frontierMembers input)" using less.prems(1) d by (simp add: waitsFor_def)
  show ?case
  proof (cases "memberState x = PendingM")
    case True
    from less.IH [OF e x(1) True] obtain y where
      "(y, x) \<in> (waitsFor (frontierMembers input))\<^sup>+" "memberState y \<in> {ActiveM, FailedM}" by (elim exE conjE)
    with e show ?thesis by (meson trancl_into_trancl)
  next
    case False
    then have "memberState x \<in> {ActiveM, FailedM}" using nd [OF x] by (cases "memberState x") auto
    with e show ?thesis by blast
  qed
qed

section \<open>Retries\<close>

text \<open>The plans of successive retries, each on the ledger of the one before.\<close>

fun retries :: "nat \<Rightarrow> retryKind \<Rightarrow> retryExhaustion \<Rightarrow> budgetLedger \<Rightarrow> exn + retryPlan list" where
  "retries 0 kind exhaustion l = Inr []"
| "retries (Suc n) kind exhaustion l =
     bindE (planTaskRetry kind (encLedger l) exhaustion) (\<lambda>p.
     bindE (retries n kind exhaustion (retryLedger p)) (\<lambda>ps. Inr (p # ps)))"

definition remainingOf :: "budgetLedger \<Rightarrow> budgetUnit \<Rightarrow> nat" where
  "remainingOf l u = nat (limitOf l u - usedOf l u)"

lemma planTaskRetry_step:
  assumes "okLedger l" and "accounts l (retryUnit kind) \<noteq> None"
  obtains (retry) l' where "planTaskRetry kind (encLedger l) x = Inr \<lparr>retryAction = RetryA, retryLedger = l'\<rparr>"
      "okLedger l'" "accounts l' (retryUnit kind) \<noteq> None"
      "remainingOf l (retryUnit kind) = Suc (remainingOf l' (retryUnit kind))"
      "usedOf l' (retryUnit kind) = usedOf l (retryUnit kind) + 1"
    | (exhausted) "planTaskRetry kind (encLedger l) x = Inr \<lparr>retryAction = OnExhaustion x, retryLedger = l\<rparr>"
      "remainingOf l (retryUnit kind) = 0"
proof -
  have "1 \<le> maxSafe" by (simp add: maxSafe_def)
  note cases = consumeBudget_cases [OF assms(1) order_refl this, of "retryUnit kind"]
  show thesis
  proof (cases "consumeBudget (encLedger l) (encConsumption (retryUnit kind) 1)")
    case (Inl e)
    with cases assms(2) show thesis by simp
  next
    case (Inr c)
    show thesis
    proof (cases c)
      case (Consumed l' c')
      then obtain k where k: "accounts l (retryUnit kind) = Some k" "counterUsed k + 1 \<le> counterLimit k"
        "c' = k\<lparr>counterUsed := counterUsed k + 1\<rparr>" "accounts l' = (accounts l)(retryUnit kind \<mapsto> c')" "okLedger l'"
        using cases Inr by auto
      show thesis
        by (rule retry [of l'])
          (use k Inr Consumed assms in \<open>auto simp: planTaskRetry_def ledgers.dec_enc remainingOf_def limitOf_def usedOf_def\<close>)
    next
      case (Exhausted l' c' f)
      then show thesis
        using cases Inr assms
        by (intro exhausted) (auto simp: planTaskRetry_def ledgers.dec_enc remainingOf_def limitOf_def usedOf_def)
    qed
  qed
qed

text \<open>
  Retrying ends: for a configured unit with \<open>r\<close> consumptions left, the first \<open>r\<close> plans retry,
  each consuming one, and every plan after them is the exhaustion action on an unchanged ledger.
\<close>

theorem retries_end:
  assumes "createBudgetLedger v = Inr l" and "accounts l (retryUnit kind) \<noteq> None"
  shows "\<exists>ps. retries n kind x l = Inr ps \<and>
    map retryAction ps = replicate (min n (remainingOf l (retryUnit kind))) RetryA @
      replicate (n - remainingOf l (retryUnit kind)) (OnExhaustion x) \<and>
    (\<forall>i < n. usedOf (retryLedger (ps ! i)) (retryUnit kind) =
      usedOf l (retryUnit kind) + int (min (Suc i) (remainingOf l (retryUnit kind))))"
  using ledgers.dec_ok [OF assms(1)] assms(2)
proof (induction n arbitrary: l)
  case (Suc n)
  from Suc.prems show ?case
  proof (cases rule: planTaskRetry_step [where x = x])
    case (retry l')
    from Suc.IH [OF retry(2,3)] obtain ps where "retries n kind x l' = Inr ps"
      "map retryAction ps = replicate (min n (remainingOf l' (retryUnit kind))) RetryA @
        replicate (n - remainingOf l' (retryUnit kind)) (OnExhaustion x)"
      "\<forall>i < n. usedOf (retryLedger (ps ! i)) (retryUnit kind) =
        usedOf l' (retryUnit kind) + int (min (Suc i) (remainingOf l' (retryUnit kind)))" by blast
    then show ?thesis
      by (intro exI [of _ "\<lparr>retryAction = RetryA, retryLedger = l'\<rparr> # ps"])
        (simp add: retry(1,4,5) All_less_Suc2)
  next
    case exhausted
    from Suc.IH [OF Suc.prems] obtain ps where "retries n kind x l = Inr ps"
      "map retryAction ps = replicate (min n (remainingOf l (retryUnit kind))) RetryA @
        replicate (n - remainingOf l (retryUnit kind)) (OnExhaustion x)"
      "\<forall>i < n. usedOf (retryLedger (ps ! i)) (retryUnit kind) =
        usedOf l (retryUnit kind) + int (min (Suc i) (remainingOf l (retryUnit kind)))" by blast
    then show ?thesis
      by (intro exI [of _ "\<lparr>retryAction = OnExhaustion x, retryLedger = l\<rparr> # ps"])
        (simp add: exhausted All_less_Suc2)
  qed
qed simp

section \<open>Batches and failures\<close>

lemma take_sort_key:
  fixes f :: "'a \<Rightarrow> 'b :: linorder"
  assumes "x \<in> set xs" and "x \<notin> set (take n (sort_key f xs))"
  shows "length (take n (sort_key f xs)) = n \<and> (\<forall>y\<in>set (take n (sort_key f xs)). f y \<le> f x)"
proof -
  have "x \<in> set (take n (sort_key f xs) @ drop n (sort_key f xs))" using assms(1) by simp
  then have d: "x \<in> set (drop n (sort_key f xs))" using assms(2) by (simp only: set_append) blast
  have "sorted (map f (take n (sort_key f xs) @ drop n (sort_key f xs)))"
    by (simp only: append_take_drop_id) simp
  then have "sorted (map f (take n (sort_key f xs)) @ map f (drop n (sort_key f xs)))"
    by (simp only: map_append)
  with d have le: "\<forall>y\<in>set (take n (sort_key f xs)). f y \<le> f x"
    unfolding sorted_append by (auto simp only: set_map)
  have "n < length (sort_key f xs)" using d by (metis drop_all leI list.distinct(1) set_empty2 emptyE)
  then show ?thesis using le by simp
qed

lemma readyTaskOf_eq_Inr: "readyTaskOf t = Inr t' \<Longrightarrow> t' = t"
  by (auto simp: readyTaskOf_def err_simps)

lemma readyEffectOf_eq_Inr: "readyEffectOf x = Inr x' \<Longrightarrow> x' = x"
  by (auto simp: readyEffectOf_def err_simps)

definition memberFor :: "taskRef \<Rightarrow> siblingFact \<Rightarrow> batchMember" where
  "memberFor t x = taskRef.extend t \<lparr>memberOperation = siblingOperation x\<rparr>"

lemma batchMember_set:
  assumes "distinct (map refTask ts)"
  shows "m \<in> set (concat (map (batchMemberOf ts) xs)) \<longleftrightarrow>
    (\<exists>t\<in>set ts. \<exists>x\<in>set xs. siblingStatus x = QueuedR \<and> siblingTask x = refTask t \<and> m = memberFor t x)"
proof -
  have "m \<in> set (batchMemberOf ts x) \<longleftrightarrow>
      (\<exists>t\<in>set ts. siblingStatus x = QueuedR \<and> siblingTask x = refTask t \<and> m = memberFor t x)" for x
  proof (cases "keyed refTask ts (siblingTask x)")
    case None
    then have "siblingTask x \<notin> refTask ` set ts" by (simp add: keyed_None)
    with None show ?thesis by (auto simp: batchMemberOf_def)
  next
    case (Some t)
    then have "\<And>y. y \<in> set ts \<and> refTask y = siblingTask x \<longleftrightarrow> y = t"
      using keyed_Some_iff [OF assms, of "siblingTask x"] by (metis option.inject)
    then have "(\<exists>y\<in>set ts. siblingStatus x = QueuedR \<and> siblingTask x = refTask y \<and> m = memberFor y x) \<longleftrightarrow>
        siblingStatus x = QueuedR \<and> m = memberFor t x" by metis
    with Some show ?thesis by (auto simp: batchMemberOf_def memberFor_def)
  qed
  then show ?thesis by (simp only: set_concat set_map) blast
qed

text \<open>
  A batch holds queued operations of ready tasks only, at the generation of the ready fact, at
  most as many as the writer limit, and it takes them in order: a queued operation of a ready task
  is left out only when the batch is full and every member comes before it.
\<close>

theorem ready_batch:
  assumes "planReadySiblingBatch p l tasks effects = Inr (n, ms)"
  shows "effectiveWriterLimit p l = Inr n \<and> int (length ms) \<le> n \<and> sorted (map batchOrder ms) \<and>
    (\<forall>m\<in>set ms. \<exists>t\<in>set tasks. \<exists>x\<in>set effects.
      siblingStatus x = QueuedR \<and> siblingTask x = refTask t \<and> m = memberFor t x) \<and>
    (\<forall>t\<in>set tasks. \<forall>x\<in>set effects. siblingStatus x = QueuedR \<and> siblingTask x = refTask t \<longrightarrow>
      memberFor t x \<in> set ms \<or>
      int (length ms) = n \<and> (\<forall>m\<in>set ms. batchOrder m \<le> batchOrder (memberFor t x)))"
proof -
  from assms obtain ts xs where n: "effectiveWriterLimit p l = Inr n"
    and ts: "uniqueBy refTask readyTaskOf TypeError tasks = Inr ts"
    and xs: "uniqueBy siblingOperation readyEffectOf TypeError effects = Inr xs"
    and ms: "ms = take (nat n) (sort_key batchOrder (concat (map (batchMemberOf ts) xs)))"
    by (auto simp: planReadySiblingBatch_def err_simps)
  have ts': "ts = tasks" "distinct (map refTask tasks)" using uniqueBy_id [OF ts readyTaskOf_eq_Inr] by simp_all
  have xs': "xs = effects" using uniqueBy_id [OF xs readyEffectOf_eq_Inr] by simp
  note M = batchMember_set [OF ts'(2), of _ effects]
  have pos: "0 \<le> n" using effectiveWriterLimit_eq_Inr [OF n] by simp
  have "sorted (map batchOrder ms)" unfolding ms by (simp add: sorted_wrt_take take_map [symmetric])
  moreover have "\<exists>t\<in>set tasks. \<exists>x\<in>set effects.
      siblingStatus x = QueuedR \<and> siblingTask x = refTask t \<and> m = memberFor t x" if "m \<in> set ms" for m
  proof -
    from that have "m \<in> set (concat (map (batchMemberOf tasks) effects))"
      unfolding ms ts'(1) xs' by (metis in_set_takeD set_sort)
    then show ?thesis unfolding M .
  qed
  moreover have "memberFor t x \<in> set ms \<or>
      int (length ms) = n \<and> (\<forall>m\<in>set ms. batchOrder m \<le> batchOrder (memberFor t x))"
    if "t \<in> set tasks" "x \<in> set effects" "siblingStatus x = QueuedR" "siblingTask x = refTask t" for t x
  proof -
    have "memberFor t x \<in> set (concat (map (batchMemberOf tasks) effects))" unfolding M using that by blast
    from take_sort_key [OF this, of "nat n" batchOrder] show ?thesis using pos by (auto simp: ms ts'(1) xs')
  qed
  ultimately show ?thesis using n pos by (simp add: ms)
qed

lemma uniqueE_error:
  assumes "uniqueE f clash dup seen xs = Inl e" and "\<And>x e. f x = Inl e \<Longrightarrow> e = dup"
  shows "e = dup"
  using assms(1)
proof (induction xs arbitrary: seen)
  case (Cons x xs)
  then show ?case using assms(2) by (cases "f x") (auto simp: bindE_eq_Inl split: if_splits)
qed simp

lemma frontier_error:
  assumes "planAppliedTaskFrontier input = Inl e"
  shows "e = TypeError"
proof -
  have "e = TypeError" if "checkFrontierMembers ms = Inl e" for ms e
    using that by (auto simp: checkFrontierMembers_def bindE_eq_Inl requireE_eq_Inl uniqueBy_def
        frontierMemberOf_def validateIdentity_def validateGeneration_def dest!: uniqueE_error)
  moreover have "e = TypeError" if "effectiveWriterLimit p l = Inl e" for p l e
    using that by (auto simp: effectiveWriterLimit_def bindE_eq_Inl requireE_eq_Inl Let_def
        validateExecutionPolicy_def validateLimit_def split: if_splits)
  ultimately show ?thesis using assms
    by (auto simp: planAppliedTaskFrontier_def bindE_eq_Inl requireE_eq_Inl validateLimit_def Let_def
        split: if_splits)
qed

text \<open>
  Plans do not depend on the order in which the facts are reported: a frontier with its members
  permuted gives the same plan or the same error, and so do sibling facts permuted.
\<close>

theorem plans_order_independent:
  assumes "mset members = mset (frontierMembers input)"
    and "mset siblings = mset siblings'" and "distinct (map siblingOrder siblings)"
  shows "planAppliedTaskFrontier (input\<lparr>frontierMembers := members\<rparr>) = planAppliedTaskFrontier input \<and>
    planFailurePolicyActions policy siblings = planFailurePolicyActions policy siblings'"
proof
  have "sort_key siblingOrder siblings = sort_key siblingOrder siblings'"
    using assms(2,3) by (intro sort_key_perm_eq) (auto simp: distinct_map)
  then show "planFailurePolicyActions policy siblings = planFailurePolicyActions policy siblings'"
    by (simp add: planFailurePolicyActions_def)
  show "planAppliedTaskFrontier (input\<lparr>frontierMembers := members\<rparr>) = planAppliedTaskFrontier input"
  proof (cases "distinct (map refTask members)")
    case True
    then have "sort_key refTask members = sort_key refTask (frontierMembers input)"
      using assms(1) by (intro sort_key_perm_eq) (auto simp: distinct_map)
    then show ?thesis by (simp add: planAppliedTaskFrontier_def Let_def)
  next
    case False
    have "mset (map refTask members) = mset (map refTask (frontierMembers input))" using assms(1) by simp
    with False have "\<not> distinct (map refTask (frontierMembers input))" by (metis mset_eq_imp_distinct_iff)
    with False have "planAppliedTaskFrontier i = Inl TypeError"
      if "i = input \<or> i = input\<lparr>frontierMembers := members\<rparr>" for i
      using that frontier_accepted(1) [of i] frontier_error by (cases "planAppliedTaskFrontier i") fastforce+
    then show ?thesis by simp
  qed
qed

section \<open>A closed example\<close>

text \<open>Three tasks in a chain: the first is completed, the second can start.\<close>

definition demoPolicy3 :: executionPolicy where
  "demoPolicy3 = \<lparr>workspaceMode = lit ''worktree'', maxWriterConcurrency = 2,
     failurePolicy = lit ''fail-fast''\<rparr>"

definition demoLimits3 :: schedulerLimits where
  "demoLimits3 = \<lparr>supervisorWriterLimit = 1, hostWriterLimit = 4, availableDurableWriterCapacity = 3\<rparr>"

definition demoMember :: "string \<Rightarrow> string list \<Rightarrow> memberState \<Rightarrow> frontierMember" where
  "demoMember t ds s = \<lparr>refTask = lit t, refGeneration = 1, dependencyTasks = map lit ds,
     memberState = s, memberChanges = ChangesRequired\<rparr>"

definition demoFrontier :: frontierInput where
  "demoFrontier = \<lparr>applied = True, maxActive = 2, frontierPolicy = demoPolicy3, frontierLimits = demoLimits3,
     frontierMembers = [demoMember ''c'' [''b''] PendingM, demoMember ''b'' [''a''] PendingM,
       demoMember ''a'' [] CompletedM]\<rparr>"

definition demoPlan :: frontierPlan where
  "demoPlan = \<lparr>effectiveTaskSet = map (\<lambda>t. \<lparr>refTask = lit t, refGeneration = 1\<rparr>) [''a'', ''b'', ''c''],
     admitted = [\<lparr>refTask = lit ''b'', refGeneration = 1\<rparr>], blockedByApplication = False, complete = False\<rparr>"

lemma demo_frontier: "planAppliedTaskFrontier demoFrontier = Inr demoPlan"
  by code_simp

lemma demo_limit: "effectiveWriterLimit demoPolicy3 demoLimits3 = Inr 1"
  by code_simp

theorem frontier_admission_witness:
  "planAppliedTaskFrontier demoFrontier = Inr demoPlan \<and>
   set (admitted demoPlan) = taskRefOf ` set (admittedMembers demoFrontier demoPlan)"
  using frontier_admission [OF demo_frontier] demo_frontier by blast

theorem frontier_work_conserving_witness:
  "planAppliedTaskFrontier (demoFrontier\<lparr>maxActive := 1, frontierMembers := [demoMember ''a'' [] PendingM,
     demoMember ''b'' [] PendingM]\<rparr>) = Inr (demoPlan\<lparr>effectiveTaskSet := [\<lparr>refTask = lit ''a'', refGeneration = 1\<rparr>,
       \<lparr>refTask = lit ''b'', refGeneration = 1\<rparr>], admitted := [\<lparr>refTask = lit ''a'', refGeneration = 1\<rparr>]\<rparr>) \<and>
   (1 :: int) \<le> 0 + 1"
proof -
  let ?i = "demoFrontier\<lparr>maxActive := 1, frontierMembers := [demoMember ''a'' [] PendingM,
     demoMember ''b'' [] PendingM]\<rparr>"
  let ?p = "demoPlan\<lparr>effectiveTaskSet := [\<lparr>refTask = lit ''a'', refGeneration = 1\<rparr>,
       \<lparr>refTask = lit ''b'', refGeneration = 1\<rparr>], admitted := [\<lparr>refTask = lit ''a'', refGeneration = 1\<rparr>]\<rparr>"
  have p: "planAppliedTaskFrontier ?i = Inr ?p" by code_simp
  have "maxActive ?i \<le> int (length (activeMembers ?i)) + int (length (admitted ?p)) \<or>
    memberChanges (demoMember ''b'' [] PendingM) \<noteq> ChangesForbidden \<and>
    effectiveWriterLimit (frontierPolicy ?i) (frontierLimits ?i) = Inr (int (length (writers (admittedMembers ?i ?p))))"
    by (rule frontier_work_conserving [OF p])
      (simp_all add: demoFrontier_def demoPlan_def demoMember_def taskRefOf_def)
  moreover have "maxActive ?i = 1" "activeMembers ?i = []" "length (admitted ?p) = 1"
    by (simp_all add: activeMembers_def demoMember_def)
  ultimately show ?thesis using p by simp
qed

theorem frontier_progress_witness:
  "\<exists>x. (x, demoMember ''b'' [''a''] PendingM) \<in> (waitsFor [demoMember ''b'' [''a''] PendingM, demoMember ''a'' [] FailedM])\<^sup>+ \<and>
     memberState x \<in> {ActiveM, FailedM}"
proof -
  let ?ms = "[demoMember ''b'' [''a''] PendingM, demoMember ''a'' [] FailedM]"
  let ?i = "demoFrontier\<lparr>frontierMembers := ?ms\<rparr>"
  let ?p = "demoPlan\<lparr>effectiveTaskSet := [\<lparr>refTask = lit ''a'', refGeneration = 1\<rparr>,
       \<lparr>refTask = lit ''b'', refGeneration = 1\<rparr>], admitted := []\<rparr>"
  have p: "planAppliedTaskFrontier ?i = Inr ?p" by code_simp
  have "waitsFor ?ms = {(demoMember ''a'' [] FailedM, demoMember ''b'' [''a''] PendingM)}"
    by (auto simp: waitsFor_def demoMember_def)
  moreover have "acyclic ({} :: (frontierMember \<times> frontierMember) set)" by (simp add: acyclic_def)
  ultimately have a: "acyclic (waitsFor (frontierMembers ?i))"
    by (simp add: acyclic_insert) (simp add: demoMember_def)
  have l: "effectiveWriterLimit (frontierPolicy ?i) (frontierLimits ?i) = Inr 1"
    using demo_limit by (simp add: demoFrontier_def)
  have "\<exists>x. (x, demoMember ''b'' [''a''] PendingM) \<in> (waitsFor (frontierMembers ?i))\<^sup>+ \<and>
      memberState x \<in> {ActiveM, FailedM}"
    by (rule frontier_progress [OF p _ a _ l])
      (simp_all add: demoFrontier_def demoMember_def activeMembers_def)
  then show ?thesis by simp
qed

definition demoRetryLedger :: budgetLedger where
  "demoRetryLedger = \<lparr>counters = [\<lparr>counterUnit = DispatchFailure, counterLimit = 3, counterUsed = 1\<rparr>],
     appliedAllowances = []\<rparr>"

theorem retries_end_witness:
  "\<exists>ps. retries 3 DispatchFailureRetry EscalateX demoRetryLedger = Inr ps \<and>
     map retryAction ps = [RetryA, RetryA, OnExhaustion EscalateX]"
proof -
  have "okLedger demoRetryLedger" by (simp add: okLedger_def okCounter_def demoRetryLedger_def maxSafe_def)
  then have c: "createBudgetLedger (encLedger demoRetryLedger) = Inr demoRetryLedger" by (rule ledgers.dec_enc)
  have r: "accounts demoRetryLedger (retryUnit DispatchFailureRetry) \<noteq> None"
    "remainingOf demoRetryLedger (retryUnit DispatchFailureRetry) = 2"
    by (simp_all add: accounts_def demoRetryLedger_def retryUnit_def remainingOf_def limitOf_def usedOf_def)
  show ?thesis using retries_end [OF c r(1), of 3 EscalateX] by (auto simp: r(2) numeral_eq_Suc)
qed

theorem ready_batch_witness:
  "\<exists>ms. planReadySiblingBatch demoPolicy3 demoLimits3 [\<lparr>refTask = lit ''t'', refGeneration = 2\<rparr>]
     [\<lparr>siblingTask = lit ''t'', siblingOperation = lit ''o'', siblingStatus = QueuedR\<rparr>] = Inr (1, ms) \<and> length ms \<le> 1"
proof -
  have b: "planReadySiblingBatch demoPolicy3 demoLimits3 [\<lparr>refTask = lit ''t'', refGeneration = 2\<rparr>]
      [\<lparr>siblingTask = lit ''t'', siblingOperation = lit ''o'', siblingStatus = QueuedR\<rparr>] =
      Inr (1, [\<lparr>refTask = lit ''t'', refGeneration = 2, memberOperation = lit ''o''\<rparr>])"
    by code_simp
  show ?thesis using ready_batch [OF b] b by auto
qed

theorem plans_order_independent_witness:
  "planAppliedTaskFrontier (demoFrontier\<lparr>frontierMembers := rev (frontierMembers demoFrontier)\<rparr>) = Inr demoPlan"
  using plans_order_independent [of "rev (frontierMembers demoFrontier)" demoFrontier "[]" "[]"] demo_frontier
  by simp

end
