(* ===== verification/FencedRunner.thy ===== *)
theory FencedRunner
  imports RunnerAuthority
begin

text \<open>
  packages/runtime/src/runner.ts, class \<open>FencedRunner\<close>: one pass over the transitions a snapshot
  allows, against a runner authority and an effect host. Both are interfaces in the source and
  records of functions here, over a state of their own (\<open>'a\<close> and \<open>'h\<close>): \<open>memoryPort\<close> is the in-memory
  authority as such a record, the host is a parameter. \<open>message e\<close> is the message of an error as
  \<open>unknownObservation\<close> reports it.
\<close>

record 'a authorityPort =
  portLoad :: "'a \<Rightarrow> runOnceInput \<Rightarrow> exn + authoritySnapshot"
  portAssertLease :: "'a \<Rightarrow> runOnceInput \<Rightarrow> exn + unit"
  portClaim :: "'a \<Rightarrow> runOnceInput \<Rightarrow> effectIntent \<Rightarrow> taskScopeFence \<Rightarrow> (exn + claimResult) \<times> 'a"
  portPersist :: "'a \<Rightarrow> runOnceInput \<Rightarrow> queuedCommand \<Rightarrow> (exn + persistResult) \<times> 'a"
  portCommit :: "'a \<Rightarrow> runOnceInput \<Rightarrow> effectIntent \<Rightarrow> observation \<Rightarrow> (exn + effectOutcome) \<times> 'a"

record 'h effectHost =
  hostDispatch :: "'h \<Rightarrow> effectIntent \<Rightarrow> runnerLease \<Rightarrow> (exn + observation) \<times> 'h"
  hostInspect :: "'h \<Rightarrow> effectIntent \<Rightarrow> runnerLease \<Rightarrow> (exn + inspection) \<times> 'h"
  hostCancel :: "'h \<Rightarrow> effectIntent \<Rightarrow> runnerLease \<Rightarrow> (exn + observation) \<times> 'h"

definition memoryPort :: "faultPoint set \<Rightarrow> authority authorityPort" where
  "memoryPort faults = \<lparr>
     portLoad = (\<lambda>a input. bindE (requiredRun a (inRepository input) (inRun input)) (\<lambda>run. Inr (loadRun run))),
     portAssertLease = assertLease,
     portClaim = claimEffectAttempt,
     portPersist = persistIntent faults,
     portCommit = commitEffect faults\<rparr>"

datatype runResult = EscalatedR runnerEscalation | CapacityUnavailableR capacityReservation int
  | CommittedR effectOutcome

record preparedAttempt =
  prepIntent :: effectIntent
  prepAction :: attemptOrigin
  prepEffect :: effectRecord

datatype preparedResult = AttemptP preparedAttempt | ResultP runResult | SkipP

section \<open>Observing an effect\<close>

definition isFenceError :: "exn \<Rightarrow> bool" where
  "isFenceError e \<longleftrightarrow> e = StaleLeaseFence"

definition inspectionToObservation :: "inspection \<Rightarrow> exn + observation" where
  "inspectionToObservation x =
     (let seen = (\<lambda>s. Inr \<lparr>obsStatus = s, obsAt = insAt x, obsDetails = insDetails x,
        obsOutput = insOutput x, obsUsage = insUsage x\<rparr>)
      in case insStatus x of InspectMissing \<Rightarrow> Inl TypeError
       | InspectCompleted \<Rightarrow> seen Completed | InspectActive \<Rightarrow> seen Active
       | InspectCancelled \<Rightarrow> seen Cancelled | InspectUnknown \<Rightarrow> seen UnknownS)"

definition reasonObservation :: "effectStatus \<Rightarrow> jstr \<Rightarrow> (jstr \<times> val) list \<Rightarrow> observation" where
  "reasonObservation s at details = \<lparr>obsStatus = s, obsAt = at, obsDetails = Some (Obj details),
     obsOutput = None, obsUsage = None\<rparr>"

definition unknownObservation :: "(exn \<Rightarrow> jstr) \<Rightarrow> jstr \<Rightarrow> string \<Rightarrow> exn \<Rightarrow> observation" where
  "unknownObservation message at reason e = reasonObservation UnknownS at
     [(lit ''reason'', Str (lit reason)), (lit ''message'', Str (message e))]"

text \<open>\<open>this.authority.assertLease(input)\<close> before a call of the host.\<close>

definition leased ::
  "'a authorityPort \<Rightarrow> 'a \<Rightarrow> runOnceInput \<Rightarrow> ('h \<Rightarrow> (exn + 'b) \<times> 'h) \<Rightarrow> 'h \<Rightarrow> (exn + 'b) \<times> 'h" where
  "leased port a input call h = (case portAssertLease port a input of
     Inl e \<Rightarrow> (Inl e, h) | Inr _ \<Rightarrow> call h)"

definition inspectAfterLostResponse ::
  "(exn \<Rightarrow> jstr) \<Rightarrow> 'a authorityPort \<Rightarrow> 'h effectHost \<Rightarrow> 'a \<Rightarrow> runOnceInput \<Rightarrow> effectIntent \<Rightarrow> exn \<Rightarrow> 'h \<Rightarrow>
     (exn + observation) \<times> 'h" where
  "inspectAfterLostResponse message port host a input i dispatchError h =
     (let lost = Inr (unknownObservation message (inTime input) ''effect-response-lost'' dispatchError) in
      case leased port a input (\<lambda>h. hostInspect host h i (inLease input)) h of
        (Inl e, h') \<Rightarrow> if isFenceError e then (Inl e, h') else (lost, h')
      | (Inr x, h') \<Rightarrow> if insStatus x \<noteq> InspectMissing then (inspectionToObservation x, h') else (lost, h'))"

text \<open>A call that changes the world, with the inspection that follows when its response is lost.\<close>

definition callOrInspect ::
  "(exn \<Rightarrow> jstr) \<Rightarrow> 'a authorityPort \<Rightarrow> 'h effectHost \<Rightarrow> 'a \<Rightarrow> runOnceInput \<Rightarrow> effectIntent \<Rightarrow>
     ('h \<Rightarrow> effectIntent \<Rightarrow> runnerLease \<Rightarrow> (exn + observation) \<times> 'h) \<Rightarrow> 'h \<Rightarrow> (exn + observation) \<times> 'h" where
  "callOrInspect message port host a input i call h =
     (case leased port a input (\<lambda>h. call h i (inLease input)) h of
        (Inl e, h') \<Rightarrow> if isFenceError e then (Inl e, h')
          else inspectAfterLostResponse message port host a input i e h'
      | (Inr x, h') \<Rightarrow> (Inr x, h'))"

definition settlementObservation :: "effectRecord \<Rightarrow> jstr \<Rightarrow> observation" where
  "settlementObservation r now = (case recOutcome r of
     None \<Rightarrow> reasonObservation Cancelled now [(lit ''reason'', Str (lit ''deadline-reached-before-dispatch''))]
   | Some out \<Rightarrow> reasonObservation FailedS now
       [(lit ''reason'', Str (lit (if cancellationRequired r now
           then ''cancellation-reconciliation-limit-reached'' else ''reconciliation-limit-reached''))),
        (lit ''previousStatus'', Str (lit (statusText (outStatus out))))])"

definition observeClaimedAction ::
  "(exn \<Rightarrow> jstr) \<Rightarrow> 'a authorityPort \<Rightarrow> 'h effectHost \<Rightarrow> 'a \<Rightarrow> runOnceInput \<Rightarrow> attemptOrigin \<Rightarrow> effectRecord \<Rightarrow>
     jstr \<Rightarrow> 'h \<Rightarrow> (exn + observation) \<times> 'h" where
  "observeClaimedAction message port host a input action r currentContext h =
     (let i = recIntent r in
      case action of
        Dispatch \<Rightarrow> callOrInspect message port host a input i (hostDispatch host) h
      | Cancellation \<Rightarrow> callOrInspect message port host a input i (hostCancel host) h
      | Settlement \<Rightarrow> (Inr (settlementObservation r (inTime input)), h)
      | Inspection \<Rightarrow>
          (case leased port a input (\<lambda>h. hostInspect host h i (inLease input)) h of
             (Inl e, h') \<Rightarrow> if isFenceError e then (Inl e, h')
               else (Inr (unknownObservation message (inTime input) ''inspect-threw'' e), h')
           | (Inr x, h') \<Rightarrow>
               if insStatus x \<noteq> InspectMissing then (inspectionToObservation x, h')
               else if cmdContext (intCommand i) \<noteq> currentContext
               then (Inr (reasonObservation Cancelled (inTime input)
                 [(lit ''reason'', Str (lit ''stale-context-before-dispatch''))]), h')
               else callOrInspect message port host a input i (hostDispatch host) h'))"

section \<open>Preparing plans\<close>

definition claimPlan ::
  "'a authorityPort \<Rightarrow> authoritySnapshot \<Rightarrow> runOnceInput \<Rightarrow> effectIntent \<Rightarrow> 'a \<Rightarrow> (exn + preparedResult) \<times> 'a" where
  "claimPlan port snap input i a =
     (let scope = (case find (\<lambda>s. sameTaskScope s (cmdScope (intCommand i))) (snapScopes snap) of
         None \<Rightarrow> cmdScope (intCommand i) | Some s \<Rightarrow> taskScopeFenceOf s) in
      case portClaim port a input i scope of
        (Inl e, a') \<Rightarrow> (Inl e, a')
      | (Inr Busy, a') \<Rightarrow> (Inr SkipP, a')
      | (Inr (Fenced _), a') \<Rightarrow> (Inr SkipP, a')
      | (Inr (Replay out), a') \<Rightarrow> (Inr (ResultP (CommittedR out)), a')
      | (Inr (Claimed action r), a') \<Rightarrow>
          (Inr (AttemptP \<lparr>prepIntent = i, prepAction = action, prepEffect = r\<rparr>), a'))"

definition preparePlan ::
  "'a authorityPort \<Rightarrow> authoritySnapshot \<Rightarrow> runOnceInput \<Rightarrow> runnerPlan \<Rightarrow> 'a \<Rightarrow> (exn + preparedResult) \<times> 'a" where
  "preparePlan port snap input plan a =
     (case plan of
        Start c \<Rightarrow> (case portPersist port a input c of
            (Inl e, a') \<Rightarrow> (Inl e, a')
          | (Inr (Escalated esc), a') \<Rightarrow> (Inr (ResultP (EscalatedR esc)), a')
          | (Inr (CapacityUnavailable r n), a') \<Rightarrow> (Inr (ResultP (CapacityUnavailableR r n)), a')
          | (Inr (Persisted i), a') \<Rightarrow> claimPlan port snap input i a')
      | Reconcile r \<Rightarrow> claimPlan port snap input (recIntent r) a)"

text \<open>The first loop of \<open>runBatch\<close>: the attempts and results so far.\<close>

fun prepareAll ::
  "'a authorityPort \<Rightarrow> authoritySnapshot \<Rightarrow> runOnceInput \<Rightarrow> preparedAttempt list \<Rightarrow> runResult list \<Rightarrow>
     runnerPlan list \<Rightarrow> 'a \<Rightarrow> (exn + preparedAttempt list \<times> runResult list) \<times> 'a" where
  "prepareAll port snap input prepared results [] a = (Inr (prepared, results), a)"
| "prepareAll port snap input prepared results (p # ps) a =
     (case preparePlan port snap input p a of
        (Inl e, a') \<Rightarrow> (Inl e, a')
      | (Inr (AttemptP x), a') \<Rightarrow> prepareAll port snap input (prepared @ [x]) results ps a'
      | (Inr (ResultP r), a') \<Rightarrow> prepareAll port snap input prepared (results @ [r]) ps a'
      | (Inr SkipP, a') \<Rightarrow> prepareAll port snap input prepared results ps a')"

section \<open>Executing prepared attempts\<close>

definition executeAttempt ::
  "(exn \<Rightarrow> jstr) \<Rightarrow> 'a authorityPort \<Rightarrow> 'h effectHost \<Rightarrow> runOnceInput \<Rightarrow> preparedAttempt \<Rightarrow> 'a \<Rightarrow> 'h \<Rightarrow>
     (exn + effectOutcome) \<times> 'a \<times> 'h" where
  "executeAttempt message port host input x a h =
     (case observeClaimedAction message port host a input (prepAction x) (prepEffect x)
         (cmdContext (intCommand (recIntent (prepEffect x)))) h of
        (Inl e, h') \<Rightarrow> (Inl e, a, h')
      | (Inr seen, h') \<Rightarrow> (case portCommit port a input (prepIntent x) seen of (res, a') \<Rightarrow> (res, a', h')))"

text \<open>The second loop, with the results and the errors collected so far.\<close>

fun executeAll ::
  "(exn \<Rightarrow> jstr) \<Rightarrow> 'a authorityPort \<Rightarrow> 'h effectHost \<Rightarrow> runOnceInput \<Rightarrow> runResult list \<Rightarrow> exn list \<Rightarrow>
     preparedAttempt list \<Rightarrow> 'a \<Rightarrow> 'h \<Rightarrow> (runResult list \<times> exn list) \<times> 'a \<times> 'h" where
  "executeAll message port host input results errors [] a h = ((results, errors), a, h)"
| "executeAll message port host input results errors (x # xs) a h =
     (case executeAttempt message port host input x a h of
        (Inl e, a', h') \<Rightarrow> executeAll message port host input results (errors @ [e]) xs a' h'
      | (Inr out, a', h') \<Rightarrow> executeAll message port host input (results @ [CommittedR out]) errors xs a' h')"

definition validateRunOnceInput :: "runOnceInput \<Rightarrow> exn + unit" where
  "validateRunOnceInput input =
     (if inRepository input = [] \<or> inRun input = [] \<or> inAttempt input = [] then Inl TypeError
      else if leaseOwner (inLease input) = [] \<or> \<not> isSafe (leaseFence (inLease input)) \<or>
        leaseFence (inLease input) < 1 then Inl TypeError
      else if \<not> validTimestamp (inTime input) then Inl TypeError
      else if \<not> validTimestamp (leaseExpires (inLease input)) then Inl TypeError
      else if timeGe (inTime input) (leaseExpires (inLease input)) then Inl TypeError
      else Inr ())"

definition runBatch ::
  "(exn \<Rightarrow> jstr) \<Rightarrow> 'a authorityPort \<Rightarrow> 'h effectHost \<Rightarrow> runOnceInput \<Rightarrow> int \<Rightarrow> 'a \<Rightarrow> 'h \<Rightarrow>
     (exn + runResult list) \<times> 'a \<times> 'h" where
  "runBatch message port host input maxTransitions a h =
     (case bindE (validateRunOnceInput input) (\<lambda>_.
           if \<not> validBatchLimit maxTransitions then Inl TypeError
           else bindE (portLoad port a input) (\<lambda>snap.
             bindE (scheduleRunnerTransitions snap (inTime input) maxTransitions) (\<lambda>plans. Inr (snap, plans)))) of
        Inl e \<Rightarrow> (Inl e, a, h)
      | Inr (snap, plans) \<Rightarrow>
          (case prepareAll port snap input [] [] plans a of
             (Inl e, a') \<Rightarrow> (Inl e, a', h)
           | (Inr (prepared, results), a') \<Rightarrow>
               (case executeAll message port host input results [] prepared a' h of
                  ((results', errors), a'', h') \<Rightarrow>
                    ((case errors of [] \<Rightarrow> Inr results' | [e] \<Rightarrow> Inl e | _ \<Rightarrow> Inl AggregateError), a'', h'))))"

definition runOnce ::
  "(exn \<Rightarrow> jstr) \<Rightarrow> 'a authorityPort \<Rightarrow> 'h effectHost \<Rightarrow> runOnceInput \<Rightarrow> 'a \<Rightarrow> 'h \<Rightarrow>
     (exn + runResult option) \<times> 'a \<times> 'h" where
  "runOnce message port host input a h = (case runBatch message port host input 1 a h of
     (res, a', h') \<Rightarrow> (bindE res (\<lambda>rs. Inr (case rs of [] \<Rightarrow> None | r # _ \<Rightarrow> Some r)), a', h'))"

end
