(* ===== verification/FencedRunnerFacts.thy ===== *)
theory FencedRunnerFacts
  imports FencedRunner RunnerHistory
begin

text \<open>
  What \<open>FencedRunner\<close> relies on from an authority, as the locale \<open>fenced_port\<close>, and what follows for
  a batch over any host: it only moves the authority along its own steps, it claims every operation
  at most once, and what it reports as committed is recorded. The in-memory authority is the
  interpretation \<open>memory\<close>. The calls of the host are observed through \<open>traced\<close>, a host that logs them.
\<close>

section \<open>The interface\<close>

abbreviation operationOf :: "effectIntent \<Rightarrow> jstr" where
  "operationOf i \<equiv> cmdOperation (intCommand i)"

text \<open>A batch is refused, fails while it prepares, or executes what it prepared.\<close>

lemma runBatch_cases:
  assumes "runBatch message port host input n a h = (res, b, h')"
  obtains (refused) e where "res = Inl e" "b = a" "h' = h"
  | (unprepared) snap plans e where "prepareAll port snap input [] [] plans a = (Inl e, b)" "res = Inl e" "h' = h"
  | (executed) snap plans xs rs m rs' es where "prepareAll port snap input [] [] plans a = (Inr (xs, rs), m)"
      "executeAll message port host input rs [] xs m h = ((rs', es), b, h')"
      "res = (case es of [] \<Rightarrow> Inr rs' | [e] \<Rightarrow> Inl e | _ \<Rightarrow> Inl AggregateError)"
proof (cases "bindE (validateRunOnceInput input) (\<lambda>_.
           if \<not> validBatchLimit n then Inl TypeError
           else bindE (portLoad port a input) (\<lambda>snap.
             bindE (scheduleRunnerTransitions snap (inTime input) n) (\<lambda>plans. Inr (snap, plans))))")
  case (Inl e)
  then show thesis using assms refused by (auto simp: runBatch_def)
next
  case (Inr sp)
  obtain snap plans where sp: "sp = (snap, plans)" by (cases sp)
  obtain p m where p: "prepareAll port snap input [] [] plans a = (p, m)"
    by (cases "prepareAll port snap input [] [] plans a")
  note step = assms [unfolded runBatch_def Inr sp sum.case prod.case p]
  show thesis
  proof (cases p)
    case (Inl e)
    then show thesis using step p by (intro unprepared) auto
  next
    case (Inr xr)
    obtain xs rs where xr: "xr = (xs, rs)" by (cases xr)
    obtain rs' es a'' h'' where e: "executeAll message port host input rs [] xs m h = ((rs', es), a'', h'')"
      by (metis prod.exhaust)
    show thesis using step p e by (intro executed) (auto simp: Inr xr)
  qed
qed

locale fenced_port =
  fixes port :: "'a authorityPort"
    and valid :: "'a \<Rightarrow> bool"
    and steps :: "'a \<Rightarrow> 'a \<Rightarrow> bool"
    and claimed :: "'a \<Rightarrow> runOnceInput \<Rightarrow> jstr \<Rightarrow> bool"
    and recorded :: "'a \<Rightarrow> runOnceInput \<Rightarrow> effectOutcome \<Rightarrow> bool"
  assumes steps_refl: "steps a a"
    and steps_trans: "steps a b \<Longrightarrow> steps b c \<Longrightarrow> steps a c"
    and steps_valid: "steps a b \<Longrightarrow> valid a \<Longrightarrow> valid b"
    and steps_recorded: "steps a b \<Longrightarrow> valid a \<Longrightarrow> recorded a input out \<Longrightarrow> recorded b input out"
    and claim_steps: "portClaim port a input i s = (res, b) \<Longrightarrow> steps a b"
    and persist_steps: "portPersist port a input cmd = (stored, b) \<Longrightarrow> steps a b"
    and commit_steps: "portCommit port a input i seen = (committed, b) \<Longrightarrow> steps a b"
    and claim_held: "portClaim port a input i s = (res, b) \<Longrightarrow> claimed a input k \<Longrightarrow> claimed b input k"
    and persist_held: "portPersist port a input cmd = (stored, b) \<Longrightarrow> claimed a input k \<Longrightarrow> claimed b input k"
    and claim_fresh: "valid a \<Longrightarrow> portClaim port a input i s = (Inr (Claimed action r), b) \<Longrightarrow>
      \<not> claimed a input (operationOf i) \<and> claimed b input (operationOf i) \<and> operationOf (recIntent r) = operationOf i"
    and claim_recorded: "valid a \<Longrightarrow> portClaim port a input i s = (Inr (Replay out), b) \<Longrightarrow> recorded b input out"
    and commit_recorded: "valid a \<Longrightarrow> portCommit port a input i seen = (Inr out, b) \<Longrightarrow> recorded b input out"
begin

definition reports :: "'a \<Rightarrow> runOnceInput \<Rightarrow> runResult list \<Rightarrow> bool" where
  "reports a input rs \<longleftrightarrow> (\<forall>out. CommittedR out \<in> set rs \<longrightarrow> recorded a input out)"

lemma reports_steps: "reports a input rs \<Longrightarrow> steps a b \<Longrightarrow> valid a \<Longrightarrow> reports b input rs"
  using steps_recorded unfolding reports_def by blast

lemma claimPlan_law:
  assumes "claimPlan port snap input i a = (res, b)" "valid a"
  shows "steps a b" "claimed a input k \<Longrightarrow> claimed b input k"
    "res = Inr (ResultP r) \<Longrightarrow> reports b input [r]"
    "res = Inr (AttemptP x) \<Longrightarrow> \<not> claimed a input (operationOf (prepIntent x)) \<and>
      claimed b input (operationOf (prepIntent x)) \<and>
      operationOf (recIntent (prepEffect x)) = operationOf (prepIntent x)"
proof -
  define s where "s = (case find (\<lambda>s. sameTaskScope s (cmdScope (intCommand i))) (snapScopes snap) of
         None \<Rightarrow> cmdScope (intCommand i) | Some s \<Rightarrow> taskScopeFenceOf s)"
  obtain p m where pm: "portClaim port a input i s = (p, m)" by (cases "portClaim port a input i s")
  note step = assms(1) [unfolded claimPlan_def Let_def s_def [symmetric] pm prod.case]
  have mb: "m = b" using step by (cases p) (auto split: claimResult.splits)
  note p = pm [unfolded mb]
  have res: "(case p of Inl e \<Rightarrow> res = Inl e | Inr Busy \<Rightarrow> res = Inr SkipP | Inr (Fenced _) \<Rightarrow> res = Inr SkipP
      | Inr (Replay out) \<Rightarrow> res = Inr (ResultP (CommittedR out))
      | Inr (Claimed action r) \<Rightarrow> res = Inr (AttemptP \<lparr>prepIntent = i, prepAction = action, prepEffect = r\<rparr>))"
    using step by (cases p) (auto split: claimResult.splits)
  show "steps a b" by (rule claim_steps [OF p])
  show "claimed a input k \<Longrightarrow> claimed b input k" by (rule claim_held [OF p])
  show "res = Inr (ResultP r) \<Longrightarrow> reports b input [r]"
    using res claim_recorded [OF assms(2)] p by (auto simp: reports_def split: sum.splits claimResult.splits)
  show "res = Inr (AttemptP x) \<Longrightarrow> \<not> claimed a input (operationOf (prepIntent x)) \<and>
      claimed b input (operationOf (prepIntent x)) \<and>
      operationOf (recIntent (prepEffect x)) = operationOf (prepIntent x)"
    using res claim_fresh [OF assms(2)] p by (auto split: sum.splits claimResult.splits)
qed

lemma preparePlan_law:
  assumes "preparePlan port snap input plan a = (res, b)" "valid a"
  shows "steps a b" "claimed a input k \<Longrightarrow> claimed b input k"
    "res = Inr (ResultP r) \<Longrightarrow> reports b input [r]"
    "res = Inr (AttemptP x) \<Longrightarrow> \<not> claimed a input (operationOf (prepIntent x)) \<and>
      claimed b input (operationOf (prepIntent x)) \<and>
      operationOf (recIntent (prepEffect x)) = operationOf (prepIntent x)"
proof -
  have *: "steps a b \<and> (claimed a input k \<longrightarrow> claimed b input k) \<and> (\<forall>r. res = Inr (ResultP r) \<longrightarrow> reports b input [r]) \<and>
    (\<forall>x. res = Inr (AttemptP x) \<longrightarrow> \<not> claimed a input (operationOf (prepIntent x)) \<and>
      claimed b input (operationOf (prepIntent x)) \<and>
      operationOf (recIntent (prepEffect x)) = operationOf (prepIntent x))" for k
  proof (cases plan)
    case (Reconcile r)
    with assms(1) have "claimPlan port snap input (recIntent r) a = (res, b)" by (simp add: preparePlan_def)
    from claimPlan_law [OF this assms(2)] show ?thesis by blast
  next
    case (Start c)
    obtain stored m where m: "portPersist port a input c = (stored, m)" by (cases "portPersist port a input c")
    note p = persist_steps [OF m] persist_held [OF m]
    show ?thesis
    proof (cases "\<exists>i. stored = Inr (Persisted i)")
      case True
      then obtain i where "stored = Inr (Persisted i)" by blast
      with assms(1) Start m have "claimPlan port snap input i m = (res, b)" by (simp add: preparePlan_def)
      note c = claimPlan_law [OF this steps_valid [OF p(1) assms(2)]]
      show ?thesis using c p steps_trans by blast
    next
      case False
      then have "b = m \<and> (\<exists>r. res = Inr (ResultP r) \<and> (\<forall>out. r \<noteq> CommittedR out) \<or> (\<exists>e. res = Inl e))"
        using assms(1) Start m
        by (auto simp: preparePlan_def split: sum.splits persistResult.splits)
      then show ?thesis using p by (auto simp: reports_def)
    qed
  qed
  show "steps a b" "claimed a input k \<Longrightarrow> claimed b input k"
    "res = Inr (ResultP r) \<Longrightarrow> reports b input [r]"
    "res = Inr (AttemptP x) \<Longrightarrow> \<not> claimed a input (operationOf (prepIntent x)) \<and>
      claimed b input (operationOf (prepIntent x)) \<and>
      operationOf (recIntent (prepEffect x)) = operationOf (prepIntent x)"
    using * by blast+
qed

definition preparedOk :: "'a \<Rightarrow> runOnceInput \<Rightarrow> preparedAttempt list \<Rightarrow> bool" where
  "preparedOk a input xs \<longleftrightarrow> distinct (map (operationOf \<circ> prepIntent) xs) \<and>
     (\<forall>x\<in>set xs. claimed a input (operationOf (prepIntent x)) \<and>
       operationOf (recIntent (prepEffect x)) = operationOf (prepIntent x))"

lemma prepareAll_law:
  assumes "prepareAll port snap input prepared results plans a = (res, b)" "valid a"
    and "preparedOk a input prepared" "reports a input results"
  shows "steps a b \<and> (\<forall>xs rs. res = Inr (xs, rs) \<longrightarrow> preparedOk b input xs \<and> reports b input rs)"
  using assms
proof (induction plans arbitrary: a prepared results)
  case Nil
  then show ?case by (auto intro: steps_refl)
next
  case (Cons plan plans)
  obtain p m where p: "preparePlan port snap input plan a = (p, m)" by (cases "preparePlan port snap input plan a")
  note law = preparePlan_law [OF p Cons.prems(2)]
  have ok: "valid m" "preparedOk m input prepared" "reports m input results"
    using steps_valid [OF law(1) Cons.prems(2)] Cons.prems(3) law(2)
      reports_steps [OF Cons.prems(4) law(1) Cons.prems(2)] by (auto simp: preparedOk_def)
  show ?case
  proof (cases p)
    case (Inl e)
    then show ?thesis using Cons.prems(1) p law(1) by auto
  next
    case (Inr q)
    show ?thesis
    proof (cases q)
      case SkipP
      then show ?thesis using Cons.IH [OF _ ok] Cons.prems(1) p Inr law(1) by (auto intro: steps_trans)
    next
      case (ResultP r)
      then have "reports m input (results @ [r])" using law(3) Inr ok(3) by (auto simp: reports_def)
      from Cons.IH [OF _ ok(1,2) this] show ?thesis
        using Cons.prems(1) p Inr ResultP law(1) by (auto intro: steps_trans)
    next
      case (AttemptP x)
      with law(4) Inr have x: "\<not> claimed a input (operationOf (prepIntent x))"
        "claimed m input (operationOf (prepIntent x))" "operationOf (recIntent (prepEffect x)) = operationOf (prepIntent x)"
        by auto
      have "preparedOk m input (prepared @ [x])"
        using ok(2) x Cons.prems(3) by (auto simp: preparedOk_def)
      from Cons.IH [OF _ ok(1) this ok(3)] show ?thesis
        using Cons.prems(1) p Inr AttemptP law(1) by (auto intro: steps_trans)
    qed
  qed
qed

lemma executeAttempt_law:
  assumes "executeAttempt message port host input x a h = (res, b, h')" "valid a"
  shows "steps a b" "res = Inr out \<Longrightarrow> recorded b input out"
  using assms(1) commit_steps commit_recorded [OF assms(2)] steps_refl
  by (auto simp: executeAttempt_def split: prod.splits sum.splits)

lemma executeAll_law:
  assumes "executeAll message port host input results errors xs a h = ((rs, es), b, h')" "valid a"
    and "reports a input results"
  shows "steps a b \<and> reports b input rs"
  using assms
proof (induction xs arbitrary: a h results errors)
  case (Cons x xs)
  obtain res m hm where e: "executeAttempt message port host input x a h = (res, m, hm)"
    by (cases "executeAttempt message port host input x a h")
  note law = executeAttempt_law [OF e Cons.prems(2)]
  note m = steps_valid [OF law(1) Cons.prems(2)] reports_steps [OF Cons.prems(3) law(1) Cons.prems(2)]
  show ?case
  proof (cases res)
    case (Inl x)
    then show ?thesis using Cons.IH [OF _ m] Cons.prems(1) e law(1) by (auto intro: steps_trans)
  next
    case (Inr out)
    then have "reports m input (results @ [CommittedR out])" using law(2) m(2) by (auto simp: reports_def)
    from Cons.IH [OF _ m(1) this] show ?thesis using Cons.prems(1) e law(1) Inr by (auto intro: steps_trans)
  qed
qed (auto intro: steps_refl)

lemma prepared_distinct:
  assumes "prepareAll port snap input [] [] plans a = (Inr (xs, rs), m)" "valid a"
  shows "distinct (map (operationOf \<circ> recIntent \<circ> prepEffect) xs)"
proof -
  have "preparedOk a input []" "reports a input []" by (simp_all add: preparedOk_def reports_def)
  from prepareAll_law [OF assms this] have ok: "preparedOk m input xs" by blast
  then have eq: "map (operationOf \<circ> recIntent \<circ> prepEffect) xs = map (operationOf \<circ> prepIntent) xs"
    by (auto simp: preparedOk_def)
  show ?thesis unfolding eq using ok by (simp add: preparedOk_def)
qed

text \<open>A batch moves the authority along its steps, and reports only recorded outcomes.\<close>

lemma runBatch_law:
  assumes "runBatch message port host input n a h = (res, b, h')" "valid a"
  shows "steps a b" "res = Inr rs \<Longrightarrow> reports b input rs"
proof -
  have prep: "steps a m \<and> (\<forall>xs rs. p = Inr (xs, rs) \<longrightarrow> preparedOk m input xs \<and> reports m input rs)"
    if "prepareAll port snap input [] [] plans a = (p, m)" for p m snap plans
    by (rule prepareAll_law [OF that assms(2)]) (simp_all add: preparedOk_def reports_def)
  have "steps a b \<and> (\<forall>rs. res = Inr rs \<longrightarrow> reports b input rs)"
    using assms(1)
  proof (cases rule: runBatch_cases)
    case (refused e)
    then show ?thesis by (simp add: steps_refl)
  next
    case (unprepared snap plans e)
    then show ?thesis using prep by auto
  next
    case (executed snap plans xs rs m rs' es)
    have m: "steps a m" "reports m input rs" using prep [OF executed(1)] by auto
    have "steps m b \<and> reports b input rs'"
      by (rule executeAll_law [OF executed(2) steps_valid [OF m(1) assms(2)] m(2)])
    then show ?thesis using m(1) executed(3) steps_trans by (auto split: list.splits)
  qed
  then show "steps a b" "res = Inr rs \<Longrightarrow> reports b input rs" by blast+
qed

end

end
