(* ===== verification/FencedRunnerMemory.thy ===== *)
theory FencedRunnerMemory
  imports FencedRunnerFacts
begin

text \<open>
  The in-memory authority as a \<open>fenced_port\<close>: its methods are steps of the run they name, a claim
  is exclusive under a lease fence, and replayed and committed outcomes are in the attempt table.
\<close>

definition authorityValid :: "authority \<Rightarrow> bool" where
  "authorityValid a \<longleftrightarrow> (\<forall>k run. mapGet a k = Some run \<longrightarrow> (\<exists>base. coreOk base run))"

definition authoritySteps :: "authority \<Rightarrow> authority \<Rightarrow> bool" where
  "authoritySteps a b \<longleftrightarrow> (\<forall>k. rel_option runnerSteps (mapGet a k) (mapGet b k))"

definition claimedRun :: "runState \<Rightarrow> runOnceInput \<Rightarrow> jstr \<Rightarrow> bool" where
  "claimedRun run input k \<longleftrightarrow>
     (\<exists>c. mapGet (rsClaims run) k = Some c \<and> claimFence c = leaseFence (inLease input))"

definition recordedRun :: "runState \<Rightarrow> effectOutcome \<Rightarrow> bool" where
  "recordedRun run out \<longleftrightarrow> attemptOutcome run (outOperation out) (outAttempt out) = Some out"

definition authorityClaimed :: "authority \<Rightarrow> runOnceInput \<Rightarrow> jstr \<Rightarrow> bool" where
  "authorityClaimed a input k \<longleftrightarrow>
     (\<exists>run. requiredRun a (inRepository input) (inRun input) = Inr run \<and> claimedRun run input k)"

definition authorityRecorded :: "authority \<Rightarrow> runOnceInput \<Rightarrow> effectOutcome \<Rightarrow> bool" where
  "authorityRecorded a input out \<longleftrightarrow>
     (\<exists>run. requiredRun a (inRepository input) (inRun input) = Inr run \<and> recordedRun run out)"

lemma runnerSteps_trans: "runnerSteps b c \<Longrightarrow> runnerSteps a b \<Longrightarrow> runnerSteps a c"
  by (induction rule: runnerSteps.induct) (auto intro: runnerSteps.intros)

lemma requiredRun_eq_Inr: "requiredRun a r k = Inr run \<longleftrightarrow> mapGet a (runKey r k) = Some run"
  by (simp add: requiredRun_def split: option.split)

lemma authoritySteps_refl: "authoritySteps a a"
  by (simp add: authoritySteps_def option.rel_refl stepsNone)

lemma authoritySteps_trans: "authoritySteps a b \<Longrightarrow> authoritySteps b c \<Longrightarrow> authoritySteps a c"
  unfolding authoritySteps_def
  by (metis (no_types, opaque_lifting) option.rel_sel runnerSteps_trans)

text \<open>A method of the authority on the run it names.\<close>

lemma onRun_cases:
  assumes "onRun a r k f = (res, b)"
  obtains (missing) "b = a" "res = Inl TypeError" "mapGet a (runKey r k) = None"
  | (found) run run' where "mapGet a (runKey r k) = Some run" "f run = (res, run')" "b = mapSet (runKey r k) run' a"
  using assms by (auto simp: onRun_def requiredRun_def split: option.splits prod.splits)

lemma onRun_steps:
  assumes "onRun a r k f = (res, b)"
    and "\<And>run run'. f run = (res, run') \<Longrightarrow> run' = run \<or> runnerStep run run'"
  shows "authoritySteps a b"
  using assms(1)
proof (cases rule: onRun_cases)
  case (found run run')
  have "runnerSteps run run'" using assms(2) [OF found(2)] stepsMore [OF stepsNone] stepsNone by auto
  then show ?thesis using found(1,3) by (simp add: authoritySteps_def option.rel_refl stepsNone)
qed (simp add: authoritySteps_refl)

lemma claim_result:
  assumes "orSame run (claimEffectAttemptRun run input i s) = (res, run')"
  shows "run' = run \<and> (\<exists>e. res = Inl e) \<or>
    (\<exists>c. res = Inr c \<and> claimEffectAttemptRun run input i s = Inr (c, run'))"
  using assms by (auto simp: orSame_def split: sum.splits)

lemma settle_result:
  assumes "settle run m = (res, run')"
  shows "run' = run \<and> (\<exists>e. res = Inl e) \<or> m = Inr (res, run')"
  using assms by (auto simp: settle_def split: sum.splits)

lemma claim_keeps:
  assumes "claimEffectAttemptRun run input i s = Inr (c, run')" "claimedRun run input k"
  shows "claimedRun run' input k"
  using assms(1)
proof (cases rule: claimEffectAttemptRun_cases)
  case (2 action r)
  then show ?thesis using assms(2) by (auto simp: claimedRun_def)
qed (use assms(2) in simp)

lemma claim_new:
  assumes "coreOk base run" and "claimEffectAttemptRun run input i s = Inr (Claimed action r, run')"
  shows "\<not> claimedRun run input (operationOf i) \<and> claimedRun run' input (operationOf i) \<and>
    operationOf (recIntent r) = operationOf i"
proof -
  have free: "\<not> claimedRun run input (operationOf i)"
    using assms(2)
    by (auto simp: claimEffectAttemptRun_def bindE_eq_Inr Let_def claimedRun_def
        split: option.split_asm if_split_asm)
  from assms(2) show ?thesis
  proof (cases rule: claimEffectAttemptRun_cases)
    case (2 action' r')
    then have "mapGet (rsEffects run) (operationOf i) = Some r" using durableRecord_get by simp
    from coreOk_maps(7) [OF assms(1) this] free 2 show ?thesis
      by (simp add: recordOk_def Let_def claimedRun_def)
  qed blast
qed

lemma attempt_recorded:
  assumes "coreOk base run" "attemptOutcome run k a = Some out"
  shows "recordedRun run out"
  using assms by (auto simp: coreOk_def claimsOk_def recordedRun_def)

lemma terminal_recorded:
  assumes "coreOk base run" "mapGet (rsEffects run) k = Some r" "recOutcome r = Some out"
  shows "recordedRun run out"
  using coreOk_maps(7) [OF assms(1,2)] assms(3) by (simp add: recordOk_def Let_def recordedRun_def)

lemma claim_replay:
  assumes "coreOk base run" and "claimEffectAttemptRun run input i s = Inr (Replay out, run')"
  shows "recordedRun run' out"
proof -
  obtain r where r: "durableRecord run i = Inr r" and same: "run' = run"
    and "attemptOutcome run (operationOf i) (inAttempt input) = Some out \<or>
      isTerminalRecord r \<and> out = the (recOutcome r)"
    using assms(2) by (auto simp: claimEffectAttemptRun_def bindE_eq_Inr Let_def
        split: option.split_asm if_split_asm)
  then show ?thesis
    using attempt_recorded [OF assms(1)] terminal_recorded [OF assms(1) durableRecord_get [OF r]]
    by (auto simp: isTerminalRecord_def split: option.split_asm)
qed

lemma storeOutcome_recorded:
  assumes "(Inr out, run') = storeOutcome faults r x run"
  shows "recordedRun run' out"
proof -
  have "out = x" using assms by (auto simp: storeOutcome_def Let_def faulted_def split: if_split_asm)
  then show ?thesis using assms
    by (auto simp: storeOutcome_def Let_def transition_defs recordedRun_def attemptOutcome_def)
qed

lemma commit_recorded:
  assumes "coreOk base run" and "commitEffectRun faults input i seen run = Inr (Inr out, run')"
  shows "recordedRun run' out"
  using assms
proof (cases rule: commitEffectRun_cases)
  case (replay r out')
  then show ?thesis
    using attempt_recorded [OF assms(1)] terminal_recorded [OF assms(1) durableRecord_get [OF replay(3)]] by auto
next
  case (fresh r claim x usage b)
  then show ?thesis by (blast intro: storeOutcome_recorded)
qed

lemma persist_keeps:
  assumes "persistIntentRun faults input cmd run = Inr (res, run')"
  shows "rsClaims run' = rsClaims run"
  using assms
  by (cases rule: persistIntentRun_cases)
    (auto simp: escalate_def storeIntent_def Let_def transition_defs)

text \<open>Successful claims and commits, on the run they change.\<close>

lemma memory_claim:
  assumes "portClaim (memoryPort faults) a input i s = (Inr c, b)" "authorityValid a"
  obtains base run run' where "requiredRun a (inRepository input) (inRun input) = Inr run" "coreOk base run"
    "claimEffectAttemptRun run input i s = Inr (c, run')" "requiredRun b (inRepository input) (inRun input) = Inr run'"
proof -
  have "onRun a (inRepository input) (inRun input) (\<lambda>run. orSame run (claimEffectAttemptRun run input i s)) = (Inr c, b)"
    using assms(1) by (simp add: memoryPort_def claimEffectAttempt_def)
  then obtain run run' where run: "mapGet a (runKey (inRepository input) (inRun input)) = Some run"
    "orSame run (claimEffectAttemptRun run input i s) = (Inr c, run')"
    "b = mapSet (runKey (inRepository input) (inRun input)) run' a"
    by (cases rule: onRun_cases) auto
  moreover obtain base where "coreOk base run" using run(1) assms(2) unfolding authorityValid_def by blast
  ultimately show thesis using that [of run base run'] claim_result [OF run(2)] by (auto simp: requiredRun_eq_Inr)
qed

lemma memory_commit:
  assumes "portCommit (memoryPort faults) a input i seen = (Inr out, b)" "authorityValid a"
  obtains base run run' where "coreOk base run"
    "commitEffectRun faults input i seen run = Inr (Inr out, run')" "requiredRun b (inRepository input) (inRun input) = Inr run'"
proof -
  have "onRun a (inRepository input) (inRun input) (\<lambda>run. settle run (commitEffectRun faults input i seen run)) = (Inr out, b)"
    using assms(1) by (simp add: memoryPort_def commitEffect_def split: if_split_asm)
  then obtain run run' where run: "mapGet a (runKey (inRepository input) (inRun input)) = Some run"
    "settle run (commitEffectRun faults input i seen run) = (Inr out, run')"
    "b = mapSet (runKey (inRepository input) (inRun input)) run' a"
    by (cases rule: onRun_cases) auto
  moreover obtain base where "coreOk base run" using run(1) assms(2) unfolding authorityValid_def by blast
  ultimately show thesis using that [of base run run'] settle_result [OF run(2)] by (auto simp: requiredRun_eq_Inr)
qed

interpretation memory: fenced_port "memoryPort faults" authorityValid authoritySteps authorityClaimed
  authorityRecorded for faults
proof
  fix a b c :: authority and input i s res stored cmd seen committed k out action r
  show "authoritySteps a a" by (rule authoritySteps_refl)
  show "authoritySteps a b \<Longrightarrow> authoritySteps b c \<Longrightarrow> authoritySteps a c" by (rule authoritySteps_trans)
  show valid: "authoritySteps a b \<Longrightarrow> authorityValid a \<Longrightarrow> authorityValid b" for a b
    unfolding authorityValid_def authoritySteps_def
    by (metis option.rel_distinct(1) option.rel_inject(2) option.exhaust runnerSteps_ok)
  show "authoritySteps a b \<Longrightarrow> authorityValid a \<Longrightarrow> authorityRecorded a input out \<Longrightarrow> authorityRecorded b input out"
  proof -
    assume steps: "authoritySteps a b" and "authorityValid a" "authorityRecorded a input out"
    then obtain run base where run: "mapGet a (runKey (inRepository input) (inRun input)) = Some run"
      "recordedRun run out" "coreOk base run"
      unfolding authorityRecorded_def requiredRun_eq_Inr authorityValid_def by blast
    obtain run' where "mapGet b (runKey (inRepository input) (inRun input)) = Some run'" "runnerSteps run run'"
      using steps run(1) unfolding authoritySteps_def by (metis option_rel_Some1)
    then show "authorityRecorded b input out"
      using runnerSteps_extends [OF _ run(3)] run(2) extendsD(1)
      unfolding authorityRecorded_def requiredRun_eq_Inr recordedRun_def by blast
  qed
  show "portClaim (memoryPort faults) a input i s = (res, b) \<Longrightarrow> authoritySteps a b"
    by (auto simp: memoryPort_def claimEffectAttempt_def dest!: claim_result elim!: onRun_steps intro: stepClaim)
  show "portPersist (memoryPort faults) a input cmd = (stored, b) \<Longrightarrow> authoritySteps a b"
    by (auto simp: memoryPort_def persistIntent_def authoritySteps_refl dest!: settle_result
        elim!: onRun_steps intro: stepPersist split: if_split_asm)
  show "portCommit (memoryPort faults) a input i seen = (committed, b) \<Longrightarrow> authoritySteps a b"
    by (auto simp: memoryPort_def commitEffect_def authoritySteps_refl dest!: settle_result
        elim!: onRun_steps intro: stepCommit split: if_split_asm)
  show "portClaim (memoryPort faults) a input i s = (res, b) \<Longrightarrow> authorityClaimed a input k \<Longrightarrow> authorityClaimed b input k"
    by (auto simp: memoryPort_def claimEffectAttempt_def authorityClaimed_def requiredRun_eq_Inr
        elim!: onRun_cases dest!: claim_result dest: claim_keeps)
  show "portPersist (memoryPort faults) a input cmd = (stored, b) \<Longrightarrow> authorityClaimed a input k \<Longrightarrow> authorityClaimed b input k"
    by (auto simp: memoryPort_def persistIntent_def authorityClaimed_def requiredRun_eq_Inr claimedRun_def
        elim!: onRun_cases dest!: settle_result dest: persist_keeps split: if_split_asm)
  show "authorityValid a \<Longrightarrow> portClaim (memoryPort faults) a input i s = (Inr (Claimed action r), b) \<Longrightarrow>
      \<not> authorityClaimed a input (operationOf i) \<and> authorityClaimed b input (operationOf i) \<and>
      operationOf (recIntent r) = operationOf i"
    by (erule (1) memory_claim) (simp add: authorityClaimed_def claim_new)
  show "authorityValid a \<Longrightarrow> portClaim (memoryPort faults) a input i s = (Inr (Replay out), b) \<Longrightarrow> authorityRecorded b input out"
    by (erule (1) memory_claim) (simp add: authorityRecorded_def claim_replay)
  show "authorityValid a \<Longrightarrow> portCommit (memoryPort faults) a input i seen = (Inr out, b) \<Longrightarrow> authorityRecorded b input out"
    by (erule (1) memory_commit) (simp add: authorityRecorded_def commit_recorded)
qed

end
