(* ===== verification/FencedRunnerProperties.thy ===== *)
theory FencedRunnerProperties
  imports FencedRunnerMemory RunnerDemo
begin

text \<open>
  The properties of a batch of the fenced runner over any effect host: the calls it makes of the
  host, seen through a host that logs them, and what it leaves in the in-memory authority.
\<close>

section \<open>The calls of a host\<close>

datatype hostCall = DispatchCall effectIntent | InspectCall effectIntent "exn + inspection"
  | CancelCall effectIntent

fun callIntent :: "hostCall \<Rightarrow> effectIntent" where
  "callIntent (DispatchCall i) = i"
| "callIntent (InspectCall i x) = i"
| "callIntent (CancelCall i) = i"

definition traced :: "'h effectHost \<Rightarrow> ('h \<times> hostCall list) effectHost" where
  "traced host = \<lparr>
     hostDispatch = (\<lambda>(h, cs) i l. case hostDispatch host h i l of (res, h') \<Rightarrow> (res, h', cs @ [DispatchCall i])),
     hostInspect = (\<lambda>(h, cs) i l. case hostInspect host h i l of (res, h') \<Rightarrow> (res, h', cs @ [InspectCall i res])),
     hostCancel = (\<lambda>(h, cs) i l. case hostCancel host h i l of (res, h') \<Rightarrow> (res, h', cs @ [CancelCall i]))\<rparr>"

definition dispatches :: "jstr \<Rightarrow> hostCall list \<Rightarrow> nat" where
  "dispatches k cs = length (filter (\<lambda>c. \<exists>i. c = DispatchCall i \<and> operationOf i = k) cs)"

lemma dispatches_append [simp]: "dispatches k (xs @ ys) = dispatches k xs + dispatches k ys"
  by (simp add: dispatches_def)

text \<open>The calls an action may make: none without a live lease.\<close>

definition attemptCalls :: "hostCall \<Rightarrow> effectIntent \<Rightarrow> hostCall list set" where
  "attemptCalls c i = {[], [c]} \<union> {[c, InspectCall i x] | x. True}"

fun actionCalls :: "attemptOrigin \<Rightarrow> effectIntent \<Rightarrow> hostCall list set" where
  "actionCalls Dispatch i = attemptCalls (DispatchCall i) i"
| "actionCalls Cancellation i = attemptCalls (CancelCall i) i"
| "actionCalls Settlement i = {[]}"
| "actionCalls Inspection i = {[]} \<union> {[InspectCall i x] | x. True} \<union>
     {InspectCall i (Inr x) # cs | x cs. insStatus x = InspectMissing \<and> cs \<in> attemptCalls (DispatchCall i) i}"

definition logs :: "('h \<times> hostCall list \<Rightarrow> (exn + 'b) \<times> 'h \<times> hostCall list) \<Rightarrow> (exn + 'b \<Rightarrow> hostCall) \<Rightarrow> bool" where
  "logs call c \<longleftrightarrow> (\<forall>h cs res h' cs'. call (h, cs) = (res, h', cs') \<longrightarrow> cs' = cs @ [c res])"

lemma leased_calls:
  assumes "leased port a input call (h, cs) = (res, h', cs')" and "logs call c"
  shows "cs' = cs \<and> (\<exists>e. res = Inl e) \<and> portAssertLease port a input \<noteq> Inr () \<or>
    cs' = cs @ [c res] \<and> portAssertLease port a input = Inr ()"
  using assms by (auto simp: leased_def logs_def split: sum.splits)

lemma traced_calls:
  "logs (\<lambda>h. hostDispatch (traced host) h i l) (\<lambda>_. DispatchCall i)"
  "logs (\<lambda>h. hostInspect (traced host) h i l) (InspectCall i)"
  "logs (\<lambda>h. hostCancel (traced host) h i l) (\<lambda>_. CancelCall i)"
  by (auto simp: traced_def logs_def split: prod.splits)

lemma inspectAfter_calls:
  assumes "inspectAfterLostResponse message port (traced host) a input i e (h, cs) = (res, h', cs')"
  shows "cs' = cs \<or> (\<exists>x. cs' = cs @ [InspectCall i x] \<and> portAssertLease port a input = Inr ())"
proof -
  obtain seen h1 cs1 where s: "leased port a input (\<lambda>h. hostInspect (traced host) h i (inLease input)) (h, cs) = (seen, h1, cs1)"
    by (metis prod_cases3)
  have "cs1 = cs' " using assms by (auto simp: inspectAfterLostResponse_def Let_def s split: sum.splits if_splits)
  then show ?thesis using leased_calls [OF s traced_calls(2)] by blast
qed

lemma callOrInspect_calls:
  assumes "callOrInspect message port (traced host) a input i call (h, cs) = (res, h', cs')"
    and c: "logs (\<lambda>h. call h i (inLease input)) (\<lambda>_. c)"
  shows "\<exists>new. cs' = cs @ new \<and> new \<in> attemptCalls c i \<and> (new \<noteq> [] \<longrightarrow> portAssertLease port a input = Inr ())"
proof -
  obtain seen h1 cs1 where s: "leased port a input (\<lambda>h. call h i (inLease input)) (h, cs) = (seen, h1, cs1)"
    by (metis prod_cases3)
  note l = leased_calls [OF s c]
  show ?thesis
  proof (cases "\<exists>e. seen = Inl e \<and> \<not> isFenceError e")
    case True
    then obtain e where "inspectAfterLostResponse message port (traced host) a input i e (h1, cs1) = (res, h', cs')"
      using assms(1) by (auto simp: callOrInspect_def s)
    from inspectAfter_calls [OF this] l True show ?thesis by (auto simp: attemptCalls_def)
  next
    case False
    then have "cs1 = cs'" using assms(1) by (auto simp: callOrInspect_def s split: sum.splits if_splits)
    then show ?thesis using l by (auto simp: attemptCalls_def)
  qed
qed

lemma observe_calls:
  assumes "observeClaimedAction message port (traced host) a input action r ctx (h, cs) = (res, h', cs')"
  shows "\<exists>new. cs' = cs @ new \<and> new \<in> actionCalls action (recIntent r) \<and>
    (new \<noteq> [] \<longrightarrow> portAssertLease port a input = Inr ())"
proof (cases action)
  case Dispatch
  then show ?thesis using assms callOrInspect_calls [OF _ traced_calls(1)]
    by (auto simp: observeClaimedAction_def Let_def)
next
  case Cancellation
  then show ?thesis using assms callOrInspect_calls [OF _ traced_calls(3)]
    by (auto simp: observeClaimedAction_def Let_def)
next
  case Settlement
  then show ?thesis using assms by (simp add: observeClaimedAction_def Let_def)
next
  case Inspection
  obtain seen h1 cs1 where s: "leased port a input
      (\<lambda>h. hostInspect (traced host) h (recIntent r) (inLease input)) (h, cs) = (seen, h1, cs1)"
    by (metis prod_cases3)
  note l = leased_calls [OF s traced_calls(2)]
  show ?thesis
  proof (cases "\<exists>x. seen = Inr x \<and> insStatus x = InspectMissing \<and> cmdContext (intCommand (recIntent r)) = ctx")
    case True
    then obtain x where x: "seen = Inr x" "insStatus x = InspectMissing"
      "callOrInspect message port (traced host) a input (recIntent r) (hostDispatch (traced host)) (h1, cs1) = (res, h', cs')"
      using assms by (auto simp: observeClaimedAction_def Let_def Inspection s)
    have "cs1 = cs @ [InspectCall (recIntent r) (Inr x)]" "portAssertLease port a input = Inr ()"
      using l x(1) by auto
    with callOrInspect_calls [OF x(3) traced_calls(1)] x(2) Inspection show ?thesis by fastforce
  next
    case False
    then have "cs1 = cs'" using assms
      by (auto simp: observeClaimedAction_def Let_def Inspection s split: sum.splits if_splits)
    then show ?thesis using l Inspection by auto
  qed
qed

lemma distinct_filter_one:
  assumes "distinct (map f xs)"
  shows "length (filter (\<lambda>x. f x = k) xs) \<le> 1"
proof -
  have "set (filter (\<lambda>x. f x = k) xs) \<subseteq> {x. x \<in> set xs \<and> f x = k}" by auto
  moreover have "inj_on f (set xs)" using assms by (simp add: distinct_map)
  ultimately have "card (set (filter (\<lambda>x. f x = k) xs)) \<le> 1"
    by (intro card_le_Suc0_iff_eq [THEN iffD2, folded One_nat_def]) (auto dest: inj_onD)
  moreover have "distinct (filter (\<lambda>x. f x = k) xs)" using assms by (simp add: distinct_map)
  ultimately show ?thesis by (metis distinct_card)
qed

lemma actionCalls_dispatches:
  "cs \<in> actionCalls action i \<Longrightarrow> dispatches k cs \<le> (if operationOf i = k then 1 else 0)"
  by (cases action) (auto simp: attemptCalls_def dispatches_def)

lemma executeAll_dispatches:
  assumes "executeAll message port (traced host) input results errors xs a (h, cs) = (out, b, h', cs')"
  shows "\<exists>new. cs' = cs @ new \<and>
    dispatches k new \<le> length (filter (\<lambda>x. operationOf (recIntent (prepEffect x)) = k) xs)"
  using assms
proof (induction xs arbitrary: a h cs results errors)
  case (Cons x xs)
  obtain res m h1 cs1 where e: "executeAttempt message port (traced host) input x a (h, cs) = (res, m, h1, cs1)"
    by (metis prod_cases4)
  obtain seen h2 cs2 where o: "observeClaimedAction message port (traced host) a input (prepAction x) (prepEffect x)
      (cmdContext (intCommand (recIntent (prepEffect x)))) (h, cs) = (seen, h2, cs2)"
    by (metis prod_cases3)
  have "cs1 = cs2" using e by (auto simp: executeAttempt_def o split: sum.splits prod.splits)
  then obtain new where new: "cs1 = cs @ new" "new \<in> actionCalls (prepAction x) (recIntent (prepEffect x))"
    using observe_calls [OF o] by auto
  obtain results' errors' where "executeAll message port (traced host) input results' errors' xs m (h1, cs1) = (out, b, h', cs')"
    using Cons.prems e by (cases res) auto
  from Cons.IH [OF this] obtain more where "cs' = cs1 @ more"
    "dispatches k more \<le> length (filter (\<lambda>x. operationOf (recIntent (prepEffect x)) = k) xs)" by blast
  with new actionCalls_dispatches [OF new(2), of k] show ?case by (auto split: if_splits)
qed (simp add: dispatches_def)

section \<open>Properties\<close>

definition reachableAuthority :: "authority \<Rightarrow> bool" where
  "reachableAuthority a \<longleftrightarrow> (\<forall>k run. mapGet a k = Some run \<longrightarrow>
     (\<exists>run0. configured run0 \<and> runnerSteps run0 run))"

lemma reachable_valid: "reachableAuthority a \<Longrightarrow> authorityValid a"
  unfolding reachableAuthority_def authorityValid_def using runnerSteps_ok configured_ok(1) by blast

text \<open>
  C10. Whatever the effect host does, also when it throws, a batch of the fenced runner on the
  in-memory authority only takes steps of the authority: every run it leaves is reachable from the
  run it found, so every invariant of the authority holds during and after it. And each outcome it
  reports as committed is the recorded outcome of that attempt.
\<close>

theorem batch_refines:
  assumes "reachableAuthority a"
    and "runBatch message (memoryPort faults) host input n a h = (res, b, h')"
  shows "reachableAuthority b \<and>
    (\<forall>k run'. mapGet b k = Some run' \<longrightarrow> (\<exists>run. mapGet a k = Some run \<and> runnerSteps run run')) \<and>
    (\<forall>rs out. res = Inr rs \<and> CommittedR out \<in> set rs \<longrightarrow>
      (\<exists>run'. requiredRun b (inRepository input) (inRun input) = Inr run' \<and>
        attemptOutcome run' (outOperation out) (outAttempt out) = Some out))"
proof -
  note law = memory.runBatch_law [OF assms(2) reachable_valid [OF assms(1)]]
  have origin: "\<exists>run. mapGet a k = Some run \<and> runnerSteps run run'" if "mapGet b k = Some run'" for k run'
    using law(1) that unfolding authoritySteps_def by (metis option_rel_Some2)
  moreover have "reachableAuthority b"
    unfolding reachableAuthority_def
  proof (intro allI impI)
    fix k run' assume "mapGet b k = Some run'"
    from origin [OF this] obtain run where run: "mapGet a k = Some run" "runnerSteps run run'" by blast
    then obtain run0 where "configured run0" "runnerSteps run0 run"
      using assms(1) unfolding reachableAuthority_def by blast
    with run(2) show "\<exists>run0. configured run0 \<and> runnerSteps run0 run'" using runnerSteps_trans by blast
  qed
  moreover have "\<exists>run'. requiredRun b (inRepository input) (inRun input) = Inr run' \<and>
      attemptOutcome run' (outOperation out) (outAttempt out) = Some out"
    if "res = Inr rs" "CommittedR out \<in> set rs" for rs out
    using law(2) [OF that(1)] that(2)
    by (auto simp: memory.reports_def authorityRecorded_def recordedRun_def)
  ultimately show ?thesis by blast
qed

text \<open>
  C13. A batch dispatches an operation at most once, whatever the host answers: the calls it adds to
  the log of the host hold at most one dispatch per operation.
\<close>

theorem batch_dispatches_once:
  assumes "reachableAuthority a"
    and "runBatch message (memoryPort faults) (traced host) input n a (h, cs) = (res, b, h', cs')"
  shows "\<exists>new. cs' = cs @ new \<and> (\<forall>k. dispatches k new \<le> 1)"
  using assms(2)
proof (cases rule: runBatch_cases)
  case (executed snap plans xs rs m rs' es)
  note d = memory.prepared_distinct [OF executed(1) reachable_valid [OF assms(1)]]
  obtain new where new: "cs' = cs @ new" using executeAll_dispatches [OF executed(2)] by blast
  have "dispatches k new \<le> 1" for k
  proof -
    have "length (filter (\<lambda>x. operationOf (recIntent (prepEffect x)) = k) xs) \<le> 1"
      using distinct_filter_one [OF d, of k] by simp
    then show ?thesis using executeAll_dispatches [OF executed(2), of k] new by auto
  qed
  with new show ?thesis by blast
qed (simp_all add: dispatches_def)

text \<open>
  The comparison of the intent's context with the current one never stops a second dispatch: the
  runner passes the context digest of the intent itself, so an attempt whose inspection reports the
  effect missing is dispatched whatever context the run has accepted since.
\<close>

lemma context_check_vacuous:
  assumes "leased port a input (\<lambda>h. hostInspect host h (recIntent (prepEffect x)) (inLease input)) h = (Inr seen, h')"
    and "insStatus seen = InspectMissing" "prepAction x = Inspection"
  shows "executeAttempt message port host input x a h =
    (case callOrInspect message port host a input (recIntent (prepEffect x)) (hostDispatch host) h' of
       (Inl e, h'') \<Rightarrow> (Inl e, a, h'')
     | (Inr y, h'') \<Rightarrow> (case portCommit port a input (prepIntent x) y of (res, a') \<Rightarrow> (res, a', h'')))"
  using assms by (simp add: executeAttempt_def observeClaimedAction_def Let_def)

section \<open>A closed example\<close>

text \<open>A host whose dispatches fail and that knows no effect.\<close>

definition lostHost :: "unit effectHost" where
  "lostHost = \<lparr>hostDispatch = (\<lambda>h i l. (Inl HostError, h)),
     hostInspect = (\<lambda>h i l. (Inr \<lparr>insStatus = InspectMissing, insAt = demoTime, insDetails = None,
       insOutput = None, insUsage = None\<rparr>, h)),
     hostCancel = (\<lambda>h i l. (Inl HostError, h))\<rparr>"

definition demoAuthority :: authority where
  "demoAuthority = [(runKey (lit ''repo'') (lit ''run''), demoQueued)]"

lemma demo_reachable: "reachableAuthority demoAuthority"
  using demo_configured demo_steps(1)
  by (auto simp: reachableAuthority_def demoAuthority_def mapGet_def split: if_splits)

theorem batch_refines_witness:
  "\<exists>res b h' run'. runBatch (\<lambda>_. []) (memoryPort {}) lostHost demoInput 1 demoAuthority () = (res, b, h') \<and>
     mapGet b (runKey (lit ''repo'') (lit ''run'')) = Some run' \<and> runnerSteps demoQueued run'"
proof -
  obtain res b h' where b: "runBatch (\<lambda>_. []) (memoryPort {}) lostHost demoInput 1 demoAuthority () = (res, b, h')"
    by (metis prod_cases3)
  note law = batch_refines [OF demo_reachable b]
  have "authoritySteps demoAuthority b"
    by (rule memory.runBatch_law(1) [OF b reachable_valid [OF demo_reachable]])
  then have "rel_option runnerSteps (Some demoQueued) (mapGet b (runKey (lit ''repo'') (lit ''run'')))"
    unfolding authoritySteps_def by (metis demoAuthority_def mapGet_def map_of_Cons_code(2))
  then obtain run' where r: "mapGet b (runKey (lit ''repo'') (lit ''run'')) = Some run'"
    by (metis option_rel_Some1)
  with law obtain run where "mapGet demoAuthority (runKey (lit ''repo'') (lit ''run'')) = Some run" "runnerSteps run run'"
    by blast
  then have "runnerSteps demoQueued run'" by (simp add: demoAuthority_def mapGet_def)
  with b r show ?thesis by blast
qed

theorem batch_dispatches_once_witness:
  "\<exists>res b h' new. runBatch (\<lambda>_. []) (memoryPort {}) (traced lostHost) demoInput 1 demoAuthority ((), []) = (res, b, h', new) \<and>
     dispatches (lit ''op'') new \<le> 1"
proof -
  obtain res b h' new where b: "runBatch (\<lambda>_. []) (memoryPort {}) (traced lostHost) demoInput 1 demoAuthority ((), []) =
      (res, b, h', new)" by (metis prod_cases4)
  from batch_dispatches_once [OF demo_reachable b] b show ?thesis by auto
qed

end
