(* ===== verification/FencedRunnerDispatch.thy ===== *)
theory FencedRunnerDispatch
  imports FencedRunnerProperties RunnerFencing
begin

text \<open>
  What a history of batches sends to the effect host: an operation is dispatched at most once
  without an inspection that has just reported it missing, and a batch under a stale lease sends
  nothing and changes nothing.
\<close>

section \<open>Blind dispatches\<close>

text \<open>A dispatch is licensed when the call just before it is an inspection that misses its effect.\<close>

fun licensed :: "hostCall option \<Rightarrow> hostCall \<Rightarrow> bool" where
  "licensed (Some (InspectCall i (Inr x))) (DispatchCall j) \<longleftrightarrow> i = j \<and> insStatus x = InspectMissing"
| "licensed _ _ \<longleftrightarrow> False"

fun isDispatchOf :: "jstr \<Rightarrow> hostCall \<Rightarrow> bool" where
  "isDispatchOf k (DispatchCall i) \<longleftrightarrow> operationOf i = k"
| "isDispatchOf k _ \<longleftrightarrow> False"

fun blindAfter :: "hostCall option \<Rightarrow> jstr \<Rightarrow> hostCall list \<Rightarrow> nat" where
  "blindAfter prev k [] = 0"
| "blindAfter prev k (c # cs) =
     (if isDispatchOf k c \<and> \<not> licensed prev c then 1 else 0) + blindAfter (Some c) k cs"

abbreviation blindDispatches :: "jstr \<Rightarrow> hostCall list \<Rightarrow> nat" where
  "blindDispatches \<equiv> blindAfter None"

lemma licensed_None [simp]: "\<not> licensed None c"
  by (cases c) simp_all

lemma blindAfter_le: "blindAfter prev k cs \<le> blindDispatches k cs"
  by (cases cs) simp_all

lemma blindAfter_append:
  "blindAfter prev k (xs @ ys) = blindAfter prev k xs + blindAfter (if xs = [] then prev else Some (last xs)) k ys"
  by (induction xs arbitrary: prev) auto

lemma blind_append: "blindDispatches k (xs @ ys) \<le> blindDispatches k xs + blindDispatches k ys"
  using blindAfter_le by (simp add: blindAfter_append)

lemma actionCalls_blind:
  "cs \<in> actionCalls action i \<Longrightarrow> blindDispatches k cs \<le> (if action = Dispatch \<and> operationOf i = k then 1 else 0)"
  by (cases action) (auto simp: attemptCalls_def)

lemma executeAll_blind:
  assumes "executeAll message port (traced host) input results errors xs a (h, cs) = (out, b, h', cs')"
  shows "\<exists>new. cs' = cs @ new \<and> blindDispatches k new \<le>
    length (filter (\<lambda>x. prepAction x = Dispatch \<and> operationOf (recIntent (prepEffect x)) = k) xs)"
  using assms
proof (induction xs arbitrary: a h cs results errors)
  case (Cons x xs)
  obtain res m h1 cs1 where e: "executeAttempt message port (traced host) input x a (h, cs) = (res, m, h1, cs1)"
    by (metis prod_cases4)
  obtain seen h2 cs2 where o: "observeClaimedAction message port (traced host) a input (prepAction x) (prepEffect x)
      (cmdContext (intCommand (recIntent (prepEffect x)))) (h, cs) = (seen, h2, cs2)"
    by (metis prod_cases3)
  have "cs1 = cs2" using e by (auto simp: executeAttempt_def o split: sum.splits prod.splits)
  then obtain new where new: "cs1 = cs @ new" "new \<in> actionCalls (prepAction x) (recIntent (prepEffect x))"
    using observe_calls [OF o] by auto
  obtain results' errors' where "executeAll message port (traced host) input results' errors' xs m (h1, cs1) = (out, b, h', cs')"
    using Cons.prems e by (cases res) auto
  from Cons.IH [OF this] obtain more where more: "cs' = cs1 @ more" "blindDispatches k more \<le>
      length (filter (\<lambda>x. prepAction x = Dispatch \<and> operationOf (recIntent (prepEffect x)) = k) xs)" by blast
  have "blindDispatches k (new @ more) \<le> (if prepAction x = Dispatch \<and> operationOf (recIntent (prepEffect x)) = k then 1 else 0) +
      length (filter (\<lambda>x. prepAction x = Dispatch \<and> operationOf (recIntent (prepEffect x)) = k) xs)"
    using blind_append [of k new more] actionCalls_blind [OF new(2), of k] more(2) by linarith
  then show ?case using new(1) more(1) by (intro exI [of _ "new @ more"]) auto
qed simp

section \<open>Where the attempts of a batch come from\<close>

context fenced_port
begin

definition claimGranted :: "'a \<Rightarrow> runOnceInput \<Rightarrow> 'a \<Rightarrow> preparedAttempt \<Rightarrow> bool" where
  "claimGranted a input b x \<longleftrightarrow> (\<exists>a' i s b'. steps a a' \<and> steps b' b \<and>
     portClaim port a' input i s = (Inr (Claimed (prepAction x) (prepEffect x)), b'))"

lemma claimGranted_steps: "claimGranted a input b x \<Longrightarrow> steps a0 a \<Longrightarrow> steps b c \<Longrightarrow> claimGranted a0 input c x"
  unfolding claimGranted_def using steps_trans by blast

lemma claimPlan_granted:
  assumes "claimPlan port snap input i a = (Inr (AttemptP x), b)"
  shows "claimGranted a input b x"
proof -
  obtain s p m where "portClaim port a input i s = (p, m)" "m = b"
      "p = Inr (Claimed (prepAction x) (prepEffect x))"
    using assms by (auto simp: claimPlan_def Let_def split: prod.splits sum.splits claimResult.splits option.splits)
  then show ?thesis unfolding claimGranted_def using steps_refl by blast
qed

lemma preparePlan_granted:
  assumes "preparePlan port snap input plan a = (Inr (AttemptP x), b)"
  shows "claimGranted a input b x"
proof (cases plan)
  case (Start c)
  obtain stored m where m: "portPersist port a input c = (stored, m)" by (cases "portPersist port a input c")
  then obtain i where "claimPlan port snap input i m = (Inr (AttemptP x), b)"
    using assms Start by (auto simp: preparePlan_def split: sum.splits persistResult.splits)
  from claimGranted_steps [OF claimPlan_granted [OF this] persist_steps [OF m] steps_refl] show ?thesis .
next
  case (Reconcile r)
  then show ?thesis using assms claimPlan_granted by (simp add: preparePlan_def)
qed

lemma prepareAll_steps:
  assumes "prepareAll port snap input prepared results plans a = (res, b)" "valid a"
  shows "steps a b"
  using assms
proof (induction plans arbitrary: a prepared results)
  case (Cons plan plans)
  obtain p m where p: "preparePlan port snap input plan a = (p, m)" by (cases "preparePlan port snap input plan a")
  have am: "steps a m" by (rule preparePlan_law(1) [OF p Cons.prems(2)])
  show ?case
    using Cons.IH [OF _ steps_valid [OF am Cons.prems(2)]] Cons.prems(1) p steps_trans [OF am] am
    by (auto split: sum.splits preparedResult.splits)
qed (simp add: steps_refl)

lemma prepareAll_granted:
  assumes "prepareAll port snap input prepared results plans a = (Inr (xs, rs), b)" "valid a" "x \<in> set xs"
  shows "x \<in> set prepared \<or> claimGranted a input b x"
  using assms
proof (induction plans arbitrary: a prepared results)
  case (Cons plan plans)
  obtain p m where p: "preparePlan port snap input plan a = (p, m)" by (cases "preparePlan port snap input plan a")
  then obtain q prepared' results' where q: "p = Inr q"
      "prepareAll port snap input prepared' results' plans m = (Inr (xs, rs), b)"
      "set prepared' = set prepared \<or> (\<exists>y. q = AttemptP y \<and> set prepared' = insert y (set prepared))"
    using Cons.prems(1) by (auto split: sum.splits preparedResult.splits)
  have am: "steps a m" by (rule preparePlan_law(1) [OF p Cons.prems(2)])
  have vm: "valid m" by (rule steps_valid [OF am Cons.prems(2)])
  have mb: "steps m b" by (rule prepareAll_steps [OF q(2) vm])
  from Cons.IH [OF q(2) vm Cons.prems(3)] have "x \<in> set prepared' \<or> claimGranted m input b x" .
  then show ?case
  proof
    assume "x \<in> set prepared'"
    with q(3) consider "x \<in> set prepared" | "q = AttemptP x" by auto
    then show ?thesis
    proof cases
      case 2
      from claimGranted_steps [OF preparePlan_granted [OF p [unfolded q(1) 2]] steps_refl mb] show ?thesis ..
    qed simp
  qed (use claimGranted_steps [OF _ am steps_refl] in blast)
qed simp

end

section \<open>The origin of a dispatch\<close>

text \<open>The intent the authority has stored for an operation of a run. It never changes.\<close>

definition storedIntent :: "authority \<Rightarrow> jstr \<Rightarrow> jstr \<Rightarrow> jstr \<Rightarrow> effectIntent option" where
  "storedIntent a repository run k =
     (case mapGet a (runKey repository run) of None \<Rightarrow> None
      | Some r \<Rightarrow> map_option recIntent (mapGet (rsEffects r) k))"

lemma storedIntent_steps:
  assumes "authoritySteps a b" "authorityValid a" "storedIntent a repository run k = Some i"
  shows "storedIntent b repository run k = Some i"
proof -
  obtain r e where r: "mapGet a (runKey repository run) = Some r" "mapGet (rsEffects r) k = Some e" "recIntent e = i"
    using assms(3) by (auto simp: storedIntent_def split: option.splits)
  obtain base where "coreOk base r" using assms(2) r(1) unfolding authorityValid_def by blast
  moreover obtain r' where r': "mapGet b (runKey repository run) = Some r'" "runnerSteps r r'"
    using assms(1) r(1) unfolding authoritySteps_def by (metis option_rel_Some1)
  ultimately obtain e' where "mapGet (rsEffects r') k = Some e'" "recordMoves e e'"
    using extendsD(2) [OF runnerSteps_extends r(2)] by blast
  then show ?thesis using r' r(3) by (simp add: storedIntent_def recordMoves_def)
qed

text \<open>An attempt claimed for dispatch is the one that its effect's intent was stored for.\<close>

lemma granted_dispatch:
  assumes "memory.claimGranted faults a input b x" "authorityValid a" "prepAction x = Dispatch"
  shows "storedIntent b (inRepository input) (inRun input) (operationOf (recIntent (prepEffect x))) =
      Some (recIntent (prepEffect x)) \<and> intAttempt (recIntent (prepEffect x)) = inAttempt input"
proof -
  obtain a' i s b' where g: "authoritySteps a a'" "authoritySteps b' b"
      "portClaim (memoryPort faults) a' input i s = (Inr (Claimed (prepAction x) (prepEffect x)), b')"
    using assms(1) unfolding memory.claimGranted_def by blast
  have va: "authorityValid a'" by (rule memory.steps_valid [OF g(1) assms(2)])
  have vb: "authorityValid b'" by (rule memory.steps_valid [OF memory.claim_steps [OF g(3)] va])
  obtain base r r' where r: "coreOk base r" "claimEffectAttemptRun r input i s = Inr (Claimed (prepAction x) (prepEffect x), r')"
      "requiredRun b' (inRepository input) (inRun input) = Inr r'"
    using g(3) va by (rule memory_claim)
  from r(2) have "storedIntent b' (inRepository input) (inRun input) (operationOf (recIntent (prepEffect x))) =
      Some (recIntent (prepEffect x)) \<and> intAttempt (recIntent (prepEffect x)) = inAttempt input"
  proof (cases rule: claimEffectAttemptRun_cases)
    case (2 action e)
    have e: "mapGet (rsEffects r) (operationOf i) = Some (prepEffect x)" using 2 durableRecord_get by simp
    then have "operationOf (recIntent (prepEffect x)) = operationOf i"
      using coreOk_maps(7) [OF r(1)] by (simp add: recordOk_def Let_def)
    moreover have "intAttempt (recIntent (prepEffect x)) = inAttempt input"
      using 2 assms(3) selectEffectAttemptAction_dispatch [of e "inTime input" "inAttempt input"] by simp
    ultimately show ?thesis using 2 e r(3) by (simp add: storedIntent_def requiredRun_eq_Inr)
  qed blast
  then show ?thesis using storedIntent_steps [OF g(2) vb] by blast
qed

text \<open>
  The calls a batch adds: at most one dispatch of an operation is blind, and then the batch runs the
  very attempt the intent of the operation was stored for.
\<close>

lemma batch_blind:
  assumes "runBatch message (memoryPort faults) (traced host) input n a (h, cs) = (res, b, h', cs')"
    and valid: "authorityValid a"
  obtains new where "cs' = cs @ new" "\<And>k. blindDispatches k new \<le> 1"
    "\<And>k. blindDispatches k new > 0 \<Longrightarrow> \<exists>i. storedIntent b (inRepository input) (inRun input) k = Some i \<and>
       intAttempt i = inAttempt input"
  using assms(1)
proof (cases rule: runBatch_cases)
  case (executed snap plans xs rs m rs' es)
  let ?dispatched = "\<lambda>k. filter (\<lambda>x. prepAction x = Dispatch \<and> operationOf (recIntent (prepEffect x)) = k) xs"
  obtain new where new: "cs' = cs @ new" using executeAll_blind [OF executed(2)] by blast
  have blind: "blindDispatches k new \<le> length (?dispatched k)" for k
    using executeAll_blind [OF executed(2), of k] new by auto
  have one: "length (?dispatched k) \<le> 1" for k
  proof -
    have "length (?dispatched k) \<le> length (filter (\<lambda>x. operationOf (recIntent (prepEffect x)) = k) xs)"
      by (induction xs) auto
    also have "\<dots> \<le> 1"
      using distinct_filter_one [OF memory.prepared_distinct [OF executed(1) valid], of k] by simp
    finally show ?thesis .
  qed
  have vm: "authorityValid m" by (rule memory.steps_valid [OF memory.prepareAll_steps [OF executed(1) valid] valid])
  have mb: "authoritySteps m b"
    using memory.executeAll_law [OF executed(2) vm] memory.prepareAll_law [OF executed(1) valid]
    by (simp add: memory.preparedOk_def memory.reports_def)
  show thesis
  proof (rule that [OF new])
    show "blindDispatches k new \<le> 1" for k using blind [of k] one [of k] by simp
    fix k assume "blindDispatches k new > 0"
    then have "?dispatched k \<noteq> []" using blind [of k] by auto
    then obtain x where x: "x \<in> set xs" "prepAction x = Dispatch" "operationOf (recIntent (prepEffect x)) = k"
      by (auto simp: filter_empty_conv)
    have "memory.claimGranted faults a input m x" using memory.prepareAll_granted [OF executed(1) valid x(1)] by simp
    from granted_dispatch [OF this valid x(2)] x(3) storedIntent_steps [OF mb vm]
    show "\<exists>i. storedIntent b (inRepository input) (inRun input) k = Some i \<and> intAttempt i = inAttempt input" by blast
  qed
qed (rule that [of "[]"]; simp)+

section \<open>Histories of batches\<close>

text \<open>
  A history of one run: batches under any lease, on any host state the world brings about meanwhile,
  between any other steps of the authority. \<open>ids\<close> are the attempt identities of the batches.
\<close>

inductive batches ::
  "(exn \<Rightarrow> jstr) \<Rightarrow> 'h effectHost \<Rightarrow> jstr \<Rightarrow> jstr \<Rightarrow> authority \<Rightarrow> jstr list \<Rightarrow> authority \<Rightarrow> hostCall list \<Rightarrow> bool"
  for message host repository run a where
  batchesNone: "batches message host repository run a [] a []"
| batchesOther: "batches message host repository run a ids b cs \<Longrightarrow> authoritySteps b c \<Longrightarrow>
     batches message host repository run a ids c cs"
| batchesMore: "batches message host repository run a ids b cs \<Longrightarrow> inRepository input = repository \<Longrightarrow> inRun input = run \<Longrightarrow>
     runBatch message (memoryPort faults) (traced host) input n b (h, cs) = (res, c, h', cs') \<Longrightarrow>
     batches message host repository run a (ids @ [inAttempt input]) c cs'"

lemma batches_valid: "batches message host repository run a ids b cs \<Longrightarrow> authorityValid a \<Longrightarrow> authorityValid b"
  by (induction rule: batches.induct) (auto intro: memory.steps_valid dest: memory.runBatch_law(1))

lemma batches_blind:
  assumes "batches message host repository run a ids b cs" "authorityValid a" "distinct ids"
  shows "blindDispatches k cs \<le> 1 \<and> (blindDispatches k cs > 0 \<longrightarrow>
    (\<exists>i. storedIntent b repository run k = Some i \<and> intAttempt i \<in> set ids))"
  using assms
proof (induction rule: batches.induct)
  case (batchesOther ids b cs c)
  then show ?case using storedIntent_steps batches_valid by blast
next
  case (batchesMore ids b cs input faults n h res c h' cs')
  have vb: "authorityValid b" by (rule batches_valid [OF batchesMore(1,6)])
  have bc: "authoritySteps b c" by (rule memory.runBatch_law(1) [OF batchesMore(4) vb])
  obtain new where new: "cs' = cs @ new" "blindDispatches k new \<le> 1"
      "blindDispatches k new > 0 \<Longrightarrow> \<exists>i. storedIntent c repository run k = Some i \<and> intAttempt i = inAttempt input"
    using batch_blind [OF batchesMore(4) vb] batchesMore(2,3) by metis
  from batchesMore have IH: "blindDispatches k cs \<le> 1"
      "blindDispatches k cs > 0 \<Longrightarrow> \<exists>i. storedIntent c repository run k = Some i \<and> intAttempt i \<in> set ids"
    and fresh: "inAttempt input \<notin> set ids"
    using storedIntent_steps [OF bc vb] by auto
  have "blindDispatches k cs = 0 \<or> blindDispatches k new = 0" using IH(2) new(3) fresh by fastforce
  then show ?case using blind_append [of k cs new] IH new by (auto simp: new(1))
qed simp

text \<open>
  C14. Over the whole history of a run, whatever the host answers and whoever owns the leases, an
  operation is dispatched blindly at most once, as long as no two batches use the same attempt
  identity: every other dispatch of it directly follows an inspection of the same intent in which
  the host reports the effect missing.
\<close>

theorem no_blind_redispatch:
  assumes "reachableAuthority a" and "batches message host repository run a ids b cs" and "distinct ids"
  shows "blindDispatches k cs \<le> 1"
  using batches_blind [OF assms(2) reachable_valid [OF assms(1)] assms(3)] by blast

text \<open>
  The history of the example: a batch that dispatches and loses the response, then a batch of the next
  owner under another attempt identity.
\<close>

definition demoHistory :: "authority \<times> hostCall list" where
  "demoHistory = (case runBatch (\<lambda>_. []) (memoryPort {}) (traced lostHost) demoInput 1 demoAuthority ((), []) of
     (res, b, h, cs) \<Rightarrow> (case runBatch (\<lambda>_. []) (memoryPort {}) (traced lostHost)
         (demoInput\<lparr>inAttempt := lit ''second''\<rparr>) 1 b (h, cs) of (res', c, h', cs') \<Rightarrow> (c, cs')))"

theorem no_blind_redispatch_witness:
  "batches (\<lambda>_. []) lostHost (lit ''repo'') (lit ''run'') demoAuthority [lit ''attempt'', lit ''second''] (fst demoHistory) (snd demoHistory) \<and>
   blindDispatches (lit ''op'') (snd demoHistory) \<le> 1"
proof -
  have input: "inRepository demoInput = lit ''repo''" "inRun demoInput = lit ''run''" by (simp_all add: demoInput_def)
  obtain res b h cs where one: "runBatch (\<lambda>_. []) (memoryPort {}) (traced lostHost) demoInput 1 demoAuthority ((), []) = (res, b, h, cs)"
    by (metis prod_cases4)
  obtain res' c h' cs' where two: "runBatch (\<lambda>_. []) (memoryPort {}) (traced lostHost)
      (demoInput\<lparr>inAttempt := lit ''second''\<rparr>) 1 b (h, cs) = (res', c, h', cs')" by (metis prod_cases4)
  have "batches (\<lambda>_. []) lostHost (lit ''repo'') (lit ''run'') demoAuthority [lit ''attempt''] b cs"
    using batchesMore [OF batchesNone input one] by simp
  from batchesMore [OF this _ _ two] have h: "batches (\<lambda>_. []) lostHost (lit ''repo'') (lit ''run'') demoAuthority
      [lit ''attempt'', lit ''second''] c cs'" by (simp add: input)
  have "blindDispatches (lit ''op'') cs' \<le> 1" by (rule no_blind_redispatch [OF demo_reachable h]) simp
  moreover have d: "demoHistory = (c, cs')" unfolding demoHistory_def one prod.case two ..
  ultimately show ?thesis unfolding d fst_conv snd_conv using h by blast
qed

section \<open>Stale leases\<close>

lemma mapSet_same: "mapGet m k = Some v \<Longrightarrow> mapSet k v m = m"
  by (induction m) (auto simp: mapGet_def split: if_splits)

text \<open>A lease that is not the current one of the run, or is no longer live.\<close>

definition staleLease :: "runState \<Rightarrow> runOnceInput \<Rightarrow> bool" where
  "staleLease run input \<longleftrightarrow> leaseOwner (inLease input) \<noteq> leaseOwner (rsLease run) \<or>
     leaseFence (inLease input) \<noteq> leaseFence (rsLease run) \<or> leaseExpires (inLease input) \<noteq> leaseExpires (rsLease run) \<or>
     timeGe (inTime input) (leaseExpires (rsLease run))"

lemma stale_port:
  assumes "requiredRun a (inRepository input) (inRun input) = Inr run" "staleLease run input"
  shows "\<exists>e. portClaim (memoryPort faults) a input i s = (Inl e, a)"
    "\<exists>e. portPersist (memoryPort faults) a input cmd = (Inl e, a)"
proof -
  obtain e where e: "assertFence run (inLease input) (inTime input) = Inl e"
    using assms(2) by (cases "validTimestamp (inTime input)") (auto simp: staleLease_def assertFence_def)
  have a: "mapSet (runKey (inRepository input) (inRun input)) run a = a"
    using assms(1) by (simp add: requiredRun_eq_Inr mapSet_same)
  show "\<exists>e. portClaim (memoryPort faults) a input i s = (Inl e, a)"
    using assms(1) a e by (simp add: memoryPort_def claimEffectAttempt_def onRun_def orSame_def claimEffectAttemptRun_def)
  show "\<exists>e. portPersist (memoryPort faults) a input cmd = (Inl e, a)"
    using assms(1) a e by (simp add: memoryPort_def persistIntent_def onRun_def settle_def persistIntentRun_def)
qed

lemma stale_plan:
  assumes "requiredRun a (inRepository input) (inRun input) = Inr run" "staleLease run input"
  shows "\<exists>e. preparePlan (memoryPort faults) snap input plan a = (Inl e, a)"
proof (cases plan)
  case (Start c)
  then show ?thesis using stale_port(2) [OF assms, of faults c] by (auto simp: preparePlan_def)
next
  case (Reconcile r)
  define s where "s = (case find (\<lambda>s. sameTaskScope s (cmdScope (intCommand (recIntent r)))) (snapScopes snap) of
         None \<Rightarrow> cmdScope (intCommand (recIntent r)) | Some s \<Rightarrow> taskScopeFenceOf s)"
  show ?thesis using stale_port(1) [OF assms, of faults "recIntent r" s] Reconcile
    by (auto simp: preparePlan_def claimPlan_def Let_def s_def [symmetric])
qed

text \<open>
  C15. A deposed or late owner does no harm: a batch under a lease that is not the current one of the
  run, or has expired, calls the host not once and leaves the authority as it is. It fails unless
  there is nothing to do.
\<close>

theorem stale_batch_inert:
  assumes "requiredRun a (inRepository input) (inRun input) = Inr run" and "staleLease run input"
    and "runBatch message (memoryPort faults) host input n a h = (res, b, h')"
  shows "b = a \<and> h' = h \<and> (res = Inr [] \<or> (\<exists>e. res = Inl e)) \<and>
    (res = Inr [] \<longrightarrow> scheduleRunnerTransitions (loadRun run) (inTime input) n = Inr [])"
proof -
  have prep: "\<exists>e. prepareAll (memoryPort faults) snap input [] [] (p # ps) a = (Inl e, a)" for snap p ps
    using stale_plan [OF assms(1,2), of faults snap p] by auto
  have load: "portLoad (memoryPort faults) a input = Inr (loadRun run)" using assms(1) by (simp add: memoryPort_def)
  show ?thesis
  proof (cases "bindE (validateRunOnceInput input) (\<lambda>_. if \<not> validBatchLimit n then Inl TypeError
      else scheduleRunnerTransitions (loadRun run) (inTime input) n)")
    case (Inl e)
    then show ?thesis using assms(3) by (auto simp: runBatch_def load bindE_eq_Inl split: if_split_asm)
  next
    case (Inr plans)
    then have v: "validateRunOnceInput input = Inr ()" "validBatchLimit n"
        "scheduleRunnerTransitions (loadRun run) (inTime input) n = Inr plans"
      by (auto simp: bindE_eq_Inr split: if_split_asm)
    show ?thesis
    proof (cases plans)
      case Nil
      then show ?thesis using assms(3) v by (auto simp: runBatch_def load)
    next
      case (Cons p ps)
      obtain e where "prepareAll (memoryPort faults) (loadRun run) input [] [] (p # ps) a = (Inl e, a)" using prep by blast
      then show ?thesis using assms(3) v Cons by (auto simp: runBatch_def load simp del: prepareAll.simps)
    qed
  qed
qed

theorem stale_batch_inert_witness:
  "\<exists>e. runBatch (\<lambda>_. []) (memoryPort {}) (traced lostHost) (demoInput\<lparr>inLease := demoLease\<lparr>leaseFence := 2\<rparr>\<rparr>) 1
     demoAuthority ((), []) = (Inl e, demoAuthority, (), [])"
proof -
  let ?input = "demoInput\<lparr>inLease := demoLease\<lparr>leaseFence := 2\<rparr>\<rparr>"
  have run: "requiredRun demoAuthority (inRepository ?input) (inRun ?input) = Inr demoQueued"
    by (simp add: requiredRun_eq_Inr demoAuthority_def mapGet_def demoInput_def)
  have stale: "staleLease demoQueued ?input" by (simp add: staleLease_def demoLease_def)
  obtain res b h cs where r: "runBatch (\<lambda>_. []) (memoryPort {}) (traced lostHost) ?input 1 demoAuthority ((), []) = (res, b, h, cs)"
    by (metis prod_cases4)
  note inert = stale_batch_inert [OF run stale r]
  have "rsEscalations demoQueued = []"
    by (simp add: demoQueued_def stateAfter_def enqueueRun_def snapshotCommand_def demo_command_text demo_stored quiet_def
        demoConfigured_def newRun_def mapValues_def mapHas_def)
  then have "scheduleRunnerTransitions (loadRun demoQueued) (inTime ?input) 1 = Inr [Start demoCommand]"
    by (simp add: scheduleRunnerTransitions_def loadRun_def mapValues_def startable_def validBatchLimit_def isSafe_def
        maxSafe_def mapGet_def Let_def)
  then show ?thesis using inert r by auto
qed

end
