(* ===== verification/Completion.thy ===== *)
theory Completion
  imports Identity Codecs
begin

text \<open>
  packages/kernel/src/completion.ts: completion policies and requirements, submissions, and the
  accounting of a submission against the requirements of its task.
\<close>

section \<open>Requirements, submissions and assessments\<close>

record taskGenRef =
  trTask :: jstr
  trGeneration :: int
  trContext :: jstr

datatype terminalDisposition = CompletedT | BlockedT | WaivedT | SkippedT | SupersededT

datatype criterionDisposition = SatisfiedD | UnsatisfiedD | WaivedD | SkippedD

datatype evidenceMode = NoEvidence | TaskEvidence | RequiredCriteriaEvidence | AllSatisfiedEvidence

record criterionRequirement =
  reqCriterion :: jstr
  reqRequired :: bool

record evidenceRequirement =
  evKind :: val
  evMinimum :: int

record evidencePolicy =
  policyMode :: evidenceMode
  policyRequirements :: "evidenceRequirement list"
  waiverAuthority :: "val option"

record completionPolicy =
  policyCriteria :: "criterionRequirement list"
  policyEvidence :: evidencePolicy

record requirements = completionPolicy +
  reqTask :: taskGenRef

record evidenceItem =
  itemAsset :: jstr
  itemKind :: val
  itemDescriptor :: val
  itemCriterion :: "jstr option"

record criterionOutcome =
  outCriterion :: jstr
  outDisposition :: criterionDisposition
  outAuthority :: "val option"

record submission =
  subTask :: taskGenRef
  subDisposition :: terminalDisposition
  subSummary :: jstr
  subCriteria :: "criterionOutcome list"
  subEvidence :: "evidenceItem list"
  subReplacement :: "taskGenRef option"

record evidenceAssessment =
  assKind :: val
  assMinimum :: int
  assCount :: int
  assSatisfied :: bool

record criterionAssessment =
  caCriterion :: jstr
  caRequired :: bool
  caDisposition :: criterionDisposition
  caEvidence :: "evidenceAssessment list"
  caSatisfied :: bool

record accounting =
  accSubmission :: submission
  accCriteria :: "criterionAssessment list"
  accTaskEvidence :: "evidenceAssessment list"
  accSatisfied :: bool

fun dispositionStr :: "terminalDisposition \<Rightarrow> string" where
  "dispositionStr CompletedT = ''completed''"
| "dispositionStr BlockedT = ''blocked''"
| "dispositionStr WaivedT = ''waived''"
| "dispositionStr SkippedT = ''skipped''"
| "dispositionStr SupersededT = ''superseded''"

fun criterionDispositionStr :: "criterionDisposition \<Rightarrow> string" where
  "criterionDispositionStr SatisfiedD = ''satisfied''"
| "criterionDispositionStr UnsatisfiedD = ''unsatisfied''"
| "criterionDispositionStr WaivedD = ''waived''"
| "criterionDispositionStr SkippedD = ''skipped''"

fun modeStr :: "evidenceMode \<Rightarrow> string" where
  "modeStr NoEvidence = ''none''"
| "modeStr TaskEvidence = ''task''"
| "modeStr RequiredCriteriaEvidence = ''required-criteria''"
| "modeStr AllSatisfiedEvidence = ''all-satisfied''"

abbreviation completionError :: "completion_code \<Rightarrow> exn" where
  "completionError \<equiv> CompletionAccountingError"

section \<open>Validation\<close>

definition taskReferenceOf :: "exn \<Rightarrow> val \<Rightarrow> exn + taskGenRef" where
  "taskReferenceOf e v =
     bindE (assertAllowedKeys v [''taskId'', ''definitionGeneration'', ''contextRevisionDigest''] [] e) (\<lambda>_.
     bindE (strIf (isIdentity TaskKind) e (get v ''taskId'')) (\<lambda>t.
     bindE (generationOf e (get v ''definitionGeneration'')) (\<lambda>g.
     bindE (digestOf e (get v ''contextRevisionDigest'')) (\<lambda>d.
       Inr \<lparr>trTask = t, trGeneration = g, trContext = d\<rparr>))))"

definition boolOf :: "exn \<Rightarrow> val \<Rightarrow> exn + bool" where
  "boolOf e v = (case v of Bool b \<Rightarrow> Inr b | _ \<Rightarrow> Inl e)"

definition criterionRequirementOf :: "val \<Rightarrow> exn + criterionRequirement" where
  "criterionRequirementOf v = (let e = completionError CInvalidRequirements in
     bindE (assertAllowedKeys v [''criterionId'', ''required''] [] e) (\<lambda>_.
     bindE (strIf (isIdentity CriterionKind) e (get v ''criterionId'')) (\<lambda>c.
     bindE (boolOf e (get v ''required'')) (\<lambda>r. Inr \<lparr>reqCriterion = c, reqRequired = r\<rparr>))))"

definition evidenceRequirementOf :: "val \<Rightarrow> exn + evidenceRequirement" where
  "evidenceRequirementOf v = (let e = completionError CInvalidRequirements in
     bindE (assertAllowedKeys v [''kind'', ''minimumCount''] [] e) (\<lambda>_.
     bindE (generationOf e (get v ''minimumCount'')) (\<lambda>n.
       Inr \<lparr>evKind = get v ''kind'', evMinimum = n\<rparr>)))"

definition completionEvidencePolicyOf :: "val \<Rightarrow> exn + evidencePolicy" where
  "completionEvidencePolicyOf v = (let e = completionError CInvalidRequirements in
     bindE (assertAllowedKeys v [''mode'', ''requirements''] [''waiverAuthority''] e) (\<lambda>_.
     case enumOf modeStr [NoEvidence, TaskEvidence, RequiredCriteriaEvidence, AllSatisfiedEvidence] (get v ''mode'') of
       None \<Rightarrow> Inl e
     | Some mode \<Rightarrow>
     (case arrOf (get v ''requirements'') of None \<Rightarrow> Inl e
      | Some xs \<Rightarrow>
          if mode = NoEvidence \<and> length xs \<noteq> 0 then Inl e
          else if mode \<noteq> NoEvidence \<and> length xs = 0 then Inl e
          else bindE (uniqueBy (canonicalSerialize \<circ> evKind) evidenceRequirementOf e xs) (\<lambda>rs.
            Inr \<lparr>policyMode = mode, policyRequirements = rs,
              waiverAuthority = optionalOf v ''waiverAuthority''\<rparr>))))"

definition validatePolicy :: "val \<Rightarrow> exn + completionPolicy" where
  "validatePolicy v = (let e = completionError CInvalidRequirements in
     bindE (assertAllowedKeys v [''criteria'', ''completionEvidencePolicy''] [] e) (\<lambda>_.
     case arrOf (get v ''criteria'') of None \<Rightarrow> Inl e
     | Some xs \<Rightarrow>
         bindE (uniqueBy reqCriterion criterionRequirementOf (completionError CDuplicateCriterion) xs) (\<lambda>cs.
         bindE (completionEvidencePolicyOf (get v ''completionEvidencePolicy'')) (\<lambda>p.
           Inr \<lparr>policyCriteria = cs, policyEvidence = p\<rparr>))))"

definition validateRequirements :: "val \<Rightarrow> exn + requirements" where
  "validateRequirements v = (let e = completionError CInvalidRequirements in
     bindE (assertAllowedKeys v [''task'', ''criteria'', ''completionEvidencePolicy''] [] e) (\<lambda>_.
     bindE (taskReferenceOf e (get v ''task'')) (\<lambda>t.
     bindE (validatePolicy (Obj [(lit ''criteria'', get v ''criteria''),
       (lit ''completionEvidencePolicy'', get v ''completionEvidencePolicy'')])) (\<lambda>p.
       Inr (completionPolicy.extend p \<lparr>reqTask = t\<rparr>)))))"

definition validateCompletionPolicy :: "val \<Rightarrow> exn + completionPolicy" where
  "validateCompletionPolicy v =
     bindE (snapshotCanonical (completionError CInvalidRequirements) v) validatePolicy"

definition validateCompletionRequirements :: "val \<Rightarrow> exn + requirements" where
  "validateCompletionRequirements v =
     bindE (snapshotCanonical (completionError CInvalidRequirements) v) validateRequirements"

text \<open>The characters \<open>String.prototype.trim\<close> removes: white space and line terminators of ECMA-262.\<close>

definition isTrimmed :: "16 word \<Rightarrow> bool" where
  "isTrimmed c \<longleftrightarrow> c \<in> {9, 10, 11, 12, 13, 32, 0xA0, 0x1680, 0x2028, 0x2029, 0x202F, 0x205F, 0x3000, 0xFEFF} \<or>
     0x2000 \<le> c \<and> c \<le> 0x200A"

definition isSummary :: "val \<Rightarrow> bool" where
  "isSummary v = (case v of Str s \<Rightarrow> \<not> list_all isTrimmed s | _ \<Rightarrow> False)"

definition criterionOutcomeOf :: "val \<Rightarrow> exn + criterionOutcome" where
  "criterionOutcomeOf v = (let e = completionError CInvalidSubmission in
     bindE (assertAllowedKeys v [''criterionId'', ''disposition''] [''authorityFact''] e) (\<lambda>_.
     bindE (strIf (isIdentity CriterionKind) e (get v ''criterionId'')) (\<lambda>c.
     case enumOf criterionDispositionStr [SatisfiedD, UnsatisfiedD, WaivedD, SkippedD] (get v ''disposition'') of
       None \<Rightarrow> Inl e
     | Some d \<Rightarrow>
         if d \<noteq> WaivedD \<and> hasOwn v (lit ''authorityFact'') then Inl (completionError CInvalidWaiver)
         else Inr \<lparr>outCriterion = c, outDisposition = d, outAuthority = optionalOf v ''authorityFact''\<rparr>)))"

definition evidenceItemOf :: "val \<Rightarrow> exn + evidenceItem" where
  "evidenceItemOf v = (let e = completionError CInvalidSubmission in
     bindE (assertAllowedKeys v [''assetId'', ''kind'', ''descriptor''] [''criterionId''] e) (\<lambda>_.
     bindE (strIf (isIdentity AssetKind) e (get v ''assetId'')) (\<lambda>a.
     let item = \<lparr>itemAsset = a, itemKind = get v ''kind'', itemDescriptor = get v ''descriptor'',
           itemCriterion = None\<rparr> in
     if hasOwn v (lit ''criterionId'') then
       bindE (strIf (isIdentity CriterionKind) e (get v ''criterionId'')) (\<lambda>c.
         Inr (item\<lparr>itemCriterion := Some c\<rparr>))
     else Inr item)))"

definition validateSubmission :: "val \<Rightarrow> exn + submission" where
  "validateSubmission v = (let e = completionError CInvalidSubmission; s = completionError CInvalidSupersession in
     bindE (assertAllowedKeys v [''task'', ''disposition'', ''summary'', ''criteria'', ''completionEvidence'']
       [''replacementTask''] e) (\<lambda>_.
     bindE (taskReferenceOf e (get v ''task'')) (\<lambda>task.
     case enumOf dispositionStr [CompletedT, BlockedT, WaivedT, SkippedT, SupersededT] (get v ''disposition'') of
       None \<Rightarrow> Inl e
     | Some disposition \<Rightarrow>
     bindE (strIf isSummary e (get v ''summary'')) (\<lambda>summary.
     case (arrOf (get v ''criteria''), arrOf (get v ''completionEvidence'')) of
       (Some cs, Some es) \<Rightarrow>
     bindE (mapE criterionOutcomeOf cs) (\<lambda>criteria.
     bindE (mapE evidenceItemOf es) (\<lambda>evidence.
     let result = (\<lambda>r. Inr \<lparr>subTask = task, subDisposition = disposition, subSummary = summary,
           subCriteria = criteria, subEvidence = evidence, subReplacement = r\<rparr>) in
     if disposition = SupersededT then
       if \<not> hasOwn v (lit ''replacementTask'') then Inl s
       else bindE (taskReferenceOf s (get v ''replacementTask'')) (\<lambda>r.
         if task = r then Inl s else result (Some r))
     else if hasOwn v (lit ''replacementTask'') then Inl s
     else result None))
     | _ \<Rightarrow> Inl e))))"

section \<open>Accounting\<close>

text \<open>
  \<open>canonicalSerialize\<close> of an absent waiver authority or authority fact is never reached: both are
  tested for presence first.
\<close>

definition assertCriterionOutcome ::
  "criterionRequirement \<Rightarrow> criterionOutcome \<Rightarrow> evidencePolicy \<Rightarrow> exn + unit" where
  "assertCriterionOutcome r out p =
     (if reqRequired r \<and> outDisposition out = SkippedD then Inl (completionError CRequiredSkip)
      else if reqRequired r \<and> outDisposition out = WaivedD then
        (case (waiverAuthority p, outAuthority out) of
           (Some w, Some a) \<Rightarrow>
             if canonicalSerialize a \<noteq> canonicalSerialize w then Inl (completionError CInvalidWaiver) else Inr ()
         | _ \<Rightarrow> Inl (completionError CInvalidWaiver))
      else Inr ())"

definition accountOutcome ::
  "requirements \<Rightarrow> jstr list \<Rightarrow> criterionOutcome \<Rightarrow> exn + jstr list" where
  "accountOutcome reqs seen out =
     (if outCriterion out \<in> set seen then Inl (completionError CDuplicateCriterion)
      else case keyed reqCriterion (policyCriteria reqs) (outCriterion out) of
        None \<Rightarrow> Inl (completionError CUnknownCriterion)
      | Some r \<Rightarrow> bindE (assertCriterionOutcome r out (policyEvidence reqs)) (\<lambda>_.
          Inr (seen @ [outCriterion out])))"

definition assertEvidenceReferences :: "evidenceItem list \<Rightarrow> criterionRequirement list \<Rightarrow> exn + unit" where
  "assertEvidenceReferences items criteria =
     bindE (foldE (\<lambda>seen x.
       if itemAsset x \<in> set seen then Inl (completionError CDuplicateCompletionEvidence)
       else if (case itemCriterion x of None \<Rightarrow> False | Some c \<Rightarrow> c \<notin> set (map reqCriterion criteria))
       then Inl (completionError CUnknownCriterion)
       else Inr (seen @ [itemAsset x])) [] items) (\<lambda>_. Inr ())"

definition assessEvidence :: "evidenceRequirement list \<Rightarrow> evidenceItem list \<Rightarrow> evidenceAssessment list" where
  "assessEvidence rs items = map (\<lambda>r.
     let count = int (length (filter (\<lambda>x. canonicalSerialize (itemKind x) = canonicalSerialize (evKind r)) items))
     in \<lparr>assKind = evKind r, assMinimum = evMinimum r, assCount = count,
          assSatisfied = (count \<ge> evMinimum r)\<rparr>) rs"

definition evidenceDue :: "evidenceMode \<Rightarrow> bool \<Rightarrow> criterionDisposition \<Rightarrow> bool" where
  "evidenceDue mode required d \<longleftrightarrow> mode = RequiredCriteriaEvidence \<and> required \<or>
     mode = AllSatisfiedEvidence \<and> d = SatisfiedD"

definition assessCriterion ::
  "requirements \<Rightarrow> submission \<Rightarrow> criterionRequirement \<Rightarrow> exn + criterionAssessment" where
  "assessCriterion reqs sub r = (case keyed outCriterion (subCriteria sub) (reqCriterion r) of
     None \<Rightarrow> Inl TypeError
   | Some out \<Rightarrow>
       let evidence = (if evidenceDue (policyMode (policyEvidence reqs)) (reqRequired r) (outDisposition out)
             then assessEvidence (policyRequirements (policyEvidence reqs))
               (filter (\<lambda>x. itemCriterion x = Some (reqCriterion r)) (subEvidence sub))
             else [])
       in Inr \<lparr>caCriterion = reqCriterion r, caRequired = reqRequired r, caDisposition = outDisposition out,
         caEvidence = evidence, caSatisfied = list_all assSatisfied evidence\<rparr>)"

definition assessCompletionSnapshots :: "val \<Rightarrow> val \<Rightarrow> exn + accounting" where
  "assessCompletionSnapshots reqV subV =
     bindE (validateRequirements reqV) (\<lambda>reqs.
     bindE (validateSubmission subV) (\<lambda>sub.
     if reqTask reqs \<noteq> subTask sub then Inl (completionError CTaskReferenceMismatch)
     else bindE (foldE (accountOutcome reqs) [] (subCriteria sub)) (\<lambda>seen.
     if list_ex (\<lambda>r. reqCriterion r \<notin> set seen) (policyCriteria reqs)
     then Inl (completionError CMissingCriterion)
     else bindE (assertEvidenceReferences (subEvidence sub) (policyCriteria reqs)) (\<lambda>_.
     let taskEvidence = (if policyMode (policyEvidence reqs) = TaskEvidence
           then assessEvidence (policyRequirements (policyEvidence reqs))
             (filter (\<lambda>x. itemCriterion x = None) (subEvidence sub))
           else []) in
     bindE (mapE (assessCriterion reqs sub) (policyCriteria reqs)) (\<lambda>criteria.
       Inr \<lparr>accSubmission = sub, accCriteria = criteria, accTaskEvidence = taskEvidence,
         accSatisfied = (list_all assSatisfied taskEvidence \<and> list_all caSatisfied criteria)\<rparr>)))))"

definition assessCompletionAccounting :: "val \<Rightarrow> val \<Rightarrow> exn + accounting" where
  "assessCompletionAccounting reqV subV =
     bindE (snapshotCanonical (completionError CInvalidRequirements) reqV) (\<lambda>r.
     bindE (snapshotCanonical (completionError CInvalidSubmission) subV) (\<lambda>s.
       assessCompletionSnapshots r s))"

section \<open>Plain values\<close>

definition encTaskRef :: "taskGenRef \<Rightarrow> val" where
  "encTaskRef t = Obj [(lit ''taskId'', Str (trTask t)),
     (lit ''definitionGeneration'', Num (Whole (trGeneration t))),
     (lit ''contextRevisionDigest'', Str (trContext t))]"

definition encCriterionRequirement :: "criterionRequirement \<Rightarrow> val" where
  "encCriterionRequirement r = Obj [(lit ''criterionId'', Str (reqCriterion r)), (lit ''required'', Bool (reqRequired r))]"

definition encEvidenceRequirement :: "evidenceRequirement \<Rightarrow> val" where
  "encEvidenceRequirement r = Obj [(lit ''kind'', evKind r), (lit ''minimumCount'', Num (Whole (evMinimum r)))]"

definition encEvidencePolicy :: "evidencePolicy \<Rightarrow> val" where
  "encEvidencePolicy p = Obj ([(lit ''mode'', enumText modeStr (policyMode p)),
     (lit ''requirements'', Arr (map encEvidenceRequirement (policyRequirements p)))] @
     optionalField ''waiverAuthority'' id (waiverAuthority p))"

definition encCompletionPolicy :: "'a completionPolicy_scheme \<Rightarrow> val" where
  "encCompletionPolicy p = Obj [(lit ''criteria'', Arr (map encCriterionRequirement (policyCriteria p))),
     (lit ''completionEvidencePolicy'', encEvidencePolicy (policyEvidence p))]"

definition encRequirements :: "requirements \<Rightarrow> val" where
  "encRequirements r = Obj ((lit ''task'', encTaskRef (reqTask r)) # props (encCompletionPolicy r))"

definition encCriterionOutcome :: "criterionOutcome \<Rightarrow> val" where
  "encCriterionOutcome x = Obj ([(lit ''criterionId'', Str (outCriterion x)),
     (lit ''disposition'', enumText criterionDispositionStr (outDisposition x))] @
     optionalField ''authorityFact'' id (outAuthority x))"

definition encEvidenceItem :: "evidenceItem \<Rightarrow> val" where
  "encEvidenceItem x = Obj ([(lit ''assetId'', Str (itemAsset x)), (lit ''kind'', itemKind x),
     (lit ''descriptor'', itemDescriptor x)] @ optionalField ''criterionId'' Str (itemCriterion x))"

definition encSubmission :: "submission \<Rightarrow> val" where
  "encSubmission s = Obj ([(lit ''task'', encTaskRef (subTask s)),
     (lit ''disposition'', enumText dispositionStr (subDisposition s)), (lit ''summary'', Str (subSummary s)),
     (lit ''criteria'', Arr (map encCriterionOutcome (subCriteria s))),
     (lit ''completionEvidence'', Arr (map encEvidenceItem (subEvidence s)))] @
     optionalField ''replacementTask'' encTaskRef (subReplacement s))"

definition encEvidenceAssessment :: "evidenceAssessment \<Rightarrow> val" where
  "encEvidenceAssessment a = Obj [(lit ''kind'', assKind a), (lit ''minimumCount'', Num (Whole (assMinimum a))),
     (lit ''attachmentCount'', Num (Whole (assCount a))), (lit ''satisfied'', Bool (assSatisfied a))]"

definition encCriterionAssessment :: "criterionAssessment \<Rightarrow> val" where
  "encCriterionAssessment a = Obj [(lit ''criterionId'', Str (caCriterion a)), (lit ''required'', Bool (caRequired a)),
     (lit ''disposition'', enumText criterionDispositionStr (caDisposition a)),
     (lit ''completionEvidence'', Arr (map encEvidenceAssessment (caEvidence a))),
     (lit ''completionEvidenceSatisfied'', Bool (caSatisfied a))]"

definition encAccounting :: "accounting \<Rightarrow> val" where
  "encAccounting a = Obj [(lit ''submission'', encSubmission (accSubmission a)),
     (lit ''criteria'', Arr (map encCriterionAssessment (accCriteria a))),
     (lit ''taskEvidence'', Arr (map encEvidenceAssessment (accTaskEvidence a))),
     (lit ''completionEvidenceSatisfied'', Bool (accSatisfied a))]"

section \<open>Reassessment\<close>

text \<open>Only a \<open>CompletionAccountingError\<close> of the reassessment is caught.\<close>

definition reassessCompletionAccounting :: "val \<Rightarrow> val \<Rightarrow> exn + accounting" where
  "reassessCompletionAccounting reqV assV = (let e = completionError CInvalidAssessment in
     bindE (snapshotCanonical e (Obj [(lit ''requirements'', reqV), (lit ''submittedAssessment'', assV)])) (\<lambda>snapshot.
     bindE (assertAllowedKeys snapshot [''requirements'', ''submittedAssessment''] [] e) (\<lambda>_.
     let submitted = get snapshot ''submittedAssessment'' in
     if \<not> isRecord submitted \<or> \<not> hasOwn submitted (lit ''submission'') then Inl e
     else bindE (case assessCompletionSnapshots (get snapshot ''requirements'') (get submitted ''submission'') of
         Inl (CompletionAccountingError _) \<Rightarrow> Inl e | m \<Rightarrow> m) (\<lambda>reassessed.
       if canonicalSerialize submitted \<noteq> canonicalSerialize (encAccounting reassessed) then Inl e
       else Inr reassessed))))"

end
