(* ===== verification/CompletionFacts.thy ===== *)
theory CompletionFacts
  imports Completion CanonicalInjective
begin

text \<open>
  Facts on completion.ts: the codec laws of policies, requirements and submissions, and what an
  assessment says of the submission it accounts for.
\<close>

section \<open>Well-formed values\<close>

definition okTaskRef :: "taskGenRef \<Rightarrow> bool" where
  "okTaskRef t \<longleftrightarrow> isIdentity TaskKind (Str (trTask t)) \<and> isSafe (trGeneration t) \<and> 1 \<le> trGeneration t \<and>
     sha256Pattern (trContext t)"

definition okCriteria :: "criterionRequirement list \<Rightarrow> bool" where
  "okCriteria cs \<longleftrightarrow> (\<forall>c\<in>set cs. isIdentity CriterionKind (Str (reqCriterion c))) \<and> distinct (map reqCriterion cs)"

definition okEvidenceRequirements :: "evidenceRequirement list \<Rightarrow> bool" where
  "okEvidenceRequirements rs \<longleftrightarrow> (\<forall>r\<in>set rs. isSafe (evMinimum r) \<and> 1 \<le> evMinimum r) \<and>
     distinct (map (canonicalSerialize \<circ> evKind) rs)"

definition okEvidencePolicy :: "evidencePolicy \<Rightarrow> bool" where
  "okEvidencePolicy p \<longleftrightarrow> okEvidenceRequirements (policyRequirements p) \<and>
     (policyMode p = NoEvidence \<longleftrightarrow> policyRequirements p = [])"

definition okCompletion :: "'a completionPolicy_scheme \<Rightarrow> bool" where
  "okCompletion p \<longleftrightarrow> okCriteria (policyCriteria p) \<and> okEvidencePolicy (policyEvidence p)"

definition okOutcome :: "criterionOutcome \<Rightarrow> bool" where
  "okOutcome x \<longleftrightarrow> isIdentity CriterionKind (Str (outCriterion x)) \<and>
     (outDisposition x \<noteq> WaivedD \<longrightarrow> outAuthority x = None)"

definition okItem :: "evidenceItem \<Rightarrow> bool" where
  "okItem x \<longleftrightarrow> isIdentity AssetKind (Str (itemAsset x)) \<and>
     (\<forall>c. itemCriterion x = Some c \<longrightarrow> isIdentity CriterionKind (Str c))"

definition okSubmission :: "submission \<Rightarrow> bool" where
  "okSubmission s \<longleftrightarrow> okTaskRef (subTask s) \<and> isSummary (Str (subSummary s)) \<and>
     (\<forall>x\<in>set (subCriteria s). okOutcome x) \<and> (\<forall>x\<in>set (subEvidence s). okItem x) \<and>
     (case subReplacement s of None \<Rightarrow> subDisposition s \<noteq> SupersededT
      | Some r \<Rightarrow> subDisposition s = SupersededT \<and> okTaskRef r \<and> r \<noteq> subTask s)"

section \<open>Reading back the parts\<close>

lemma inj_words: "inj dispositionStr" "inj criterionDispositionStr" "inj modeStr"
  by (rule injI, case_tac x; case_tac y; simp)+

lemmas enum_reads [simp] =
  enumOf_text [OF inj_words(1)] enumOf_text [OF inj_words(2)] enumOf_text [OF inj_words(3)]

lemma all_words [simp]:
  "d \<in> set [CompletedT, BlockedT, WaivedT, SkippedT, SupersededT]"
  "c \<in> set [SatisfiedD, UnsatisfiedD, WaivedD, SkippedD]"
  "m \<in> set [NoEvidence, TaskEvidence, RequiredCriteriaEvidence, AllSatisfiedEvidence]"
  by (cases d; cases c; cases m; simp)+

lemmas read_simps = bindE_eq_Inr assertAllowedKeys_eq_Inr strIf_eq_Inr generationOf_eq_Inr digestOf_eq_Inr

lemma boolOf_eq_Inr: "boolOf e v = Inr b \<longleftrightarrow> v = Bool b"
  by (cases v) (auto simp: boolOf_def)

lemma taskReferenceOf_ok: "taskReferenceOf e v = Inr t \<Longrightarrow> okTaskRef t"
  by (auto simp: taskReferenceOf_def read_simps okTaskRef_def)

lemma taskReferenceOf_enc: "okTaskRef t \<Longrightarrow> taskReferenceOf e (encTaskRef t) = Inr t"
  by (auto simp: taskReferenceOf_def encTaskRef_def read_simps okTaskRef_def)

lemma criterionRequirementOf_ok:
  "criterionRequirementOf v = Inr r \<Longrightarrow> isIdentity CriterionKind (Str (reqCriterion r))"
  by (auto simp: criterionRequirementOf_def Let_def read_simps boolOf_eq_Inr)

lemma criterionRequirementOf_enc:
  "isIdentity CriterionKind (Str (reqCriterion r)) \<Longrightarrow> criterionRequirementOf (encCriterionRequirement r) = Inr r"
  by (auto simp: criterionRequirementOf_def encCriterionRequirement_def Let_def read_simps boolOf_eq_Inr)

lemma evidenceRequirementOf_ok:
  "evidenceRequirementOf v = Inr r \<Longrightarrow> isSafe (evMinimum r) \<and> 1 \<le> evMinimum r"
  by (auto simp: evidenceRequirementOf_def Let_def read_simps)

lemma evidenceRequirementOf_enc:
  "isSafe (evMinimum r) \<Longrightarrow> 1 \<le> evMinimum r \<Longrightarrow> evidenceRequirementOf (encEvidenceRequirement r) = Inr r"
  by (auto simp: evidenceRequirementOf_def encEvidenceRequirement_def Let_def read_simps)

lemma evidencePolicyOf_ok:
  assumes "completionEvidencePolicyOf v = Inr p"
  shows "okEvidencePolicy p"
proof -
  from assms obtain xs rs where rs: "uniqueBy (canonicalSerialize \<circ> evKind) evidenceRequirementOf
        (completionError CInvalidRequirements) xs = Inr rs" "policyRequirements p = rs"
      and mode: "policyMode p = NoEvidence \<longleftrightarrow> length xs = 0"
    by (auto simp: completionEvidencePolicyOf_def Let_def read_simps split: option.splits if_splits)
  from rs(1) have "okEvidenceRequirements rs"
    by (auto simp: okEvidenceRequirements_def uniqueBy_eq_Inr dest!: mapE_in_set evidenceRequirementOf_ok)
  moreover from rs(1) have "length rs = length xs" by (auto simp: uniqueBy_eq_Inr dest: mapE_length)
  ultimately show ?thesis using rs(2) mode by (auto simp: okEvidencePolicy_def)
qed

lemma evidencePolicyOf_enc:
  assumes "okEvidencePolicy p"
  shows "completionEvidencePolicyOf (encEvidencePolicy p) = Inr p"
proof -
  have "uniqueBy (canonicalSerialize \<circ> evKind) evidenceRequirementOf (completionError CInvalidRequirements)
      (map encEvidenceRequirement (policyRequirements p)) = Inr (policyRequirements p)"
    by (rule uniqueBy_enc) (use assms in \<open>auto simp: okEvidencePolicy_def okEvidenceRequirements_def
        evidenceRequirementOf_enc\<close>)
  moreover have "enumOf modeStr [NoEvidence, TaskEvidence, RequiredCriteriaEvidence, AllSatisfiedEvidence]
      (enumText modeStr (policyMode p)) = Some (policyMode p)" by (rule enum_reads) (rule all_words)
  moreover have "optionalOf (encEvidencePolicy p) ''waiverAuthority'' = waiverAuthority p"
    unfolding encEvidencePolicy_def by (subst optionalOf_eq) (simp_all add: option.map_id)
  moreover have "assertAllowedKeys (encEvidencePolicy p) [''mode'', ''requirements''] [''waiverAuthority''] e = Inr ()" for e
    by (auto simp: read_simps encEvidencePolicy_def)
  moreover have "get (encEvidencePolicy p) ''mode'' = enumText modeStr (policyMode p)"
      "get (encEvidencePolicy p) ''requirements'' = Arr (map encEvidenceRequirement (policyRequirements p))"
    by (simp_all add: encEvidencePolicy_def)
  ultimately show ?thesis using assms
    by (cases p) (auto simp: completionEvidencePolicyOf_def okEvidencePolicy_def)
qed

lemma validateCompletion_ok:
  assumes "validatePolicy v = Inr p"
  shows "okCompletion p"
proof -
  from assms obtain xs where cs: "uniqueBy reqCriterion criterionRequirementOf
        (completionError CDuplicateCriterion) xs = Inr (policyCriteria p)"
      and p: "completionEvidencePolicyOf (get v ''completionEvidencePolicy'') = Inr (policyEvidence p)"
    by (auto simp: validatePolicy_def Let_def read_simps split: option.splits)
  from cs have "okCriteria (policyCriteria p)"
    by (auto simp: okCriteria_def uniqueBy_eq_Inr dest!: mapE_in_set criterionRequirementOf_ok)
  with evidencePolicyOf_ok [OF p] show ?thesis by (simp add: okCompletion_def)
qed

lemma encPolicy_fields:
  "get (encCompletionPolicy p) ''criteria'' = Arr (map encCriterionRequirement (policyCriteria p))"
  "get (encCompletionPolicy p) ''completionEvidencePolicy'' = encEvidencePolicy (policyEvidence p)"
  by (simp_all add: encCompletionPolicy_def)

lemma criteriaOf_enc:
  assumes "okCriteria cs"
  shows "uniqueBy reqCriterion criterionRequirementOf e (map encCriterionRequirement cs) = Inr cs"
  by (rule uniqueBy_enc) (use assms in \<open>auto simp: okCriteria_def criterionRequirementOf_enc\<close>)

lemma validateCompletion_enc:
  "okCompletion p \<Longrightarrow> validatePolicy (encCompletionPolicy p) =
     Inr \<lparr>policyCriteria = policyCriteria p, policyEvidence = policyEvidence p\<rparr>"
  by (simp add: validatePolicy_def encPolicy_fields criteriaOf_enc evidencePolicyOf_enc okCompletion_def)
    (simp add: encCompletionPolicy_def assertAllowedKeys_def isRecord_def)

lemma validateRequirements_ok:
  assumes "validateRequirements v = Inr r"
  shows "okCompletion r \<and> okTaskRef (reqTask r)"
  using assms by (auto simp: validateRequirements_def Let_def read_simps completionPolicy.extend_def
      okCompletion_def dest!: validateCompletion_ok taskReferenceOf_ok)

lemma validateRequirements_enc:
  assumes "okCompletion r" "okTaskRef (reqTask r)"
  shows "validateRequirements (encRequirements r) = Inr r"
proof -
  have "validatePolicy (Obj [(lit ''criteria'', get (encRequirements r) ''criteria''),
      (lit ''completionEvidencePolicy'', get (encRequirements r) ''completionEvidencePolicy'')]) =
      Inr \<lparr>policyCriteria = policyCriteria r, policyEvidence = policyEvidence r\<rparr>"
    using validateCompletion_enc [OF assms(1)] by (simp add: encRequirements_def encCompletionPolicy_def)
  moreover have "get (encRequirements r) ''task'' = encTaskRef (reqTask r)" by (simp add: encRequirements_def)
  moreover have "assertAllowedKeys (encRequirements r) [''task'', ''criteria'', ''completionEvidencePolicy''] [] e = Inr ()" for e
    by (auto simp: read_simps encRequirements_def encCompletionPolicy_def)
  ultimately show ?thesis using assms(2)
    by (cases r) (simp add: validateRequirements_def taskReferenceOf_enc completionPolicy.extend_def)
qed

section \<open>Reading back a submission\<close>

lemma criterionOutcomeOf_ok: "criterionOutcomeOf v = Inr x \<Longrightarrow> okOutcome x"
  by (auto simp: criterionOutcomeOf_def Let_def read_simps okOutcome_def optionalOf_def
      split: option.splits if_splits)

lemma criterionOutcomeOf_enc:
  assumes "okOutcome x"
  shows "criterionOutcomeOf (encCriterionOutcome x) = Inr x"
proof -
  have "optionalOf (encCriterionOutcome x) ''authorityFact'' = outAuthority x"
    unfolding encCriterionOutcome_def by (subst optionalOf_eq) (simp_all add: option.map_id)
  moreover have "assertAllowedKeys (encCriterionOutcome x) [''criterionId'', ''disposition''] [''authorityFact''] e = Inr ()" for e
    by (auto simp: read_simps encCriterionOutcome_def)
  moreover have "strIf (isIdentity CriterionKind) e (get (encCriterionOutcome x) ''criterionId'') = Inr (outCriterion x)" for e
    using assms by (simp add: encCriterionOutcome_def okOutcome_def strIf_eq_Inr)
  moreover have "get (encCriterionOutcome x) ''disposition'' = enumText criterionDispositionStr (outDisposition x)"
    by (simp add: encCriterionOutcome_def)
  moreover have "enumOf criterionDispositionStr [SatisfiedD, UnsatisfiedD, WaivedD, SkippedD]
      (enumText criterionDispositionStr (outDisposition x)) = Some (outDisposition x)"
    by (rule enum_reads) (rule all_words)
  moreover have "hasOwn (encCriterionOutcome x) (lit ''authorityFact'') \<longleftrightarrow> outAuthority x \<noteq> None"
    by (auto simp: encCriterionOutcome_def)
  ultimately show ?thesis using assms
    by (cases x) (auto simp: criterionOutcomeOf_def okOutcome_def)
qed

lemma evidenceItemOf_ok: "evidenceItemOf v = Inr x \<Longrightarrow> okItem x"
  by (auto simp: evidenceItemOf_def Let_def read_simps okItem_def split: if_splits)

lemma evidenceItemOf_enc:
  assumes "okItem x"
  shows "evidenceItemOf (encEvidenceItem x) = Inr x"
proof -
  have keys: "assertAllowedKeys (encEvidenceItem x) [''assetId'', ''kind'', ''descriptor''] [''criterionId''] e = Inr ()" for e
    by (auto simp: read_simps encEvidenceItem_def)
  have asset: "strIf (isIdentity AssetKind) e (get (encEvidenceItem x) ''assetId'') = Inr (itemAsset x)" for e
    using assms by (simp add: encEvidenceItem_def okItem_def strIf_eq_Inr)
  have crit: "itemCriterion x = Some c \<Longrightarrow>
      strIf (isIdentity CriterionKind) e (get (encEvidenceItem x) ''criterionId'') = Inr c" for e c
    using assms by (simp add: encEvidenceItem_def okItem_def strIf_eq_Inr)
  have own: "hasOwn (encEvidenceItem x) (lit ''criterionId'') \<longleftrightarrow> itemCriterion x \<noteq> None"
    by (auto simp: encEvidenceItem_def)
  have kind: "get (encEvidenceItem x) ''kind'' = itemKind x" "get (encEvidenceItem x) ''descriptor'' = itemDescriptor x"
    by (simp_all add: encEvidenceItem_def)
  show ?thesis
  proof (cases "itemCriterion x")
    case None
    then show ?thesis by (simp add: evidenceItemOf_def keys asset own kind)
  next
    case (Some c)
    then show ?thesis using crit [OF Some] by (simp add: evidenceItemOf_def keys asset own kind)
  qed
qed

lemma validateSubmission_ok:
  assumes "validateSubmission v = Inr s"
  shows "okSubmission s"
proof -
  from assms obtain t d summary cs es criteria evidence where t: "okTaskRef t"
      and "isSummary (Str summary)"
      and cs: "mapE criterionOutcomeOf cs = Inr criteria" and es: "mapE evidenceItemOf es = Inr evidence"
      and d: "(if d = SupersededT then
           if \<not> hasOwn v (lit ''replacementTask'') then Inl (completionError CInvalidSupersession)
           else bindE (taskReferenceOf (completionError CInvalidSupersession) (get v ''replacementTask'')) (\<lambda>r.
             if t = r then Inl (completionError CInvalidSupersession) else Inr \<lparr>subTask = t,
               subDisposition = d, subSummary = summary, subCriteria = criteria, subEvidence = evidence, subReplacement = Some r\<rparr>)
         else if hasOwn v (lit ''replacementTask'') then Inl (completionError CInvalidSupersession)
         else Inr \<lparr>subTask = t, subDisposition = d, subSummary = summary, subCriteria = criteria,
           subEvidence = evidence, subReplacement = None\<rparr>) = Inr s"
    unfolding validateSubmission_def Let_def read_simps case_option_Inr
    by (auto dest: taskReferenceOf_ok)
  have "\<forall>x\<in>set criteria. okOutcome x" using cs by (auto dest!: mapE_in_set criterionOutcomeOf_ok)
  moreover have "\<forall>x\<in>set evidence. okItem x" using es by (auto dest!: mapE_in_set evidenceItemOf_ok)
  ultimately show ?thesis using t \<open>isSummary (Str summary)\<close> d
    by (auto simp: okSubmission_def bindE_eq_Inr dest: taskReferenceOf_ok split: if_split_asm)
qed

lemma encSubmission_fields:
  "get (encSubmission s) ''task'' = encTaskRef (subTask s)"
  "get (encSubmission s) ''disposition'' = enumText dispositionStr (subDisposition s)"
  "get (encSubmission s) ''summary'' = Str (subSummary s)"
  "get (encSubmission s) ''criteria'' = Arr (map encCriterionOutcome (subCriteria s))"
  "get (encSubmission s) ''completionEvidence'' = Arr (map encEvidenceItem (subEvidence s))"
  "subReplacement s = Some r \<Longrightarrow> get (encSubmission s) ''replacementTask'' = encTaskRef r"
  "hasOwn (encSubmission s) (lit ''replacementTask'') \<longleftrightarrow> subReplacement s \<noteq> None"
  by (auto simp: encSubmission_def)

lemma validateSubmission_enc:
  assumes "okSubmission s"
  shows "validateSubmission (encSubmission s) = Inr s"
proof -
  have keys: "assertAllowedKeys (encSubmission s) [''task'', ''disposition'', ''summary'', ''criteria'', ''completionEvidence'']
       [''replacementTask''] e = Inr ()" for e
    by (auto simp: read_simps encSubmission_def)
  have word: "enumOf dispositionStr [CompletedT, BlockedT, WaivedT, SkippedT, SupersededT]
      (enumText dispositionStr (subDisposition s)) = Some (subDisposition s)"
    by (rule enum_reads) (rule all_words)
  have "mapE criterionOutcomeOf (map encCriterionOutcome (subCriteria s)) = Inr (subCriteria s)"
      "mapE evidenceItemOf (map encEvidenceItem (subEvidence s)) = Inr (subEvidence s)"
    using assms by (auto simp: mapE_eq_Inr list_all2_conv_all_nth okSubmission_def criterionOutcomeOf_enc
        evidenceItemOf_enc)
  note parts = this keys word encSubmission_fields
  have task: "taskReferenceOf e (encTaskRef (subTask s)) = Inr (subTask s)" for e
    using assms by (simp add: okSubmission_def taskReferenceOf_enc)
  have summary: "strIf isSummary e (Str (subSummary s)) = Inr (subSummary s)" for e
    using assms by (simp add: okSubmission_def strIf_eq_Inr)
  show ?thesis
  proof (cases "subReplacement s")
    case None
    then show ?thesis using assms
      by (simp add: validateSubmission_def Let_def parts task summary okSubmission_def)
  next
    case (Some r)
    then have "taskReferenceOf e (encTaskRef r) = Inr r" for e
      using assms by (simp add: okSubmission_def taskReferenceOf_enc)
    with Some show ?thesis using assms
      by (auto simp add: validateSubmission_def Let_def parts task summary okSubmission_def)
  qed
qed

section \<open>Validated values are plain values\<close>

lemma mapE_json:
  assumes "mapE f xs = Inr ys" "\<forall>x\<in>set xs. is_json x"
    and "\<And>x y. is_json x \<Longrightarrow> f x = Inr y \<Longrightarrow> is_json (enc y)"
  shows "\<forall>y\<in>set ys. is_json (enc y)"
  using assms mapE_in_set [OF assms(1)] by blast

lemma optionalField_json:
  "list_all (\<lambda>kv. is_json (snd kv)) (optionalField k enc x) \<longleftrightarrow> (\<forall>y. x = Some y \<longrightarrow> is_json (enc y))"
  by (cases x) (simp_all add: optionalField_def)

lemma optionalOf_json: "is_json v \<Longrightarrow> optionalOf v k = Some x \<Longrightarrow> is_json x"
  by (auto simp: optionalOf_def field_is_json split: if_splits)

lemma array_json: "is_json v \<Longrightarrow> hasOwn v k \<Longrightarrow> field v k = Arr xs \<Longrightarrow> \<forall>x\<in>set xs. is_json x"
  by (metis field_is_json is_json_list_all)

lemma encTaskRef_json: "okTaskRef t \<Longrightarrow> is_json (encTaskRef t)"
  by (simp add: encTaskRef_def okTaskRef_def safe_wf)

lemma criterionRequirement_json: "is_json (encCriterionRequirement r)"
  by (simp add: encCriterionRequirement_def)

lemma evidenceRequirement_json:
  "is_json v \<Longrightarrow> evidenceRequirementOf v = Inr r \<Longrightarrow> is_json (encEvidenceRequirement r)"
  by (auto simp: evidenceRequirementOf_def encEvidenceRequirement_def Let_def read_simps safe_wf field_is_json)

lemma evidencePolicy_json:
  assumes "is_json v" "completionEvidencePolicyOf v = Inr p"
  shows "is_json (encEvidencePolicy p)"
proof -
  from assms(2) obtain xs where xs: "get v ''requirements'' = Arr xs" "hasOwn v (lit ''requirements'')"
      and rs: "uniqueBy (canonicalSerialize \<circ> evKind) evidenceRequirementOf
        (completionError CInvalidRequirements) xs = Inr (policyRequirements p)"
      and w: "waiverAuthority p = optionalOf v ''waiverAuthority''"
    unfolding completionEvidencePolicyOf_def Let_def read_simps case_option_Inr
    by (auto simp: case_option_Inr bindE_eq_Inr split: if_splits)
  have "mapE evidenceRequirementOf xs = Inr (policyRequirements p)" using rs by (simp add: uniqueBy_eq_Inr)
  then have "\<forall>r\<in>set (policyRequirements p). is_json (encEvidenceRequirement r)"
    by (rule mapE_json) (use array_json [OF assms(1) xs(2,1)] evidenceRequirement_json in auto)
  moreover have "\<forall>x. waiverAuthority p = Some x \<longrightarrow> is_json x" using optionalOf_json [OF assms(1)] w by simp
  ultimately show ?thesis by (auto simp: encEvidencePolicy_def enumText_def optionalField_def list_all_iff split: option.splits)
qed

lemma policy_json:
  assumes "is_json v" "validatePolicy v = Inr p"
  shows "is_json (encCompletionPolicy p)"
proof -
  from assms(2) have "completionEvidencePolicyOf (get v ''completionEvidencePolicy'') = Inr (policyEvidence p)"
      "hasOwn v (lit ''completionEvidencePolicy'')"
    unfolding validatePolicy_def Let_def read_simps case_option_Inr by auto
  then have "is_json (encEvidencePolicy (policyEvidence p))"
    using evidencePolicy_json field_is_json [OF assms(1)] by blast
  then show ?thesis by (simp add: encCompletionPolicy_def criterionRequirement_json list_all_iff)
qed

lemma requirements_json:
  assumes "is_json v" "validateRequirements v = Inr r"
  shows "is_json (encRequirements r)"
proof -
  let ?w = "Obj [(lit ''criteria'', get v ''criteria''),
      (lit ''completionEvidencePolicy'', get v ''completionEvidencePolicy'')]"
  from assms(2) obtain p where p: "validatePolicy ?w = Inr p" "r = completionPolicy.extend p \<lparr>reqTask = reqTask r\<rparr>"
      and own: "hasOwn v (lit ''criteria'')" "hasOwn v (lit ''completionEvidencePolicy'')"
    unfolding validateRequirements_def Let_def read_simps by (auto simp: completionPolicy.extend_def)
  have "is_json ?w" using own by (simp add: field_is_json assms(1))
  then have "is_json (encCompletionPolicy p)" using p(1) by (rule policy_json)
  moreover have "policyCriteria r = policyCriteria p" "policyEvidence r = policyEvidence p"
    by (subst p(2), simp add: completionPolicy.extend_def)+
  moreover have "is_json (encTaskRef (reqTask r))" using validateRequirements_ok [OF assms(2)] encTaskRef_json by blast
  ultimately show ?thesis by (simp add: encRequirements_def encCompletionPolicy_def)
qed

lemma criterionOutcome_json:
  "is_json v \<Longrightarrow> criterionOutcomeOf v = Inr x \<Longrightarrow> is_json (encCriterionOutcome x)"
  by (auto simp: criterionOutcomeOf_def encCriterionOutcome_def Let_def read_simps case_option_Inr enumText_def
      optionalField_json optionalOf_json split: if_splits)

lemma evidenceItem_json:
  "is_json v \<Longrightarrow> evidenceItemOf v = Inr x \<Longrightarrow> is_json (encEvidenceItem x)"
  by (auto simp: evidenceItemOf_def encEvidenceItem_def Let_def read_simps optionalField_json field_is_json
      split: if_splits)

lemma submission_json:
  assumes "is_json v" "validateSubmission v = Inr s"
  shows "is_json (encSubmission s)"
proof -
  from assms(2) obtain cs es where
      cs: "get v ''criteria'' = Arr cs" "hasOwn v (lit ''criteria'')" "mapE criterionOutcomeOf cs = Inr (subCriteria s)"
      and es: "get v ''completionEvidence'' = Arr es" "hasOwn v (lit ''completionEvidence'')"
        "mapE evidenceItemOf es = Inr (subEvidence s)"
    unfolding validateSubmission_def Let_def read_simps case_option_Inr
    by (auto simp: bindE_eq_Inr split: if_split_asm)
  have "\<forall>x\<in>set (subCriteria s). is_json (encCriterionOutcome x)"
    by (rule mapE_json [OF cs(3)]) (use array_json [OF assms(1) cs(2,1)] criterionOutcome_json in auto)
  moreover have "\<forall>x\<in>set (subEvidence s). is_json (encEvidenceItem x)"
    by (rule mapE_json [OF es(3)]) (use array_json [OF assms(1) es(2,1)] evidenceItem_json in auto)
  moreover have "is_json (encTaskRef (subTask s))" "\<forall>r. subReplacement s = Some r \<longrightarrow> is_json (encTaskRef r)"
    using validateSubmission_ok [OF assms(2)] by (auto simp: okSubmission_def encTaskRef_json)
  ultimately show ?thesis by (auto simp: encSubmission_def enumText_def optionalField_def list_all_iff split: option.splits)
qed

interpretation policies: codec validateCompletionPolicy encCompletionPolicy
  "\<lambda>p. okCompletion p \<and> is_json (encCompletionPolicy p)"
proof
  show "validateCompletionPolicy v = Inr p \<Longrightarrow> okCompletion p \<and> is_json (encCompletionPolicy p)" for v p
    by (auto simp: validateCompletionPolicy_def bindE_eq_Inr snapshotCanonical_eq_Inr validateCompletion_ok policy_json)
  show "okCompletion p \<and> is_json (encCompletionPolicy p) \<Longrightarrow>
      validateCompletionPolicy (encCompletionPolicy p) = Inr p" for p
    by (simp add: validateCompletionPolicy_def snapshotCanonical_def validateCompletion_enc)
qed

interpretation requirements: codec validateCompletionRequirements encRequirements
  "\<lambda>r. okCompletion r \<and> okTaskRef (reqTask r) \<and> is_json (encRequirements r)"
proof
  show "validateCompletionRequirements v = Inr r \<Longrightarrow>
      okCompletion r \<and> okTaskRef (reqTask r) \<and> is_json (encRequirements r)" for v r
    by (auto simp: validateCompletionRequirements_def bindE_eq_Inr snapshotCanonical_eq_Inr requirements_json
        dest: validateRequirements_ok)
  show "okCompletion r \<and> okTaskRef (reqTask r) \<and> is_json (encRequirements r) \<Longrightarrow>
      validateCompletionRequirements (encRequirements r) = Inr r" for r
    by (simp add: validateCompletionRequirements_def snapshotCanonical_def validateRequirements_enc)
qed

interpretation submissions: codec validateSubmission encSubmission okSubmission
  by unfold_locales (rule validateSubmission_ok, assumption, rule validateSubmission_enc)

section \<open>Accounting\<close>

text \<open>How many of the items are of the kind a requirement asks for.\<close>

definition evidenceCount :: "evidenceRequirement \<Rightarrow> evidenceItem list \<Rightarrow> nat" where
  "evidenceCount r items = length (filter (\<lambda>x. canonicalSerialize (itemKind x) = canonicalSerialize (evKind r)) items)"

definition enough :: "evidencePolicy \<Rightarrow> evidenceItem list \<Rightarrow> bool" where
  "enough p items \<longleftrightarrow> (\<forall>r\<in>set (policyRequirements p). evMinimum r \<le> int (evidenceCount r items))"

text \<open>The contract of a completed task's evidence, mode by mode.\<close>

definition evidenceMet :: "'a completionPolicy_scheme \<Rightarrow> submission \<Rightarrow> bool" where
  "evidenceMet reqs sub = (let p = policyEvidence reqs;
      onCriterion = (\<lambda>c. filter (\<lambda>x. itemCriterion x = Some c) (subEvidence sub)) in
     case policyMode p of
       NoEvidence \<Rightarrow> True
     | TaskEvidence \<Rightarrow> enough p (filter (\<lambda>x. itemCriterion x = None) (subEvidence sub))
     | RequiredCriteriaEvidence \<Rightarrow>
         (\<forall>c\<in>set (policyCriteria reqs). reqRequired c \<longrightarrow> enough p (onCriterion (reqCriterion c)))
     | AllSatisfiedEvidence \<Rightarrow>
         (\<forall>out\<in>set (subCriteria sub). outDisposition out = SatisfiedD \<longrightarrow> enough p (onCriterion (outCriterion out))))"

lemma assessEvidence_all: "list_all assSatisfied (assessEvidence (policyRequirements p) items) \<longleftrightarrow> enough p items"
  by (auto simp: assessEvidence_def enough_def evidenceCount_def list_all_iff Let_def)

text \<open>The loop over the outcomes: the criteria seen are distinct, declared, and each outcome is admissible.\<close>

lemma accountOutcome_eq_Inr:
  "accountOutcome reqs seen out = Inr seen' \<longleftrightarrow>
     seen' = seen @ [outCriterion out] \<and> outCriterion out \<notin> set seen \<and>
     (\<exists>r. keyed reqCriterion (policyCriteria reqs) (outCriterion out) = Some r \<and>
        assertCriterionOutcome r out (policyEvidence reqs) = Inr ())"
  by (auto simp: accountOutcome_def bindE_eq_Inr case_option_Inr)

lemma accountOutcomes:
  "foldE (accountOutcome reqs) seen outs = Inr seen' \<longleftrightarrow>
     seen' = seen @ map outCriterion outs \<and> distinct (map outCriterion outs) \<and>
     set seen \<inter> outCriterion ` set outs = {} \<and>
     (\<forall>out\<in>set outs. \<exists>r. keyed reqCriterion (policyCriteria reqs) (outCriterion out) = Some r \<and>
        assertCriterionOutcome r out (policyEvidence reqs) = Inr ())"
proof (induction outs arbitrary: seen)
  case (Cons out outs)
  show ?case by (simp add: bindE_eq_Inr accountOutcome_eq_Inr Cons.IH) auto
qed auto

lemma assertCriterionOutcome_ok:
  "assertCriterionOutcome r out p = Inr () \<longleftrightarrow>
     (reqRequired r \<longrightarrow> outDisposition out \<noteq> SkippedD \<and> (outDisposition out = WaivedD \<longrightarrow>
        (\<exists>w a. waiverAuthority p = Some w \<and> outAuthority out = Some a \<and>
           canonicalSerialize a = canonicalSerialize w)))"
  by (auto simp: assertCriterionOutcome_def split: option.splits)

lemma assertEvidenceReferences_ok:
  "assertEvidenceReferences items criteria = Inr () \<longleftrightarrow>
     distinct (map itemAsset items) \<and>
     (\<forall>x\<in>set items. \<forall>c. itemCriterion x = Some c \<longrightarrow> c \<in> reqCriterion ` set criteria)"
proof -
  let ?f = "\<lambda>seen x.
       if itemAsset x \<in> set seen then Inl (completionError CDuplicateCompletionEvidence)
       else if (case itemCriterion x of None \<Rightarrow> False | Some c \<Rightarrow> c \<notin> set (map reqCriterion criteria))
       then Inl (completionError CUnknownCriterion)
       else Inr (seen @ [itemAsset x])"
  have "(\<exists>s. foldE ?f seen xs = Inr s) \<longleftrightarrow> distinct (map itemAsset xs) \<and> set seen \<inter> itemAsset ` set xs = {} \<and>
      (\<forall>x\<in>set xs. \<forall>c. itemCriterion x = Some c \<longrightarrow> c \<in> reqCriterion ` set criteria)" for seen xs
  proof (induction xs arbitrary: seen)
    case (Cons x xs)
    show ?case by (cases "itemCriterion x") (auto simp: Cons.IH)
  qed simp
  from this [of "[]" items] show ?thesis by (simp add: assertEvidenceReferences_def bindE_eq_Inr)
qed

end
