(* ===== verification/CompletionProperties.thy ===== *)
theory CompletionProperties
  imports CompletionFacts
begin

text \<open>
  The properties of completion.ts: an assessment is sound for the submission it accounts for, a
  submitted assessment is accepted exactly when it is the one the code computes, and validated
  requirements are well-typed.
\<close>

section \<open>What an assessment says\<close>

lemma assessCriterion_satisfied:
  assumes "assessCriterion reqs sub c = Inr ca" and "distinct (map outCriterion (subCriteria sub))"
  shows "caSatisfied ca \<longleftrightarrow> (\<forall>out\<in>set (subCriteria sub). outCriterion out = reqCriterion c \<longrightarrow>
     evidenceDue (policyMode (policyEvidence reqs)) (reqRequired c) (outDisposition out) \<longrightarrow>
     enough (policyEvidence reqs) (filter (\<lambda>x. itemCriterion x = Some (reqCriterion c)) (subEvidence sub)))"
proof -
  from assms(1) obtain out where out: "keyed outCriterion (subCriteria sub) (reqCriterion c) = Some out"
      and ca: "caSatisfied ca \<longleftrightarrow> (evidenceDue (policyMode (policyEvidence reqs)) (reqRequired c) (outDisposition out) \<longrightarrow>
        enough (policyEvidence reqs) (filter (\<lambda>x. itemCriterion x = Some (reqCriterion c)) (subEvidence sub)))"
    by (auto simp: assessCriterion_def Let_def assessEvidence_all split: option.splits)
  have "o' = out" if "o' \<in> set (subCriteria sub)" "outCriterion o' = reqCriterion c" for o'
    using that out keyed_Some_iff [OF assms(2)] by (metis option.inject)
  with out ca show ?thesis by (auto dest: keyed_Some)
qed

lemma outcomes_declared:
  assumes "foldE (accountOutcome reqs) seen outs = Inr seen'"
  shows "distinct (map outCriterion outs)" "outCriterion ` set outs \<subseteq> reqCriterion ` set (policyCriteria reqs)"
proof -
  from assms have outs: "distinct (map outCriterion outs)"
    "\<And>out. out \<in> set outs \<Longrightarrow> \<exists>r. keyed reqCriterion (policyCriteria reqs) (outCriterion out) = Some r"
    unfolding accountOutcomes by blast+
  show "distinct (map outCriterion outs)" by (rule outs(1))
  show "outCriterion ` set outs \<subseteq> reqCriterion ` set (policyCriteria reqs)"
  proof (rule image_subsetI)
    fix out assume "out \<in> set outs"
    from outs(2) [OF this] obtain r where "keyed reqCriterion (policyCriteria reqs) (outCriterion out) = Some r" ..
    from keyed_Some [OF this] show "outCriterion out \<in> reqCriterion ` set (policyCriteria reqs)"
      by (intro rev_image_eqI [of r]) simp_all
  qed
qed

lemma assessCriteria_satisfied:
  assumes "mapE (assessCriterion reqs sub) cs = Inr cas" and "distinct (map outCriterion (subCriteria sub))"
  shows "list_all caSatisfied cas \<longleftrightarrow> (\<forall>c\<in>set cs. \<forall>out\<in>set (subCriteria sub).
     outCriterion out = reqCriterion c \<longrightarrow>
     evidenceDue (policyMode (policyEvidence reqs)) (reqRequired c) (outDisposition out) \<longrightarrow>
     enough (policyEvidence reqs) (filter (\<lambda>x. itemCriterion x = Some (reqCriterion c)) (subEvidence sub)))"
  using assms(1)
proof (induction cs arbitrary: cas)
  case (Cons c cs)
  from Cons.prems obtain ca cas' where parts: "assessCriterion reqs sub c = Inr ca"
      "mapE (assessCriterion reqs sub) cs = Inr cas'" "cas = ca # cas'"
    by (auto simp: bindE_eq_Inr)
  show ?case
    unfolding parts(3) list.pred_inject Cons.IH [OF parts(2)] assessCriterion_satisfied [OF parts(1) assms(2)]
    by simp
qed simp

lemma assess_parts:
  assumes "assessCompletionSnapshots r s = Inr a"
  shows "\<exists>reqs. validateRequirements r = Inr reqs \<and> validateSubmission s = Inr (accSubmission a) \<and>
     subTask (accSubmission a) = reqTask reqs \<and>
     foldE (accountOutcome reqs) [] (subCriteria (accSubmission a)) = Inr (map outCriterion (subCriteria (accSubmission a))) \<and>
     reqCriterion ` set (policyCriteria reqs) \<subseteq> outCriterion ` set (subCriteria (accSubmission a)) \<and>
     assertEvidenceReferences (subEvidence (accSubmission a)) (policyCriteria reqs) = Inr () \<and>
     mapE (assessCriterion reqs (accSubmission a)) (policyCriteria reqs) = Inr (accCriteria a) \<and>
     accTaskEvidence a = (if policyMode (policyEvidence reqs) = TaskEvidence
       then assessEvidence (policyRequirements (policyEvidence reqs))
         (filter (\<lambda>x. itemCriterion x = None) (subEvidence (accSubmission a))) else []) \<and>
     accSatisfied a = (list_all assSatisfied (accTaskEvidence a) \<and> list_all caSatisfied (accCriteria a))"
  using assms unfolding assessCompletionSnapshots_def bindE_eq_Inr if_Inl_eq_Inr Let_def
  by (elim exE conjE) (auto simp: accountOutcomes list_ex_iff)

lemma assess_satisfied:
  assumes "assessCompletionSnapshots r s = Inr a" and "validateRequirements r = Inr reqs"
  shows "accSatisfied a \<longleftrightarrow> evidenceMet reqs (accSubmission a)"
proof -
  let ?sub = "accSubmission a" and ?p = "policyEvidence reqs"
  from assess_parts [OF assms(1)] assms(2)
  have outs: "foldE (accountOutcome reqs) [] (subCriteria ?sub) = Inr (map outCriterion (subCriteria ?sub))"
    and all: "reqCriterion ` set (policyCriteria reqs) \<subseteq> outCriterion ` set (subCriteria ?sub)"
    and cas: "mapE (assessCriterion reqs ?sub) (policyCriteria reqs) = Inr (accCriteria a)"
    and task: "accTaskEvidence a = (if policyMode ?p = TaskEvidence
       then assessEvidence (policyRequirements ?p)
         (filter (\<lambda>x. itemCriterion x = None) (subEvidence ?sub)) else [])"
    and sat: "accSatisfied a = (list_all assSatisfied (accTaskEvidence a) \<and> list_all caSatisfied (accCriteria a))"
    by auto
  from outs have dist: "distinct (map outCriterion (subCriteria ?sub))"
    and known: "\<forall>out\<in>set (subCriteria ?sub). \<exists>c\<in>set (policyCriteria reqs). reqCriterion c = outCriterion out"
    by (auto simp: accountOutcomes dest!: keyed_Some)
  note crit = assessCriteria_satisfied [OF cas dist]
  show ?thesis
  proof (cases "policyMode ?p")
    case NoEvidence
    then show ?thesis by (simp add: sat task crit evidenceDue_def evidenceMet_def Let_def)
  next
    case TaskEvidence
    then show ?thesis by (simp add: sat task crit evidenceDue_def evidenceMet_def Let_def assessEvidence_all)
  next
    case RequiredCriteriaEvidence
    have "\<exists>out\<in>set (subCriteria ?sub). outCriterion out = reqCriterion c" if "c \<in> set (policyCriteria reqs)" for c
      using all that by force
    with RequiredCriteriaEvidence show ?thesis
      by (simp add: sat task crit evidenceDue_def evidenceMet_def Let_def)
  next
    case AllSatisfiedEvidence
    then show ?thesis using known
      by (simp add: sat task crit evidenceDue_def evidenceMet_def Let_def) metis
  qed
qed

lemma assess_sound:
  assumes json: "is_json r" "is_json s" and a: "assessCompletionSnapshots r s = Inr a"
  shows "\<exists>reqs. validateRequirements r = Inr reqs \<and> validateSubmission s = Inr (accSubmission a) \<and>
     subTask (accSubmission a) = reqTask reqs \<and>
     distinct (map outCriterion (subCriteria (accSubmission a))) \<and>
     outCriterion ` set (subCriteria (accSubmission a)) = reqCriterion ` set (policyCriteria reqs) \<and>
     (\<forall>c\<in>set (policyCriteria reqs). \<forall>out\<in>set (subCriteria (accSubmission a)).
        reqRequired c \<and> outCriterion out = reqCriterion c \<longrightarrow>
        outDisposition out \<noteq> SkippedD \<and> (outDisposition out = WaivedD \<longrightarrow>
          (\<exists>w x. waiverAuthority (policyEvidence reqs) = Some w \<and> outAuthority out = Some x \<and>
             norm x = norm w))) \<and>
     distinct (map itemAsset (subEvidence (accSubmission a))) \<and>
     (accSatisfied a \<longleftrightarrow> evidenceMet reqs (accSubmission a))"
proof -
  let ?sub = "accSubmission a"
  from assess_parts [OF a] obtain reqs where reqs: "validateRequirements r = Inr reqs"
      "validateSubmission s = Inr ?sub" "subTask ?sub = reqTask reqs"
    and outs: "foldE (accountOutcome reqs) [] (subCriteria ?sub) = Inr (map outCriterion (subCriteria ?sub))"
    and all: "reqCriterion ` set (policyCriteria reqs) \<subseteq> outCriterion ` set (subCriteria ?sub)"
    and refs: "assertEvidenceReferences (subEvidence ?sub) (policyCriteria reqs) = Inr ()"
    by blast
  have cs: "distinct (map reqCriterion (policyCriteria reqs))"
    using validateRequirements_ok [OF reqs(1)] by (simp add: okCompletion_def okCriteria_def)
  have wj: "is_json w" if "waiverAuthority (policyEvidence reqs) = Some w" for w
    using requirements_json [OF json(1) reqs(1)] that
    by (simp add: encRequirements_def encCompletionPolicy_def encEvidencePolicy_def optionalField_def)
  have xj: "is_json x" if "out \<in> set (subCriteria ?sub)" "outAuthority out = Some x" for out x
    using submission_json [OF json(2) reqs(2)] that
    by (auto simp: encSubmission_def encCriterionOutcome_def optionalField_def list_all_iff)
  have adm: "outDisposition out \<noteq> SkippedD \<and> (outDisposition out = WaivedD \<longrightarrow>
        (\<exists>w x. waiverAuthority (policyEvidence reqs) = Some w \<and> outAuthority out = Some x \<and> norm x = norm w))"
    if "c \<in> set (policyCriteria reqs)" "out \<in> set (subCriteria ?sub)" "reqRequired c" "outCriterion out = reqCriterion c"
    for c out
  proof -
    have "keyed reqCriterion (policyCriteria reqs) (outCriterion out) = Some c"
      using that by (simp add: keyed_Some_iff [OF cs])
    then have "assertCriterionOutcome c out (policyEvidence reqs) = Inr ()"
      using outs that(2) by (auto simp: accountOutcomes)
    then show ?thesis using that(2,3) wj xj
      by (auto simp: assertCriterionOutcome_ok canonicalSerialize_def serialize_eq_iff)
  qed
  have "distinct (map outCriterion (subCriteria ?sub))"
      "outCriterion ` set (subCriteria ?sub) \<subseteq> reqCriterion ` set (policyCriteria reqs)"
    using outcomes_declared [OF outs] by simp_all
  moreover have "distinct (map itemAsset (subEvidence ?sub))" using refs by (simp add: assertEvidenceReferences_ok)
  ultimately show ?thesis using reqs all adm assess_satisfied [OF a reqs(1)]
    by (intro exI [of _ reqs] conjI) (simp_all add: subset_antisym)
qed

text \<open>C20. An assessment that is returned is sound: it accounts for the task the requirements are
  about, the submission gives exactly one outcome to each declared criterion and to no other, a
  required criterion is never skipped and is waived only on the authority the policy names, no asset
  is counted twice, and the assessment reports satisfied evidence exactly when the submission meets
  the minimum counts of the policy's mode.\<close>

theorem accounting_sound:
  assumes "assessCompletionAccounting r s = Inr a"
  shows "\<exists>reqs. validateCompletionRequirements r = Inr reqs \<and> validateSubmission s = Inr (accSubmission a) \<and>
     subTask (accSubmission a) = reqTask reqs \<and>
     distinct (map outCriterion (subCriteria (accSubmission a))) \<and>
     outCriterion ` set (subCriteria (accSubmission a)) = reqCriterion ` set (policyCriteria reqs) \<and>
     (\<forall>c\<in>set (policyCriteria reqs). \<forall>out\<in>set (subCriteria (accSubmission a)).
        reqRequired c \<and> outCriterion out = reqCriterion c \<longrightarrow>
        outDisposition out \<noteq> SkippedD \<and> (outDisposition out = WaivedD \<longrightarrow>
          (\<exists>w x. waiverAuthority (policyEvidence reqs) = Some w \<and> outAuthority out = Some x \<and>
             norm x = norm w))) \<and>
     distinct (map itemAsset (subEvidence (accSubmission a))) \<and>
     (accSatisfied a \<longleftrightarrow> evidenceMet reqs (accSubmission a))"
proof -
  from assms have json: "is_json r" "is_json s" and a: "assessCompletionSnapshots r s = Inr a"
    by (simp_all add: assessCompletionAccounting_def err_simps)
  have "validateCompletionRequirements r = validateRequirements r"
    by (simp add: validateCompletionRequirements_def snapshotCanonical_def json(1))
  then show ?thesis using assess_sound [OF json a] by simp
qed

text \<open>The example: one required criterion, one log of task evidence, a completed submission.\<close>

definition demoTask :: taskGenRef where
  "demoTask = \<lparr>trTask = lit ''task_a'', trGeneration = 1, trContext = replicate 64 48\<rparr>"

definition demoRequirements :: requirements where
  "demoRequirements = \<lparr>policyCriteria = [\<lparr>reqCriterion = lit ''criterion_c'', reqRequired = True\<rparr>],
     policyEvidence = \<lparr>policyMode = TaskEvidence, policyRequirements = [\<lparr>evKind = Str (lit ''log''), evMinimum = 1\<rparr>],
       waiverAuthority = None\<rparr>, reqTask = demoTask\<rparr>"

definition demoSubmission :: submission where
  "demoSubmission = \<lparr>subTask = demoTask, subDisposition = CompletedT, subSummary = lit ''done'',
     subCriteria = [\<lparr>outCriterion = lit ''criterion_c'', outDisposition = SatisfiedD, outAuthority = None\<rparr>],
     subEvidence = [\<lparr>itemAsset = lit ''asset_l'', itemKind = Str (lit ''log''), itemDescriptor = Null,
       itemCriterion = None\<rparr>], subReplacement = None\<rparr>"

definition demoAccounting :: accounting where
  "demoAccounting = \<lparr>accSubmission = demoSubmission,
     accCriteria = [\<lparr>caCriterion = lit ''criterion_c'', caRequired = True, caDisposition = SatisfiedD,
       caEvidence = [], caSatisfied = True\<rparr>],
     accTaskEvidence = [\<lparr>assKind = Str (lit ''log''), assMinimum = 1, assCount = 1, assSatisfied = True\<rparr>],
     accSatisfied = True\<rparr>"

lemma demo_runs:
  "validateCompletionRequirements (encRequirements demoRequirements) = Inr demoRequirements \<and>
   assessCompletionAccounting (encRequirements demoRequirements) (encSubmission demoSubmission) = Inr demoAccounting"
  by code_simp

lemmas demo_valid = demo_runs [THEN conjunct1] and demo_assessed = demo_runs [THEN conjunct2]

theorem accounting_sound_witness:
  "evidenceMet demoRequirements demoSubmission \<and>
   outCriterion ` set (subCriteria demoSubmission) = reqCriterion ` set (policyCriteria demoRequirements)"
proof -
  from accounting_sound [OF demo_assessed] demo_valid
  have "accSatisfied demoAccounting \<longleftrightarrow> evidenceMet demoRequirements (accSubmission demoAccounting)"
    "outCriterion ` set (subCriteria (accSubmission demoAccounting)) = reqCriterion ` set (policyCriteria demoRequirements)"
    by auto
  then show ?thesis by (simp add: demoAccounting_def)
qed

section \<open>Reassessment\<close>

lemma encAccounting_json:
  assumes "assessCompletionSnapshots r s = Inr a" "is_json r" "is_json s"
    and "int (length (subEvidence (accSubmission a))) \<le> maxSafe"
  shows "is_json (encAccounting a)"
proof -
  let ?sub = "accSubmission a"
  from assess_parts [OF assms(1)] obtain reqs where reqs: "validateRequirements r = Inr reqs" "validateSubmission s = Inr ?sub"
    and cas: "mapE (assessCriterion reqs ?sub) (policyCriteria reqs) = Inr (accCriteria a)"
    and task: "accTaskEvidence a = (if policyMode (policyEvidence reqs) = TaskEvidence
       then assessEvidence (policyRequirements (policyEvidence reqs))
         (filter (\<lambda>x. itemCriterion x = None) (subEvidence ?sub)) else [])" by blast
  have kinds: "\<forall>r\<in>set (policyRequirements (policyEvidence reqs)). is_json (evKind r) \<and> isSafe (evMinimum r)"
    using requirements_json [OF assms(2) reqs(1)] validateRequirements_ok [OF reqs(1)]
    by (auto simp: encRequirements_def encCompletionPolicy_def encEvidencePolicy_def encEvidenceRequirement_def
        list_all_iff okCompletion_def okEvidencePolicy_def okEvidenceRequirements_def)
  have ev: "\<forall>x\<in>set (assessEvidence (policyRequirements (policyEvidence reqs)) (filter P (subEvidence ?sub))).
      is_json (encEvidenceAssessment x)" for P
  proof -
    have "length (filter Q (filter P (subEvidence ?sub))) \<le> length (subEvidence ?sub)" for Q
      by (meson le_trans length_filter_le)
    then have "isSafe (int (length (filter Q (filter P (subEvidence ?sub)))))" for Q
      using assms(4) by (smt (verit) isSafe_def of_nat_0_le_iff of_nat_mono)
    then show ?thesis using kinds
      by (auto simp: assessEvidence_def encEvidenceAssessment_def Let_def safe_wf simp del: filter_filter)
  qed
  have "\<forall>x\<in>set (accCriteria a). is_json (encCriterionAssessment x)"
  proof
    fix x assume "x \<in> set (accCriteria a)"
    with mapE_in_set [OF cas] obtain c where "assessCriterion reqs ?sub c = Inr x" by blast
    then show "is_json (encCriterionAssessment x)" using ev
      by (auto simp: assessCriterion_def encCriterionAssessment_def enumText_def Let_def list_all_iff split: option.splits)
  qed
  moreover have "\<forall>x\<in>set (accTaskEvidence a). is_json (encEvidenceAssessment x)" using ev [of "\<lambda>x. itemCriterion x = None"] by (simp add: task)
  ultimately show ?thesis using submission_json [OF assms(3) reqs(2)]
    by (simp add: encAccounting_def list_all_iff)
qed

lemma assess_enc:
  assumes "assessCompletionSnapshots r s = Inr a"
  shows "assessCompletionSnapshots r (encSubmission (accSubmission a)) = Inr a"
proof -
  have "validateSubmission s = Inr (accSubmission a)" using assess_parts [OF assms] by blast
  moreover from this have "validateSubmission (encSubmission (accSubmission a)) = Inr (accSubmission a)"
    by (rule submissions.dec_again)
  ultimately show ?thesis using assms by (simp add: assessCompletionSnapshots_def)
qed

lemma reassess_eq_Inr:
  "reassessCompletionAccounting r v = Inr b \<longleftrightarrow> is_json r \<and> is_json v \<and> isRecord v \<and>
     hasOwn v (lit ''submission'') \<and> assessCompletionSnapshots r (get v ''submission'') = Inr b \<and>
     canonicalSerialize v = canonicalSerialize (encAccounting b)"
proof -
  have catch: "(case m of Inl (CompletionAccountingError c) \<Rightarrow> Inl e | m' \<Rightarrow> m') = Inr x \<longleftrightarrow> m = Inr x"
    for m :: "exn + accounting" and e x by (auto split: sum.splits exn.splits)
  show ?thesis
    by (auto simp: reassessCompletionAccounting_def Let_def bindE_eq_Inr snapshotCanonical_eq_Inr catch
        assertAllowedKeys_eq_Inr)
qed

text \<open>Reassessment accepts exactly what the code computes. The plain form of every assessment
  reassesses to that assessment against the same requirements, and whatever is accepted is, up to
  the order of properties, the assessment of the submission it contains: no count, verdict or
  criterion of a submitted assessment can be forged. The bound on the number of evidence items is
  that of a JavaScript array.\<close>

theorem reassess_exact:
  assumes "assessCompletionAccounting r s = Inr a"
    and "int (length (subEvidence (accSubmission a))) \<le> maxSafe"
  shows "reassessCompletionAccounting r (encAccounting a) = Inr a \<and>
     (\<forall>v b. reassessCompletionAccounting r v = Inr b \<longrightarrow>
        assessCompletionAccounting r (get v ''submission'') = Inr b \<and>
        (int (length (subEvidence (accSubmission b))) \<le> maxSafe \<longrightarrow> norm v = norm (encAccounting b)))"
proof (intro conjI allI impI)
  from assms(1) have json: "is_json r" "is_json s" and a: "assessCompletionSnapshots r s = Inr a"
    by (simp_all add: assessCompletionAccounting_def err_simps)
  from encAccounting_json [OF a json assms(2)] assess_enc [OF a] json
  show "reassessCompletionAccounting r (encAccounting a) = Inr a"
    by (simp add: reassess_eq_Inr) (simp add: encAccounting_def)
next
  fix v b assume "reassessCompletionAccounting r v = Inr b"
  then have v: "is_json r" "is_json v" "hasOwn v (lit ''submission'')"
      "assessCompletionSnapshots r (get v ''submission'') = Inr b"
      "canonicalSerialize v = canonicalSerialize (encAccounting b)" by (simp_all add: reassess_eq_Inr)
  have s: "is_json (get v ''submission'')" using v(2,3) by (rule field_is_json)
  then show "assessCompletionAccounting r (get v ''submission'') = Inr b"
    by (simp add: assessCompletionAccounting_def snapshotCanonical_def v)
  assume "int (length (subEvidence (accSubmission b))) \<le> maxSafe"
  then have "is_json (encAccounting b)" using encAccounting_json [OF v(4,1) s] by blast
  with v show "norm v = norm (encAccounting b)" by (simp add: canonicalSerialize_def serialize_eq_iff)
qed

theorem reassess_exact_witness:
  "reassessCompletionAccounting (encRequirements demoRequirements) (encAccounting demoAccounting) = Inr demoAccounting"
  using reassess_exact [OF demo_assessed] by (simp add: demoAccounting_def demoSubmission_def maxSafe_def)

section \<open>Validated requirements\<close>

text \<open>C40. Validated requirements have the types the interfaces declare: the task and criterion
  identities, the generation and the minimum counts are in their ranges, no criterion and no kind of
  evidence occurs twice, a policy asks for evidence exactly when its mode is not \<open>none\<close>, and the
  value the code returns validates to itself.\<close>

theorem requirements_typed:
  assumes "validateCompletionRequirements v = Inr r"
  shows "isIdentity TaskKind (Str (trTask (reqTask r))) \<and> sha256Pattern (trContext (reqTask r)) \<and>
     1 \<le> trGeneration (reqTask r) \<and> trGeneration (reqTask r) \<le> maxSafe \<and>
     (\<forall>c\<in>set (policyCriteria r). isIdentity CriterionKind (Str (reqCriterion c))) \<and>
     distinct (map reqCriterion (policyCriteria r)) \<and>
     (\<forall>e\<in>set (policyRequirements (policyEvidence r)). 1 \<le> evMinimum e \<and> evMinimum e \<le> maxSafe \<and> is_json (evKind e)) \<and>
     distinct (map (norm \<circ> evKind) (policyRequirements (policyEvidence r))) \<and>
     (policyMode (policyEvidence r) = NoEvidence \<longleftrightarrow> policyRequirements (policyEvidence r) = []) \<and>
     validateCompletionRequirements (encRequirements r) = Inr r"
proof -
  have ok: "okCompletion r" "okTaskRef (reqTask r)" "is_json (encRequirements r)"
    using requirements.dec_ok [OF assms] by simp_all
  have json: "\<forall>e\<in>set (policyRequirements (policyEvidence r)). is_json (evKind e)"
    using ok(3) by (auto simp: encRequirements_def encCompletionPolicy_def encEvidencePolicy_def
        encEvidenceRequirement_def list_all_iff)
  have "distinct (map (canonicalSerialize \<circ> evKind) (policyRequirements (policyEvidence r)))"
    using ok(1) by (simp add: okCompletion_def okEvidencePolicy_def okEvidenceRequirements_def)
  then have "distinct (map (norm \<circ> evKind) (policyRequirements (policyEvidence r)))"
    using json by (auto simp: distinct_map inj_on_def canonicalSerialize_def serialize_eq_iff)
  then show ?thesis using ok json requirements.dec_again [OF assms]
    by (auto simp: okCompletion_def okEvidencePolicy_def okEvidenceRequirements_def okCriteria_def okTaskRef_def
        safe_bounds)
qed

theorem requirements_typed_witness:
  "isIdentity TaskKind (Str (trTask (reqTask demoRequirements)))"
  using requirements_typed [OF demo_valid] by blast

end
