(* ===== verification/Graph.thy ===== *)
theory Graph
  imports Completion
begin

text \<open>
  packages/kernel/src/graph.ts: definitions of a workflow, its phases, tasks and criteria, and
  their compilation into a workflow graph.

  The input of a compilation is an untrusted value, so each operation reads it through \<open>get\<close>. What
  it compiles is a record per kind of definition, each extending the fields of the one before.
  Messages are left out, but not the conversion to a string of a value they mention: on an object
  it throws a \<open>TypeError\<close>, because the objects of a snapshot have no prototype.
\<close>

section \<open>Definitions and graphs\<close>

datatype nodeKind = WorkflowNode | PhaseNode | TaskNode | CriterionNode

fun nodeKindStr :: "nodeKind \<Rightarrow> string" where
  "nodeKindStr WorkflowNode = ''workflow''"
| "nodeKindStr PhaseNode = ''phase''"
| "nodeKindStr TaskNode = ''task''"
| "nodeKindStr CriterionNode = ''criterion''"

fun nodeIdentity :: "nodeKind \<Rightarrow> identityKind" where
  "nodeIdentity WorkflowNode = WorkflowKind"
| "nodeIdentity PhaseNode = PhaseKind"
| "nodeIdentity TaskNode = TaskKind"
| "nodeIdentity CriterionNode = CriterionKind"

record commonDef =
  defId :: jstr
  defKey :: jstr
  defTitle :: "val option"
  defGeneration :: int
  defLocator :: jstr
  defPointer :: jstr
  defInput :: val
  definitionDigest :: jstr

record ownedDef = commonDef +
  parentId :: jstr
  supersedes :: "jstr list"

record phaseDef = ownedDef +
  dependsOn :: "jstr list"

record taskDef = phaseDef +
  defPolicy :: completionPolicy

datatype graphNode = WorkflowN commonDef | PhaseN phaseDef | TaskN taskDef | CriterionN ownedDef

fun nodeId :: "graphNode \<Rightarrow> jstr" where
  "nodeId (WorkflowN d) = defId d"
| "nodeId (PhaseN d) = defId d"
| "nodeId (TaskN d) = defId d"
| "nodeId (CriterionN d) = defId d"

fun nodeDigest :: "graphNode \<Rightarrow> jstr" where
  "nodeDigest (WorkflowN d) = definitionDigest d"
| "nodeDigest (PhaseN d) = definitionDigest d"
| "nodeDigest (TaskN d) = definitionDigest d"
| "nodeDigest (CriterionN d) = definitionDigest d"

datatype edgeKind = Contains | DependsOn | Supersedes

fun edgeKindStr :: "edgeKind \<Rightarrow> string" where
  "edgeKindStr Contains = ''contains''"
| "edgeKindStr DependsOn = ''depends-on''"
| "edgeKindStr Supersedes = ''supersedes''"

record graphEdge =
  edgeKind :: edgeKind
  edgeFrom :: jstr
  edgeTo :: jstr

record workflowGraph =
  graphWorkflow :: jstr
  revisionDigest :: jstr
  graphNodes :: "graphNode list"
  graphEdges :: "graphEdge list"

section \<open>Conversions to strings and numbers\<close>

text \<open>\<open>String(v)\<close> of a value of a snapshot.\<close>

fun textOf :: "val \<Rightarrow> exn + jstr" where
  "textOf Undef = Inr (lit ''undefined'')"
| "textOf Null = Inr (lit ''null'')"
| "textOf (Bool b) = Inr (if b then lit ''true'' else lit ''false'')"
| "textOf (Num n) = Inr (numberStr n)"
| "textOf (Str s) = Inr s"
| "textOf (Arr xs) = bindE (mapE (\<lambda>x. if x = Null \<or> x = Undef then Inr [] else textOf x) xs)
     (\<lambda>ts. Inr (joinWith (lit '','') ts))"
| "textOf (Obj kvs) = Inl TypeError"
| "textOf Exotic = Inl TypeError"

text \<open>
  \<open>s > 256\<close> on a string: the string is trimmed and read as a numeric literal. Below the midpoint
  of 256 and the next double the value rounds to 256.
\<close>

definition trimText :: "jstr \<Rightarrow> jstr" where
  "trimText s = rev (dropWhile isTrimmed (rev (dropWhile isTrimmed s)))"

definition above256 :: "int \<Rightarrow> int \<Rightarrow> bool" where
  "above256 m e = (if 0 \<le> e then m * 10 ^ nat e * 2 ^ 45 > 2 ^ 53 + 1
     else m * 2 ^ 45 > (2 ^ 53 + 1) * 10 ^ nat (- e))"

definition digitValue :: "16 word \<Rightarrow> nat" where
  "digitValue c = (if isDigit c then unat c - 48
     else if 97 \<le> c \<and> c \<le> 122 then unat c - 87
     else if 65 \<le> c \<and> c \<le> 90 then unat c - 55 else 99)"

definition radixAbove256 :: "nat \<Rightarrow> jstr \<Rightarrow> bool" where
  "radixAbove256 base ds \<longleftrightarrow> ds \<noteq> [] \<and> list_all (\<lambda>c. digitValue c < base) ds \<and>
     above256 (int (foldl (\<lambda>a c. base * a + digitValue c) 0 ds)) 0"

definition unsignedText :: "jstr \<Rightarrow> jstr" where
  "unsignedText s = (if s \<noteq> [] \<and> (hd s = 43 \<or> hd s = 45) then tl s else s)"

definition decimalAbove256 :: "jstr \<Rightarrow> bool" where
  "decimalAbove256 s =
     (let body = unsignedText s; mantissa = takeWhile (\<lambda>c. c \<noteq> 101 \<and> c \<noteq> 69) body;
          exponent = dropWhile (\<lambda>c. c \<noteq> 101 \<and> c \<noteq> 69) body;
          whole = takeWhile (\<lambda>c. c \<noteq> 46) mantissa; fraction = tl (dropWhile (\<lambda>c. c \<noteq> 46) mantissa);
          power = unsignedText (tl exponent)
      in s \<noteq> [] \<and> hd s \<noteq> 45 \<and>
        (body = lit ''Infinity'' \<or>
         whole @ fraction \<noteq> [] \<and> list_all isDigit (whole @ fraction) \<and>
         (exponent = [] \<or> power \<noteq> [] \<and> list_all isDigit power) \<and>
         above256 (int (natOf (whole @ fraction)))
           ((if exponent = [] then 0 else if hd (tl exponent) = 45 then - int (natOf power) else int (natOf power))
             - int (length fraction))))"

definition textAbove256 :: "jstr \<Rightarrow> bool" where
  "textAbove256 t = (case trimText t of
     a # b # ds \<Rightarrow>
       if a = 48 \<and> (b = 120 \<or> b = 88) then radixAbove256 16 ds
       else if a = 48 \<and> (b = 111 \<or> b = 79) then radixAbove256 8 ds
       else if a = 48 \<and> (b = 98 \<or> b = 66) then radixAbove256 2 ds
       else decimalAbove256 (a # b # ds)
   | s \<Rightarrow> decimalAbove256 s)"

text \<open>\<open>v > 256\<close>.\<close>

definition exceeds256 :: "val \<Rightarrow> exn + bool" where
  "exceeds256 v = (case v of
     Num n \<Rightarrow> Inr (num_less (Whole 256) n)
   | Str s \<Rightarrow> Inr (textAbove256 s)
   | Arr xs \<Rightarrow> bindE (textOf v) (\<lambda>s. Inr (textAbove256 s))
   | Obj _ \<Rightarrow> Inl TypeError
   | Exotic \<Rightarrow> Inl TypeError
   | _ \<Rightarrow> Inr False)"

text \<open>\<open>v.length\<close>.\<close>

definition lengthOf :: "val \<Rightarrow> exn + val" where
  "lengthOf v = (case v of
     Undef \<Rightarrow> Inl TypeError
   | Null \<Rightarrow> Inl TypeError
   | Str s \<Rightarrow> Inr (Num (Whole (int (length s))))
   | Arr xs \<Rightarrow> Inr (Num (Whole (int (length xs))))
   | _ \<Rightarrow> Inr (get v ''length''))"

section \<open>Checks of the input\<close>

abbreviation compilationError :: "graph_code \<Rightarrow> exn" where
  "compilationError \<equiv> GraphCompilationError"

definition sourcePointer :: "val \<Rightarrow> exn + jstr \<times> jstr" where
  "sourcePointer v = (let e = compilationError WInvalidSource in
     bindE (strIf (\<lambda>x. x \<noteq> Str []) e (get v ''locator'')) (\<lambda>l.
     bindE (strIf (\<lambda>_. True) e (get v ''pointer'')) (\<lambda>p. Inr (l, p))))"

definition assertDefinitionScalars :: "nodeKind \<Rightarrow> val \<Rightarrow> exn + unit" where
  "assertDefinitionScalars kind v =
     (if \<not> isIdentity (nodeIdentity kind) (get v ''id'') then Inl (compilationError WInvalidIdentity)
      else if \<not> isConsumerKey (get v ''key'') then Inl (compilationError WInvalidKey)
      else if \<not> isDefinitionGeneration (get v ''generation'') then Inl (compilationError WInvalidGeneration)
      else bindE (sourcePointer (get v ''source'')) (\<lambda>_. Inr ()))"

definition assertRelationIdentities :: "nodeKind \<Rightarrow> val \<Rightarrow> exn + unit" where
  "assertRelationIdentities kind v = (case v of
     Undef \<Rightarrow> Inr ()
   | Arr xs \<Rightarrow> forE (\<lambda>x. if isIdentity (nodeIdentity kind) x then Inr ()
       else Inl (compilationError WInvalidRelation)) xs
   | _ \<Rightarrow> Inl (compilationError WInvalidRelation))"

fun parentKinds :: "nodeKind \<Rightarrow> identityKind list" where
  "parentKinds WorkflowNode = []"
| "parentKinds PhaseNode = [WorkflowKind, PhaseKind]"
| "parentKinds TaskNode = [PhaseKind]"
| "parentKinds CriterionNode = [TaskKind]"

definition isParent :: "nodeKind \<Rightarrow> val \<Rightarrow> bool" where
  "isParent kind v = list_ex (\<lambda>k. isIdentity k v) (parentKinds kind)"

definition invalidParent :: "val \<Rightarrow> exn + unit" where
  "invalidParent v = bindE (textOf v) (\<lambda>_. Inl (compilationError WInvalidParent))"

definition assertParent :: "nodeKind \<Rightarrow> val \<Rightarrow> exn + unit" where
  "assertParent kind v = (if isParent kind v then Inr () else invalidParent v)"

definition compileCompletionPolicy :: "val \<Rightarrow> exn + completionPolicy" where
  "compileCompletionPolicy v = (case validateCompletionPolicy v of
     Inl (CompletionAccountingError _) \<Rightarrow> Inl (compilationError WInvalidCompletionPolicy)
   | m \<Rightarrow> m)"

definition assertPhaseInput :: "val \<Rightarrow> exn + unit" where
  "assertPhaseInput v =
     bindE (assertDefinitionScalars PhaseNode v) (\<lambda>_.
     bindE (assertParent PhaseNode (get v ''parentId'')) (\<lambda>_.
     bindE (assertRelationIdentities PhaseNode (get v ''dependsOn'')) (\<lambda>_.
       assertRelationIdentities PhaseNode (get v ''supersedes''))))"

definition assertTaskInput :: "val \<Rightarrow> exn + unit" where
  "assertTaskInput v =
     bindE (assertDefinitionScalars TaskNode v) (\<lambda>_.
     bindE (assertParent TaskNode (get v ''parentId'')) (\<lambda>_.
     bindE (assertRelationIdentities TaskNode (get v ''dependsOn'')) (\<lambda>_.
     bindE (assertRelationIdentities TaskNode (get v ''supersedes'')) (\<lambda>_.
     bindE (compileCompletionPolicy (get v ''completionPolicy'')) (\<lambda>_. Inr ())))))"

definition assertCriterionInput :: "val \<Rightarrow> exn + unit" where
  "assertCriterionInput v =
     bindE (assertDefinitionScalars CriterionNode v) (\<lambda>_.
     bindE (assertParent CriterionNode (get v ''parentId'')) (\<lambda>_.
       assertRelationIdentities CriterionNode (get v ''supersedes'')))"

definition elements :: "val \<Rightarrow> string \<Rightarrow> val list" where
  "elements v k = (case get v k of Arr xs \<Rightarrow> xs | _ \<Rightarrow> [])"

definition hasDefinitionArrays :: "val \<Rightarrow> bool" where
  "hasDefinitionArrays v \<longleftrightarrow> arrOf (get v ''phases'') \<noteq> None \<and>
     arrOf (get v ''executableWork'') \<noteq> None \<and> arrOf (get v ''criteria'') \<noteq> None"

definition assertNormalizedWorkflowInput :: "val \<Rightarrow> exn + unit" where
  "assertNormalizedWorkflowInput v =
     (if \<not> hasDefinitionArrays v then Inl (compilationError WInvalidRelation)
      else bindE (assertDefinitionScalars WorkflowNode (get v ''workflow'')) (\<lambda>_.
      bindE (forE assertPhaseInput (elements v ''phases'')) (\<lambda>_.
      bindE (forE assertTaskInput (elements v ''executableWork'')) (\<lambda>_.
        forE assertCriterionInput (elements v ''criteria'')))))"

section \<open>Compilation of the definitions\<close>

definition definitionTitle :: "val \<Rightarrow> exn + val" where
  "definitionTitle v = bindE (lengthOf v) (\<lambda>n.
     if n = Num (Whole 0) then Inl (compilationError WInvalidInput)
     else bindE (exceeds256 n) (\<lambda>long.
       if long then Inl (compilationError WInvalidInput) else Inr v))"

definition digestContent :: "nodeKind \<Rightarrow> 'a commonDef_scheme \<Rightarrow> (jstr \<times> val) list \<Rightarrow> val" where
  "digestContent kind d relationships = Obj ([(lit ''kind'', enumText nodeKindStr kind),
     (lit ''id'', Str (defId d)), (lit ''key'', Str (defKey d)),
     (lit ''generation'', Num (Whole (defGeneration d))),
     (lit ''source'', Obj [(lit ''locator'', Str (defLocator d)), (lit ''pointer'', Str (defPointer d))]),
     (lit ''input'', defInput d)] @ relationships)"

text \<open>The reads of \<open>compileCommon\<close> and \<open>identities\<close> do not fail: their callers have checked the input.\<close>

definition compileCommon :: "nodeKind \<Rightarrow> val \<Rightarrow> sha256 \<Rightarrow> (jstr \<times> val) list \<Rightarrow> exn + commonDef" where
  "compileCommon kind v sha relationships =
     bindE (sourcePointer (get v ''source'')) (\<lambda>(l, p).
     bindE (strIf (\<lambda>_. True) TypeError (get v ''id'')) (\<lambda>i.
     bindE (strIf (\<lambda>_. True) TypeError (get v ''key'')) (\<lambda>k.
     bindE (generationOf TypeError (get v ''generation'')) (\<lambda>g.
     let content = \<lparr>defId = i, defKey = k, defTitle = None, defGeneration = g, defLocator = l, defPointer = p,
           defInput = (if get v ''input'' = Undef then Null else get v ''input''), definitionDigest = []\<rparr> in
     bindE (canonicalDigest (digestContent kind content relationships) sha) (\<lambda>d.
     bindE (if get v ''title'' = Undef then Inr None
       else bindE (definitionTitle (get v ''title'')) (\<lambda>t. Inr (Some t))) (\<lambda>title.
       Inr (content\<lparr>defTitle := title, definitionDigest := d\<rparr>)))))))"

definition sortedUnique :: "jstr list \<Rightarrow> jstr list" where
  "sortedUnique xs = sort (keep_first xs)"

definition identities :: "val \<Rightarrow> exn + jstr list" where
  "identities v = (case v of Arr xs \<Rightarrow> mapE (strIf (\<lambda>_. True) TypeError) xs | _ \<Rightarrow> Inr [])"

definition compileWorkflow :: "val \<Rightarrow> sha256 \<Rightarrow> exn + commonDef" where
  "compileWorkflow v sha = compileCommon WorkflowNode v sha []"

definition compilePhase :: "val \<Rightarrow> sha256 \<Rightarrow> exn + phaseDef" where
  "compilePhase v sha =
     bindE (identities (get v ''dependsOn'')) (\<lambda>ds.
     bindE (identities (get v ''supersedes'')) (\<lambda>ss.
     bindE (strIf (\<lambda>_. True) TypeError (get v ''parentId'')) (\<lambda>p.
     bindE (compileCommon PhaseNode v sha [(lit ''parentId'', Str p),
       (lit ''dependsOn'', Arr (map Str (sortedUnique ds))),
       (lit ''supersedes'', Arr (map Str (sortedUnique ss)))]) (\<lambda>c.
       Inr (commonDef.extend c \<lparr>parentId = p, supersedes = sortedUnique ss, dependsOn = sortedUnique ds\<rparr>)))))"

definition compileTask :: "val \<Rightarrow> sha256 \<Rightarrow> exn + taskDef" where
  "compileTask v sha =
     bindE (identities (get v ''dependsOn'')) (\<lambda>ds.
     bindE (identities (get v ''supersedes'')) (\<lambda>ss.
     bindE (compileCompletionPolicy (get v ''completionPolicy'')) (\<lambda>policy.
     bindE (strIf (\<lambda>_. True) TypeError (get v ''parentId'')) (\<lambda>p.
     bindE (compileCommon TaskNode v sha [(lit ''parentId'', Str p),
       (lit ''dependsOn'', Arr (map Str (sortedUnique ds))),
       (lit ''supersedes'', Arr (map Str (sortedUnique ss))),
       (lit ''completionPolicy'', encCompletionPolicy policy)]) (\<lambda>c.
       Inr (commonDef.extend c \<lparr>parentId = p, supersedes = sortedUnique ss, dependsOn = sortedUnique ds,
         defPolicy = policy\<rparr>))))))"

definition compileCriterion :: "val \<Rightarrow> sha256 \<Rightarrow> exn + ownedDef" where
  "compileCriterion v sha =
     bindE (identities (get v ''supersedes'')) (\<lambda>ss.
     bindE (strIf (\<lambda>_. True) TypeError (get v ''parentId'')) (\<lambda>p.
     bindE (compileCommon CriterionNode v sha [(lit ''parentId'', Str p),
       (lit ''supersedes'', Arr (map Str (sortedUnique ss)))]) (\<lambda>c.
       Inr (commonDef.extend c \<lparr>parentId = p, supersedes = sortedUnique ss\<rparr>))))"

end
