(* ===== verification/GraphCompile.thy ===== *)
theory GraphCompile
  imports Graph
begin

text \<open>
  packages/kernel/src/graph.ts, continued: the relations between the compiled definitions, the
  graph built from them, and its validation by recompilation.
\<close>

section \<open>Relations between the definitions\<close>

definition assertUniqueIds :: "jstr list \<Rightarrow> exn + unit" where
  "assertUniqueIds ids = bindE (uniqueBy id Inr (compilationError WDuplicateId) ids) (\<lambda>_. Inr ())"

definition scopedKey :: "nodeKind \<Rightarrow> 'a ownedDef_scheme \<Rightarrow> jstr" where
  "scopedKey kind d = lit (nodeKindStr kind) @ [0] @ parentId d @ [0] @ defKey d"

definition assertUniqueKeys :: "phaseDef list \<Rightarrow> taskDef list \<Rightarrow> ownedDef list \<Rightarrow> exn + unit" where
  "assertUniqueKeys phases tasks criteria =
     bindE (uniqueBy id Inr (compilationError WDuplicateKey)
       (map (scopedKey PhaseNode) phases @ map (scopedKey TaskNode) tasks @ map (scopedKey CriterionNode) criteria))
     (\<lambda>_. Inr ())"

text \<open>A \<open>Map\<close> keyed by identity: the last definition of an identity wins.\<close>

definition indexById :: "'a commonDef_scheme list \<Rightarrow> jstr \<Rightarrow> 'a commonDef_scheme option" where
  "indexById ds = keyed defId (rev ds)"

definition unknownReference :: "exn + unit" where
  "unknownReference = Inl (compilationError WUnknownReference)"

definition assertKnown :: "jstr list \<Rightarrow> (jstr \<Rightarrow> 'a option) \<Rightarrow> exn + unit" where
  "assertKnown refs index = forE (\<lambda>r. if index r = None then unknownReference else Inr ()) refs"

definition assertPhaseReferences ::
  "commonDef \<Rightarrow> (jstr \<Rightarrow> phaseDef option) \<Rightarrow> phaseDef \<Rightarrow> exn + unit" where
  "assertPhaseReferences workflow phaseById d =
     (if parentId d \<noteq> defId workflow \<and> \<not> isIdentity PhaseKind (Str (parentId d)) then invalidParent (Str (parentId d))
      else if parentId d \<noteq> defId workflow \<and> phaseById (parentId d) = None then unknownReference
      else bindE (assertKnown (dependsOn d) phaseById) (\<lambda>_. assertKnown (supersedes d) phaseById))"

definition assertTaskReferences ::
  "(jstr \<Rightarrow> phaseDef option) \<Rightarrow> (jstr \<Rightarrow> taskDef option) \<Rightarrow> taskDef \<Rightarrow> exn + unit" where
  "assertTaskReferences phaseById taskById d =
     (if \<not> isIdentity PhaseKind (Str (parentId d)) then invalidParent (Str (parentId d))
      else if phaseById (parentId d) = None then unknownReference
      else bindE (assertKnown (dependsOn d) taskById) (\<lambda>_. assertKnown (supersedes d) taskById))"

definition assertCriterionReferences ::
  "(jstr \<Rightarrow> taskDef option) \<Rightarrow> (jstr \<Rightarrow> ownedDef option) \<Rightarrow> ownedDef \<Rightarrow> exn + unit" where
  "assertCriterionReferences taskById criterionById d =
     (if \<not> isIdentity TaskKind (Str (parentId d)) then invalidParent (Str (parentId d))
      else if taskById (parentId d) = None then unknownReference
      else assertKnown (supersedes d) criterionById)"

definition ownsDeclared :: "ownedDef list \<Rightarrow> taskDef \<Rightarrow> bool" where
  "ownsDeclared criteria d \<longleftrightarrow>
     sort (map defId (filter (\<lambda>c. parentId c = defId d) criteria)) = sort (map reqCriterion (policyCriteria (defPolicy d)))"

definition assertReferences :: "commonDef \<Rightarrow> phaseDef list \<Rightarrow> taskDef list \<Rightarrow> ownedDef list \<Rightarrow> exn + unit" where
  "assertReferences workflow phases tasks criteria =
     bindE (forE (assertPhaseReferences workflow (indexById phases)) phases) (\<lambda>_.
     bindE (forE (assertTaskReferences (indexById phases) (indexById tasks)) tasks) (\<lambda>_.
     bindE (forE (assertCriterionReferences (indexById tasks) (indexById criteria)) criteria) (\<lambda>_.
       forE (\<lambda>d. if ownsDeclared criteria d then Inr ()
         else Inl (compilationError WInvalidCompletionPolicy)) tasks)))"

text \<open>
  The depth-first search for cycles. \<open>visiting\<close> is the path from the root of the search, \<open>visited\<close>
  the identities left for good, in the order in which they were left.
\<close>

function visit :: "'a commonDef_scheme list \<Rightarrow> ('a commonDef_scheme \<Rightarrow> jstr list) \<Rightarrow> exn \<Rightarrow>
    jstr list \<Rightarrow> jstr list \<Rightarrow> jstr \<Rightarrow> exn + jstr list" where
  "visit definitions references e visiting visited i =
     (if i \<in> set visiting then Inl e
      else if i \<in> set visited then Inr visited
      else bindE (case indexById definitions i of
          None \<Rightarrow> Inr visited
        | Some d \<Rightarrow> foldE (\<lambda>vs r. if indexById definitions r \<noteq> None
            then visit definitions references e (i # visiting) vs r else Inr vs) visited (references d))
        (\<lambda>vs. Inr (vs @ [i])))"
  by pat_completeness auto
termination
proof (relation "measure (\<lambda>(ds, _, _, visiting, _, _). card (defId ` set ds - set visiting))", goal_cases)
  case (2 definitions references e visiting visited i d vs r)
  then have "i \<in> defId ` set definitions"
    using keyed_None [of defId "rev definitions" i] by (auto simp: indexById_def)
  with 2(1) have "defId ` set definitions - set (i # visiting) \<subset> defId ` set definitions - set visiting" by auto
  then show ?case by (simp add: psubset_card_mono)
qed simp

declare visit.simps [simp del]

definition assertNoCycles :: "'a commonDef_scheme list \<Rightarrow> ('a commonDef_scheme \<Rightarrow> jstr list) \<Rightarrow> graph_code \<Rightarrow>
    exn + unit" where
  "assertNoCycles definitions references code =
     bindE (foldE (visit definitions references (compilationError code) []) [] (map defId definitions)) (\<lambda>_. Inr ())"

definition assertSuperseded :: "'a ownedDef_scheme \<Rightarrow> 'a ownedDef_scheme option \<Rightarrow> exn + unit" where
  "assertSuperseded d superseded = (case superseded of
     None \<Rightarrow> Inl TypeError
   | Some s \<Rightarrow>
       if parentId d \<noteq> parentId s then Inl (compilationError WInvalidSupersession)
       else if defGeneration d \<le> defGeneration s then Inl (compilationError WInvalidSupersession)
       else Inr ())"

definition assertSupersession :: "'a ownedDef_scheme list \<Rightarrow> exn + unit" where
  "assertSupersession definitions =
     forE (\<lambda>d. forE (\<lambda>s. assertSuperseded d (indexById definitions s)) (supersedes d)) definitions"

section \<open>The graph\<close>

definition edgesOf :: "'a ownedDef_scheme \<Rightarrow> jstr list \<Rightarrow> graphEdge list" where
  "edgesOf d dependencies = \<lparr>edgeKind = Contains, edgeFrom = parentId d, edgeTo = defId d\<rparr>
     # map (\<lambda>x. \<lparr>edgeKind = DependsOn, edgeFrom = defId d, edgeTo = x\<rparr>) dependencies
     @ map (\<lambda>x. \<lparr>edgeKind = Supersedes, edgeFrom = defId d, edgeTo = x\<rparr>) (supersedes d)"

definition createEdges :: "phaseDef list \<Rightarrow> taskDef list \<Rightarrow> ownedDef list \<Rightarrow> graphEdge list" where
  "createEdges phases tasks criteria =
     concat (map (\<lambda>d. edgesOf d (dependsOn d)) phases) @ concat (map (\<lambda>d. edgesOf d (dependsOn d)) tasks)
     @ concat (map (\<lambda>d. edgesOf d []) criteria)"

definition edgeText :: "graphEdge \<Rightarrow> jstr" where
  "edgeText x = lit (edgeKindStr (edgeKind x)) @ [0] @ edgeFrom x @ [0] @ edgeTo x"

definition sortNodes :: "graphNode list \<Rightarrow> graphNode list" where
  "sortNodes = sort_key nodeId"

definition sortEdges :: "graphEdge list \<Rightarrow> graphEdge list" where
  "sortEdges = sort_key edgeText"

definition encEdge :: "graphEdge \<Rightarrow> val" where
  "encEdge x = Obj [(lit ''kind'', enumText edgeKindStr (edgeKind x)), (lit ''from'', Str (edgeFrom x)),
     (lit ''to'', Str (edgeTo x))]"

definition encCommonFields :: "'a commonDef_scheme \<Rightarrow> (jstr \<times> val) list" where
  "encCommonFields d = [(lit ''id'', Str (defId d)), (lit ''key'', Str (defKey d))] @
     optionalField ''title'' id (defTitle d) @
     [(lit ''generation'', Num (Whole (defGeneration d))),
      (lit ''source'', Obj [(lit ''locator'', Str (defLocator d)), (lit ''pointer'', Str (defPointer d))]),
      (lit ''input'', defInput d), (lit ''definitionDigest'', Str (definitionDigest d))]"

fun nodeKind :: "graphNode \<Rightarrow> nodeKind" where
  "nodeKind (WorkflowN d) = WorkflowNode"
| "nodeKind (PhaseN d) = PhaseNode"
| "nodeKind (TaskN d) = TaskNode"
| "nodeKind (CriterionN d) = CriterionNode"

fun encDefinition :: "graphNode \<Rightarrow> val" where
  "encDefinition (WorkflowN d) = Obj (encCommonFields d)"
| "encDefinition (PhaseN d) = Obj (encCommonFields d @ [(lit ''parentId'', Str (parentId d)),
     (lit ''dependsOn'', Arr (map Str (dependsOn d))), (lit ''supersedes'', Arr (map Str (supersedes d)))])"
| "encDefinition (TaskN d) = Obj (encCommonFields d @ [(lit ''parentId'', Str (parentId d)),
     (lit ''dependsOn'', Arr (map Str (dependsOn d))), (lit ''supersedes'', Arr (map Str (supersedes d))),
     (lit ''completionPolicy'', encCompletionPolicy (defPolicy d))])"
| "encDefinition (CriterionN d) = Obj (encCommonFields d @ [(lit ''parentId'', Str (parentId d)),
     (lit ''supersedes'', Arr (map Str (supersedes d)))])"

definition encNode :: "graphNode \<Rightarrow> val" where
  "encNode n = Obj [(lit ''kind'', enumText nodeKindStr (nodeKind n)), (lit ''definition'', encDefinition n)]"

definition encGraph :: "workflowGraph \<Rightarrow> val" where
  "encGraph g = Obj [(lit ''workflowId'', Str (graphWorkflow g)), (lit ''revisionDigest'', Str (revisionDigest g)),
     (lit ''nodes'', Arr (map encNode (graphNodes g))), (lit ''edges'', Arr (map encEdge (graphEdges g)))]"

definition revisionContent :: "jstr \<Rightarrow> graphNode list \<Rightarrow> graphEdge list \<Rightarrow> val" where
  "revisionContent workflow nodes edges = Obj [(lit ''workflowId'', Str workflow),
     (lit ''definitions'', Arr (map (Str \<circ> nodeDigest) nodes)), (lit ''edges'', Arr (map encEdge edges))]"

definition assertDefinitions :: "commonDef \<Rightarrow> phaseDef list \<Rightarrow> taskDef list \<Rightarrow> ownedDef list \<Rightarrow> exn + unit" where
  "assertDefinitions workflow phases tasks criteria =
     bindE (assertUniqueIds (defId workflow # map defId phases @ map defId tasks @ map defId criteria)) (\<lambda>_.
     bindE (assertUniqueKeys phases tasks criteria) (\<lambda>_.
     bindE (assertReferences workflow phases tasks criteria) (\<lambda>_.
     bindE (assertNoCycles phases (\<lambda>d. [parentId d]) WContainmentCycle) (\<lambda>_.
     bindE (assertNoCycles phases dependsOn WDependencyCycle) (\<lambda>_.
     bindE (assertNoCycles tasks dependsOn WDependencyCycle) (\<lambda>_.
     bindE (assertNoCycles phases supersedes WSupersessionCycle) (\<lambda>_.
     bindE (assertNoCycles tasks supersedes WSupersessionCycle) (\<lambda>_.
     bindE (assertNoCycles criteria supersedes WSupersessionCycle) (\<lambda>_.
     bindE (assertSupersession phases) (\<lambda>_.
     bindE (assertSupersession tasks) (\<lambda>_.
       assertSupersession criteria)))))))))))"

definition buildGraph :: "commonDef \<Rightarrow> phaseDef list \<Rightarrow> taskDef list \<Rightarrow> ownedDef list \<Rightarrow> sha256 \<Rightarrow> exn + workflowGraph" where
  "buildGraph workflow phases tasks criteria sha =
     (let nodes = sortNodes (WorkflowN workflow # map PhaseN phases @ map TaskN tasks @ map CriterionN criteria);
          edges = sortEdges (createEdges phases tasks criteria) in
     bindE (canonicalDigest (revisionContent (defId workflow) nodes edges) sha) (\<lambda>d.
       Inr \<lparr>graphWorkflow = defId workflow, revisionDigest = d, graphNodes = nodes, graphEdges = edges\<rparr>))"

definition compileWorkflowGraph :: "val \<Rightarrow> sha256 \<Rightarrow> exn + workflowGraph" where
  "compileWorkflowGraph v sha =
     bindE (snapshotCanonical (compilationError WInvalidInput) v) (\<lambda>s.
     bindE (assertNormalizedWorkflowInput s) (\<lambda>_.
     bindE (compileWorkflow (get s ''workflow'') sha) (\<lambda>workflow.
     bindE (mapE (\<lambda>x. compilePhase x sha) (elements s ''phases'')) (\<lambda>phases.
     bindE (mapE (\<lambda>x. compileTask x sha) (elements s ''executableWork'')) (\<lambda>tasks.
     bindE (mapE (\<lambda>x. compileCriterion x sha) (elements s ''criteria'')) (\<lambda>criteria.
     bindE (assertDefinitions workflow phases tasks criteria) (\<lambda>_.
       buildGraph workflow phases tasks criteria sha)))))))"

section \<open>Validation by recompilation\<close>

definition graphExactKeys :: "val \<Rightarrow> string list \<Rightarrow> string list \<Rightarrow> exn + unit" where
  "graphExactKeys v ks optional =
     (if \<not> isRecord v then Inl GraphValidationError
      else if sort (filter (\<lambda>k. k \<notin> lit ` set optional) (keys v)) \<noteq> sort (map lit ks)
      then Inl GraphValidationError else Inr ())"

definition decodedTitle :: "val \<Rightarrow> exn + (jstr \<times> val) list" where
  "decodedTitle v = (case get v ''title'' of
     Undef \<Rightarrow> Inr []
   | Str s \<Rightarrow> if length s = 0 \<or> length s > 256 then Inl GraphValidationError else Inr [(lit ''title'', Str s)]
   | _ \<Rightarrow> Inl GraphValidationError)"

definition assertCommonDefinition :: "nodeKind \<Rightarrow> val \<Rightarrow> exn + unit" where
  "assertCommonDefinition kind v =
     (if \<not> isIdentity (nodeIdentity kind) (get v ''id'') then Inl GraphValidationError
      else if \<not> isConsumerKey (get v ''key'') then Inl GraphValidationError
      else if \<not> isDefinitionGeneration (get v ''generation'') then Inl GraphValidationError
      else if \<not> isSha256Digest (get v ''definitionDigest'') then Inl GraphValidationError
      else Inr ())"

definition sourceInput :: "val \<Rightarrow> exn + val" where
  "sourceInput v =
     bindE (graphExactKeys v [''locator'', ''pointer''] []) (\<lambda>_.
     bindE (strIf (\<lambda>x. x \<noteq> Str []) GraphValidationError (get v ''locator'')) (\<lambda>l.
     bindE (strIf (\<lambda>_. True) GraphValidationError (get v ''pointer'')) (\<lambda>p.
       Inr (Obj [(lit ''locator'', Str l), (lit ''pointer'', Str p)]))))"

definition assertIdentityArray :: "nodeKind \<Rightarrow> val \<Rightarrow> exn + unit" where
  "assertIdentityArray kind v = (case v of
     Arr xs \<Rightarrow> if list_ex (\<lambda>x. \<not> isIdentity (nodeIdentity kind) x) xs then Inl GraphValidationError else Inr ()
   | _ \<Rightarrow> Inl GraphValidationError)"

definition commonInput :: "nodeKind \<Rightarrow> val \<Rightarrow> exn + (jstr \<times> val) list" where
  "commonInput kind v =
     bindE (decodedTitle v) (\<lambda>title.
     bindE (sourceInput (get v ''source'')) (\<lambda>source.
       Inr ([(lit ''id'', get v ''id''), (lit ''key'', get v ''key'')] @ title @
         [(lit ''generation'', get v ''generation''), (lit ''source'', source), (lit ''input'', get v ''input'')])))"

abbreviation commonKeys :: "string list" where
  "commonKeys \<equiv> [''id'', ''key'', ''generation'', ''source'', ''input'', ''definitionDigest'']"

definition workflowDefinitionInput :: "val \<Rightarrow> exn + val" where
  "workflowDefinitionInput v =
     bindE (graphExactKeys v commonKeys [''title'']) (\<lambda>_.
     bindE (assertCommonDefinition WorkflowNode v) (\<lambda>_.
     bindE (commonInput WorkflowNode v) (\<lambda>common. Inr (Obj common))))"

definition phaseDefinitionInput :: "val \<Rightarrow> exn + val" where
  "phaseDefinitionInput v =
     bindE (graphExactKeys v (commonKeys @ [''parentId'', ''dependsOn'', ''supersedes'']) [''title'']) (\<lambda>_.
     bindE (assertCommonDefinition PhaseNode v) (\<lambda>_.
     if \<not> isParent PhaseNode (get v ''parentId'') then Inl GraphValidationError
     else bindE (assertIdentityArray PhaseNode (get v ''dependsOn'')) (\<lambda>_.
     bindE (assertIdentityArray PhaseNode (get v ''supersedes'')) (\<lambda>_.
     bindE (commonInput PhaseNode v) (\<lambda>common. Inr (Obj (common @ [(lit ''parentId'', get v ''parentId''),
       (lit ''dependsOn'', get v ''dependsOn''), (lit ''supersedes'', get v ''supersedes'')])))))))"

definition graphCompletionPolicy :: "val \<Rightarrow> exn + completionPolicy" where
  "graphCompletionPolicy v = (case validateCompletionPolicy v of Inl _ \<Rightarrow> Inl GraphValidationError | m \<Rightarrow> m)"

definition taskDefinitionInput :: "val \<Rightarrow> exn + val" where
  "taskDefinitionInput v =
     bindE (graphExactKeys v (commonKeys @ [''parentId'', ''dependsOn'', ''supersedes'', ''completionPolicy''])
       [''title'']) (\<lambda>_.
     bindE (assertCommonDefinition TaskNode v) (\<lambda>_.
     if \<not> isParent TaskNode (get v ''parentId'') then Inl GraphValidationError
     else bindE (assertIdentityArray TaskNode (get v ''dependsOn'')) (\<lambda>_.
     bindE (assertIdentityArray TaskNode (get v ''supersedes'')) (\<lambda>_.
     bindE (graphCompletionPolicy (get v ''completionPolicy'')) (\<lambda>policy.
     bindE (commonInput TaskNode v) (\<lambda>common. Inr (Obj (common @ [(lit ''parentId'', get v ''parentId''),
       (lit ''dependsOn'', get v ''dependsOn''), (lit ''supersedes'', get v ''supersedes''),
       (lit ''completionPolicy'', encCompletionPolicy policy)]))))))))"

definition criterionDefinitionInput :: "val \<Rightarrow> exn + val" where
  "criterionDefinitionInput v =
     bindE (graphExactKeys v (commonKeys @ [''parentId'', ''supersedes'']) [''title'']) (\<lambda>_.
     bindE (assertCommonDefinition CriterionNode v) (\<lambda>_.
     if \<not> isParent CriterionNode (get v ''parentId'') then Inl GraphValidationError
     else bindE (assertIdentityArray CriterionNode (get v ''supersedes'')) (\<lambda>_.
     bindE (commonInput CriterionNode v) (\<lambda>common. Inr (Obj (common @ [(lit ''parentId'', get v ''parentId''),
       (lit ''supersedes'', get v ''supersedes'')]))))))"

definition nodeInput :: "val \<Rightarrow> exn + nodeKind \<times> val" where
  "nodeInput v =
     bindE (graphExactKeys v [''kind'', ''definition''] []) (\<lambda>_.
     case enumOf nodeKindStr [WorkflowNode, PhaseNode, TaskNode, CriterionNode] (get v ''kind'') of
       None \<Rightarrow> Inl GraphValidationError
     | Some kind \<Rightarrow> bindE (case kind of
           WorkflowNode \<Rightarrow> workflowDefinitionInput (get v ''definition'')
         | PhaseNode \<Rightarrow> phaseDefinitionInput (get v ''definition'')
         | TaskNode \<Rightarrow> taskDefinitionInput (get v ''definition'')
         | CriterionNode \<Rightarrow> criterionDefinitionInput (get v ''definition''))
         (\<lambda>d. Inr (kind, d)))"

text \<open>The loop over the nodes, with the workflow and the three lists it fills.\<close>

fun addNode :: "val option \<times> val list \<times> val list \<times> val list \<Rightarrow> nodeKind \<times> val \<Rightarrow>
    exn + val option \<times> val list \<times> val list \<times> val list" where
  "addNode (w, ps, ts, cs) (WorkflowNode, d) = (if w \<noteq> None then Inl GraphValidationError else Inr (Some d, ps, ts, cs))"
| "addNode (w, ps, ts, cs) (PhaseNode, d) = Inr (w, ps @ [d], ts, cs)"
| "addNode (w, ps, ts, cs) (TaskNode, d) = Inr (w, ps, ts @ [d], cs)"
| "addNode (w, ps, ts, cs) (CriterionNode, d) = Inr (w, ps, ts, cs @ [d])"

text \<open>The identity kinds an edge may connect.\<close>

fun edgeKinds :: "edgeKind \<Rightarrow> (identityKind \<times> identityKind) list" where
  "edgeKinds Contains = [(WorkflowKind, PhaseKind), (PhaseKind, PhaseKind), (PhaseKind, TaskKind), (TaskKind, CriterionKind)]"
| "edgeKinds DependsOn = [(PhaseKind, PhaseKind), (TaskKind, TaskKind)]"
| "edgeKinds Supersedes = [(PhaseKind, PhaseKind), (TaskKind, TaskKind), (CriterionKind, CriterionKind)]"

definition assertGraphEdge :: "val \<Rightarrow> exn + unit" where
  "assertGraphEdge v =
     bindE (graphExactKeys v [''kind'', ''from'', ''to''] []) (\<lambda>_.
     case enumOf edgeKindStr [Contains, DependsOn, Supersedes] (get v ''kind'') of
       None \<Rightarrow> Inl GraphValidationError
     | Some k \<Rightarrow> if list_ex (\<lambda>(a, b). isIdentity a (get v ''from'') \<and> isIdentity b (get v ''to'')) (edgeKinds k)
         then Inr () else Inl GraphValidationError)"

definition workflowInputFromGraphSnapshot :: "val \<Rightarrow> exn + val" where
  "workflowInputFromGraphSnapshot v =
     bindE (graphExactKeys v [''workflowId'', ''revisionDigest'', ''nodes'', ''edges''] []) (\<lambda>_.
     if \<not> isIdentity WorkflowKind (get v ''workflowId'') then Inl GraphValidationError
     else if \<not> isSha256Digest (get v ''revisionDigest'') then Inl GraphValidationError
     else (case (arrOf (get v ''nodes''), arrOf (get v ''edges'')) of
       (Some nodes, Some edges) \<Rightarrow>
         bindE (foldE (\<lambda>acc x. bindE (nodeInput x) (addNode acc)) (None, [], [], []) nodes) (\<lambda>(w, ps, ts, cs).
         case w of None \<Rightarrow> Inl GraphValidationError
         | Some workflow \<Rightarrow> bindE (forE assertGraphEdge edges) (\<lambda>_.
             Inr (Obj [(lit ''workflow'', workflow), (lit ''phases'', Arr ps), (lit ''executableWork'', Arr ts),
               (lit ''criteria'', Arr cs)])))
     | _ \<Rightarrow> Inl GraphValidationError))"

definition validateWorkflowGraph :: "val \<Rightarrow> sha256 \<Rightarrow> exn + workflowGraph" where
  "validateWorkflowGraph v sha =
     bindE (snapshotCanonical GraphValidationError v) (\<lambda>s.
     case bindE (workflowInputFromGraphSnapshot s) (\<lambda>input.
         bindE (compileWorkflowGraph input sha) (\<lambda>g.
         if canonicalSerialize s \<noteq> canonicalSerialize (encGraph g) then Inl GraphValidationError else Inr g)) of
       Inl _ \<Rightarrow> Inl GraphValidationError
     | Inr g \<Rightarrow> Inr g)"

definition normalizedWorkflowInputFromGraph :: "val \<Rightarrow> sha256 \<Rightarrow> exn + val" where
  "normalizedWorkflowInputFromGraph v sha =
     bindE (validateWorkflowGraph v sha) (\<lambda>g. workflowInputFromGraphSnapshot (encGraph g))"

end
