(* ===== verification/GraphSearch.thy ===== *)
theory GraphSearch
  imports GraphCompile
begin

text \<open>
  Correctness of the depth-first search of \<open>assertNoCycles\<close> (graph.ts). The search that returns
  has left every identity after the identities it refers to, an order that only an acyclic relation
  has; the search that throws has found a path from an identity to itself.
\<close>

definition refersTo :: "'a commonDef_scheme list \<Rightarrow> ('a commonDef_scheme \<Rightarrow> jstr list) \<Rightarrow> (jstr \<times> jstr) set" where
  "refersTo definitions references =
     {(a, b). \<exists>d. indexById definitions a = Some d \<and> b \<in> set (references d) \<and> indexById definitions b \<noteq> None}"

definition leftInOrder :: "('k \<times> 'k) set \<Rightarrow> 'k list \<Rightarrow> bool" where
  "leftInOrder R vs \<longleftrightarrow> (\<forall>k<length vs. \<forall>b. (vs ! k, b) \<in> R \<longrightarrow> b \<in> set (take k vs))"

lemma leftInOrder_Nil [simp]: "leftInOrder R []"
  by (simp add: leftInOrder_def)

lemma leftInOrder_snoc:
  "leftInOrder R (vs @ [i]) \<longleftrightarrow> leftInOrder R vs \<and> (\<forall>b. (i, b) \<in> R \<longrightarrow> b \<in> set vs)"
  by (auto simp: leftInOrder_def less_Suc_eq nth_append)

lemma leftInOrder_acyclic:
  assumes "leftInOrder R vs" and "Domain R \<subseteq> set vs"
  shows "acyclic R"
proof -
  let ?pos = "\<lambda>a. LEAST k. k < length vs \<and> vs ! k = a"
  have "?pos b < ?pos a" if "(a, b) \<in> R" for a b
  proof -
    from that assms(2) have "\<exists>k. k < length vs \<and> vs ! k = a" by (meson Domain.DomainI in_set_conv_nth subsetD)
    then have a: "?pos a < length vs \<and> vs ! ?pos a = a" by (rule LeastI_ex)
    with that assms(1) have "b \<in> set (take (?pos a) vs)" by (auto simp: leftInOrder_def)
    then obtain k where k: "k < ?pos a" "k < length vs" "vs ! k = b" by (auto simp: in_set_conv_nth)
    then have "?pos b \<le> k" by (auto intro: Least_le)
    with k(1) show ?thesis by (rule le_less_trans [rotated])
  qed
  then have "R\<inverse> \<subseteq> measure ?pos" by auto
  then have "wf (R\<inverse>)" by (rule wf_subset [rotated]) simp
  then have "acyclic (R\<inverse>)" by (rule wf_acyclic)
  then show ?thesis by simp
qed

text \<open>The three cases of a visit.\<close>

lemma visit_visiting: "i \<in> set visiting \<Longrightarrow> visit ds refs e visiting visited i = Inl e"
  by (simp add: visit.simps [of ds])

lemma visit_visited: "i \<notin> set visiting \<Longrightarrow> i \<in> set visited \<Longrightarrow> visit ds refs e visiting visited i = Inr visited"
  by (simp add: visit.simps [of ds])

lemma visit_new:
  "i \<notin> set visiting \<Longrightarrow> i \<notin> set visited \<Longrightarrow> visit ds refs e visiting visited i =
     bindE (case indexById ds i of None \<Rightarrow> Inr visited
       | Some d \<Rightarrow> foldE (\<lambda>vs r. if indexById ds r \<noteq> None then visit ds refs e (i # visiting) vs r else Inr vs)
           visited (refs d)) (\<lambda>vs. Inr (vs @ [i]))"
  by (subst visit.simps) simp

lemma visit_returns:
  assumes "visit ds refs e visiting visited i = Inr vs" and "leftInOrder (refersTo ds refs) visited"
  shows "leftInOrder (refersTo ds refs) vs \<and> set visited \<subseteq> set vs \<and> i \<in> set vs"
  using assms
proof (induction ds refs e visiting visited i arbitrary: vs rule: visit.induct)
  case (1 ds refs e visiting visited i)
  let ?R = "refersTo ds refs"
  let ?f = "\<lambda>vs r. if indexById ds r \<noteq> None then visit ds refs e (i # visiting) vs r else Inr vs"
  have i: "i \<notin> set visiting" by (rule ccontr) (use 1(2) in \<open>simp add: visit_visiting\<close>)
  show ?case
  proof (cases "i \<in> set visited")
    case True
    with 1(2,3) show ?thesis by (simp add: visit_visited [OF i])
  next
    case False
    with 1(2) obtain us where us: "vs = us @ [i]"
        "(case indexById ds i of None \<Rightarrow> Inr visited | Some d \<Rightarrow> foldE ?f visited (refs d)) = Inr us"
      by (auto simp: visit_new [OF i] bindE_eq_Inr)
    have "leftInOrder ?R us \<and> set visited \<subseteq> set us \<and> (\<forall>b. (i, b) \<in> ?R \<longrightarrow> b \<in> set us)"
    proof (cases "indexById ds i")
      case None
      with us(2) 1(3) show ?thesis by (simp add: refersTo_def)
    next
      case (Some d)
      have IH: "leftInOrder ?R ws' \<and> set ws \<subseteq> set ws' \<and> r \<in> set ws'"
        if "r \<in> set (refs d)" "indexById ds r \<noteq> None" "visit ds refs e (i # visiting) ws r = Inr ws'" "leftInOrder ?R ws"
        for r ws ws'
        by (rule 1(1) [OF i False Some that])
      have "leftInOrder ?R us \<and> set ws \<subseteq> set us \<and> (\<forall>r\<in>set rs. indexById ds r \<noteq> None \<longrightarrow> r \<in> set us)"
        if "foldE ?f ws rs = Inr us" "set rs \<subseteq> set (refs d)" "leftInOrder ?R ws" for ws rs
        using that
      proof (induction rs arbitrary: ws)
        case (Cons r rs)
        from Cons.prems(1) obtain xs where xs: "?f ws r = Inr xs" "foldE ?f xs rs = Inr us"
          by (auto simp: bindE_eq_Inr)
        have r: "leftInOrder ?R xs \<and> set ws \<subseteq> set xs \<and> (indexById ds r \<noteq> None \<longrightarrow> r \<in> set xs)"
        proof (cases "indexById ds r = None")
          case False
          with xs(1) show ?thesis using IH [of r ws xs] Cons.prems(2,3) by auto
        qed (use xs(1) Cons.prems(3) in auto)
        with Cons.IH [OF xs(2)] Cons.prems(2) show ?case by auto
      qed simp
      from this [of visited "refs d"] us(2) Some 1(3) show ?thesis by (auto simp: refersTo_def)
    qed
    then show ?thesis by (auto simp: us(1) leftInOrder_snoc)
  qed
qed

lemma foldE_Inl: "foldE f s xs = Inl e \<Longrightarrow> \<exists>x\<in>set xs. \<exists>t. f t x = Inl e"
  by (induction xs arbitrary: s) (auto simp: bindE_eq_Inl)

lemma visit_throws:
  assumes "visit ds refs e visiting visited i = Inl e'" and "\<forall>x\<in>set visiting. (x, i) \<in> (refersTo ds refs)\<^sup>+"
  shows "e' = e \<and> \<not> acyclic (refersTo ds refs)"
  using assms
proof (induction ds refs e visiting visited i rule: visit.induct)
  case (1 ds refs e visiting visited i)
  let ?R = "refersTo ds refs"
  show ?case
  proof (cases "i \<in> set visiting")
    case True
    with 1(2,3) show ?thesis by (auto simp: visit_visiting acyclic_def)
  next
    case False
    with 1(2) have i: "i \<notin> set visited" by (cases "i \<in> set visited") (auto simp: visit_visited)
    with False 1(2) obtain d where d: "indexById ds i = Some d" and
        f: "foldE (\<lambda>vs r. if indexById ds r \<noteq> None then visit ds refs e (i # visiting) vs r else Inr vs)
          visited (refs d) = Inl e'"
      by (auto simp: visit_new bindE_eq_Inl split: option.splits)
    from foldE_Inl [OF f] obtain r vs where r: "r \<in> set (refs d)" "indexById ds r \<noteq> None"
        "visit ds refs e (i # visiting) vs r = Inl e'"
      by (auto split: if_splits)
    from d r(1,2) have "(i, r) \<in> ?R" by (auto simp: refersTo_def)
    with 1(3) have "\<forall>x\<in>set (i # visiting). (x, r) \<in> ?R\<^sup>+" by auto
    then show ?thesis by (rule 1(1) [OF False i d r])
  qed
qed

lemma refersTo_Domain: "Domain (refersTo ds refs) \<subseteq> defId ` set ds"
proof
  fix a assume "a \<in> Domain (refersTo ds refs)"
  then have "keyed defId (rev ds) a \<noteq> None" by (auto simp: refersTo_def indexById_def)
  then show "a \<in> defId ` set ds" using keyed_None [of defId "rev ds" a] by simp
qed

lemma assertNoCycles_iff: "assertNoCycles ds refs c = Inr () \<longleftrightarrow> acyclic (refersTo ds refs)"
  and assertNoCycles_throws:
    "assertNoCycles ds refs c \<noteq> Inr () \<Longrightarrow> assertNoCycles ds refs c = Inl (compilationError c)"
proof -
  let ?R = "refersTo ds refs" and ?v = "visit ds refs (compilationError c) []"
  have ok: "leftInOrder ?R us \<and> set is \<subseteq> set us"
    if "foldE ?v vs is = Inr us" "leftInOrder ?R vs" for "is" vs us
    using that
  proof (induction "is" arbitrary: vs)
    case (Cons i js)
    from Cons.prems(1) obtain ws where ws: "?v vs i = Inr ws" "foldE ?v ws js = Inr us" by (auto simp: bindE_eq_Inr)
    have mono: "set ws \<subseteq> set us"
    proof (rule foldE_invariant [OF ws(2), of "\<lambda>xs. leftInOrder ?R xs \<and> set ws \<subseteq> set xs", THEN conjunct2])
      show "leftInOrder ?R ws \<and> set ws \<subseteq> set ws" using visit_returns [OF ws(1) Cons.prems(2)] by simp
    qed (use visit_returns in blast)
    with visit_returns [OF ws(1) Cons.prems(2)] Cons.IH [OF ws(2)] show ?case by auto
  qed simp
  have bad: "e' = compilationError c \<and> \<not> acyclic ?R" if "foldE ?v vs is = Inl e'" for vs "is" e'
    using foldE_Inl [OF that] visit_throws by fastforce
  show "assertNoCycles ds refs c = Inr () \<longleftrightarrow> acyclic ?R"
  proof (cases "foldE ?v [] (map defId ds)")
    case (Inl e')
    with bad [OF Inl] show ?thesis by (simp add: assertNoCycles_def)
  next
    case (Inr us)
    then have "acyclic ?R" using ok [OF Inr] refersTo_Domain [of ds refs]
      by (intro leftInOrder_acyclic [of _ us]) auto
    with Inr show ?thesis by (simp add: assertNoCycles_def)
  qed
  show "assertNoCycles ds refs c = Inl (compilationError c)" if "assertNoCycles ds refs c \<noteq> Inr ()"
    using that bad by (cases "foldE ?v [] (map defId ds)") (auto simp: assertNoCycles_def)
qed

end
