(* ===== verification/GraphFacts.thy ===== *)
theory GraphFacts
  imports GraphSearch CompletionFacts
begin

text \<open>
  Facts on the definitions of graph.ts: what a compiled definition satisfies, and that the input
  read back from its node compiles to it again.
\<close>

section \<open>Compiled definitions\<close>

definition okCommon :: "nodeKind \<Rightarrow> 'a commonDef_scheme \<Rightarrow> bool" where
  "okCommon kind d \<longleftrightarrow> isIdentity (nodeIdentity kind) (Str (defId d)) \<and> isConsumerKey (Str (defKey d)) \<and>
     isSafe (defGeneration d) \<and> 1 \<le> defGeneration d \<and> defLocator d \<noteq> [] \<and> is_json (defInput d) \<and>
     (\<forall>t. defTitle d = Some t \<longrightarrow> definitionTitle t = Inr t \<and> t \<noteq> Undef \<and> is_json t)"

definition okIds :: "nodeKind \<Rightarrow> jstr list \<Rightarrow> bool" where
  "okIds kind xs \<longleftrightarrow> (\<forall>x\<in>set xs. isIdentity (nodeIdentity kind) (Str x)) \<and> distinct xs \<and> sorted xs"

definition okOwned :: "nodeKind \<Rightarrow> 'a ownedDef_scheme \<Rightarrow> bool" where
  "okOwned kind d \<longleftrightarrow> okCommon kind d \<and> isParent kind (Str (parentId d)) \<and> okIds kind (supersedes d)"

definition ownedFields :: "'a ownedDef_scheme \<Rightarrow> (jstr \<times> val) list" where
  "ownedFields d = [(lit ''parentId'', Str (parentId d)), (lit ''supersedes'', Arr (map Str (supersedes d)))]"

definition phaseFields :: "'a phaseDef_scheme \<Rightarrow> (jstr \<times> val) list" where
  "phaseFields d = [(lit ''parentId'', Str (parentId d)), (lit ''dependsOn'', Arr (map Str (dependsOn d))),
     (lit ''supersedes'', Arr (map Str (supersedes d)))]"

definition taskFields :: "taskDef \<Rightarrow> (jstr \<times> val) list" where
  "taskFields d = phaseFields d @ [(lit ''completionPolicy'', encCompletionPolicy (defPolicy d))]"

definition digested :: "sha256 \<Rightarrow> nodeKind \<Rightarrow> 'a commonDef_scheme \<Rightarrow> (jstr \<times> val) list \<Rightarrow> bool" where
  "digested sha kind d relationships \<longleftrightarrow>
     canonicalDigest (digestContent kind d relationships) sha = Inr (definitionDigest d)"

definition okWorkflow :: "sha256 \<Rightarrow> commonDef \<Rightarrow> bool" where
  "okWorkflow sha d \<longleftrightarrow> okCommon WorkflowNode d \<and> digested sha WorkflowNode d []"

definition okPhase :: "sha256 \<Rightarrow> phaseDef \<Rightarrow> bool" where
  "okPhase sha d \<longleftrightarrow> okOwned PhaseNode d \<and> okIds PhaseNode (dependsOn d) \<and> digested sha PhaseNode d (phaseFields d)"

definition okTask :: "sha256 \<Rightarrow> taskDef \<Rightarrow> bool" where
  "okTask sha d \<longleftrightarrow> okOwned TaskNode d \<and> okIds TaskNode (dependsOn d) \<and>
     okCompletion (defPolicy d) \<and> is_json (encCompletionPolicy (defPolicy d)) \<and> digested sha TaskNode d (taskFields d)"

definition okCriterion :: "sha256 \<Rightarrow> ownedDef \<Rightarrow> bool" where
  "okCriterion sha d \<longleftrightarrow> okOwned CriterionNode d \<and> digested sha CriterionNode d (ownedFields d)"

lemmas okDef_defs = okWorkflow_def okPhase_def okTask_def okCriterion_def okOwned_def

section \<open>What compilation yields\<close>

lemma sourcePointer_eq_Inr:
  "sourcePointer v = Inr (l, p) \<longleftrightarrow> get v ''locator'' = Str l \<and> l \<noteq> [] \<and> get v ''pointer'' = Str p"
  by (auto simp: sourcePointer_def Let_def bindE_eq_Inr strIf_eq_Inr)

lemma assertDefinitionScalars_eq_Inr:
  "assertDefinitionScalars kind v = Inr u \<longleftrightarrow> isIdentity (nodeIdentity kind) (get v ''id'') \<and>
     isConsumerKey (get v ''key'') \<and> isDefinitionGeneration (get v ''generation'') \<and>
     (\<exists>l p. sourcePointer (get v ''source'') = Inr (l, p))"
  by (auto simp: assertDefinitionScalars_def bindE_eq_Inr)

lemma definitionTitle_same: "definitionTitle v = Inr t \<Longrightarrow> t = v"
  by (auto simp: definitionTitle_def bindE_eq_Inr split: if_splits)

lemma digestContent_same:
  "digestContent kind (d\<lparr>defTitle := t, definitionDigest := x\<rparr>) rels = digestContent kind d rels"
  by (simp add: digestContent_def)

lemma field_json: "is_json v \<Longrightarrow> field v k \<noteq> Undef \<Longrightarrow> is_json (field v k)"
  by (rule field_is_json) (auto simp: field_def hasOwn_def keys_def dom_map_of_conv_image_fst [symmetric] domIff
      split: option.splits)

lemma compileCommon_ok:
  assumes "compileCommon kind v sha rels = Inr d" "is_json v" "assertDefinitionScalars kind v = Inr ()"
  shows "okCommon kind d \<and> digested sha kind d rels"
proof -
  from assms(1) obtain l p i k g x title where
      parts: "sourcePointer (get v ''source'') = Inr (l, p)" "get v ''id'' = Str i" "get v ''key'' = Str k"
        "get v ''generation'' = Num (Whole g)" "isSafe g" "1 \<le> g"
      and x: "canonicalDigest (digestContent kind \<lparr>defId = i, defKey = k, defTitle = None, defGeneration = g,
          defLocator = l, defPointer = p, defInput = (if get v ''input'' = Undef then Null else get v ''input''),
          definitionDigest = []\<rparr> rels) sha = Inr x"
      and title: "(if get v ''title'' = Undef then Inr None
        else bindE (definitionTitle (get v ''title'')) (\<lambda>t. Inr (Some t))) = Inr title"
      and d: "d = \<lparr>defId = i, defKey = k, defTitle = title, defGeneration = g,
          defLocator = l, defPointer = p, defInput = (if get v ''input'' = Undef then Null else get v ''input''),
          definitionDigest = x\<rparr>"
    by (auto simp: compileCommon_def Let_def bindE_eq_Inr strIf_eq_Inr generationOf_eq_Inr)
  have "definitionTitle t = Inr t \<and> t \<noteq> Undef \<and> is_json t" if "title = Some t" for t
    using title that field_json [OF assms(2), of "lit ''title''"]
    by (auto simp: bindE_eq_Inr dest: definitionTitle_same split: if_splits)
  moreover have "is_json (if get v ''input'' = Undef then Null else get v ''input'')"
    using field_json [OF assms(2), of "lit ''input''"] by simp
  ultimately show ?thesis using assms(3) parts x
    by (simp add: okCommon_def digested_def d assertDefinitionScalars_eq_Inr sourcePointer_eq_Inr digestContent_def)
qed

lemma sortedUnique_facts [simp]:
  "set (sortedUnique xs) = set xs" "distinct (sortedUnique xs)" "sorted (sortedUnique xs)"
  by (simp_all add: sortedUnique_def)

lemma sortedUnique_same: "distinct xs \<Longrightarrow> sorted xs \<Longrightarrow> sortedUnique xs = xs"
  by (simp add: sortedUnique_def keep_first_distinct sorted_sort_id)

lemma identities_ok:
  assumes "identities v = Inr xs" "assertRelationIdentities kind v = Inr ()"
  shows "okIds kind (sortedUnique xs)"
proof -
  have "\<forall>x\<in>set xs. isIdentity (nodeIdentity kind) (Str x)"
  proof
    fix x assume x: "x \<in> set xs"
    then obtain ys where v: "v = Arr ys" and m: "mapE (strIf (\<lambda>_. True) TypeError) ys = Inr xs"
      using assms(1) by (cases v) (auto simp: identities_def)
    from mapE_in_set [OF m x] have "Str x \<in> set ys" by (auto simp: strIf_eq_Inr)
    then show "isIdentity (nodeIdentity kind) (Str x)" using assms(2)
      by (auto simp: v assertRelationIdentities_def forE_eq_Inr split: if_splits)
  qed
  then show ?thesis by (simp add: okIds_def)
qed

lemma compileCompletionPolicy_eq_Inr:
  "compileCompletionPolicy v = Inr p \<longleftrightarrow> validateCompletionPolicy v = Inr p"
  by (auto simp: compileCompletionPolicy_def split: sum.splits exn.splits)

lemma assertParent_eq_Inr: "assertParent kind v = Inr () \<longleftrightarrow> isParent kind v"
  by (auto simp: assertParent_def invalidParent_def bindE_eq_Inr)

lemma extended_ok:
  "okCommon k (commonDef.extend c r) \<longleftrightarrow> okCommon k c"
  "digested sha k (commonDef.extend c r) f \<longleftrightarrow> digested sha k c f"
  by (cases c; simp add: okCommon_def digested_def digestContent_def commonDef.extend_def)+

lemma compileWorkflow_ok:
  "compileWorkflow v sha = Inr d \<Longrightarrow> is_json v \<Longrightarrow> assertDefinitionScalars WorkflowNode v = Inr () \<Longrightarrow> okWorkflow sha d"
  by (auto simp: compileWorkflow_def okWorkflow_def dest: compileCommon_ok)

lemma compilePhase_ok:
  assumes "compilePhase v sha = Inr d" "is_json v" "assertPhaseInput v = Inr ()"
  shows "okPhase sha d"
proof -
  from assms(3) have c: "assertDefinitionScalars PhaseNode v = Inr ()" "isParent PhaseNode (get v ''parentId'')"
      "assertRelationIdentities PhaseNode (get v ''dependsOn'') = Inr ()"
      "assertRelationIdentities PhaseNode (get v ''supersedes'') = Inr ()"
    by (auto simp: assertPhaseInput_def bindE_eq_Inr assertParent_eq_Inr)
  from assms(1) obtain ds ss p cd where parts: "identities (get v ''dependsOn'') = Inr ds"
      "identities (get v ''supersedes'') = Inr ss" "get v ''parentId'' = Str p"
      and cd: "compileCommon PhaseNode v sha [(lit ''parentId'', Str p), (lit ''dependsOn'', Arr (map Str (sortedUnique ds))),
        (lit ''supersedes'', Arr (map Str (sortedUnique ss)))] = Inr cd"
      and d: "d = commonDef.extend cd \<lparr>parentId = p, supersedes = sortedUnique ss, dependsOn = sortedUnique ds\<rparr>"
    by (auto simp: compilePhase_def bindE_eq_Inr strIf_eq_Inr)
  have f: "parentId d = p" "supersedes d = sortedUnique ss" "dependsOn d = sortedUnique ds"
    by (simp_all add: d commonDef.extend_def)
  show ?thesis using compileCommon_ok [OF cd assms(2) c(1)] c(2) identities_ok [OF parts(1) c(3)]
      identities_ok [OF parts(2) c(4)] parts(3)
    by (simp add: okDef_defs phaseFields_def f) (simp add: d extended_ok)
qed

lemma compileTask_ok:
  assumes "compileTask v sha = Inr d" "is_json v" "assertTaskInput v = Inr ()"
  shows "okTask sha d"
proof -
  from assms(3) have c: "assertDefinitionScalars TaskNode v = Inr ()" "isParent TaskNode (get v ''parentId'')"
      "assertRelationIdentities TaskNode (get v ''dependsOn'') = Inr ()"
      "assertRelationIdentities TaskNode (get v ''supersedes'') = Inr ()"
    by (auto simp: assertTaskInput_def bindE_eq_Inr assertParent_eq_Inr)
  from assms(1) obtain ds ss p q cd where parts: "identities (get v ''dependsOn'') = Inr ds"
      "identities (get v ''supersedes'') = Inr ss" "get v ''parentId'' = Str p"
      and q: "validateCompletionPolicy (get v ''completionPolicy'') = Inr q"
      and cd: "compileCommon TaskNode v sha [(lit ''parentId'', Str p), (lit ''dependsOn'', Arr (map Str (sortedUnique ds))),
        (lit ''supersedes'', Arr (map Str (sortedUnique ss))), (lit ''completionPolicy'', encCompletionPolicy q)] = Inr cd"
      and d: "d = commonDef.extend cd \<lparr>parentId = p, supersedes = sortedUnique ss, dependsOn = sortedUnique ds, defPolicy = q\<rparr>"
    by (auto simp: compileTask_def bindE_eq_Inr strIf_eq_Inr compileCompletionPolicy_eq_Inr)
  have f: "parentId d = p" "supersedes d = sortedUnique ss" "dependsOn d = sortedUnique ds" "defPolicy d = q"
    by (simp_all add: d commonDef.extend_def)
  show ?thesis using compileCommon_ok [OF cd assms(2) c(1)] c(2) identities_ok [OF parts(1) c(3)]
      identities_ok [OF parts(2) c(4)] parts(3) policies.dec_ok [OF q]
    by (simp add: okDef_defs taskFields_def phaseFields_def f) (simp add: d extended_ok)
qed

lemma compileCriterion_ok:
  assumes "compileCriterion v sha = Inr d" "is_json v" "assertCriterionInput v = Inr ()"
  shows "okCriterion sha d"
proof -
  from assms(3) have c: "assertDefinitionScalars CriterionNode v = Inr ()" "isParent CriterionNode (get v ''parentId'')"
      "assertRelationIdentities CriterionNode (get v ''supersedes'') = Inr ()"
    by (auto simp: assertCriterionInput_def bindE_eq_Inr assertParent_eq_Inr)
  from assms(1) obtain ss p cd where parts: "identities (get v ''supersedes'') = Inr ss" "get v ''parentId'' = Str p"
      and cd: "compileCommon CriterionNode v sha [(lit ''parentId'', Str p),
        (lit ''supersedes'', Arr (map Str (sortedUnique ss)))] = Inr cd"
      and d: "d = commonDef.extend cd \<lparr>parentId = p, supersedes = sortedUnique ss\<rparr>"
    by (auto simp: compileCriterion_def bindE_eq_Inr strIf_eq_Inr)
  have f: "parentId d = p" "supersedes d = sortedUnique ss" by (simp_all add: d commonDef.extend_def)
  show ?thesis using compileCommon_ok [OF cd assms(2) c(1)] c(2) identities_ok [OF parts(1) c(3)] parts(2)
    by (simp add: okDef_defs ownedFields_def f) (simp add: d extended_ok)
qed

section \<open>Reading back a node\<close>

definition inputFields :: "'a commonDef_scheme \<Rightarrow> (jstr \<times> val) list" where
  "inputFields d = [(lit ''id'', Str (defId d)), (lit ''key'', Str (defKey d))] @
     optionalField ''title'' id (defTitle d) @
     [(lit ''generation'', Num (Whole (defGeneration d))),
      (lit ''source'', Obj [(lit ''locator'', Str (defLocator d)), (lit ''pointer'', Str (defPointer d))]),
      (lit ''input'', defInput d)]"

text \<open>A title as the interface declares it: a string.\<close>

definition textTitle :: "'a commonDef_scheme \<Rightarrow> bool" where
  "textTitle d \<longleftrightarrow> (case defTitle d of None \<Rightarrow> True | Some t \<Rightarrow> (\<exists>s. t = Str s))"

lemma definitionTitle_Str:
  "definitionTitle (Str s) = (if length s = 0 \<or> 256 < length s then Inl (compilationError WInvalidInput) else Inr (Str s))"
  by (simp add: definitionTitle_def lengthOf_def exceeds256_def)

lemma inputFields_keys [simp]:
  "k \<in> fst ` set (inputFields d) \<longleftrightarrow> k \<in> {lit ''id'', lit ''key'', lit ''generation'', lit ''source'', lit ''input''} \<or> k = lit ''title'' \<and> defTitle d \<noteq> None"
  by (cases "defTitle d") (auto simp: inputFields_def optionalField_def)

lemma inputFields_get [simp]:
  "get (Obj (inputFields d)) ''id'' = Str (defId d)"
  "get (Obj (inputFields d)) ''key'' = Str (defKey d)"
  "get (Obj (inputFields d)) ''generation'' = Num (Whole (defGeneration d))"
  "get (Obj (inputFields d)) ''source'' =
     Obj [(lit ''locator'', Str (defLocator d)), (lit ''pointer'', Str (defPointer d))]"
  "get (Obj (inputFields d)) ''input'' = defInput d"
  "get (Obj (inputFields d)) ''title'' = (case defTitle d of None \<Rightarrow> Undef | Some t \<Rightarrow> t)"
  by (cases "defTitle d"; simp add: inputFields_def optionalField_def)+

lemma encCommonFields_keys [simp]:
  "k \<in> fst ` set (encCommonFields d) \<longleftrightarrow> k \<in> {lit ''id'', lit ''key'', lit ''generation'', lit ''source'', lit ''input'', lit ''definitionDigest''} \<or> k = lit ''title'' \<and> defTitle d \<noteq> None"
  by (cases "defTitle d") (auto simp: encCommonFields_def optionalField_def)

lemma encCommonFields_get [simp]:
  "get (Obj (encCommonFields d)) ''id'' = Str (defId d)"
  "get (Obj (encCommonFields d)) ''key'' = Str (defKey d)"
  "get (Obj (encCommonFields d)) ''generation'' = Num (Whole (defGeneration d))"
  "get (Obj (encCommonFields d)) ''source'' =
     Obj [(lit ''locator'', Str (defLocator d)), (lit ''pointer'', Str (defPointer d))]"
  "get (Obj (encCommonFields d)) ''input'' = defInput d"
  "get (Obj (encCommonFields d)) ''definitionDigest'' = Str (definitionDigest d)"
  "get (Obj (encCommonFields d)) ''title'' = (case defTitle d of None \<Rightarrow> Undef | Some t \<Rightarrow> t)"
  by (cases "defTitle d"; simp add: encCommonFields_def optionalField_def)+

lemma sourcePointer_enc:
  "defLocator d \<noteq> [] \<Longrightarrow> sourcePointer (Obj [(lit ''locator'', Str (defLocator d)), (lit ''pointer'', Str (defPointer d))]) =
     Inr (defLocator d, defPointer d)"
  by (simp add: sourcePointer_eq_Inr)

lemma scalars_input:
  "okCommon kind d \<Longrightarrow> assertDefinitionScalars kind (Obj (inputFields d @ r)) = Inr ()"
  by (simp add: assertDefinitionScalars_eq_Inr okCommon_def isDefinitionGeneration_def sourcePointer_enc)

lemma field_missing: "k \<notin> fst ` set kvs \<Longrightarrow> field (Obj kvs) k = Undef"
  by (auto simp: field_def dom_map_of_conv_image_fst [symmetric] split: option.splits)

lemma compileCommon_input:
  assumes "okCommon kind d" "digested sha kind d rels" "lit ''title'' \<notin> fst ` set r"
  shows "compileCommon kind (Obj (inputFields d @ r)) sha rels = Inr (commonDef.truncate d)"
proof -
  have nz: "defInput d \<noteq> Undef" using assms(1) by (auto simp: okCommon_def)
  have dig: "canonicalDigest (digestContent kind \<lparr>defId = defId d, defKey = defKey d, defTitle = None,
      defGeneration = defGeneration d, defLocator = defLocator d, defPointer = defPointer d,
      defInput = defInput d, definitionDigest = []\<rparr> rels) sha = Inr (definitionDigest d)"
    using assms(2) by (simp add: digested_def digestContent_def)
  show ?thesis
  proof (cases "defTitle d")
    case None
    then show ?thesis using assms(1) nz dig
      by (simp add: compileCommon_def field_missing [OF assms(3)] okCommon_def sourcePointer_enc strIf_def
          generationOf_def commonDef.truncate_def)
  next
    case (Some t)
    then show ?thesis using assms(1) nz dig
      by (simp add: compileCommon_def field_missing [OF assms(3)] okCommon_def sourcePointer_enc strIf_def
          generationOf_def commonDef.truncate_def)
  qed
qed

lemma identities_Str: "identities (Arr (map Str xs)) = Inr xs"
proof -
  have "mapE (strIf (\<lambda>_. True) TypeError) (map Str xs) = Inr xs" by (induction xs) (simp_all add: strIf_def)
  then show ?thesis by (simp add: identities_def)
qed

lemma relation_Str: "okIds kind xs \<Longrightarrow> assertRelationIdentities kind (Arr (map Str xs)) = Inr ()"
  by (simp add: assertRelationIdentities_def forE_eq_Inr okIds_def)

lemma sortedUnique_ok: "okIds kind xs \<Longrightarrow> sortedUnique xs = xs"
  by (simp add: okIds_def sortedUnique_same)

definition phaseInput :: "phaseDef \<Rightarrow> val" where
  "phaseInput d = Obj (inputFields d @ phaseFields d)"

definition taskInput :: "taskDef \<Rightarrow> val" where
  "taskInput d = Obj (inputFields d @ taskFields d)"

definition criterionInput :: "ownedDef \<Rightarrow> val" where
  "criterionInput d = Obj (inputFields d @ [(lit ''parentId'', Str (parentId d)), (lit ''supersedes'', Arr (map Str (supersedes d)))])"

lemma compileWorkflow_input:
  assumes "okWorkflow sha d"
  shows "assertDefinitionScalars WorkflowNode (Obj (inputFields d)) = Inr ()"
    and "compileWorkflow (Obj (inputFields d)) sha = Inr d"
  using scalars_input [of WorkflowNode d "[]"] compileCommon_input [of WorkflowNode d sha "[]" "[]"] assms
  by (simp_all add: okWorkflow_def compileWorkflow_def commonDef.truncate_def)

lemma compilePhase_input:
  assumes "okPhase sha d"
  shows "assertPhaseInput (phaseInput d) = Inr ()" and "compilePhase (phaseInput d) sha = Inr d"
proof -
  note ok = assms [unfolded okPhase_def okOwned_def]
  have "compileCommon PhaseNode (phaseInput d) sha (phaseFields d) = Inr (commonDef.truncate d)"
    unfolding phaseInput_def by (rule compileCommon_input) (use ok in \<open>auto simp: phaseFields_def\<close>)
  then show "compilePhase (phaseInput d) sha = Inr d"
    using ok by (cases d) (simp add: compilePhase_def phaseInput_def phaseFields_def identities_Str
        sortedUnique_ok [of PhaseNode] strIf_def commonDef.truncate_def commonDef.extend_def)
  show "assertPhaseInput (phaseInput d) = Inr ()"
    using ok scalars_input [of PhaseNode d "phaseFields d"]
    by (simp add: assertPhaseInput_def phaseInput_def relation_Str assertParent_def phaseFields_def)
qed

lemma compileTask_input:
  assumes "okTask sha d"
  shows "assertTaskInput (taskInput d) = Inr ()" and "compileTask (taskInput d) sha = Inr d"
proof -
  note ok = assms [unfolded okTask_def okOwned_def]
  have policy: "compileCompletionPolicy (encCompletionPolicy (defPolicy d)) = Inr (defPolicy d)"
    using policies.dec_enc [of "defPolicy d"] ok by (simp add: compileCompletionPolicy_eq_Inr)
  have "compileCommon TaskNode (taskInput d) sha (taskFields d) = Inr (commonDef.truncate d)"
    unfolding taskInput_def by (rule compileCommon_input) (use ok in \<open>auto simp: taskFields_def phaseFields_def\<close>)
  then show "compileTask (taskInput d) sha = Inr d"
    using ok policy by (cases d) (simp add: compileTask_def taskInput_def taskFields_def phaseFields_def
        identities_Str sortedUnique_ok [of TaskNode] strIf_def commonDef.truncate_def commonDef.extend_def)
  show "assertTaskInput (taskInput d) = Inr ()"
    using ok scalars_input [of TaskNode d "taskFields d"] policy
    by (simp add: assertTaskInput_def taskInput_def relation_Str assertParent_def taskFields_def phaseFields_def)
qed

lemma compileCriterion_input:
  assumes "okCriterion sha d"
  shows "assertCriterionInput (criterionInput d) = Inr ()" and "compileCriterion (criterionInput d) sha = Inr d"
proof -
  note ok = assms [unfolded okCriterion_def okOwned_def]
  have "compileCommon CriterionNode (criterionInput d) sha (ownedFields d) = Inr (commonDef.truncate d)"
    unfolding criterionInput_def by (rule compileCommon_input) (use ok in \<open>auto simp: ownedFields_def\<close>)
  then show "compileCriterion (criterionInput d) sha = Inr d"
    using ok by (cases d) (simp add: compileCriterion_def criterionInput_def ownedFields_def
        identities_Str sortedUnique_ok [of CriterionNode] strIf_def commonDef.truncate_def commonDef.extend_def)
  show "assertCriterionInput (criterionInput d) = Inr ()"
    using ok scalars_input [of CriterionNode d "ownedFields d"]
    by (simp add: assertCriterionInput_def criterionInput_def relation_Str assertParent_def ownedFields_def)
qed

end
