(* ===== verification/GraphRelations.thy ===== *)
theory GraphRelations
  imports GraphFacts
begin

text \<open>
  The relations between the definitions of a workflow (graph.ts): what \<open>assertDefinitions\<close> accepts,
  stated on the sets of definitions, and that neither it nor the graph depends on their order.
\<close>

section \<open>The contract\<close>

abbreviation ids :: "'a commonDef_scheme list \<Rightarrow> jstr set" where
  "ids ds \<equiv> defId ` set ds"

definition relationIn :: "'a commonDef_scheme list \<Rightarrow> ('a commonDef_scheme \<Rightarrow> jstr list) \<Rightarrow> (jstr \<times> jstr) set" where
  "relationIn ds refs = {(a, b). b \<in> ids ds \<and> (\<exists>d\<in>set ds. defId d = a \<and> b \<in> set (refs d))}"

definition supersedesNewer :: "'a ownedDef_scheme list \<Rightarrow> bool" where
  "supersedesNewer ds \<longleftrightarrow> (\<forall>d\<in>set ds. \<forall>s\<in>set ds. defId s \<in> set (supersedes d) \<longrightarrow>
     parentId d = parentId s \<and> defGeneration s < defGeneration d)"

definition consistentDefs :: "commonDef \<Rightarrow> phaseDef list \<Rightarrow> taskDef list \<Rightarrow> ownedDef list \<Rightarrow> bool" where
  "consistentDefs w ps ts cs \<longleftrightarrow>
     distinct (defId w # map defId ps @ map defId ts @ map defId cs) \<and>
     distinct (map (scopedKey PhaseNode) ps @ map (scopedKey TaskNode) ts @ map (scopedKey CriterionNode) cs) \<and>
     (\<forall>d\<in>set ps. (parentId d = defId w \<or> parentId d \<in> ids ps \<and> isIdentity PhaseKind (Str (parentId d))) \<and>
        set (dependsOn d) \<subseteq> ids ps \<and> set (supersedes d) \<subseteq> ids ps) \<and>
     (\<forall>d\<in>set ts. parentId d \<in> ids ps \<and> isIdentity PhaseKind (Str (parentId d)) \<and>
        set (dependsOn d) \<subseteq> ids ts \<and> set (supersedes d) \<subseteq> ids ts) \<and>
     (\<forall>d\<in>set cs. parentId d \<in> ids ts \<and> isIdentity TaskKind (Str (parentId d)) \<and> set (supersedes d) \<subseteq> ids cs) \<and>
     (\<forall>d\<in>set ts. ownsDeclared cs d) \<and>
     acyclic (relationIn ps (\<lambda>d. [parentId d])) \<and> acyclic (relationIn ps dependsOn) \<and>
     acyclic (relationIn ts dependsOn) \<and> acyclic (relationIn ps supersedes) \<and>
     acyclic (relationIn ts supersedes) \<and> acyclic (relationIn cs supersedes) \<and>
     supersedesNewer ps \<and> supersedesNewer ts \<and> supersedesNewer cs"

section \<open>The checks\<close>

lemma index_Some:
  assumes "distinct (map defId ds)"
  shows "indexById ds i = Some d \<longleftrightarrow> d \<in> set ds \<and> defId d = i"
proof -
  have "distinct (map defId (rev ds))" using assms by (simp add: rev_map [symmetric])
  then show ?thesis by (simp add: indexById_def keyed_Some_iff)
qed

lemma index_None: "indexById ds i = None \<longleftrightarrow> i \<notin> ids ds"
  by (simp add: indexById_def keyed_None)

lemma mapE_Inr [simp]: "mapE Inr xs = Inr xs"
  by (induction xs) simp_all

lemma assertUniqueIds_iff: "assertUniqueIds xs = Inr () \<longleftrightarrow> distinct xs"
  by (auto simp: assertUniqueIds_def bindE_eq_Inr uniqueBy_eq_Inr)

lemma assertUniqueKeys_iff: "assertUniqueKeys ps ts cs = Inr () \<longleftrightarrow>
     distinct (map (scopedKey PhaseNode) ps @ map (scopedKey TaskNode) ts @ map (scopedKey CriterionNode) cs)"
  by (auto simp: assertUniqueKeys_def bindE_eq_Inr uniqueBy_eq_Inr)

lemma assertKnown_iff: "assertKnown refs (indexById ds) = Inr () \<longleftrightarrow> set refs \<subseteq> ids ds"
  by (auto simp: assertKnown_def forE_eq_Inr index_None unknownReference_def)

lemma invalidParent_not: "invalidParent v \<noteq> Inr ()"
  by (simp add: invalidParent_def bindE_def split: sum.splits)

lemma assertPhaseReferences_iff:
  "assertPhaseReferences w (indexById ps) d = Inr () \<longleftrightarrow>
     (parentId d = defId w \<or> parentId d \<in> ids ps \<and> isIdentity PhaseKind (Str (parentId d))) \<and>
     set (dependsOn d) \<subseteq> ids ps \<and> set (supersedes d) \<subseteq> ids ps"
  by (simp add: assertPhaseReferences_def bindE_eq_Inr assertKnown_iff invalidParent_not index_None unknownReference_def)

lemma assertTaskReferences_iff:
  "assertTaskReferences (indexById ps) (indexById ts) d = Inr () \<longleftrightarrow>
     parentId d \<in> ids ps \<and> isIdentity PhaseKind (Str (parentId d)) \<and>
     set (dependsOn d) \<subseteq> ids ts \<and> set (supersedes d) \<subseteq> ids ts"
  by (simp add: assertTaskReferences_def bindE_eq_Inr assertKnown_iff invalidParent_not index_None unknownReference_def)

lemma assertCriterionReferences_iff:
  "assertCriterionReferences (indexById ts) (indexById cs) d = Inr () \<longleftrightarrow>
     parentId d \<in> ids ts \<and> isIdentity TaskKind (Str (parentId d)) \<and> set (supersedes d) \<subseteq> ids cs"
  by (simp add: assertCriterionReferences_def assertKnown_iff invalidParent_not index_None unknownReference_def)

lemma refersTo_distinct: "distinct (map defId ds) \<Longrightarrow> refersTo ds refs = relationIn ds refs"
  by (auto simp: refersTo_def relationIn_def index_Some index_None)

lemma assertSupersession_iff:
  assumes "distinct (map defId ds)" "\<forall>d\<in>set ds. set (supersedes d) \<subseteq> ids ds"
  shows "assertSupersession ds = Inr () \<longleftrightarrow> supersedesNewer ds"
proof -
  have one: "assertSuperseded d (indexById ds x) = Inr () \<longleftrightarrow>
      (\<forall>s\<in>set ds. defId s = x \<longrightarrow> parentId d = parentId s \<and> defGeneration s < defGeneration d)"
    if x: "x \<in> ids ds" for d x
  proof -
    obtain s where "indexById ds x = Some s" using x index_None [of ds x] by (cases "indexById ds x") auto
    moreover from this have "\<forall>t\<in>set ds. defId t = x \<longleftrightarrow> t = s" using assms(1) by (metis index_Some option.inject)
    ultimately show ?thesis using x by (auto simp: assertSuperseded_def)
  qed
  have "assertSupersession ds = Inr () \<longleftrightarrow> (\<forall>d\<in>set ds. \<forall>x\<in>set (supersedes d).
      \<forall>s\<in>set ds. defId s = x \<longrightarrow> parentId d = parentId s \<and> defGeneration s < defGeneration d)"
    unfolding assertSupersession_def forE_eq_Inr using one assms(2) by (meson subsetD)
  then show ?thesis by (auto simp: supersedesNewer_def)
qed

lemma seq_eq_Inr: "bindE m (\<lambda>_. k) = Inr u \<longleftrightarrow> m = Inr () \<and> k = Inr u"
  by (cases m) simp_all

lemma assertReferences_iff:
  "assertReferences w ps ts cs = Inr () \<longleftrightarrow>
     (\<forall>d\<in>set ps. (parentId d = defId w \<or> parentId d \<in> ids ps \<and> isIdentity PhaseKind (Str (parentId d))) \<and>
        set (dependsOn d) \<subseteq> ids ps \<and> set (supersedes d) \<subseteq> ids ps) \<and>
     (\<forall>d\<in>set ts. parentId d \<in> ids ps \<and> isIdentity PhaseKind (Str (parentId d)) \<and>
        set (dependsOn d) \<subseteq> ids ts \<and> set (supersedes d) \<subseteq> ids ts) \<and>
     (\<forall>d\<in>set cs. parentId d \<in> ids ts \<and> isIdentity TaskKind (Str (parentId d)) \<and> set (supersedes d) \<subseteq> ids cs) \<and>
     (\<forall>d\<in>set ts. ownsDeclared cs d)"
  by (simp add: assertReferences_def seq_eq_Inr forE_eq_Inr assertPhaseReferences_iff assertTaskReferences_iff
      assertCriterionReferences_iff)

theorem assertDefinitions_iff: "assertDefinitions w ps ts cs = Inr () \<longleftrightarrow> consistentDefs w ps ts cs"
proof (cases "distinct (defId w # map defId ps @ map defId ts @ map defId cs) \<and> assertReferences w ps ts cs = Inr ()")
  case False
  then show ?thesis
    unfolding assertDefinitions_def seq_eq_Inr assertUniqueIds_iff consistentDefs_def assertReferences_iff by blast
next
  case True
  then have d: "distinct (map defId ps)" "distinct (map defId ts)" "distinct (map defId cs)" by simp_all
  have s: "\<forall>d\<in>set ps. set (supersedes d) \<subseteq> ids ps" "\<forall>d\<in>set ts. set (supersedes d) \<subseteq> ids ts"
      "\<forall>d\<in>set cs. set (supersedes d) \<subseteq> ids cs"
    using True unfolding assertReferences_iff by blast+
  note newer = assertSupersession_iff [OF d(1) s(1)] assertSupersession_iff [OF d(2) s(2)] assertSupersession_iff [OF d(3) s(3)]
  show ?thesis
    by (simp only: assertDefinitions_def seq_eq_Inr assertUniqueIds_iff assertUniqueKeys_iff assertNoCycles_iff
        refersTo_distinct [OF d(1)] refersTo_distinct [OF d(2)] refersTo_distinct [OF d(3)] newer
        assertReferences_iff consistentDefs_def conj_assoc)
qed

section \<open>Independence of the order\<close>

lemma relationIn_set: "set ds = set es \<Longrightarrow> relationIn ds refs = relationIn es refs"
  by (simp add: relationIn_def)

lemma consistentDefs_perm:
  assumes "mset ps = mset ps'" "mset ts = mset ts'" "mset cs = mset cs'"
  shows "consistentDefs w ps ts cs \<longleftrightarrow> consistentDefs w ps' ts' cs'"
proof -
  have sets: "set ps = set ps'" "set ts = set ts'" "set cs = set cs'" using assms by (auto dest: mset_eq_setD)
  have "mset (defId w # map defId ps @ map defId ts @ map defId cs) = mset (defId w # map defId ps' @ map defId ts' @ map defId cs')"
      "mset (map (scopedKey PhaseNode) ps @ map (scopedKey TaskNode) ts @ map (scopedKey CriterionNode) cs) =
       mset (map (scopedKey PhaseNode) ps' @ map (scopedKey TaskNode) ts' @ map (scopedKey CriterionNode) cs')"
    using assms by simp_all
  note dist = this [THEN mset_eq_imp_distinct_iff]
  have owns: "ownsDeclared cs d \<longleftrightarrow> ownsDeclared cs' d" for d
  proof -
    have "mset (map defId (filter (\<lambda>c. parentId c = defId d) cs)) = mset (map defId (filter (\<lambda>c. parentId c = defId d) cs'))"
      using assms(3) by simp
    then have "sort (map defId (filter (\<lambda>c. parentId c = defId d) cs)) = sort (map defId (filter (\<lambda>c. parentId c = defId d) cs'))"
      by (simp only: sort_eq_iff_mset)
    then show ?thesis by (simp only: ownsDeclared_def)
  qed
  show ?thesis
    unfolding consistentDefs_def supersedesNewer_def dist sets owns relationIn_set [OF sets(1)]
      relationIn_set [OF sets(2)] relationIn_set [OF sets(3)] by (rule refl)
qed

lemma nul_split:
  assumes "a @ [0] @ b = a' @ [0] @ b'" "0 \<notin> set a" "0 \<notin> set a'"
  shows "a = a' \<and> b = (b' :: jstr)"
proof -
  have "takeWhile (\<lambda>c. c \<noteq> 0) (x @ [0] @ y) = x" if "0 \<notin> set x" for x y :: jstr
    using that by (induction x) auto
  from this [OF assms(2)] this [OF assms(3)] assms(1) show ?thesis by (metis append_Cons append_Nil same_append_eq list.inject)
qed

definition identityText :: "jstr \<Rightarrow> bool" where
  "identityText s \<longleftrightarrow> (\<exists>k. isIdentity k (Str s))"

lemma identityText_nul: "identityText s \<Longrightarrow> 0 \<notin> set s"
  using identity_chars token_no_underscore by (fastforce simp: identityText_def)

lemma edgeKind_nul: "0 \<notin> set (lit (edgeKindStr k))"
  by (cases k) (simp_all add: lit_def)

lemma edgeKindStr_inject [simp]: "edgeKindStr j = edgeKindStr k \<longleftrightarrow> j = k"
  by (cases j; cases k) simp_all

lemma edgeText_inj: "inj_on edgeText {x. identityText (edgeFrom x)}"
proof (rule inj_onI)
  fix x y assume x: "x \<in> {x. identityText (edgeFrom x)}" and y: "y \<in> {x. identityText (edgeFrom x)}"
    and eq: "edgeText x = edgeText y"
  from nul_split [OF eq [unfolded edgeText_def] edgeKind_nul edgeKind_nul]
  have "edgeKind x = edgeKind y" and rest: "edgeFrom x @ [0] @ edgeTo x = edgeFrom y @ [0] @ edgeTo y" by auto
  moreover from nul_split [OF rest] x y identityText_nul have "edgeFrom x = edgeFrom y" "edgeTo x = edgeTo y" by auto
  ultimately show "x = y" by simp
qed

definition allNodes :: "commonDef \<Rightarrow> phaseDef list \<Rightarrow> taskDef list \<Rightarrow> ownedDef list \<Rightarrow> graphNode list" where
  "allNodes w ps ts cs = WorkflowN w # map PhaseN ps @ map TaskN ts @ map CriterionN cs"

lemma nodeIds: "map nodeId (allNodes w ps ts cs) = defId w # map defId ps @ map defId ts @ map defId cs"
  by (simp add: allNodes_def)

definition typedIds :: "sha256 \<Rightarrow> commonDef \<Rightarrow> phaseDef list \<Rightarrow> taskDef list \<Rightarrow> ownedDef list \<Rightarrow> bool" where
  "typedIds sha w ps ts cs \<longleftrightarrow> okWorkflow sha w \<and> (\<forall>d\<in>set ps. okPhase sha d) \<and> (\<forall>d\<in>set ts. okTask sha d) \<and>
     (\<forall>d\<in>set cs. okCriterion sha d)"

lemma isParent_text: "isParent k (Str s) \<Longrightarrow> identityText s"
  by (auto simp: isParent_def list_ex_iff identityText_def)

lemma edgesOf_from:
  assumes "okOwned k d" "x \<in> set (edgesOf d refs)"
  shows "identityText (edgeFrom x)"
proof -
  have "identityText (parentId d)" using assms(1) isParent_text by (auto simp: okOwned_def)
  moreover have "identityText (defId d)" using assms(1) by (auto simp: okOwned_def okCommon_def identityText_def)
  ultimately show ?thesis using assms(2) by (auto simp: edgesOf_def)
qed

lemma createEdges_from:
  assumes "typedIds sha w ps ts cs" "x \<in> set (createEdges ps ts cs)"
  shows "identityText (edgeFrom x)"
proof -
  from assms(2) consider (p) d where "d \<in> set ps" "x \<in> set (edgesOf d (dependsOn d))"
    | (t) d where "d \<in> set ts" "x \<in> set (edgesOf d (dependsOn d))"
    | (c) d where "d \<in> set cs" "x \<in> set (edgesOf d [])"
    by (auto simp: createEdges_def)
  then show ?thesis
  proof cases
    case p
    moreover from this have "okOwned PhaseNode d" using assms(1) by (simp add: typedIds_def okPhase_def)
    ultimately show ?thesis using edgesOf_from by blast
  next
    case t
    moreover from this have "okOwned TaskNode d" using assms(1) by (simp add: typedIds_def okTask_def)
    ultimately show ?thesis using edgesOf_from by blast
  next
    case c
    moreover from this have "okOwned CriterionNode d" using assms(1) by (simp add: typedIds_def okCriterion_def)
    ultimately show ?thesis using edgesOf_from by blast
  qed
qed

lemma mset_concat_map: "mset xs = mset ys \<Longrightarrow> mset (concat (map f xs)) = mset (concat (map f ys))"
proof -
  assume eq: "mset xs = mset ys"
  have "mset (concat (map f zs)) = (\<Sum>z\<in>#mset zs. mset (f z))" for zs by (induction zs) simp_all
  from this [of xs] this [of ys] eq show ?thesis by simp
qed

text \<open>The graph is a function of the sets of definitions, not of the order in which they come.\<close>

lemma buildGraph_perm:
  assumes "typedIds sha w ps ts cs" "consistentDefs w ps ts cs"
    and "mset ps = mset ps'" "mset ts = mset ts'" "mset cs = mset cs'"
  shows "buildGraph w ps' ts' cs' sha = buildGraph w ps ts cs sha"
proof -
  have "sortNodes (allNodes w ps ts cs) = sortNodes (allNodes w ps' ts' cs')"
    unfolding sortNodes_def
  proof (rule sort_key_perm_eq)
    show "mset (allNodes w ps ts cs) = mset (allNodes w ps' ts' cs')" using assms(3,4,5) by (simp add: allNodes_def)
    have "distinct (map nodeId (allNodes w ps ts cs))" using assms(2) by (simp add: nodeIds consistentDefs_def)
    then show "inj_on nodeId (set (allNodes w ps ts cs))" by (simp add: distinct_map)
  qed
  moreover have "sortEdges (createEdges ps ts cs) = sortEdges (createEdges ps' ts' cs')"
    unfolding sortEdges_def
  proof (rule sort_key_perm_eq)
    show "mset (createEdges ps ts cs) = mset (createEdges ps' ts' cs')"
      unfolding createEdges_def mset_append mset_concat_map [OF assms(3)] mset_concat_map [OF assms(4)]
        mset_concat_map [OF assms(5)] by (rule refl)
    show "inj_on edgeText (set (createEdges ps ts cs))"
      by (rule inj_on_subset [OF edgeText_inj]) (use createEdges_from [OF assms(1)] in auto)
  qed
  ultimately show ?thesis by (simp add: buildGraph_def allNodes_def)
qed

end
