(* ===== verification/GraphCodec.thy ===== *)
theory GraphCodec
  imports GraphRelations
begin

text \<open>
  The compiler of graph.ts as a function of the definitions, and reading a graph back: the input
  recovered from the plain form of a compiled graph compiles to that graph.
\<close>

section \<open>Plain values\<close>

lemma okCommon_numbers: "okCommon k d \<Longrightarrow> wf_num (Whole (defGeneration d))"
  by (simp add: okCommon_def safe_wf)

lemma inputFields_json: "okCommon k d \<Longrightarrow> list_all (\<lambda>kv. is_json (snd kv)) (inputFields d)"
  by (cases "defTitle d") (auto simp: inputFields_def optionalField_def okCommon_numbers okCommon_def)

lemma encCommon_json: "okCommon k d \<Longrightarrow> list_all (\<lambda>kv. is_json (snd kv)) (encCommonFields d)"
  by (cases "defTitle d") (auto simp: encCommonFields_def optionalField_def okCommon_numbers okCommon_def)

lemma fields_json:
  "list_all (\<lambda>kv. is_json (snd kv)) (ownedFields d)" "list_all (\<lambda>kv. is_json (snd kv)) (phaseFields p)"
  "is_json (encCompletionPolicy (defPolicy t)) \<Longrightarrow> list_all (\<lambda>kv. is_json (snd kv)) (taskFields t)"
  by (simp_all add: ownedFields_def phaseFields_def taskFields_def list_all_iff)

lemma distinct_input: "distinct (map fst (inputFields d @ r)) \<longleftrightarrow>
    distinct (map fst r) \<and> fst ` set r \<inter> {lit ''id'', lit ''key'', lit ''generation'', lit ''source'', lit ''input''} = {} \<and>
    (defTitle d \<noteq> None \<longrightarrow> lit ''title'' \<notin> fst ` set r)"
  by (cases "defTitle d") (auto simp: inputFields_def optionalField_def)

lemma distinct_enc: "distinct (map fst (encCommonFields d @ r)) \<longleftrightarrow>
    distinct (map fst r) \<and> fst ` set r \<inter> {lit ''id'', lit ''key'', lit ''generation'', lit ''source'', lit ''input'', lit ''definitionDigest''} = {} \<and>
    (defTitle d \<noteq> None \<longrightarrow> lit ''title'' \<notin> fst ` set r)"
  by (cases "defTitle d") (auto simp: encCommonFields_def optionalField_def)

lemma input_json:
  "okWorkflow sha w \<Longrightarrow> is_json (Obj (inputFields w))"
  "okPhase sha p \<Longrightarrow> is_json (phaseInput p)"
  "okTask sha t \<Longrightarrow> is_json (taskInput t)"
  "okCriterion sha c \<Longrightarrow> is_json (criterionInput c)"
proof -
  show "okWorkflow sha w \<Longrightarrow> is_json (Obj (inputFields w))"
    using distinct_input [of w "[]"] inputFields_json [of _ w] by (auto simp: okWorkflow_def)
  show "okPhase sha p \<Longrightarrow> is_json (phaseInput p)"
    using distinct_input [of p "phaseFields p"] inputFields_json [of _ p] fields_json(2) [of p]
    by (auto simp: okPhase_def okOwned_def phaseInput_def phaseFields_def)
  show "okTask sha t \<Longrightarrow> is_json (taskInput t)"
    using distinct_input [of t "taskFields t"] inputFields_json [of _ t] fields_json(3) [of t]
    by (auto simp: okTask_def okOwned_def taskInput_def taskFields_def phaseFields_def)
  show "okCriterion sha c \<Longrightarrow> is_json (criterionInput c)"
    using distinct_input [of c "ownedFields c"] inputFields_json [of _ c] fields_json(1) [of c]
    by (auto simp: okCriterion_def okOwned_def criterionInput_def ownedFields_def)
qed

section \<open>Compilation\<close>

definition workflowInput :: "commonDef \<Rightarrow> phaseDef list \<Rightarrow> taskDef list \<Rightarrow> ownedDef list \<Rightarrow> val" where
  "workflowInput w ps ts cs = Obj [(lit ''workflow'', Obj (inputFields w)), (lit ''phases'', Arr (map phaseInput ps)),
     (lit ''executableWork'', Arr (map taskInput ts)), (lit ''criteria'', Arr (map criterionInput cs))]"

lemma elements_json: "is_json v \<Longrightarrow> x \<in> set (elements v k) \<Longrightarrow> is_json x"
  using field_json [of v "lit k"] by (cases "get v k") (auto simp: elements_def list_all_iff)

lemma mapE_all:
  assumes "mapE f xs = Inr ys" and "\<And>x y. x \<in> set xs \<Longrightarrow> f x = Inr y \<Longrightarrow> P y"
  shows "\<forall>y\<in>set ys. P y"
  using mapE_in_set [OF assms(1)] assms(2) by blast

text \<open>A compilation that returns has compiled well-typed definitions and built their graph.\<close>

lemma compile_parts:
  assumes "compileWorkflowGraph v sha = Inr g"
  obtains w ps ts cs where "typedIds sha w ps ts cs" "consistentDefs w ps ts cs" "buildGraph w ps ts cs sha = Inr g"
    "compileWorkflow (get v ''workflow'') sha = Inr w" "mapE (\<lambda>x. compilePhase x sha) (elements v ''phases'') = Inr ps"
    "mapE (\<lambda>x. compileTask x sha) (elements v ''executableWork'') = Inr ts"
    "mapE (\<lambda>x. compileCriterion x sha) (elements v ''criteria'') = Inr cs"
proof -
  from assms obtain w ps ts cs where v: "is_json v" "assertNormalizedWorkflowInput v = Inr ()"
    and w: "compileWorkflow (get v ''workflow'') sha = Inr w"
    and ps: "mapE (\<lambda>x. compilePhase x sha) (elements v ''phases'') = Inr ps"
    and ts: "mapE (\<lambda>x. compileTask x sha) (elements v ''executableWork'') = Inr ts"
    and cs: "mapE (\<lambda>x. compileCriterion x sha) (elements v ''criteria'') = Inr cs"
    and g: "consistentDefs w ps ts cs" "buildGraph w ps ts cs sha = Inr g"
    by (auto simp: compileWorkflowGraph_def bindE_eq_Inr snapshotCanonical_eq_Inr assertDefinitions_iff)
  from v(2) have checks: "assertDefinitionScalars WorkflowNode (get v ''workflow'') = Inr ()"
      "\<forall>x\<in>set (elements v ''phases''). assertPhaseInput x = Inr ()"
      "\<forall>x\<in>set (elements v ''executableWork''). assertTaskInput x = Inr ()"
      "\<forall>x\<in>set (elements v ''criteria''). assertCriterionInput x = Inr ()"
    by (auto simp: assertNormalizedWorkflowInput_def seq_eq_Inr forE_eq_Inr split: if_splits)
  have "is_json (get v ''workflow'')"
    using field_json [OF v(1)] checks(1) by (cases "get v ''workflow'' = Undef")
      (auto simp: assertDefinitionScalars_eq_Inr field_def props_def isIdentity_def)
  then have "okWorkflow sha w" using compileWorkflow_ok w checks(1) by blast
  moreover have "\<forall>d\<in>set ps. okPhase sha d"
    by (rule mapE_all [OF ps]) (use checks(2) elements_json [OF v(1)] compilePhase_ok in blast)
  moreover have "\<forall>d\<in>set ts. okTask sha d"
    by (rule mapE_all [OF ts]) (use checks(3) elements_json [OF v(1)] compileTask_ok in blast)
  moreover have "\<forall>d\<in>set cs. okCriterion sha d"
    by (rule mapE_all [OF cs]) (use checks(4) elements_json [OF v(1)] compileCriterion_ok in blast)
  ultimately have "typedIds sha w ps ts cs" by (simp add: typedIds_def)
  with g w ps ts cs show ?thesis using that by blast
qed

lemma compile_input:
  assumes "typedIds sha w ps ts cs" "consistentDefs w ps ts cs"
  shows "compileWorkflowGraph (workflowInput w ps ts cs) sha = buildGraph w ps ts cs sha"
proof -
  let ?v = "workflowInput w ps ts cs"
  note ok = assms(1) [unfolded typedIds_def]
  have "is_json ?v" using ok input_json by (auto simp: workflowInput_def list_all_iff)
  moreover have parts: "get ?v ''workflow'' = Obj (inputFields w)" "elements ?v ''phases'' = map phaseInput ps"
      "elements ?v ''executableWork'' = map taskInput ts" "elements ?v ''criteria'' = map criterionInput cs"
    by (simp_all add: workflowInput_def elements_def)
  moreover have arrays: "hasDefinitionArrays ?v" by (simp add: hasDefinitionArrays_def workflowInput_def)
  moreover have "mapE (\<lambda>x. compilePhase x sha) (map phaseInput ps) = Inr ps"
      "mapE (\<lambda>x. compileTask x sha) (map taskInput ts) = Inr ts"
      "mapE (\<lambda>x. compileCriterion x sha) (map criterionInput cs) = Inr cs"
    using ok by (auto simp: mapE_eq_Inr list_all2_conv_all_nth compilePhase_input compileTask_input compileCriterion_input)
  moreover have "assertNormalizedWorkflowInput ?v = Inr ()"
    using ok compilePhase_input(1) compileTask_input(1) compileCriterion_input(1)
    by (auto simp: assertNormalizedWorkflowInput_def seq_eq_Inr forE_eq_Inr arrays parts compileWorkflow_input(1))
  moreover have "compileWorkflow (Obj (inputFields w)) sha = Inr w" using ok compileWorkflow_input(2) by blast
  moreover have "assertDefinitions w ps ts cs = Inr ()" using assms(2) by (simp add: assertDefinitions_iff)
  ultimately show ?thesis by (simp add: compileWorkflowGraph_def snapshotCanonical_def)
qed

section \<open>Reading a graph\<close>

fun inputOf :: "graphNode \<Rightarrow> val" where
  "inputOf (WorkflowN d) = Obj (inputFields d)"
| "inputOf (PhaseN d) = phaseInput d"
| "inputOf (TaskN d) = taskInput d"
| "inputOf (CriterionN d) = criterionInput d"

fun okNode :: "sha256 \<Rightarrow> graphNode \<Rightarrow> bool" where
  "okNode sha (WorkflowN d) = okWorkflow sha d"
| "okNode sha (PhaseN d) = okPhase sha d"
| "okNode sha (TaskN d) = okTask sha d"
| "okNode sha (CriterionN d) = okCriterion sha d"

fun hasTextTitle :: "graphNode \<Rightarrow> bool" where
  "hasTextTitle (WorkflowN d) = textTitle d"
| "hasTextTitle (PhaseN d) = textTitle d"
| "hasTextTitle (TaskN d) = textTitle d"
| "hasTextTitle (CriterionN d) = textTitle d"

lemma graphExactKeys_enc:
  assumes "map fst r = map lit ks" "lit ''title'' \<notin> fst ` set r"
  shows "graphExactKeys (Obj (encCommonFields d @ r)) (commonKeys @ ks) [''title''] = Inr ()"
proof -
  have "filter (\<lambda>k. k \<noteq> lit ''title'') (map fst r) = map fst r" using assms(2) by (auto intro: filter_True)
  then show ?thesis
    by (cases "defTitle d") (simp_all add: graphExactKeys_def encCommonFields_def optionalField_def assms(1))
qed

lemma decodedTitle_enc:
  assumes "okCommon k d" "textTitle d" "lit ''title'' \<notin> fst ` set r"
  shows "decodedTitle (Obj (encCommonFields d @ r)) = Inr (optionalField ''title'' id (defTitle d))"
proof (cases "defTitle d")
  case None
  then show ?thesis by (simp add: decodedTitle_def field_missing [OF assms(3)] optionalField_def)
next
  case (Some t)
  with assms(1,2) obtain s where s: "t = Str s" "definitionTitle (Str s) = Inr (Str s)"
    by (auto simp: textTitle_def okCommon_def)
  with Some show ?thesis by (simp add: decodedTitle_def optionalField_def definitionTitle_Str split: if_splits)
qed

lemma sourceInput_enc:
  "okCommon k d \<Longrightarrow> sourceInput (Obj [(lit ''locator'', Str (defLocator d)), (lit ''pointer'', Str (defPointer d))]) =
     Inr (Obj [(lit ''locator'', Str (defLocator d)), (lit ''pointer'', Str (defPointer d))])"
  by (simp add: sourceInput_def graphExactKeys_def okCommon_def strIf_def)

lemma commonInput_enc:
  assumes "okCommon k d" "textTitle d" "lit ''title'' \<notin> fst ` set r"
  shows "commonInput k (Obj (encCommonFields d @ r)) = Inr (inputFields d)"
  using assms(1) by (simp add: commonInput_def decodedTitle_enc [OF assms] sourceInput_enc inputFields_def)

lemma digested_pattern: "digested sha k d f \<Longrightarrow> sha256Pattern (definitionDigest d)"
  by (auto simp: digested_def err_simps)

lemma assertCommonDefinition_enc:
  "okCommon k d \<Longrightarrow> digested sha k d f \<Longrightarrow> assertCommonDefinition k (Obj (encCommonFields d @ r)) = Inr ()"
  by (drule digested_pattern) (simp add: assertCommonDefinition_def okCommon_def isDefinitionGeneration_def)

lemma assertIdentityArray_enc: "okIds k xs \<Longrightarrow> assertIdentityArray k (Arr (map Str xs)) = Inr ()"
  by (simp add: assertIdentityArray_def okIds_def list_ex_iff)

lemma nodeInput_enc:
  assumes "okNode sha n" "hasTextTitle n"
  shows "nodeInput (encNode n) = Inr (nodeKind n, inputOf n)"
proof -
  have kind: "enumOf nodeKindStr [WorkflowNode, PhaseNode, TaskNode, CriterionNode] (enumText nodeKindStr k) = Some k" for k
  proof -
    have "inj nodeKindStr" by (rule injI) (case_tac x; case_tac y; simp)
    then show ?thesis by (rule enumOf_text) (cases k; simp)
  qed
  have "(case nodeKind n of
           WorkflowNode \<Rightarrow> workflowDefinitionInput (encDefinition n)
         | PhaseNode \<Rightarrow> phaseDefinitionInput (encDefinition n)
         | TaskNode \<Rightarrow> taskDefinitionInput (encDefinition n)
         | CriterionNode \<Rightarrow> criterionDefinitionInput (encDefinition n)) = Inr (inputOf n)"
  proof (cases n)
    case (WorkflowN d)
    with assms graphExactKeys_enc [of "[]" "[]" d] commonInput_enc [of WorkflowNode d "[]"]
      assertCommonDefinition_enc [of WorkflowNode d sha "[]" "[]"]
    show ?thesis by (simp add: workflowDefinitionInput_def okWorkflow_def)
  next
    case (PhaseN d)
    then have ok: "okPhase sha d" "textTitle d" using assms by simp_all
    note parts = ok(1) [unfolded okPhase_def okOwned_def]
    have "encDefinition n = Obj (encCommonFields d @ phaseFields d)" by (simp add: PhaseN phaseFields_def)
    moreover have "graphExactKeys (Obj (encCommonFields d @ phaseFields d))
        (commonKeys @ [''parentId'', ''dependsOn'', ''supersedes'']) [''title''] = Inr ()"
      by (rule graphExactKeys_enc) (simp_all add: phaseFields_def)
    moreover have "commonInput PhaseNode (Obj (encCommonFields d @ phaseFields d)) = Inr (inputFields d)"
      by (rule commonInput_enc) (use parts ok(2) in \<open>auto simp: phaseFields_def\<close>)
    moreover have "assertCommonDefinition PhaseNode (Obj (encCommonFields d @ phaseFields d)) = Inr ()"
      using parts assertCommonDefinition_enc by blast
    ultimately show ?thesis using parts
      by (simp add: PhaseN phaseDefinitionInput_def) (simp add: phaseFields_def
          assertIdentityArray_enc phaseInput_def)
  next
    case (TaskN d)
    then have ok: "okTask sha d" "textTitle d" using assms by simp_all
    note parts = ok(1) [unfolded okTask_def okOwned_def]
    have "encDefinition n = Obj (encCommonFields d @ taskFields d)" by (simp add: TaskN phaseFields_def taskFields_def)
    moreover have "graphExactKeys (Obj (encCommonFields d @ taskFields d))
        (commonKeys @ [''parentId'', ''dependsOn'', ''supersedes'', ''completionPolicy'']) [''title''] = Inr ()"
      by (rule graphExactKeys_enc) (simp_all add: phaseFields_def taskFields_def)
    moreover have "commonInput TaskNode (Obj (encCommonFields d @ taskFields d)) = Inr (inputFields d)"
      by (rule commonInput_enc) (use parts ok(2) in \<open>auto simp: phaseFields_def taskFields_def\<close>)
    moreover have "graphCompletionPolicy (encCompletionPolicy (defPolicy d)) = Inr (defPolicy d)"
      using parts policies.dec_enc [of "defPolicy d"] by (simp add: graphCompletionPolicy_def)
    moreover have "assertCommonDefinition TaskNode (Obj (encCommonFields d @ taskFields d)) = Inr ()"
      using parts assertCommonDefinition_enc by blast
    ultimately show ?thesis using parts
      by (simp add: TaskN taskDefinitionInput_def) (simp add: phaseFields_def taskFields_def
          assertIdentityArray_enc taskInput_def)
  next
    case (CriterionN d)
    then have ok: "okCriterion sha d" "textTitle d" using assms by simp_all
    note parts = ok(1) [unfolded okCriterion_def okOwned_def]
    have "encDefinition n = Obj (encCommonFields d @ ownedFields d)" by (simp add: CriterionN ownedFields_def)
    moreover have "graphExactKeys (Obj (encCommonFields d @ ownedFields d))
        (commonKeys @ [''parentId'', ''supersedes'']) [''title''] = Inr ()"
      by (rule graphExactKeys_enc) (simp_all add: ownedFields_def)
    moreover have "commonInput CriterionNode (Obj (encCommonFields d @ ownedFields d)) = Inr (inputFields d)"
      by (rule commonInput_enc) (use parts ok(2) in \<open>auto simp: ownedFields_def\<close>)
    moreover have "assertCommonDefinition CriterionNode (Obj (encCommonFields d @ ownedFields d)) = Inr ()"
      using parts assertCommonDefinition_enc by blast
    ultimately show ?thesis using parts
      by (simp add: CriterionN criterionDefinitionInput_def) (simp add: ownedFields_def
          assertIdentityArray_enc criterionInput_def)
  qed
  then show ?thesis by (simp add: nodeInput_def encNode_def graphExactKeys_def kind cong: nodeKind.case_cong)
qed

text \<open>The definitions of each kind, in the order of the nodes.\<close>

definition workflowsOf :: "graphNode list \<Rightarrow> commonDef list" where
  "workflowsOf ns = concat (map (\<lambda>n. case n of WorkflowN d \<Rightarrow> [d] | _ \<Rightarrow> []) ns)"

definition phasesOf :: "graphNode list \<Rightarrow> phaseDef list" where
  "phasesOf ns = concat (map (\<lambda>n. case n of PhaseN d \<Rightarrow> [d] | _ \<Rightarrow> []) ns)"

definition tasksOf :: "graphNode list \<Rightarrow> taskDef list" where
  "tasksOf ns = concat (map (\<lambda>n. case n of TaskN d \<Rightarrow> [d] | _ \<Rightarrow> []) ns)"

definition criteriaOf :: "graphNode list \<Rightarrow> ownedDef list" where
  "criteriaOf ns = concat (map (\<lambda>n. case n of CriterionN d \<Rightarrow> [d] | _ \<Rightarrow> []) ns)"

lemmas definitionsOf_defs = workflowsOf_def phasesOf_def tasksOf_def criteriaOf_def

lemma definitionsOf_all:
  "workflowsOf (allNodes w ps ts cs) = [w]" "phasesOf (allNodes w ps ts cs) = ps"
  "tasksOf (allNodes w ps ts cs) = ts" "criteriaOf (allNodes w ps ts cs) = cs"
proof -
  have none: "concat (map (\<lambda>x. []) xs) = []" for xs :: "'x list" by (induction xs) simp_all
  have one: "concat (map (\<lambda>x. [x]) xs) = xs" for xs :: "'x list" by (induction xs) simp_all
  show "workflowsOf (allNodes w ps ts cs) = [w]" "phasesOf (allNodes w ps ts cs) = ps"
    "tasksOf (allNodes w ps ts cs) = ts" "criteriaOf (allNodes w ps ts cs) = cs"
    by (simp_all add: definitionsOf_defs allNodes_def comp_def none one)
qed

lemma definitionsOf_perm:
  assumes "mset ns = mset ms"
  shows "mset (workflowsOf ns) = mset (workflowsOf ms)" "mset (phasesOf ns) = mset (phasesOf ms)"
    "mset (tasksOf ns) = mset (tasksOf ms)" "mset (criteriaOf ns) = mset (criteriaOf ms)"
  unfolding definitionsOf_defs by (rule mset_concat_map [OF assms])+

lemma addNodes:
  assumes "\<forall>n\<in>set ns. okNode sha n \<and> hasTextTitle n"
    and "length (workflowsOf ns) + (if w = None then 0 else 1) \<le> 1"
  shows "foldE (\<lambda>acc x. bindE (nodeInput x) (addNode acc)) (w, ps, ts, cs) (map encNode ns) =
     Inr (if workflowsOf ns = [] then w else Some (Obj (inputFields (hd (workflowsOf ns)))),
       ps @ map phaseInput (phasesOf ns), ts @ map taskInput (tasksOf ns), cs @ map criterionInput (criteriaOf ns))"
  using assms
proof (induction ns arbitrary: w ps ts cs)
  case (Cons n ns)
  then have n: "nodeInput (encNode n) = Inr (nodeKind n, inputOf n)" using nodeInput_enc [of sha n] by simp
  show ?case
  proof (cases n)
    case (WorkflowN d)
    then have "w = None" "workflowsOf ns = []" using Cons.prems(2) by (auto simp: workflowsOf_def split: if_splits)
    then show ?thesis using Cons.IH [of "Some (Obj (inputFields d))"] Cons.prems(1) n WorkflowN
      by (simp add: definitionsOf_defs)
  next
    case (PhaseN d)
    then show ?thesis using Cons.IH [of w "ps @ [phaseInput d]"] Cons.prems n by (simp add: definitionsOf_defs)
  next
    case (TaskN d)
    then show ?thesis using Cons.IH [of w ps "ts @ [taskInput d]"] Cons.prems n by (simp add: definitionsOf_defs)
  next
    case (CriterionN d)
    then show ?thesis using Cons.IH [of w ps ts "cs @ [criterionInput d]"] Cons.prems n by (simp add: definitionsOf_defs)
  qed
qed (simp add: definitionsOf_defs)

lemma edgesOf_typed:
  assumes "okOwned k d" "okIds k refs" "x \<in> set (edgesOf d refs)" "k = CriterionNode \<longrightarrow> refs = []" "k \<noteq> WorkflowNode"
  shows "assertGraphEdge (encEdge x) = Inr ()"
proof -
  have kind: "enumOf edgeKindStr [Contains, DependsOn, Supersedes] (enumText edgeKindStr e) = Some e" for e
  proof -
    have "inj edgeKindStr" by (rule injI) simp
    then show ?thesis by (rule enumOf_text) (cases e; simp)
  qed
  have "list_ex (\<lambda>(a, b). isIdentity a (Str (edgeFrom x)) \<and> isIdentity b (Str (edgeTo x))) (edgeKinds (edgeKind x))"
    using assms by (cases k) (auto simp: okOwned_def okCommon_def isParent_def okIds_def edgesOf_def)
  then show ?thesis by (simp add: assertGraphEdge_def encEdge_def graphExactKeys_def kind)
qed

lemma createEdges_typed:
  assumes "typedIds sha w ps ts cs" "x \<in> set (createEdges ps ts cs)"
  shows "assertGraphEdge (encEdge x) = Inr ()"
proof -
  from assms(2) consider (p) d where "d \<in> set ps" "x \<in> set (edgesOf d (dependsOn d))"
    | (t) d where "d \<in> set ts" "x \<in> set (edgesOf d (dependsOn d))"
    | (c) d where "d \<in> set cs" "x \<in> set (edgesOf d [])"
    by (auto simp: createEdges_def)
  then show ?thesis
  proof cases
    case p
    moreover from this have "okOwned PhaseNode d" "okIds PhaseNode (dependsOn d)"
      using assms(1) by (simp_all add: typedIds_def okPhase_def)
    ultimately show ?thesis using edgesOf_typed [of PhaseNode d "dependsOn d" x] by simp
  next
    case t
    moreover from this have "okOwned TaskNode d" "okIds TaskNode (dependsOn d)"
      using assms(1) by (simp_all add: typedIds_def okTask_def)
    ultimately show ?thesis using edgesOf_typed [of TaskNode d "dependsOn d" x] by simp
  next
    case c
    moreover from this have "okOwned CriterionNode d" using assms(1) by (simp add: typedIds_def okCriterion_def)
    ultimately show ?thesis using edgesOf_typed [of CriterionNode d "[]" x] by (simp add: okIds_def)
  qed
qed

lemma buildGraph_eq_Inr:
  "buildGraph w ps ts cs sha = Inr g \<longleftrightarrow> graphWorkflow g = defId w \<and>
     graphNodes g = sortNodes (allNodes w ps ts cs) \<and> graphEdges g = sortEdges (createEdges ps ts cs) \<and>
     canonicalDigest (revisionContent (defId w) (graphNodes g) (graphEdges g)) sha = Inr (revisionDigest g)"
  by (cases g) (auto simp: buildGraph_def allNodes_def Let_def bindE_eq_Inr)

lemma nodes_ok:
  "typedIds sha w ps ts cs \<Longrightarrow> n \<in> set (allNodes w ps ts cs) \<Longrightarrow> okNode sha n"
  by (auto simp: typedIds_def allNodes_def)

text \<open>The input read back from a graph is that of its definitions.\<close>

lemma graph_input:
  assumes "typedIds sha w ps ts cs" "buildGraph w ps ts cs sha = Inr g" "\<forall>n\<in>set (graphNodes g). hasTextTitle n"
  shows "workflowInputFromGraphSnapshot (encGraph g) =
     Inr (workflowInput w (phasesOf (graphNodes g)) (tasksOf (graphNodes g)) (criteriaOf (graphNodes g)))"
proof -
  note g = assms(2) [unfolded buildGraph_eq_Inr]
  have perm: "mset (graphNodes g) = mset (allNodes w ps ts cs)" using g by (simp add: sortNodes_def)
  have "workflowsOf (graphNodes g) = [w]" using definitionsOf_perm(1) [OF perm] by (simp add: definitionsOf_all)
  moreover have "\<forall>n\<in>set (graphNodes g). okNode sha n \<and> hasTextTitle n"
    using nodes_ok [OF assms(1)] assms(3) mset_eq_setD [OF perm] by blast
  ultimately have nodes: "foldE (\<lambda>acc x. bindE (nodeInput x) (addNode acc)) (None, [], [], []) (map encNode (graphNodes g)) =
      Inr (Some (Obj (inputFields w)), map phaseInput (phasesOf (graphNodes g)), map taskInput (tasksOf (graphNodes g)),
        map criterionInput (criteriaOf (graphNodes g)))"
    using addNodes [of "graphNodes g" sha None "[]" "[]" "[]"] by simp
  have "set (graphEdges g) = set (createEdges ps ts cs)" using g by (simp add: sortEdges_def)
  then have edges: "forE assertGraphEdge (map encEdge (graphEdges g)) = Inr ()"
    using createEdges_typed [OF assms(1)] by (simp add: forE_eq_Inr)
  have "isIdentity WorkflowKind (Str (graphWorkflow g))" using g assms(1)
    by (simp add: typedIds_def okWorkflow_def okCommon_def)
  moreover have "sha256Pattern (revisionDigest g)" using g by (auto simp: err_simps)
  ultimately show ?thesis
    by (simp add: workflowInputFromGraphSnapshot_def encGraph_def graphExactKeys_def nodes edges workflowInput_def)
qed

lemma encGraph_json:
  assumes "typedIds sha w ps ts cs" "buildGraph w ps ts cs sha = Inr g"
  shows "is_json (encGraph g)"
proof -
  note g = assms(2) [unfolded buildGraph_eq_Inr]
  have ok: "okNode sha n" if "n \<in> set (graphNodes g)" for n
    using nodes_ok [OF assms(1)] g that by (simp add: sortNodes_def)
  have "is_json (encDefinition n)" if "okNode sha n" for n
  proof (cases n)
    case (WorkflowN d)
    with that distinct_enc [of d "[]"] encCommon_json [of _ d] show ?thesis by (auto simp: okWorkflow_def)
  next
    case (PhaseN d)
    with that distinct_enc [of d "phaseFields d"] encCommon_json [of _ d] fields_json(2) [of d]
    show ?thesis by (auto simp: okPhase_def okOwned_def phaseFields_def)
  next
    case (TaskN d)
    with that distinct_enc [of d "taskFields d"] encCommon_json [of _ d] fields_json(3) [of d]
    show ?thesis by (auto simp: okTask_def okOwned_def taskFields_def phaseFields_def)
  next
    case (CriterionN d)
    with that distinct_enc [of d "ownedFields d"] encCommon_json [of _ d] fields_json(1) [of d]
    show ?thesis by (auto simp: okCriterion_def okOwned_def ownedFields_def)
  qed
  then have "\<forall>n\<in>set (graphNodes g). is_json (encNode n)" using ok by (simp add: encNode_def enumText_def)
  then show ?thesis by (simp add: encGraph_def encEdge_def enumText_def list_all_iff)
qed

end
