(* ===== verification/GraphShape.thy ===== *)
theory GraphShape
  imports GraphCodec
begin

text \<open>
  The shape of a compiled graph (graph.ts): its edges are the relations of its definitions, its
  containment a tree below the workflow, its dependencies and supersessions acyclic.
\<close>

section \<open>Well-formed graphs\<close>

definition edgeRel :: "edgeKind \<Rightarrow> workflowGraph \<Rightarrow> (jstr \<times> jstr) set" where
  "edgeRel k g = {(edgeFrom x, edgeTo x) | x. x \<in> set (graphEdges g) \<and> edgeKind x = k}"

fun nodeGeneration :: "graphNode \<Rightarrow> int" where
  "nodeGeneration (WorkflowN d) = defGeneration d"
| "nodeGeneration (PhaseN d) = defGeneration d"
| "nodeGeneration (TaskN d) = defGeneration d"
| "nodeGeneration (CriterionN d) = defGeneration d"

text \<open>Which kinds of nodes an edge of a kind connects.\<close>

fun connects :: "edgeKind \<Rightarrow> nodeKind \<Rightarrow> nodeKind \<Rightarrow> bool" where
  "connects Contains a b \<longleftrightarrow> (a, b) \<in> {(WorkflowNode, PhaseNode), (PhaseNode, PhaseNode), (PhaseNode, TaskNode), (TaskNode, CriterionNode)}"
| "connects DependsOn a b \<longleftrightarrow> a = b \<and> a \<in> {PhaseNode, TaskNode}"
| "connects Supersedes a b \<longleftrightarrow> a = b \<and> a \<in> {PhaseNode, TaskNode, CriterionNode}"

definition wellFormedGraph :: "workflowGraph \<Rightarrow> bool" where
  "wellFormedGraph g \<longleftrightarrow>
     distinct (map nodeId (graphNodes g)) \<and> sorted (map nodeId (graphNodes g)) \<and>
     (\<forall>n\<in>set (graphNodes g). isIdentity (nodeIdentity (nodeKind n)) (Str (nodeId n)) \<and>
        (nodeKind n = WorkflowNode \<longleftrightarrow> nodeId n = graphWorkflow g)) \<and>
     graphWorkflow g \<in> nodeId ` set (graphNodes g) \<and>
     (\<forall>x\<in>set (graphEdges g). \<exists>m\<in>set (graphNodes g). \<exists>n\<in>set (graphNodes g). nodeId m = edgeFrom x \<and>
        nodeId n = edgeTo x \<and> connects (edgeKind x) (nodeKind m) (nodeKind n)) \<and>
     (\<forall>k. acyclic (edgeRel k g)) \<and>
     (\<forall>n\<in>set (graphNodes g). (graphWorkflow g, nodeId n) \<in> (edgeRel Contains g)\<^sup>*) \<and>
     single_valued ((edgeRel Contains g)\<inverse>) \<and>
     (\<forall>m\<in>set (graphNodes g). \<forall>n\<in>set (graphNodes g). (nodeId m, nodeId n) \<in> edgeRel Supersedes g \<longrightarrow>
        nodeGeneration n < nodeGeneration m \<and>
        (\<exists>p. (p, nodeId m) \<in> edgeRel Contains g \<and> (p, nodeId n) \<in> edgeRel Contains g)) \<and>
     (\<forall>d. TaskN d \<in> set (graphNodes g) \<longrightarrow>
        {c. (defId d, c) \<in> edgeRel Contains g} = set (map reqCriterion (policyCriteria (defPolicy d))))"

section \<open>The relations of the edges\<close>

definition relOf :: "'a commonDef_scheme list \<Rightarrow> ('a commonDef_scheme \<Rightarrow> jstr list) \<Rightarrow> (jstr \<times> jstr) set" where
  "relOf ds refs = {(defId d, x) | d x. d \<in> set ds \<and> x \<in> set (refs d)}"

lemma relOf_iff: "(a, b) \<in> relOf ds refs \<longleftrightarrow> (\<exists>d\<in>set ds. defId d = a \<and> b \<in> set (refs d))"
  by (auto simp: relOf_def)

lemma finite_relOf [simp]: "finite (relOf ds refs)"
proof -
  have "relOf ds refs = (\<Union>d\<in>set ds. (\<lambda>x. (defId d, x)) ` set (refs d))" by (auto simp: relOf_def)
  then show ?thesis by simp
qed

lemma Domain_relOf: "Domain (relOf ds refs) \<subseteq> ids ds"
  by (auto simp: relOf_iff)

lemma edgesOf_mem:
  "x \<in> set (edgesOf d refs) \<longleftrightarrow>
     edgeKind x = Contains \<and> edgeFrom x = parentId d \<and> edgeTo x = defId d \<or>
     edgeKind x = DependsOn \<and> edgeFrom x = defId d \<and> edgeTo x \<in> set refs \<or>
     edgeKind x = Supersedes \<and> edgeFrom x = defId d \<and> edgeTo x \<in> set (supersedes d)"
  by (cases x) (auto simp: edgesOf_def)

lemma edgeRel_pair: "(a, b) \<in> edgeRel k g \<longleftrightarrow> \<lparr>edgeKind = k, edgeFrom = a, edgeTo = b\<rparr> \<in> set (graphEdges g)"
proof
  assume "(a, b) \<in> edgeRel k g"
  then obtain x where "x \<in> set (graphEdges g)" "edgeKind x = k" "edgeFrom x = a" "edgeTo x = b" by (auto simp: edgeRel_def)
  moreover obtain k' a' b' where "x = \<lparr>edgeKind = k', edgeFrom = a', edgeTo = b'\<rparr>" by (cases x)
  ultimately show "\<lparr>edgeKind = k, edgeFrom = a, edgeTo = b\<rparr> \<in> set (graphEdges g)" by simp
qed (force simp: edgeRel_def)

lemma edgeRel_built:
  assumes "graphEdges g = sortEdges (createEdges ps ts cs)"
  shows "edgeRel Contains g = (relOf ps (\<lambda>d. [parentId d]) \<union> relOf ts (\<lambda>d. [parentId d]) \<union> relOf cs (\<lambda>d. [parentId d]))\<inverse>"
    "edgeRel DependsOn g = relOf ps dependsOn \<union> relOf ts dependsOn"
    "edgeRel Supersedes g = relOf ps supersedes \<union> relOf ts supersedes \<union> relOf cs supersedes"
proof -
  have e: "(a, b) \<in> edgeRel k g \<longleftrightarrow> (\<exists>d\<in>set ps. \<lparr>edgeKind = k, edgeFrom = a, edgeTo = b\<rparr> \<in> set (edgesOf d (dependsOn d))) \<or>
      (\<exists>d\<in>set ts. \<lparr>edgeKind = k, edgeFrom = a, edgeTo = b\<rparr> \<in> set (edgesOf d (dependsOn d))) \<or>
      (\<exists>d\<in>set cs. \<lparr>edgeKind = k, edgeFrom = a, edgeTo = b\<rparr> \<in> set (edgesOf d []))" for a b k
    by (auto simp: edgeRel_pair assms sortEdges_def createEdges_def)
  show "edgeRel Contains g = (relOf ps (\<lambda>d. [parentId d]) \<union> relOf ts (\<lambda>d. [parentId d]) \<union> relOf cs (\<lambda>d. [parentId d]))\<inverse>"
    by (rule set_eqI) (auto simp: split_paired_all e edgesOf_mem relOf_iff)
  show "edgeRel DependsOn g = relOf ps dependsOn \<union> relOf ts dependsOn"
    by (rule set_eqI) (auto simp: split_paired_all e edgesOf_mem relOf_iff)
  show "edgeRel Supersedes g = relOf ps supersedes \<union> relOf ts supersedes \<union> relOf cs supersedes"
    by (rule set_eqI) (auto simp: split_paired_all e edgesOf_mem relOf_iff)
qed

text \<open>A cycle stays among the identities that have successors.\<close>

lemma acyclic_restrict:
  assumes "acyclic {(a, b). (a, b) \<in> R \<and> b \<in> A}" "Domain R \<subseteq> A"
  shows "acyclic R"
proof -
  let ?S = "{(a, b). (a, b) \<in> R \<and> b \<in> A}"
  have "b \<in> A \<longrightarrow> (a, b) \<in> ?S\<^sup>+" if "(a, b) \<in> R\<^sup>+" for a b
    using that
  proof (induction rule: trancl_induct)
    case (step b c)
    have "b \<in> A" using step.hyps(2) assms(2) by auto
    with step show ?case by (auto intro: trancl.trancl_into_trancl)
  qed auto
  moreover have "a \<in> A" if "(a, a) \<in> R\<^sup>+" for a
    using that assms(2) by (metis Domain.DomainI subsetD tranclD)
  ultimately show ?thesis using assms(1) unfolding acyclic_def by blast
qed

lemma acyclic_relOf: "acyclic (relationIn ds refs) \<Longrightarrow> acyclic (relOf ds refs)"
proof (rule acyclic_restrict [of _ "ids ds"])
  assume a: "acyclic (relationIn ds refs)"
  have "{(a, b). (a, b) \<in> relOf ds refs \<and> b \<in> ids ds} = relationIn ds refs"
    by (auto simp: relOf_iff relationIn_def)
  with a show "acyclic {(a, b). (a, b) \<in> relOf ds refs \<and> b \<in> ids ds}" by simp
qed (rule Domain_relOf)

lemma acyclic_Un:
  assumes "finite R" "finite S" "acyclic R" "acyclic S" "Domain R \<inter> Range S = {}"
  shows "acyclic (R \<union> S)"
proof -
  have "wf R" "wf S" using assms by (simp_all add: finite_acyclic_wf)
  then have "wf (R \<union> S)" using assms(5) by (rule wf_Un)
  then show ?thesis by (rule wf_acyclic)
qed

lemma acyclic_bipartite: "Domain R \<inter> Range R = {} \<Longrightarrow> acyclic R"
proof -
  assume e: "Domain R \<inter> Range R = {}"
  have "a \<in> Domain R \<and> b \<in> Range R" if "(a, b) \<in> R\<^sup>+" for a b
    using that by (meson Domain.DomainI Range.intros tranclD tranclD2)
  with e show ?thesis unfolding acyclic_def by blast
qed

section \<open>A built graph is well-formed\<close>

lemma node_set: "set (allNodes w ps ts cs) = insert (WorkflowN w) (PhaseN ` set ps \<union> TaskN ` set ts \<union> CriterionN ` set cs)"
  by (auto simp: allNodes_def)

lemma consistent_apart:
  assumes "consistentDefs w ps ts cs"
  shows "defId w \<notin> ids ps" "defId w \<notin> ids ts" "defId w \<notin> ids cs" "ids ps \<inter> ids ts = {}" "ids ps \<inter> ids cs = {}"
    "ids ts \<inter> ids cs = {}" "distinct (map defId ps)" "distinct (map defId ts)" "distinct (map defId cs)"
  using assms unfolding consistentDefs_def by auto

lemma consistent_parts:
  assumes "consistentDefs w ps ts cs"
  shows "d \<in> set ps \<Longrightarrow> parentId d \<in> insert (defId w) (ids ps) \<and> set (dependsOn d) \<subseteq> ids ps \<and> set (supersedes d) \<subseteq> ids ps"
    "t \<in> set ts \<Longrightarrow> parentId t \<in> ids ps \<and> set (dependsOn t) \<subseteq> ids ts \<and> set (supersedes t) \<subseteq> ids ts"
    "c \<in> set cs \<Longrightarrow> parentId c \<in> ids ts \<and> set (supersedes c) \<subseteq> ids cs"
  using assms unfolding consistentDefs_def by blast+

lemma range_relOf: "(\<And>d. d \<in> set ds \<Longrightarrow> set (refs d) \<subseteq> A) \<Longrightarrow> Range (relOf ds refs) \<subseteq> A"
  by (fastforce simp: relOf_iff)

lemma parent_range:
  assumes "consistentDefs w ps ts cs"
  shows "Range (relOf ps (\<lambda>d. [parentId d])) \<subseteq> insert (defId w) (ids ps)"
    "Range (relOf ts (\<lambda>d. [parentId d])) \<subseteq> ids ps" "Range (relOf cs (\<lambda>d. [parentId d])) \<subseteq> ids ts"
proof -
  note parts = consistent_parts [OF assms]
  show "Range (relOf ps (\<lambda>d. [parentId d])) \<subseteq> insert (defId w) (ids ps)" by (rule range_relOf) (use parts(1) in simp)
  show "Range (relOf ts (\<lambda>d. [parentId d])) \<subseteq> ids ps" by (rule range_relOf) (use parts(2) in simp)
  show "Range (relOf cs (\<lambda>d. [parentId d])) \<subseteq> ids ts" by (rule range_relOf) (use parts(3) in simp)
qed

lemma relation_range:
  assumes "consistentDefs w ps ts cs"
  shows "Range (relOf ps dependsOn) \<subseteq> ids ps" "Range (relOf ts dependsOn) \<subseteq> ids ts"
    "Range (relOf ps supersedes) \<subseteq> ids ps" "Range (relOf ts supersedes) \<subseteq> ids ts" "Range (relOf cs supersedes) \<subseteq> ids cs"
  by (rule range_relOf, simp add: consistent_parts [OF assms])+

lemma edges_acyclic:
  assumes "consistentDefs w ps ts cs" "graphEdges g = sortEdges (createEdges ps ts cs)"
  shows "acyclic (edgeRel k g)"
proof -
  let ?P = "relOf ps (\<lambda>d. [parentId d])" and ?T = "relOf ts (\<lambda>d. [parentId d])" and ?C = "relOf cs (\<lambda>d. [parentId d])"
  note ap = consistent_apart [OF assms(1)] and pr = parent_range [OF assms(1)] and rr = relation_range [OF assms(1)]
  have ac: "acyclic (relOf ps (\<lambda>d. [parentId d]))" "acyclic (relOf ps dependsOn)" "acyclic (relOf ts dependsOn)"
      "acyclic (relOf ps supersedes)" "acyclic (relOf ts supersedes)" "acyclic (relOf cs supersedes)"
    using assms(1) unfolding consistentDefs_def by (blast intro: acyclic_relOf)+
  show ?thesis
  proof (cases k)
    case Contains
    have "acyclic ?T" using pr(2) Domain_relOf [of ts] ap(4) by (intro acyclic_bipartite) blast
    moreover have "acyclic ?C" using pr(3) Domain_relOf [of cs] ap(6) by (intro acyclic_bipartite) blast
    moreover have "Domain ?T \<inter> Range ?P = {}" using pr(1) Domain_relOf [of ts "\<lambda>d. [parentId d]"] ap(2,4) by blast
    moreover have "Domain ?C \<inter> Range (?T \<union> ?P) = {}"
      using pr(1,2) Domain_relOf [of cs "\<lambda>d. [parentId d]"] ap(3,5) by blast
    ultimately have "acyclic (?C \<union> (?T \<union> ?P))" using ac(1) by (intro acyclic_Un [of ?C] acyclic_Un [of ?T]) simp_all
    moreover have "?C \<union> (?T \<union> ?P) = ?P \<union> ?T \<union> ?C" by blast
    ultimately show ?thesis by (simp only: Contains edgeRel_built(1) [OF assms(2)] acyclic_converse)
  next
    case DependsOn
    have "acyclic (relOf ps dependsOn \<union> relOf ts dependsOn)"
      using ac(2,3) rr(2) Domain_relOf [of ps dependsOn] ap(4) by (intro acyclic_Un) (simp_all, blast)
    then show ?thesis by (simp only: DependsOn edgeRel_built(2) [OF assms(2)])
  next
    case Supersedes
    have "acyclic (relOf ps supersedes \<union> relOf ts supersedes)"
      using ac(4,5) rr(4) Domain_relOf [of ps supersedes] ap(4) by (intro acyclic_Un) (simp_all, blast)
    moreover have "Domain (relOf ps supersedes \<union> relOf ts supersedes) \<inter> Range (relOf cs supersedes) = {}"
      using rr(5) Domain_relOf [of ps supersedes] Domain_relOf [of ts supersedes] ap(5,6) by blast
    ultimately have "acyclic (relOf ps supersedes \<union> relOf ts supersedes \<union> relOf cs supersedes)"
      using ac(6) by (intro acyclic_Un [of "relOf ps supersedes \<union> relOf ts supersedes"]) simp_all
    then show ?thesis by (simp only: Supersedes edgeRel_built(3) [OF assms(2)])
  qed
qed

lemma contained_in_workflow:
  assumes "consistentDefs w ps ts cs" "graphEdges g = sortEdges (createEdges ps ts cs)"
    and "i \<in> insert (defId w) (ids ps \<union> ids ts \<union> ids cs)"
  shows "(defId w, i) \<in> (edgeRel Contains g)\<^sup>*"
proof -
  let ?P = "relOf ps (\<lambda>d. [parentId d])" and ?E = "edgeRel Contains g"
  have up: "(parentId d, defId d) \<in> ?E" if "d \<in> set ps" for d
    using that by (auto simp: edgeRel_built(1) [OF assms(2)] relOf_iff)
  have upt: "(parentId d, defId d) \<in> ?E" if "d \<in> set ts" for d
    using that by (auto simp: edgeRel_built(1) [OF assms(2)] relOf_iff)
  have upc: "(parentId d, defId d) \<in> ?E" if "d \<in> set cs" for d
    using that by (auto simp: edgeRel_built(1) [OF assms(2)] relOf_iff)
  have "acyclic ?P" using assms(1) unfolding consistentDefs_def by (blast intro: acyclic_relOf)
  then have "wf (?P\<inverse>)" by (simp add: finite_acyclic_wf_converse)
  then have phase: "a \<in> ids ps \<longrightarrow> (defId w, a) \<in> ?E\<^sup>*" for a
  proof (induction a rule: wf_induct_rule)
    case (less a)
    show ?case
    proof
      assume "a \<in> ids ps"
      then obtain d where d: "d \<in> set ps" "defId d = a" by blast
      with assms(1) consider "parentId d = defId w" | "parentId d \<in> ids ps" unfolding consistentDefs_def by blast
      then show "(defId w, a) \<in> ?E\<^sup>*"
      proof cases
        case 1
        with up [OF d(1)] d(2) show ?thesis by auto
      next
        case 2
        have "(parentId d, a) \<in> ?P\<inverse>" using d by (auto simp: relOf_iff)
        from less.IH [OF this] 2 have "(defId w, parentId d) \<in> ?E\<^sup>*" by simp
        with up [OF d(1)] d(2) show ?thesis by (auto intro: rtrancl_into_rtrancl)
      qed
    qed
  qed
  have task: "(defId w, a) \<in> ?E\<^sup>*" if a: "a \<in> ids ts" for a
  proof -
    from a obtain d where d: "d \<in> set ts" "defId d = a" by blast
    with assms(1) have "parentId d \<in> ids ps" unfolding consistentDefs_def by blast
    with phase upt [OF d(1)] d(2) show ?thesis by (auto intro: rtrancl_into_rtrancl)
  qed
  have crit: "(defId w, a) \<in> ?E\<^sup>*" if a: "a \<in> ids cs" for a
  proof -
    from a obtain d where d: "d \<in> set cs" "defId d = a" by blast
    with assms(1) have "parentId d \<in> ids ts" unfolding consistentDefs_def by blast
    with task upc [OF d(1)] d(2) show ?thesis by (auto intro: rtrancl_into_rtrancl)
  qed
  from assms(3) phase task crit show ?thesis by auto
qed

lemma one_parent:
  assumes "consistentDefs w ps ts cs" "graphEdges g = sortEdges (createEdges ps ts cs)"
  shows "single_valued ((edgeRel Contains g)\<inverse>)"
proof -
  note ap = consistent_apart [OF assms(1)]
  have un: "single_valued (R \<union> S)" if "single_valued R" "single_valued S" "Domain R \<inter> Domain S = {}" for R S :: "(jstr \<times> jstr) set"
    using that by (auto simp: single_valued_def)
  let ?P = "relOf ps (\<lambda>d. [parentId d])" and ?T = "relOf ts (\<lambda>d. [parentId d])" and ?C = "relOf cs (\<lambda>d. [parentId d])"
  have dom: "Domain ?P \<subseteq> ids ps" "Domain ?T \<subseteq> ids ts" "Domain ?C \<subseteq> ids cs" by (rule Domain_relOf)+
  have "single_valued ?P" "single_valued ?T" "single_valued ?C"
    using ap(7,8,9) by (auto simp: single_valued_def relOf_iff distinct_map dest: inj_onD)
  then have "single_valued (?P \<union> ?T \<union> ?C)" using dom ap(4,5,6) by (intro un) blast+
  then show ?thesis by (simp add: edgeRel_built(1) [OF assms(2)])
qed

lemma owned_criteria:
  assumes "consistentDefs w ps ts cs" "graphEdges g = sortEdges (createEdges ps ts cs)" "d \<in> set ts"
  shows "{c. (defId d, c) \<in> edgeRel Contains g} = set (map reqCriterion (policyCriteria (defPolicy d)))"
proof -
  note ap = consistent_apart [OF assms(1)] and pr = parent_range [OF assms(1)]
  have "ownsDeclared cs d" using assms(1,3) unfolding consistentDefs_def by blast
  then have "set (map defId (filter (\<lambda>c. parentId c = defId d) cs)) = set (map reqCriterion (policyCriteria (defPolicy d)))"
    unfolding ownsDeclared_def by (rule sort_eq_set)
  moreover have "defId d \<in> ids ts" using assms(3) by simp
  then have "defId d \<noteq> defId w" "defId d \<notin> ids ps" using ap(2,4) by auto
  then have "(c, defId d) \<notin> relOf ps (\<lambda>d. [parentId d])" "(c, defId d) \<notin> relOf ts (\<lambda>d. [parentId d])" for c
    using pr(1,2) by blast+
  then have "{c. (defId d, c) \<in> edgeRel Contains g} = set (map defId (filter (\<lambda>c. parentId c = defId d) cs))"
    unfolding edgeRel_built(1) [OF assms(2)] by (auto simp: relOf_iff)
  ultimately show ?thesis by simp
qed

lemma node_cases:
  assumes "n \<in> set (allNodes w ps ts cs)"
  obtains "n = WorkflowN w" | d where "n = PhaseN d" "d \<in> set ps" | d where "n = TaskN d" "d \<in> set ts"
    | d where "n = CriterionN d" "d \<in> set cs"
  using assms by (auto simp: node_set)

lemma node_identity:
  assumes "typedIds sha w ps ts cs" "n \<in> set (allNodes w ps ts cs)"
  shows "isIdentity (nodeIdentity (nodeKind n)) (Str (nodeId n))"
  using assms(2)
  by (rule node_cases) (use assms(1) in \<open>auto simp: typedIds_def okWorkflow_def okPhase_def okTask_def okCriterion_def
      okOwned_def okCommon_def\<close>)

lemma nodeIdentity_inject [simp]: "nodeIdentity j = nodeIdentity k \<longleftrightarrow> j = k"
  by (cases j; cases k) simp_all

lemma endpointsI:
  "\<exists>m\<in>S. nodeId m = a \<and> nodeKind m = j \<Longrightarrow> \<exists>n\<in>S. nodeId n = b \<and> nodeKind n = k \<Longrightarrow> connects e j k \<Longrightarrow>
     \<exists>m\<in>S. \<exists>n\<in>S. nodeId m = a \<and> nodeId n = b \<and> connects e (nodeKind m) (nodeKind n)"
  by blast

lemma edge_endpoints:
  assumes "consistentDefs w ps ts cs" "x \<in> set (createEdges ps ts cs)"
  shows "\<exists>m\<in>set (allNodes w ps ts cs). \<exists>n\<in>set (allNodes w ps ts cs). nodeId m = edgeFrom x \<and>
     nodeId n = edgeTo x \<and> connects (edgeKind x) (nodeKind m) (nodeKind n)"
proof -
  note parts = consistent_parts [OF assms(1)]
  have phase: "\<exists>m\<in>set (allNodes w ps ts cs). nodeId m = i \<and> nodeKind m = PhaseNode" if "i \<in> ids ps" for i
    using that by (force simp: node_set)
  have task: "\<exists>m\<in>set (allNodes w ps ts cs). nodeId m = i \<and> nodeKind m = TaskNode" if "i \<in> ids ts" for i
    using that by (force simp: node_set)
  have crit: "\<exists>m\<in>set (allNodes w ps ts cs). nodeId m = i \<and> nodeKind m = CriterionNode" if "i \<in> ids cs" for i
    using that by (force simp: node_set)
  have top: "\<exists>m\<in>set (allNodes w ps ts cs). nodeId m = defId w \<and> nodeKind m = WorkflowNode"
    by (force simp: node_set)
  from assms(2) consider (p) d where "d \<in> set ps" "x \<in> set (edgesOf d (dependsOn d))"
    | (t) d where "d \<in> set ts" "x \<in> set (edgesOf d (dependsOn d))"
    | (c) d where "d \<in> set cs" "x \<in> set (edgesOf d [])"
    by (auto simp: createEdges_def)
  then show ?thesis
  proof cases
    case p
    then have own: "defId d \<in> ids ps" by simp
    from p(2) [unfolded edgesOf_mem] show ?thesis
    proof (elim disjE conjE)
      assume x: "edgeKind x = Contains" "edgeFrom x = parentId d" "edgeTo x = defId d"
      show ?thesis
      proof (cases "parentId d = defId w")
        case True
        show ?thesis unfolding x True by (rule endpointsI [OF top phase [OF own]]) simp
      next
        case False
        then have "parentId d \<in> ids ps" using parts(1) [OF p(1)] by simp
        then show ?thesis unfolding x by (rule endpointsI [OF phase phase [OF own]]) simp
      qed
    next
      assume x: "edgeKind x = DependsOn" "edgeFrom x = defId d" "edgeTo x \<in> set (dependsOn d)"
      then have "edgeTo x \<in> ids ps" using parts(1) [OF p(1)] by blast
      from phase [OF this] show ?thesis unfolding x(1,2) by (rule endpointsI [OF phase [OF own]]) simp
    next
      assume x: "edgeKind x = Supersedes" "edgeFrom x = defId d" "edgeTo x \<in> set (supersedes d)"
      then have "edgeTo x \<in> ids ps" using parts(1) [OF p(1)] by blast
      from phase [OF this] show ?thesis unfolding x(1,2) by (rule endpointsI [OF phase [OF own]]) simp
    qed
  next
    case t
    then have own: "defId d \<in> ids ts" by simp
    from t(2) [unfolded edgesOf_mem] show ?thesis
    proof (elim disjE conjE)
      assume x: "edgeKind x = Contains" "edgeFrom x = parentId d" "edgeTo x = defId d"
      have "parentId d \<in> ids ps" using parts(2) [OF t(1)] by simp
      then show ?thesis unfolding x by (rule endpointsI [OF phase task [OF own]]) simp
    next
      assume x: "edgeKind x = DependsOn" "edgeFrom x = defId d" "edgeTo x \<in> set (dependsOn d)"
      then have "edgeTo x \<in> ids ts" using parts(2) [OF t(1)] by blast
      from task [OF this] show ?thesis unfolding x(1,2) by (rule endpointsI [OF task [OF own]]) simp
    next
      assume x: "edgeKind x = Supersedes" "edgeFrom x = defId d" "edgeTo x \<in> set (supersedes d)"
      then have "edgeTo x \<in> ids ts" using parts(2) [OF t(1)] by blast
      from task [OF this] show ?thesis unfolding x(1,2) by (rule endpointsI [OF task [OF own]]) simp
    qed
  next
    case c
    then have own: "defId d \<in> ids cs" by simp
    from c(2) [unfolded edgesOf_mem] show ?thesis
    proof (elim disjE conjE)
      assume x: "edgeKind x = Contains" "edgeFrom x = parentId d" "edgeTo x = defId d"
      have "parentId d \<in> ids ts" using parts(3) [OF c(1)] by simp
      then show ?thesis unfolding x by (rule endpointsI [OF task crit [OF own]]) simp
    next
      assume x: "edgeKind x = Supersedes" "edgeFrom x = defId d" "edgeTo x \<in> set (supersedes d)"
      then have "edgeTo x \<in> ids cs" using parts(3) [OF c(1)] by blast
      from crit [OF this] show ?thesis unfolding x(1,2) by (rule endpointsI [OF crit [OF own]]) simp
    qed simp
  qed
qed

lemma newer_in:
  assumes "supersedesNewer ds" "(a, b) \<in> relOf ds supersedes" "b \<in> ids ds" "distinct (map defId ds)"
  shows "\<exists>d\<in>set ds. \<exists>s\<in>set ds. defId d = a \<and> defId s = b \<and> parentId d = parentId s \<and> defGeneration s < defGeneration d"
  using assms by (auto simp: relOf_iff supersedesNewer_def)

lemma superseded_newer:
  assumes "consistentDefs w ps ts cs" "graphEdges g = sortEdges (createEdges ps ts cs)"
    and "(a, b) \<in> edgeRel Supersedes g"
  shows "\<exists>m\<in>set (allNodes w ps ts cs). \<exists>n\<in>set (allNodes w ps ts cs). nodeId m = a \<and> nodeId n = b \<and>
     nodeGeneration n < nodeGeneration m \<and> (\<exists>p. (p, a) \<in> edgeRel Contains g \<and> (p, b) \<in> edgeRel Contains g)"
proof -
  note rr = relation_range [OF assms(1)] and ap = consistent_apart [OF assms(1)]
  have newer: "supersedesNewer ps" "supersedesNewer ts" "supersedesNewer cs"
    using assms(1) unfolding consistentDefs_def by blast+
  have up: "(p, a) \<in> edgeRel Contains g \<longleftrightarrow> (\<exists>d\<in>set ps. defId d = a \<and> parentId d = p) \<or>
      (\<exists>d\<in>set ts. defId d = a \<and> parentId d = p) \<or> (\<exists>d\<in>set cs. defId d = a \<and> parentId d = p)" for p a
    by (auto simp: edgeRel_built(1) [OF assms(2)] relOf_iff)
  from assms(3) consider "(a, b) \<in> relOf ps supersedes" | "(a, b) \<in> relOf ts supersedes" | "(a, b) \<in> relOf cs supersedes"
    by (auto simp: edgeRel_built(3) [OF assms(2)])
  then show ?thesis
  proof cases
    case 1
    with rr(3) have "b \<in> ids ps" by blast
    from newer_in [OF newer(1) 1 this ap(7)] obtain d s where "d \<in> set ps" "s \<in> set ps" "defId d = a" "defId s = b"
        "parentId d = parentId s" "defGeneration s < defGeneration d" by blast
    then show ?thesis unfolding up by (intro bexI [of _ "PhaseN d"] bexI [of _ "PhaseN s"]) (auto simp: node_set)
  next
    case 2
    with rr(4) have "b \<in> ids ts" by blast
    from newer_in [OF newer(2) 2 this ap(8)] obtain d s where "d \<in> set ts" "s \<in> set ts" "defId d = a" "defId s = b"
        "parentId d = parentId s" "defGeneration s < defGeneration d" by blast
    then show ?thesis unfolding up by (intro bexI [of _ "TaskN d"] bexI [of _ "TaskN s"]) (auto simp: node_set)
  next
    case 3
    with rr(5) have "b \<in> ids cs" by blast
    from newer_in [OF newer(3) 3 this ap(9)] obtain d s where "d \<in> set cs" "s \<in> set cs" "defId d = a" "defId s = b"
        "parentId d = parentId s" "defGeneration s < defGeneration d" by blast
    then show ?thesis unfolding up by (intro bexI [of _ "CriterionN d"] bexI [of _ "CriterionN s"]) (auto simp: node_set)
  qed
qed

lemma built_wellformed:
  assumes "typedIds sha w ps ts cs" "consistentDefs w ps ts cs" "buildGraph w ps ts cs sha = Inr g"
  shows "wellFormedGraph g"
proof -
  let ?ns = "allNodes w ps ts cs"
  note g = assms(3) [unfolded buildGraph_eq_Inr]
  then have edges: "graphEdges g = sortEdges (createEdges ps ts cs)" and nodes: "set (graphNodes g) = set ?ns"
    and perm: "mset (graphNodes g) = mset ?ns"
    by (simp_all add: sortNodes_def)
  have eset: "set (graphEdges g) = set (createEdges ps ts cs)" by (simp add: edges sortEdges_def)
  have "distinct (map nodeId ?ns)" using assms(2) by (simp add: nodeIds consistentDefs_def)
  moreover have "mset (map nodeId (graphNodes g)) = mset (map nodeId ?ns)" using perm by simp
  ultimately have dist: "distinct (map nodeId (graphNodes g))" by (metis mset_eq_imp_distinct_iff)
  have ident: "isIdentity (nodeIdentity (nodeKind n)) (Str (nodeId n)) \<and> (nodeKind n = WorkflowNode \<longleftrightarrow> nodeId n = graphWorkflow g)"
    if n: "n \<in> set ?ns" for n
  proof
    show i: "isIdentity (nodeIdentity (nodeKind n)) (Str (nodeId n))" by (rule node_identity [OF assms(1) n])
    have wi: "isIdentity (nodeIdentity WorkflowNode) (Str (defId w))"
      using node_identity [OF assms(1), of "WorkflowN w"] by (simp add: node_set)
    show "nodeKind n = WorkflowNode \<longleftrightarrow> nodeId n = graphWorkflow g"
    proof
      assume "nodeKind n = WorkflowNode"
      with n show "nodeId n = graphWorkflow g" by (rule_tac node_cases [OF n]) (auto simp: g)
    next
      assume "nodeId n = graphWorkflow g"
      with g i wi have "nodeIdentity (nodeKind n) = nodeIdentity WorkflowNode" using isIdentity_kind_unique by metis
      then show "nodeKind n = WorkflowNode" by (simp only: nodeIdentity_inject)
    qed
  qed
  have reach: "(graphWorkflow g, nodeId n) \<in> (edgeRel Contains g)\<^sup>*" if n: "n \<in> set ?ns" for n
  proof -
    have "nodeId n \<in> insert (defId w) (ids ps \<union> ids ts \<union> ids cs)" by (rule node_cases [OF n]) auto
    with contained_in_workflow [OF assms(2) edges] g show ?thesis by simp
  qed
  have sup: "nodeGeneration n < nodeGeneration m \<and> (\<exists>p. (p, nodeId m) \<in> edgeRel Contains g \<and> (p, nodeId n) \<in> edgeRel Contains g)"
    if "m \<in> set ?ns" "n \<in> set ?ns" "(nodeId m, nodeId n) \<in> edgeRel Supersedes g" for m n
  proof -
    have inj: "inj_on nodeId (set ?ns)" using dist nodes by (simp add: distinct_map)
    from superseded_newer [OF assms(2) edges that(3)] obtain m' n' where m': "m' \<in> set ?ns" "nodeId m' = nodeId m"
        and n': "n' \<in> set ?ns" "nodeId n' = nodeId n" and res: "nodeGeneration n' < nodeGeneration m'"
        "\<exists>p. (p, nodeId m) \<in> edgeRel Contains g \<and> (p, nodeId n) \<in> edgeRel Contains g" by blast
    have "m' = m" "n' = n" using inj_onD [OF inj] m' n' that by blast+
    with res show ?thesis by simp
  qed
  have task: "{c. (defId d, c) \<in> edgeRel Contains g} = set (map reqCriterion (policyCriteria (defPolicy d)))"
    if "TaskN d \<in> set ?ns" for d
    using that owned_criteria [OF assms(2) edges] by (auto simp: node_set)
  have "sorted (map nodeId (graphNodes g))" using g by (simp add: sortNodes_def)
  moreover have "graphWorkflow g \<in> nodeId ` set ?ns" using g by (force simp: node_set)
  moreover have "\<forall>k. acyclic (edgeRel k g)" using edges_acyclic [OF assms(2) edges] by blast
  ultimately show ?thesis unfolding wellFormedGraph_def nodes eset
    using dist ident reach sup task edge_endpoints [OF assms(2)] one_parent [OF assms(2) edges] by blast
qed

end
