(* ===== verification/GraphProperties.thy ===== *)
theory GraphProperties
  imports GraphShape
begin

text \<open>
  The properties of graph.ts: a compiled graph is well-formed, independent of the order of the
  input, and validates to itself; a validated graph is the compilation of its own input.
\<close>

section \<open>Recompilation\<close>

lemma typedIds_perm:
  assumes "typedIds sha w ps ts cs" "mset ps = mset ps'" "mset ts = mset ts'" "mset cs = mset cs'"
  shows "typedIds sha w ps' ts' cs'"
proof -
  have "set ps = set ps'" "set ts = set ts'" "set cs = set cs'" using assms(2-4) by (auto dest: mset_eq_setD)
  with assms(1) show ?thesis by (simp add: typedIds_def)
qed

lemma recompile:
  assumes "typedIds sha w ps ts cs" "consistentDefs w ps ts cs" "buildGraph w ps ts cs sha = Inr g"
  shows "compileWorkflowGraph (workflowInput w (phasesOf (graphNodes g)) (tasksOf (graphNodes g)) (criteriaOf (graphNodes g))) sha
     = Inr g"
proof -
  have "mset (graphNodes g) = mset (allNodes w ps ts cs)"
    using assms(3) by (simp add: buildGraph_eq_Inr sortNodes_def)
  from definitionsOf_perm(2-4) [OF this]
  have perm: "mset ps = mset (phasesOf (graphNodes g))" "mset ts = mset (tasksOf (graphNodes g))"
      "mset cs = mset (criteriaOf (graphNodes g))" by (simp_all add: definitionsOf_all)
  show ?thesis
    using compile_input [OF typedIds_perm [OF assms(1) perm] consistentDefs_perm [OF perm, THEN iffD1, OF assms(2)]]
      buildGraph_perm [OF assms(1,2) perm] assms(3) by simp
qed

lemma validate_enc:
  assumes "typedIds sha w ps ts cs" "consistentDefs w ps ts cs" "buildGraph w ps ts cs sha = Inr g"
    and "\<forall>n\<in>set (graphNodes g). hasTextTitle n"
  shows "validateWorkflowGraph (encGraph g) sha = Inr g"
    and "\<exists>i. normalizedWorkflowInputFromGraph (encGraph g) sha = Inr i \<and> compileWorkflowGraph i sha = Inr g"
proof -
  note input = graph_input [OF assms(1,3,4)] and again = recompile [OF assms(1-3)]
  show v: "validateWorkflowGraph (encGraph g) sha = Inr g"
    by (simp add: validateWorkflowGraph_def snapshotCanonical_def encGraph_json [OF assms(1,3)] input again)
  show "\<exists>i. normalizedWorkflowInputFromGraph (encGraph g) sha = Inr i \<and> compileWorkflowGraph i sha = Inr g"
    by (simp add: normalizedWorkflowInputFromGraph_def v input again)
qed

lemma validate_parts:
  assumes "validateWorkflowGraph v sha = Inr g"
  obtains i where "is_json v" "workflowInputFromGraphSnapshot v = Inr i" "compileWorkflowGraph i sha = Inr g"
    "canonicalSerialize v = canonicalSerialize (encGraph g)"
  using assms
  by (auto simp: validateWorkflowGraph_def bindE_eq_Inr snapshotCanonical_eq_Inr split: sum.splits if_splits)

text \<open>A title that is not a string is compiled, but not read back.\<close>

lemma decodedTitle_text:
  assumes "decodedTitle (Obj (encCommonFields d @ r)) = Inr x" "okCommon k d"
  shows "textTitle d"
proof (cases "defTitle d")
  case (Some t)
  then have "get (Obj (encCommonFields d @ r)) ''title'' = t" by simp
  moreover have "t \<noteq> Undef" using assms(2) Some by (simp add: okCommon_def)
  ultimately show ?thesis using assms(1) Some by (auto simp: decodedTitle_def textTitle_def split: val.splits)
qed (simp add: textTitle_def)

lemma commonInput_text: "commonInput k (Obj (encCommonFields d @ r)) = Inr x \<Longrightarrow> okCommon k' d \<Longrightarrow> textTitle d"
  by (auto simp: commonInput_def bindE_eq_Inr dest: decodedTitle_text)

lemma nodeInput_text:
  assumes "nodeInput (encNode n) = Inr x" "okNode sha n"
  shows "hasTextTitle n"
proof -
  have inj: "inj nodeKindStr" by (rule injI) (case_tac x; case_tac y; simp)
  have "enumOf nodeKindStr [WorkflowNode, PhaseNode, TaskNode, CriterionNode] (enumText nodeKindStr k) = Some k" for k
    by (rule enumOf_text [OF inj]) (cases k; simp)
  with assms(1) have d: "\<exists>y. (case nodeKind n of
           WorkflowNode \<Rightarrow> workflowDefinitionInput (encDefinition n)
         | PhaseNode \<Rightarrow> phaseDefinitionInput (encDefinition n)
         | TaskNode \<Rightarrow> taskDefinitionInput (encDefinition n)
         | CriterionNode \<Rightarrow> criterionDefinitionInput (encDefinition n)) = Inr y"
    by (auto simp: nodeInput_def encNode_def bindE_eq_Inr cong: nodeKind.case_cong)
  show ?thesis
  proof (cases n)
    case (WorkflowN d)
    with d have "\<exists>y. commonInput WorkflowNode (Obj (encCommonFields d @ [])) = Inr y"
      by (auto simp: workflowDefinitionInput_def bindE_eq_Inr)
    with WorkflowN assms(2) show ?thesis by (auto simp: okWorkflow_def simp del: append_Nil2 dest!: commonInput_text)
  next
    case (PhaseN e)
    with d have "\<exists>y. commonInput PhaseNode (Obj (encCommonFields e @ phaseFields e)) = Inr y"
      by (auto simp: phaseDefinitionInput_def bindE_eq_Inr phaseFields_def split: if_splits)
    with PhaseN assms(2) show ?thesis by (auto simp: okPhase_def okOwned_def dest: commonInput_text)
  next
    case (TaskN e)
    with d have "\<exists>y. commonInput TaskNode (Obj (encCommonFields e @ taskFields e)) = Inr y"
      by (auto simp: taskDefinitionInput_def bindE_eq_Inr taskFields_def phaseFields_def split: if_splits)
    with TaskN assms(2) show ?thesis by (auto simp: okTask_def okOwned_def dest: commonInput_text)
  next
    case (CriterionN e)
    with d have "\<exists>y. commonInput CriterionNode (Obj (encCommonFields e @ ownedFields e)) = Inr y"
      by (auto simp: criterionDefinitionInput_def bindE_eq_Inr ownedFields_def split: if_splits)
    with CriterionN assms(2) show ?thesis by (auto simp: okCriterion_def okOwned_def dest: commonInput_text)
  qed
qed

lemma foldE_each: "foldE (\<lambda>acc x. bindE (f x) (g acc)) s xs = Inr t \<Longrightarrow> x \<in> set xs \<Longrightarrow> \<exists>y. f x = Inr y"
  by (induction xs arbitrary: s) (auto simp: bindE_eq_Inr)

lemma read_back_text:
  assumes "workflowInputFromGraphSnapshot (encGraph g) = Inr i" "\<forall>n\<in>set (graphNodes g). okNode sha n"
  shows "\<forall>n\<in>set (graphNodes g). hasTextTitle n"
proof
  fix n assume n: "n \<in> set (graphNodes g)"
  from assms(1) obtain t where "foldE (\<lambda>acc x. bindE (nodeInput x) (addNode acc)) (None, [], [], []) (map encNode (graphNodes g)) = Inr t"
    by (auto simp: workflowInputFromGraphSnapshot_def encGraph_def bindE_eq_Inr split: if_splits)
  from foldE_each [OF this, of "encNode n"] n obtain y where "nodeInput (encNode n) = Inr y" by auto
  then show "hasTextTitle n" using assms(2) n nodeInput_text by blast
qed

section \<open>Titles of an input read from a graph\<close>

definition textInput :: "val \<Rightarrow> bool" where
  "textInput v \<longleftrightarrow> get v ''title'' = Undef \<or> (\<exists>s. get v ''title'' = Str s)"

lemma commonInput_title:
  assumes "commonInput k v = Inr c" "lit ''title'' \<notin> fst ` set r"
  shows "textInput (Obj (c @ r))"
proof -
  from assms(1) obtain t src where t: "decodedTitle v = Inr t" and c: "c = [(lit ''id'', get v ''id''), (lit ''key'', get v ''key'')] @ t @
      [(lit ''generation'', get v ''generation''), (lit ''source'', src), (lit ''input'', get v ''input'')]"
    by (auto simp: commonInput_def bindE_eq_Inr)
  from t have "t = [] \<or> (\<exists>s. t = [(lit ''title'', Str s)])"
    by (auto simp: decodedTitle_def split: val.splits if_splits)
  then show ?thesis using assms(2) by (auto simp: c textInput_def field_missing)
qed

lemma nodeInput_title: "nodeInput v = Inr (k, d) \<Longrightarrow> textInput d"
proof -
  assume "nodeInput v = Inr (k, d)"
  then have "workflowDefinitionInput (get v ''definition'') = Inr d \<or> phaseDefinitionInput (get v ''definition'') = Inr d \<or>
      taskDefinitionInput (get v ''definition'') = Inr d \<or> criterionDefinitionInput (get v ''definition'') = Inr d"
    by (auto simp: nodeInput_def bindE_eq_Inr split: option.splits nodeKind.splits)
  then obtain k c r where "commonInput k (get v ''definition'') = Inr c" "d = Obj (c @ r)" "lit ''title'' \<notin> fst ` set r"
  proof (elim disjE)
    assume "workflowDefinitionInput (get v ''definition'') = Inr d"
    then show thesis using that [of WorkflowNode d' "[]" for d'] by (auto simp: workflowDefinitionInput_def bindE_eq_Inr)
  next
    assume "phaseDefinitionInput (get v ''definition'') = Inr d"
    then show thesis by (auto simp: phaseDefinitionInput_def bindE_eq_Inr split: if_splits intro!: that)
  next
    assume "taskDefinitionInput (get v ''definition'') = Inr d"
    then show thesis by (auto simp: taskDefinitionInput_def bindE_eq_Inr split: if_splits intro!: that)
  next
    assume "criterionDefinitionInput (get v ''definition'') = Inr d"
    then show thesis by (auto simp: criterionDefinitionInput_def bindE_eq_Inr split: if_splits intro!: that)
  qed
  then show ?thesis using commonInput_title by blast
qed

definition textAcc :: "val option \<times> val list \<times> val list \<times> val list \<Rightarrow> bool" where
  "textAcc acc = (case acc of (w, ps, ts, cs) \<Rightarrow>
     (\<forall>x. w = Some x \<longrightarrow> textInput x) \<and> (\<forall>x\<in>set ps \<union> set ts \<union> set cs. textInput x))"

lemma addNode_text: "textAcc acc \<Longrightarrow> addNode acc (k, d) = Inr acc' \<Longrightarrow> textInput d \<Longrightarrow> textAcc acc'"
  by (cases acc; cases k) (auto simp: textAcc_def split: if_splits)

lemma snapshot_titles:
  assumes "workflowInputFromGraphSnapshot v = Inr i"
  shows "textInput (get i ''workflow'') \<and> (\<forall>x\<in>set (elements i ''phases'') \<union> set (elements i ''executableWork'') \<union>
     set (elements i ''criteria''). textInput x)"
proof -
  from assms obtain nodes w ps ts cs where
      f: "foldE (\<lambda>acc x. bindE (nodeInput x) (addNode acc)) (None, [], [], []) nodes = Inr (Some w, ps, ts, cs)"
    and i: "i = Obj [(lit ''workflow'', w), (lit ''phases'', Arr ps), (lit ''executableWork'', Arr ts), (lit ''criteria'', Arr cs)]"
    by (auto simp: workflowInputFromGraphSnapshot_def bindE_eq_Inr split: if_splits option.splits)
  have "textAcc (Some w, ps, ts, cs)"
  proof (rule foldE_invariant [OF f, of textAcc])
    show "textAcc (None, [], [], [])" by (simp add: textAcc_def)
    show "textAcc s'" if "textAcc s" "bindE (nodeInput x) (addNode s) = Inr s'" for s x s'
    proof -
      from that(2) obtain k d where "nodeInput x = Inr (k, d)" "addNode s (k, d) = Inr s'" by (auto simp: bindE_eq_Inr)
      with that(1) nodeInput_title show ?thesis by (blast intro: addNode_text)
    qed
  qed
  then show ?thesis by (auto simp: i textAcc_def elements_def)
qed

lemma compileCommon_title: "compileCommon k v sha r = Inr c \<Longrightarrow> textInput v \<Longrightarrow> textTitle c"
  by (auto simp: compileCommon_def Let_def bindE_eq_Inr textInput_def textTitle_def dest!: definitionTitle_same split: if_splits)

lemma textTitle_extend [simp]: "textTitle (commonDef.extend c r) = textTitle c"
  by (simp add: textTitle_def commonDef.extend_def)

lemma compile_titles:
  "compileWorkflow v sha = Inr w \<Longrightarrow> textInput v \<Longrightarrow> textTitle w"
  "compilePhase v sha = Inr p \<Longrightarrow> textInput v \<Longrightarrow> textTitle p"
  "compileTask v sha = Inr t \<Longrightarrow> textInput v \<Longrightarrow> textTitle t"
  "compileCriterion v sha = Inr c \<Longrightarrow> textInput v \<Longrightarrow> textTitle c"
  by (auto simp: compileWorkflow_def compilePhase_def compileTask_def compileCriterion_def bindE_eq_Inr
      dest: compileCommon_title)

lemma recompiled_titles:
  assumes "workflowInputFromGraphSnapshot v = Inr i" "compileWorkflowGraph i sha = Inr g"
  shows "\<forall>n\<in>set (graphNodes g). hasTextTitle n"
proof -
  from assms(2) obtain w ps ts cs where b: "buildGraph w ps ts cs sha = Inr g"
    and w: "compileWorkflow (get i ''workflow'') sha = Inr w"
    and ps: "mapE (\<lambda>x. compilePhase x sha) (elements i ''phases'') = Inr ps"
    and ts: "mapE (\<lambda>x. compileTask x sha) (elements i ''executableWork'') = Inr ts"
    and cs: "mapE (\<lambda>x. compileCriterion x sha) (elements i ''criteria'') = Inr cs" by (rule compile_parts)
  note t = snapshot_titles [OF assms(1)]
  have "textTitle w" using w t compile_titles(1) by blast
  moreover have "\<forall>d\<in>set ps. textTitle d" by (rule mapE_all [OF ps]) (use t compile_titles(2) in blast)
  moreover have "\<forall>d\<in>set ts. textTitle d" by (rule mapE_all [OF ts]) (use t compile_titles(3) in blast)
  moreover have "\<forall>d\<in>set cs. textTitle d" by (rule mapE_all [OF cs]) (use t compile_titles(4) in blast)
  ultimately show ?thesis using b by (auto simp: buildGraph_eq_Inr sortNodes_def node_set)
qed

text \<open>What the validator accepts is the plain form of the graph it returns.\<close>

lemma validate_canonical:
  assumes "validateWorkflowGraph v sha = Inr g"
  shows "is_json v" "norm v = norm (encGraph g)" "is_json (encGraph g)" "validateWorkflowGraph (encGraph g) sha = Inr g"
    "wellFormedGraph g" "isIdentity WorkflowKind (Str (graphWorkflow g))"
proof -
  from assms obtain i where i: "is_json v" "workflowInputFromGraphSnapshot v = Inr i" "compileWorkflowGraph i sha = Inr g"
      "canonicalSerialize v = canonicalSerialize (encGraph g)" by (rule validate_parts)
  from i(3) obtain w ps ts cs where d: "typedIds sha w ps ts cs" "consistentDefs w ps ts cs"
      "buildGraph w ps ts cs sha = Inr g" by (rule compile_parts)
  show "is_json v" by (rule i(1))
  show j: "is_json (encGraph g)" by (rule encGraph_json [OF d(1,3)])
  show "norm v = norm (encGraph g)" using i(1,4) j by (simp add: canonicalSerialize_def serialize_eq_iff)
  show "validateWorkflowGraph (encGraph g) sha = Inr g" by (rule validate_enc(1) [OF d recompiled_titles [OF i(2,3)]])
  show "wellFormedGraph g" using d by (rule built_wellformed)
  show "isIdentity WorkflowKind (Str (graphWorkflow g))"
    using d(1,3) by (auto simp: buildGraph_eq_Inr typedIds_def okWorkflow_def okCommon_def)
qed

section \<open>Permuted inputs\<close>

section \<open>The properties\<close>

text \<open>C5. A workflow graph that is compiled or validated is well-formed: identities are distinct and
  typed, every edge connects nodes of the kinds it may connect, containment is a tree below the one
  workflow that reaches every node, dependencies and supersessions have no cycle, a definition only
  supersedes an older one under the same parent, and a task's completion policy names exactly the
  criteria it contains.\<close>

theorem graph_wellformed:
  assumes "compileWorkflowGraph v sha = Inr g \<or> validateWorkflowGraph v sha = Inr g"
  shows "wellFormedGraph g"
proof -
  from assms obtain i where "compileWorkflowGraph i sha = Inr g" by (auto elim: validate_parts)
  then show ?thesis by (rule compile_parts) (rule built_wellformed)
qed

text \<open>C26. The plain form of a compiled graph validates to that graph, and the input recovered from it
  compiles to it again, provided that every title is the string its type says. The compiler does not
  check that: a graph with another title is compiled and then refused by the validator.\<close>

theorem graph_roundtrip:
  assumes "compileWorkflowGraph v sha = Inr g"
  shows "if \<forall>n\<in>set (graphNodes g). hasTextTitle n
     then validateWorkflowGraph (encGraph g) sha = Inr g \<and>
       (\<exists>i. normalizedWorkflowInputFromGraph (encGraph g) sha = Inr i \<and> compileWorkflowGraph i sha = Inr g)
     else validateWorkflowGraph (encGraph g) sha = Inl GraphValidationError"
proof -
  from assms obtain w ps ts cs where d: "typedIds sha w ps ts cs" "consistentDefs w ps ts cs"
      "buildGraph w ps ts cs sha = Inr g" by (rule compile_parts)
  show ?thesis
  proof (cases "\<forall>n\<in>set (graphNodes g). hasTextTitle n")
    case True
    with validate_enc [OF d] show ?thesis by simp
  next
    case False
    have "\<forall>n\<in>set (graphNodes g). okNode sha n"
      using nodes_ok [OF d(1)] d(3) by (simp add: buildGraph_eq_Inr sortNodes_def)
    with False read_back_text have "workflowInputFromGraphSnapshot (encGraph g) \<noteq> Inr i" for i by blast
    then have "\<exists>e. workflowInputFromGraphSnapshot (encGraph g) = Inl e"
      by (cases "workflowInputFromGraphSnapshot (encGraph g)") auto
    with encGraph_json [OF d(1,3)] False show ?thesis
      by (auto simp: validateWorkflowGraph_def snapshotCanonical_def)
  qed
qed

text \<open>What the validator accepts is, up to the order of properties, the plain form of the graph it
  returns, which is the compilation of the input read from it and validates to itself: no digest,
  edge or node order can be forged.\<close>

theorem validated_is_compiled:
  assumes "validateWorkflowGraph v sha = Inr g"
  shows "norm v = norm (encGraph g) \<and> validateWorkflowGraph (encGraph g) sha = Inr g \<and>
     (\<exists>i. workflowInputFromGraphSnapshot v = Inr i \<and> compileWorkflowGraph i sha = Inr g)"
proof -
  from assms obtain i where "workflowInputFromGraphSnapshot v = Inr i" "compileWorkflowGraph i sha = Inr g"
    by (rule validate_parts)
  with validate_canonical [OF assms] show ?thesis by blast
qed

text \<open>The compiled graph depends on the sets of definitions only: giving the phases, tasks or
  criteria of an accepted input in another order compiles to the same graph, with the same
  revision digest.\<close>

theorem compile_order_independent:
  assumes "compileWorkflowGraph v sha = Inr g"
    and "is_json v'" "hasDefinitionArrays v'" "get v' ''workflow'' = get v ''workflow''"
    and "mset (elements v' ''phases'') = mset (elements v ''phases'')"
    and "mset (elements v' ''executableWork'') = mset (elements v ''executableWork'')"
    and "mset (elements v' ''criteria'') = mset (elements v ''criteria'')"
  shows "compileWorkflowGraph v' sha = Inr g"
proof -
  from assms(1) obtain w ps ts cs where d: "typedIds sha w ps ts cs" "consistentDefs w ps ts cs"
      "buildGraph w ps ts cs sha = Inr g" and w: "compileWorkflow (get v ''workflow'') sha = Inr w"
    and ps: "mapE (\<lambda>x. compilePhase x sha) (elements v ''phases'') = Inr ps"
    and ts: "mapE (\<lambda>x. compileTask x sha) (elements v ''executableWork'') = Inr ts"
    and cs: "mapE (\<lambda>x. compileCriterion x sha) (elements v ''criteria'') = Inr cs" by (rule compile_parts)
  from mapE_perm [OF ps assms(5)] obtain ps' where ps': "mapE (\<lambda>x. compilePhase x sha) (elements v' ''phases'') = Inr ps'"
      "mset ps = mset ps'" by blast
  from mapE_perm [OF ts assms(6)] obtain ts' where ts': "mapE (\<lambda>x. compileTask x sha) (elements v' ''executableWork'') = Inr ts'"
      "mset ts = mset ts'" by blast
  from mapE_perm [OF cs assms(7)] obtain cs' where cs': "mapE (\<lambda>x. compileCriterion x sha) (elements v' ''criteria'') = Inr cs'"
      "mset cs = mset cs'" by blast
  have "assertNormalizedWorkflowInput v = Inr ()"
    using assms(1) by (auto simp: compileWorkflowGraph_def bindE_eq_Inr snapshotCanonical_eq_Inr)
  then have "assertNormalizedWorkflowInput v' = Inr ()"
    using assms(5-7) [THEN mset_eq_setD] assms(3,4)
    by (auto simp: assertNormalizedWorkflowInput_def seq_eq_Inr forE_eq_Inr split: if_splits)
  moreover have "assertDefinitions w ps' ts' cs' = Inr ()"
    using d(2) consistentDefs_perm [OF ps'(2) ts'(2) cs'(2)] by (simp add: assertDefinitions_iff)
  moreover have "buildGraph w ps' ts' cs' sha = Inr g" using buildGraph_perm [OF d(1,2) ps'(2) ts'(2) cs'(2)] d(3) by simp
  ultimately show ?thesis using assms(2,4) w ps'(1) ts'(1) cs'(1)
    by (simp add: compileWorkflowGraph_def snapshotCanonical_def)
qed

text \<open>C37. The search for cycles returns on every list of definitions, and it is exact: it accepts when
  the relation between the definitions is acyclic and throws the given code when it is not.\<close>

theorem no_cycles_exact:
  "assertNoCycles ds refs c = (if acyclic (refersTo ds refs) then Inr () else Inl (compilationError c))"
  using assertNoCycles_iff [of ds refs c] assertNoCycles_throws [of ds refs c] by (auto split: if_splits)

section \<open>An example\<close>

definition demoWorkflow :: commonDef where
  "demoWorkflow = \<lparr>defId = lit ''workflow_w'', defKey = lit ''w'', defTitle = None, defGeneration = 1,
     defLocator = lit ''spec'', defPointer = [], defInput = Null, definitionDigest = replicate 64 48\<rparr>"

definition demoPhase :: phaseDef where
  "demoPhase = \<lparr>defId = lit ''phase_p'', defKey = lit ''p'', defTitle = Some (Str (lit ''Build'')), defGeneration = 1,
     defLocator = lit ''spec'', defPointer = [], defInput = Null, definitionDigest = replicate 64 48,
     parentId = lit ''workflow_w'', supersedes = [], dependsOn = []\<rparr>"

definition demoTaskDef :: taskDef where
  "demoTaskDef = \<lparr>defId = lit ''task_t'', defKey = lit ''t'', defTitle = None, defGeneration = 1,
     defLocator = lit ''spec'', defPointer = [], defInput = Null, definitionDigest = replicate 64 48,
     parentId = lit ''phase_p'', supersedes = [], dependsOn = [],
     defPolicy = \<lparr>policyCriteria = [\<lparr>reqCriterion = lit ''criterion_c'', reqRequired = True\<rparr>],
       policyEvidence = \<lparr>policyMode = NoEvidence, policyRequirements = [], waiverAuthority = None\<rparr>\<rparr>\<rparr>"

definition demoCriterion :: "val option \<Rightarrow> ownedDef" where
  "demoCriterion title = \<lparr>defId = lit ''criterion_c'', defKey = lit ''c'', defTitle = title, defGeneration = 1,
     defLocator = lit ''spec'', defPointer = [], defInput = Null, definitionDigest = replicate 64 48,
     parentId = lit ''task_t'', supersedes = []\<rparr>"

lemma demo_identities:
  "isIdentity WorkflowKind (Str (lit ''workflow_w''))" "isIdentity PhaseKind (Str (lit ''phase_p''))"
  "isIdentity TaskKind (Str (lit ''task_t''))" "isIdentity CriterionKind (Str (lit ''criterion_c''))"
  "isConsumerKey (Str (lit ''w''))" "isConsumerKey (Str (lit ''p''))" "isConsumerKey (Str (lit ''t''))"
  "isConsumerKey (Str (lit ''c''))"
  by code_simp+

lemma demo_graph_texts: "lit ''spec'' \<noteq> []"
  "lit ''phase'' @ 0 # a \<noteq> lit ''task'' @ 0 # b" "lit ''phase'' @ 0 # a \<noteq> lit ''criterion'' @ 0 # b"
  "lit ''task'' @ 0 # a \<noteq> lit ''criterion'' @ 0 # b"
  by (simp_all add: lit_def)

lemma demo_typed:
  assumes "definitionTitle t = Inr t" "t \<noteq> Undef" "is_json t"
  shows "typedIds flatSha demoWorkflow [demoPhase] [demoTaskDef] [demoCriterion (Some t)]"
proof -
  have "definitionTitle (Str (lit ''Build'')) = Inr (Str (lit ''Build''))" by (simp add: definitionTitle_Str)
  then have "okPhase flatSha demoPhase"
    by (simp add: okDef_defs okCommon_def okIds_def digested_def demoPhase_def demo_identities demo_graph_texts isParent_def safe_bounds maxSafe_def)
  moreover have "okWorkflow flatSha demoWorkflow"
    by (simp add: okDef_defs okCommon_def digested_def demoWorkflow_def demo_identities demo_graph_texts safe_bounds maxSafe_def)
  moreover have "okTask flatSha demoTaskDef"
    by (simp add: okDef_defs okCommon_def okIds_def digested_def demoTaskDef_def demo_identities demo_graph_texts isParent_def safe_bounds
        maxSafe_def okCompletion_def okCriteria_def okEvidencePolicy_def okEvidenceRequirements_def
        encCompletionPolicy_def encEvidencePolicy_def encCriterionRequirement_def enumText_def optionalField_def)
  moreover have "okCriterion flatSha (demoCriterion (Some t))" using assms
    by (simp add: okDef_defs okCommon_def okIds_def digested_def demoCriterion_def demo_identities demo_graph_texts isParent_def safe_bounds maxSafe_def)
  ultimately show ?thesis by (simp add: typedIds_def)
qed

lemma acyclic_empty_relation: "(\<And>d. d \<in> set ds \<Longrightarrow> set (refs d) \<inter> ids ds = {}) \<Longrightarrow> acyclic (relationIn ds refs)"
proof -
  assume "\<And>d. d \<in> set ds \<Longrightarrow> set (refs d) \<inter> ids ds = {}"
  then have "relationIn ds refs = {}" by (auto simp: relationIn_def)
  then show ?thesis by (simp add: acyclic_def)
qed

lemma demo_consistent: "consistentDefs demoWorkflow [demoPhase] [demoTaskDef] [demoCriterion t]"
  unfolding consistentDefs_def
  by (intro conjI acyclic_empty_relation)
    (simp_all add: demoWorkflow_def demoPhase_def demoTaskDef_def demoCriterion_def demo_identities demo_graph_texts
      supersedesNewer_def scopedKey_def ownsDeclared_def)

definition demoInput :: "val \<Rightarrow> val" where
  "demoInput t = workflowInput demoWorkflow [demoPhase] [demoTaskDef] [demoCriterion (Some t)]"

definition demoGraph :: "val \<Rightarrow> workflowGraph" where
  "demoGraph t = \<lparr>graphWorkflow = lit ''workflow_w'', revisionDigest = replicate 64 48,
     graphNodes = sortNodes (allNodes demoWorkflow [demoPhase] [demoTaskDef] [demoCriterion (Some t)]),
     graphEdges = sortEdges (createEdges [demoPhase] [demoTaskDef] [demoCriterion (Some t)])\<rparr>"

lemma demo_compiles:
  assumes "definitionTitle t = Inr t" "t \<noteq> Undef" "is_json t"
  shows "compileWorkflowGraph (demoInput t) flatSha = Inr (demoGraph t)"
proof -
  have "buildGraph demoWorkflow [demoPhase] [demoTaskDef] [demoCriterion (Some t)] flatSha = Inr (demoGraph t)"
    by (simp add: buildGraph_eq_Inr demoGraph_def) (simp add: demoWorkflow_def)
  then show ?thesis unfolding demoInput_def using compile_input [OF demo_typed [OF assms] demo_consistent] by simp
qed

lemma demo_title: "definitionTitle (Str (lit ''Done'')) = Inr (Str (lit ''Done''))" "definitionTitle (Num (Whole 5)) = Inr (Num (Whole 5))"
  by (simp_all add: definitionTitle_def lengthOf_def exceeds256_def field_def props_def)

lemma five_json: "is_json (Num (Whole 5))"
  by (simp add: wf_num_def)

theorem graph_wellformed_witness: "wellFormedGraph (demoGraph (Str (lit ''Done'')))"
  by (rule graph_wellformed [OF disjI1 [OF demo_compiles]]) (simp_all add: demo_title)

text \<open>A criterion titled \<open>Done\<close> reads back; a criterion titled 5 is compiled and then refused.\<close>

theorem graph_roundtrip_witness:
  "validateWorkflowGraph (encGraph (demoGraph (Str (lit ''Done'')))) flatSha = Inr (demoGraph (Str (lit ''Done''))) \<and>
   validateWorkflowGraph (encGraph (demoGraph (Num (Whole 5)))) flatSha = Inl GraphValidationError"
proof -
  have fine: "\<forall>n\<in>set (graphNodes (demoGraph (Str (lit ''Done'')))). hasTextTitle n"
    by (simp add: demoGraph_def sortNodes_def node_set textTitle_def demoWorkflow_def demoPhase_def demoTaskDef_def demoCriterion_def)
  have five: "\<not> (\<forall>n\<in>set (graphNodes (demoGraph (Num (Whole 5)))). hasTextTitle n)"
    by (simp add: demoGraph_def sortNodes_def node_set textTitle_def demoCriterion_def)
  from graph_roundtrip [OF demo_compiles [OF demo_title(1)]] graph_roundtrip [OF demo_compiles [OF demo_title(2) _ five_json]] fine five
  show ?thesis by simp
qed

theorem validated_is_compiled_witness:
  "\<exists>i. workflowInputFromGraphSnapshot (encGraph (demoGraph (Str (lit ''Done'')))) = Inr i \<and>
     compileWorkflowGraph i flatSha = Inr (demoGraph (Str (lit ''Done'')))"
  using validated_is_compiled [OF validate_enc(1) [OF demo_typed [OF demo_title(1)] demo_consistent, of "demoGraph (Str (lit ''Done''))"]]
  by (simp add: buildGraph_eq_Inr demoGraph_def sortNodes_def node_set textTitle_def demoPhase_def demoTaskDef_def demoCriterion_def)
    (simp add: demoWorkflow_def)

definition demoPhaseQ :: phaseDef where
  "demoPhaseQ = demoPhase\<lparr>defId := lit ''phase_q'', defKey := lit ''q''\<rparr>"

theorem compile_order_independent_witness:
  "\<exists>g. compileWorkflowGraph (workflowInput demoWorkflow [demoPhase, demoPhaseQ] [] []) flatSha = Inr g \<and>
     compileWorkflowGraph (workflowInput demoWorkflow [demoPhaseQ, demoPhase] [] []) flatSha = Inr g"
proof -
  let ?v = "workflowInput demoWorkflow [demoPhase, demoPhaseQ] [] []" and ?v' = "workflowInput demoWorkflow [demoPhaseQ, demoPhase] [] []"
  have q: "isIdentity PhaseKind (Str (lit ''phase_q''))" "isConsumerKey (Str (lit ''q''))" by code_simp+
  have base: "typedIds flatSha demoWorkflow [demoPhase] [demoTaskDef] [demoCriterion (Some (Str (lit ''Done'')))]"
    by (rule demo_typed) (simp_all add: demo_title)
  then have ok: "okPhase flatSha demoPhase" "okWorkflow flatSha demoWorkflow" by (simp_all add: typedIds_def)
  then have okq: "okPhase flatSha demoPhaseQ"
    by (simp add: okDef_defs okCommon_def digested_def demoPhaseQ_def demoPhase_def q)
  have "consistentDefs demoWorkflow [demoPhase, demoPhaseQ] [] []"
    unfolding consistentDefs_def
    by (intro conjI acyclic_empty_relation)
      (auto simp: demoWorkflow_def demoPhase_def demoPhaseQ_def supersedesNewer_def scopedKey_def)
  then have "compileWorkflowGraph ?v flatSha = buildGraph demoWorkflow [demoPhase, demoPhaseQ] [] [] flatSha"
    by (intro compile_input) (simp_all add: typedIds_def ok okq)
  moreover obtain g where "buildGraph demoWorkflow [demoPhase, demoPhaseQ] [] [] flatSha = Inr g"
    by (simp add: buildGraph_def Let_def)
  ultimately have g: "compileWorkflowGraph ?v flatSha = Inr g" by simp
  have "is_json ?v'" using input_json(1) [OF ok(2)] input_json(2) [OF ok(1)] input_json(2) [OF okq]
    by (simp add: workflowInput_def)
  from compile_order_independent [OF g this] have "compileWorkflowGraph ?v' flatSha = Inr g"
    by (simp add: workflowInput_def hasDefinitionArrays_def elements_def)
  with g show ?thesis by blast
qed

end
