(* ===== verification/Run.thy ===== *)
theory Run
  imports GraphCompile Timestamps
begin

text \<open>
  packages/kernel/src/run.ts: a run is rebuilt from its events. A command is decided against the
  current state and yields events, an event is applied to a state, and a log of events is replayed
  from no state at all.

  Commands and events come from outside and are read as values. Strings that reach an error message
  are converted on the way, which throws when the value has no string form: an object of an event
  snapshot has no prototype (\<open>textOf\<close>), an object of a command has \<open>Object.prototype\<close>
  (\<open>plainText\<close>). The state is the record the module itself builds.
\<close>

record runRecord =
  runIdOf :: jstr
  runWorkflow :: jstr
  runRevision :: jstr
  runGraph :: workflowGraph
  lastSequence :: int
  eventIds :: "jstr list"

definition runError :: "run_code \<Rightarrow> exn" where
  "runError c = RunTransitionError c"

text \<open>\<open>String(v)\<close> of a value with plain objects. One with a \<open>toString\<close> of its own, which is not a function
  here, has no string form.\<close>

fun plainText :: "val \<Rightarrow> exn + jstr" where
  "plainText (Obj kvs) = (if hasOwn (Obj kvs) (lit ''toString'') then Inl TypeError else Inr (lit ''[object Object]''))"
| "plainText (Arr xs) = bindE (mapE (\<lambda>x. if x = Null \<or> x = Undef then Inr [] else plainText x) xs)
     (\<lambda>ts. Inr (joinWith (lit '','') ts))"
| "plainText Undef = Inr (lit ''undefined'')"
| "plainText Null = Inr (lit ''null'')"
| "plainText (Bool b) = Inr (if b then lit ''true'' else lit ''false'')"
| "plainText (Num n) = Inr (numberStr n)"
| "plainText (Str s) = Inr s"
| "plainText Exotic = Inl TypeError"

text \<open>\<open>fail(code, message)\<close> with the values the message shows.\<close>

definition failShowing :: "(val \<Rightarrow> exn + jstr) \<Rightarrow> run_code \<Rightarrow> val list \<Rightarrow> exn + 'a" where
  "failShowing txt c vs = bindE (mapE txt vs) (\<lambda>_. Inl (runError c))"

text \<open>\<open>^\d{4}-\d{2}-\d{2}T\d{2}:\d{2}:\d{2}\.\d{3}Z$\<close>, tested on the string form.\<close>

definition millisPattern :: "jstr \<Rightarrow> bool" where
  "millisPattern s \<longleftrightarrow> length s = 24 \<and> isoPattern s"

definition assertRunTimestamp :: "(val \<Rightarrow> exn + jstr) \<Rightarrow> val \<Rightarrow> run_code \<Rightarrow> exn + unit" where
  "assertRunTimestamp txt v c = bindE (txt v) (\<lambda>s. if \<not> millisPattern s then Inl (runError c) else Inr ())"

definition assertSequence :: "val \<Rightarrow> exn + int" where
  "assertSequence v = (case posSafeInt v of None \<Rightarrow> Inl (runError RInvalidSequence) | Some i \<Rightarrow> Inr i)"

definition digestRunEventContent :: "val \<Rightarrow> sha256 \<Rightarrow> exn + jstr" where
  "digestRunEventContent content sha =
     bindE (snapshotCanonical TypeError content) (\<lambda>v. canonicalDigest v sha)"

definition assertEventMetadata :: "val \<Rightarrow> val \<Rightarrow> val \<Rightarrow> sha256 \<Rightarrow> exn + jstr" where
  "assertEventMetadata eventId digest content sha =
     (if \<not> isSha256Digest digest then Inl (runError RInvalidEventDigest)
      else bindE (digestRunEventContent content sha) (\<lambda>computed.
        if digest \<noteq> Str computed then Inl (runError RInvalidEventDigest)
        else if \<not> isIdentity EventKind eventId \<or> eventId \<noteq> Str (lit ''event_'' @ computed)
        then Inl (runError RInvalidEventIdentity)
        else Inr (lit ''event_'' @ computed)))"

definition createEvent :: "(jstr \<times> val) list \<Rightarrow> val \<Rightarrow> val \<Rightarrow> sha256 \<Rightarrow> exn + val" where
  "createEvent content eventId digest sha =
     bindE (assertEventMetadata eventId digest (Obj content) sha) (\<lambda>_.
       snapshotCanonical TypeError
         (Obj (content @ [(lit ''eventId'', eventId), (lit ''contentDigest'', digest)])))"

definition assertCommandEnvelope :: "val \<Rightarrow> exn + int" where
  "assertCommandEnvelope c =
     bindE (assertSequence (get c ''sequence'')) (\<lambda>n.
     bindE (assertRunTimestamp plainText (get c ''occurredAt'') RInvalidCommand) (\<lambda>_.
     if \<not> isIdentity EventKind (get c ''eventId'') then failShowing plainText RInvalidEventIdentity [get c ''eventId'']
     else if \<not> isSha256Digest (get c ''eventContentDigest'') then Inl (runError RInvalidEventDigest)
     else Inr n))"

definition canonicalCommandFacts :: "val \<Rightarrow> exn + val" where
  "canonicalCommandFacts v = snapshotCanonical (runError RInvalidCommand) v"

definition snapshotRunEvent :: "val \<Rightarrow> exn + val" where
  "snapshotRunEvent v = snapshotCanonical (runError RInvalidEvent) v"

definition validateRunGraph :: "run_code \<Rightarrow> val \<Rightarrow> sha256 \<Rightarrow> exn + workflowGraph" where
  "validateRunGraph c v sha = (case validateWorkflowGraph v sha of
     Inl GraphValidationError \<Rightarrow> Inl (runError c)
   | r \<Rightarrow> r)"

definition assertCommandIdentities :: "val \<Rightarrow> val \<Rightarrow> workflowGraph \<Rightarrow> exn + jstr \<times> jstr" where
  "assertCommandIdentities runId workflowId g =
     bindE (strIf (isIdentity RunKind) (runError RIdentityMismatch) runId) (\<lambda>r.
     bindE (strIf (isIdentity WorkflowKind) (runError RIdentityMismatch) workflowId) (\<lambda>w.
     if w \<noteq> graphWorkflow g then Inl (runError RIdentityMismatch) else Inr (r, w)))"

definition assertStateCommandIdentities ::
  "(val \<Rightarrow> exn + jstr) \<Rightarrow> runRecord \<Rightarrow> val \<Rightarrow> val \<Rightarrow> exn + unit" where
  "assertStateCommandIdentities txt s runId workflowId =
     (if runId \<noteq> Str (runIdOf s) \<or> workflowId \<noteq> Str (runWorkflow s)
      then failShowing txt RIdentityMismatch [runId, workflowId] else Inr ())"

section \<open>Deciding a command\<close>

definition runInstantiated :: "val \<Rightarrow> workflowGraph \<Rightarrow> val \<Rightarrow> (jstr \<times> val) list" where
  "runInstantiated c g facts =
     [(lit ''type'', Str (lit ''run-instantiated'')), (lit ''sequence'', get c ''sequence''),
      (lit ''occurredAt'', get c ''occurredAt''), (lit ''runId'', get c ''runId''),
      (lit ''workflowId'', get c ''workflowId''), (lit ''revisionDigest'', Str (revisionDigest g)),
      (lit ''graph'', encGraph g), (lit ''facts'', facts)]"

definition graphRevisionAccepted :: "val \<Rightarrow> runRecord \<Rightarrow> workflowGraph \<Rightarrow> val \<Rightarrow> (jstr \<times> val) list" where
  "graphRevisionAccepted c s g facts =
     [(lit ''type'', Str (lit ''graph-revision-accepted'')), (lit ''sequence'', get c ''sequence''),
      (lit ''occurredAt'', get c ''occurredAt''), (lit ''runId'', get c ''runId''),
      (lit ''workflowId'', get c ''workflowId''), (lit ''beforeRevisionDigest'', Str (runRevision s)),
      (lit ''afterRevisionDigest'', Str (revisionDigest g)),
      (lit ''graph'', encGraph g), (lit ''facts'', facts)]"

definition decideInstantiate :: "runRecord option \<Rightarrow> val \<Rightarrow> sha256 \<Rightarrow> exn + val list" where
  "decideInstantiate state c sha = (case state of
     Some _ \<Rightarrow> Inl (runError RAlreadyInstantiated)
   | None \<Rightarrow>
       bindE (assertCommandEnvelope c) (\<lambda>n.
       bindE (validateRunGraph RInvalidCommand (get c ''graph'') sha) (\<lambda>g.
       bindE (assertCommandIdentities (get c ''runId'') (get c ''workflowId'') g) (\<lambda>_.
       if n \<noteq> 1 then Inl (runError RInvalidSequence)
       else bindE (canonicalCommandFacts (get c ''facts'')) (\<lambda>facts.
            bindE (createEvent (runInstantiated c g facts) (get c ''eventId'') (get c ''eventContentDigest'') sha)
              (\<lambda>e. Inr [e]))))))"

definition decideRevision :: "runRecord option \<Rightarrow> val \<Rightarrow> sha256 \<Rightarrow> exn + val list" where
  "decideRevision state c sha = (case state of
     None \<Rightarrow> Inl (runError RNotInstantiated)
   | Some s \<Rightarrow>
       bindE (assertCommandEnvelope c) (\<lambda>n.
       bindE (assertStateCommandIdentities plainText s (get c ''runId'') (get c ''workflowId'')) (\<lambda>_.
       if get c ''eventId'' \<in> Str ` set (eventIds s) then Inl (runError RDuplicateEvent)
       else if n \<noteq> lastSequence s + 1 then Inl (runError RInvalidSequence)
       else if get c ''expectedRevisionDigest'' \<noteq> Str (runRevision s)
       then failShowing plainText RStaleRevision [get c ''expectedRevisionDigest'']
       else bindE (validateRunGraph RInvalidCommand (get c ''graph'') sha) (\<lambda>g.
            bindE (assertCommandIdentities (get c ''runId'') (get c ''workflowId'') g) (\<lambda>_.
            if revisionDigest g = runRevision s then Inl (runError RInvalidRevision)
            else bindE (canonicalCommandFacts (get c ''facts'')) (\<lambda>facts.
                 bindE (createEvent (graphRevisionAccepted c s g facts)
                     (get c ''eventId'') (get c ''eventContentDigest'') sha) (\<lambda>e. Inr [e])))))))"

definition decideRunCommand :: "runRecord option \<Rightarrow> val \<Rightarrow> sha256 \<Rightarrow> exn + val list" where
  "decideRunCommand state c sha =
     (if get c ''type'' = Str (lit ''instantiate-run'') then decideInstantiate state c sha
      else if get c ''type'' \<noteq> Str (lit ''accept-graph-revision'') then Inl (runError RInvalidCommand)
      else decideRevision state c sha)"

section \<open>Applying an event\<close>

definition instantiatedKeys :: "string list" where
  "instantiatedKeys = [''type'', ''sequence'', ''occurredAt'', ''runId'', ''workflowId'', ''revisionDigest'',
     ''graph'', ''facts'']"

definition revisionKeys :: "string list" where
  "revisionKeys = [''type'', ''sequence'', ''occurredAt'', ''runId'', ''workflowId'', ''beforeRevisionDigest'',
     ''afterRevisionDigest'', ''graph'', ''facts'']"

definition isInstantiation :: "val \<Rightarrow> bool" where
  "isInstantiation e \<longleftrightarrow> get e ''type'' = Str (lit ''run-instantiated'')"

text \<open>The content of an event is the event without its identity and digest. Reading the type of
  \<open>null\<close> throws, every other value without the type is an unknown event.\<close>

definition eventContent :: "val \<Rightarrow> exn + val" where
  "eventContent e =
     (if e = Null then Inl TypeError
      else if isInstantiation e then
        bindE (assertExactKeys e (instantiatedKeys @ [''eventId'', ''contentDigest'']) (runError RInvalidEvent)) (\<lambda>_.
          Inr (pickFields e instantiatedKeys))
      else if get e ''type'' \<noteq> Str (lit ''graph-revision-accepted'') then Inl (runError RInvalidEvent)
      else
        bindE (assertExactKeys e (revisionKeys @ [''eventId'', ''contentDigest'']) (runError RInvalidEvent)) (\<lambda>_.
          Inr (pickFields e revisionKeys)))"

definition assertEventEnvelope :: "val \<Rightarrow> val \<Rightarrow> sha256 \<Rightarrow> exn + int \<times> jstr" where
  "assertEventEnvelope e content sha =
     bindE (assertSequence (get e ''sequence'')) (\<lambda>n.
     bindE (assertRunTimestamp textOf (get e ''occurredAt'') RInvalidEvent) (\<lambda>_.
     bindE (assertEventMetadata (get e ''eventId'') (get e ''contentDigest'') content sha) (\<lambda>i. Inr (n, i))))"

definition assertEventIdentities :: "val \<Rightarrow> val \<Rightarrow> workflowGraph \<Rightarrow> exn + jstr \<times> jstr" where
  "assertEventIdentities runId workflowId g =
     bindE (strIf (isIdentity RunKind) (runError RIdentityMismatch) runId) (\<lambda>r.
     bindE (strIf (isIdentity WorkflowKind) (runError RIdentityMismatch) workflowId) (\<lambda>w.
     if w \<noteq> graphWorkflow g then Inl (runError RIdentityMismatch) else Inr (r, w)))"

definition freezeState :: "jstr \<times> jstr \<Rightarrow> workflowGraph \<Rightarrow> int \<Rightarrow> jstr list \<Rightarrow> runRecord" where
  "freezeState rw g n ids = \<lparr>runIdOf = fst rw, runWorkflow = snd rw, runRevision = revisionDigest g, runGraph = g,
     lastSequence = n, eventIds = ids\<rparr>"

definition applyInstantiation :: "runRecord option \<Rightarrow> val \<Rightarrow> int \<Rightarrow> jstr \<Rightarrow> workflowGraph \<Rightarrow> exn + runRecord" where
  "applyInstantiation state e n i g = (case state of
     Some _ \<Rightarrow> Inl (runError RAlreadyInstantiated)
   | None \<Rightarrow>
       bindE (assertEventIdentities (get e ''runId'') (get e ''workflowId'') g) (\<lambda>rw.
       if get e ''revisionDigest'' \<noteq> Str (revisionDigest g) then Inl (runError RInvalidRevision)
       else Inr (freezeState rw g n [i])))"

definition applyRevision :: "runRecord option \<Rightarrow> val \<Rightarrow> int \<Rightarrow> jstr \<Rightarrow> workflowGraph \<Rightarrow> exn + runRecord" where
  "applyRevision state e n i g = (case state of
     None \<Rightarrow> Inl (runError RNotInstantiated)
   | Some s \<Rightarrow>
       bindE (assertStateCommandIdentities textOf s (get e ''runId'') (get e ''workflowId'')) (\<lambda>_.
       bindE (assertEventIdentities (get e ''runId'') (get e ''workflowId'') g) (\<lambda>rw.
       if get e ''beforeRevisionDigest'' \<noteq> Str (runRevision s)
       then failShowing textOf RStaleRevision [get e ''beforeRevisionDigest'']
       else if get e ''afterRevisionDigest'' \<noteq> Str (revisionDigest g) then Inl (runError RInvalidRevision)
       else if get e ''afterRevisionDigest'' = get e ''beforeRevisionDigest'' then Inl (runError RInvalidRevision)
       else Inr (freezeState rw g n (eventIds s @ [i])))))"

definition applyRunEvent :: "runRecord option \<Rightarrow> val \<Rightarrow> sha256 \<Rightarrow> exn + runRecord" where
  "applyRunEvent state event sha =
     bindE (snapshotRunEvent event) (\<lambda>e.
     bindE (eventContent e) (\<lambda>content.
     bindE (assertEventEnvelope e content sha) (\<lambda>(n, i).
     bindE (validateRunGraph RInvalidEvent (get e ''graph'') sha) (\<lambda>g.
     if (case state of None \<Rightarrow> False | Some s \<Rightarrow> i \<in> set (eventIds s)) then Inl (runError RDuplicateEvent)
     else if n \<noteq> (case state of None \<Rightarrow> 1 | Some s \<Rightarrow> lastSequence s + 1) then Inl (runError RInvalidSequence)
     else if isInstantiation e then applyInstantiation state e n i g
     else applyRevision state e n i g))))"

definition replayRunEvents :: "val list \<Rightarrow> sha256 \<Rightarrow> exn + runRecord" where
  "replayRunEvents events sha =
     bindE (foldE (\<lambda>state e. bindE (applyRunEvent state e sha) (\<lambda>s. Inr (Some s))) None events)
       (\<lambda>state. case state of None \<Rightarrow> Inl (runError RNotInstantiated) | Some s \<Rightarrow> Inr s)"

end
