(* ===== verification/RunFacts.thy ===== *)
theory RunFacts
  imports Run GraphProperties
begin

text \<open>
  The logs of run.ts. An event is sealed when its identity and digest are those of its content and
  its graph validates; a log is valid when its first event instantiates the run and every other
  one continues the event before it. Replaying is shown to accept the valid logs exactly.
\<close>

section \<open>Valid logs\<close>

definition sequenceOf :: "val \<Rightarrow> int" where
  "sequenceOf e = (case get e ''sequence'' of Num (Whole n) \<Rightarrow> n | _ \<Rightarrow> 0)"

definition fieldText :: "val \<Rightarrow> string \<Rightarrow> jstr" where
  "fieldText e k = (case get e k of Str s \<Rightarrow> s | _ \<Rightarrow> [])"

definition revisionField :: "val \<Rightarrow> string" where
  "revisionField e = (if isInstantiation e then ''revisionDigest'' else ''afterRevisionDigest'')"

definition eventGraph :: "sha256 \<Rightarrow> val \<Rightarrow> workflowGraph option" where
  "eventGraph sha e = (case validateWorkflowGraph (get e ''graph'') sha of Inl _ \<Rightarrow> None | Inr g \<Rightarrow> Some g)"

definition contentSealed :: "sha256 \<Rightarrow> val \<Rightarrow> val \<Rightarrow> bool" where
  "contentSealed sha e content \<longleftrightarrow>
     (let d = sha (canonicalBytes content)
      in sha256Pattern d \<and> get e ''contentDigest'' = Str d \<and> get e ''eventId'' = Str (lit ''event_'' @ d))"

definition sealedEvent :: "sha256 \<Rightarrow> val \<Rightarrow> bool" where
  "sealedEvent sha e \<longleftrightarrow> is_json e \<and>
     (\<exists>content. eventContent e = Inr content \<and> contentSealed sha e content) \<and>
     posSafeInt (get e ''sequence'') \<noteq> None \<and>
     (\<exists>t. textOf (get e ''occurredAt'') = Inr t \<and> millisPattern t) \<and>
     isIdentity RunKind (get e ''runId'') \<and> isIdentity WorkflowKind (get e ''workflowId'') \<and>
     (\<exists>g. eventGraph sha e = Some g \<and> get e ''workflowId'' = Str (graphWorkflow g) \<and>
        get e (revisionField e) = Str (revisionDigest g))"

definition firstEvent :: "val \<Rightarrow> bool" where
  "firstEvent e \<longleftrightarrow> isInstantiation e \<and> sequenceOf e = 1"

definition continues :: "val \<Rightarrow> val \<Rightarrow> bool" where
  "continues a b \<longleftrightarrow> \<not> isInstantiation b \<and> sequenceOf b = sequenceOf a + 1 \<and>
     get b ''runId'' = get a ''runId'' \<and> get b ''workflowId'' = get a ''workflowId'' \<and>
     get b ''beforeRevisionDigest'' = get a (revisionField a) \<and>
     get b ''afterRevisionDigest'' \<noteq> get b ''beforeRevisionDigest''"

definition validLog :: "sha256 \<Rightarrow> val list \<Rightarrow> bool" where
  "validLog sha es \<longleftrightarrow> es \<noteq> [] \<and> (\<forall>e\<in>set es. sealedEvent sha e) \<and>
     distinct (map (\<lambda>e. get e ''eventId'') es) \<and> firstEvent (hd es) \<and> successively continues es"

definition logState :: "sha256 \<Rightarrow> val list \<Rightarrow> runRecord" where
  "logState sha es =
     (let e = last es; g = the (eventGraph sha e)
      in freezeState (fieldText e ''runId'', fieldText e ''workflowId'') g (int (length es))
           (map (\<lambda>e. fieldText e ''eventId'') es))"

section \<open>The envelope\<close>

lemma hex_alnum: "isHexLower c \<Longrightarrow> isAlnum c"
proof -
  have "c \<le> 122" if "c \<le> 102" using that order_trans [of c 102 122] by simp
  then show "isHexLower c \<Longrightarrow> isAlnum c" by (auto simp: isHexLower_def isAlnum_def isLower_def)
qed

lemma event_identity: "sha256Pattern d \<Longrightarrow> isIdentity EventKind (Str (lit ''event_'' @ d))"
proof -
  assume d: "sha256Pattern d"
  then have a: "\<forall>c\<in>set d. isAlnum c" "length d = 64" "d \<noteq> []"
    by (auto simp: sha256Pattern_def list_all_iff hex_alnum)
  then have "identityTokenPattern d"
    by (simp add: identityTokenPattern_def tokenPattern_iff list_all_iff isAlnum_token)
  moreover have "lit ''event_'' @ d = lit (kindStr EventKind) @ lit ''_'' @ d" by (simp add: lit_def)
  ultimately show ?thesis unfolding isIdentity_iff by blast
qed

lemma content_json:
  assumes "eventContent e = Inr c" "is_json e"
  shows "is_json c"
proof -
  have pick: "is_json (pickFields e ks)"
    if "exactKeys e (ks @ ks')" "distinct ks" for ks ks'
    using that assms(2) by (auto simp: pickFields_def list_all_iff o_def distinct_map inj_on_def intro!: exactKeys_field_json [OF that(1)])
  show ?thesis using assms(1)
    by (auto simp: eventContent_def bindE_eq_Inr assertExactKeys_eq_Inr instantiatedKeys_def revisionKeys_def
        split: if_splits intro!: pick)
qed

lemma metadata_eq_Inr:
  assumes "is_json content"
  shows "assertEventMetadata (get e ''eventId'') (get e ''contentDigest'') content sha = Inr i \<longleftrightarrow>
     contentSealed sha e content \<and> i = fieldText e ''eventId''"
  using assms event_identity
  by (auto simp: assertEventMetadata_def digestRunEventContent_def contentSealed_def fieldText_def Let_def snapshotCanonical_def bindE_eq_Inr
      canonicalDigest_eq_Inr)

lemma envelope_eq_Inr:
  assumes "is_json content"
  shows "assertEventEnvelope e content sha = Inr (n, i) \<longleftrightarrow>
     posSafeInt (get e ''sequence'') = Some n \<and> (\<exists>t. textOf (get e ''occurredAt'') = Inr t \<and> millisPattern t) \<and>
     contentSealed sha e content \<and> i = fieldText e ''eventId''"
  using metadata_eq_Inr [OF assms]
  by (auto simp: assertEventEnvelope_def bindE_eq_Inr assertSequence_def assertRunTimestamp_def split: option.splits if_splits)

lemma validateRunGraph_eq_Inr:
  "validateRunGraph c v sha = Inr g \<longleftrightarrow> validateWorkflowGraph v sha = Inr g"
  by (auto simp: validateRunGraph_def split: sum.splits exn.splits)

lemma failShowing_Inr [simp]: "failShowing txt c vs \<noteq> Inr x"
  by (simp add: failShowing_def bindE_eq_Inr)

lemma eventIdentities_eq_Inr:
  "assertEventIdentities r w g = Inr rw \<longleftrightarrow> isIdentity RunKind r \<and> isIdentity WorkflowKind w \<and>
     w = Str (graphWorkflow g) \<and> r = Str (fst rw) \<and> w = Str (snd rw)"
  by (cases rw) (auto simp: assertEventIdentities_def bindE_eq_Inr strIf_eq_Inr)

lemma commandIdentities_event: "assertCommandIdentities = assertEventIdentities"
  by (simp add: fun_eq_iff assertCommandIdentities_def assertEventIdentities_def)

lemma stateIdentities_eq_Inr:
  "assertStateCommandIdentities txt s r w = Inr u \<longleftrightarrow> r = Str (runIdOf s) \<and> w = Str (runWorkflow s)"
  by (simp add: assertStateCommandIdentities_def)

lemma apply_eq_Inr:
  "applyRunEvent st e sha = Inr s \<longleftrightarrow> is_json e \<and>
     (\<exists>content n g. eventContent e = Inr content \<and> contentSealed sha e content \<and>
        posSafeInt (get e ''sequence'') = Some n \<and> (\<exists>t. textOf (get e ''occurredAt'') = Inr t \<and> millisPattern t) \<and>
        eventGraph sha e = Some g \<and>
        (case st of None \<Rightarrow> n = 1 | Some s \<Rightarrow> fieldText e ''eventId'' \<notin> set (eventIds s) \<and> n = lastSequence s + 1) \<and>
        (if isInstantiation e then applyInstantiation st e n (fieldText e ''eventId'') g
         else applyRevision st e n (fieldText e ''eventId'') g) = Inr s)"
  (is "?l \<longleftrightarrow> ?r")
proof
  assume ?l
  then obtain content n i g where *: "is_json e" "eventContent e = Inr content"
      "assertEventEnvelope e content sha = Inr (n, i)" "validateWorkflowGraph (get e ''graph'') sha = Inr g"
      "\<not> (case st of None \<Rightarrow> False | Some s \<Rightarrow> i \<in> set (eventIds s))"
      "n = (case st of None \<Rightarrow> 1 | Some s \<Rightarrow> lastSequence s + 1)"
      "(if isInstantiation e then applyInstantiation st e n i g else applyRevision st e n i g) = Inr s"
    by (auto simp: applyRunEvent_def snapshotRunEvent_def bindE_eq_Inr snapshotCanonical_eq_Inr validateRunGraph_eq_Inr
        split: if_splits)
  then show ?r using envelope_eq_Inr [OF content_json [OF *(2,1)]]
    by (auto simp: eventGraph_def split: option.splits)
next
  assume ?r
  then obtain content n g where *: "is_json e" "eventContent e = Inr content" "contentSealed sha e content"
      "posSafeInt (get e ''sequence'') = Some n" "\<exists>t. textOf (get e ''occurredAt'') = Inr t \<and> millisPattern t"
      "eventGraph sha e = Some g"
      "case st of None \<Rightarrow> n = 1 | Some s \<Rightarrow> fieldText e ''eventId'' \<notin> set (eventIds s) \<and> n = lastSequence s + 1"
      "(if isInstantiation e then applyInstantiation st e n (fieldText e ''eventId'') g
         else applyRevision st e n (fieldText e ''eventId'') g) = Inr s" by blast
  from * have "assertEventEnvelope e content sha = Inr (n, fieldText e ''eventId'')"
    using envelope_eq_Inr [OF content_json [OF *(2,1)]] by blast
  moreover from *(6) have "validateRunGraph RInvalidEvent (get e ''graph'') sha = Inr g"
    by (simp add: validateRunGraph_eq_Inr eventGraph_def split: sum.splits)
  ultimately show ?l using *
    by (cases st) (auto simp: applyRunEvent_def snapshotRunEvent_def snapshotCanonical_def)
qed

section \<open>Replaying accepts the valid logs\<close>

lemma fieldText_Str: "get e k = Str s \<Longrightarrow> fieldText e k = s"
  by (simp add: fieldText_def)

lemma posSafeInt_sequence: "posSafeInt (get e ''sequence'') = Some n \<Longrightarrow> sequenceOf e = n"
  by (simp add: posSafeInt_eq_Some sequenceOf_def)

lemma sealed_texts:
  assumes "sealedEvent sha e"
  shows "get e ''eventId'' = Str (fieldText e ''eventId'')" "get e ''runId'' = Str (fieldText e ''runId'')"
    "get e ''workflowId'' = Str (fieldText e ''workflowId'')"
    "get e (revisionField e) = Str (revisionDigest (the (eventGraph sha e)))"
    "fieldText e ''workflowId'' = graphWorkflow (the (eventGraph sha e))"
  using assms by (auto simp: sealedEvent_def contentSealed_def Let_def isIdentity_iff fieldText_Str)

lemma apply_first:
  "applyRunEvent None e sha = Inr s \<longleftrightarrow> sealedEvent sha e \<and> firstEvent e \<and> s = logState sha [e]"
proof -
  have "isInstantiation e \<Longrightarrow> revisionField e = ''revisionDigest''" by (simp add: revisionField_def)
  moreover have "applyInstantiation None e 1 i g = Inr s \<longleftrightarrow> isIdentity RunKind (get e ''runId'') \<and>
      isIdentity WorkflowKind (get e ''workflowId'') \<and> get e ''workflowId'' = Str (graphWorkflow g) \<and>
      get e ''revisionDigest'' = Str (revisionDigest g) \<and>
      s = freezeState (fieldText e ''runId'', fieldText e ''workflowId'') g 1 [i]" for i g
    by (auto simp: applyInstantiation_def bindE_eq_Inr eventIdentities_eq_Inr isIdentity_iff fieldText_Str)
  moreover have "applyRevision None e n i g \<noteq> Inr s" for n i g by (simp add: applyRevision_def)
  moreover have "posSafeInt (get e ''sequence'') = Some n \<longleftrightarrow> posSafeInt (get e ''sequence'') \<noteq> None \<and> sequenceOf e = n" for n
    by (auto dest: posSafeInt_sequence)
  ultimately show ?thesis unfolding apply_eq_Inr sealedEvent_def firstEvent_def
    by (auto simp: logState_def Let_def simp del: not_None_eq)
qed

lemma revision_eq_Inr:
  "applyRevision (Some s0) e n i g = Inr s \<longleftrightarrow> isIdentity RunKind (get e ''runId'') \<and>
     isIdentity WorkflowKind (get e ''workflowId'') \<and> get e ''workflowId'' = Str (graphWorkflow g) \<and>
     get e ''runId'' = Str (runIdOf s0) \<and> get e ''workflowId'' = Str (runWorkflow s0) \<and>
     get e ''beforeRevisionDigest'' = Str (runRevision s0) \<and>
     get e ''afterRevisionDigest'' = Str (revisionDigest g) \<and>
     get e ''afterRevisionDigest'' \<noteq> get e ''beforeRevisionDigest'' \<and>
     s = freezeState (fieldText e ''runId'', fieldText e ''workflowId'') g n (eventIds s0 @ [i])"
  by (auto simp: applyRevision_def bindE_eq_Inr eventIdentities_eq_Inr stateIdentities_eq_Inr fieldText_Str)

lemma apply_next:
  assumes "validLog sha es"
  shows "applyRunEvent (Some (logState sha es)) e sha = Inr s \<longleftrightarrow> sealedEvent sha e \<and>
     get e ''eventId'' \<notin> (\<lambda>e. get e ''eventId'') ` set es \<and> sequenceOf e = int (length es) + 1 \<and>
     \<not> isInstantiation e \<and> get e ''runId'' = get (last es) ''runId'' \<and>
     get e ''workflowId'' = get (last es) ''workflowId'' \<and>
     get e ''beforeRevisionDigest'' = get (last es) (revisionField (last es)) \<and>
     get e ''afterRevisionDigest'' \<noteq> get e ''beforeRevisionDigest'' \<and> s = logState sha (es @ [e])"
  (is "?l \<longleftrightarrow> ?r")
proof -
  let ?s = "logState sha es"
  from assms have sl: "sealedEvent sha (last es)" and ss: "\<forall>e\<in>set es. sealedEvent sha e"
    by (auto simp: validLog_def)
  note st = sealed_texts [OF sl]
  have state: "get (last es) ''runId'' = Str (runIdOf ?s)" "get (last es) ''workflowId'' = Str (runWorkflow ?s)"
    "get (last es) (revisionField (last es)) = Str (runRevision ?s)" "lastSequence ?s = int (length es)"
    "eventIds ?s = map (\<lambda>e. fieldText e ''eventId'') es"
    using st by (simp_all add: logState_def freezeState_def Let_def)
  have ids: "get e ''eventId'' \<in> (\<lambda>e. get e ''eventId'') ` set es \<longleftrightarrow> fieldText e ''eventId'' \<in> set (eventIds ?s)"
    if "get e ''eventId'' = Str (fieldText e ''eventId'')"
  proof -
    have "(\<lambda>e. get e ''eventId'') ` set es = Str ` set (eventIds ?s)"
      unfolding state(5) set_map image_image by (rule image_cong) (use ss sealed_texts(1) in blast)+
    then show ?thesis by (subst that) (auto simp: inj_image_mem_iff)
  qed
  have rf: "\<not> isInstantiation e \<Longrightarrow> revisionField e = ''afterRevisionDigest''" by (simp add: revisionField_def)
  show ?thesis
  proof
    assume ?l
    then obtain content n g where *: "is_json e" "eventContent e = Inr content" "contentSealed sha e content"
        "posSafeInt (get e ''sequence'') = Some n" "\<exists>t. textOf (get e ''occurredAt'') = Inr t \<and> millisPattern t"
        "eventGraph sha e = Some g" "fieldText e ''eventId'' \<notin> set (eventIds ?s)" "n = int (length es) + 1"
      and ni: "\<not> isInstantiation e" and rev: "applyRevision (Some ?s) e n (fieldText e ''eventId'') g = Inr s"
      unfolding apply_eq_Inr by (auto simp: state(4) applyInstantiation_def split: if_splits)
    note r = rev [unfolded revision_eq_Inr]
    have seal: "sealedEvent sha e" unfolding sealedEvent_def using * r rf [OF ni] by auto
    show ?r using seal *(4,6-8) ni r ids [OF sealed_texts(1) [OF seal]]
      by (auto simp: state posSafeInt_sequence logState_def [of _ "es @ [e]"] Let_def add.commute)
  next
    assume r: ?r
    then have seal: "sealedEvent sha e" and ni: "\<not> isInstantiation e" by auto
    from seal obtain content g n where *: "is_json e" "eventContent e = Inr content" "contentSealed sha e content"
        "posSafeInt (get e ''sequence'') = Some n" "\<exists>t. textOf (get e ''occurredAt'') = Inr t \<and> millisPattern t"
        "eventGraph sha e = Some g" "get e ''workflowId'' = Str (graphWorkflow g)"
        "get e ''afterRevisionDigest'' = Str (revisionDigest g)" "isIdentity RunKind (get e ''runId'')"
        "isIdentity WorkflowKind (get e ''workflowId'')"
      by (auto simp: sealedEvent_def rf [OF ni])
    from *(4) r have n: "n = int (length es) + 1" by (auto dest: posSafeInt_sequence)
    have "applyRevision (Some ?s) e n (fieldText e ''eventId'') g = Inr s"
      unfolding revision_eq_Inr using r *(6-10) n state by (auto simp: logState_def [of _ "es @ [e]"] Let_def add.commute)
    moreover have "fieldText e ''eventId'' \<notin> set (eventIds ?s)" using r ids [OF sealed_texts(1) [OF seal]] by blast
    ultimately show ?l unfolding apply_eq_Inr using * ni n by (auto simp: state(4))
  qed
qed

lemma valid_sequences: "validLog sha es \<Longrightarrow> sequenceOf (last es) = int (length es)"
proof (induction es rule: rev_induct)
  case (snoc e es)
  then show ?case
    by (cases "es = []") (auto simp: validLog_def firstEvent_def successively_append_iff continues_def)
qed (simp add: validLog_def)

lemma validLog_snoc:
  "validLog sha (es @ [e]) \<longleftrightarrow> sealedEvent sha e \<and>
     (if es = [] then firstEvent e else validLog sha es \<and> get e ''eventId'' \<notin> (\<lambda>e. get e ''eventId'') ` set es \<and>
        continues (last es) e)"
  by (auto simp: validLog_def successively_append_iff)

lemma replay_snoc:
  "replayRunEvents (es @ [e]) sha = (if es = [] then applyRunEvent None e sha
     else bindE (replayRunEvents es sha) (\<lambda>s. applyRunEvent (Some s) e sha))"
proof -
  let ?f = "\<lambda>state e. bindE (applyRunEvent state e sha) (\<lambda>s. Inr (Some s))"
  have some: "foldE ?f st xs = Inr None \<Longrightarrow> xs = [] \<and> st = None" for st xs
    by (induction xs arbitrary: st) (auto simp: bindE_eq_Inr)
  have ret: "bindE (bindE m (\<lambda>s. Inr (Some s))) (case_option (Inl (runError RNotInstantiated)) Inr) = m"
    for m :: "exn + runRecord" by (cases m) simp_all
  have right: "bindE m Inr = m" for m :: "exn + runRecord option" by (cases m) simp_all
  show ?thesis
  proof (cases "es = []")
    case True
    then show ?thesis by (cases "applyRunEvent None e sha") (simp_all add: replayRunEvents_def)
  next
    case False
    then show ?thesis using some [of None es]
      by (cases "foldE ?f None es") (auto simp: replayRunEvents_def foldE_append ret right split: option.splits)
  qed
qed

lemma replay_valid: "replayRunEvents es sha = Inr s \<longleftrightarrow> validLog sha es \<and> s = logState sha es"
proof (induction es arbitrary: s rule: rev_induct)
  case Nil
  then show ?case by (simp add: replayRunEvents_def validLog_def)
next
  case (snoc e es)
  show ?case
  proof (cases "es = []")
    case True
    then show ?thesis using validLog_snoc [of sha "[]" e] replay_snoc [of "[]" e sha] by (auto simp: apply_first)
  next
    case False
    have "replayRunEvents (es @ [e]) sha = Inr s \<longleftrightarrow>
        validLog sha es \<and> applyRunEvent (Some (logState sha es)) e sha = Inr s"
      using False snoc.IH by (auto simp: replay_snoc bindE_eq_Inr)
    also have "\<dots> \<longleftrightarrow> validLog sha (es @ [e]) \<and> s = logState sha (es @ [e])"
      using False by (auto simp: apply_next validLog_snoc continues_def valid_sequences)
    finally show ?thesis .
  qed
qed

end
