(* ===== verification/RunProperties.thy ===== *)
theory RunProperties
  imports RunFacts
begin

text \<open>
  The properties of run.ts: replay accepts the valid logs exactly, decided events extend the log,
  and the identities in a state fix the log behind it.
\<close>

section \<open>Timestamps of commands and events\<close>

lemma digit_no_comma: "isDigit c \<Longrightarrow> c \<noteq> 44"
  by (auto simp: isDigit_def)

lemma take_digits: "list_all isDigit (take k (drop j s)) \<Longrightarrow> j \<le> i \<Longrightarrow> i < j + k \<Longrightarrow> i < length s \<Longrightarrow> isDigit (s ! i)"
  by (auto simp: list_all_length dest!: spec [of _ "i - j"])

lemma millis_no_comma:
  assumes "millisPattern s"
  shows "44 \<notin> set s"
proof -
  have len: "length s = 24" and y: "list_all isDigit (take 4 (drop 0 s))" and ms: "list_all isDigit (take 3 (drop 20 s))"
    using assms by (auto simp: millisPattern_def isoPattern_def)
  have d: "isDigit (s ! i)" if "i < 4 \<or> 20 \<le> i \<and> i < 23" for i
    using take_digits [OF y, of i] take_digits [OF ms, of i] that len by auto
  have "s ! i \<noteq> 44" if "i < 24" for i
  proof -
    from that have "(i < 4 \<or> 20 \<le> i \<and> i < 23) \<or> i \<in> {4, 5, 6, 7, 8, 9, 10, 11, 12, 13, 14, 15, 16, 17, 18, 19, 23}"
      unfolding insert_iff empty_iff by presburger
    then show ?thesis
    proof
      assume "i < 4 \<or> 20 \<le> i \<and> i < 23"
      then show ?thesis by (rule digit_no_comma [OF d])
    next
      assume "i \<in> {4, 5, 6, 7, 8, 9, 10, 11, 12, 13, 14, 15, 16, 17, 18, 19, 23}"
      then show ?thesis using assms len by (auto simp: millisPattern_def isoPattern_def dest: digit_no_comma)
    qed
  qed
  then show ?thesis using len by (auto simp: in_set_conv_nth)
qed

lemma join_comma: "2 \<le> length ts \<Longrightarrow> 44 \<in> set (joinWith (lit '','') ts)"
  by (induction "lit '',''" ts rule: joinWith.induct) (auto simp: lit_def)

text \<open>A timestamp accepted on a command is accepted on the event that carries it.\<close>

lemma plainText_millis: "plainText v = Inr t \<Longrightarrow> millisPattern t \<Longrightarrow> textOf v = Inr t"
proof (induction v arbitrary: t rule: plainText.induct)
  case (1 kvs)
  then have "length t = 15" by (auto split: if_splits)
  with 1 show ?case by (simp add: millisPattern_def)
next
  case (2 xs)
  then obtain ts where ts: "mapE (\<lambda>x. if x = Null \<or> x = Undef then Inr [] else plainText x) xs = Inr ts"
      "t = joinWith (lit '','') ts" by (auto simp: bindE_eq_Inr)
  with 2 have "\<not> 2 \<le> length ts" using join_comma millis_no_comma by blast
  then have "length xs < 2" using mapE_length [OF ts(1)] by simp
  moreover have "ts \<noteq> []" using ts(2) "2.prems"(2) by (auto simp: millisPattern_def)
  ultimately obtain x where x: "xs = [x]" using mapE_length [OF ts(1)] by (cases xs) auto
  with ts "2.prems"(2) have "plainText x = Inr t" "x \<noteq> Null" "x \<noteq> Undef"
    by (auto simp: bindE_eq_Inr millisPattern_def split: if_splits)
  with x "2.IH" [of x t] "2.prems"(2) show ?case by simp
qed simp_all

section \<open>Decided events\<close>

lemma created_event:
  assumes "createEvent content eventId digest sha = Inr e" "map fst content = map lit ks"
    and "ks = instantiatedKeys \<and> isInstantiation (Obj content) \<or>
      ks = revisionKeys \<and> get (Obj content) ''type'' = Str (lit ''graph-revision-accepted'')"
  shows "e = Obj (content @ [(lit ''eventId'', eventId), (lit ''contentDigest'', digest)]) \<and> is_json e \<and>
    eventContent e = Inr (Obj content) \<and> contentSealed sha e (Obj content) \<and>
    (\<forall>k\<in>set ks. get e k = get (Obj content) k)"
proof -
  let ?e = "Obj (content @ [(lit ''eventId'', eventId), (lit ''contentDigest'', digest)])"
  from assms(1) obtain i where i: "assertEventMetadata eventId digest (Obj content) sha = Inr i"
    and e: "e = ?e" "is_json ?e" by (auto simp: createEvent_def bindE_eq_Inr snapshotCanonical_eq_Inr)
  have set: "fst ` set content = lit ` set ks" using arg_cong [OF assms(2), of set] by simp
  have ks: "''eventId'' \<notin> set ks" "''contentDigest'' \<notin> set ks" "''type'' \<in> set ks" "distinct ks"
    using assms(3) by (auto simp: instantiatedKeys_def revisionKeys_def)
  have g: "\<forall>k\<in>set ks. get ?e k = get (Obj content) k" by (auto simp: set)
  have ids: "get ?e ''eventId'' = eventId" "get ?e ''contentDigest'' = digest" using ks by (auto simp: set)
  have "map (\<lambda>k. (lit k, get ?e k)) ks = map (\<lambda>k. (lit k, get (Obj content) k)) ks"
    using g by (intro map_cong) simp_all
  also have "\<dots> = map (\<lambda>k. (k, field (Obj content) k)) (map lit ks)" by (simp add: o_def)
  also have "\<dots> = map (\<lambda>kv. (fst kv, field (Obj content) (fst kv))) content"
    unfolding assms(2) [symmetric] by (simp add: o_def)
  also have "\<dots> = content"
  proof (rule map_idI)
    fix kv assume "kv \<in> set content"
    moreover have "distinct (map fst content)" unfolding assms(2) using ks(4) by (simp add: distinct_map inj_on_def)
    ultimately have "map_of content (fst kv) = Some (snd kv)" by simp
    then show "(fst kv, field (Obj content) (fst kv)) = kv" by (simp add: field_def)
  qed
  finally have pick: "pickFields ?e ks = Obj content" by (simp add: pickFields_def)
  have keys: "exactKeys ?e (ks @ [''eventId'', ''contentDigest''])" using assms(2) by (intro exactKeys_same) simp
  have t: "get ?e ''type'' = get (Obj content) ''type''" using g ks(3) by blast
  have c: "eventContent ?e = Inr (Obj content)"
    using assms(3) pick keys t by (auto simp: eventContent_def assertExactKeys_def isInstantiation_def)
  have j: "is_json (Obj content)" by (rule content_json [OF c e(2)])
  have "assertEventMetadata (get ?e ''eventId'') (get ?e ''contentDigest'') (Obj content) sha = Inr i" using i by (simp only: ids)
  then have "contentSealed sha ?e (Obj content)" unfolding metadata_eq_Inr [OF j] by (rule conjunct1)
  with e c g show ?thesis by blast
qed

lemma commandEnvelope_eq_Inr:
  "assertCommandEnvelope c = Inr n \<Longrightarrow> posSafeInt (get c ''sequence'') = Some n \<and>
     (\<exists>t. plainText (get c ''occurredAt'') = Inr t \<and> millisPattern t)"
  by (auto simp: assertCommandEnvelope_def bindE_eq_Inr assertSequence_def assertRunTimestamp_def
      split: option.splits if_splits)

lemma decided_sealed:
  assumes env: "assertCommandEnvelope c = Inr n"
    and g: "validateWorkflowGraph (get c ''graph'') sha = Inr g"
    and ident: "assertCommandIdentities (get c ''runId'') (get c ''workflowId'') g = Inr rw"
    and e: "is_json e" "eventContent e = Inr content" "contentSealed sha e content"
    and fields: "get e ''sequence'' = get c ''sequence''" "get e ''occurredAt'' = get c ''occurredAt''"
      "get e ''runId'' = get c ''runId''" "get e ''workflowId'' = get c ''workflowId''" "get e ''graph'' = encGraph g"
      "get e (revisionField e) = Str (revisionDigest g)"
  shows "sealedEvent sha e \<and> sequenceOf e = n \<and> eventGraph sha e = Some g"
proof -
  note n = commandEnvelope_eq_Inr [OF env]
  have "eventGraph sha e = Some g" using validate_canonical(4) [OF g] fields(5) by (simp add: eventGraph_def)
  moreover have "sequenceOf e = n" using n fields(1) by (auto intro: posSafeInt_sequence)
  ultimately show ?thesis using n plainText_millis e fields ident
    unfolding sealedEvent_def commandIdentities_event eventIdentities_eq_Inr by auto
qed

lemma decided_instantiation:
  assumes "decideInstantiate st c sha = Inr es"
  shows "st = None \<and> (\<exists>e g. es = [e] \<and> validateWorkflowGraph (get c ''graph'') sha = Inr g \<and>
     eventGraph sha e = Some g \<and> sealedEvent sha e \<and> firstEvent e \<and> get e ''facts'' = get c ''facts'')"
proof -
  from assms obtain g e rw where d: "st = None" "assertCommandEnvelope c = Inr 1"
      "validateWorkflowGraph (get c ''graph'') sha = Inr g"
      "assertCommandIdentities (get c ''runId'') (get c ''workflowId'') g = Inr rw" "es = [e]"
    and ev: "createEvent (runInstantiated c g (get c ''facts'')) (get c ''eventId'') (get c ''eventContentDigest'') sha = Inr e"
    by (auto simp: decideInstantiate_def bindE_eq_Inr validateRunGraph_eq_Inr canonicalCommandFacts_def
        snapshotCanonical_eq_Inr split: option.splits if_splits)
  let ?c = "runInstantiated c g (get c ''facts'')"
  have e: "is_json e" "eventContent e = Inr (Obj ?c)" "contentSealed sha e (Obj ?c)"
      "\<forall>k\<in>set instantiatedKeys. get e k = get (Obj ?c) k"
    using created_event [OF ev, of instantiatedKeys] by (auto simp: runInstantiated_def instantiatedKeys_def isInstantiation_def)
  then have f: "get e ''type'' = Str (lit ''run-instantiated'')" "get e ''sequence'' = get c ''sequence''"
      "get e ''occurredAt'' = get c ''occurredAt''" "get e ''runId'' = get c ''runId''"
      "get e ''workflowId'' = get c ''workflowId''" "get e ''graph'' = encGraph g"
      "get e ''revisionDigest'' = Str (revisionDigest g)" "get e ''facts'' = get c ''facts''"
    by (simp_all add: instantiatedKeys_def runInstantiated_def)
  then have "isInstantiation e" "get e (revisionField e) = Str (revisionDigest g)"
    by (simp_all add: isInstantiation_def revisionField_def)
  with decided_sealed [OF d(2-4) e(1-3) f(2-6)] d f show ?thesis by (auto simp: firstEvent_def)
qed

lemma decided_revision:
  assumes "decideRevision st c sha = Inr es"
  obtains s e g where "st = Some s" "es = [e]" "validateWorkflowGraph (get c ''graph'') sha = Inr g"
    "eventGraph sha e = Some g" "sealedEvent sha e" "\<not> isInstantiation e" "get e ''eventId'' \<notin> Str ` set (eventIds s)"
    "sequenceOf e = lastSequence s + 1" "get e ''runId'' = Str (runIdOf s)" "get e ''workflowId'' = Str (runWorkflow s)"
    "get e ''beforeRevisionDigest'' = Str (runRevision s)" "get e ''afterRevisionDigest'' \<noteq> Str (runRevision s)"
    "get e ''facts'' = get c ''facts''"
proof -
  from assms obtain s g e rw where d: "st = Some s" "assertCommandEnvelope c = Inr (lastSequence s + 1)"
      "validateWorkflowGraph (get c ''graph'') sha = Inr g"
      "assertCommandIdentities (get c ''runId'') (get c ''workflowId'') g = Inr rw" "es = [e]"
    and st: "get c ''runId'' = Str (runIdOf s)" "get c ''workflowId'' = Str (runWorkflow s)"
      "get c ''eventId'' \<notin> Str ` set (eventIds s)" "revisionDigest g \<noteq> runRevision s"
    and ev: "createEvent (graphRevisionAccepted c s g (get c ''facts'')) (get c ''eventId'') (get c ''eventContentDigest'') sha = Inr e"
    by (auto simp: decideRevision_def bindE_eq_Inr validateRunGraph_eq_Inr canonicalCommandFacts_def stateIdentities_eq_Inr
        snapshotCanonical_eq_Inr split: option.splits if_splits)
  let ?c = "graphRevisionAccepted c s g (get c ''facts'')"
  have e: "e = Obj (?c @ [(lit ''eventId'', get c ''eventId''), (lit ''contentDigest'', get c ''eventContentDigest'')])"
      "is_json e" "eventContent e = Inr (Obj ?c)" "contentSealed sha e (Obj ?c)"
      "\<forall>k\<in>set revisionKeys. get e k = get (Obj ?c) k"
    using created_event [OF ev, of revisionKeys] by (auto simp: graphRevisionAccepted_def revisionKeys_def)
  then have f: "get e ''type'' = Str (lit ''graph-revision-accepted'')" "get e ''sequence'' = get c ''sequence''"
      "get e ''occurredAt'' = get c ''occurredAt''" "get e ''runId'' = get c ''runId''"
      "get e ''workflowId'' = get c ''workflowId''" "get e ''graph'' = encGraph g"
      "get e ''beforeRevisionDigest'' = Str (runRevision s)" "get e ''afterRevisionDigest'' = Str (revisionDigest g)"
      "get e ''facts'' = get c ''facts''"
    by (simp_all add: revisionKeys_def graphRevisionAccepted_def)
  have i: "get e ''eventId'' = get c ''eventId''" unfolding e(1) by (simp add: graphRevisionAccepted_def)
  from f have ni: "\<not> isInstantiation e" "get e (revisionField e) = Str (revisionDigest g)"
    by (simp_all add: isInstantiation_def revisionField_def)
  from decided_sealed [OF d(2-4) e(2-4) f(2-6) ni(2)] show thesis
    by (intro that [of s e g]) (use d st f i ni in simp_all)
qed

lemma state_of_log:
  assumes "validLog sha log"
  shows "lastSequence (logState sha log) = int (length log)"
    "eventIds (logState sha log) = map (\<lambda>e. fieldText e ''eventId'') log"
    "Str ` set (eventIds (logState sha log)) = (\<lambda>e. get e ''eventId'') ` set log"
    "Str (runIdOf (logState sha log)) = get (last log) ''runId''"
    "Str (runWorkflow (logState sha log)) = get (last log) ''workflowId''"
    "Str (runRevision (logState sha log)) = get (last log) (revisionField (last log))"
proof -
  from assms have s: "sealedEvent sha (last log)" "\<forall>e\<in>set log. sealedEvent sha e" by (auto simp: validLog_def)
  show "lastSequence (logState sha log) = int (length log)"
    by (simp add: logState_def freezeState_def Let_def)
  show ids: "eventIds (logState sha log) = map (\<lambda>e. fieldText e ''eventId'') log"
    by (simp add: logState_def freezeState_def Let_def)
  show "Str ` set (eventIds (logState sha log)) = (\<lambda>e. get e ''eventId'') ` set log"
    unfolding ids set_map image_image by (intro image_cong) (use s(2) sealed_texts(1) [symmetric] in blast)+
  show "Str (runIdOf (logState sha log)) = get (last log) ''runId''"
    "Str (runWorkflow (logState sha log)) = get (last log) ''workflowId''"
    "Str (runRevision (logState sha log)) = get (last log) (revisionField (last log))"
    by (simp_all add: sealed_texts [OF s(1)] logState_def freezeState_def Let_def)
qed

definition currentState :: "sha256 \<Rightarrow> val list \<Rightarrow> runRecord option" where
  "currentState sha log = (case replayRunEvents log sha of Inl _ \<Rightarrow> None | Inr s \<Rightarrow> Some s)"

lemma currentState_simps:
  "currentState sha [] = None" "validLog sha log \<Longrightarrow> currentState sha log = Some (logState sha log)"
proof -
  show "currentState sha [] = None" by (simp add: currentState_def replayRunEvents_def)
  assume "validLog sha log"
  then have "replayRunEvents log sha = Inr (logState sha log)" by (simp add: replay_valid)
  then show "currentState sha log = Some (logState sha log)" by (simp add: currentState_def)
qed

lemma decide_extends:
  assumes "log = [] \<or> validLog sha log" "decideRunCommand (currentState sha log) c sha = Inr es"
  shows "\<exists>e g. es = [e] \<and> validLog sha (log @ [e]) \<and> validateWorkflowGraph (get c ''graph'') sha = Inr g \<and>
     eventGraph sha e = Some g \<and> get e ''facts'' = get c ''facts''"
proof (cases "get c ''type'' = Str (lit ''instantiate-run'')")
  case True
  with assms(2) have "decideInstantiate (currentState sha log) c sha = Inr es" by (simp add: decideRunCommand_def)
  from decided_instantiation [OF this] obtain e g where "currentState sha log = None" "es = [e]"
      "validateWorkflowGraph (get c ''graph'') sha = Inr g" "eventGraph sha e = Some g" "sealedEvent sha e" "firstEvent e"
      "get e ''facts'' = get c ''facts''" by blast
  moreover from this assms(1) have "log = []" by (auto simp: currentState_simps)
  ultimately show ?thesis using validLog_snoc [of sha log e] by auto
next
  case False
  with assms(2) have "decideRevision (currentState sha log) c sha = Inr es" by (simp add: decideRunCommand_def split: if_splits)
  then obtain s e g where d: "currentState sha log = Some s" "es = [e]"
      "validateWorkflowGraph (get c ''graph'') sha = Inr g" "eventGraph sha e = Some g" "sealedEvent sha e" "\<not> isInstantiation e"
      "get e ''eventId'' \<notin> Str ` set (eventIds s)" "sequenceOf e = lastSequence s + 1" "get e ''runId'' = Str (runIdOf s)"
      "get e ''workflowId'' = Str (runWorkflow s)" "get e ''beforeRevisionDigest'' = Str (runRevision s)"
      "get e ''afterRevisionDigest'' \<noteq> Str (runRevision s)" "get e ''facts'' = get c ''facts''" by (rule decided_revision)
  from d(1) assms(1) have l: "log \<noteq> []" "validLog sha log" by (auto simp: currentState_simps)
  then have s: "s = logState sha log" using d(1) by (simp add: currentState_simps)
  have "validLog sha (log @ [e])" unfolding validLog_snoc continues_def
    using l d(5-12) state_of_log [OF l(2)] by (simp add: s valid_sequences)
  with d show ?thesis by blast
qed

section \<open>Equal identities\<close>




section \<open>The properties\<close>

text \<open>C6. Replaying a log succeeds exactly on the valid logs: every event carries the identity and the
  digest of its content and a graph that validates, the first instantiates the run, every later one
  has the next sequence number, the same run and workflow and a new revision on top of the one
  before it, and no identity occurs twice. The state it returns is read off the last event and the
  list of identities.\<close>

theorem replay_exact:
  "replayRunEvents es sha = Inr s \<longleftrightarrow> validLog sha es \<and> s = logState sha es"
  by (rule replay_valid)

text \<open>C9. A command that is accepted in the state of a log yields one event, and the log extended by it
  replays: to a state with the next sequence number, a well-formed graph, the graph of the command,
  and the facts of the command on the event. No accepted command can leave a log that is refused
  when the run is rebuilt.\<close>

theorem decided_replays:
  assumes "log = [] \<or> (\<exists>s. replayRunEvents log sha = Inr s)"
    and "decideRunCommand (currentState sha log) c sha = Inr es"
  shows "\<exists>e s. es = [e] \<and> replayRunEvents (log @ es) sha = Inr s \<and> lastSequence s = int (length log) + 1 \<and>
     eventIds s = map (\<lambda>e. fieldText e ''eventId'') (log @ [e]) \<and> get e ''facts'' = get c ''facts'' \<and>
     validateWorkflowGraph (get c ''graph'') sha = Inr (runGraph s) \<and> wellFormedGraph (runGraph s) \<and>
     runRevision s = revisionDigest (runGraph s)"
proof -
  from assms(1) have "log = [] \<or> validLog sha log" by (auto simp: replay_valid)
  from decide_extends [OF this assms(2)] obtain e g where e: "es = [e]" "validLog sha (log @ [e])"
      "validateWorkflowGraph (get c ''graph'') sha = Inr g" "eventGraph sha e = Some g" "get e ''facts'' = get c ''facts''" by blast
  then have "replayRunEvents (log @ es) sha = Inr (logState sha (log @ [e]))" by (simp add: replay_valid)
  moreover have "runGraph (logState sha (log @ [e])) = g" "runRevision (logState sha (log @ [e])) = revisionDigest g"
    using e(4) by (simp_all add: logState_def freezeState_def Let_def)
  ultimately show ?thesis using e state_of_log(1,2) [OF e(2)] validate_canonical(5) [OF e(3)] by auto
qed


section \<open>An example\<close>

definition demoRunCommand :: "val \<Rightarrow> val" where
  "demoRunCommand facts = Obj
     [(lit ''type'', Str (lit ''instantiate-run'')), (lit ''eventId'', Str (lit ''event_'' @ replicate 64 48)),
      (lit ''eventContentDigest'', Str (replicate 64 48)), (lit ''sequence'', Num (Whole 1)),
      (lit ''occurredAt'', Str (lit ''2026-01-01T00:00:00.000Z'')), (lit ''runId'', Str (lit ''run_r'')),
      (lit ''workflowId'', Str (lit ''workflow_w'')), (lit ''graph'', encGraph (demoGraph (Str (lit ''Done'')))),
      (lit ''facts'', facts)]"

lemma demo_run_values:
  "isIdentity RunKind (Str (lit ''run_r''))" "millisPattern (lit ''2026-01-01T00:00:00.000Z'')"
  "sha256Pattern (replicate 64 48)"
  by code_simp+

lemma demo_graph_validates:
  "validateWorkflowGraph (encGraph (demoGraph (Str (lit ''Done'')))) flatSha = Inr (demoGraph (Str (lit ''Done'')))"
  by (rule validate_enc(1) [OF demo_typed [OF demo_title(1)] demo_consistent, of "demoGraph (Str (lit ''Done''))"])
    (simp_all add: buildGraph_eq_Inr demoGraph_def sortNodes_def node_set textTitle_def demoPhase_def demoTaskDef_def
      demoCriterion_def demoWorkflow_def)

lemma demo_decides:
  assumes "is_json f"
  shows "\<exists>e. decideRunCommand None (demoRunCommand f) flatSha = Inr [e]"
proof -
  let ?g = "demoGraph (Str (lit ''Done''))" and ?d = "demoRunCommand f"
  have g: "get ?d ''type'' = Str (lit ''instantiate-run'')"
      "get ?d ''eventId'' = Str (lit ''event_'' @ replicate 64 48)"
      "get ?d ''eventContentDigest'' = Str (replicate 64 48)" "get ?d ''sequence'' = Num (Whole 1)"
      "get ?d ''occurredAt'' = Str (lit ''2026-01-01T00:00:00.000Z'')" "get ?d ''runId'' = Str (lit ''run_r'')"
      "get ?d ''workflowId'' = Str (lit ''workflow_w'')" "get ?d ''graph'' = encGraph ?g"
      "get ?d ''facts'' = f"
    by (simp_all add: demoRunCommand_def)
  have "is_json (encGraph ?g)" by (rule validate_canonical(1) [OF demo_graph_validates])
  then have j: "is_json (Obj (runInstantiated ?d ?g f))"
      "lit ''eventId'' \<notin> fst ` set (runInstantiated ?d ?g f)" "lit ''contentDigest'' \<notin> fst ` set (runInstantiated ?d ?g f)"
    by (auto simp: runInstantiated_def g demoGraph_def wf_num_def assms)
  have "assertCommandEnvelope ?d = Inr 1"
    by (simp add: assertCommandEnvelope_def g assertSequence_def assertRunTimestamp_def demo_run_values event_identity safe_bounds maxSafe_def)
  moreover have "assertCommandIdentities (Str (lit ''run_r'')) (Str (lit ''workflow_w'')) ?g = Inr (lit ''run_r'', lit ''workflow_w'')"
    by (simp add: assertCommandIdentities_def strIf_def demo_run_values demo_identities) (simp add: demoGraph_def)
  ultimately show ?thesis using j
    by (simp add: assms decideRunCommand_def decideInstantiate_def g validateRunGraph_def demo_graph_validates canonicalCommandFacts_def
        snapshotCanonical_def createEvent_def assertEventMetadata_def digestRunEventContent_def demo_run_values event_identity)
qed

theorem decided_replays_witness:
  "\<exists>e s. decideRunCommand None (demoRunCommand Null) flatSha = Inr [e] \<and> replayRunEvents [e] flatSha = Inr s \<and>
     lastSequence s = 1 \<and> wellFormedGraph (runGraph s)"
proof -
  from demo_decides [of Null] obtain e where e: "decideRunCommand None (demoRunCommand Null) flatSha = Inr [e]" by auto
  then show ?thesis using decided_replays [of "[]" flatSha "demoRunCommand Null" "[e]"] by (auto simp: currentState_simps)
qed



end
