(* ===== verification/Readiness.thy ===== *)
theory Readiness
  imports GraphCodec
begin

text \<open>
  packages/kernel/src/readiness.ts: the tasks of a graph that can be started, derived from one
  status fact per task.
\<close>

datatype taskStatus = TaskPending | TaskActive | TaskFailed | TaskCancelled
  | TaskAccepted jstr "jstr option"

record taskFact =
  factTask :: jstr
  factGeneration :: int
  factStatus :: taskStatus

record readyTask =
  readyId :: jstr
  readyGeneration :: int

record readinessFrontier =
  frontierRevision :: jstr
  frontierBarrier :: "jstr option"
  frontierTasks :: "readyTask list"
  frontierDigest :: jstr

section \<open>Status facts\<close>

text \<open>\<open>new Map(xs.map((x) => [key(x), x]))\<close>: the last entry of a key wins.\<close>

definition mapById :: "('a \<Rightarrow> jstr) \<Rightarrow> 'a list \<Rightarrow> jstr \<Rightarrow> 'a option" where
  "mapById key xs k = map_of (rev (map (\<lambda>x. (key x, x)) xs)) k"

definition nonacceptedStatus :: "val \<Rightarrow> taskStatus option" where
  "nonacceptedStatus v =
     (if v = Str (lit ''pending'') then Some TaskPending else if v = Str (lit ''active'') then Some TaskActive
      else if v = Str (lit ''failed'') then Some TaskFailed else if v = Str (lit ''cancelled'') then Some TaskCancelled
      else None)"

definition acceptedStatus :: "val \<Rightarrow> exn + taskStatus" where
  "acceptedStatus v =
     bindE (assertExactKeys v ([''taskId'', ''definitionGeneration'', ''status'', ''accountingAssessmentDigest''] @
        (if hasOwn v (lit ''integrationBarrierDigest'') then [''integrationBarrierDigest''] else [])) ReadinessError) (\<lambda>_.
     bindE (digestOf ReadinessError (get v ''accountingAssessmentDigest'')) (\<lambda>a.
     bindE (case optionalOf v ''integrationBarrierDigest'' of None \<Rightarrow> Inr None
            | Some b \<Rightarrow> bindE (digestOf ReadinessError b) (\<lambda>d. Inr (Some d))) (\<lambda>b.
       Inr (TaskAccepted a b))))"

definition validateTaskStatusFact :: "(jstr \<Rightarrow> taskDef option) \<Rightarrow> val \<Rightarrow> exn + taskFact" where
  "validateTaskStatusFact taskById v =
     (if \<not> isRecord v then Inl ReadinessError else
      bindE (strIf (isIdentity TaskKind) ReadinessError (get v ''taskId'')) (\<lambda>t.
      bindE (generationOf ReadinessError (get v ''definitionGeneration'')) (\<lambda>n.
      case taskById t of
        None \<Rightarrow> Inl ReadinessError
      | Some d \<Rightarrow>
          if defGeneration d \<noteq> n then Inl ReadinessError
          else bindE (if get v ''status'' = Str (lit ''accepted'') then acceptedStatus v
                 else case nonacceptedStatus (get v ''status'') of
                   None \<Rightarrow> Inl ReadinessError
                 | Some s \<Rightarrow> bindE (assertExactKeys v [''taskId'', ''definitionGeneration'', ''status''] ReadinessError) (\<lambda>_. Inr s))
               (\<lambda>s. Inr \<lparr>factTask = t, factGeneration = n, factStatus = s\<rparr>))))"

definition validateTaskStatusFacts :: "val \<Rightarrow> workflowGraph \<Rightarrow> exn + taskFact list" where
  "validateTaskStatusFacts v g =
     bindE (snapshotCanonical ReadinessError v) (\<lambda>s. case s of
       Arr xs \<Rightarrow>
         (let tasks = tasksOf (graphNodes g)
          in bindE (mapE (validateTaskStatusFact (mapById defId tasks)) xs) (\<lambda>facts.
             if \<not> distinct (map factTask facts) then Inl ReadinessError
             else if length facts \<noteq> length tasks \<or>
                 list_ex (\<lambda>t. \<not> list_ex (\<lambda>f. factTask f = defId t) facts) tasks then Inl ReadinessError
             else Inr (sort_key factTask facts)))
     | _ \<Rightarrow> Inl ReadinessError)"

section \<open>The frontier\<close>

definition isAccepted :: "jstr option \<Rightarrow> taskFact option \<Rightarrow> bool" where
  "isAccepted barrier f = (case f of None \<Rightarrow> False | Some f \<Rightarrow>
     (case factStatus f of TaskAccepted _ b \<Rightarrow> barrier = None \<or> b = barrier | _ \<Rightarrow> False))"

definition isPending :: "taskFact option \<Rightarrow> bool" where
  "isPending f = (case f of None \<Rightarrow> False | Some f \<Rightarrow> factStatus f = TaskPending)"

definition readyTasks :: "workflowGraph \<Rightarrow> taskFact list \<Rightarrow> jstr option \<Rightarrow> readyTask list" where
  "readyTasks g facts barrier =
     (let factsByTask = mapById factTask facts;
          tasks = tasksOf (graphNodes g);
          superseded = concat (map supersedes tasks)
      in sort_key readyId (map (\<lambda>d. \<lparr>readyId = defId d, readyGeneration = defGeneration d\<rparr>)
           (filter (\<lambda>d. list_all (\<lambda>x. isAccepted barrier (factsByTask x)) (dependsOn d))
             (filter (\<lambda>d. isPending (factsByTask (defId d)))
               (filter (\<lambda>d. defId d \<notin> set superseded) tasks)))))"

definition frontierApiVersion :: val where
  "frontierApiVersion = Str (lit ''senawa.dev/readiness-frontier/v1'')"

definition frontierContent :: "jstr \<Rightarrow> jstr option \<Rightarrow> readyTask list \<Rightarrow> (jstr \<times> val) list" where
  "frontierContent revision barrier tasks =
     [(lit ''apiVersion'', frontierApiVersion), (lit ''graphRevisionDigest'', Str revision)] @
     optionalField ''requiredIntegrationBarrierDigest'' Str barrier @
     [(lit ''tasks'', Arr (map (\<lambda>t. Obj [(lit ''taskId'', Str (readyId t)),
         (lit ''definitionGeneration'', Num (Whole (readyGeneration t)))]) tasks))]"

definition encFrontier :: "readinessFrontier \<Rightarrow> val" where
  "encFrontier f = Obj (frontierContent (frontierRevision f) (frontierBarrier f) (frontierTasks f) @
     [(lit ''frontierDigest'', Str (frontierDigest f))])"

definition deriveReadyTaskFrontier :: "val \<Rightarrow> val \<Rightarrow> sha256 \<Rightarrow> val \<Rightarrow> exn + readinessFrontier" where
  "deriveReadyTaskFrontier graphValue factsValue sha requiredBarrier =
     bindE (validateWorkflowGraph graphValue sha) (\<lambda>g.
     bindE (validateTaskStatusFacts factsValue g) (\<lambda>facts.
     bindE (if requiredBarrier = Undef then Inr None
            else bindE (digestOf ReadinessError requiredBarrier) (\<lambda>b. Inr (Some b))) (\<lambda>barrier.
     let tasks = readyTasks g facts barrier;
         content = frontierContent (revisionDigest g) barrier tasks
     in bindE (canonicalDigest (Obj content) sha) (\<lambda>d.
          Inr \<lparr>frontierRevision = revisionDigest g, frontierBarrier = barrier, frontierTasks = tasks, frontierDigest = d\<rparr>))))"

end
