(* ===== verification/ReadinessProperties.thy ===== *)
theory ReadinessProperties
  imports Readiness GraphProperties
begin

text \<open>
  The properties of readiness.ts: what the frontier contains, that it never dries up while tasks can
  still be started, and that the order of the facts does not matter.
\<close>

section \<open>Facts and tasks\<close>

lemma mapById_Some: "distinct (map key xs) \<Longrightarrow> mapById key xs k = Some x \<longleftrightarrow> x \<in> set xs \<and> key x = k"
proof -
  assume d: "distinct (map key xs)"
  let ?ps = "map (\<lambda>x. (key x, x)) xs"
  from d have "distinct (map fst ?ps)" by (simp add: o_def)
  from map_of_rev_distinct [OF this] map_of_eq_Some_iff [OF this] show ?thesis
    by (auto simp: mapById_def)
qed

lemma validated_tasks:
  assumes "validateWorkflowGraph v sha = Inr g"
  defines "ts \<equiv> tasksOf (graphNodes g)"
  shows "distinct (map defId ts)" "acyclic (relationIn ts dependsOn)"
    "\<forall>d\<in>set ts. set (dependsOn d) \<subseteq> ids ts \<and> set (supersedes d) \<subseteq> ids ts"
proof -
  from assms(1) obtain i where "compileWorkflowGraph i sha = Inr g" by (rule validate_parts)
  then obtain w ps us cs where d: "consistentDefs w ps us cs" "buildGraph w ps us cs sha = Inr g" by (rule compile_parts)
  have "mset (graphNodes g) = mset (allNodes w ps us cs)" using d(2) by (simp add: buildGraph_eq_Inr sortNodes_def)
  from definitionsOf_perm(2-4) [OF this] have "mset ps = mset (phasesOf (graphNodes g))" "mset us = mset ts"
      "mset cs = mset (criteriaOf (graphNodes g))" by (simp_all add: definitionsOf_all ts_def)
  from consistentDefs_perm [OF this] d(1) have "consistentDefs w (phasesOf (graphNodes g)) ts (criteriaOf (graphNodes g))" by blast
  then show "distinct (map defId ts)" "acyclic (relationIn ts dependsOn)"
    "\<forall>d\<in>set ts. set (dependsOn d) \<subseteq> ids ts \<and> set (supersedes d) \<subseteq> ids ts"
    unfolding consistentDefs_def by simp_all
qed

definition hasStatus :: "taskFact list \<Rightarrow> jstr \<Rightarrow> (taskStatus \<Rightarrow> bool) \<Rightarrow> bool" where
  "hasStatus facts t P \<longleftrightarrow> (\<exists>f\<in>set facts. factTask f = t \<and> P (factStatus f))"

definition acceptedUnder :: "jstr option \<Rightarrow> taskStatus \<Rightarrow> bool" where
  "acceptedUnder barrier s \<longleftrightarrow> (\<exists>a b. s = TaskAccepted a b \<and> (barrier \<noteq> None \<longrightarrow> b = barrier))"

lemma hasStatus_read:
  assumes "distinct (map factTask facts)"
  shows "hasStatus facts t P \<longleftrightarrow> (case mapById factTask facts t of None \<Rightarrow> False | Some f \<Rightarrow> P (factStatus f))"
proof -
  have "hasStatus facts t P \<longleftrightarrow> (\<exists>f. mapById factTask facts t = Some f \<and> P (factStatus f))"
    using mapById_Some [OF assms] by (auto simp: hasStatus_def)
  then show ?thesis by (cases "mapById factTask facts t") simp_all
qed

lemma status_reads:
  assumes "distinct (map factTask facts)"
  shows "isPending (mapById factTask facts t) \<longleftrightarrow> hasStatus facts t (\<lambda>s. s = TaskPending)"
    "isAccepted barrier (mapById factTask facts t) \<longleftrightarrow> hasStatus facts t (acceptedUnder barrier)"
  unfolding hasStatus_read [OF assms] isPending_def isAccepted_def acceptedUnder_def
  by (auto split: option.splits taskStatus.splits)

lemma fact_eq_Inr:
  "validateTaskStatusFact byId v = Inr f \<Longrightarrow> \<exists>d. byId (factTask f) = Some d \<and> defGeneration d = factGeneration f"
  by (auto simp: validateTaskStatusFact_def bindE_eq_Inr split: if_splits option.splits)

text \<open>Accepted facts are one fact per task of the graph, of the generation of the task.\<close>

lemma facts_account:
  assumes "validateTaskStatusFacts v g = Inr facts" "distinct (map defId (tasksOf (graphNodes g)))"
  shows "distinct (map factTask facts)" "factTask ` set facts = ids (tasksOf (graphNodes g))"
    "\<forall>f\<in>set facts. \<forall>d\<in>set (tasksOf (graphNodes g)). factTask f = defId d \<longrightarrow> factGeneration f = defGeneration d"
proof -
  let ?ts = "tasksOf (graphNodes g)"
  from assms(1) obtain xs fs where fs: "mapE (validateTaskStatusFact (mapById defId ?ts)) xs = Inr fs" "distinct (map factTask fs)"
      "\<forall>d\<in>set ?ts. \<exists>f\<in>set fs. factTask f = defId d" and sorted: "facts = sort_key factTask fs"
    by (auto simp: validateTaskStatusFacts_def bindE_eq_Inr snapshotCanonical_eq_Inr Let_def list_ex_iff
        split: val.splits if_splits)
  have gen: "\<exists>d\<in>set ?ts. defId d = factTask f \<and> defGeneration d = factGeneration f" if "f \<in> set fs" for f
    using mapE_in_set [OF fs(1) that] fact_eq_Inr mapById_Some [OF assms(2)] by blast
  show "distinct (map factTask facts)"
    using fs(2) unfolding sorted by (metis mset_map mset_sort mset_eq_imp_distinct_iff)
  show "factTask ` set facts = ids ?ts" using fs(3) gen by (force simp: sorted)
  show "\<forall>f\<in>set facts. \<forall>d\<in>set ?ts. factTask f = defId d \<longrightarrow> factGeneration f = defGeneration d"
  proof (intro ballI impI)
    fix f d assume f: "f \<in> set facts" and "d \<in> set ?ts" "factTask f = defId d"
    moreover from f gen [of f] obtain d' where "d' \<in> set ?ts" "defId d' = factTask f" "defGeneration d' = factGeneration f"
      unfolding sorted by auto
    ultimately have "d' = d" using assms(2) by (simp add: distinct_map inj_on_def)
    then show "factGeneration f = defGeneration d" using \<open>defGeneration d' = factGeneration f\<close> by simp
  qed
qed

definition superseded :: "workflowGraph \<Rightarrow> jstr \<Rightarrow> bool" where
  "superseded g t \<longleftrightarrow> (\<exists>d\<in>set (tasksOf (graphNodes g)). t \<in> set (supersedes d))"

definition canStart :: "workflowGraph \<Rightarrow> taskFact list \<Rightarrow> jstr option \<Rightarrow> taskDef \<Rightarrow> bool" where
  "canStart g facts barrier d \<longleftrightarrow> d \<in> set (tasksOf (graphNodes g)) \<and> \<not> superseded g (defId d) \<and>
     hasStatus facts (defId d) (\<lambda>s. s = TaskPending) \<and>
     (\<forall>x\<in>set (dependsOn d). hasStatus facts x (acceptedUnder barrier))"

lemma ready_exact:
  assumes "distinct (map factTask facts)"
  shows "r \<in> set (readyTasks g facts barrier) \<longleftrightarrow>
     (\<exists>d. canStart g facts barrier d \<and> r = \<lparr>readyId = defId d, readyGeneration = defGeneration d\<rparr>)"
  using status_reads [OF assms]
  by (auto simp: readyTasks_def Let_def canStart_def superseded_def list_all_iff image_iff)

lemma ready_sorted:
  assumes "distinct (map defId (tasksOf (graphNodes g)))"
  shows "sorted (map readyId (readyTasks g facts barrier))" "distinct (map readyId (readyTasks g facts barrier))"
proof -
  show "sorted (map readyId (readyTasks g facts barrier))" by (simp add: readyTasks_def Let_def)
  have "mset (map readyId (sort_key readyId xs)) = mset (map readyId xs)" for xs by simp
  note perm = mset_eq_imp_distinct_iff [OF this]
  show "distinct (map readyId (readyTasks g facts barrier))"
    unfolding readyTasks_def Let_def perm using assms by (simp add: o_def distinct_map_filter)
qed

lemma frontier_parts:
  assumes "deriveReadyTaskFrontier gv fv sha rb = Inr f"
  obtains g facts where "validateWorkflowGraph gv sha = Inr g" "validateTaskStatusFacts fv g = Inr facts"
    "rb = Undef \<and> frontierBarrier f = None \<or> (\<exists>b. rb = Str b \<and> sha256Pattern b \<and> frontierBarrier f = Some b)"
    "frontierTasks f = readyTasks g facts (frontierBarrier f)" "frontierRevision f = revisionDigest g"
    "frontierDigest f = sha (canonicalBytes (Obj (frontierContent (revisionDigest g) (frontierBarrier f) (frontierTasks f))))"
  using assms by (auto simp: deriveReadyTaskFrontier_def bindE_eq_Inr digestOf_eq_Inr Let_def canonicalDigest_eq_Inr
      split: if_splits)

section \<open>The properties\<close>

text \<open>C12. The frontier holds, once each and in the order of their identities, exactly the tasks of the
  graph that no task supersedes, whose fact says pending, and whose dependencies are all accepted
  (under the required barrier, when one is required), with the generation of their definition. The
  facts it is derived from are one per task of the graph, of the generation of the task.\<close>

theorem frontier_exact:
  assumes "deriveReadyTaskFrontier gv fv sha rb = Inr f"
  shows "\<exists>g facts. validateWorkflowGraph gv sha = Inr g \<and> validateTaskStatusFacts fv g = Inr facts \<and>
     distinct (map factTask facts) \<and> factTask ` set facts = ids (tasksOf (graphNodes g)) \<and>
     (\<forall>x\<in>set facts. \<forall>d\<in>set (tasksOf (graphNodes g)). factTask x = defId d \<longrightarrow> factGeneration x = defGeneration d) \<and>
     (\<forall>r. r \<in> set (frontierTasks f) \<longleftrightarrow>
        (\<exists>d. canStart g facts (frontierBarrier f) d \<and> r = \<lparr>readyId = defId d, readyGeneration = defGeneration d\<rparr>)) \<and>
     sorted (map readyId (frontierTasks f)) \<and> distinct (map readyId (frontierTasks f)) \<and>
     frontierRevision f = revisionDigest g"
proof -
  from assms obtain g facts where p: "validateWorkflowGraph gv sha = Inr g" "validateTaskStatusFacts fv g = Inr facts"
      "frontierTasks f = readyTasks g facts (frontierBarrier f)" "frontierRevision f = revisionDigest g" by (rule frontier_parts)
  note d = validated_tasks(1) [OF p(1)]
  note a = facts_account [OF p(2) d]
  from p a ready_exact [OF a(1)] ready_sorted [OF d] show ?thesis by (simp only:) blast
qed

text \<open>C22. The frontier only dries up for a reason: when it is empty although some task is pending and not
  superseded, one such task depends on a task that is not accepted (under the required barrier) and
  is not itself a pending task that may still become ready. Dependencies alone never deadlock.\<close>

theorem empty_frontier_blocked:
  assumes "deriveReadyTaskFrontier gv fv sha rb = Inr f" "frontierTasks f = []"
    and "validateWorkflowGraph gv sha = Inr g" "validateTaskStatusFacts fv g = Inr facts"
    and "d \<in> set (tasksOf (graphNodes g))" "\<not> superseded g (defId d)" "hasStatus facts (defId d) (\<lambda>s. s = TaskPending)"
  shows "\<exists>d\<in>set (tasksOf (graphNodes g)). \<not> superseded g (defId d) \<and> hasStatus facts (defId d) (\<lambda>s. s = TaskPending) \<and>
     (\<exists>x\<in>set (dependsOn d). \<not> hasStatus facts x (acceptedUnder (frontierBarrier f)) \<and>
        \<not> (hasStatus facts x (\<lambda>s. s = TaskPending) \<and> \<not> superseded g x))"
proof (rule ccontr)
  let ?ts = "tasksOf (graphNodes g)" and ?R = "relationIn (tasksOf (graphNodes g)) dependsOn"
  let ?Q = "{defId d | d. d \<in> set ?ts \<and> \<not> superseded g (defId d) \<and> hasStatus facts (defId d) (\<lambda>s. s = TaskPending)}"
  assume "\<not> ?thesis"
  then have dep: "hasStatus facts x (acceptedUnder (frontierBarrier f)) \<or> hasStatus facts x (\<lambda>s. s = TaskPending) \<and> \<not> superseded g x"
    if "d \<in> set ?ts" "\<not> superseded g (defId d)" "hasStatus facts (defId d) (\<lambda>s. s = TaskPending)" "x \<in> set (dependsOn d)" for d x
    using that by blast
  note t = validated_tasks [OF assms(3)]
  have "?R \<subseteq> ids ?ts \<times> ids ?ts" by (auto simp: relationIn_def)
  then have "finite ?R" by (rule finite_subset) simp
  then have wf: "wf (?R\<inverse>)" using t(2) by (rule finite_acyclic_wf_converse)
  have q: "defId d \<in> ?Q" using assms(5-7) by blast
  obtain z where z: "z \<in> ?Q" "\<And>y. (y, z) \<in> ?R\<inverse> \<Longrightarrow> y \<notin> ?Q" by (rule wfE_min [OF wf q]) (rule that)
  then obtain e where e: "e \<in> set ?ts" "\<not> superseded g (defId e)" "hasStatus facts (defId e) (\<lambda>s. s = TaskPending)" "z = defId e" by blast
  have "hasStatus facts x (acceptedUnder (frontierBarrier f))" if x: "x \<in> set (dependsOn e)" for x
  proof -
    have i: "x \<in> ids ?ts" using t(3) e(1) x by blast
    then have "(z, x) \<in> ?R" using e x by (auto simp: relationIn_def)
    then have "x \<notin> ?Q" using z(2) by blast
    moreover from i obtain d' where "d' \<in> set ?ts" "defId d' = x" by auto
    ultimately show ?thesis using dep [OF e(1-3) x] by blast
  qed
  with e have "canStart g facts (frontierBarrier f) e" by (simp add: canStart_def)
  moreover have "frontierTasks f = readyTasks g facts (frontierBarrier f)"
    using assms(1) by (rule frontier_parts) (use assms(3,4) in simp)
  ultimately show False
    using assms(2) ready_exact [OF facts_account(1) [OF assms(4) t(1)], of _ g "frontierBarrier f"] by fastforce
qed

text \<open>The frontier does not depend on the order of the status facts.\<close>

theorem frontier_order_independent:
  assumes "deriveReadyTaskFrontier gv (Arr xs) sha rb = Inr f" "mset ys = mset xs"
  shows "deriveReadyTaskFrontier gv (Arr ys) sha rb = Inr f"
proof -
  have "validateTaskStatusFacts (Arr ys) g = Inr facts" if v: "validateTaskStatusFacts (Arr xs) g = Inr facts" for g facts
  proof -
    let ?f = "validateTaskStatusFact (mapById defId (tasksOf (graphNodes g)))"
    from v obtain fs where fs: "mapE ?f xs = Inr fs" "distinct (map factTask fs)" "length fs = length (tasksOf (graphNodes g))"
        "\<forall>t\<in>set (tasksOf (graphNodes g)). \<exists>f\<in>set fs. factTask f = defId t" "facts = sort_key factTask fs" "\<forall>x\<in>set xs. is_json x"
      by (auto simp: validateTaskStatusFacts_def bindE_eq_Inr snapshotCanonical_eq_Inr Let_def list_ex_iff list_all_iff split: if_splits)
    from mapE_perm [OF fs(1) assms(2)] obtain fs' where fs': "mapE ?f ys = Inr fs'" "mset fs = mset fs'" by blast
    have "set fs = set fs'" "length fs = length fs'" "set ys = set xs" using fs'(2) assms(2) by (auto dest: mset_eq_setD mset_eq_length)
    moreover have "mset (map factTask fs) = mset (map factTask fs')" using fs'(2) by simp
    then have "distinct (map factTask fs')" using fs(2) mset_eq_imp_distinct_iff by blast
    moreover have "sort_key factTask fs = sort_key factTask fs'"
      using fs(2) by (intro sort_key_perm_eq fs'(2)) (simp add: distinct_map)
    ultimately show ?thesis using fs fs'(1)
      by (auto simp: validateTaskStatusFacts_def snapshotCanonical_def list_ex_iff list_all_iff)
  qed
  with assms(1) show ?thesis by (auto simp: deriveReadyTaskFrontier_def bindE_eq_Inr Let_def)
qed

section \<open>An example\<close>

text \<open>Two tasks, the second of which depends on the first.\<close>

definition demoTaskT :: taskDef where
  "demoTaskT = demoTaskDef\<lparr>defPolicy := \<lparr>policyCriteria = [],
     policyEvidence = \<lparr>policyMode = NoEvidence, policyRequirements = [], waiverAuthority = None\<rparr>\<rparr>\<rparr>"

definition demoTaskU :: taskDef where
  "demoTaskU = demoTaskT\<lparr>defId := lit ''task_u'', defKey := lit ''u'', dependsOn := [lit ''task_t'']\<rparr>"

definition demoPair :: workflowGraph where
  "demoPair = \<lparr>graphWorkflow = lit ''workflow_w'', revisionDigest = replicate 64 48,
     graphNodes = sortNodes (allNodes demoWorkflow [demoPhase] [demoTaskT, demoTaskU] []),
     graphEdges = sortEdges (createEdges [demoPhase] [demoTaskT, demoTaskU] [])\<rparr>"

definition demoFact :: "string \<Rightarrow> string \<Rightarrow> val" where
  "demoFact t s = Obj [(lit ''taskId'', Str (lit t)), (lit ''definitionGeneration'', Num (Whole 1)), (lit ''status'', Str (lit s))]"

lemma demo_task_ids: "isIdentity TaskKind (Str (lit ''task_u''))" "isConsumerKey (Str (lit ''u''))"
  by code_simp+

lemma demo_task_fields:
  "defId demoTaskT = lit ''task_t''" "defId demoTaskU = lit ''task_u''" "supersedes demoTaskT = []" "supersedes demoTaskU = []"
  "dependsOn demoTaskT = []" "dependsOn demoTaskU = [lit ''task_t'']" "defGeneration demoTaskT = 1" "defGeneration demoTaskU = 1"
  "parentId demoTaskT = lit ''phase_p''" "parentId demoTaskU = lit ''phase_p''" "defKey demoTaskT = lit ''t''"
  "defKey demoTaskU = lit ''u''" "policyCriteria (defPolicy demoTaskT) = []" "policyCriteria (defPolicy demoTaskU) = []"
  by (simp_all add: demoTaskT_def demoTaskU_def demoTaskDef_def)

lemma demo_pair_validates: "validateWorkflowGraph (encGraph demoPair) flatSha = Inr demoPair"
proof (rule validate_enc(1))
  have "okPhase flatSha demoPhase" "okWorkflow flatSha demoWorkflow"
    using demo_typed [OF demo_title(1)] by (simp_all add: typedIds_def)
  moreover have "okTask flatSha demoTaskT" "okTask flatSha demoTaskU"
    by (simp_all add: okDef_defs okCommon_def okIds_def digested_def demoTaskU_def demoTaskT_def demoTaskDef_def demo_task_ids
        demo_identities demo_graph_texts isParent_def safe_bounds
        maxSafe_def okCompletion_def okCriteria_def okEvidencePolicy_def okEvidenceRequirements_def
        encCompletionPolicy_def encEvidencePolicy_def encCriterionRequirement_def enumText_def optionalField_def)
  ultimately show "typedIds flatSha demoWorkflow [demoPhase] [demoTaskT, demoTaskU] []" by (simp add: typedIds_def)
  have "relationIn [demoTaskT, demoTaskU] dependsOn = {(lit ''task_u'', lit ''task_t'')}"
    by (auto simp: relationIn_def demo_task_fields)
  then have ac: "acyclic (relationIn [demoTaskT, demoTaskU] dependsOn)" by (auto intro!: acyclic_bipartite)
  show "consistentDefs demoWorkflow [demoPhase] [demoTaskT, demoTaskU] []"
    unfolding consistentDefs_def
    by (intro conjI; (rule ac | rule acyclic_empty_relation)?)
      (auto simp: demoWorkflow_def demoPhase_def demo_task_fields demo_identities demo_graph_texts
        supersedesNewer_def scopedKey_def ownsDeclared_def)
  show "buildGraph demoWorkflow [demoPhase] [demoTaskT, demoTaskU] [] flatSha = Inr demoPair"
    by (simp add: buildGraph_eq_Inr demoPair_def) (simp add: demoWorkflow_def)
  show "\<forall>n\<in>set (graphNodes demoPair). hasTextTitle n"
    by (simp add: demoPair_def sortNodes_def node_set textTitle_def demoWorkflow_def demoPhase_def demoTaskU_def demoTaskT_def demoTaskDef_def)
qed

lemma demo_pair_tasks:
  "tasksOf (graphNodes demoPair) = [demoTaskT, demoTaskU] \<or> tasksOf (graphNodes demoPair) = [demoTaskU, demoTaskT]"
proof -
  have "mset (graphNodes demoPair) = mset (allNodes demoWorkflow [demoPhase] [demoTaskT, demoTaskU] [])"
    by (simp add: demoPair_def sortNodes_def)
  from definitionsOf_perm(3) [OF this] have "mset (tasksOf (graphNodes demoPair)) = {#demoTaskT, demoTaskU#}"
    by (simp add: definitionsOf_all)
  then show ?thesis
    by (cases "tasksOf (graphNodes demoPair)" rule: remdups_adj.cases) (auto simp: add_eq_conv_ex)
qed

text \<open>With the first task in some state and the second pending.\<close>

lemma demo_derives:
  assumes "nonacceptedStatus (Str (lit s)) = Some st" "s \<noteq> ''accepted''"
  shows "\<exists>f facts. deriveReadyTaskFrontier (encGraph demoPair) (Arr [demoFact ''task_t'' s, demoFact ''task_u'' ''pending'']) flatSha Undef = Inr f \<and>
     validateTaskStatusFacts (Arr [demoFact ''task_t'' s, demoFact ''task_u'' ''pending'']) demoPair = Inr facts \<and>
     set facts = {\<lparr>factTask = lit ''task_t'', factGeneration = 1, factStatus = st\<rparr>,
       \<lparr>factTask = lit ''task_u'', factGeneration = 1, factStatus = TaskPending\<rparr>} \<and>
     frontierTasks f = (if st = TaskPending then [\<lparr>readyId = lit ''task_t'', readyGeneration = 1\<rparr>] else [])"
proof -
  let ?t = "\<lparr>factTask = lit ''task_t'', factGeneration = 1, factStatus = st\<rparr>"
  let ?u = "\<lparr>factTask = lit ''task_u'', factGeneration = 1, factStatus = TaskPending\<rparr>"
  let ?ts = "tasksOf (graphNodes demoPair)"
  have st: "st \<noteq> TaskAccepted a b" for a b using assms(1) by (auto simp: nonacceptedStatus_def split: if_splits)
  have ids: "mapById defId ?ts (lit ''task_t'') = Some demoTaskT" "mapById defId ?ts (lit ''task_u'') = Some demoTaskU"
    using demo_pair_tasks by (auto simp: mapById_def demo_task_fields)
  have "validateTaskStatusFact (mapById defId ?ts) (demoFact ''task_t'' s) = Inr ?t"
    using assms by (simp add: validateTaskStatusFact_def demoFact_def strIf_def demo_identities generationOf_def safe_bounds maxSafe_def ids
        demo_task_fields)
  moreover have "validateTaskStatusFact (mapById defId ?ts) (demoFact ''task_u'' ''pending'') = Inr ?u"
    by (simp add: validateTaskStatusFact_def demoFact_def strIf_def demo_task_ids generationOf_def safe_bounds maxSafe_def ids
        demo_task_fields nonacceptedStatus_def)
  ultimately have m: "mapE (validateTaskStatusFact (mapById defId ?ts)) [demoFact ''task_t'' s, demoFact ''task_u'' ''pending''] = Inr [?t, ?u]"
    by simp
  have v: "validateTaskStatusFacts (Arr [demoFact ''task_t'' s, demoFact ''task_u'' ''pending'']) demoPair = Inr (sort_key factTask [?t, ?u])"
    unfolding validateTaskStatusFacts_def snapshotCanonical_def
    using m demo_pair_tasks by (auto simp: demoFact_def wf_num_def Let_def demo_task_fields)
  define fs where "fs = sort_key factTask [?t, ?u]"
  let ?r = "readyTasks demoPair fs None"
  have tset: "set ?ts = {demoTaskT, demoTaskU}" using demo_pair_tasks by (elim disjE) auto
  have fset: "set fs = {?t, ?u}" unfolding fs_def set_sort by simp
  have d: "distinct (map factTask fs)" unfolding fs_def by (auto simp: insort_key.simps)
  have start: "canStart demoPair fs None e \<longleftrightarrow> e = demoTaskT \<and> st = TaskPending" for e
    unfolding canStart_def superseded_def hasStatus_def tset fset acceptedUnder_def
    by (cases "e = demoTaskT"; cases "e = demoTaskU") (use demo_task_fields(1,2) st in \<open>auto simp: demo_task_fields\<close>)
  have r: "set ?r = (if st = TaskPending then {\<lparr>readyId = lit ''task_t'', readyGeneration = 1\<rparr>} else {})"
    by (rule set_eqI) (simp add: ready_exact [OF d] start demo_task_fields)
  have "distinct ?r"
    using ready_sorted(2) [OF validated_tasks(1) [OF demo_pair_validates]] distinct_map by blast
  with r have "?r = (if st = TaskPending then [\<lparr>readyId = lit ''task_t'', readyGeneration = 1\<rparr>] else [])"
    by (cases ?r rule: remdups_adj.cases) (auto split: if_splits)
  then show ?thesis unfolding deriveReadyTaskFrontier_def
    using v [folded fs_def] fset by (simp add: demo_pair_validates Let_def)
qed

lemma demo_pending: "nonacceptedStatus (Str (lit ''pending'')) = Some TaskPending" "nonacceptedStatus (Str (lit ''active'')) = Some TaskActive"
  by (simp_all add: nonacceptedStatus_def)

lemmas demo_ready = demo_derives [OF demo_pending(1), simplified] and demo_waiting = demo_derives [OF demo_pending(2), simplified]

theorem frontier_exact_witness:
  "\<exists>f. deriveReadyTaskFrontier (encGraph demoPair) (Arr [demoFact ''task_t'' ''pending'', demoFact ''task_u'' ''pending'']) flatSha Undef = Inr f \<and>
     frontierTasks f = [\<lparr>readyId = lit ''task_t'', readyGeneration = 1\<rparr>] \<and>
     (\<exists>g facts. validateTaskStatusFacts (Arr [demoFact ''task_t'' ''pending'', demoFact ''task_u'' ''pending'']) g = Inr facts \<and>
        canStart g facts None demoTaskT)"
proof -
  from demo_ready obtain f where
      f: "deriveReadyTaskFrontier (encGraph demoPair) (Arr [demoFact ''task_t'' ''pending'', demoFact ''task_u'' ''pending'']) flatSha Undef = Inr f"
      "frontierTasks f = [\<lparr>readyId = lit ''task_t'', readyGeneration = 1\<rparr>]" by blast
  have "frontierBarrier f = None" using f(1) by (rule frontier_parts) auto
  from frontier_exact [OF f(1)] obtain g facts where e: "validateWorkflowGraph (encGraph demoPair) flatSha = Inr g"
      "validateTaskStatusFacts (Arr [demoFact ''task_t'' ''pending'', demoFact ''task_u'' ''pending'']) g = Inr facts"
    and r: "\<forall>r. r \<in> set (frontierTasks f) \<longleftrightarrow> (\<exists>d. canStart g facts (frontierBarrier f) d \<and>
      r = \<lparr>readyId = defId d, readyGeneration = defGeneration d\<rparr>)" by (elim exE conjE) (rule that)
  have "\<lparr>readyId = lit ''task_t'', readyGeneration = 1\<rparr> \<in> set (frontierTasks f)" unfolding f(2) by simp
  with r obtain d where d: "canStart g facts (frontierBarrier f) d" "defId d = lit ''task_t''" by fastforce
  from e(1) have "g = demoPair" by (simp add: demo_pair_validates)
  moreover have "set (tasksOf (graphNodes demoPair)) = {demoTaskT, demoTaskU}" using demo_pair_tasks by (elim disjE) auto
  ultimately have "d = demoTaskT" using d demo_task_fields(2) by (auto simp: canStart_def)
  with d(1) \<open>frontierBarrier f = None\<close> have "canStart g facts None demoTaskT" by simp
  with e(2) have "\<exists>g facts. validateTaskStatusFacts (Arr [demoFact ''task_t'' ''pending'', demoFact ''task_u'' ''pending'']) g = Inr facts \<and>
      canStart g facts None demoTaskT" by (intro exI conjI)
  with f show ?thesis by (intro exI [of _ f] conjI)
qed

text \<open>While the first task is active the second one waits for it.\<close>

theorem empty_frontier_blocked_witness:
  "\<exists>d\<in>set (tasksOf (graphNodes demoPair)). dependsOn d = [lit ''task_t'']"
proof -
  from demo_waiting obtain f facts where
      f: "deriveReadyTaskFrontier (encGraph demoPair) (Arr [demoFact ''task_t'' ''active'', demoFact ''task_u'' ''pending'']) flatSha Undef = Inr f"
      "validateTaskStatusFacts (Arr [demoFact ''task_t'' ''active'', demoFact ''task_u'' ''pending'']) demoPair = Inr facts"
      "set facts = {\<lparr>factTask = lit ''task_t'', factGeneration = 1, factStatus = TaskActive\<rparr>,
         \<lparr>factTask = lit ''task_u'', factGeneration = 1, factStatus = TaskPending\<rparr>}" "frontierTasks f = []"
    by blast
  have tset: "set (tasksOf (graphNodes demoPair)) = {demoTaskT, demoTaskU}" using demo_pair_tasks by (elim disjE) auto
  have pending: "hasStatus facts (defId demoTaskU) (\<lambda>s. s = TaskPending)" by (simp add: hasStatus_def f(3) demo_task_fields)
  have live: "\<not> superseded demoPair (defId demoTaskU)" unfolding superseded_def tset by (simp add: demo_task_fields)
  have "demoTaskU \<in> set (tasksOf (graphNodes demoPair))" unfolding tset by simp
  from empty_frontier_blocked [OF f(1,4) demo_pair_validates f(2) this live pending]
  obtain d x where "d \<in> set (tasksOf (graphNodes demoPair))" "x \<in> set (dependsOn d)" by (elim bexE conjE) (rule that)
  then show ?thesis unfolding tset by (auto simp: demo_task_fields)
qed

theorem frontier_order_independent_witness:
  "\<exists>f. deriveReadyTaskFrontier (encGraph demoPair) (Arr [demoFact ''task_u'' ''pending'', demoFact ''task_t'' ''pending'']) flatSha Undef = Inr f \<and>
     frontierTasks f = [\<lparr>readyId = lit ''task_t'', readyGeneration = 1\<rparr>]"
proof -
  from demo_ready obtain f where
      f: "deriveReadyTaskFrontier (encGraph demoPair) (Arr [demoFact ''task_t'' ''pending'', demoFact ''task_u'' ''pending'']) flatSha Undef = Inr f"
      "frontierTasks f = [\<lparr>readyId = lit ''task_t'', readyGeneration = 1\<rparr>]" by blast
  have "deriveReadyTaskFrontier (encGraph demoPair) (Arr [demoFact ''task_u'' ''pending'', demoFact ''task_t'' ''pending'']) flatSha Undef = Inr f"
    by (rule frontier_order_independent [OF f(1)]) simp
  with f(2) show ?thesis by blast
qed

end
