(* ===== verification/Resume.thy ===== *)
theory Resume
  imports Codecs Identity
begin

text \<open>
  packages/kernel/src/resume.ts: the binding an agent session is resumed under, and the decision
  whether a predecessor's session may be reused. The code reads bindings by field name, so they
  are values here; the input of \<open>createAgentSessionResumeBinding\<close> is an object, as its type says.
\<close>

definition resumeFields :: "string list" where
  "resumeFields = [''predecessorDispatchId'', ''predecessorSessionId'', ''promptResourceDigest'', ''promptContentDigest'',
     ''promptPackDigest'', ''mappedInputDigest'', ''contextId'', ''contextDigest'', ''graphRevisionDigest'',
     ''configurationSnapshotDigest'', ''taskId'', ''taskGeneration'', ''modelSelectionDigest'',
     ''repositoryCommitDigest'', ''repositoryTreeDigest'']"

definition resumeDigestFields :: "string list" where
  "resumeDigestFields = [''promptResourceDigest'', ''promptContentDigest'', ''promptPackDigest'', ''mappedInputDigest'',
     ''contextDigest'', ''graphRevisionDigest'', ''configurationSnapshotDigest'', ''modelSelectionDigest'',
     ''repositoryCommitDigest'', ''repositoryTreeDigest'']"

definition resumeApiVersion :: val where
  "resumeApiVersion = Str (lit ''senawa.dev/agent-session-resume-binding/v1'')"

definition isSessionId :: "val \<Rightarrow> bool" where
  "isSessionId v = (case v of Str s \<Rightarrow> length s \<noteq> 0 \<and> length s \<le> 256 | _ \<Rightarrow> False)"

definition validateResumeInput :: "val \<Rightarrow> exn + unit" where
  "validateResumeInput v =
     (if \<not> isIdentity DispatchKind (get v ''predecessorDispatchId'') \<or> \<not> isSessionId (get v ''predecessorSessionId'') \<or>
         \<not> isIdentity ContextKind (get v ''contextId'') \<or> \<not> isIdentity TaskKind (get v ''taskId'') \<or>
         \<not> isDefinitionGeneration (get v ''taskGeneration'') \<or>
         \<not> list_all (\<lambda>k. isSha256Digest (get v k)) resumeDigestFields
      then Inl ResumeBindingError else Inr ())"

definition createAgentSessionResumeBinding :: "val \<Rightarrow> sha256 \<Rightarrow> exn + val" where
  "createAgentSessionResumeBinding v sha =
     bindE (validateResumeInput v) (\<lambda>_.
     bindE (snapshotCanonical TypeError (Obj (spread [(lit ''apiVersion'', resumeApiVersion)] (props v)))) (\<lambda>content.
     bindE (canonicalDigest content sha) (\<lambda>d.
       snapshotCanonical TypeError
         (Obj (spread (spread [(lit ''apiVersion'', resumeApiVersion)] (props v)) [(lit ''bindingDigest'', Str d)])))))"

definition validateAgentSessionResumeBinding :: "val \<Rightarrow> sha256 \<Rightarrow> exn + val" where
  "validateAgentSessionResumeBinding v sha =
     bindE (snapshotCanonical TypeError v) (\<lambda>s.
     if s = Null then Inl TypeError
     else bindE (assertExactKeys s ([''apiVersion'', ''bindingDigest''] @ resumeFields) ResumeBindingError) (\<lambda>_.
          bindE (createAgentSessionResumeBinding (pickFields s resumeFields) sha) (\<lambda>expected.
          if canonicalSerialize s \<noteq> canonicalSerialize expected then Inl ResumeBindingError else Inr expected)))"

datatype sessionScope = AttemptScope | PhaseScope | RunScope

fun scopeFields :: "sessionScope \<Rightarrow> string list" where
  "scopeFields AttemptScope = resumeFields"
| "scopeFields PhaseScope = [''taskId'', ''taskGeneration'', ''graphRevisionDigest'', ''configurationSnapshotDigest'']"
| "scopeFields RunScope = [''configurationSnapshotDigest'']"

datatype resumeAction = ResumeSession | NewSession

fun resumeActionStr :: "resumeAction \<Rightarrow> string" where
  "resumeActionStr ResumeSession = ''resume''"
| "resumeActionStr NewSession = ''new-session''"

record resumeDecision =
  resumeAction :: resumeAction
  requestedBinding :: val
  predecessorBinding :: "val option"
  mismatchFields :: "string list"
  resumeDigest :: jstr

definition decisionContent :: "resumeAction \<Rightarrow> val \<Rightarrow> val option \<Rightarrow> string list \<Rightarrow> (jstr \<times> val) list" where
  "decisionContent a requested predecessor mismatch =
     [(lit ''action'', enumText resumeActionStr a), (lit ''requestedBindingDigest'', get requested ''bindingDigest'')] @
     (case predecessor of None \<Rightarrow> [] | Some p \<Rightarrow> [(lit ''predecessorBindingDigest'', get p ''bindingDigest'')]) @
     [(lit ''mismatchFields'', Arr (map (\<lambda>k. Str (lit k)) mismatch))]"

definition decideAgentSessionResume :: "val \<Rightarrow> val \<Rightarrow> sha256 \<Rightarrow> sessionScope \<Rightarrow> exn + resumeDecision" where
  "decideAgentSessionResume requestedValue predecessorValue sha scope =
     bindE (validateAgentSessionResumeBinding requestedValue sha) (\<lambda>requested.
     bindE (if predecessorValue = Undef then Inr None
            else bindE (validateAgentSessionResumeBinding predecessorValue sha) (\<lambda>p. Inr (Some p))) (\<lambda>predecessor.
     let mismatch = (case predecessor of None \<Rightarrow> []
           | Some p \<Rightarrow> filter (\<lambda>k. get requested k \<noteq> get p k) (scopeFields scope));
         action = (if predecessor \<noteq> None \<and> mismatch = [] then ResumeSession else NewSession)
     in bindE (snapshotCanonical TypeError (Obj (decisionContent action requested predecessor mismatch))) (\<lambda>content.
        bindE (canonicalDigest content sha) (\<lambda>d.
          Inr \<lparr>resumeAction = action, requestedBinding = get requested ''bindingDigest'',
            predecessorBinding = map_option (\<lambda>p. get p ''bindingDigest'') predecessor,
            mismatchFields = mismatch, resumeDigest = d\<rparr>))))"

end
