(* ===== verification/ResumeProperties.thy ===== *)
theory ResumeProperties
  imports Resume CanonicalInjective
begin

text \<open>
  The properties of resume.ts: bindings are canonical, and the decision compares exactly the fields
  of its scope.
\<close>

section \<open>Bindings\<close>

definition bindingContent :: "val \<Rightarrow> (jstr \<times> val) list" where
  "bindingContent v = (lit ''apiVersion'', resumeApiVersion) # props v"

definition bindingOf :: "sha256 \<Rightarrow> val \<Rightarrow> val" where
  "bindingOf sha v = Obj (bindingContent v @ [(lit ''bindingDigest'', Str (sha (canonicalBytes (Obj (bindingContent v)))))])"

lemma create_eq_Inr:
  assumes "lit ''apiVersion'' \<notin> fst ` set (props v)" "lit ''bindingDigest'' \<notin> fst ` set (props v)"
  shows "createAgentSessionResumeBinding v sha = Inr b \<longleftrightarrow> validateResumeInput v = Inr () \<and>
     is_json (Obj (props v)) \<and> sha256Pattern (sha (canonicalBytes (Obj (bindingContent v)))) \<and> b = bindingOf sha v"
proof -
  have s: "spread [(lit ''apiVersion'', resumeApiVersion)] (props v) = bindingContent v"
    using assms(1) by (subst spread_fresh) (auto simp: bindingContent_def)
  have t: "spread (bindingContent v) [(lit ''bindingDigest'', Str d)] = bindingContent v @ [(lit ''bindingDigest'', Str d)]" for d
    using assms(2) by (subst spread_fresh) (auto simp: bindingContent_def)
  have "is_json (Obj (bindingContent v)) \<longleftrightarrow> is_json (Obj (props v))"
    "is_json (Obj (bindingContent v @ [(lit ''bindingDigest'', Str d)])) \<longleftrightarrow> is_json (Obj (props v))" for d
    using assms by (auto simp: bindingContent_def resumeApiVersion_def)
  then show ?thesis
    by (auto simp: createAgentSessionResumeBinding_def s t bindE_eq_Inr snapshotCanonical_eq_Inr canonicalDigest_eq_Inr bindingOf_def)
qed

lemma resume_field_names:
  "distinct resumeFields" "''apiVersion'' \<notin> set resumeFields" "''bindingDigest'' \<notin> set resumeFields"
  by (simp_all add: resumeFields_def)

lemma pickFields_keys: "fst ` set (props (pickFields v ks)) = lit ` set ks"
  by (auto simp: pickFields_def image_image)

lemma create_picked:
  "createAgentSessionResumeBinding (pickFields v resumeFields) sha = Inr b \<longleftrightarrow>
     validateResumeInput (pickFields v resumeFields) = Inr () \<and> is_json (pickFields v resumeFields) \<and>
     sha256Pattern (sha (canonicalBytes (Obj (bindingContent (pickFields v resumeFields))))) \<and>
     b = bindingOf sha (pickFields v resumeFields)"
proof -
  have "lit ''apiVersion'' \<notin> fst ` set (props (pickFields v resumeFields))" "lit ''bindingDigest'' \<notin> fst ` set (props (pickFields v resumeFields))"
    using resume_field_names(2,3) by (auto simp: pickFields_keys)
  moreover have "Obj (props (pickFields v resumeFields)) = pickFields v resumeFields" by (simp add: pickFields_def)
  ultimately show ?thesis using create_eq_Inr [of "pickFields v resumeFields"] by simp
qed

lemma bindingOf_get: "k \<in> set resumeFields \<Longrightarrow> get (bindingOf sha (pickFields v resumeFields)) k = get v k"
proof -
  assume k: "k \<in> set resumeFields"
  then have "lit k \<in> fst ` set (props (pickFields v resumeFields))" by (auto simp: pickFields_keys)
  moreover have "k \<noteq> ''apiVersion''" using k resume_field_names(2) by blast
  ultimately have "get (bindingOf sha (pickFields v resumeFields)) k = field (Obj (props (pickFields v resumeFields))) (lit k)"
    by (simp add: bindingOf_def bindingContent_def)
  also have "\<dots> = get v k" using pickFields_get [OF k] by (simp add: pickFields_def)
  finally show ?thesis .
qed

lemma bindingOf_keys: "exactKeys (bindingOf sha (pickFields v resumeFields)) ([''apiVersion'', ''bindingDigest''] @ resumeFields)"
  by (simp add: bindingOf_def bindingContent_def exactKeys_Obj pickFields_def o_def)

lemma picked_again: "pickFields (bindingOf sha (pickFields v resumeFields)) resumeFields = pickFields v resumeFields"
  using bindingOf_get by (auto simp: pickFields_def [of _ resumeFields])

lemma bindingOf_json:
  assumes "is_json (pickFields v resumeFields)"
  shows "is_json (bindingOf sha (pickFields v resumeFields))"
proof -
  have "distinct (map fst (props (pickFields v resumeFields)))" using assms by (simp add: pickFields_def)
  with assms pickFields_keys [of v resumeFields] resume_field_names(2,3) show ?thesis
    by (auto simp: bindingOf_def bindingContent_def resumeApiVersion_def pickFields_def image_iff)
qed

lemma validate_binding:
  assumes "validateAgentSessionResumeBinding v sha = Inr b"
  shows "is_json v" "b = bindingOf sha (pickFields v resumeFields)" "norm v = norm b" "is_json b"
    "validateResumeInput (pickFields v resumeFields) = Inr ()" "exactKeys v ([''apiVersion'', ''bindingDigest''] @ resumeFields)"
    "createAgentSessionResumeBinding (pickFields v resumeFields) sha = Inr b"
proof -
  from assms show j: "is_json v" and k: "exactKeys v ([''apiVersion'', ''bindingDigest''] @ resumeFields)"
    and c: "createAgentSessionResumeBinding (pickFields v resumeFields) sha = Inr b"
    by (auto simp: validateAgentSessionResumeBinding_def bindE_eq_Inr snapshotCanonical_eq_Inr assertExactKeys_eq_Inr split: if_splits)
  from assms have eq: "canonicalSerialize v = canonicalSerialize b"
    by (auto simp: validateAgentSessionResumeBinding_def bindE_eq_Inr snapshotCanonical_eq_Inr split: if_splits)
  note cb = c [unfolded create_picked]
  from cb show b: "b = bindingOf sha (pickFields v resumeFields)" and "validateResumeInput (pickFields v resumeFields) = Inr ()" by simp_all
  show jb: "is_json b" unfolding b using bindingOf_json cb by blast
  show "norm v = norm b" using eq j jb by (simp add: canonicalSerialize_def serialize_eq_iff)
qed

lemma binding_again:
  assumes "createAgentSessionResumeBinding (pickFields v resumeFields) sha = Inr b"
  shows "validateAgentSessionResumeBinding b sha = Inr b"
proof -
  have b: "b = bindingOf sha (pickFields v resumeFields)" using assms by (simp add: create_picked)
  have "is_json b" unfolding b using assms bindingOf_json by (simp add: create_picked)
  moreover have "isRecord b" "b \<noteq> Null" by (simp_all add: b bindingOf_def)
  ultimately show ?thesis using bindingOf_keys [of sha v] picked_again [of sha v] assms
    by (simp add: validateAgentSessionResumeBinding_def snapshotCanonical_def assertExactKeys_def flip: b)
qed

interpretation resumeBinding: codec "\<lambda>v. validateAgentSessionResumeBinding v sha" "\<lambda>b. b"
    "\<lambda>b. validateAgentSessionResumeBinding b sha = Inr b"
  by unfold_locales (auto intro: binding_again validate_binding(7))

section \<open>The properties\<close>

lemma decide_parts:
  assumes "decideAgentSessionResume rv pv sha scope = Inr d"
  obtains r where "validateAgentSessionResumeBinding rv sha = Inr r" "pv = Undef" "resumeAction d = NewSession" "mismatchFields d = []"
    "predecessorBinding d = None"
  | r p where "validateAgentSessionResumeBinding rv sha = Inr r" "pv \<noteq> Undef" "validateAgentSessionResumeBinding pv sha = Inr p"
    "mismatchFields d = filter (\<lambda>k. get r k \<noteq> get p k) (scopeFields scope)"
    "resumeAction d = (if mismatchFields d = [] then ResumeSession else NewSession)"
    "predecessorBinding d = Some (get p ''bindingDigest'')"
  using assms by (auto simp: decideAgentSessionResume_def bindE_eq_Inr Let_def split: if_splits)

lemma scope_fields: "set (scopeFields scope) \<subseteq> set resumeFields"
  by (cases scope) (auto simp: resumeFields_def)

lemma binding_get: "validateAgentSessionResumeBinding v sha = Inr b \<Longrightarrow> k \<in> set resumeFields \<Longrightarrow> get b k = get v k"
  using validate_binding(2) bindingOf_get by metis

lemma resume_scalar:
  assumes "validateResumeInput w = Inr ()" "k \<in> set resumeFields"
  shows "(\<exists>s. get w k = Str s) \<or> (\<exists>n. get w k = Num n)"
proof -
  have "k \<in> set resumeDigestFields \<or> k \<in> {''predecessorDispatchId'', ''predecessorSessionId'', ''contextId'', ''taskId'', ''taskGeneration''}"
    using assms(2) by (auto simp: resumeFields_def resumeDigestFields_def)
  moreover have "\<forall>k\<in>set resumeDigestFields. isSha256Digest (get w k)" "isIdentity DispatchKind (get w ''predecessorDispatchId'')"
      "isSessionId (get w ''predecessorSessionId'')" "isIdentity ContextKind (get w ''contextId'')"
      "isIdentity TaskKind (get w ''taskId'')" "isDefinitionGeneration (get w ''taskGeneration'')"
    using assms(1) by (simp_all add: validateResumeInput_def list_all_iff split: if_splits)
  ultimately show ?thesis
    by (auto simp: isSha256Digest_iff isIdentity_iff isDefinitionGeneration_iff posSafeInt_eq_Some isSessionId_def split: val.splits)
qed

text \<open>C32. A session is resumed exactly when there is a predecessor and every field of the scope has the same
  value in both bindings; the fields that differ are reported, in the order of the scope. Under the
  attempt scope a session is resumed exactly when the two bindings are the same value up to the
  order of properties.\<close>

theorem resume_exact:
  assumes "decideAgentSessionResume rv pv sha scope = Inr d"
  shows "if pv = Undef then resumeAction d = NewSession \<and> mismatchFields d = []
     else mismatchFields d = filter (\<lambda>k. get rv k \<noteq> get pv k) (scopeFields scope) \<and>
       (resumeAction d = ResumeSession \<longleftrightarrow> (\<forall>k\<in>set (scopeFields scope). get rv k = get pv k)) \<and>
       (scope = AttemptScope \<longrightarrow> (resumeAction d = ResumeSession \<longleftrightarrow> norm rv = norm pv))"
  using assms
proof (cases rule: decide_parts)
  case (2 r p)
  have eq: "get r k = get rv k" "get p k = get pv k" if "k \<in> set resumeFields" for k
    using binding_get [OF 2(1) that] binding_get [OF 2(3) that] by simp_all
  have m: "mismatchFields d = filter (\<lambda>k. get rv k \<noteq> get pv k) (scopeFields scope)"
    unfolding 2(4)
  proof (rule filter_cong [OF refl])
    fix k assume "k \<in> set (scopeFields scope)"
    then have "k \<in> set resumeFields" using scope_fields by blast
    then show "(get r k \<noteq> get p k) = (get rv k \<noteq> get pv k)" using eq by simp
  qed
  have a: "resumeAction d = ResumeSession \<longleftrightarrow> (\<forall>k\<in>set (scopeFields scope). get rv k = get pv k)"
    using 2(5) by (auto simp: m filter_empty_conv)
  have "(\<forall>k\<in>set resumeFields. get rv k = get pv k) \<longleftrightarrow> norm rv = norm pv"
  proof
    assume "\<forall>k\<in>set resumeFields. get rv k = get pv k"
    then have "pickFields rv resumeFields = pickFields pv resumeFields" by (simp add: pickFields_def)
    then show "norm rv = norm pv" using validate_binding(2,3) [OF 2(1)] validate_binding(2,3) [OF 2(3)] by simp
  next
    assume n: "norm rv = norm pv"
    have rec: "isRecord rv" "isRecord pv"
      using 2(1,3) by (auto simp: validateAgentSessionResumeBinding_def bindE_eq_Inr assertExactKeys_eq_Inr snapshotCanonical_eq_Inr
          split: if_splits)
    show "\<forall>k\<in>set resumeFields. get rv k = get pv k"
    proof
      fix k assume k: "k \<in> set resumeFields"
      have "norm (get rv k) = norm (get pv k)"
        using n rec norm_recordD(2) validate_binding(1) [OF 2(1)] validate_binding(1) [OF 2(3)] unfolding isRecord_iff by metis
      moreover have scalar: "norm (get v k) = get v k" if "validateAgentSessionResumeBinding v sha = Inr b" for v b
      proof -
        from resume_scalar [OF validate_binding(5) [OF that] k] have "(\<exists>s. get v k = Str s) \<or> (\<exists>n. get v k = Num n)"
          using pickFields_get [OF k, of v] by simp
        then show ?thesis by auto
      qed
      ultimately show "get rv k = get pv k" using scalar [OF 2(1)] scalar [OF 2(3)] by simp
    qed
  qed
  with a m 2(2) show ?thesis by auto
qed simp

text \<open>Bindings are canonical: what the validator accepts is, up to the order of properties, the binding
  it returns, which validates to itself and carries the digest of its other fields; and the binding
  created from an input with exactly the fields of a binding is accepted.\<close>

theorem resume_binding_roundtrip:
  "(validateAgentSessionResumeBinding v sha = Inr b \<longrightarrow> norm v = norm b \<and> validateAgentSessionResumeBinding b sha = Inr b) \<and>
   (createAgentSessionResumeBinding v sha = Inr b \<and> isRecord v \<and> exactKeys v resumeFields \<longrightarrow>
      (\<exists>b'. validateAgentSessionResumeBinding b sha = Inr b' \<and> norm b' = norm b))"
proof (intro conjI impI)
  assume "validateAgentSessionResumeBinding v sha = Inr b"
  then show "norm v = norm b" "validateAgentSessionResumeBinding b sha = Inr b"
    using validate_binding(3) resumeBinding.dec_ok by blast+
next
  assume "createAgentSessionResumeBinding v sha = Inr b \<and> isRecord v \<and> exactKeys v resumeFields"
  then obtain kvs where v: "v = Obj kvs" "mset (map fst kvs) = mset (map lit resumeFields)"
    and c: "createAgentSessionResumeBinding v sha = Inr b" by (auto simp: isRecord_iff exactKeys_Obj)
  let ?p = "pickFields v resumeFields"
  have set: "fst ` set kvs = lit ` set resumeFields" using mset_eq_setD [OF v(2)] by simp
  have fresh: "lit ''apiVersion'' \<notin> fst ` set (props v)" "lit ''bindingDigest'' \<notin> fst ` set (props v)"
    using resume_field_names(2,3) by (auto simp: v(1) set)
  note cv = c [unfolded create_eq_Inr [OF fresh]]
  have same: "get ?p k = get v k" if "k \<in> set resumeFields" for k using that by (rule pickFields_get)
  have valid: "validateResumeInput ?p = Inr ()"
    using cv same by (simp add: validateResumeInput_def resumeDigestFields_def resumeFields_def split: if_splits)
  have jv: "is_json v" using cv v(1) by simp
  have jp: "is_json ?p"
    using exactKeys_field_json [of v resumeFields] jv v resume_field_names(1)
    by (auto simp: pickFields_def exactKeys_Obj o_def distinct_map inj_on_def list_all_iff)
  have field: "norm (field v k) = norm (field ?p k)" if "k \<in> fst ` set kvs" for k using that same unfolding set by auto
  have keys: "mset (map fst kvs) = mset (map fst (props ?p))" unfolding v(2) by (simp add: pickFields_def o_def)
  have P: "?p = Obj (props ?p)" by (simp add: pickFields_def)
  have json: "is_json (Obj (bindingContent v @ r))" "is_json (Obj (bindingContent ?p @ r))"
    if "r = [] \<or> r = [(lit ''bindingDigest'', Str d)]" for r d
    using that jv jp fresh pickFields_keys [of v resumeFields] resume_field_names(2,3)
    by (auto simp: bindingContent_def resumeApiVersion_def v(1) pickFields_def image_iff)
  have norm: "norm (Obj (bindingContent v @ r)) = norm (Obj (bindingContent ?p @ r))"
    if "r = [] \<or> r = [(lit ''bindingDigest'', Str d)]" for r d
    by (rule norm_recordI [OF json [OF that]])
      (use keys field fresh P pickFields_keys [of v resumeFields] set in \<open>auto simp: bindingContent_def v(1)\<close>)
  have d: "canonicalBytes (Obj (bindingContent v)) = canonicalBytes (Obj (bindingContent ?p))"
    using norm [of "[]"] serialize_eq_iff [OF json [of "[]"]]
    unfolding canonicalBytes_def canonicalSerialize_def encodeUtf8_inject append_Nil2 by blast
  have b': "createAgentSessionResumeBinding ?p sha = Inr (bindingOf sha ?p)"
    using valid jp cv d by (simp add: create_picked)
  from cv have bv: "b = bindingOf sha v" by blast
  have n: "norm b = norm (bindingOf sha ?p)" unfolding bv bindingOf_def d by (rule norm) blast
  have jb: "is_json b" "is_json (bindingOf sha ?p)" unfolding bv bindingOf_def by (rule json, blast)+
  have b: "b = Obj (bindingContent v @ [(lit ''bindingDigest'', Str (sha (canonicalBytes (Obj (bindingContent v)))))])"
    using cv by (simp add: bindingOf_def)
  have "pickFields b resumeFields = ?p"
    using fresh set resume_field_names(2) by (auto simp: pickFields_def b bindingContent_def v(1))
  moreover have "exactKeys b ([''apiVersion'', ''bindingDigest''] @ resumeFields)"
    using v(2) by (simp add: b exactKeys_Obj bindingContent_def v(1))
  ultimately have "validateAgentSessionResumeBinding b sha = Inr (bindingOf sha ?p)"
    using jb n b' serialize_eq_iff [OF jb]
    by (simp add: validateAgentSessionResumeBinding_def snapshotCanonical_def assertExactKeys_def canonicalSerialize_def)
      (simp add: b)
  then show "\<exists>b'. validateAgentSessionResumeBinding b sha = Inr b' \<and> norm b' = norm b" using n by auto
qed

section \<open>An example\<close>

text \<open>A binding and the same one after another prompt.\<close>

definition demoBindingInput :: "jstr \<Rightarrow> val" where
  "demoBindingInput prompt = Obj (map (\<lambda>k. (lit k,
     if k = ''predecessorDispatchId'' then Str (lit ''dispatch_d'') else if k = ''predecessorSessionId'' then Str (lit ''s'')
     else if k = ''contextId'' then Str (lit ''context_c'') else if k = ''taskId'' then Str (lit ''task_t'')
     else if k = ''taskGeneration'' then Num (Whole 1)
     else if k = ''promptContentDigest'' then Str prompt else Str (replicate 64 48))) resumeFields)"

lemma demo_binding_identities: "isIdentity DispatchKind (Str (lit ''dispatch_d''))" "isIdentity ContextKind (Str (lit ''context_c''))"
    "isIdentity TaskKind (Str (lit ''task_t''))" "sha256Pattern (replicate 64 48)" "sha256Pattern (replicate 64 49)"
  by code_simp+

lemma demo_binding:
  assumes "sha256Pattern p"
  shows "\<exists>b. validateAgentSessionResumeBinding b flatSha = Inr b \<and> get b ''promptContentDigest'' = Str p \<and>
    get b ''taskId'' = Str (lit ''task_t'') \<and> get b ''taskGeneration'' = Num (Whole 1) \<and>
    get b ''graphRevisionDigest'' = Str (replicate 64 48) \<and> get b ''configurationSnapshotDigest'' = Str (replicate 64 48)"
proof -
  let ?v = "pickFields (demoBindingInput p) resumeFields"
  have g: "get ?v k = get (demoBindingInput p) k" if "k \<in> set resumeFields" for k using that by (rule pickFields_get)
  have "validateResumeInput ?v = Inr ()"
    using g assms
    by (simp add: validateResumeInput_def resumeDigestFields_def resumeFields_def demoBindingInput_def isSessionId_def
        isDefinitionGeneration_def demo_binding_identities safe_bounds maxSafe_def)
  moreover have "is_json ?v"
    by (simp add: pickFields_def resumeFields_def demoBindingInput_def wf_num_def)
  ultimately have "createAgentSessionResumeBinding ?v flatSha = Inr (bindingOf flatSha ?v)"
    by (simp add: create_picked demo_binding_identities flatSha_def)
  from binding_again [OF this] have "validateAgentSessionResumeBinding (bindingOf flatSha ?v) flatSha = Inr (bindingOf flatSha ?v)" .
  moreover have "get (bindingOf flatSha ?v) k = get (demoBindingInput p) k" if "k \<in> set resumeFields" for k
    using that by (rule bindingOf_get)
  ultimately show ?thesis
    by (intro exI [of _ "bindingOf flatSha ?v"]) (simp add: resumeFields_def demoBindingInput_def)
qed

lemma decide_some:
  assumes "validateAgentSessionResumeBinding r flatSha = Inr r" "validateAgentSessionResumeBinding p flatSha = Inr p"
  shows "\<exists>d. decideAgentSessionResume r p flatSha scope = Inr d"
proof -
  have "p \<noteq> Undef" using validate_binding(1) [OF assms(2)] by auto
  have d: "get b ''bindingDigest'' = Str (replicate 64 48)" if v: "validateAgentSessionResumeBinding b flatSha = Inr b" for b
  proof -
    have "lit ''bindingDigest'' \<notin> fst ` set (props (pickFields b resumeFields))"
      using resume_field_names(3) by (auto simp: pickFields_keys)
    then have "get (bindingOf flatSha (pickFields b resumeFields)) ''bindingDigest'' = Str (replicate 64 48)"
      by (simp add: bindingOf_def bindingContent_def flatSha_def)
    then show ?thesis using validate_binding(2) [OF v] by simp
  qed
  have "is_json (Obj (decisionContent a r (Some p) m))" for a m
    by (simp add: decisionContent_def d [OF assms(1)] d [OF assms(2)] enumText_def list_all_iff)
  then show ?thesis using assms \<open>p \<noteq> Undef\<close> by (simp add: decideAgentSessionResume_def Let_def snapshotCanonical_def)
qed

text \<open>A changed prompt starts a new session under the attempt scope and keeps the session of the phase.\<close>

theorem resume_exact_witness:
  "\<exists>r p d e. decideAgentSessionResume r p flatSha AttemptScope = Inr d \<and> decideAgentSessionResume r p flatSha PhaseScope = Inr e \<and>
     resumeAction d = NewSession \<and> resumeAction e = ResumeSession"
proof -
  from demo_binding [OF demo_binding_identities(4)] obtain r where r: "validateAgentSessionResumeBinding r flatSha = Inr r"
      "get r ''promptContentDigest'' = Str (replicate 64 48)" "get r ''taskId'' = Str (lit ''task_t'')" "get r ''taskGeneration'' = Num (Whole 1)"
      "get r ''graphRevisionDigest'' = Str (replicate 64 48)" "get r ''configurationSnapshotDigest'' = Str (replicate 64 48)" by blast
  from demo_binding [OF demo_binding_identities(5)] obtain p where p: "validateAgentSessionResumeBinding p flatSha = Inr p"
      "get p ''promptContentDigest'' = Str (replicate 64 49)" "get p ''taskId'' = Str (lit ''task_t'')" "get p ''taskGeneration'' = Num (Whole 1)"
      "get p ''graphRevisionDigest'' = Str (replicate 64 48)" "get p ''configurationSnapshotDigest'' = Str (replicate 64 48)" by blast
  obtain d where d: "decideAgentSessionResume r p flatSha AttemptScope = Inr d" using decide_some [OF r(1) p(1)] by blast
  obtain e where e: "decideAgentSessionResume r p flatSha PhaseScope = Inr e" using decide_some [OF r(1) p(1)] by blast
  have u: "p \<noteq> Undef" using validate_binding(1) [OF p(1)] by auto
  have "get r ''promptContentDigest'' \<noteq> get p ''promptContentDigest''" "''promptContentDigest'' \<in> set (scopeFields AttemptScope)"
    unfolding r(2) p(2) by (simp_all add: resumeFields_def replicate_eq_replicate)
  then have "resumeAction d \<noteq> ResumeSession" using resume_exact [OF d] u by auto
  then have "resumeAction d = NewSession" by (cases "resumeAction d") simp_all
  moreover have "resumeAction e = ResumeSession" using resume_exact [OF e] u r p by simp
  ultimately show ?thesis using d e by blast
qed

theorem resume_binding_roundtrip_witness:
  "\<exists>b b'. createAgentSessionResumeBinding (demoBindingInput (replicate 64 48)) flatSha = Inr b \<and>
     validateAgentSessionResumeBinding b flatSha = Inr b' \<and> norm b' = norm b"
proof -
  let ?v = "demoBindingInput (replicate 64 48)"
  have keys: "isRecord ?v" "exactKeys ?v resumeFields" by (simp_all add: demoBindingInput_def o_def)
  have fresh: "lit ''apiVersion'' \<notin> fst ` set (props ?v)" "lit ''bindingDigest'' \<notin> fst ` set (props ?v)"
    by (auto simp: demoBindingInput_def resumeFields_def)
  have "validateResumeInput ?v = Inr ()"
    by (simp add: validateResumeInput_def resumeDigestFields_def resumeFields_def demoBindingInput_def isSessionId_def
        isDefinitionGeneration_def demo_binding_identities safe_bounds maxSafe_def)
  moreover have "is_json (Obj (props ?v))" by (simp add: resumeFields_def demoBindingInput_def wf_num_def)
  ultimately obtain b where "createAgentSessionResumeBinding ?v flatSha = Inr b"
    using create_eq_Inr [OF fresh, of flatSha] demo_binding_identities(4) by (simp add: flatSha_def)
  with keys resume_binding_roundtrip [of ?v flatSha b] show ?thesis by blast
qed

end
