(* ===== verification/Iteration.thy ===== *)
theory Iteration
  imports Budgets
begin

text \<open>
  packages/kernel/src/iteration.ts: what happens to a phase whose attempt was rejected, whose
  upstream changed or which is closed. A transition is a value, its fields are copied from the
  input that is checked first.
\<close>

datatype iterationTrigger = GateRejected | ApprovalRejected | UpstreamChanged | ClosureCreated

fun iterationTriggerStr :: "iterationTrigger \<Rightarrow> string" where
  "iterationTriggerStr GateRejected = ''gate-rejected''"
| "iterationTriggerStr ApprovalRejected = ''approval-rejected''"
| "iterationTriggerStr UpstreamChanged = ''upstream-changed''"
| "iterationTriggerStr ClosureCreated = ''closure-created''"

datatype transitionDisposition = Iterate | Escalate | FailPhase | ClosedPhase | Refused

fun transitionDispositionStr :: "transitionDisposition \<Rightarrow> string" where
  "transitionDispositionStr Iterate = ''iterate''"
| "transitionDispositionStr Escalate = ''escalate''"
| "transitionDispositionStr FailPhase = ''fail''"
| "transitionDispositionStr ClosedPhase = ''closed''"
| "transitionDispositionStr Refused = ''refused''"

record iterationPolicy =
  maxAttempts :: int
  refuseUpstream :: bool
  exhaustion :: transitionDisposition

record plannedTransition =
  plannedOutcome :: val
  plannedLedger :: budgetLedger

definition iterationError :: "iteration_code \<Rightarrow> exn" where
  "iterationError c = IterationError c"

definition isRepositoryId :: "val \<Rightarrow> bool" where
  "isRepositoryId v = (case v of Str s \<Rightarrow> length s \<noteq> 0 \<and> length s \<le> 256 | _ \<Rightarrow> False)"

text \<open>The checked input: its trigger and attempt. Reading a property of \<open>null\<close> throws.\<close>

definition validateTransitionInput :: "val \<Rightarrow> exn + iterationTrigger \<times> int" where
  "validateTransitionInput v =
     (if v = Null then Inl TypeError else
      case (posSafeInt (get (get v ''phase'') ''attempt''),
            enumOf iterationTriggerStr [GateRejected, ApprovalRejected, UpstreamChanged, ClosureCreated] (get v ''trigger'')) of
        (Some n, Some t) \<Rightarrow>
          if \<not> isRepositoryId (get v ''repositoryId'') \<or> \<not> isIdentity RunKind (get v ''runId'') \<or>
             \<not> isIdentity PhaseKind (get (get v ''phase'') ''phaseId'') \<or>
             \<not> isDefinitionGeneration (get (get v ''phase'') ''definitionGeneration'') \<or>
             \<not> isSha256Digest (get v ''attemptDigest'') \<or>
             get v ''predecessorTransitionDigest'' \<noteq> Undef \<and> \<not> isSha256Digest (get v ''predecessorTransitionDigest'') \<or>
             \<not> isSha256Digest (get v ''triggerDigest'') \<or> \<not> isSha256Digest (get v ''policyDigest'')
          then Inl (iterationError IInvalidIteration) else Inr (t, n)
      | _ \<Rightarrow> Inl (iterationError IInvalidIteration))"

definition iterationPolicyOf :: "val \<Rightarrow> exn + iterationPolicy" where
  "iterationPolicyOf v =
     (if v = Undef \<or> v = Null then Inl TypeError else
      case (posSafeInt (get v ''maxAttempts''),
            enumOf (\<lambda>b. if b then ''refuse'' else ''iterate'') [True, False] (get v ''upstreamChange''),
            enumOf transitionDispositionStr [Escalate, FailPhase] (get v ''exhaustion'')) of
        (Some n, Some r, Some d) \<Rightarrow> Inr \<lparr>maxAttempts = n, refuseUpstream = r, exhaustion = d\<rparr>
      | _ \<Rightarrow> Inl (iterationError IInvalidIteration))"

definition transitionApiVersion :: val where
  "transitionApiVersion = Str (lit ''senawa.dev/phase-attempt-transition/v1'')"

definition transitionContent :: "val \<Rightarrow> int \<Rightarrow> transitionDisposition \<Rightarrow> val option \<Rightarrow> (jstr \<times> val) list" where
  "transitionContent v attempt d exhausted =
     [(lit ''apiVersion'', transitionApiVersion), (lit ''repositoryId'', get v ''repositoryId''), (lit ''runId'', get v ''runId''),
      (lit ''phase'', get v ''phase''), (lit ''attemptDigest'', get v ''attemptDigest'')] @
     (if get v ''predecessorTransitionDigest'' = Undef then []
      else [(lit ''predecessorTransitionDigest'', get v ''predecessorTransitionDigest'')]) @
     [(lit ''trigger'', get v ''trigger''), (lit ''triggerDigest'', get v ''triggerDigest''),
      (lit ''policyDigest'', get v ''policyDigest''), (lit ''disposition'', enumText transitionDispositionStr d)] @
     (if d = Iterate then
        [(lit ''nextAttempt'', Obj (spread (props (get v ''phase'')) [(lit ''attempt'', Num (Whole (attempt + 1)))]))] else []) @
     (case exhausted of None \<Rightarrow> [] | Some f \<Rightarrow> [(lit ''exhaustedFact'', f)])"

definition compileTransition :: "val \<Rightarrow> int \<Rightarrow> transitionDisposition \<Rightarrow> sha256 \<Rightarrow> val option \<Rightarrow> exn + val" where
  "compileTransition v attempt d sha exhausted =
     bindE (snapshotCanonical TypeError (Obj (transitionContent v attempt d exhausted))) (\<lambda>content.
     bindE (canonicalDigest content sha) (\<lambda>digest.
       snapshotCanonical TypeError (Obj (transitionContent v attempt d exhausted @ [(lit ''transitionDigest'', Str digest)]))))"

definition planned :: "val \<Rightarrow> int \<Rightarrow> transitionDisposition \<Rightarrow> budgetLedger \<Rightarrow> sha256 \<Rightarrow> exhaustedFact option \<Rightarrow> exn + plannedTransition" where
  "planned v attempt d ledger sha exhausted =
     bindE (compileTransition v attempt d sha (map_option encFact exhausted)) (\<lambda>t.
       Inr \<lparr>plannedOutcome = t, plannedLedger = ledger\<rparr>)"

definition oneReview :: val where
  "oneReview = Obj [(lit ''unit'', enumText unitStr ReviewIteration), (lit ''amount'', Num (Whole 1))]"

definition planPhaseAttemptTransition :: "val \<Rightarrow> sha256 \<Rightarrow> exn + plannedTransition" where
  "planPhaseAttemptTransition input sha =
     bindE (snapshotCanonical TypeError input) (\<lambda>v.
     bindE (validateTransitionInput v) (\<lambda>(t, n).
     bindE (iterationPolicyOf (get v ''policy'')) (\<lambda>p.
     bindE (createBudgetLedger (get v ''budgetLedger'')) (\<lambda>ledger.
     bindE (canonicalDigest (get v ''policy'') sha) (\<lambda>pd.
     if get v ''policyDigest'' \<noteq> Str pd then Inl (iterationError IInvalidIteration)
     else if t = ClosureCreated then planned v n ClosedPhase ledger sha None
     else if t = UpstreamChanged \<and> refuseUpstream p then planned v n Refused ledger sha None
     else if n \<ge> maxAttempts p then planned v n (exhaustion p) ledger sha
       (Some \<lparr>factUnit = ReviewIteration, factLimit = maxAttempts p, factUsed = n, factRequested = 1, factRemaining = 0\<rparr>)
     else bindE (consumeBudget (encLedger ledger) oneReview) (\<lambda>c. case c of
         Exhausted _ _ exhausted \<Rightarrow> planned v n (exhaustion p) ledger sha (Some exhausted)
       | Consumed ledger' _ \<Rightarrow> planned v n Iterate ledger' sha None))))))"

definition validatePhaseAttemptTransition :: "val \<Rightarrow> sha256 \<Rightarrow> exn + val" where
  "validatePhaseAttemptTransition v sha =
     bindE (snapshotCanonical TypeError v) (\<lambda>s.
     bindE (validateTransitionInput s) (\<lambda>(t, n).
     case enumOf transitionDispositionStr [Iterate, Escalate, FailPhase, ClosedPhase, Refused] (get s ''disposition'') of
       None \<Rightarrow> Inl (iterationError IInvalidIteration)
     | Some d \<Rightarrow>
         bindE (compileTransition s n d sha (if get s ''exhaustedFact'' = Undef then None else Some (get s ''exhaustedFact''))) (\<lambda>expected.
         if canonicalSerialize s \<noteq> canonicalSerialize expected then Inl (iterationError IInvalidIteration) else Inr expected)))"

end
