(* ===== verification/IterationProperties.thy ===== *)
theory IterationProperties
  imports Iteration BudgetHistory CanonicalInjective
begin

text \<open>
  The properties of iteration.ts: which transitionDisposition a transition gets and what it costs, that planned
  transitions are accepted by the validator, and that a phase is not iterated for ever.
\<close>

section \<open>Compiled transitions\<close>

lemma compile_eq_Inr:
  "compileTransition v n d sha ef = Inr t \<longleftrightarrow>
     (let digest = sha (canonicalBytes (Obj (transitionContent v n d ef)))
      in sha256Pattern digest \<and> t = Obj (transitionContent v n d ef @ [(lit ''transitionDigest'', Str digest)]) \<and>
         is_json (Obj (transitionContent v n d ef)) \<and> is_json t)"
  by (auto simp: compileTransition_def bindE_eq_Inr snapshotCanonical_eq_Inr canonicalDigest_eq_Inr Let_def simp del: is_json.simps)

lemma transition_fields:
  assumes "compileTransition v n d sha ef = Inr t"
  shows "get t ''repositoryId'' = get v ''repositoryId''" "get t ''runId'' = get v ''runId''" "get t ''phase'' = get v ''phase''"
    "get t ''attemptDigest'' = get v ''attemptDigest''"
    "get t ''predecessorTransitionDigest'' = get v ''predecessorTransitionDigest''"
    "get t ''trigger'' = get v ''trigger''" "get t ''triggerDigest'' = get v ''triggerDigest''"
    "get t ''policyDigest'' = get v ''policyDigest''" "get t ''disposition'' = enumText transitionDispositionStr d"
    "get t ''exhaustedFact'' = (case ef of None \<Rightarrow> Undef | Some f \<Rightarrow> f)"
    "get t ''nextAttempt'' = (if d = Iterate then Obj (spread (props (get v ''phase'')) [(lit ''attempt'', Num (Whole (n + 1)))]) else Undef)"
proof -
  from assms have t: "\<exists>x. t = Obj (transitionContent v n d ef @ [(lit ''transitionDigest'', Str x)])"
    unfolding compile_eq_Inr Let_def by blast
  show "get t ''repositoryId'' = get v ''repositoryId''" "get t ''runId'' = get v ''runId''" "get t ''phase'' = get v ''phase''"
    "get t ''attemptDigest'' = get v ''attemptDigest''"
    "get t ''predecessorTransitionDigest'' = get v ''predecessorTransitionDigest''"
    "get t ''trigger'' = get v ''trigger''" "get t ''triggerDigest'' = get v ''triggerDigest''"
    "get t ''policyDigest'' = get v ''policyDigest''" "get t ''disposition'' = enumText transitionDispositionStr d"
    "get t ''exhaustedFact'' = (case ef of None \<Rightarrow> Undef | Some f \<Rightarrow> f)"
    "get t ''nextAttempt'' = (if d = Iterate then Obj (spread (props (get v ''phase'')) [(lit ''attempt'', Num (Whole (n + 1)))]) else Undef)"
    using t by (cases ef; auto simp: transitionContent_def)+
qed

lemma enum_disposition:
  "enumOf transitionDispositionStr [Iterate, Escalate, FailPhase, ClosedPhase, Refused] (enumText transitionDispositionStr d) = Some d"
proof (rule enumOf_text)
  show "inj transitionDispositionStr"
  proof (rule injI)
    fix x y assume "transitionDispositionStr x = transitionDispositionStr y"
    then show "x = y" by (cases x; cases y) simp_all
  qed
  show "d \<in> set [Iterate, Escalate, FailPhase, ClosedPhase, Refused]" by (cases d) simp_all
qed

lemma validateTransitionInput_cong:
  assumes "v \<noteq> Null" "w \<noteq> Null"
    and "\<forall>k\<in>{''repositoryId'', ''runId'', ''phase'', ''attemptDigest'', ''predecessorTransitionDigest'', ''trigger'', ''triggerDigest'',
      ''policyDigest''}. get v k = get w k"
  shows "validateTransitionInput v = validateTransitionInput w"
  using assms by (simp add: validateTransitionInput_def cong: option.case_cong)

lemma compiled_validates:
  assumes c: "compileTransition v n d sha ef = Inr t" and v: "validateTransitionInput v = Inr (g, n)"
    and ef: "ef \<noteq> Some Undef"
  shows "validatePhaseAttemptTransition t sha = Inr t"
proof -
  note f = transition_fields [OF c]
  from c have j: "is_json t" and "\<exists>kvs. t = Obj kvs" unfolding compile_eq_Inr Let_def by blast+
  then have vn: "v \<noteq> Null" "t \<noteq> Null" using v by (auto simp: validateTransitionInput_def)
  have "validateTransitionInput t = Inr (g, n)"
    unfolding v [symmetric] by (rule validateTransitionInput_cong [OF vn(2,1)]) (simp add: f)
  moreover have "(if get t ''exhaustedFact'' = Undef then None else Some (get t ''exhaustedFact'')) = ef"
    using ef f(10) by (cases ef) auto
  moreover have "transitionContent t n d ef = transitionContent v n d ef"
    unfolding transitionContent_def f(1-8) ..
  then have "compileTransition t n d sha ef = Inr t" using c by (simp add: compileTransition_def)
  ultimately show ?thesis using j f(9)
    by (simp add: validatePhaseAttemptTransition_def snapshotCanonical_def enum_disposition)
qed

lemma spread_replaces:
  "k \<in> fst ` set a \<Longrightarrow> field (Obj (spread a [(k, x)])) k = x"
proof -
  assume k: "k \<in> fst ` set a"
  have "map_of (map (\<lambda>(k', v). (k', case map_of [(k, x)] k' of None \<Rightarrow> v | Some w \<Rightarrow> w)) a) k = Some x"
    using k by (induction a) auto
  then show ?thesis using k by (simp add: spread_def field_def)
qed

lemma field_present: "field v k \<noteq> Undef \<Longrightarrow> k \<in> fst ` set (props v)"
  by (cases "map_of (props v) k") (auto simp: field_def map_of_eq_None_iff dest: map_of_SomeD intro: rev_image_eqI)

lemma input_attempt: "validateTransitionInput v = Inr (t, n) \<Longrightarrow> get (get v ''phase'') ''attempt'' = Num (Whole n)"
  by (auto simp: validateTransitionInput_def posSafeInt_eq_Some split: option.splits if_split_asm)

section \<open>Planning\<close>

lemma oneReview_enc: "oneReview = encConsumption ReviewIteration 1"
  by (simp add: oneReview_def encConsumption_def enumText_def unitText_def)

lemma encFact_not_Undef: "map_option encFact ef \<noteq> Some Undef"
  by (cases ef) (simp_all add: encFact_def)

text \<open>What a plan decides, on the checked trigger and attempt, the policy and the ledger.\<close>

definition closes :: "iterationTrigger \<Rightarrow> iterationPolicy \<Rightarrow> bool" where
  "closes t p \<longleftrightarrow> t = ClosureCreated \<or> t = UpstreamChanged \<and> refuseUpstream p"

definition affordable :: "int \<Rightarrow> iterationPolicy \<Rightarrow> budgetLedger \<Rightarrow> bool" where
  "affordable n p l \<longleftrightarrow> n < maxAttempts p \<and>
     (\<exists>c. accounts l ReviewIteration = Some c \<and> counterUsed c + 1 \<le> counterLimit c)"

lemma plan_cases:
  assumes "planPhaseAttemptTransition v sha = Inr x"
  obtains t n p l where "is_json v" "validateTransitionInput v = Inr (t, n)" "iterationPolicyOf (get v ''policy'') = Inr p"
    "createBudgetLedger (get v ''budgetLedger'') = Inr l" "okLedger l"
    "if closes t p then plannedLedger x = l \<and>
         compileTransition v n (if t = ClosureCreated then ClosedPhase else Refused) sha None = Inr (plannedOutcome x)
       else if affordable n p l then compileTransition v n Iterate sha None = Inr (plannedOutcome x) \<and> okLedger (plannedLedger x) \<and>
         (\<exists>c. accounts l ReviewIteration = Some c \<and> counterUsed c + 1 \<le> counterLimit c \<and>
            accounts (plannedLedger x) = (accounts l)(ReviewIteration \<mapsto> c\<lparr>counterUsed := counterUsed c + 1\<rparr>) \<and>
            appliedAllowances (plannedLedger x) = appliedAllowances l)
       else plannedLedger x = l \<and>
         (\<exists>f. factUnit f = ReviewIteration \<and> factRequested f = 1 \<and> factRemaining f = 0 \<and>
            compileTransition v n (exhaustion p) sha (Some (encFact f)) = Inr (plannedOutcome x))"
proof -
  from assms obtain t n p l where v: "is_json v" "validateTransitionInput v = Inr (t, n)" "iterationPolicyOf (get v ''policy'') = Inr p"
      "createBudgetLedger (get v ''budgetLedger'') = Inr l"
    and r: "(if t = ClosureCreated then planned v n ClosedPhase l sha None
     else if t = UpstreamChanged \<and> refuseUpstream p then planned v n Refused l sha None
     else if n \<ge> maxAttempts p then planned v n (exhaustion p) l sha
       (Some \<lparr>factUnit = ReviewIteration, factLimit = maxAttempts p, factUsed = n, factRequested = 1, factRemaining = 0\<rparr>)
     else bindE (consumeBudget (encLedger l) oneReview) (\<lambda>c. case c of
         Exhausted _ _ ef \<Rightarrow> planned v n (exhaustion p) l sha (Some ef)
       | Consumed l' _ \<Rightarrow> planned v n Iterate l' sha None)) = Inr x"
    by (auto simp: planPhaseAttemptTransition_def bindE_eq_Inr snapshotCanonical_eq_Inr split: if_split_asm)
  have ok: "okLedger l" by (rule ledgers.dec_ok [OF v(4)])
  have pl: "planned v n d k sha ef = Inr x \<longleftrightarrow> plannedLedger x = k \<and>
      compileTransition v n d sha (map_option encFact ef) = Inr (plannedOutcome x)" for d k ef
    by (cases x) (auto simp: planned_def bindE_eq_Inr)
  show thesis
  proof (rule that [OF v ok])
    show "if closes t p then plannedLedger x = l \<and>
         compileTransition v n (if t = ClosureCreated then ClosedPhase else Refused) sha None = Inr (plannedOutcome x)
       else if affordable n p l then compileTransition v n Iterate sha None = Inr (plannedOutcome x) \<and> okLedger (plannedLedger x) \<and>
         (\<exists>c. accounts l ReviewIteration = Some c \<and> counterUsed c + 1 \<le> counterLimit c \<and>
            accounts (plannedLedger x) = (accounts l)(ReviewIteration \<mapsto> c\<lparr>counterUsed := counterUsed c + 1\<rparr>) \<and>
            appliedAllowances (plannedLedger x) = appliedAllowances l)
       else plannedLedger x = l \<and>
         (\<exists>f. factUnit f = ReviewIteration \<and> factRequested f = 1 \<and> factRemaining f = 0 \<and>
            compileTransition v n (exhaustion p) sha (Some (encFact f)) = Inr (plannedOutcome x))"
    proof (cases "closes t p")
      case True
      with r show ?thesis by (auto simp: closes_def pl split: if_splits)
    next
      case False
      show ?thesis
      proof (cases "n \<ge> maxAttempts p")
        case True
        let ?f = "\<lparr>factUnit = ReviewIteration, factLimit = maxAttempts p, factUsed = n, factRequested = 1, factRemaining = 0\<rparr>"
        from True False r have "plannedLedger x = l" "compileTransition v n (exhaustion p) sha (Some (encFact ?f)) = Inr (plannedOutcome x)"
          by (auto simp: closes_def pl split: if_splits)
        moreover have "\<not> affordable n p l" using True by (simp add: affordable_def)
        ultimately show ?thesis using False by (auto intro!: exI [of _ ?f])
      next
        case n: False
        with False r obtain c where c: "consumeBudget (encLedger l) (encConsumption ReviewIteration 1) = Inr c"
          and x: "(case c of Exhausted _ _ ef \<Rightarrow> planned v n (exhaustion p) l sha (Some ef)
            | Consumed l' _ \<Rightarrow> planned v n Iterate l' sha None) = Inr x"
          by (auto simp: closes_def oneReview_enc bindE_eq_Inr split: if_splits)
        note cs = consumeBudget_cases [OF ok, of 1 ReviewIteration, unfolded c, simplified]
        show ?thesis
        proof (cases c)
          case (Consumed l' c')
          with cs x n False show ?thesis by (auto simp: pl affordable_def maxSafe_def)
        next
          case (Exhausted l' c' f)
          with cs have "accounts l ReviewIteration = Some c'" "counterLimit c' < counterUsed c' + 1"
              "f = \<lparr>factUnit = ReviewIteration, factLimit = counterLimit c', factUsed = counterUsed c',
                factRequested = 1, factRemaining = counterLimit c' - counterUsed c'\<rparr>" by (auto simp: maxSafe_def)
          moreover from accounts_ok [OF ok this(1)] have "counterUsed c' \<le> counterLimit c'" by (simp add: okCounter_def)
          ultimately show ?thesis using x n False Exhausted
            by (auto simp: pl affordable_def intro!: exI [of _ "\<lparr>factUnit = ReviewIteration, factLimit = counterUsed c',
              factUsed = counterUsed c', factRequested = 1, factRemaining = 0\<rparr>"])
        qed
      qed
    qed
  qed
qed

section \<open>The properties\<close>

text \<open>C28. A plan decides as follows. A closed phase, and an upstream change the policy refuses, cost nothing.
  Otherwise a phase is iterated exactly when its attempt is below the limit of the policy and a
  review iteration is left in the budget: the ledger is charged one review iteration and nothing
  else, and the next attempt is the attempt after this one. In every other case the exhaustion of
  the policy is decided, the ledger is unchanged and the exhausted fact is recorded.\<close>

theorem plan_exact:
  assumes "planPhaseAttemptTransition v sha = Inr x"
  shows "\<exists>t n p l. validateTransitionInput v = Inr (t, n) \<and> iterationPolicyOf (get v ''policy'') = Inr p \<and>
     createBudgetLedger (get v ''budgetLedger'') = Inr l \<and>
     (if closes t p then plannedLedger x = l \<and>
        get (plannedOutcome x) ''disposition'' = enumText transitionDispositionStr (if t = ClosureCreated then ClosedPhase else Refused)
      else if affordable n p l then
        get (plannedOutcome x) ''disposition'' = enumText transitionDispositionStr Iterate \<and>
        get (get (plannedOutcome x) ''nextAttempt'') ''attempt'' = Num (Whole (n + 1)) \<and> n + 1 \<le> maxAttempts p \<and>
        (\<exists>c. accounts l ReviewIteration = Some c \<and> counterUsed c + 1 \<le> counterLimit c \<and>
           accounts (plannedLedger x) = (accounts l)(ReviewIteration \<mapsto> c\<lparr>counterUsed := counterUsed c + 1\<rparr>))
      else plannedLedger x = l \<and> get (plannedOutcome x) ''disposition'' = enumText transitionDispositionStr (exhaustion p) \<and>
        (\<exists>f. get (plannedOutcome x) ''exhaustedFact'' = encFact f \<and> factUnit f = ReviewIteration \<and> factRemaining f = 0))"
  using assms
proof (rule plan_cases)
  fix t n p l
  assume v: "validateTransitionInput v = Inr (t, n)" "iterationPolicyOf (get v ''policy'') = Inr p"
      "createBudgetLedger (get v ''budgetLedger'') = Inr l"
    and c: "if closes t p then plannedLedger x = l \<and>
         compileTransition v n (if t = ClosureCreated then ClosedPhase else Refused) sha None = Inr (plannedOutcome x)
       else if affordable n p l then compileTransition v n Iterate sha None = Inr (plannedOutcome x) \<and> okLedger (plannedLedger x) \<and>
         (\<exists>c. accounts l ReviewIteration = Some c \<and> counterUsed c + 1 \<le> counterLimit c \<and>
            accounts (plannedLedger x) = (accounts l)(ReviewIteration \<mapsto> c\<lparr>counterUsed := counterUsed c + 1\<rparr>) \<and>
            appliedAllowances (plannedLedger x) = appliedAllowances l)
       else plannedLedger x = l \<and>
         (\<exists>f. factUnit f = ReviewIteration \<and> factRequested f = 1 \<and> factRemaining f = 0 \<and>
            compileTransition v n (exhaustion p) sha (Some (encFact f)) = Inr (plannedOutcome x))"
  have "lit ''attempt'' \<in> fst ` set (props (get v ''phase''))" by (rule field_present) (simp add: input_attempt [OF v(1)])
  then have a: "get (Obj (spread (props (get v ''phase'')) [(lit ''attempt'', Num (Whole (n + 1)))])) ''attempt'' = Num (Whole (n + 1))"
    by (rule spread_replaces)
  show ?thesis
  proof (intro exI [of _ t] exI [of _ n] exI [of _ p] exI [of _ l] conjI v)
    consider (closed) "closes t p" | (iterated) "\<not> closes t p" "affordable n p l" | (exhausted) "\<not> closes t p" "\<not> affordable n p l" by blast
    then show "if closes t p then plannedLedger x = l \<and>
        get (plannedOutcome x) ''disposition'' = enumText transitionDispositionStr (if t = ClosureCreated then ClosedPhase else Refused)
      else if affordable n p l then
        get (plannedOutcome x) ''disposition'' = enumText transitionDispositionStr Iterate \<and>
        get (get (plannedOutcome x) ''nextAttempt'') ''attempt'' = Num (Whole (n + 1)) \<and> n + 1 \<le> maxAttempts p \<and>
        (\<exists>c. accounts l ReviewIteration = Some c \<and> counterUsed c + 1 \<le> counterLimit c \<and>
           accounts (plannedLedger x) = (accounts l)(ReviewIteration \<mapsto> c\<lparr>counterUsed := counterUsed c + 1\<rparr>))
      else plannedLedger x = l \<and> get (plannedOutcome x) ''disposition'' = enumText transitionDispositionStr (exhaustion p) \<and>
        (\<exists>f. get (plannedOutcome x) ''exhaustedFact'' = encFact f \<and> factUnit f = ReviewIteration \<and> factRemaining f = 0)"
    proof cases
      case closed
      with c have k: "plannedLedger x = l" "compileTransition v n (if t = ClosureCreated then ClosedPhase else Refused) sha None = Inr (plannedOutcome x)"
        by auto
      from transition_fields(9) [OF k(2)] k(1) closed show ?thesis by simp
    next
      case iterated
      then have "compileTransition v n Iterate sha None = Inr (plannedOutcome x)" and
        l: "\<exists>c. accounts l ReviewIteration = Some c \<and> counterUsed c + 1 \<le> counterLimit c \<and>
            accounts (plannedLedger x) = (accounts l)(ReviewIteration \<mapsto> c\<lparr>counterUsed := counterUsed c + 1\<rparr>)" using c by auto
      from transition_fields(9,11) [OF this(1)] iterated l show ?thesis by (simp add: a) (simp add: affordable_def)
    next
      case exhausted
      then obtain f where f: "plannedLedger x = l" "factUnit f = ReviewIteration" "factRemaining f = 0"
        "compileTransition v n (exhaustion p) sha (Some (encFact f)) = Inr (plannedOutcome x)" using c by auto
      from transition_fields(9,10) [OF f(4)] f(1-3) exhausted show ?thesis by auto
    qed
  qed
qed

text \<open>A planned transition is accepted by the validator as it is, and the validator accepts nothing but
  canonical transitions: what it accepts is, up to the order of properties, what it returns, and
  that validates to itself.\<close>

theorem planned_validates:
  "(planPhaseAttemptTransition v sha = Inr x \<longrightarrow> validatePhaseAttemptTransition (plannedOutcome x) sha = Inr (plannedOutcome x)) \<and>
   (validatePhaseAttemptTransition w sha = Inr y \<longrightarrow> norm w = norm y \<and> validatePhaseAttemptTransition y sha = Inr y)"
proof (intro conjI impI)
  assume "planPhaseAttemptTransition v sha = Inr x"
  then show "validatePhaseAttemptTransition (plannedOutcome x) sha = Inr (plannedOutcome x)"
  proof (rule plan_cases)
    fix t n p l
    assume v: "validateTransitionInput v = Inr (t, n)"
      and "if closes t p then plannedLedger x = l \<and>
         compileTransition v n (if t = ClosureCreated then ClosedPhase else Refused) sha None = Inr (plannedOutcome x)
       else if affordable n p l then compileTransition v n Iterate sha None = Inr (plannedOutcome x) \<and> okLedger (plannedLedger x) \<and>
         (\<exists>c. accounts l ReviewIteration = Some c \<and> counterUsed c + 1 \<le> counterLimit c \<and>
            accounts (plannedLedger x) = (accounts l)(ReviewIteration \<mapsto> c\<lparr>counterUsed := counterUsed c + 1\<rparr>) \<and>
            appliedAllowances (plannedLedger x) = appliedAllowances l)
       else plannedLedger x = l \<and>
         (\<exists>f. factUnit f = ReviewIteration \<and> factRequested f = 1 \<and> factRemaining f = 0 \<and>
            compileTransition v n (exhaustion p) sha (Some (encFact f)) = Inr (plannedOutcome x))"
    then have "\<exists>d ef. compileTransition v n d sha (map_option encFact ef) = Inr (plannedOutcome x)"
      by (metis option.simps(8,9))
    then show ?thesis using compiled_validates [OF _ v] encFact_not_Undef by blast
  qed
next
  assume w: "validatePhaseAttemptTransition w sha = Inr y"
  then obtain t n d where v: "is_json w" "validateTransitionInput w = Inr (t, n)"
      "compileTransition w n d sha (if get w ''exhaustedFact'' = Undef then None else Some (get w ''exhaustedFact'')) = Inr y"
      "canonicalSerialize w = canonicalSerialize y"
    by (auto simp: validatePhaseAttemptTransition_def bindE_eq_Inr snapshotCanonical_eq_Inr split: option.splits if_split_asm)
  from compiled_validates [OF v(3,2)] show "validatePhaseAttemptTransition y sha = Inr y" by simp
  have "is_json y" using v(3) unfolding compile_eq_Inr Let_def by blast
  then show "norm w = norm y" using v(1,4) by (simp add: canonicalSerialize_def serialize_eq_iff)
qed

section \<open>Chains of attempts\<close>

text \<open>\<open>w\<close> is planned for the attempt that the plan of \<open>v\<close> started, against the ledger it left.\<close>

definition iteratesTo :: "sha256 \<Rightarrow> val \<Rightarrow> val \<Rightarrow> bool" where
  "iteratesTo sha v w \<longleftrightarrow> (\<exists>x. planPhaseAttemptTransition v sha = Inr x \<and>
     get (plannedOutcome x) ''disposition'' = enumText transitionDispositionStr Iterate \<and>
     get w ''phase'' = get (plannedOutcome x) ''nextAttempt'' \<and>
     get w ''budgetLedger'' = encLedger (plannedLedger x) \<and> get w ''policy'' = get v ''policy'')"

lemma dispositionStr_Iterate: "enumText transitionDispositionStr d = enumText transitionDispositionStr Iterate \<longleftrightarrow> d = Iterate"
  by (cases d) (simp_all add: enumText_def)

lemma policy_exhaustion: "iterationPolicyOf v = Inr p \<Longrightarrow> exhaustion p \<noteq> Iterate"
  by (auto simp: iterationPolicyOf_def split: if_splits option.splits dest!: enumOf_eq_Some)

lemma iterate_step:
  assumes "iteratesTo sha v w"
  obtains t n p l c where "validateTransitionInput v = Inr (t, n)" "iterationPolicyOf (get v ''policy'') = Inr p"
    "createBudgetLedger (get v ''budgetLedger'') = Inr l" "n + 1 \<le> maxAttempts p"
    "accounts l ReviewIteration = Some c" "counterUsed c + 1 \<le> counterLimit c"
    "get (get w ''phase'') ''attempt'' = Num (Whole (n + 1))" "iterationPolicyOf (get w ''policy'') = Inr p"
    "\<exists>m. createBudgetLedger (get w ''budgetLedger'') = Inr m \<and>
       accounts m ReviewIteration = Some (c\<lparr>counterUsed := counterUsed c + 1\<rparr>)"
proof -
  from assms obtain x where x: "planPhaseAttemptTransition v sha = Inr x"
      "get (plannedOutcome x) ''disposition'' = enumText transitionDispositionStr Iterate"
      "get w ''phase'' = get (plannedOutcome x) ''nextAttempt''" "get w ''budgetLedger'' = encLedger (plannedLedger x)"
      "get w ''policy'' = get v ''policy''" unfolding iteratesTo_def by blast
  from x(1) show thesis
  proof (rule plan_cases)
    fix t n p l
    assume v: "validateTransitionInput v = Inr (t, n)" "iterationPolicyOf (get v ''policy'') = Inr p"
        "createBudgetLedger (get v ''budgetLedger'') = Inr l"
      and c: "if closes t p then plannedLedger x = l \<and>
         compileTransition v n (if t = ClosureCreated then ClosedPhase else Refused) sha None = Inr (plannedOutcome x)
       else if affordable n p l then compileTransition v n Iterate sha None = Inr (plannedOutcome x) \<and> okLedger (plannedLedger x) \<and>
         (\<exists>c. accounts l ReviewIteration = Some c \<and> counterUsed c + 1 \<le> counterLimit c \<and>
            accounts (plannedLedger x) = (accounts l)(ReviewIteration \<mapsto> c\<lparr>counterUsed := counterUsed c + 1\<rparr>) \<and>
            appliedAllowances (plannedLedger x) = appliedAllowances l)
       else plannedLedger x = l \<and>
         (\<exists>f. factUnit f = ReviewIteration \<and> factRequested f = 1 \<and> factRemaining f = 0 \<and>
            compileTransition v n (exhaustion p) sha (Some (encFact f)) = Inr (plannedOutcome x))"
    have d: "d = Iterate" if "compileTransition v n d sha ef = Inr (plannedOutcome x)" for d ef
      using transition_fields(9) [OF that] x(2) dispositionStr_Iterate by metis
    have "\<not> closes t p" using c d [of "if t = ClosureCreated then ClosedPhase else Refused" None] by (auto split: if_splits)
    moreover have "affordable n p l" using c \<open>\<not> closes t p\<close> d [of "exhaustion p"] policy_exhaustion [OF v(2)] by (auto split: if_splits)
    ultimately obtain k where k: "compileTransition v n Iterate sha None = Inr (plannedOutcome x)" "okLedger (plannedLedger x)"
        "accounts l ReviewIteration = Some k" "counterUsed k + 1 \<le> counterLimit k"
        "accounts (plannedLedger x) = (accounts l)(ReviewIteration \<mapsto> k\<lparr>counterUsed := counterUsed k + 1\<rparr>)" using c by auto
    have "lit ''attempt'' \<in> fst ` set (props (get v ''phase''))" by (rule field_present) (simp add: input_attempt [OF v(1)])
    then have a: "get (get w ''phase'') ''attempt'' = Num (Whole (n + 1))"
      unfolding x(3) using transition_fields(11) [OF k(1)] by (simp add: spread_replaces)
    show thesis
      by (rule that [OF v _ k(3,4) a])
        (use v k x ledgers.dec_enc [OF k(2)] \<open>affordable n p l\<close> in \<open>simp_all add: affordable_def\<close>)
  qed
qed

text \<open>C18. Iteration ends: a chain of plans, each for the attempt the plan before it started and against the
  ledger it left, is no longer than the attempts the policy leaves after the first plan's attempt,
  and no longer than the review iterations left in its ledger.\<close>

theorem iteration_ends:
  assumes "successively (iteratesTo sha) (v # ws)" "ws \<noteq> []"
  shows "\<exists>t n p l c. validateTransitionInput v = Inr (t, n) \<and> iterationPolicyOf (get v ''policy'') = Inr p \<and>
     createBudgetLedger (get v ''budgetLedger'') = Inr l \<and> accounts l ReviewIteration = Some c \<and>
     int (length ws) \<le> maxAttempts p - n \<and> int (length ws) \<le> counterLimit c - counterUsed c"
  using assms
proof (induction ws arbitrary: v)
  case (Cons w ws)
  then have "iteratesTo sha v w" by simp
  then obtain t n p l c where s: "validateTransitionInput v = Inr (t, n)" "iterationPolicyOf (get v ''policy'') = Inr p"
    "createBudgetLedger (get v ''budgetLedger'') = Inr l" "n + 1 \<le> maxAttempts p"
    "accounts l ReviewIteration = Some c" "counterUsed c + 1 \<le> counterLimit c"
    "get (get w ''phase'') ''attempt'' = Num (Whole (n + 1))" "iterationPolicyOf (get w ''policy'') = Inr p"
    "\<exists>m. createBudgetLedger (get w ''budgetLedger'') = Inr m \<and>
       accounts m ReviewIteration = Some (c\<lparr>counterUsed := counterUsed c + 1\<rparr>)" by (rule iterate_step)
  show ?case
  proof (cases "ws = []")
    case True
    with s show ?thesis by auto
  next
    case False
    have "successively (iteratesTo sha) (w # ws)" using Cons.prems(1) by simp
    from Cons.IH [OF this False] obtain t' n' p' l' c' where i: "validateTransitionInput w = Inr (t', n')" "iterationPolicyOf (get w ''policy'') = Inr p'"
      "createBudgetLedger (get w ''budgetLedger'') = Inr l'" "accounts l' ReviewIteration = Some c'"
      "int (length ws) \<le> maxAttempts p' - n'" "int (length ws) \<le> counterLimit c' - counterUsed c'" by (elim exE conjE) (rule that)
    from input_attempt [OF i(1)] s(7) have "n' = n + 1" by simp
    with i s show ?thesis by auto
  qed
qed simp

section \<open>An example\<close>

text \<open>A phase with at most three attempts and two review iterations, of which some are used.\<close>

definition demoReviews :: "int \<Rightarrow> budgetLedger" where
  "demoReviews used = \<lparr>counters = [\<lparr>counterUnit = ReviewIteration, counterLimit = 2, counterUsed = used\<rparr>], appliedAllowances = []\<rparr>"

definition demoIterationPolicy :: val where
  "demoIterationPolicy = Obj [(lit ''maxAttempts'', Num (Whole 3)), (lit ''upstreamChange'', Str (lit ''iterate'')),
     (lit ''exhaustion'', Str (lit ''escalate''))]"

definition demoAttempt :: "int \<Rightarrow> val" where
  "demoAttempt n = Obj [(lit ''phaseId'', Str (lit ''phase_p'')), (lit ''definitionGeneration'', Num (Whole 1)),
     (lit ''attempt'', Num (Whole n))]"

definition demoIteration :: "int \<Rightarrow> val" where
  "demoIteration n = Obj [(lit ''repositoryId'', Str (lit ''r'')), (lit ''runId'', Str (lit ''run_r'')), (lit ''phase'', demoAttempt n),
     (lit ''attemptDigest'', Str (replicate 64 48)), (lit ''trigger'', Str (lit ''gate-rejected'')),
     (lit ''triggerDigest'', Str (replicate 64 48)), (lit ''policyDigest'', Str (replicate 64 48)),
     (lit ''policy'', demoIterationPolicy), (lit ''budgetLedger'', encLedger (demoReviews (n - 1)))]"

lemma demo_iteration_values: "isIdentity RunKind (Str (lit ''run_r''))" "isIdentity PhaseKind (Str (lit ''phase_p''))"
    "sha256Pattern (replicate 64 48)"
  by code_simp+

lemma demo_reviews_ok: "0 \<le> n \<Longrightarrow> n \<le> 2 \<Longrightarrow> okLedger (demoReviews n)"
  by (simp add: okLedger_def demoReviews_def okCounter_def safe_bounds maxSafe_def)

lemma demo_iteration_fields:
  "get (demoIteration n) ''repositoryId'' = Str (lit ''r'')" "get (demoIteration n) ''runId'' = Str (lit ''run_r'')"
  "get (demoIteration n) ''phase'' = demoAttempt n" "get (demoIteration n) ''attemptDigest'' = Str (replicate 64 48)"
  "get (demoIteration n) ''predecessorTransitionDigest'' = Undef" "get (demoIteration n) ''trigger'' = Str (lit ''gate-rejected'')"
  "get (demoIteration n) ''triggerDigest'' = Str (replicate 64 48)" "get (demoIteration n) ''policyDigest'' = Str (replicate 64 48)"
  "get (demoIteration n) ''policy'' = demoIterationPolicy" "get (demoIteration n) ''budgetLedger'' = encLedger (demoReviews (n - 1))"
  by (simp_all add: demoIteration_def)

lemma demo_iterates:
  assumes "1 \<le> n" "n \<le> 2"
  shows "\<exists>x. planPhaseAttemptTransition (demoIteration n) flatSha = Inr x \<and> plannedLedger x = demoReviews n \<and>
     get (plannedOutcome x) ''disposition'' = enumText transitionDispositionStr Iterate \<and>
     get (plannedOutcome x) ''nextAttempt'' = demoAttempt (n + 1)"
proof -
  have small: "safeInt (Num (Whole n)) = Some n" "wf_num (Whole n)" "wf_num (Whole (n + 1))"
    using assms by (simp_all add: safe_bounds maxSafe_def wf_num_def)
  have ok: "okLedger (demoReviews (n - 1))" by (rule demo_reviews_ok) (use assms in auto)
  have json: "is_json (demoIteration n)"
    using encLedger_json [OF ok] small by (simp add: demoIteration_def demoAttempt_def demoIterationPolicy_def wf_num_def)
  have v: "validateTransitionInput (demoIteration n) = Inr (GateRejected, n)"
    using small assms unfolding validateTransitionInput_def demo_iteration_fields
    by (simp add: demoAttempt_def demo_iteration_values isRepositoryId_def enumOf_def isDefinitionGeneration_def safe_bounds maxSafe_def
        demoIteration_def)
  have p: "iterationPolicyOf demoIterationPolicy = Inr \<lparr>maxAttempts = 3, refuseUpstream = False, exhaustion = Escalate\<rparr>"
    by (simp add: iterationPolicyOf_def demoIterationPolicy_def enumOf_def safe_bounds maxSafe_def)
  have c: "consumeBudget (encLedger (demoReviews (n - 1))) oneReview =
      Inr (Consumed (demoReviews n) \<lparr>counterUnit = ReviewIteration, counterLimit = 2, counterUsed = n\<rparr>)"
    unfolding oneReview_enc using assms
    by (simp add: consumeBudget_valid [OF ok] maxSafe_def) (simp add: demoReviews_def)
  let ?t = "transitionContent (demoIteration n) n Iterate None"
  have next_attempt: "Obj (spread (props (demoAttempt n)) [(lit ''attempt'', Num (Whole (n + 1)))]) = demoAttempt (n + 1)"
    by (simp add: spread_def demoAttempt_def)
  have j: "is_json (Obj ?t)" "is_json (Obj (?t @ [(lit ''transitionDigest'', Str (replicate 64 48))]))"
    unfolding transitionContent_def demo_iteration_fields next_attempt
    using small by (simp_all add: demoAttempt_def enumText_def transitionApiVersion_def wf_num_def)
  have t: "compileTransition (demoIteration n) n Iterate flatSha None = Inr (Obj (?t @ [(lit ''transitionDigest'', Str (replicate 64 48))]))"
    unfolding compileTransition_def snapshotCanonical_def if_P [OF j(1)] bindE_Inr flatSha_digest if_P [OF j(2)] ..
  have "planPhaseAttemptTransition (demoIteration n) flatSha =
      Inr \<lparr>plannedOutcome = Obj (?t @ [(lit ''transitionDigest'', Str (replicate 64 48))]), plannedLedger = demoReviews n\<rparr>"
    using assms ledgers.dec_enc [OF ok]
    by (simp add: planPhaseAttemptTransition_def snapshotCanonical_def json v demo_iteration_fields(8-10) p c planned_def t)
  then show ?thesis using transition_fields(9,11) [OF t] by (simp add: demo_iteration_fields next_attempt)
qed

theorem plan_exact_witness:
  "\<exists>x. planPhaseAttemptTransition (demoIteration 1) flatSha = Inr x \<and> get (get (plannedOutcome x) ''nextAttempt'') ''attempt'' = Num (Whole 2)"
proof -
  from demo_iterates [of 1] obtain x where x: "planPhaseAttemptTransition (demoIteration 1) flatSha = Inr x"
      "get (plannedOutcome x) ''disposition'' = enumText transitionDispositionStr Iterate" by auto
  from plan_exact [OF x(1)] obtain t n p l where e: "validateTransitionInput (demoIteration 1) = Inr (t, n)"
      "iterationPolicyOf (get (demoIteration 1) ''policy'') = Inr p"
    and c: "if closes t p then plannedLedger x = l \<and>
        get (plannedOutcome x) ''disposition'' = enumText transitionDispositionStr (if t = ClosureCreated then ClosedPhase else Refused)
      else if affordable n p l then
        get (plannedOutcome x) ''disposition'' = enumText transitionDispositionStr Iterate \<and>
        get (get (plannedOutcome x) ''nextAttempt'') ''attempt'' = Num (Whole (n + 1)) \<and> n + 1 \<le> maxAttempts p \<and>
        (\<exists>c. accounts l ReviewIteration = Some c \<and> counterUsed c + 1 \<le> counterLimit c \<and>
           accounts (plannedLedger x) = (accounts l)(ReviewIteration \<mapsto> c\<lparr>counterUsed := counterUsed c + 1\<rparr>))
      else plannedLedger x = l \<and> get (plannedOutcome x) ''disposition'' = enumText transitionDispositionStr (exhaustion p) \<and>
        (\<exists>f. get (plannedOutcome x) ''exhaustedFact'' = encFact f \<and> factUnit f = ReviewIteration \<and> factRemaining f = 0)"
    by (elim exE conjE) (rule that)
  have "n = 1" using input_attempt [OF e(1)] by (simp add: demo_iteration_fields demoAttempt_def)
  moreover have "\<not> (get (plannedOutcome x) ''disposition'' = enumText transitionDispositionStr (if t = ClosureCreated then ClosedPhase else Refused))"
    "\<not> (get (plannedOutcome x) ''disposition'' = enumText transitionDispositionStr (exhaustion p))"
    using policy_exhaustion [OF e(2)] unfolding x(2) by (simp_all add: dispositionStr_Iterate eq_commute [of "enumText transitionDispositionStr Iterate"])
  ultimately have "get (get (plannedOutcome x) ''nextAttempt'') ''attempt'' = Num (Whole 2)" using c by (auto split: if_split_asm)
  with x(1) show ?thesis by blast
qed

theorem planned_validates_witness:
  "\<exists>x. planPhaseAttemptTransition (demoIteration 1) flatSha = Inr x \<and>
     validatePhaseAttemptTransition (plannedOutcome x) flatSha = Inr (plannedOutcome x)"
proof -
  from demo_iterates [of 1] obtain x where x: "planPhaseAttemptTransition (demoIteration 1) flatSha = Inr x" by auto
  with planned_validates [of "demoIteration 1" flatSha x] show ?thesis by blast
qed

theorem iteration_ends_witness:
  "successively (iteratesTo flatSha) [demoIteration 1, demoIteration 2] \<and>
   (\<exists>p. iterationPolicyOf demoIterationPolicy = Inr p \<and> 1 \<le> maxAttempts p - 1)"
proof -
  from demo_iterates [of 1] have i: "iteratesTo flatSha (demoIteration 1) (demoIteration 2)"
    unfolding iteratesTo_def by (auto simp: demo_iteration_fields)
  then have chain: "successively (iteratesTo flatSha) [demoIteration 1, demoIteration 2]" by simp
  have "[demoIteration 2] \<noteq> []" by simp
  from iteration_ends [OF chain this] obtain t n p where e: "validateTransitionInput (demoIteration 1) = Inr (t, n)"
      "iterationPolicyOf (get (demoIteration 1) ''policy'') = Inr p" "int (length [demoIteration 2]) \<le> maxAttempts p - n"
    by (elim exE conjE) (rule that)
  have "n = 1" using input_attempt [OF e(1)] by (simp add: demo_iteration_fields demoAttempt_def)
  with e chain show ?thesis by (simp add: demo_iteration_fields)
qed

end
