(* ===== verification/Dataflow.thy ===== *)
theory Dataflow
  imports Identity Codecs Pointers JsMaps
begin

text \<open>
  packages/kernel/src/dataflow.ts: the input of a phase assembled from accepted sources by data
  mappings, and the records that bind inputs, attempts and outputs of phases by digest. The records
  keep the fields of the value they were created from, so they are values here.
\<close>

abbreviation invalidRecord :: exn where
  "invalidRecord \<equiv> DataflowError DInvalidRecord"

section \<open>Mappings\<close>

datatype dataSource = WorkflowInput | PhaseOutput jstr jstr | CurrentItem | EvidenceView jstr jstr

record dataMapping =
  mappingKey :: jstr
  mappingSource :: dataSource
  mappingPointer :: jstr
  mappingDestination :: jstr

record sourceBinding =
  boundSource :: dataSource
  boundDigest :: jstr
  boundAcceptance :: "jstr option"
  boundValue :: val

record mappingPolicy =
  dependencyPhases :: "jstr list"
  declaredPhaseOutputs :: "(jstr \<times> jstr) list"
  completionEvidenceViews :: "(jstr \<times> jstr) list"
  allowCurrentItem :: bool

record evaluatedMapping =
  evaluatedKey :: jstr
  evaluatedSource :: dataSource
  evaluatedPointer :: jstr
  evaluatedBinding :: jstr
  evaluatedDigest :: jstr
  evaluatedDestination :: jstr

record evaluatedInput =
  inputValue :: val
  inputMappings :: "evaluatedMapping list"
  inputContentDigest :: jstr
  inputSourceSet :: jstr

fun sourceKind :: "dataSource \<Rightarrow> string" where
  "sourceKind WorkflowInput = ''workflow-input''"
| "sourceKind (PhaseOutput phase out) = ''phase-output''"
| "sourceKind CurrentItem = ''current-item''"
| "sourceKind (EvidenceView phase view) = ''completion-evidence''"

fun sourceProps :: "dataSource \<Rightarrow> (jstr \<times> val) list" where
  "sourceProps (PhaseOutput phase out) = [(lit ''kind'', Str (lit ''phase-output'')),
     (lit ''phase'', Str phase), (lit ''output'', Str out)]"
| "sourceProps (EvidenceView phase view) = [(lit ''kind'', Str (lit ''completion-evidence'')),
     (lit ''phase'', Str phase), (lit ''view'', Str view)]"
| "sourceProps s = [(lit ''kind'', Str (lit (sourceKind s)))]"

definition encMappingSource :: "dataSource \<Rightarrow> jstr \<Rightarrow> val" where
  "encMappingSource s pointer = Obj (sourceProps s @ [(lit ''pointer'', Str pointer)])"

definition encMapping :: "dataMapping \<Rightarrow> val" where
  "encMapping m = Obj [(lit ''key'', Str (mappingKey m)),
     (lit ''source'', encMappingSource (mappingSource m) (mappingPointer m)),
     (lit ''destinationPointer'', Str (mappingDestination m))]"

definition encEvaluatedMapping :: "evaluatedMapping \<Rightarrow> val" where
  "encEvaluatedMapping m = Obj [(lit ''mappingKey'', Str (evaluatedKey m)),
     (lit ''source'', encMappingSource (evaluatedSource m) (evaluatedPointer m)),
     (lit ''sourceBindingDigest'', Str (evaluatedBinding m)),
     (lit ''selectedValueDigest'', Str (evaluatedDigest m)),
     (lit ''destinationPointer'', Str (evaluatedDestination m))]"

definition encEvaluatedInput :: "evaluatedInput \<Rightarrow> val" where
  "encEvaluatedInput r = Obj [(lit ''value'', inputValue r),
     (lit ''mappings'', Arr (map encEvaluatedMapping (inputMappings r))),
     (lit ''contentDigest'', Str (inputContentDigest r)), (lit ''sourceSetDigest'', Str (inputSourceSet r))]"

definition parseJsonPointer :: "jstr \<Rightarrow> exn + jstr list" where
  "parseJsonPointer pointer = readPointer 2048 128 (DataflowError DInvalidPointer) pointer"

definition keyOf :: "val \<Rightarrow> exn + jstr" where
  "keyOf v = strIf isConsumerKey invalidRecord v"

definition validateMappingSource :: "val \<Rightarrow> exn + dataSource \<times> jstr" where
  "validateMappingSource v =
     (if \<not> isRecord v then Inl invalidRecord else
      case (strOf (get v ''kind''), strOf (get v ''pointer'')) of
        (Some kind, Some pointer) \<Rightarrow>
          bindE (parseJsonPointer pointer) (\<lambda>_.
          if kind = lit ''workflow-input'' then
            bindE (assertExactKeys v [''kind'', ''pointer''] invalidRecord) (\<lambda>_. Inr (WorkflowInput, pointer))
          else if kind = lit ''current-item'' then
            bindE (assertExactKeys v [''kind'', ''pointer''] invalidRecord) (\<lambda>_. Inr (CurrentItem, pointer))
          else if kind = lit ''phase-output'' then
            bindE (assertExactKeys v [''kind'', ''phase'', ''output'', ''pointer''] invalidRecord) (\<lambda>_.
            bindE (keyOf (get v ''phase'')) (\<lambda>phase. bindE (keyOf (get v ''output'')) (\<lambda>out.
              Inr (PhaseOutput phase out, pointer))))
          else if kind = lit ''completion-evidence'' then
            bindE (assertExactKeys v [''kind'', ''phase'', ''view'', ''pointer''] invalidRecord) (\<lambda>_.
            bindE (keyOf (get v ''phase'')) (\<lambda>phase. bindE (keyOf (get v ''view'')) (\<lambda>view.
              Inr (EvidenceView phase view, pointer))))
          else Inl invalidRecord)
      | _ \<Rightarrow> Inl invalidRecord)"

definition validateMappingDeclaration :: "val \<Rightarrow> exn + dataMapping" where
  "validateMappingDeclaration v =
     bindE (assertExactKeys v [''key'', ''source'', ''destinationPointer''] invalidRecord) (\<lambda>_.
     bindE (keyOf (get v ''key'')) (\<lambda>key.
     case strOf (get v ''destinationPointer'') of None \<Rightarrow> Inl invalidRecord | Some destination \<Rightarrow>
     bindE (parseJsonPointer destination) (\<lambda>_.
     bindE (validateMappingSource (get v ''source'')) (\<lambda>(source, pointer).
       Inr \<lparr>mappingKey = key, mappingSource = source, mappingPointer = pointer,
         mappingDestination = destination\<rparr>))))"

definition validateEvaluatedMapping :: "val \<Rightarrow> exn + evaluatedMapping" where
  "validateEvaluatedMapping v =
     bindE (assertExactKeys v [''mappingKey'', ''source'', ''sourceBindingDigest'', ''selectedValueDigest'',
       ''destinationPointer''] invalidRecord) (\<lambda>_.
     bindE (keyOf (get v ''mappingKey'')) (\<lambda>key.
     case strOf (get v ''destinationPointer'') of None \<Rightarrow> Inl invalidRecord | Some destination \<Rightarrow>
     bindE (parseJsonPointer destination) (\<lambda>_.
     bindE (digestOf invalidRecord (get v ''sourceBindingDigest'')) (\<lambda>binding.
     bindE (digestOf invalidRecord (get v ''selectedValueDigest'')) (\<lambda>selected.
     bindE (validateMappingSource (get v ''source'')) (\<lambda>(source, pointer).
       Inr \<lparr>evaluatedKey = key, evaluatedSource = source, evaluatedPointer = pointer,
         evaluatedBinding = binding, evaluatedDigest = selected, evaluatedDestination = destination\<rparr>))))))"

definition boundSourceOf :: "val \<Rightarrow> val \<Rightarrow> exn + dataSource \<times> jstr option" where
  "boundSourceOf v source =
     (if get source ''kind'' = Str (lit ''workflow-input'') then
        bindE (assertExactKeys source [''kind''] invalidRecord) (\<lambda>_. Inr (WorkflowInput, None))
      else if get source ''kind'' = Str (lit ''current-item'') then
        bindE (assertExactKeys source [''kind''] invalidRecord) (\<lambda>_. Inr (CurrentItem, None))
      else if get source ''kind'' = Str (lit ''phase-output'') then
        bindE (assertExactKeys source [''kind'', ''phase'', ''output''] invalidRecord) (\<lambda>_.
        bindE (keyOf (get source ''phase'')) (\<lambda>phase. bindE (keyOf (get source ''output'')) (\<lambda>out.
        bindE (digestOf invalidRecord (get v ''acceptanceDigest'')) (\<lambda>acceptance.
          Inr (PhaseOutput phase out, Some acceptance)))))
      else if get source ''kind'' = Str (lit ''completion-evidence'') then
        bindE (assertExactKeys source [''kind'', ''phase'', ''view''] invalidRecord) (\<lambda>_.
        bindE (keyOf (get source ''phase'')) (\<lambda>phase. bindE (keyOf (get source ''view'')) (\<lambda>view.
          Inr (EvidenceView phase view, None))))
      else Inl invalidRecord)"

definition validateSourceBinding :: "val \<Rightarrow> exn + sourceBinding" where
  "validateSourceBinding v =
     (if \<not> isRecord v then Inl invalidRecord else
      let source = get v ''source'' in
      if \<not> isRecord source \<or> strOf (get source ''kind'') = None then Inl invalidRecord else
      bindE (assertExactKeys v ([''source'', ''sourceBindingDigest'', ''value''] @
        (if get source ''kind'' = Str (lit ''phase-output'') then [''acceptanceDigest''] else [])) invalidRecord) (\<lambda>_.
      bindE (digestOf invalidRecord (get v ''sourceBindingDigest'')) (\<lambda>digest.
      bindE (snapshotCanonical TypeError (get v ''value'')) (\<lambda>canonical.
      bindE (boundSourceOf v source) (\<lambda>(s, acceptance).
        Inr \<lparr>boundSource = s, boundDigest = digest, boundAcceptance = acceptance, boundValue = canonical\<rparr>)))))"

section \<open>Policy\<close>

definition validatePolicyPairs :: "val \<Rightarrow> string \<Rightarrow> exn + (jstr \<times> jstr) list" where
  "validatePolicyPairs v member = (case arrOf v of None \<Rightarrow> Inl invalidRecord
     | Some entries \<Rightarrow> mapE (\<lambda>entry.
         bindE (assertExactKeys entry [''phase'', member] invalidRecord) (\<lambda>_.
         bindE (keyOf (get entry ''phase'')) (\<lambda>phase. bindE (keyOf (get entry member)) (\<lambda>name.
           Inr (phase, name))))) entries)"

definition validateMappingPolicy :: "val \<Rightarrow> exn + mappingPolicy" where
  "validateMappingPolicy v =
     bindE (assertExactKeys v [''dependencyPhases'', ''declaredPhaseOutputs'', ''completionEvidenceViews'',
       ''allowCurrentItem''] invalidRecord) (\<lambda>_.
     case (arrOf (get v ''dependencyPhases''), get v ''allowCurrentItem'') of
       (Some phases, Bool allow) \<Rightarrow>
         bindE (mapE keyOf phases) (\<lambda>dependencies.
         bindE (validatePolicyPairs (get v ''declaredPhaseOutputs'') ''output'') (\<lambda>outputs.
         bindE (validatePolicyPairs (get v ''completionEvidenceViews'') ''view'') (\<lambda>views.
           Inr \<lparr>dependencyPhases = dependencies, declaredPhaseOutputs = outputs,
             completionEvidenceViews = views, allowCurrentItem = allow\<rparr>)))
     | _ \<Rightarrow> Inl invalidRecord)"

fun validateMappingSourcePolicy :: "dataSource \<Rightarrow> mappingPolicy \<Rightarrow> exn + unit" where
  "validateMappingSourcePolicy CurrentItem policy =
     (if \<not> allowCurrentItem policy then Inl (DataflowError DCurrentItemNotAllowed) else Inr ())"
| "validateMappingSourcePolicy WorkflowInput policy = Inr ()"
| "validateMappingSourcePolicy (PhaseOutput phase out) policy =
     (if phase \<notin> set (dependencyPhases policy) then Inl (DataflowError DPhaseDependency)
      else if (phase, out) \<notin> set (declaredPhaseOutputs policy) then Inl (DataflowError DUndeclaredOutput)
      else Inr ())"
| "validateMappingSourcePolicy (EvidenceView phase view) policy =
     (if phase \<notin> set (dependencyPhases policy) then Inl (DataflowError DPhaseDependency)
      else if (phase, view) \<notin> set (completionEvidenceViews policy) then Inl (DataflowError DEvidenceNotAllowed)
      else Inr ())"

fun sourceIdentity :: "dataSource \<Rightarrow> jstr" where
  "sourceIdentity (PhaseOutput phase out) = lit ''phase-output'' @ lit '':'' @ phase @ lit '':'' @ out"
| "sourceIdentity (EvidenceView phase view) = lit ''completion-evidence'' @ lit '':'' @ phase @ lit '':'' @ view"
| "sourceIdentity s = lit (sourceKind s)"

definition matchingSourceBinding :: "dataSource \<Rightarrow> sourceBinding list \<Rightarrow> exn + sourceBinding" where
  "matchingSourceBinding source bindings =
     (case filter (\<lambda>b. sourceIdentity source = sourceIdentity (boundSource b)) bindings of
        [] \<Rightarrow> Inl (DataflowError DSourceMissing)
      | [b] \<Rightarrow> Inr b
      | _ \<Rightarrow> Inl (DataflowError DSourceBindingConflict))"

section \<open>Evaluation\<close>

fun valueAt :: "val \<Rightarrow> jstr list \<Rightarrow> exn + val" where
  "valueAt current [] = Inr current"
| "valueAt current (segment # segments) =
     (case current of
        Arr xs \<Rightarrow>
          if \<not> indexPattern segment then Inl (DataflowError DSourceMissing)
          else if \<not> isSafe (int (natOf segment)) \<or> natOf segment \<ge> length xs then Inl (DataflowError DSourceMissing)
          else valueAt (xs ! natOf segment) segments
      | _ \<Rightarrow>
          if \<not> isRecord current \<or> \<not> hasOwn current segment then Inl (DataflowError DSourceMissing)
          else valueAt (field current segment) segments)"

definition valueAtJsonPointer :: "val \<Rightarrow> jstr \<Rightarrow> exn + val" where
  "valueAtJsonPointer v pointer =
     bindE (parseJsonPointer pointer) (\<lambda>segments. bindE (valueAt v segments) (snapshotCanonical TypeError))"

definition assertUniqueMappingKeys :: "dataMapping list \<Rightarrow> exn + unit" where
  "assertUniqueMappingKeys ms =
     (if distinct (map mappingKey ms) then Inr () else Inl (DataflowError DMappingKeyConflict))"

definition isSegmentPrefix :: "jstr list \<Rightarrow> jstr list \<Rightarrow> bool" where
  "isSegmentPrefix left right \<longleftrightarrow>
     length left \<le> length right \<and> list_all (\<lambda>i. right ! i = left ! i) [0..<length left]"

text \<open>A destination with its segments: the loop compares neighbours in the order of the pointers.\<close>

fun clashingNeighbours :: "(jstr \<times> jstr list) list \<Rightarrow> bool" where
  "clashingNeighbours (p # q # rest) = (isSegmentPrefix (snd p) (snd q) \<or> clashingNeighbours (q # rest))"
| "clashingNeighbours _ = False"

definition validateDestinations :: "(jstr \<times> jstr list) list \<Rightarrow> exn + unit" where
  "validateDestinations destinations =
     (if filter (\<lambda>d. snd d = []) destinations \<noteq> [] \<and> length destinations \<noteq> 1
      then Inl (DataflowError DDestinationCollision)
      else if clashingNeighbours (sort_key fst destinations) then Inl (DataflowError DDestinationCollision)
      else Inr ())"

definition orderedMappings :: "val list \<Rightarrow> exn + dataMapping list" where
  "orderedMappings declarations =
     bindE (mapE validateMappingDeclaration declarations) (\<lambda>validated.
     let ms = sort_key mappingKey validated in
     bindE (assertUniqueMappingKeys ms) (\<lambda>_.
     bindE (mapE (\<lambda>m. bindE (parseJsonPointer (mappingDestination m)) (\<lambda>segments.
       Inr (mappingDestination m, segments))) ms) (\<lambda>destinations.
     bindE (validateDestinations destinations) (\<lambda>_. Inr ms))))"

definition evaluateMapping ::
  "mappingPolicy \<Rightarrow> sourceBinding list \<Rightarrow> sha256 \<Rightarrow> dataMapping \<Rightarrow> exn + evaluatedMapping \<times> val" where
  "evaluateMapping policy bindings sha m =
     bindE (validateMappingSourcePolicy (mappingSource m) policy) (\<lambda>_.
     bindE (matchingSourceBinding (mappingSource m) bindings) (\<lambda>b.
     bindE (valueAtJsonPointer (boundValue b) (mappingPointer m)) (\<lambda>v.
     bindE (canonicalDigest v sha) (\<lambda>digest.
       Inr (\<lparr>evaluatedKey = mappingKey m, evaluatedSource = mappingSource m, evaluatedPointer = mappingPointer m,
         evaluatedBinding = boundDigest b, evaluatedDigest = digest,
         evaluatedDestination = mappingDestination m\<rparr>, v)))))"

text \<open>
  The object under construction. \<open>Made\<close> is an object the assembly created and may extend,
  \<open>Given\<close> a mapped value, which is frozen: assigning below it throws a \<open>TypeError\<close>.
\<close>

datatype built = Made "(jstr \<times> built) list" | Given val

fun placeFrozen :: "jstr list \<Rightarrow> (jstr \<times> val) list \<Rightarrow> exn" where
  "placeFrozen (segment # next_segment # segments) entries = (case map_of entries segment of
     None \<Rightarrow> TypeError
   | Some (Obj kvs) \<Rightarrow> placeFrozen (next_segment # segments) kvs
   | Some _ \<Rightarrow> DataflowError DDestinationCollision)"
| "placeFrozen _ entries = TypeError"

fun place :: "jstr list \<Rightarrow> val \<Rightarrow> (jstr \<times> built) list \<Rightarrow> exn + (jstr \<times> built) list" where
  "place [] v parent = Inr (mapSet (lit ''undefined'') (Given v) parent)"
| "place [segment] v parent = Inr (mapSet segment (Given v) parent)"
| "place (segment # next_segment # segments) v parent = (case mapGet parent segment of
     None \<Rightarrow> bindE (place (next_segment # segments) v []) (\<lambda>child. Inr (mapSet segment (Made child) parent))
   | Some (Made child) \<Rightarrow>
       bindE (place (next_segment # segments) v child) (\<lambda>child'. Inr (mapSet segment (Made child') parent))
   | Some (Given (Obj kvs)) \<Rightarrow> Inl (placeFrozen (next_segment # segments) kvs)
   | Some (Given _) \<Rightarrow> Inl (DataflowError DDestinationCollision))"

fun builtVal :: "built \<Rightarrow> val" where
  "builtVal (Given v) = v"
| "builtVal (Made entries) = Obj (map (\<lambda>(k, b). (k, builtVal b)) entries)"

definition assembleMappedValue :: "(evaluatedMapping \<times> val) list \<Rightarrow> exn + val" where
  "assembleMappedValue ms =
     (if length ms = 1 \<and> evaluatedDestination (fst (hd ms)) = [] then snapshotCanonical TypeError (snd (hd ms))
      else bindE (foldE (\<lambda>root (m, v). bindE (parseJsonPointer (evaluatedDestination m)) (\<lambda>segments.
             place segments v root)) [] ms) (\<lambda>root. snapshotCanonical TypeError (builtVal (Made root))))"

definition encMappingSet :: "evaluatedMapping list \<Rightarrow> val" where
  "encMappingSet ms = Obj [(lit ''mappings'', Arr (map encEvaluatedMapping ms))]"

definition evaluateDataMappings :: "val \<Rightarrow> val \<Rightarrow> val \<Rightarrow> sha256 \<Rightarrow> exn + evaluatedInput" where
  "evaluateDataMappings declarations sourceBindings policy sha =
     bindE (snapshotCanonical invalidRecord declarations) (\<lambda>ds.
     bindE (snapshotCanonical invalidRecord sourceBindings) (\<lambda>bs.
     bindE (snapshotCanonical invalidRecord policy) (\<lambda>p.
     case (arrOf ds, arrOf bs) of
       (Some mappings, Some bindings) \<Rightarrow>
         if \<not> isRecord p then Inl invalidRecord
         else if length mappings > 256 then Inl (DataflowError DMappingLimit)
         else bindE (validateMappingPolicy p) (\<lambda>validatedPolicy.
           bindE (mapE validateSourceBinding bindings) (\<lambda>validatedBindings.
           bindE (orderedMappings mappings) (\<lambda>ms.
           bindE (mapE (evaluateMapping validatedPolicy validatedBindings sha) ms) (\<lambda>evaluated.
           bindE (assembleMappedValue evaluated) (\<lambda>v.
           bindE (canonicalDigest (encMappingSet (map fst evaluated)) sha) (\<lambda>sourceSet.
           bindE (canonicalDigest v sha) (\<lambda>content.
             Inr \<lparr>inputValue = v, inputMappings = map fst evaluated, inputContentDigest = content,
               inputSourceSet = sourceSet\<rparr>)))))))
     | _ \<Rightarrow> Inl invalidRecord)))"

definition validateDataMappingDeclarations :: "val \<Rightarrow> val \<Rightarrow> exn + dataMapping list" where
  "validateDataMappingDeclarations declarations policy =
     bindE (snapshotCanonical invalidRecord declarations) (\<lambda>ds.
     bindE (snapshotCanonical invalidRecord policy) (\<lambda>p.
     case arrOf ds of
       None \<Rightarrow> Inl invalidRecord
     | Some mappings \<Rightarrow>
         if \<not> isRecord p then Inl invalidRecord
         else if length mappings > 256 then Inl (DataflowError DMappingLimit)
         else bindE (validateMappingPolicy p) (\<lambda>validatedPolicy.
           bindE (orderedMappings mappings) (\<lambda>ms.
           bindE (forE (\<lambda>m. validateMappingSourcePolicy (mappingSource m) validatedPolicy) ms) (\<lambda>_. Inr ms)))))"

end
