(* ===== verification/DataflowRecords.thy ===== *)
theory DataflowRecords
  imports Dataflow
begin

text \<open>
  packages/kernel/src/dataflow.ts, continued: workflow and phase input bindings, phase attempts,
  output publications and their acceptances. A record is created from checked fields and sealed
  with the digest of its content; it is validated by creating it again from its own fields and
  comparing the canonical bytes.
\<close>

section \<open>Checks\<close>

definition validateRepositoryRun :: "val \<Rightarrow> exn + unit" where
  "validateRepositoryRun v =
     (case strOf (get v ''repositoryId'') of
        Some r \<Rightarrow> if length r = 0 \<or> \<not> isIdentity RunKind (get v ''runId'') then Inl invalidRecord else Inr ()
      | None \<Rightarrow> Inl invalidRecord)"

definition assertDigests :: "exn \<Rightarrow> val \<Rightarrow> string list \<Rightarrow> exn + unit" where
  "assertDigests e v ks = forE (\<lambda>k. if \<not> isSha256Digest (get v k) then Inl e else Inr ()) ks"

definition assertByteLength :: "val \<Rightarrow> exn + unit" where
  "assertByteLength v =
     (case safeInt v of Some i \<Rightarrow> if i < 0 then Inl invalidRecord else Inr () | None \<Rightarrow> Inl invalidRecord)"

definition validateCommonBinding :: "val \<Rightarrow> exn + unit" where
  "validateCommonBinding v =
     bindE (validateRepositoryRun v) (\<lambda>_.
     if \<not> isConsumerKey (get v ''schemaKey'') then Inl invalidRecord
     else bindE (assertDigests invalidRecord v [''graphRevisionDigest'', ''configurationSnapshotDigest'',
       ''schemaResourceDigest'', ''contentDigest'', ''validationReceiptDigest'']) (\<lambda>_.
     assertByteLength (get v ''byteLength'')))"

definition validatePhaseAttemptReference :: "val \<Rightarrow> exn + val" where
  "validatePhaseAttemptReference v =
     bindE (assertExactKeys v [''phaseId'', ''definitionGeneration'', ''attempt''] invalidRecord) (\<lambda>_.
     if \<not> isIdentity PhaseKind (get v ''phaseId'') \<or> \<not> isDefinitionGeneration (get v ''definitionGeneration'') \<or>
        posSafeInt (get v ''attempt'') = None
     then Inl invalidRecord else Inr v)"

definition validateTaskReference :: "val \<Rightarrow> exn + val" where
  "validateTaskReference v =
     bindE (assertExactKeys v [''taskId'', ''definitionGeneration'', ''contextRevisionDigest''] invalidRecord) (\<lambda>_.
     if \<not> isIdentity TaskKind (get v ''taskId'') \<or> \<not> isDefinitionGeneration (get v ''definitionGeneration'') \<or>
        \<not> isSha256Digest (get v ''contextRevisionDigest'')
     then Inl invalidRecord else Inr v)"

definition assertExactRecord :: "val \<Rightarrow> val \<Rightarrow> exn + unit" where
  "assertExactRecord submitted expected =
     (if canonicalSerialize submitted \<noteq> canonicalSerialize expected then Inl invalidRecord else Inr ())"

definition sealRecord :: "(jstr \<times> val) list \<Rightarrow> string \<Rightarrow> sha256 \<Rightarrow> exn + val" where
  "sealRecord content k sha =
     bindE (snapshotCanonical TypeError (Obj content)) (\<lambda>c. bindE (canonicalDigest c sha) (\<lambda>digest.
       snapshotCanonical TypeError (Obj (content @ [(lit k, Str digest)]))))"

section \<open>Workflow input bindings\<close>

definition workflowInputFields :: "string list" where
  "workflowInputFields = [''repositoryId'', ''runId'', ''workflowId'', ''graphRevisionDigest'',
     ''configurationSnapshotDigest'', ''schemaKey'', ''schemaResourceDigest'', ''contentDigest'', ''byteLength'',
     ''validationReceiptDigest'']"

definition workflowInputApiVersion :: val where
  "workflowInputApiVersion = Str (lit ''senawa.dev/workflow-input-binding/v1'')"

definition workflowInputBindingContent :: "val \<Rightarrow> exn + val" where
  "workflowInputBindingContent input =
     bindE (snapshotCanonical invalidRecord input) (\<lambda>v.
     bindE (assertExactKeys v workflowInputFields invalidRecord) (\<lambda>_.
     bindE (validateCommonBinding v) (\<lambda>_.
     case strOf (get v ''workflowId'') of
       Some w \<Rightarrow> if length w = 0 then Inl invalidRecord else Inr v
     | None \<Rightarrow> Inl invalidRecord)))"

definition createWorkflowInputBinding :: "val \<Rightarrow> sha256 \<Rightarrow> exn + val" where
  "createWorkflowInputBinding input sha =
     bindE (workflowInputBindingContent input) (\<lambda>content.
       sealRecord ((lit ''apiVersion'', workflowInputApiVersion) # props content) ''bindingDigest'' sha)"

definition validateWorkflowInputBinding :: "val \<Rightarrow> sha256 \<Rightarrow> exn + val" where
  "validateWorkflowInputBinding v sha =
     bindE (snapshotCanonical invalidRecord v) (\<lambda>submitted.
     bindE (assertExactKeys submitted (''apiVersion'' # workflowInputFields @ [''bindingDigest'']) invalidRecord) (\<lambda>_.
     if get submitted ''apiVersion'' \<noteq> workflowInputApiVersion then Inl invalidRecord
     else bindE (createWorkflowInputBinding (pickFields submitted workflowInputFields) sha) (\<lambda>expected.
       bindE (assertExactRecord submitted expected) (\<lambda>_. Inr expected))))"

section \<open>Phase input bindings\<close>

definition phaseInputFields :: "string list" where
  "phaseInputFields = [''phase'', ''schemaKey'', ''schemaResourceDigest'', ''mappings'', ''contentDigest'',
     ''byteLength'', ''validationReceiptDigest'', ''sourceSetDigest'']"

definition assertUniqueEvaluatedMappings :: "evaluatedMapping list \<Rightarrow> exn + unit" where
  "assertUniqueEvaluatedMappings ms =
     (if distinct (map evaluatedKey ms) then Inr () else Inl (DataflowError DMappingKeyConflict))"

definition phaseInputBindingContent :: "val \<Rightarrow> sha256 \<Rightarrow> exn + (jstr \<times> val) list" where
  "phaseInputBindingContent input sha =
     bindE (snapshotCanonical invalidRecord input) (\<lambda>v.
     bindE (assertExactKeys v phaseInputFields invalidRecord) (\<lambda>_.
     bindE (validatePhaseAttemptReference (get v ''phase'')) (\<lambda>phase.
     if \<not> isConsumerKey (get v ''schemaKey'') then Inl invalidRecord
     else bindE (assertDigests invalidRecord v [''schemaResourceDigest'', ''contentDigest'',
       ''validationReceiptDigest'', ''sourceSetDigest'']) (\<lambda>_.
     bindE (assertByteLength (get v ''byteLength'')) (\<lambda>_.
     case arrOf (get v ''mappings'') of None \<Rightarrow> Inl invalidRecord | Some submitted \<Rightarrow>
     bindE (mapE validateEvaluatedMapping submitted) (\<lambda>validated.
     let ms = sort_key evaluatedKey validated in
     bindE (assertUniqueEvaluatedMappings ms) (\<lambda>_.
     bindE (canonicalDigest (encMappingSet ms) sha) (\<lambda>sourceSet.
     if Str sourceSet \<noteq> get v ''sourceSetDigest'' then Inl invalidRecord
     else Inr [(lit ''phase'', phase), (lit ''schemaKey'', get v ''schemaKey''),
       (lit ''schemaResourceDigest'', get v ''schemaResourceDigest''),
       (lit ''mappings'', Arr (map encEvaluatedMapping ms)), (lit ''contentDigest'', get v ''contentDigest''),
       (lit ''byteLength'', get v ''byteLength''),
       (lit ''validationReceiptDigest'', get v ''validationReceiptDigest''),
       (lit ''sourceSetDigest'', Str sourceSet)]))))))))"

definition createPhaseInputBinding :: "val \<Rightarrow> sha256 \<Rightarrow> exn + val" where
  "createPhaseInputBinding input sha =
     bindE (phaseInputBindingContent input sha) (\<lambda>content. sealRecord content ''bindingDigest'' sha)"

definition validatePhaseInputBinding :: "val \<Rightarrow> sha256 \<Rightarrow> exn + val" where
  "validatePhaseInputBinding v sha =
     bindE (snapshotCanonical invalidRecord v) (\<lambda>submitted.
     bindE (assertExactKeys submitted (phaseInputFields @ [''bindingDigest'']) invalidRecord) (\<lambda>_.
     bindE (createPhaseInputBinding (pickFields submitted phaseInputFields) sha) (\<lambda>expected.
     bindE (assertExactRecord submitted expected) (\<lambda>_. Inr expected))))"

section \<open>Phase attempts\<close>

definition phaseAttemptDigests :: "string list" where
  "phaseAttemptDigests = [''inputBindingDigest'', ''sourceSetDigest'', ''executorDigest'', ''graphRevisionDigest'',
     ''configurationSnapshotDigest'', ''upstreamClosureSetDigest'', ''upstreamOutputSetDigest'']"

definition phaseAttemptFields :: "string list" where
  "phaseAttemptFields = [''repositoryId'', ''runId'', ''phase''] @ phaseAttemptDigests"

definition phaseAttemptApiVersion :: val where
  "phaseAttemptApiVersion = Str (lit ''senawa.dev/phase-attempt/v1'')"

definition phaseAttemptContent :: "val \<Rightarrow> exn + (jstr \<times> val) list" where
  "phaseAttemptContent input =
     bindE (snapshotCanonical invalidRecord input) (\<lambda>v.
     bindE (assertExactKeys v phaseAttemptFields invalidRecord) (\<lambda>_.
     bindE (validateRepositoryRun v) (\<lambda>_.
     bindE (validatePhaseAttemptReference (get v ''phase'')) (\<lambda>phase.
     bindE (assertDigests invalidRecord v phaseAttemptDigests) (\<lambda>_.
       Inr (props (pickFields v phaseAttemptFields)))))))"

definition createPhaseAttempt :: "val \<Rightarrow> sha256 \<Rightarrow> exn + val" where
  "createPhaseAttempt input sha =
     bindE (phaseAttemptContent input) (\<lambda>content.
       sealRecord ((lit ''apiVersion'', phaseAttemptApiVersion) # content) ''attemptDigest'' sha)"

definition validatePhaseAttempt :: "val \<Rightarrow> sha256 \<Rightarrow> exn + val" where
  "validatePhaseAttempt v sha =
     bindE (snapshotCanonical invalidRecord v) (\<lambda>submitted.
     bindE (assertExactKeys submitted (''apiVersion'' # phaseAttemptFields @ [''attemptDigest'']) invalidRecord) (\<lambda>_.
     if get submitted ''apiVersion'' \<noteq> phaseAttemptApiVersion then Inl invalidRecord
     else bindE (createPhaseAttempt (pickFields submitted phaseAttemptFields) sha) (\<lambda>expected.
       bindE (assertExactRecord submitted expected) (\<lambda>_. Inr expected))))"

section \<open>Output publications\<close>

definition publicationDigests :: "string list" where
  "publicationDigests = [''schemaResourceDigest'', ''contentDigest'', ''contextDigest'', ''graphRevisionDigest'',
     ''configurationSnapshotDigest'', ''inputBindingDigest'', ''validationReceiptDigest'']"

definition publicationFields :: "string list" where
  "publicationFields = [''repositoryId'', ''runId'', ''phase'', ''outputName'', ''schemaKey'', ''schemaResourceDigest'',
     ''contentDigest'', ''byteLength'', ''mediaType'', ''producingTask'', ''dispatchId'', ''contextId'',
     ''contextDigest'', ''graphRevisionDigest'', ''configurationSnapshotDigest'', ''inputBindingDigest'',
     ''validationReceiptDigest'']"

definition publicationApiVersion :: val where
  "publicationApiVersion = Str (lit ''senawa.dev/phase-output-publication/v1'')"

definition phaseOutputPublicationContent :: "val \<Rightarrow> exn + (jstr \<times> val) list" where
  "phaseOutputPublicationContent input =
     bindE (snapshotCanonical invalidRecord input) (\<lambda>v.
     bindE (assertExactKeys v publicationFields invalidRecord) (\<lambda>_.
     bindE (validateRepositoryRun v) (\<lambda>_.
     bindE (validatePhaseAttemptReference (get v ''phase'')) (\<lambda>phase.
     if \<not> isConsumerKey (get v ''outputName'') \<or> \<not> isConsumerKey (get v ''schemaKey'') then Inl invalidRecord
     else bindE (assertDigests invalidRecord v publicationDigests) (\<lambda>_.
     bindE (assertByteLength (get v ''byteLength'')) (\<lambda>_.
     if get v ''mediaType'' \<noteq> Str (lit ''application/json'') then Inl invalidRecord
     else bindE (validateTaskReference (get v ''producingTask'')) (\<lambda>producingTask.
     if \<not> isIdentity DispatchKind (get v ''dispatchId'') \<or> \<not> isIdentity ContextKind (get v ''contextId'')
     then Inl invalidRecord
     else Inr (props (pickFields v publicationFields)))))))))"

definition createPhaseOutputPublication :: "val \<Rightarrow> sha256 \<Rightarrow> exn + val" where
  "createPhaseOutputPublication input sha =
     bindE (phaseOutputPublicationContent input) (\<lambda>content.
     bindE (snapshotCanonical TypeError (Obj ((lit ''apiVersion'', publicationApiVersion) # content))) (\<lambda>c.
     bindE (canonicalDigest c sha) (\<lambda>digest.
       snapshotCanonical TypeError (Obj ([(lit ''apiVersion'', publicationApiVersion),
         (lit ''publicationId'', Str (lit ''publication_'' @ digest))] @ content @
         [(lit ''publicationDigest'', Str digest)])))))"

definition validatePhaseOutputPublication :: "val \<Rightarrow> sha256 \<Rightarrow> exn + val" where
  "validatePhaseOutputPublication v sha =
     bindE (snapshotCanonical invalidRecord v) (\<lambda>submitted.
     bindE (assertExactKeys submitted ([''apiVersion'', ''publicationId''] @ publicationFields @
       [''publicationDigest'']) invalidRecord) (\<lambda>_.
     if get submitted ''apiVersion'' \<noteq> publicationApiVersion then Inl invalidRecord
     else bindE (createPhaseOutputPublication (pickFields submitted publicationFields) sha) (\<lambda>expected.
       bindE (assertExactRecord submitted expected) (\<lambda>_. Inr expected))))"

section \<open>Output acceptances\<close>

definition acceptanceContent :: "val \<Rightarrow> val \<Rightarrow> val \<Rightarrow> (jstr \<times> val) list" where
  "acceptanceContent publication candidateDigest closureDigest =
     [(lit ''publicationId'', get publication ''publicationId''),
      (lit ''publicationDigest'', get publication ''publicationDigest''),
      (lit ''candidateDigest'', candidateDigest), (lit ''closureDigest'', closureDigest)]"

definition createPhaseOutputAcceptance :: "val \<Rightarrow> val \<Rightarrow> val \<Rightarrow> sha256 \<Rightarrow> exn + val" where
  "createPhaseOutputAcceptance publicationValue candidateDigest closureDigest sha =
     bindE (validatePhaseOutputPublication publicationValue sha) (\<lambda>publication.
     bindE (assertDigests invalidRecord
       (Obj [(lit ''candidateDigest'', candidateDigest), (lit ''closureDigest'', closureDigest)])
       [''candidateDigest'', ''closureDigest'']) (\<lambda>_.
       sealRecord (acceptanceContent publication candidateDigest closureDigest) ''acceptanceDigest'' sha))"

definition validatePhaseOutputAcceptance :: "val \<Rightarrow> val \<Rightarrow> sha256 \<Rightarrow> exn + val" where
  "validatePhaseOutputAcceptance v publicationValue sha =
     bindE (snapshotCanonical invalidRecord v) (\<lambda>submitted.
     bindE (assertExactKeys submitted [''publicationId'', ''publicationDigest'', ''candidateDigest'',
       ''closureDigest'', ''acceptanceDigest''] invalidRecord) (\<lambda>_.
     bindE (validatePhaseOutputPublication publicationValue sha) (\<lambda>publication.
     bindE (createPhaseOutputAcceptance publication (get submitted ''candidateDigest'')
       (get submitted ''closureDigest'') sha) (\<lambda>expected.
     bindE (assertExactRecord submitted expected) (\<lambda>_. Inr expected)))))"

end
