(* ===== verification/DataflowFacts.thy ===== *)
theory DataflowFacts
  imports DataflowRecords CanonicalInjective
begin

text \<open>
  Facts on dataflow.ts: which destinations are accepted, what the assembled value holds at each of
  them, and the law of the records that are validated by creating them again.
\<close>

section \<open>Pointers and destinations\<close>

lemma parse_eq_Inr:
  "parseJsonPointer p = Inr segs \<longleftrightarrow> p = printPointer segs \<and> length p \<le> 2048 \<and> length segs \<le> 128"
  by (simp add: parseJsonPointer_def readPointer_eq_Inr)

lemma isSegmentPrefix_prefix: "isSegmentPrefix a b \<longleftrightarrow> prefix a b"
  by (auto simp: isSegmentPrefix_def list_all_iff prefix_def nth_append
      intro!: exI [of _ "drop (length a) b"] nth_equalityI)

lemma clashingNeighbours_iff:
  "clashingNeighbours ds \<longleftrightarrow> (\<exists>i. Suc i < length ds \<and> prefix (snd (ds ! i)) (snd (ds ! Suc i)))"
proof (induction ds rule: clashingNeighbours.induct)
  case (1 p q rest)
  let ?P = "\<lambda>ds i. Suc i < length ds \<and> prefix (snd (ds ! i)) (snd (ds ! Suc i))"
  have "(\<exists>i. ?P (p # q # rest) i) \<longleftrightarrow> ?P (p # q # rest) 0 \<or> (\<exists>i. ?P (p # q # rest) (Suc i))"
    by (metis not0_implies_Suc)
  then show ?case using 1 by (simp add: isSegmentPrefix_prefix)
qed auto

text \<open>No destination is the prefix of another: what \<open>validateDestinations\<close> is to ensure.\<close>

definition prefixFree :: "jstr list list \<Rightarrow> bool" where
  "prefixFree ss \<longleftrightarrow> sorted_wrt (\<lambda>s t. \<not> prefix s t \<and> \<not> prefix t s) ss"

lemma prefixFree_Cons:
  "prefixFree (s # ss) \<longleftrightarrow> (\<forall>t\<in>set ss. \<not> prefix s t \<and> \<not> prefix t s) \<and> prefixFree ss"
  by (simp add: prefixFree_def)

lemma prefixFree_nth:
  "prefixFree ss \<Longrightarrow> i < length ss \<Longrightarrow> j < length ss \<Longrightarrow> i \<noteq> j \<Longrightarrow> \<not> prefix (ss ! i) (ss ! j)"
  unfolding prefixFree_def sorted_wrt_iff_nth_less by (metis linorder_neqE_nat)

lemma prefixFree_perm: "mset ss = mset ss' \<Longrightarrow> prefixFree ss \<longleftrightarrow> prefixFree ss'"
proof -
  have swap: "prefixFree ss'" if "prefixFree ss" "mset ss = mset ss'" for ss ss' :: "jstr list list"
    using that
  proof (induction ss arbitrary: ss')
    case (Cons s ss)
    have "s \<in> set ss'" using Cons.prems(2) by (metis list.set_intros(1) set_mset_mset)
    then obtain us vs where ss': "ss' = us @ s # vs" by (auto dest: split_list)
    then have m: "mset ss = mset (us @ vs)" using Cons.prems(2) by simp
    have "prefixFree (us @ vs)" using Cons.IH [OF _ m] Cons.prems(1) by (simp add: prefixFree_Cons)
    moreover have "\<forall>t\<in>set (us @ vs). \<not> prefix s t \<and> \<not> prefix t s"
      using Cons.prems(1) mset_eq_setD [OF m] by (simp add: prefixFree_Cons)
    ultimately show ?case unfolding ss' by (induction us) (auto simp: prefixFree_Cons)
  qed simp
  show "mset ss = mset ss' \<Longrightarrow> prefixFree ss \<longleftrightarrow> prefixFree ss'" using swap by metis
qed

lemma prefixFree_accepted:
  assumes "prefixFree (map snd ds)"
  shows "validateDestinations ds = Inr ()"
proof -
  have "mset (map snd (sort_key fst ds)) = mset (map snd ds)" by simp
  then have s: "prefixFree (map snd (sort_key fst ds))" using assms prefixFree_perm by metis
  have "\<not> clashingNeighbours (sort_key fst ds)"
  proof
    assume "clashingNeighbours (sort_key fst ds)"
    then obtain i where "Suc i < length (sort_key fst ds)"
        "prefix (snd (sort_key fst ds ! i)) (snd (sort_key fst ds ! Suc i))"
      by (auto simp: clashingNeighbours_iff)
    then show False using prefixFree_nth [OF s, of i "Suc i"] by simp
  qed
  moreover have "length ds = 1" if "filter (\<lambda>d. snd d = []) ds \<noteq> []"
  proof -
    from that obtain d where "d \<in> set ds" "snd d = []" by (auto simp: filter_empty_conv)
    then obtain i where i: "i < length ds" "snd (ds ! i) = []" by (metis in_set_conv_nth)
    have only: "j = i" if "j < length ds" for j
      using prefixFree_nth [OF assms, of i j] i that by auto
    show ?thesis
    proof (rule ccontr)
      assume "length ds \<noteq> 1"
      then have "(if i = 0 then 1 else 0) < length ds" using i(1) by (cases ds) auto
      then show False using only [of "if i = 0 then 1 else 0"] by (simp split: if_splits)
    qed
  qed
  ultimately show ?thesis by (auto simp: validateDestinations_def)
qed

text \<open>
  The neighbours suffice when no character sorts below the slash: a pointer between another one and
  an extension of it then extends it as well.
\<close>

lemma between_extension:
  fixes p :: "jstr"
  assumes "p \<le> r" "r \<le> p @ x"
  shows "\<exists>y. r = p @ y \<and> y \<le> x"
  using assms
proof (induction p arbitrary: r)
  case (Cons c p)
  then show ?case by (cases r) auto
qed simp

lemma splitSlash_slash: "splitSlash (u @ 47 # v) = splitSlash u @ splitSlash v"
proof (induction u)
  case (Cons c u)
  then show ?case by (cases "splitSlash u") auto
qed simp

lemma printPointer_split: "segs \<noteq> [] \<Longrightarrow> splitSlash (tl (printPointer segs)) = map encodeSegment segs"
proof -
  assume "segs \<noteq> []"
  then have "splitSlash (tl (concat (map ((#) 47) (map encodeSegment segs)))) = map encodeSegment segs"
    by (intro splitSlash_join) (auto simp: encodeSegment_ok)
  then show ?thesis by (simp add: printPointer_def comp_def)
qed

lemma encodeSegment_inject: "encodeSegment s = encodeSegment t \<longleftrightarrow> s = t"
  by (metis decode_encodeSegment)

lemma printPointer_prefix:
  assumes "printPointer b = printPointer a @ 47 # x"
  shows "prefix a b"
proof (cases "a = []")
  case False
  then obtain u where u: "printPointer a = 47 # u" by (cases a) (auto simp: printPointer_def)
  have "b \<noteq> []" using assms by (auto simp: printPointer_def)
  then have "map encodeSegment b = splitSlash (u @ 47 # x)" using printPointer_split [of b] assms u by simp
  also have "\<dots> = map encodeSegment a @ splitSlash x" using printPointer_split [OF False] u by (simp add: splitSlash_slash)
  finally have "prefix (map encodeSegment a) (map encodeSegment b)" by simp
  then have "prefix (map decodeSegment (map encodeSegment a)) (map decodeSegment (map encodeSegment b))" by (rule map_mono_prefix)
  then show ?thesis by (simp add: comp_def decode_encodeSegment)
qed simp

lemma prefix_printPointer:
  assumes "prefix a b"
  shows "\<exists>x. printPointer b = printPointer a @ x \<and> (x = [] \<or> hd x = 47)"
proof -
  obtain c where c: "b = a @ c" using assms by (auto simp: prefix_def)
  have "printPointer c = [] \<or> hd (printPointer c) = 47" by (cases c) (auto simp: printPointer_def)
  then show ?thesis by (simp add: c printPointer_def)
qed

section \<open>Assembly\<close>

text \<open>
  The leaves of an object under construction: the paths of the mapped values in it. Placing a value
  at a path unrelated to them adds one leaf.
\<close>

fun leaves :: "built \<Rightarrow> (jstr list \<times> val) list" where
  "leaves (Given v) = [([], v)]"
| "leaves (Made entries) = concat (map (\<lambda>(k, b). map (\<lambda>(p, v). (k # p, v)) (leaves b)) entries)"

fun wfBuilt :: "built \<Rightarrow> bool" where
  "wfBuilt (Given v) = is_json v"
| "wfBuilt (Made entries) = (distinct (map fst entries) \<and>
     list_all (\<lambda>(k, b). wfBuilt b \<and> leaves b \<noteq> []) entries)"

lemma leaves_Made:
  assumes "distinct (map fst entries)"
  shows "(p, v) \<in> set (leaves (Made entries)) \<longleftrightarrow>
     (\<exists>k b q. p = k # q \<and> mapGet entries k = Some b \<and> (q, v) \<in> set (leaves b))"
proof -
  have "(k, b) \<in> set entries \<longleftrightarrow> mapGet entries k = Some b" for k b
    using assms by (simp add: mapGet_def map_of_eq_Some_iff)
  then show ?thesis by force
qed

lemma wfBuilt_Made: "wfBuilt (Made entries) \<longleftrightarrow> distinct (map fst entries) \<and>
     (\<forall>k b. mapGet entries k = Some b \<longrightarrow> wfBuilt b \<and> leaves b \<noteq> [])"
proof (cases "distinct (map fst entries)")
  case True
  then have "mapGet entries k = Some b \<longleftrightarrow> (k, b) \<in> set entries" for k b
    by (simp add: mapGet_def map_of_eq_Some_iff)
  then show ?thesis using True by (auto simp: list_all_iff)
qed simp

lemma built_empty [simp]: "leaves (Made []) = []" "wfBuilt (Made [])"
  by simp_all

declare leaves.simps(2) [simp del] wfBuilt.simps(2) [simp del]

lemma distinct_mapSet: "distinct (map fst m) \<Longrightarrow> distinct (map fst (mapSet k v m))"
  using mapValid_simps by (metis mapValid_def)

lemma wfBuilt_mapSet:
  assumes "wfBuilt (Made entries)" "wfBuilt b" "leaves b \<noteq> []"
  shows "wfBuilt (Made (mapSet k b entries))"
  using assms by (auto simp: wfBuilt_Made distinct_mapSet split: if_splits)

lemma leaves_mapSet:
  assumes "distinct (map fst entries)"
  shows "set (leaves (Made (mapSet k b entries))) =
     {(k # q, v) |q v. (q, v) \<in> set (leaves b)} \<union> {x \<in> set (leaves (Made entries)). hd (fst x) \<noteq> k}"
proof (rule set_eqI)
  fix x :: "jstr list \<times> val"
  obtain p v where x: "x = (p, v)" by (cases x)
  show "x \<in> set (leaves (Made (mapSet k b entries))) \<longleftrightarrow>
      x \<in> {(k # q, v) |q v. (q, v) \<in> set (leaves b)} \<union> {x \<in> set (leaves (Made entries)). hd (fst x) \<noteq> k}"
    by (auto simp: x leaves_Made [OF assms] leaves_Made [OF distinct_mapSet [OF assms]] split: if_splits)
qed

text \<open>Two paths are unrelated when neither is a prefix of the other.\<close>

definition unrelated :: "jstr list \<Rightarrow> jstr list \<Rightarrow> bool" where
  "unrelated s t \<longleftrightarrow> \<not> prefix s t \<and> \<not> prefix t s"

lemma unrelated_Cons [simp]: "unrelated (a # s) (b # t) \<longleftrightarrow> a \<noteq> b \<or> unrelated s t"
  by (auto simp: unrelated_def)

lemma unrelated_Nil [simp]: "\<not> unrelated [] t" "\<not> unrelated s []"
  by (auto simp: unrelated_def)

lemma place_leaves:
  assumes "wfBuilt (Made entries)" "is_json v" "segs \<noteq> []"
    and "\<And>p w. (p, w) \<in> set (leaves (Made entries)) \<Longrightarrow> unrelated p segs"
  shows "\<exists>entries'. place segs v entries = Inr entries' \<and> wfBuilt (Made entries') \<and>
     set (leaves (Made entries')) = insert (segs, v) (set (leaves (Made entries)))"
  using assms
proof (induction segs v entries rule: place.induct)
  case (2 k v parent)
  have d: "distinct (map fst parent)" using "2.prems"(1) by (simp add: wfBuilt_Made)
  have "mapGet parent k = None"
  proof (rule ccontr)
    assume "mapGet parent k \<noteq> None"
    then obtain b where b: "mapGet parent k = Some b" by blast
    then have "leaves b \<noteq> []" using "2.prems"(1) by (simp add: wfBuilt_Made)
    then obtain q w where "(q, w) \<in> set (leaves b)" by (metis list.set_intros(1) neq_Nil_conv prod.collapse)
    then have "(k # q, w) \<in> set (leaves (Made parent))" using b by (simp add: leaves_Made [OF d])
    then show False using "2.prems"(4) by fastforce
  qed
  then have "hd p \<noteq> k" if "(p, w) \<in> set (leaves (Made parent))" for p w
    using that by (auto simp: leaves_Made [OF d])
  then have "{x \<in> set (leaves (Made parent)). hd (fst x) \<noteq> k} = set (leaves (Made parent))" by force
  then have "set (leaves (Made (mapSet k (Given v) parent))) = insert ([k], v) (set (leaves (Made parent)))"
    by (simp add: leaves_mapSet [OF d])
  moreover have "wfBuilt (Made (mapSet k (Given v) parent))"
    using "2.prems"(1,2) by (intro wfBuilt_mapSet) auto
  ultimately show ?case by simp
next
  case (3 k k' ks v parent)
  have d: "distinct (map fst parent)" using "3.prems"(1) by (simp add: wfBuilt_Made)
  show ?case
  proof (cases "mapGet parent k")
    case None
    obtain c where c: "place (k' # ks) v [] = Inr c" "wfBuilt (Made c)"
        "set (leaves (Made c)) = {(k' # ks, v)}"
      using "3.IH"(1) [OF None _ "3.prems"(2)] by auto
    have "leaves (Made c) \<noteq> []" using c(3) by auto
    then have wf: "wfBuilt (Made (mapSet k (Made c) parent))"
      using "3.prems"(1) c(2) by (intro wfBuilt_mapSet)
    have "hd p \<noteq> k" if "(p, w) \<in> set (leaves (Made parent))" for p w
      using that None by (auto simp: leaves_Made [OF d])
    then have "{x \<in> set (leaves (Made parent)). hd (fst x) \<noteq> k} = set (leaves (Made parent))" by force
    then have "set (leaves (Made (mapSet k (Made c) parent))) = insert (k # k' # ks, v) (set (leaves (Made parent)))"
      by (simp add: leaves_mapSet [OF d] c(3))
    then show ?thesis using None c(1) wf by simp
  next
    case (Some b)
    have sub: "(k # q, w) \<in> set (leaves (Made parent))" if "(q, w) \<in> set (leaves b)" for q w
      using that Some by (simp add: leaves_Made [OF d])
    show ?thesis
    proof (cases b)
      case (Given w)
      then have "([k], w) \<in> set (leaves (Made parent))" using sub [of "[]" w] by simp
      then show ?thesis using "3.prems"(4) by fastforce
    next
      case (Made c)
      have "wfBuilt (Made c)" using "3.prems"(1) Some Made by (simp add: wfBuilt_Made [of parent])
      moreover have "unrelated p (k' # ks)" if "(p, w) \<in> set (leaves (Made c))" for p w
        using "3.prems"(4) [OF sub [of p w]] that Made by simp
      ultimately obtain c' where c': "place (k' # ks) v c = Inr c'" "wfBuilt (Made c')"
          "set (leaves (Made c')) = insert (k' # ks, v) (set (leaves (Made c)))"
        using "3.IH"(2) [OF Some Made _ "3.prems"(2)] by auto
      have "leaves (Made c') \<noteq> []" using c'(3) by auto
      then have wf: "wfBuilt (Made (mapSet k (Made c') parent))"
        using "3.prems"(1) c'(2) by (intro wfBuilt_mapSet)
      have "set (leaves (Made (mapSet k (Made c') parent))) = insert (k # k' # ks, v) (set (leaves (Made parent)))"
        using Some Made
        by (auto simp: leaves_mapSet [OF d] leaves_Made [OF d] c'(3))
      then show ?thesis using Some Made c'(1) wf by simp
    qed
  qed
qed simp

text \<open>The finished object holds at the path of a leaf the leaf's value, and nothing beside the leaves.\<close>

lemma built_field:
  "hasOwn (builtVal (Made entries)) k \<longleftrightarrow> mapGet entries k \<noteq> None"
  "mapGet entries k = Some b \<Longrightarrow> field (builtVal (Made entries)) k = builtVal b"
proof -
  have m: "map_of (map (\<lambda>(k, b). (k, builtVal b)) entries) k = map_option builtVal (map_of entries k)"
    by (induction entries) auto
  show "hasOwn (builtVal (Made entries)) k \<longleftrightarrow> mapGet entries k \<noteq> None"
    by (force simp: mapGet_def map_of_eq_None_iff)
  show "mapGet entries k = Some b \<Longrightarrow> field (builtVal (Made entries)) k = builtVal b"
    by (simp add: mapGet_def field_def m)
qed

lemma valueAt_Made:
  "valueAt (builtVal (Made entries)) (k # p) = (case mapGet entries k of
     None \<Rightarrow> Inl (DataflowError DSourceMissing) | Some b \<Rightarrow> valueAt (builtVal b) p)"
  using built_field [of entries k] by (cases "mapGet entries k") simp_all

declare builtVal.simps(2) [simp del] valueAt.simps(2) [simp del]

lemma leaf_value:
  assumes "wfBuilt b" "(p, v) \<in> set (leaves b)"
  shows "valueAt (builtVal b) p = Inr v"
  using assms
proof (induction p arbitrary: b)
  case Nil
  then show ?case by (cases b) (auto simp: leaves_Made wfBuilt_Made builtVal.simps)
next
  case (Cons k p)
  obtain entries where b: "b = Made entries" using Cons.prems(2) by (cases b) auto
  then obtain c where "mapGet entries k = Some c" "(p, v) \<in> set (leaves c)" "wfBuilt c"
    using Cons.prems by (auto simp: leaves_Made wfBuilt_Made)
  then show ?case using Cons.IH by (simp add: b valueAt_Made)
qed

lemma value_leaf:
  assumes "wfBuilt b" "valueAt (builtVal b) p = Inr w" "p \<noteq> []"
  shows "\<exists>(q, v)\<in>set (leaves b). prefix p q \<or> prefix q p \<and> valueAt v (drop (length q) p) = Inr w"
  using assms
proof (induction p arbitrary: b)
  case (Cons k p)
  show ?case
  proof (cases b)
    case (Given u)
    then show ?thesis using Cons.prems by simp
  next
    case (Made entries)
    then obtain c where c: "mapGet entries k = Some c" "valueAt (builtVal c) p = Inr w"
      using Cons.prems(2) by (auto simp: valueAt_Made split: option.splits)
    have wf: "wfBuilt c" "leaves c \<noteq> []" "distinct (map fst entries)"
      using Cons.prems(1) c(1) by (auto simp: Made wfBuilt_Made)
    have "\<exists>(q, v)\<in>set (leaves c). prefix p q \<or> prefix q p \<and> valueAt v (drop (length q) p) = Inr w"
    proof (cases "p = []")
      case True
      then show ?thesis using wf(2) by (cases "leaves c") auto
    qed (rule Cons.IH [OF wf(1) c(2)])
    then obtain q v where q: "(q, v) \<in> set (leaves c)"
        "prefix p q \<or> prefix q p \<and> valueAt v (drop (length q) p) = Inr w" by blast
    have "(k # q, v) \<in> set (leaves b)" using q(1) c(1) by (auto simp: Made leaves_Made [OF wf(3)])
    then show ?thesis using q(2) by (intro bexI [of _ "(k # q, v)"]) simp_all
  qed
qed simp

lemma built_json: "wfBuilt b \<Longrightarrow> is_json (builtVal b)"
proof (induction b rule: builtVal.induct)
  case (2 entries)
  have m: "map (fst \<circ> (\<lambda>(k, b). (k, builtVal b))) entries = map fst entries" by (simp add: case_prod_beta comp_def)
  have "is_json (builtVal c)" if "(k, c) \<in> set entries" for k c
    using 2 that by (auto simp: wfBuilt.simps(2) list_all_iff)
  then show ?case using "2.prems" by (auto simp: builtVal.simps(2) wfBuilt.simps(2) list_all_iff m)
qed simp

definition segmentsOf :: "jstr \<Rightarrow> jstr list" where
  "segmentsOf p = (case parseJsonPointer p of Inr segs \<Rightarrow> segs | Inl _ \<Rightarrow> [])"

abbreviation destinationOf :: "evaluatedMapping \<times> val \<Rightarrow> jstr list" where
  "destinationOf mv \<equiv> segmentsOf (evaluatedDestination (fst mv))"

definition placeable :: "evaluatedMapping \<times> val \<Rightarrow> bool" where
  "placeable mv \<longleftrightarrow> is_json (snd mv) \<and>
     parseJsonPointer (evaluatedDestination (fst mv)) = Inr (destinationOf mv)"

lemma assemble_steps:
  assumes "wfBuilt (Made es)" "\<And>mv. mv \<in> set ms \<Longrightarrow> placeable mv \<and> destinationOf mv \<noteq> []"
    and "prefixFree (map destinationOf ms)"
    and "\<And>p w mv. (p, w) \<in> set (leaves (Made es)) \<Longrightarrow> mv \<in> set ms \<Longrightarrow> unrelated p (destinationOf mv)"
  shows "\<exists>es'. foldE (\<lambda>root (m, v). bindE (parseJsonPointer (evaluatedDestination m)) (\<lambda>segments.
      place segments v root)) es ms = Inr es' \<and> wfBuilt (Made es') \<and>
    set (leaves (Made es')) = set (leaves (Made es)) \<union> (\<lambda>mv. (destinationOf mv, snd mv)) ` set ms"
  using assms
proof (induction ms arbitrary: es)
  case (Cons mv ms)
  have mv: "placeable mv" "destinationOf mv \<noteq> []" using Cons.prems(2) by simp_all
  have "is_json (snd mv)" using mv(1) by (simp add: placeable_def)
  then obtain es1 where es1: "place (destinationOf mv) (snd mv) es = Inr es1" "wfBuilt (Made es1)"
      "set (leaves (Made es1)) = insert (destinationOf mv, snd mv) (set (leaves (Made es)))"
    using place_leaves [OF Cons.prems(1) _ mv(2)] Cons.prems(4) by (metis list.set_intros(1))
  have "unrelated p (destinationOf mv')" if p: "(p, w) \<in> set (leaves (Made es1))" "mv' \<in> set ms" for p w mv'
  proof (cases "(p, w) \<in> set (leaves (Made es))")
    case True
    then show ?thesis using Cons.prems(4) p(2) by simp
  next
    case False
    then have "p = destinationOf mv" using p(1) es1(3) by simp
    then show ?thesis using Cons.prems(3) p(2) by (simp add: prefixFree_Cons unrelated_def)
  qed
  then obtain es2 where "foldE (\<lambda>root (m, v). bindE (parseJsonPointer (evaluatedDestination m)) (\<lambda>segments.
      place segments v root)) es1 ms = Inr es2" "wfBuilt (Made es2)"
      "set (leaves (Made es2)) = set (leaves (Made es1)) \<union> (\<lambda>mv. (destinationOf mv, snd mv)) ` set ms"
    using Cons.IH [OF es1(2)] Cons.prems(2,3) by (auto simp: prefixFree_Cons)
  then show ?case using es1 mv(1) by (cases mv) (auto simp: placeable_def)
qed simp

text \<open>Mappings with unrelated destinations are assembled into the object that holds exactly them.\<close>

definition holdsExactly :: "val \<Rightarrow> (evaluatedMapping \<times> val) list \<Rightarrow> bool" where
  "holdsExactly x ms \<longleftrightarrow> (\<forall>mv\<in>set ms. valueAt x (destinationOf mv) = Inr (snd mv)) \<and>
     (\<forall>p w. p \<noteq> [] \<and> valueAt x p = Inr w \<longrightarrow> (\<exists>mv\<in>set ms. prefix p (destinationOf mv) \<or>
        prefix (destinationOf mv) p \<and> valueAt (snd mv) (drop (length (destinationOf mv)) p) = Inr w))"

lemma assemble_exact:
  assumes "\<And>mv. mv \<in> set ms \<Longrightarrow> placeable mv" "prefixFree (map destinationOf ms)"
  shows "\<exists>x. assembleMappedValue ms = Inr x \<and> is_json x \<and> holdsExactly x ms"
proof (cases "\<exists>mv\<in>set ms. destinationOf mv = []")
  case True
  then obtain mv where mv: "mv \<in> set ms" "destinationOf mv = []" by blast
  have "ms = [mv]"
  proof -
    obtain us vs where ms: "ms = us @ mv # vs" using mv(1) by (auto dest: split_list)
    then have "us = []" using assms(2) mv(2) by (cases us) (auto simp: prefixFree_Cons)
    moreover have "vs = []" using assms(2) mv(2) ms \<open>us = []\<close> by (cases vs) (auto simp: prefixFree_Cons)
    ultimately show ?thesis using ms by simp
  qed
  moreover have "evaluatedDestination (fst mv) = []" "is_json (snd mv)"
    using assms(1) [OF mv(1)] mv(2) by (simp_all add: placeable_def parse_eq_Inr printPointer_def)
  ultimately show ?thesis using mv(2)
    by (auto simp: assembleMappedValue_def snapshotCanonical_def holdsExactly_def)
next
  case False
  obtain es where es: "foldE (\<lambda>root (m, v). bindE (parseJsonPointer (evaluatedDestination m)) (\<lambda>segments.
      place segments v root)) [] ms = Inr es" "wfBuilt (Made es)"
      "set (leaves (Made es)) = (\<lambda>mv. (destinationOf mv, snd mv)) ` set ms"
    using assemble_steps [of "[]" ms] assms False by auto
  have "\<not> (length ms = 1 \<and> evaluatedDestination (fst (hd ms)) = [])"
  proof
    assume "length ms = 1 \<and> evaluatedDestination (fst (hd ms)) = []"
    then have "destinationOf (hd ms) = []" "hd ms \<in> set ms"
      by (auto simp: segmentsOf_def parse_eq_Inr parseJsonPointer_def readPointer_def hd_in_set length_Suc_conv)
    then show False using False by blast
  qed
  then have a: "assembleMappedValue ms = Inr (builtVal (Made es))" "is_json (builtVal (Made es))"
    using es(1) built_json [OF es(2)] by (simp_all only: assembleMappedValue_def snapshotCanonical_def if_False if_True bindE_Inr)
  moreover have "holdsExactly (builtVal (Made es)) ms"
    using leaf_value [OF es(2)] value_leaf [OF es(2)] by (fastforce simp: holdsExactly_def es(3))
  ultimately show ?thesis by blast
qed

end
