(* ===== verification/DataflowProperties.thy ===== *)
theory DataflowProperties
  imports DataflowFacts
begin

text \<open>
  The properties of dataflow.ts: pointers read and print, destinations that may clash, what a mapped
  input holds and where it comes from, and the records that seal it.
\<close>

section \<open>Sources\<close>

text \<open>What a policy lets a mapping read.\<close>

fun permitted :: "mappingPolicy \<Rightarrow> dataSource \<Rightarrow> bool" where
  "permitted policy WorkflowInput \<longleftrightarrow> True"
| "permitted policy CurrentItem \<longleftrightarrow> allowCurrentItem policy"
| "permitted policy (PhaseOutput phase out) \<longleftrightarrow>
     phase \<in> set (dependencyPhases policy) \<and> (phase, out) \<in> set (declaredPhaseOutputs policy)"
| "permitted policy (EvidenceView phase view) \<longleftrightarrow>
     phase \<in> set (dependencyPhases policy) \<and> (phase, view) \<in> set (completionEvidenceViews policy)"

lemma sourcePolicy_permitted: "validateMappingSourcePolicy s policy = Inr u \<longleftrightarrow> permitted policy s"
  by (cases s) auto

fun wfSource :: "dataSource \<Rightarrow> bool" where
  "wfSource (PhaseOutput phase out) \<longleftrightarrow> consumerKeyPattern phase \<and> consumerKeyPattern out"
| "wfSource (EvidenceView phase view) \<longleftrightarrow> consumerKeyPattern phase \<and> consumerKeyPattern view"
| "wfSource s \<longleftrightarrow> True"

lemma keyOf_eq_Inr: "keyOf v = Inr k \<longleftrightarrow> v = Str k \<and> consumerKeyPattern k"
  by (auto simp: keyOf_def strIf_eq_Inr isConsumerKey_iff)

lemma key_no_colon: "consumerKeyPattern k \<Longrightarrow> 58 \<notin> set k"
  using token_no_underscore by (auto simp: consumerKeyPattern_def tokenPattern_iff list_all_iff)

lemma colon_split:
  assumes "58 \<notin> set a" "58 \<notin> set b" "a @ lit '':'' @ s = b @ lit '':'' @ t"
  shows "a = b \<and> s = t"
proof -
  have l: "lit '':'' = [58]" by (simp add: lit_def)
  have P: "takeWhile (\<lambda>c. c \<noteq> 58) (p @ lit '':'' @ s) = p" if "58 \<notin> set p" for p s
    using that unfolding l by (induction p) auto
  show ?thesis using P [OF assms(1), of s] P [OF assms(2), of t] assms(3) by auto
qed

lemma kind_no_colon: "58 \<notin> set (lit ''phase-output'')" "58 \<notin> set (lit ''completion-evidence'')"
  "58 \<notin> set (lit ''workflow-input'')" "58 \<notin> set (lit ''current-item'')"
  by (simp_all add: lit_def)

lemma sourceIdentity_inject:
  assumes "wfSource s" "wfSource t"
  shows "sourceIdentity s = sourceIdentity t \<longleftrightarrow> s = t"
proof
  assume eq: "sourceIdentity s = sourceIdentity t"
  have c: "58 \<in> set (lit '':'')" by (simp add: lit_def)
  have no: "lit k \<noteq> x @ lit '':'' @ y" "x @ lit '':'' @ y \<noteq> lit k" if "58 \<notin> set (lit k)" for k x y
    using that c by (metis Un_iff set_append)+
  show "s = t"
    using eq assms
  proof (cases s; cases t)
    fix p a q b assume st: "s = PhaseOutput p a" "t = PhaseOutput q b"
    then have "p @ lit '':'' @ a = q @ lit '':'' @ b" using eq by simp
    then show "s = t" using colon_split [of p q a b] key_no_colon assms st by auto
  next
    fix p a q b assume st: "s = EvidenceView p a" "t = EvidenceView q b"
    then have "p @ lit '':'' @ a = q @ lit '':'' @ b" using eq by simp
    then show "s = t" using colon_split [of p q a b] key_no_colon assms st by auto
  next
    fix p a q b assume st: "s = PhaseOutput p a" "t = EvidenceView q b"
    then show "s = t" using eq colon_split [OF kind_no_colon(1,2)] by fastforce
  next
    fix p a q b assume st: "s = EvidenceView p a" "t = PhaseOutput q b"
    then show "s = t" using eq colon_split [OF kind_no_colon(2,1)] by fastforce
  qed (use no kind_no_colon in auto)
qed simp

lemma validateMappingSource_wf: "validateMappingSource v = Inr (s, p) \<Longrightarrow> wfSource s"
  by (auto simp: validateMappingSource_def keyOf_eq_Inr bindE_eq_Inr split: option.splits if_splits)

lemma validateSourceBinding_wf: "validateSourceBinding v = Inr b \<Longrightarrow> wfSource (boundSource b)"
  by (auto simp: validateSourceBinding_def boundSourceOf_def Let_def keyOf_eq_Inr bindE_eq_Inr
      split: option.splits if_splits)

lemma validateMappingDeclaration_wf:
  assumes "validateMappingDeclaration v = Inr m"
  shows "wfSource (mappingSource m)"
    and "parseJsonPointer (mappingDestination m) = Inr (segmentsOf (mappingDestination m))"
proof -
  obtain source pointer d segs where m: "validateMappingSource (get v ''source'') = Inr (source, pointer)"
      "mappingSource m = source" "mappingDestination m = d" "parseJsonPointer d = Inr segs"
    using assms by (auto simp: validateMappingDeclaration_def bindE_eq_Inr split: option.splits)
  show "wfSource (mappingSource m)" unfolding m(2) by (rule validateMappingSource_wf) (rule m(1))
  show "parseJsonPointer (mappingDestination m) = Inr (segmentsOf (mappingDestination m))"
    by (simp add: m segmentsOf_def)
qed

text \<open>A source is read from the one binding that has it.\<close>

lemma matching_eq_Inr:
  assumes "wfSource s" "\<And>b. b \<in> set bs \<Longrightarrow> wfSource (boundSource b)"
  shows "matchingSourceBinding s bs = Inr b \<longleftrightarrow> filter (\<lambda>b. boundSource b = s) bs = [b]"
proof -
  have "filter (\<lambda>b. sourceIdentity s = sourceIdentity (boundSource b)) bs = filter (\<lambda>b. boundSource b = s) bs"
    using sourceIdentity_inject [OF assms(1)] assms(2) by (intro filter_cong) auto
  then show ?thesis by (auto simp: matchingSourceBinding_def split: list.splits)
qed

section \<open>Evaluation\<close>

text \<open>The declaration a mapping record was evaluated from.\<close>

definition declared :: "evaluatedMapping \<Rightarrow> dataMapping" where
  "declared m = \<lparr>mappingKey = evaluatedKey m, mappingSource = evaluatedSource m,
     mappingPointer = evaluatedPointer m, mappingDestination = evaluatedDestination m\<rparr>"

definition readsFrom :: "mappingPolicy \<Rightarrow> sourceBinding list \<Rightarrow> sha256 \<Rightarrow> evaluatedMapping \<Rightarrow> val \<Rightarrow> bool" where
  "readsFrom policy bs sha m v \<longleftrightarrow> permitted policy (evaluatedSource m) \<and>
     (\<exists>b. filter (\<lambda>b. boundSource b = evaluatedSource m) bs = [b] \<and> evaluatedBinding m = boundDigest b \<and>
       valueAtJsonPointer (boundValue b) (evaluatedPointer m) = Inr v) \<and>
     canonicalDigest v sha = Inr (evaluatedDigest m)"

lemma evaluateMapping_iff:
  assumes "wfSource (mappingSource d)" "\<And>b. b \<in> set bs \<Longrightarrow> wfSource (boundSource b)"
  shows "evaluateMapping policy bs sha d = Inr (m, v) \<longleftrightarrow> declared m = d \<and> readsFrom policy bs sha m v"
proof -
  have match: "matchingSourceBinding (mappingSource d) bs = Inr b \<longleftrightarrow> filter (\<lambda>b. boundSource b = mappingSource d) bs = [b]" for b
    by (rule matching_eq_Inr [OF assms(1)]) (rule assms(2))
  have same: "\<lparr>evaluatedKey = mappingKey d, evaluatedSource = mappingSource d, evaluatedPointer = mappingPointer d,
      evaluatedBinding = x, evaluatedDigest = y, evaluatedDestination = mappingDestination d\<rparr> = m \<longleftrightarrow>
    declared m = d \<and> evaluatedBinding m = x \<and> evaluatedDigest m = y" for x y
    by (cases m; cases d) (auto simp: declared_def)
  have "evaluateMapping policy bs sha d = Inr (m, v) \<longleftrightarrow> permitted policy (mappingSource d) \<and>
      (\<exists>b. filter (\<lambda>b. boundSource b = mappingSource d) bs = [b] \<and>
        valueAtJsonPointer (boundValue b) (mappingPointer d) = Inr v \<and>
        canonicalDigest v sha = Inr (evaluatedDigest m) \<and> evaluatedBinding m = boundDigest b \<and> declared m = d)"
  proof (cases "permitted policy (mappingSource d) \<and> (\<exists>b. matchingSourceBinding (mappingSource d) bs = Inr b)")
    case True
    then obtain b where b: "matchingSourceBinding (mappingSource d) bs = Inr b" by blast
    have p: "validateMappingSourcePolicy (mappingSource d) policy = Inr ()"
      using True by (simp add: sourcePolicy_permitted)
    show ?thesis using True b [unfolded match]
      by (cases "valueAtJsonPointer (boundValue b) (mappingPointer d)")
        (auto simp: evaluateMapping_def p b bindE_eq_Inr same)
  next
    case False
    then have "evaluateMapping policy bs sha d \<noteq> Inr (m, v)"
      by (auto simp: evaluateMapping_def bindE_eq_Inr sourcePolicy_permitted)
    moreover have "\<not> permitted policy (mappingSource d) \<or> (\<forall>b. filter (\<lambda>b. boundSource b = mappingSource d) bs \<noteq> [b])"
      using False by (simp add: match)
    ultimately show ?thesis by auto
  qed
  moreover have "mappingSource d = evaluatedSource m" "mappingPointer d = evaluatedPointer m" if "declared m = d"
    using that by (simp_all flip: that add: declared_def)
  ultimately show ?thesis by (cases "declared m = d") (auto simp: readsFrom_def)
qed

lemma orderedMappings_eq_Inr:
  "orderedMappings ds = Inr ms \<longleftrightarrow> (\<exists>validated. mapE validateMappingDeclaration ds = Inr validated \<and>
     distinct (map mappingKey validated) \<and> ms = sort_key mappingKey validated \<and>
     validateDestinations (map (\<lambda>m. (mappingDestination m, segmentsOf (mappingDestination m))) ms) = Inr ())"
proof -
  have p: "mapE (\<lambda>m. bindE (parseJsonPointer (mappingDestination m)) (\<lambda>segments.
      Inr (mappingDestination m, segments))) (sort_key mappingKey validated) =
    Inr (map (\<lambda>m. (mappingDestination m, segmentsOf (mappingDestination m))) (sort_key mappingKey validated))"
    if validated: "mapE validateMappingDeclaration ds = Inr validated" for validated
  proof (rule mapE_Inr_map)
    fix m assume "m \<in> set (sort_key mappingKey validated)"
    then have "m \<in> set validated" by simp
    then obtain d where "validateMappingDeclaration d = Inr m" using mapE_in_set [OF validated] by blast
    then show "bindE (parseJsonPointer (mappingDestination m)) (\<lambda>segments. Inr (mappingDestination m, segments)) =
        Inr (mappingDestination m, segmentsOf (mappingDestination m))"
      by (simp add: validateMappingDeclaration_wf(2))
  qed
  have d: "distinct (map mappingKey (sort_key mappingKey validated)) = distinct (map mappingKey validated)" for validated
  proof -
    have "mset (map mappingKey (sort_key mappingKey validated)) = mset (map mappingKey validated)" by simp
    then show ?thesis by (rule mset_eq_imp_distinct_iff)
  qed
  show ?thesis
    by (cases "mapE validateMappingDeclaration ds")
      (auto simp: orderedMappings_def Let_def assertUniqueMappingKeys_def p d bindE_eq_Inr)
qed

lemma evaluate_parts:
  assumes "evaluateDataMappings (Arr ds) (Arr bs) policy sha = Inr r"
  obtains pol bindings ms evaluated where "validateMappingPolicy policy = Inr pol"
    "mapE validateSourceBinding bs = Inr bindings" "orderedMappings ds = Inr ms"
    "mapE (evaluateMapping pol bindings sha) ms = Inr evaluated"
    "assembleMappedValue evaluated = Inr (inputValue r)" "inputMappings r = map fst evaluated"
  using assms by (auto simp: evaluateDataMappings_def bindE_eq_Inr snapshotCanonical_eq_Inr split: if_splits)

lemma evaluated_source:
  assumes "mapE validateSourceBinding bs = Inr bindings" "orderedMappings ds = Inr ms"
    and "mapE (evaluateMapping pol bindings sha) ms = Inr evaluated"
  shows "map (declared \<circ> fst) evaluated = ms" "\<forall>(m, v)\<in>set evaluated. readsFrom pol bindings sha m v"
proof -
  have b: "wfSource (boundSource b)" if "b \<in> set bindings" for b
    using mapE_in_set [OF assms(1) that] validateSourceBinding_wf by blast
  have m: "wfSource (mappingSource d)" if "d \<in> set ms" for d
    using assms(2) that mapE_in_set validateMappingDeclaration_wf(1) by (fastforce simp: orderedMappings_eq_Inr)
  have e: "declared (fst mv) = d \<and> readsFrom pol bindings sha (fst mv) (snd mv)"
    if "d \<in> set ms" "evaluateMapping pol bindings sha d = Inr mv" for d mv
    using that(2) evaluateMapping_iff [OF m [OF that(1)] b] by (cases mv) simp
  have inv: "map (declared \<circ> fst) evaluated = ms"
    by (rule mapE_inverse [OF assms(3)]) (simp add: e)
  then show "map (declared \<circ> fst) evaluated = ms" .
  show "\<forall>(m, v)\<in>set evaluated. readsFrom pol bindings sha m v"
  proof clarify
    fix x v assume "(x, v) \<in> set evaluated"
    then obtain d where "d \<in> set ms" "evaluateMapping pol bindings sha d = Inr (x, v)"
      using mapE_in_set [OF assms(3)] by blast
    then show "readsFrom pol bindings sha x v" using e by fastforce
  qed
qed

lemma valueAtJsonPointer_json: "valueAtJsonPointer v p = Inr w \<Longrightarrow> is_json w"
  by (auto simp: valueAtJsonPointer_def bindE_eq_Inr snapshotCanonical_eq_Inr)

lemma evaluated_placeable:
  assumes "orderedMappings ds = Inr ms" "map (declared \<circ> fst) evaluated = ms"
    and "\<forall>(m, v)\<in>set evaluated. readsFrom pol bindings sha m v" "mv \<in> set evaluated"
  shows "placeable mv"
proof -
  have "declared (fst mv) \<in> set ms" using assms(2,4) by force
  then obtain d where "validateMappingDeclaration d = Inr (declared (fst mv))"
    using assms(1) mapE_in_set by (fastforce simp: orderedMappings_eq_Inr)
  then have "parseJsonPointer (evaluatedDestination (fst mv)) = Inr (destinationOf mv)"
    using validateMappingDeclaration_wf(2) by (fastforce simp: declared_def)
  moreover have "is_json (snd mv)"
    using assms(3,4) valueAtJsonPointer_json by (cases mv) (auto simp: readsFrom_def)
  ultimately show ?thesis by (simp add: placeable_def)
qed

text \<open>In a list sorted by pointer a prefix comes first, and it clashes with its neighbour already.\<close>

definition printed :: "(jstr \<times> jstr list) list \<Rightarrow> bool" where
  "printed ds \<longleftrightarrow> sorted (map fst ds) \<and> (\<forall>d\<in>set ds. fst d = printPointer (snd d))"

lemma printed_nth:
  assumes "printed ds"
  shows "i < length ds \<Longrightarrow> fst (ds ! i) = printPointer (snd (ds ! i))"
    "i \<le> j \<Longrightarrow> j < length ds \<Longrightarrow> fst (ds ! i) \<le> fst (ds ! j)"
  using assms sorted_nth_mono [of "map fst ds" i j] by (simp_all add: printed_def)

lemma clash_neighbours:
  assumes "printed ds" "\<forall>d\<in>set ds. \<forall>c\<in>set (fst d). 47 \<le> c"
    and ij: "i < j" "j < length ds" "prefix (snd (ds ! i)) (snd (ds ! j))"
  shows "clashingNeighbours ds"
proof -
  let ?k = "Suc i"
  have i: "i < length ds" "?k < length ds" "?k \<le> j" using ij by simp_all
  note print = printed_nth(1) [OF assms(1)] and le = printed_nth(2) [OF assms(1)]
  obtain x where x: "fst (ds ! j) = fst (ds ! i) @ x" "x = [] \<or> hd x = 47"
    using prefix_printPointer [OF ij(3)] print [OF i(1)] print [OF ij(2)] by auto
  obtain y where y: "fst (ds ! ?k) = fst (ds ! i) @ y" "y \<le> x"
    using between_extension [of "fst (ds ! i)" "fst (ds ! ?k)" x] le [of i ?k] le [OF i(3) ij(2)] i(2) x(1) by auto
  have "prefix (snd (ds ! i)) (snd (ds ! ?k))"
  proof (cases y)
    case Nil
    then show ?thesis using y(1) print [OF i(1)] print [OF i(2)] by (simp add: printPointer_inject)
  next
    case (Cons b bs)
    have "b \<in> set (fst (ds ! ?k))" using y(1) Cons by simp
    then have "47 \<le> b" using assms(2) nth_mem [OF i(2)] by blast
    moreover have "b \<le> 47" using x(2) y(2) Cons by (cases x) auto
    ultimately have "printPointer (snd (ds ! ?k)) = printPointer (snd (ds ! i)) @ 47 # bs"
      using y(1) Cons print [OF i(1)] print [OF i(2)] by simp
    then show ?thesis by (rule printPointer_prefix)
  qed
  then show ?thesis using i(2) unfolding clashingNeighbours_iff by blast
qed

lemma le_extension: "(p :: jstr) \<le> p @ x"
  by (induction p) auto

lemma prefix_sorted:
  assumes "printed ds" "i < j" "j < length ds" "prefix (snd (ds ! j)) (snd (ds ! i))"
  shows "snd (ds ! i) = snd (ds ! j)"
proof -
  note print = printed_nth(1) [OF assms(1)]
  obtain x where x: "fst (ds ! i) = fst (ds ! j) @ x"
    using prefix_printPointer [OF assms(4)] print [of i] print [of j] assms(2,3) by auto
  have "fst (ds ! i) \<le> fst (ds ! j)" using printed_nth(2) [OF assms(1)] assms(2,3) by simp
  moreover have "fst (ds ! j) \<le> fst (ds ! i)" unfolding x by (rule le_extension)
  ultimately show ?thesis using print [of i] print [of j] assms(2,3) by (simp add: printPointer_inject)
qed

section \<open>An example\<close>

text \<open>Three mappings from the workflow input \<open>{"x": 1, "y": 2}\<close>.\<close>

definition demo_declaration :: "string \<Rightarrow> string \<Rightarrow> string \<Rightarrow> val" where
  "demo_declaration key pointer destination = Obj [(lit ''key'', Str (lit key)),
     (lit ''source'', Obj [(lit ''kind'', Str (lit ''workflow-input'')), (lit ''pointer'', Str (lit pointer))]),
     (lit ''destinationPointer'', Str (lit destination))]"

definition demo_source :: val where
  "demo_source = Obj [(lit ''source'', Obj [(lit ''kind'', Str (lit ''workflow-input''))]),
     (lit ''sourceBindingDigest'', Str (replicate 64 48)),
     (lit ''value'', Obj [(lit ''x'', Num (Whole 1)), (lit ''y'', Num (Whole 2))])]"

definition demo_policy :: val where
  "demo_policy = Obj [(lit ''dependencyPhases'', Arr []), (lit ''declaredPhaseOutputs'', Arr []),
     (lit ''completionEvidenceViews'', Arr []), (lit ''allowCurrentItem'', Bool False)]"

definition demo_input :: "val list \<Rightarrow> exn + evaluatedInput" where
  "demo_input ds = evaluateDataMappings (Arr ds) (Arr [demo_source]) demo_policy flatSha"

definition demo_declarations :: "val list" where
  "demo_declarations = [demo_declaration ''second'' ''/y'' ''/in/b'', demo_declaration ''first'' ''/x'' ''/in/a'']"

lemma demo_evaluated:
  "(case demo_input demo_declarations of Inl e \<Rightarrow> False
    | Inr r \<Rightarrow> prefixFree (map (segmentsOf \<circ> evaluatedDestination) (inputMappings r)) \<and>
        inputValue r = Obj [(lit ''in'', Obj [(lit ''a'', Num (Whole 1)), (lit ''b'', Num (Whole 2))])])"
  by code_simp

lemma orderedMappings_perm:
  assumes "mset ds = mset ds'" "orderedMappings ds = Inr ms"
  shows "orderedMappings ds' = Inr ms"
proof -
  obtain xs where xs: "mapE validateMappingDeclaration ds = Inr xs" "distinct (map mappingKey xs)"
      "ms = sort_key mappingKey xs"
    using assms(2) by (auto simp: orderedMappings_eq_Inr)
  obtain ys where ys: "mapE validateMappingDeclaration ds' = Inr ys" "mset xs = mset ys"
    using mapE_perm [OF xs(1) assms(1) [symmetric]] by blast
  have "mset (map mappingKey xs) = mset (map mappingKey ys)" using ys(2) by simp
  then have "distinct (map mappingKey ys)" using xs(2) by (metis mset_eq_imp_distinct_iff)
  moreover have "sort_key mappingKey ys = ms"
    using sort_key_perm_eq [OF ys(2), of mappingKey] xs(2,3) by (simp add: distinct_map)
  ultimately show ?thesis using assms(2) ys(1) unfolding orderedMappings_eq_Inr by metis
qed

lemma matching_perm: "mset bs = mset bs' \<Longrightarrow> matchingSourceBinding s bs = matchingSourceBinding s bs'"
proof -
  assume m: "mset bs = mset bs'"
  let ?P = "\<lambda>b. sourceIdentity s = sourceIdentity (boundSource b)"
  have "mset (filter ?P bs) = mset (filter ?P bs')" using m by simp
  then have "length (filter ?P bs) = length (filter ?P bs')" "set (filter ?P bs) = set (filter ?P bs')"
    by (rule mset_eq_length, rule mset_eq_setD)
  then show ?thesis
    by (cases "filter ?P bs" rule: remdups_adj.cases; cases "filter ?P bs'" rule: remdups_adj.cases)
      (simp_all add: matchingSourceBinding_def)
qed

section \<open>The properties\<close>

text \<open>A JSON pointer is read exactly when it is the print of the segments it reads as, within the
  limits on its length and its number of segments: reading and printing are inverse.\<close>

theorem pointer_roundtrip:
  "parseJsonPointer p = Inr segs \<longleftrightarrow> p = printPointer segs \<and> length p \<le> 2048 \<and> length segs \<le> 128"
  by (rule parse_eq_Inr)

text \<open>C19. An evaluated phase input holds what its mappings declare. The mappings are the declarations
  in the order of their keys; each reads a source the policy permits from the only binding of that
  source, and records the digests of both. When no destination is a prefix of another, the value
  holds at every destination the selected value, and nothing that is not part of one or leads to one.\<close>

theorem mapping_delivered:
  assumes "evaluateDataMappings (Arr ds) (Arr bs) policy sha = Inr r"
    and "prefixFree (map (segmentsOf \<circ> evaluatedDestination) (inputMappings r))"
  shows "\<exists>pol bindings declarations vs. validateMappingPolicy policy = Inr pol \<and>
    mapE validateSourceBinding bs = Inr bindings \<and> mapE validateMappingDeclaration ds = Inr declarations \<and>
    map declared (inputMappings r) = sort_key mappingKey declarations \<and>
    list_all2 (readsFrom pol bindings sha) (inputMappings r) vs \<and>
    holdsExactly (inputValue r) (zip (inputMappings r) vs)"
proof -
  obtain pol bindings ms evaluated where e: "validateMappingPolicy policy = Inr pol"
    "mapE validateSourceBinding bs = Inr bindings" "orderedMappings ds = Inr ms"
    "mapE (evaluateMapping pol bindings sha) ms = Inr evaluated"
    "assembleMappedValue evaluated = Inr (inputValue r)" "inputMappings r = map fst evaluated"
    by (rule evaluate_parts [OF assms(1)])
  note src = evaluated_source [OF e(2-4)]
  obtain declarations where d: "mapE validateMappingDeclaration ds = Inr declarations"
      "ms = sort_key mappingKey declarations"
    using e(3) by (auto simp: orderedMappings_eq_Inr)
  have "holdsExactly (inputValue r) evaluated"
    using assemble_exact [of evaluated] evaluated_placeable [OF e(3) src] assms(2) e(5,6) by (auto simp: comp_def)
  moreover have "zip (inputMappings r) (map snd evaluated) = evaluated" by (simp add: e(6) zip_map_fst_snd)
  moreover have "list_all2 (readsFrom pol bindings sha) (inputMappings r) (map snd evaluated)"
    using src(2) by (auto simp: e(6) list_all2_map1 list_all2_map2 list_all2_same)
  moreover have "map declared (inputMappings r) = sort_key mappingKey declarations"
    using src(1) by (simp add: e(6) d(2) comp_def)
  ultimately show ?thesis using e(1,2) d(1) by metis
qed

theorem mapping_delivered_witness:
  "\<exists>r. evaluateDataMappings (Arr demo_declarations) (Arr [demo_source]) demo_policy flatSha = Inr r \<and>
     (\<exists>pol bindings declarations vs. validateMappingPolicy demo_policy = Inr pol \<and>
       mapE validateSourceBinding [demo_source] = Inr bindings \<and>
       mapE validateMappingDeclaration demo_declarations = Inr declarations \<and>
       map declared (inputMappings r) = sort_key mappingKey declarations \<and>
       list_all2 (readsFrom pol bindings flatSha) (inputMappings r) vs \<and>
       holdsExactly (inputValue r) (zip (inputMappings r) vs))"
proof -
  obtain r where "evaluateDataMappings (Arr demo_declarations) (Arr [demo_source]) demo_policy flatSha = Inr r"
      "prefixFree (map (segmentsOf \<circ> evaluatedDestination) (inputMappings r))"
    using demo_evaluated unfolding demo_input_def by (auto split: sum.splits)
  then show ?thesis using mapping_delivered [of demo_declarations "[demo_source]" demo_policy flatSha r] by blast
qed

text \<open>C23. Destinations of which none is a prefix of another are accepted. The check compares
  neighbours in the order of the pointers only, so it is exact as long as no pointer has a character
  that sorts below the slash.\<close>

theorem destinations_checked:
  assumes "\<forall>(p, segs)\<in>set ds. parseJsonPointer p = Inr segs"
  shows "(prefixFree (map snd ds) \<longrightarrow> validateDestinations ds = Inr ()) \<and>
    ((\<forall>(p, segs)\<in>set ds. \<forall>c\<in>set p. 47 \<le> c) \<longrightarrow> validateDestinations ds = Inr () \<longrightarrow> prefixFree (map snd ds))"
proof (intro conjI impI)
  show "prefixFree (map snd ds) \<Longrightarrow> validateDestinations ds = Inr ()" by (rule prefixFree_accepted)
next
  assume c: "\<forall>(p, segs)\<in>set ds. \<forall>c\<in>set p. 47 \<le> c" and v: "validateDestinations ds = Inr ()"
  let ?s = "sort_key fst ds"
  have p: "printed ?s" using assms by (auto simp: printed_def parse_eq_Inr)
  have c': "\<forall>d\<in>set ?s. \<forall>c\<in>set (fst d). 47 \<le> c" using c by auto
  have no: "\<not> prefix (snd (?s ! i)) (snd (?s ! j))" if "i < j" "j < length ?s" for i j
    using clash_neighbours [OF p c' that] v by (auto simp: validateDestinations_def split: if_splits)
  have "prefixFree (map snd ?s)" unfolding prefixFree_def sorted_wrt_iff_nth_less
  proof (intro allI impI)
    fix i j assume ij: "i < j" "j < length (map snd ?s)"
    then have "\<not> prefix (snd (?s ! j)) (snd (?s ! i))" using no [of i j] prefix_sorted [OF p, of i j] by auto
    then show "\<not> prefix (map snd ?s ! i) (map snd ?s ! j) \<and> \<not> prefix (map snd ?s ! j) (map snd ?s ! i)"
      using no [of i j] ij by simp
  qed
  then show "prefixFree (map snd ds)" using prefixFree_perm [of "map snd ?s" "map snd ds"] by simp
qed

theorem destinations_checked_witness:
  "validateDestinations [(lit ''/b'', [lit ''b'']), (lit ''/a/c'', [lit ''a'', lit ''c''])] = Inr ()"
  using destinations_checked [of "[(lit ''/b'', [lit ''b'']), (lit ''/a/c'', [lit ''a'', lit ''c''])]"]
  by (rule mp [OF conjunct1]) (code_simp, code_simp)

text \<open>The order of the declarations and of the bindings does not matter: any other order gives the
  same mappings, the same value and the same digests.\<close>

theorem mapping_order_independent:
  assumes "mset ds = mset ds'" "mset bs = mset bs'"
    and "evaluateDataMappings (Arr ds) (Arr bs) policy sha = Inr r"
  shows "evaluateDataMappings (Arr ds') (Arr bs') policy sha = Inr r"
proof -
  have len: "length ds' = length ds" and sets: "set ds' = set ds" "set bs' = set bs"
    using assms(1,2) by (metis size_mset, metis set_mset_mset, metis set_mset_mset)
  obtain pol bindings ms where e: "validateMappingPolicy policy = Inr pol"
      "mapE validateSourceBinding bs = Inr bindings" "orderedMappings ds = Inr ms"
    by (rule evaluate_parts [OF assms(3)])
  obtain bindings' where b: "mapE validateSourceBinding bs' = Inr bindings'" "mset bindings = mset bindings'"
    using mapE_perm [OF e(2) assms(2) [symmetric]] by blast
  have "evaluateMapping pol bindings' sha = evaluateMapping pol bindings sha"
    using matching_perm [OF b(2)] by (simp add: evaluateMapping_def fun_eq_iff)
  then show ?thesis using assms(3) e b(1) orderedMappings_perm [OF assms(1) e(3)] len sets
    by (simp add: evaluateDataMappings_def snapshotCanonical_def list_all_iff split: if_splits)
qed

theorem mapping_order_independent_witness:
  "demo_input (rev demo_declarations) = demo_input demo_declarations"
proof -
  obtain r where "evaluateDataMappings (Arr demo_declarations) (Arr [demo_source]) demo_policy flatSha = Inr r"
    using demo_evaluated unfolding demo_input_def by (auto split: sum.splits)
  then show ?thesis
    using mapping_order_independent [of demo_declarations "rev demo_declarations" "[demo_source]" "[demo_source]"]
    by (simp add: demo_input_def)
qed

end
