(* ===== verification/DataflowRecordProperties.thy ===== *)
theory DataflowRecordProperties
  imports DataflowProperties
begin

text \<open>
  The records of dataflow.ts. Their contract is the locale \<open>recreated\<close>: a record is valid when
  creating it again from its own fields gives the same canonical bytes.
\<close>

section \<open>The contract\<close>

locale recreated =
  fixes create :: "val \<Rightarrow> exn + val"
    and validate :: "val \<Rightarrow> exn + val"
    and ks :: "string list"
    and shape :: "val \<Rightarrow> bool"
  assumes validate_iff: "validate s = Inr r \<longleftrightarrow> is_json s \<and> shape s \<and> create (pickFields s ks) = Inr r \<and>
      canonicalSerialize s = canonicalSerialize r"
    and created_shape: "create v = Inr r \<Longrightarrow> is_json r \<and> shape r"
    and recreate: "create v = Inr r \<Longrightarrow> \<exists>r'. create (pickFields r ks) = Inr r' \<and> norm r' = norm r"
begin

lemma create_validates: "create v = Inr r \<Longrightarrow> \<exists>r'. validate r = Inr r' \<and> norm r' = norm r"
proof -
  assume c: "create v = Inr r"
  then obtain r' where r': "create (pickFields r ks) = Inr r'" "norm r' = norm r" using recreate by blast
  then have "canonicalSerialize r = canonicalSerialize r'"
    using created_shape c by (simp add: canonicalSerialize_def serialize_eq_iff)
  then have "validate r = Inr r'" using r' created_shape [OF c] by (simp add: validate_iff)
  then show ?thesis using r'(2) by blast
qed

lemma validated_same: "validate s = Inr r \<Longrightarrow> norm s = norm r"
  using created_shape by (auto simp: validate_iff canonicalSerialize_def serialize_eq_iff)

lemma validated_again: "validate s = Inr r \<Longrightarrow> \<exists>r'. validate r = Inr r' \<and> norm r' = norm r"
  using create_validates by (auto simp: validate_iff)

end

text \<open>A sealed record: its content and, in its last field, the digest of the content.\<close>

lemma sealRecord_eq_Inr:
  "sealRecord content k sha = Inr r \<longleftrightarrow> is_json (Obj content) \<and> sha256Pattern (sha (canonicalBytes (Obj content))) \<and>
     r = Obj (content @ [(lit k, Str (sha (canonicalBytes (Obj content))))]) \<and> is_json r"
  unfolding sealRecord_def bindE_eq_Inr snapshotCanonical_eq_Inr canonicalDigest_eq_Inr by blast

lemma pickFields_keys': "map fst (props (pickFields v ks)) = map lit ks"
  by (simp add: pickFields_def)

lemma pickFields_pick:
  assumes "\<And>k. k \<in> set ks \<Longrightarrow> get r k = get v k"
  shows "pickFields r ks = pickFields v ks"
  using assms by (simp add: pickFields_def)

lemma props_pickFields: "Obj (props (pickFields v ks)) = pickFields v ks"
  by (simp add: pickFields_def)

lemma pickFields_Obj: "\<exists>kvs. pickFields v ks = Obj kvs"
  by (simp add: pickFields_def)

lemma pickFields_self:
  assumes "is_json (Obj kvs)" "exactKeys (Obj kvs) ks"
  shows "is_json (pickFields (Obj kvs) ks)" "norm (pickFields (Obj kvs) ks) = norm (Obj kvs)"
proof -
  have keys: "mset (map fst kvs) = mset (map lit ks)" using assms(2) by (simp add: exactKeys_Obj)
  have "distinct (map fst kvs)" using assms(1) by simp
  then have "distinct (map lit ks)" using keys by (metis mset_eq_imp_distinct_iff)
  moreover have "is_json (get (Obj kvs) k)" if "k \<in> set ks" for k
    using exactKeys_field_json [OF assms(2,1) that] .
  ultimately show j: "is_json (pickFields (Obj kvs) ks)"
    by (auto simp: pickFields_def list_all_iff comp_def)
  have eq: "norm (Obj (map (\<lambda>k. (lit k, get (Obj kvs) k)) ks)) = norm (Obj kvs)"
  proof (rule norm_recordI)
    show "mset (map fst (map (\<lambda>k. (lit k, get (Obj kvs) k)) ks)) = mset (map fst kvs)"
      by (simp add: keys comp_def flip: mset_map)
    fix k assume "k \<in> fst ` set (map (\<lambda>k. (lit k, get (Obj kvs) k)) ks)"
    then obtain n where "k = lit n" "n \<in> set ks" by auto
    then show "norm (field (Obj (map (\<lambda>k. (lit k, get (Obj kvs) k)) ks)) k) = norm (field (Obj kvs) k)"
      using pickFields_get [of n ks "Obj kvs"] by (simp add: pickFields_def)
  qed (use j assms(1) in \<open>simp_all add: pickFields_def\<close>)
  then show "norm (pickFields (Obj kvs) ks) = norm (Obj kvs)" by (simp add: pickFields_def)
qed

lemma wrapped_get:
  "k \<in> set ks \<Longrightarrow> lit k \<notin> fst ` set pre \<Longrightarrow> get (Obj (pre @ props (pickFields v ks) @ post)) k = get v k"
  using pickFields_get [of k ks v] by (auto simp: pickFields_def image_iff)

section \<open>Checks\<close>

text \<open>The checks read fields only, so they do not tell a value from the pick of its fields.\<close>

lemma validateRepositoryRun_iff:
  "validateRepositoryRun v = Inr u \<longleftrightarrow>
     (\<exists>s. get v ''repositoryId'' = Str s \<and> s \<noteq> []) \<and> isIdentity RunKind (get v ''runId'')"
  by (auto simp: validateRepositoryRun_def split: option.splits)

lemma assertDigests_iff: "assertDigests e v ks = Inr u \<longleftrightarrow> (\<forall>k\<in>set ks. isSha256Digest (get v k))"
  by (simp add: assertDigests_def forE_eq_Inr)

lemma assertByteLength_iff: "assertByteLength v = Inr u \<longleftrightarrow> (\<exists>i. v = Num (Whole i) \<and> isSafe i \<and> 0 \<le> i)"
  by (auto simp: assertByteLength_def safeInt_eq_Some split: option.splits)

lemma validatePhaseAttemptReference_iff:
  "validatePhaseAttemptReference v = Inr w \<longleftrightarrow> w = v \<and> isRecord v \<and>
     exactKeys v [''phaseId'', ''definitionGeneration'', ''attempt''] \<and> isIdentity PhaseKind (get v ''phaseId'') \<and>
     isDefinitionGeneration (get v ''definitionGeneration'') \<and> (\<exists>i. get v ''attempt'' = Num (Whole i) \<and> isSafe i \<and> 1 \<le> i)"
  by (auto simp: validatePhaseAttemptReference_def bindE_eq_Inr assertExactKeys_eq_Inr posSafeInt_eq_Some)

lemma validateTaskReference_iff:
  "validateTaskReference v = Inr w \<longleftrightarrow> w = v \<and> isRecord v \<and>
     exactKeys v [''taskId'', ''definitionGeneration'', ''contextRevisionDigest''] \<and> isIdentity TaskKind (get v ''taskId'') \<and>
     isDefinitionGeneration (get v ''definitionGeneration'') \<and> isSha256Digest (get v ''contextRevisionDigest'')"
  by (auto simp: validateTaskReference_def bindE_eq_Inr assertExactKeys_eq_Inr)

section \<open>Attempts\<close>

definition attemptOk :: "val \<Rightarrow> bool" where
  "attemptOk v \<longleftrightarrow> validateRepositoryRun v = Inr () \<and> validatePhaseAttemptReference (get v ''phase'') = Inr (get v ''phase'') \<and>
     (\<forall>k\<in>set phaseAttemptDigests. isSha256Digest (get v k))"

lemma phaseAttemptContent_eq_Inr:
  "phaseAttemptContent v = Inr c \<longleftrightarrow> is_json v \<and> isRecord v \<and> exactKeys v phaseAttemptFields \<and> attemptOk v \<and>
     c = props (pickFields v phaseAttemptFields)"
  by (auto simp: phaseAttemptContent_def bindE_eq_Inr snapshotCanonical_eq_Inr assertExactKeys_eq_Inr attemptOk_def
      validatePhaseAttemptReference_iff assertDigests_iff)

lemma attemptOk_cong:
  assumes "\<And>k. k \<in> set phaseAttemptFields \<Longrightarrow> get v k = get w k"
  shows "attemptOk v = attemptOk w"
proof -
  have "get v ''repositoryId'' = get w ''repositoryId''" "get v ''runId'' = get w ''runId''"
    "get v ''phase'' = get w ''phase''" by (rule assms(1), simp add: phaseAttemptFields_def)+
  moreover have "get v k = get w k" if "k \<in> set phaseAttemptDigests" for k
    by (rule assms(1)) (simp add: phaseAttemptFields_def that)
  ultimately show ?thesis by (simp add: attemptOk_def validateRepositoryRun_iff)
qed

text \<open>A creator that picks checked fields: what it makes is made again from the same fields.\<close>

lemma pick_again:
  assumes ok: "\<And>v w. (\<And>k. k \<in> set ks \<Longrightarrow> get v k = get w k) \<Longrightarrow> P v = P w"
    and same: "\<And>k. k \<in> set ks \<Longrightarrow> get r k = get v k"
    and v: "is_json v" "isRecord v" "exactKeys v ks" "P v"
  shows "pickFields r ks = pickFields v ks" "pickFields (pickFields r ks) ks = pickFields v ks"
    "is_json (pickFields r ks)" "isRecord (pickFields r ks)" "exactKeys (pickFields r ks) ks" "P (pickFields r ks)"
proof -
  show pick: "pickFields r ks = pickFields v ks" using same by (rule pickFields_pick)
  have get: "get (pickFields v ks) k = get v k" if "k \<in> set ks" for k using that by (rule pickFields_get)
  show "pickFields (pickFields r ks) ks = pickFields v ks" unfolding pick using get by (rule pickFields_pick)
  show "is_json (pickFields r ks)" using v(1-3) pickFields_self(1) unfolding pick by (cases v) (simp_all add: isRecord_def)
  show "isRecord (pickFields r ks)" "exactKeys (pickFields r ks) ks"
    by (simp_all add: pickFields_def exactKeys_Obj comp_def)
  show "P (pickFields r ks)" using ok [of "pickFields v ks" v] get v(4) unfolding pick by simp
qed

lemma attempt_created:
  assumes "createPhaseAttempt v sha = Inr r"
  shows "is_json r" "exactKeys r (''apiVersion'' # phaseAttemptFields @ [''attemptDigest''])"
    "get r ''apiVersion'' = phaseAttemptApiVersion" "createPhaseAttempt (pickFields r phaseAttemptFields) sha = Inr r"
proof -
  let ?c = "(lit ''apiVersion'', phaseAttemptApiVersion) # props (pickFields v phaseAttemptFields)"
  have v: "is_json v" "isRecord v" "exactKeys v phaseAttemptFields" "attemptOk v" and s: "sealRecord ?c ''attemptDigest'' sha = Inr r"
    using assms by (auto simp: createPhaseAttempt_def bindE_eq_Inr phaseAttemptContent_eq_Inr)
  then obtain d where r: "r = Obj (?c @ [(lit ''attemptDigest'', d)])" and j: "is_json r"
    by (auto simp: sealRecord_eq_Inr simp del: is_json.simps)
  show "is_json r" by (rule j)
  show "get r ''apiVersion'' = phaseAttemptApiVersion" by (simp add: r)
  show "exactKeys r (''apiVersion'' # phaseAttemptFields @ [''attemptDigest''])"
    by (simp add: r exactKeys_Obj pickFields_def comp_def)
  have "get r k = get v k" if "k \<in> set phaseAttemptFields" for k
    using wrapped_get [OF that, of "[(lit ''apiVersion'', phaseAttemptApiVersion)]" v] that
    by (auto simp: r phaseAttemptFields_def phaseAttemptDigests_def)
  note again = pick_again [of phaseAttemptFields attemptOk, OF attemptOk_cong this v]
  show "createPhaseAttempt (pickFields r phaseAttemptFields) sha = Inr r"
    using again s by (simp add: createPhaseAttempt_def phaseAttemptContent_eq_Inr [THEN iffD2])
qed

interpretation attempt: recreated "\<lambda>v. createPhaseAttempt v sha" "\<lambda>v. validatePhaseAttempt v sha" phaseAttemptFields
  "\<lambda>s. isRecord s \<and> exactKeys s (''apiVersion'' # phaseAttemptFields @ [''attemptDigest'']) \<and>
     get s ''apiVersion'' = phaseAttemptApiVersion" for sha
proof unfold_locales
  fix s r
  show "validatePhaseAttempt s sha = Inr r \<longleftrightarrow> is_json s \<and> (isRecord s \<and>
      exactKeys s (''apiVersion'' # phaseAttemptFields @ [''attemptDigest'']) \<and> get s ''apiVersion'' = phaseAttemptApiVersion) \<and>
      createPhaseAttempt (pickFields s phaseAttemptFields) sha = Inr r \<and> canonicalSerialize s = canonicalSerialize r"
    by (auto simp: validatePhaseAttempt_def bindE_eq_Inr snapshotCanonical_eq_Inr assertExactKeys_eq_Inr assertExactRecord_def)
next
  fix v r assume c: "createPhaseAttempt v sha = Inr r"
  have "isRecord r" using c by (auto simp: createPhaseAttempt_def bindE_eq_Inr sealRecord_eq_Inr)
  then show "is_json r \<and> (isRecord r \<and> exactKeys r (''apiVersion'' # phaseAttemptFields @ [''attemptDigest'']) \<and>
      get r ''apiVersion'' = phaseAttemptApiVersion)"
    using attempt_created [OF c] by simp
  show "\<exists>r'. createPhaseAttempt (pickFields r phaseAttemptFields) sha = Inr r' \<and> norm r' = norm r"
    using attempt_created(4) [OF c] by blast
qed

section \<open>Publications\<close>

definition publicationOk :: "val \<Rightarrow> bool" where
  "publicationOk v \<longleftrightarrow> validateRepositoryRun v = Inr () \<and> validatePhaseAttemptReference (get v ''phase'') = Inr (get v ''phase'') \<and>
     isConsumerKey (get v ''outputName'') \<and> isConsumerKey (get v ''schemaKey'') \<and>
     (\<forall>k\<in>set publicationDigests. isSha256Digest (get v k)) \<and> assertByteLength (get v ''byteLength'') = Inr () \<and>
     get v ''mediaType'' = Str (lit ''application/json'') \<and>
     validateTaskReference (get v ''producingTask'') = Inr (get v ''producingTask'') \<and>
     isIdentity DispatchKind (get v ''dispatchId'') \<and> isIdentity ContextKind (get v ''contextId'')"

lemma phaseOutputPublicationContent_eq_Inr:
  "phaseOutputPublicationContent v = Inr c \<longleftrightarrow> is_json v \<and> isRecord v \<and> exactKeys v publicationFields \<and> publicationOk v \<and>
     c = props (pickFields v publicationFields)"
  by (auto simp: phaseOutputPublicationContent_def bindE_eq_Inr snapshotCanonical_eq_Inr assertExactKeys_eq_Inr
      publicationOk_def validatePhaseAttemptReference_iff validateTaskReference_iff assertDigests_iff)

lemma publicationOk_cong:
  assumes "\<And>k. k \<in> set publicationFields \<Longrightarrow> get v k = get w k"
  shows "publicationOk v = publicationOk w"
proof -
  have "get v ''repositoryId'' = get w ''repositoryId''" "get v ''runId'' = get w ''runId''"
    "get v ''phase'' = get w ''phase''" "get v ''outputName'' = get w ''outputName''" "get v ''schemaKey'' = get w ''schemaKey''"
    "get v ''byteLength'' = get w ''byteLength''" "get v ''mediaType'' = get w ''mediaType''"
    "get v ''producingTask'' = get w ''producingTask''" "get v ''dispatchId'' = get w ''dispatchId''"
    "get v ''contextId'' = get w ''contextId''" by (rule assms(1), simp add: publicationFields_def)+
  moreover have "get v k = get w k" if "k \<in> set publicationDigests" for k
    by (rule assms(1)) (use that in \<open>auto simp: publicationFields_def publicationDigests_def\<close>)
  ultimately show ?thesis by (simp add: publicationOk_def validateRepositoryRun_iff)
qed

text \<open>A publication from its checked fields.\<close>

definition publicationOf :: "sha256 \<Rightarrow> (jstr \<times> val) list \<Rightarrow> val" where
  "publicationOf sha c = (let d = sha (canonicalBytes (Obj ((lit ''apiVersion'', publicationApiVersion) # c))) in
     Obj ([(lit ''apiVersion'', publicationApiVersion), (lit ''publicationId'', Str (lit ''publication_'' @ d))] @ c @
       [(lit ''publicationDigest'', Str d)]))"

lemma publication_eq_Inr:
  "createPhaseOutputPublication v sha = Inr r \<longleftrightarrow> is_json v \<and> isRecord v \<and> exactKeys v publicationFields \<and> publicationOk v \<and>
     r = publicationOf sha (props (pickFields v publicationFields)) \<and> is_json r \<and>
     is_json (Obj ((lit ''apiVersion'', publicationApiVersion) # props (pickFields v publicationFields))) \<and>
     sha256Pattern (sha (canonicalBytes (Obj ((lit ''apiVersion'', publicationApiVersion) # props (pickFields v publicationFields)))))"
  unfolding createPhaseOutputPublication_def bindE_eq_Inr phaseOutputPublicationContent_eq_Inr snapshotCanonical_eq_Inr
    canonicalDigest_eq_Inr publicationOf_def Let_def by blast

lemma publication_created:
  assumes "createPhaseOutputPublication v sha = Inr r"
  shows "is_json r" "isRecord r" "exactKeys r ([''apiVersion'', ''publicationId''] @ publicationFields @ [''publicationDigest''])"
    "get r ''apiVersion'' = publicationApiVersion" "createPhaseOutputPublication (pickFields r publicationFields) sha = Inr r"
    "publicationOk r"
proof -
  note c = assms [unfolded publication_eq_Inr]
  show "is_json r" using c by blast
  obtain p d where r: "r = Obj ([(lit ''apiVersion'', publicationApiVersion), (lit ''publicationId'', p)] @
      props (pickFields v publicationFields) @ [(lit ''publicationDigest'', d)])"
    using c by (simp add: publicationOf_def Let_def)
  show "get r ''apiVersion'' = publicationApiVersion" "isRecord r" by (simp_all add: r)
  show "exactKeys r ([''apiVersion'', ''publicationId''] @ publicationFields @ [''publicationDigest''])"
    by (simp add: r exactKeys_Obj pickFields_def comp_def)
  have get: "get r k = get v k" if "k \<in> set publicationFields" for k
    unfolding r by (rule wrapped_get [OF that]) (use that in \<open>auto simp: publicationFields_def\<close>)
  note again = pick_again [of publicationFields publicationOk, OF publicationOk_cong get]
  show "createPhaseOutputPublication (pickFields r publicationFields) sha = Inr r"
    using again c unfolding publication_eq_Inr by (elim conjE) simp
  show "publicationOk r" using publicationOk_cong [of r v] get c by simp
qed

interpretation publication: recreated "\<lambda>v. createPhaseOutputPublication v sha" "\<lambda>v. validatePhaseOutputPublication v sha"
  publicationFields "\<lambda>s. isRecord s \<and> exactKeys s ([''apiVersion'', ''publicationId''] @ publicationFields @
     [''publicationDigest'']) \<and> get s ''apiVersion'' = publicationApiVersion" for sha
proof unfold_locales
  fix s r
  show "validatePhaseOutputPublication s sha = Inr r \<longleftrightarrow> is_json s \<and> (isRecord s \<and>
      exactKeys s ([''apiVersion'', ''publicationId''] @ publicationFields @ [''publicationDigest'']) \<and>
      get s ''apiVersion'' = publicationApiVersion) \<and>
      createPhaseOutputPublication (pickFields s publicationFields) sha = Inr r \<and> canonicalSerialize s = canonicalSerialize r"
    by (auto simp: validatePhaseOutputPublication_def bindE_eq_Inr snapshotCanonical_eq_Inr assertExactKeys_eq_Inr
        assertExactRecord_def)
next
  fix v r assume c: "createPhaseOutputPublication v sha = Inr r"
  show "is_json r \<and> (isRecord r \<and> exactKeys r ([''apiVersion'', ''publicationId''] @ publicationFields @
      [''publicationDigest'']) \<and> get r ''apiVersion'' = publicationApiVersion)"
    using publication_created [OF c] by simp
  show "\<exists>r'. createPhaseOutputPublication (pickFields r publicationFields) sha = Inr r' \<and> norm r' = norm r"
    using publication_created(5) [OF c] by blast
qed

section \<open>Workflow input bindings\<close>

definition workflowInputOk :: "val \<Rightarrow> bool" where
  "workflowInputOk v \<longleftrightarrow> validateCommonBinding v = Inr () \<and> (\<exists>w. get v ''workflowId'' = Str w \<and> w \<noteq> [])"

lemma workflowInputBindingContent_eq_Inr:
  "workflowInputBindingContent v = Inr c \<longleftrightarrow> is_json v \<and> isRecord v \<and> exactKeys v workflowInputFields \<and>
     workflowInputOk v \<and> c = v"
  by (auto simp: workflowInputBindingContent_def bindE_eq_Inr snapshotCanonical_eq_Inr assertExactKeys_eq_Inr
      workflowInputOk_def split: option.splits if_splits)

lemma workflowInputOk_cong:
  assumes "\<And>k. k \<in> set workflowInputFields \<Longrightarrow> get v k = get w k"
  shows "workflowInputOk v = workflowInputOk w"
proof -
  have "get v k = get w k" if "k \<in> {''repositoryId'', ''runId'', ''workflowId'', ''schemaKey'', ''byteLength'',
      ''graphRevisionDigest'', ''configurationSnapshotDigest'', ''schemaResourceDigest'', ''contentDigest'',
      ''validationReceiptDigest''}" for k
    by (rule assms) (use that in \<open>auto simp: workflowInputFields_def\<close>)
  then show ?thesis
    by (simp add: workflowInputOk_def validateCommonBinding_def bindE_eq_Inr validateRepositoryRun_iff assertDigests_iff
        if_Inl_eq_Inr)
qed

text \<open>The content is the input itself, whose properties may come in any order.\<close>

lemma json_within:
  assumes "is_json (Obj (pre @ kvs @ post))" "is_json (Obj kvs')" "mset (map fst kvs') = mset (map fst kvs)"
  shows "is_json (Obj (pre @ kvs' @ post))"
proof -
  have "mset (map fst (pre @ kvs' @ post)) = mset (map fst (pre @ kvs @ post))" using assms(3) by simp
  then have "distinct (map fst (pre @ kvs' @ post))" using assms(1) by (metis is_json.simps(7) mset_eq_imp_distinct_iff)
  then show ?thesis using assms(1,2) by simp
qed

lemma norm_within:
  assumes "is_json (Obj (pre @ kvs @ post))" "is_json (Obj kvs')" "norm (Obj kvs') = norm (Obj kvs)"
  shows "is_json (Obj (pre @ kvs' @ post))" "norm (Obj (pre @ kvs' @ post)) = norm (Obj (pre @ kvs @ post))"
proof -
  have "is_json (Obj kvs)" using assms(1) by simp
  note d = norm_recordD [OF assms(3,2) this]
  show j: "is_json (Obj (pre @ kvs' @ post))" by (rule json_within [OF assms(1,2) d(1)])
  show "norm (Obj (pre @ kvs' @ post)) = norm (Obj (pre @ kvs @ post))"
  proof (rule norm_recordI [OF j assms(1)])
    show "mset (map fst (pre @ kvs' @ post)) = mset (map fst (pre @ kvs @ post))" using d(1) by simp
    have "fst ` set kvs' = fst ` set kvs" using mset_eq_setD [OF d(1)] by simp
    then show "norm (field (Obj (pre @ kvs' @ post)) a) = norm (field (Obj (pre @ kvs @ post)) a)" for a
      using d(2) [of a] by simp
  qed
qed

lemma workflowInput_created:
  assumes "createWorkflowInputBinding v sha = Inr r"
  shows "is_json r" "isRecord r" "exactKeys r (''apiVersion'' # workflowInputFields @ [''bindingDigest''])"
    "get r ''apiVersion'' = workflowInputApiVersion"
    "\<exists>r'. createWorkflowInputBinding (pickFields r workflowInputFields) sha = Inr r' \<and> norm r' = norm r"
proof -
  let ?c = "\<lambda>w. (lit ''apiVersion'', workflowInputApiVersion) # props w" and ?p = "pickFields v workflowInputFields"
  have v: "is_json v" "isRecord v" "exactKeys v workflowInputFields" "workflowInputOk v"
    and s: "sealRecord (?c v) ''bindingDigest'' sha = Inr r"
    using assms by (auto simp: createWorkflowInputBinding_def bindE_eq_Inr workflowInputBindingContent_eq_Inr)
  obtain kvs where kvs: "v = Obj kvs" using v(2) by (auto simp: isRecord_iff)
  then obtain d where r: "r = Obj (?c v @ [(lit ''bindingDigest'', d)])" and j: "is_json r"
    using s by (auto simp: sealRecord_eq_Inr simp del: is_json.simps)
  show "is_json r" by (rule j)
  show "get r ''apiVersion'' = workflowInputApiVersion" "isRecord r" by (simp_all add: r)
  show "exactKeys r (''apiVersion'' # workflowInputFields @ [''bindingDigest''])"
    using v(3) by (simp add: r kvs exactKeys_Obj)
  have keys: "fst ` set kvs = lit ` set workflowInputFields" using exactKeys_set [OF v(3)] by (simp add: kvs)
  have get: "get r k = get v k" if "k \<in> set workflowInputFields" for k
  proof -
    have "lit k \<in> fst ` set kvs" "k \<noteq> ''apiVersion''" using keys that by (auto simp: workflowInputFields_def)
    then show ?thesis by (simp add: r kvs)
  qed
  note again = pick_again [of workflowInputFields workflowInputOk, OF workflowInputOk_cong get v]
  have n: "norm ?p = norm v" using pickFields_self(2) v(1,3) by (simp add: kvs)
  obtain pvs where p: "pickFields (Obj kvs) workflowInputFields = Obj pvs" using pickFields_Obj by blast
  have p': "is_json (Obj pvs)" "norm (Obj pvs) = norm (Obj kvs)" using again(1,3) n by (simp_all add: kvs p del: is_json.simps norm.simps)
  let ?api = "[(lit ''apiVersion'', workflowInputApiVersion)]"
  have c: "is_json (Obj (?api @ kvs @ []))" "is_json (Obj (?api @ kvs @ [(lit ''bindingDigest'', d)]))"
    using s j by (auto simp: sealRecord_eq_Inr r kvs)
  note n1 = norm_within [OF c(1) p'] and n2 = norm_within [OF c(2) p']
  have "canonicalBytes (Obj (?c ?p)) = canonicalBytes (Obj (?c v))"
    using n1 c(1) canonicalBytes_eq_iff [OF n1(1) c(1)] by (simp add: p kvs)
  then have "sealRecord (?c ?p) ''bindingDigest'' sha = Inr (Obj (?c ?p @ [(lit ''bindingDigest'', d)]))"
    using s n1(1) n2(1) unfolding sealRecord_eq_Inr r by (simp add: p kvs)
  then have "createWorkflowInputBinding (pickFields r workflowInputFields) sha = Inr (Obj (?c ?p @ [(lit ''bindingDigest'', d)]))"
    using again by (simp add: createWorkflowInputBinding_def workflowInputBindingContent_eq_Inr [THEN iffD2])
  then show "\<exists>r'. createWorkflowInputBinding (pickFields r workflowInputFields) sha = Inr r' \<and> norm r' = norm r"
    using n2(2) by (simp add: p r kvs)
qed

interpretation workflowInput: recreated "\<lambda>v. createWorkflowInputBinding v sha" "\<lambda>v. validateWorkflowInputBinding v sha"
  workflowInputFields "\<lambda>s. isRecord s \<and> exactKeys s (''apiVersion'' # workflowInputFields @ [''bindingDigest'']) \<and>
     get s ''apiVersion'' = workflowInputApiVersion" for sha
proof unfold_locales
  fix s r
  show "validateWorkflowInputBinding s sha = Inr r \<longleftrightarrow> is_json s \<and> (isRecord s \<and>
      exactKeys s (''apiVersion'' # workflowInputFields @ [''bindingDigest'']) \<and> get s ''apiVersion'' = workflowInputApiVersion) \<and>
      createWorkflowInputBinding (pickFields s workflowInputFields) sha = Inr r \<and> canonicalSerialize s = canonicalSerialize r"
    by (auto simp: validateWorkflowInputBinding_def bindE_eq_Inr snapshotCanonical_eq_Inr assertExactKeys_eq_Inr
        assertExactRecord_def)
qed (use workflowInput_created in blast)+

section \<open>Phase input bindings\<close>

lemma validateMappingSource_again:
  assumes "wfSource s" "parseJsonPointer p = Inr segs"
  shows "validateMappingSource (encMappingSource s p) = Inr (s, p)"
  using assms by (cases s)
    (auto simp: validateMappingSource_def encMappingSource_def keyOf_def strIf_def isConsumerKey_iff exactKeys_Obj)

definition evaluatedOk :: "evaluatedMapping \<Rightarrow> bool" where
  "evaluatedOk m \<longleftrightarrow> consumerKeyPattern (evaluatedKey m) \<and> wfSource (evaluatedSource m) \<and>
     (\<exists>segs. parseJsonPointer (evaluatedPointer m) = Inr segs) \<and> (\<exists>segs. parseJsonPointer (evaluatedDestination m) = Inr segs) \<and>
     sha256Pattern (evaluatedBinding m) \<and> sha256Pattern (evaluatedDigest m)"

lemma validateMappingSource_pointer: "validateMappingSource v = Inr (s, p) \<Longrightarrow> \<exists>segs. parseJsonPointer p = Inr segs"
  by (auto simp: validateMappingSource_def bindE_eq_Inr split: option.splits if_splits)

interpretation evaluatedMapping: codec validateEvaluatedMapping encEvaluatedMapping evaluatedOk
proof unfold_locales
  fix v m assume "validateEvaluatedMapping v = Inr m"
  then obtain s p where sp: "validateMappingSource (get v ''source'') = Inr (s, p)"
      "evaluatedSource m = s" "evaluatedPointer m = p" "consumerKeyPattern (evaluatedKey m)"
      "sha256Pattern (evaluatedBinding m)" "sha256Pattern (evaluatedDigest m)"
      "\<exists>segs. parseJsonPointer (evaluatedDestination m) = Inr segs"
    by (auto simp: validateEvaluatedMapping_def bindE_eq_Inr keyOf_eq_Inr digestOf_eq_Inr split: option.splits)
  then show "evaluatedOk m"
    using validateMappingSource_wf [OF sp(1)] validateMappingSource_pointer [OF sp(1)] by (simp add: evaluatedOk_def)
next
  fix m assume ok: "evaluatedOk m"
  then obtain segs where "parseJsonPointer (evaluatedPointer m) = Inr segs" by (auto simp: evaluatedOk_def)
  then have "validateMappingSource (encMappingSource (evaluatedSource m) (evaluatedPointer m)) =
      Inr (evaluatedSource m, evaluatedPointer m)"
    using ok by (intro validateMappingSource_again) (auto simp: evaluatedOk_def)
  then show "validateEvaluatedMapping (encEvaluatedMapping m) = Inr m"
    using ok by (auto simp: validateEvaluatedMapping_def encEvaluatedMapping_def evaluatedOk_def keyOf_def strIf_def
        isConsumerKey_iff digestOf_def)
qed

definition phaseInputContent :: "val \<Rightarrow> evaluatedMapping list \<Rightarrow> (jstr \<times> val) list" where
  "phaseInputContent v ms = [(lit ''phase'', get v ''phase''), (lit ''schemaKey'', get v ''schemaKey''),
     (lit ''schemaResourceDigest'', get v ''schemaResourceDigest''),
     (lit ''mappings'', Arr (map encEvaluatedMapping ms)), (lit ''contentDigest'', get v ''contentDigest''),
     (lit ''byteLength'', get v ''byteLength''),
     (lit ''validationReceiptDigest'', get v ''validationReceiptDigest''),
     (lit ''sourceSetDigest'', get v ''sourceSetDigest'')]"

definition phaseInputOk :: "val \<Rightarrow> evaluatedMapping list \<Rightarrow> sha256 \<Rightarrow> bool" where
  "phaseInputOk v ms sha \<longleftrightarrow> validatePhaseAttemptReference (get v ''phase'') = Inr (get v ''phase'') \<and>
     isConsumerKey (get v ''schemaKey'') \<and> isSha256Digest (get v ''schemaResourceDigest'') \<and>
     isSha256Digest (get v ''contentDigest'') \<and> isSha256Digest (get v ''validationReceiptDigest'') \<and>
     assertByteLength (get v ''byteLength'') = Inr () \<and> distinct (map evaluatedKey ms) \<and>
     sort_key evaluatedKey ms = ms \<and> (\<forall>m\<in>set ms. evaluatedOk m) \<and>
     sha256Pattern (sha (canonicalBytes (encMappingSet ms))) \<and>
     get v ''sourceSetDigest'' = Str (sha (canonicalBytes (encMappingSet ms)))"

lemma phaseInputBindingContent_ok:
  assumes "phaseInputBindingContent v sha = Inr c"
  obtains ms where "phaseInputOk v ms sha" "c = phaseInputContent v ms"
proof -
  obtain submitted validated where v: "validatePhaseAttemptReference (get v ''phase'') = Inr (get v ''phase'')"
      "isConsumerKey (get v ''schemaKey'')" "assertByteLength (get v ''byteLength'') = Inr ()"
      "isSha256Digest (get v ''schemaResourceDigest'')" "isSha256Digest (get v ''contentDigest'')"
      "isSha256Digest (get v ''validationReceiptDigest'')"
      "mapE validateEvaluatedMapping submitted = Inr validated" "distinct (map evaluatedKey (sort_key evaluatedKey validated))"
      "sha256Pattern (sha (canonicalBytes (encMappingSet (sort_key evaluatedKey validated))))"
      "get v ''sourceSetDigest'' = Str (sha (canonicalBytes (encMappingSet (sort_key evaluatedKey validated))))"
      "c = phaseInputContent v (sort_key evaluatedKey validated)"
    using assms by (auto simp: phaseInputBindingContent_def bindE_eq_Inr snapshotCanonical_eq_Inr assertDigests_iff validatePhaseAttemptReference_iff
        assertUniqueEvaluatedMappings_def canonicalDigest_eq_Inr Let_def phaseInputContent_def
        split: option.splits if_splits)
  have "sort_key evaluatedKey (sort_key evaluatedKey validated) = sort_key evaluatedKey validated"
    by (rule sort_key_id_if_sorted) simp
  then have "phaseInputOk v (sort_key evaluatedKey validated) sha"
    using v evaluatedMapping.decs_ok [OF v(7)] by (simp add: phaseInputOk_def)
  then show ?thesis using v(11) by (rule that)
qed

lemma phaseInputBindingContent_enc:
  assumes "phaseInputOk v ms sha" "is_json (Obj (phaseInputContent v ms))"
  shows "phaseInputBindingContent (Obj (phaseInputContent v ms)) sha = Inr (phaseInputContent v ms)"
proof -
  let ?w = "Obj (phaseInputContent v ms)"
  have get: "get ?w ''mappings'' = Arr (map encEvaluatedMapping ms)"
    "k \<in> set phaseInputFields \<Longrightarrow> k \<noteq> ''mappings'' \<Longrightarrow> get ?w k = get v k" for k
    by (auto simp: phaseInputContent_def phaseInputFields_def)
  have dec: "mapE validateEvaluatedMapping (map encEvaluatedMapping ms) = Inr ms"
    using assms(1) by (intro evaluatedMapping.decs_enc) (simp add: phaseInputOk_def)
  have keys: "assertExactKeys ?w phaseInputFields invalidRecord = Inr ()"
    by (rule assertExactKeys_Obj) (simp add: phaseInputContent_def phaseInputFields_def)
  have g: "get ?w ''phase'' = get v ''phase''" "get ?w ''schemaKey'' = get v ''schemaKey''"
    "get ?w ''schemaResourceDigest'' = get v ''schemaResourceDigest''" "get ?w ''contentDigest'' = get v ''contentDigest''"
    "get ?w ''byteLength'' = get v ''byteLength''" "get ?w ''validationReceiptDigest'' = get v ''validationReceiptDigest''"
    "get ?w ''sourceSetDigest'' = get v ''sourceSetDigest''"
    by (rule get(2); simp add: phaseInputFields_def)+
  have digests: "assertDigests invalidRecord ?w [''schemaResourceDigest'', ''contentDigest'', ''validationReceiptDigest'',
      ''sourceSetDigest''] = Inr ()"
    using assms(1) by (simp add: assertDigests_iff g phaseInputOk_def)
  show ?thesis
    using assms unfolding phaseInputBindingContent_def snapshotCanonical_def
    by (simp add: keys digests g get(1) dec phaseInputOk_def assertUniqueEvaluatedMappings_def canonicalDigest_def Let_def
        del: is_json.simps) (simp add: phaseInputContent_def)
qed

lemma phaseInput_created:
  assumes "createPhaseInputBinding v sha = Inr r"
  shows "is_json r" "isRecord r" "exactKeys r (phaseInputFields @ [''bindingDigest''])"
    "createPhaseInputBinding (pickFields r phaseInputFields) sha = Inr r"
proof -
  obtain c where c: "phaseInputBindingContent v sha = Inr c" and s: "sealRecord c ''bindingDigest'' sha = Inr r"
    using assms by (auto simp: createPhaseInputBinding_def bindE_eq_Inr)
  obtain ms where ms: "phaseInputOk v ms sha" "c = phaseInputContent v ms" by (rule phaseInputBindingContent_ok [OF c])
  obtain d where r: "r = Obj (c @ [(lit ''bindingDigest'', d)])" and j: "is_json r" "is_json (Obj c)"
    using s by (auto simp: sealRecord_eq_Inr simp del: is_json.simps)
  show "is_json r" by (rule j(1))
  show "isRecord r" "exactKeys r (phaseInputFields @ [''bindingDigest''])"
    by (simp_all add: r ms(2) exactKeys_Obj phaseInputContent_def phaseInputFields_def)
  have "pickFields r phaseInputFields = Obj c"
    by (simp add: r ms(2) pickFields_def phaseInputContent_def phaseInputFields_def)
  then show "createPhaseInputBinding (pickFields r phaseInputFields) sha = Inr r"
    using phaseInputBindingContent_enc [OF ms(1)] s j(2) by (simp add: createPhaseInputBinding_def ms(2) del: is_json.simps)
qed

interpretation phaseInput: recreated "\<lambda>v. createPhaseInputBinding v sha" "\<lambda>v. validatePhaseInputBinding v sha"
  phaseInputFields "\<lambda>s. isRecord s \<and> exactKeys s (phaseInputFields @ [''bindingDigest''])" for sha
proof unfold_locales
  fix s r
  show "validatePhaseInputBinding s sha = Inr r \<longleftrightarrow> is_json s \<and> (isRecord s \<and>
      exactKeys s (phaseInputFields @ [''bindingDigest''])) \<and>
      createPhaseInputBinding (pickFields s phaseInputFields) sha = Inr r \<and> canonicalSerialize s = canonicalSerialize r"
    by (auto simp: validatePhaseInputBinding_def bindE_eq_Inr snapshotCanonical_eq_Inr assertExactKeys_eq_Inr
        assertExactRecord_def)
qed (use phaseInput_created in blast)+

section \<open>The property\<close>

text \<open>C38. The records of dataflow.ts lose nothing: what \<open>create...\<close> returns is accepted by \<open>validate...\<close>
  and read back unchanged, up to the order of the properties of a workflow input.\<close>

theorem dataflow_records_roundtrip:
  "(createWorkflowInputBinding v sha = Inr w \<longrightarrow> (\<exists>w'. validateWorkflowInputBinding w sha = Inr w' \<and> norm w' = norm w)) \<and>
   (createPhaseInputBinding v sha = Inr p \<longrightarrow> validatePhaseInputBinding p sha = Inr p) \<and>
   (createPhaseAttempt v sha = Inr a \<longrightarrow> validatePhaseAttempt a sha = Inr a) \<and>
   (createPhaseOutputPublication v sha = Inr r \<longrightarrow> validatePhaseOutputPublication r sha = Inr r)"
  using workflowInput.create_validates [of v sha w] phaseInput_created [of v sha p] attempt_created [of v sha a]
    publication_created [of v sha r] attempt.created_shape [of v sha a]
  by (auto simp: phaseInput.validate_iff attempt.validate_iff publication.validate_iff)

definition demo_attempt :: val where
  "demo_attempt = Obj ([(lit ''repositoryId'', Str (lit ''repository'')), (lit ''runId'', Str (lit ''run_a'')),
     (lit ''phase'', Obj [(lit ''phaseId'', Str (lit ''phase_a'')), (lit ''definitionGeneration'', Num (Whole 1)),
       (lit ''attempt'', Num (Whole 1))])] @ map (\<lambda>k. (lit k, Str (replicate 64 48))) phaseAttemptDigests)"

lemma flat_pattern: "sha256Pattern (replicate 64 48)"
  by (simp add: sha256Pattern_def isHexLower_def isDigit_def list_all_iff)

lemma demo_attempt_created: "\<exists>a. createPhaseAttempt demo_attempt flatSha = Inr a"
proof -
  let ?c = "(lit ''apiVersion'', phaseAttemptApiVersion) # props (pickFields demo_attempt phaseAttemptFields)"
  have j: "is_json demo_attempt" by (simp add: demo_attempt_def phaseAttemptDigests_def) code_simp
  have "isRecord demo_attempt" "exactKeys demo_attempt phaseAttemptFields"
    by (simp_all add: demo_attempt_def phaseAttemptDigests_def phaseAttemptFields_def exactKeys_Obj)
  moreover have "validateRepositoryRun demo_attempt = Inr ()"
      "validatePhaseAttemptReference (get demo_attempt ''phase'') = Inr (get demo_attempt ''phase'')"
    by code_simp+
  moreover have "\<forall>k\<in>set phaseAttemptDigests. isSha256Digest (get demo_attempt k)"
    by (simp add: demo_attempt_def phaseAttemptDigests_def isSha256Digest_def flat_pattern)
  moreover have "is_json (Obj ?c)" "is_json (Obj (?c @ [(lit ''attemptDigest'', Str (replicate 64 48))]))"
    by (simp_all add: demo_attempt_def phaseAttemptDigests_def phaseAttemptFields_def pickFields_def phaseAttemptApiVersion_def) code_simp+
  ultimately show ?thesis using j
    by (simp add: attemptOk_def createPhaseAttempt_def bindE_eq_Inr phaseAttemptContent_eq_Inr sealRecord_def
        snapshotCanonical_def del: is_json.simps)
qed

theorem dataflow_records_roundtrip_witness:
  "\<exists>a. createPhaseAttempt demo_attempt flatSha = Inr a \<and> validatePhaseAttempt a flatSha = Inr a"
proof -
  obtain a where a: "createPhaseAttempt demo_attempt flatSha = Inr a" using demo_attempt_created ..
  have "validatePhaseAttempt a flatSha = Inr a"
    using dataflow_records_roundtrip [of demo_attempt flatSha _ _ a] a by blast
  with a show ?thesis by blast
qed

end
