(* ===== verification/Candidates.thy ===== *)
theory Candidates
  imports DataflowRecords Gates GraphCodec Timestamps
begin

text \<open>
  packages/kernel/src/candidates.ts: the candidate a phase submits for closure, the decisions of the
  authority over it, and the closure that binds the candidate to an accepted gate and an approval.

  The task references, assessments and requirements a candidate holds are the records of
  completion.ts, its output publications the values of dataflow.ts.
\<close>

section \<open>Candidates\<close>

abbreviation invalidCandidate :: exn where
  "invalidCandidate \<equiv> CandidateError KInvalidCandidate"

record phaseRef =
  prPhase :: jstr
  prGeneration :: int

record acceptedAssessment =
  acceptedDigest :: jstr
  acceptedAccounting :: accounting

record candidateContent =
  candPhase :: phaseRef
  candAttempt :: int
  candGraphRevision :: jstr
  candInputBinding :: jstr
  candPublications :: "val list"
  candOutputSet :: jstr
  candTaskSet :: jstr
  candTasks :: "taskGenRef list"
  candAssessments :: "acceptedAssessment list"
  candDependencyBarrier :: jstr
  candEvidencePolicy :: jstr
  candGatePolicy :: jstr
  candIntegrationBarrier :: "jstr option"

record phaseCandidate = candidateContent +
  candidateDigest :: jstr

definition encPhaseRef :: "phaseRef \<Rightarrow> val" where
  "encPhaseRef p = Obj [(lit ''phaseId'', Str (prPhase p)), (lit ''definitionGeneration'', Num (Whole (prGeneration p)))]"

definition encPhaseAttempt :: "phaseRef \<Rightarrow> int \<Rightarrow> val" where
  "encPhaseAttempt p n = Obj [(lit ''phaseId'', Str (prPhase p)), (lit ''definitionGeneration'', Num (Whole (prGeneration p))),
     (lit ''attempt'', Num (Whole n))]"

definition encAccepted :: "acceptedAssessment \<Rightarrow> val" where
  "encAccepted a = Obj [(lit ''assessmentDigest'', Str (acceptedDigest a)),
     (lit ''assessment'', encAccounting (acceptedAccounting a))]"

definition encCandidateContent :: "'a candidateContent_scheme \<Rightarrow> val" where
  "encCandidateContent c = Obj ([(lit ''phase'', encPhaseRef (candPhase c)),
     (lit ''phaseAttempt'', encPhaseAttempt (candPhase c) (candAttempt c)),
     (lit ''graphRevisionDigest'', Str (candGraphRevision c)), (lit ''inputBindingDigest'', Str (candInputBinding c)),
     (lit ''requiredOutputPublications'', Arr (candPublications c)), (lit ''outputSetDigest'', Str (candOutputSet c)),
     (lit ''selectedTaskSetDigest'', Str (candTaskSet c)), (lit ''tasks'', Arr (map encTaskRef (candTasks c))),
     (lit ''acceptedAccountingAssessments'', Arr (map encAccepted (candAssessments c))),
     (lit ''dependencyBarrierDigest'', Str (candDependencyBarrier c)),
     (lit ''completionEvidencePolicyDigest'', Str (candEvidencePolicy c)),
     (lit ''gatePolicyDigest'', Str (candGatePolicy c))] @
     optionalField ''integrationBarrierDigest'' Str (candIntegrationBarrier c))"

definition encCandidate :: "phaseCandidate \<Rightarrow> val" where
  "encCandidate c = Obj (props (encCandidateContent c) @ [(lit ''candidateDigest'', Str (candidateDigest c))])"

text \<open>\<open>compareTaskReferences\<close> compares the fields joined by null characters.\<close>

definition taskSortText :: "taskGenRef \<Rightarrow> jstr" where
  "taskSortText t = trTask t @ [0] @ intStr (trGeneration t) @ [0] @ trContext t"

definition validateAndSortTaskReferences :: "val list \<Rightarrow> exn + taskGenRef list" where
  "validateAndSortTaskReferences vs =
     bindE (mapE (taskReferenceOf invalidCandidate) vs) (\<lambda>tasks.
     if \<not> distinct (map trTask tasks) then Inl (CandidateError KDuplicateTask)
     else Inr (sort_key taskSortText tasks))"

definition taskSetDigest :: "taskGenRef list \<Rightarrow> sha256 \<Rightarrow> exn + jstr" where
  "taskSetDigest tasks sha = canonicalDigest (Obj [(lit ''tasks'', Arr (map encTaskRef tasks))]) sha"

definition digestSelectedTaskSet :: "val \<Rightarrow> sha256 \<Rightarrow> exn + jstr" where
  "digestSelectedTaskSet v sha =
     bindE (snapshotCanonical invalidCandidate v) (\<lambda>snapshot. case arrOf snapshot of
       None \<Rightarrow> Inl invalidCandidate
     | Some vs \<Rightarrow> bindE (validateAndSortTaskReferences vs) (\<lambda>tasks. taskSetDigest tasks sha))"

section \<open>Output publications\<close>

definition textField :: "val \<Rightarrow> string \<Rightarrow> jstr" where
  "textField v k = (case get v k of Str s \<Rightarrow> s | _ \<Rightarrow> [])"

fun adjacentEqual :: "'a list \<Rightarrow> bool" where
  "adjacentEqual (x # y # xs) \<longleftrightarrow> x = y \<or> adjacentEqual (y # xs)"
| "adjacentEqual _ \<longleftrightarrow> False"

definition validateAndSortOutputPublications :: "val list \<Rightarrow> sha256 \<Rightarrow> exn + val list" where
  "validateAndSortOutputPublications publications sha =
     bindE (mapE (\<lambda>p. validatePhaseOutputPublication p sha) publications) (\<lambda>validated.
     let ps = sort_key (\<lambda>p. textField p ''outputName'') validated in
     if adjacentEqual (map (\<lambda>p. get p ''outputName'') ps) then Inl (CandidateError KDuplicateOutputSlot)
     else Inr ps)"

definition outputSetDigest :: "val list \<Rightarrow> sha256 \<Rightarrow> exn + jstr" where
  "outputSetDigest ps sha = canonicalDigest (Obj [(lit ''publications'', Arr ps)]) sha"

definition digestPhaseOutputSet :: "val \<Rightarrow> sha256 \<Rightarrow> exn + jstr" where
  "digestPhaseOutputSet v sha = (case arrOf v of None \<Rightarrow> Inl TypeError
     | Some publications \<Rightarrow> bindE (validateAndSortOutputPublications publications sha) (\<lambda>ps. outputSetDigest ps sha))"

section \<open>Requirements and the graph\<close>

definition candidateGraph :: "val \<Rightarrow> sha256 \<Rightarrow> exn + workflowGraph" where
  "candidateGraph v sha = (case validateWorkflowGraph v sha of
     Inl GraphValidationError \<Rightarrow> Inl invalidCandidate | m \<Rightarrow> m)"

definition requirementsOf :: "workflowGraph \<Rightarrow> taskGenRef \<Rightarrow> exn + requirements" where
  "requirementsOf g t = (case keyed defId (tasksOf (graphNodes g)) (trTask t) of
     None \<Rightarrow> Inl (CandidateError KTaskMismatch)
   | Some d \<Rightarrow> if defGeneration d \<noteq> trGeneration t then Inl (CandidateError KTaskMismatch)
       else Inr (completionPolicy.extend (defPolicy d) \<lparr>reqTask = t\<rparr>))"

definition deriveRequirementsFromGraph :: "workflowGraph \<Rightarrow> taskGenRef list \<Rightarrow> exn + requirements list" where
  "deriveRequirementsFromGraph g tasks = mapE (requirementsOf g) tasks"

definition deriveCompletionRequirements :: "val \<Rightarrow> val \<Rightarrow> sha256 \<Rightarrow> exn + requirements list" where
  "deriveCompletionRequirements graph tasks sha =
     bindE (candidateGraph graph sha) (\<lambda>g.
     bindE (snapshotCanonical invalidCandidate tasks) (\<lambda>snapshot. case arrOf snapshot of
       None \<Rightarrow> Inl invalidCandidate
     | Some vs \<Rightarrow> bindE (validateAndSortTaskReferences vs) (deriveRequirementsFromGraph g)))"

definition requirementsDigest :: "requirements list \<Rightarrow> sha256 \<Rightarrow> exn + jstr" where
  "requirementsDigest rs sha = canonicalDigest (Obj [(lit ''completionRequirements'', Arr (map encRequirements rs))]) sha"

definition digestCompletionRequirements :: "val \<Rightarrow> sha256 \<Rightarrow> exn + jstr" where
  "digestCompletionRequirements v sha =
     bindE (snapshotCanonical invalidCandidate v) (\<lambda>snapshot. case arrOf snapshot of
       None \<Rightarrow> Inl invalidCandidate
     | Some vs \<Rightarrow> bindE (mapE validateCompletionRequirements vs) (\<lambda>rs.
         requirementsDigest (sort_key (\<lambda>r. taskSortText (reqTask r)) rs) sha))"

definition activeTasks :: "workflowGraph \<Rightarrow> jstr \<Rightarrow> taskDef list" where
  "activeTasks g phase =
     (let direct = filter (\<lambda>d. parentId d = phase) (tasksOf (graphNodes g));
          superseded = concat (map supersedes direct)
      in sort_key defId (filter (\<lambda>d. defId d \<notin> set superseded) direct))"

definition assertPhaseAndTasksMatchGraph :: "phaseRef \<Rightarrow> taskGenRef list \<Rightarrow> workflowGraph \<Rightarrow> exn + unit" where
  "assertPhaseAndTasksMatchGraph phase tasks g =
     (case find (\<lambda>d. defId d = prPhase phase) (phasesOf (graphNodes g)) of
        None \<Rightarrow> Inl (CandidateError KPhaseMismatch)
      | Some d \<Rightarrow>
          if defGeneration d \<noteq> prGeneration phase then Inl (CandidateError KPhaseMismatch)
          else let active = activeTasks g (prPhase phase) in
            if length tasks \<noteq> length active \<or> list_ex (\<lambda>(x, t). trTask t \<noteq> defId x) (zip active tasks)
            then Inl (CandidateError KTaskSetMismatch)
            else forE (\<lambda>t. case keyed defId active (trTask t) of
                None \<Rightarrow> Inl (CandidateError KTaskSetMismatch)
              | Some x \<Rightarrow> if defGeneration x \<noteq> trGeneration t then Inl (CandidateError KTaskMismatch) else Inr ()) tasks)"

section \<open>Accepted assessments\<close>

definition assertAcceptedAccountingAssessment :: "accounting \<Rightarrow> exn + unit" where
  "assertAcceptedAccountingAssessment a =
     (if subDisposition (accSubmission a) \<noteq> CompletedT then Inl (CandidateError KUnacceptedAssessment)
      else if \<not> accSatisfied a then Inl (CandidateError KUnacceptedAssessment)
      else if list_ex (\<lambda>c. caRequired c \<and> caDisposition c \<noteq> SatisfiedD \<and> caDisposition c \<noteq> WaivedD) (accCriteria a)
      then Inl (CandidateError KUnacceptedAssessment)
      else Inr ())"

definition reassessAccountingAssessment :: "requirements \<Rightarrow> val \<Rightarrow> exn + accounting" where
  "reassessAccountingAssessment r v = (case reassessCompletionAccounting (encRequirements r) v of
     Inl (CompletionAccountingError _) \<Rightarrow> Inl (CandidateError KInvalidAssessment) | m \<Rightarrow> m)"

definition acceptAssessment :: "taskGenRef list \<Rightarrow> requirements list \<Rightarrow> sha256 \<Rightarrow>
    (jstr, acceptedAssessment) jsmap \<Rightarrow> val \<Rightarrow> exn + (jstr, acceptedAssessment) jsmap" where
  "acceptAssessment tasks rs sha found v =
     bindE (assertAllowedKeys v [''assessmentDigest'', ''assessment''] [] (CandidateError KInvalidAssessment)) (\<lambda>_.
     if \<not> isSha256Digest (get v ''assessmentDigest'') then Inl (CandidateError KInvalidAssessmentDigest)
     else if \<not> isRecord (get v ''assessment'') \<or> \<not> isRecord (get (get v ''assessment'') ''submission'')
     then Inl (CandidateError KInvalidAssessment)
     else bindE (taskReferenceOf invalidCandidate (get (get (get v ''assessment'') ''submission'') ''task'')) (\<lambda>submitted.
     case (keyed (\<lambda>r. trTask (reqTask r)) rs (trTask submitted), keyed trTask tasks (trTask submitted)) of
       (Some r, Some expected) \<Rightarrow>
         if expected \<noteq> submitted then Inl (CandidateError KAssessmentTaskMismatch)
         else bindE (reassessAccountingAssessment r (get v ''assessment'')) (\<lambda>a.
         bindE (assertAcceptedAccountingAssessment a) (\<lambda>_.
         bindE (canonicalDigest (encAccounting a) sha) (\<lambda>computed.
         if Str computed \<noteq> get v ''assessmentDigest'' then Inl (CandidateError KInvalidAssessmentDigest)
         else if expected \<noteq> subTask (accSubmission a) then Inl (CandidateError KAssessmentTaskMismatch)
         else if mapHas found (trTask expected) then Inl (CandidateError KDuplicateAssessment)
         else Inr (mapSet (trTask expected) \<lparr>acceptedDigest = computed, acceptedAccounting = a\<rparr> found))))
     | _ \<Rightarrow> Inl (CandidateError KUnknownAssessment)))"

definition validateAcceptedAssessments :: "val \<Rightarrow> taskGenRef list \<Rightarrow> workflowGraph \<Rightarrow> sha256 \<Rightarrow>
    exn + acceptedAssessment list" where
  "validateAcceptedAssessments v tasks g sha = (case arrOf v of None \<Rightarrow> Inl invalidCandidate
     | Some vs \<Rightarrow>
         bindE (deriveRequirementsFromGraph g tasks) (\<lambda>rs.
         bindE (foldE (acceptAssessment tasks rs sha) [] vs) (\<lambda>found.
         mapE (\<lambda>t. case mapGet found (trTask t) of
             None \<Rightarrow> Inl (CandidateError KMissingAssessment) | Some a \<Rightarrow> Inr a) tasks)))"

section \<open>Candidate content\<close>

definition phaseReferenceOf :: "exn \<Rightarrow> val \<Rightarrow> exn + phaseRef" where
  "phaseReferenceOf e v =
     bindE (assertAllowedKeys v [''phaseId'', ''definitionGeneration''] [] e) (\<lambda>_.
     bindE (strIf (isIdentity PhaseKind) e (get v ''phaseId'')) (\<lambda>p.
     bindE (generationOf e (get v ''definitionGeneration'')) (\<lambda>n.
       Inr \<lparr>prPhase = p, prGeneration = n\<rparr>)))"

definition candidatePhaseAttempt :: "val \<Rightarrow> phaseRef \<Rightarrow> exn + int" where
  "candidatePhaseAttempt v phase =
     bindE (assertAllowedKeys v [''phaseId'', ''definitionGeneration'', ''attempt''] [] invalidCandidate) (\<lambda>_.
     bindE (strIf (isIdentity PhaseKind) invalidCandidate (get v ''phaseId'')) (\<lambda>p.
     bindE (generationOf invalidCandidate (get v ''definitionGeneration'')) (\<lambda>n.
     case posSafeInt (get v ''attempt'') of None \<Rightarrow> Inl invalidCandidate
     | Some attempt \<Rightarrow>
         if \<lparr>prPhase = p, prGeneration = n\<rparr> \<noteq> phase then Inl (CandidateError KPhaseMismatch) else Inr attempt)))"

definition candidateDigests :: "string list" where
  "candidateDigests = [''graphRevisionDigest'', ''inputBindingDigest'', ''outputSetDigest'', ''selectedTaskSetDigest'',
     ''dependencyBarrierDigest'', ''gatePolicyDigest'']"

definition candidateKeys :: "bool \<Rightarrow> string list" where
  "candidateKeys includesDigest = [''phase'', ''phaseAttempt'', ''graphRevisionDigest'', ''inputBindingDigest'',
     ''requiredOutputPublications'', ''outputSetDigest'', ''selectedTaskSetDigest'', ''tasks'',
     ''acceptedAccountingAssessments'', ''dependencyBarrierDigest'', ''gatePolicyDigest''] @
     (if includesDigest then [''completionEvidencePolicyDigest'', ''candidateDigest''] else [])"

text \<open>A publication belongs to the attempt, the graph and the input of the candidate.\<close>

definition boundToAttempt :: "val \<Rightarrow> phaseRef \<Rightarrow> int \<Rightarrow> val \<Rightarrow> bool" where
  "boundToAttempt v phase attempt p \<longleftrightarrow> get (get p ''phase'') ''phaseId'' = Str (prPhase phase) \<and>
     get (get p ''phase'') ''definitionGeneration'' = Num (Whole (prGeneration phase)) \<and>
     get (get p ''phase'') ''attempt'' = Num (Whole attempt) \<and>
     get p ''graphRevisionDigest'' = get v ''graphRevisionDigest'' \<and> get p ''inputBindingDigest'' = get v ''inputBindingDigest''"

definition candidateOutputs :: "val \<Rightarrow> phaseRef \<Rightarrow> int \<Rightarrow> sha256 \<Rightarrow> exn + val list \<times> jstr" where
  "candidateOutputs v phase attempt sha = (case arrOf (get v ''requiredOutputPublications'') of
     None \<Rightarrow> Inl invalidCandidate
   | Some vs \<Rightarrow>
       bindE (validateAndSortOutputPublications vs sha) (\<lambda>ps.
       bindE (forE (\<lambda>p. if \<not> boundToAttempt v phase attempt p then Inl (CandidateError KOutputAttemptMismatch) else Inr ()) ps) (\<lambda>_.
       bindE (outputSetDigest ps sha) (\<lambda>digest.
       if Str digest \<noteq> get v ''outputSetDigest'' then Inl (CandidateError KInvalidOutputSetDigest)
       else Inr (ps, digest)))))"

definition candidateTasks :: "val \<Rightarrow> phaseRef \<Rightarrow> workflowGraph \<Rightarrow> sha256 \<Rightarrow> exn + taskGenRef list \<times> jstr" where
  "candidateTasks v phase g sha = (case arrOf (get v ''tasks'') of
     None \<Rightarrow> Inl invalidCandidate
   | Some vs \<Rightarrow>
       bindE (validateAndSortTaskReferences vs) (\<lambda>tasks.
       bindE (assertPhaseAndTasksMatchGraph phase tasks g) (\<lambda>_.
       bindE (taskSetDigest tasks sha) (\<lambda>digest.
       if Str digest \<noteq> get v ''selectedTaskSetDigest'' then Inl (CandidateError KInvalidTaskSetDigest)
       else Inr (tasks, digest)))))"

definition phaseCandidateContent :: "val \<Rightarrow> workflowGraph \<Rightarrow> sha256 \<Rightarrow> bool \<Rightarrow> bool \<Rightarrow> exn + candidateContent" where
  "phaseCandidateContent v g sha includesDigest historical =
     bindE (assertAllowedKeys v (candidateKeys includesDigest) [''integrationBarrierDigest''] invalidCandidate) (\<lambda>_.
     bindE (phaseReferenceOf invalidCandidate (get v ''phase'')) (\<lambda>phase.
     bindE (candidatePhaseAttempt (get v ''phaseAttempt'') phase) (\<lambda>attempt.
     bindE (assertDigests invalidCandidate v
       (candidateDigests @ (if includesDigest then [''completionEvidencePolicyDigest''] else []))) (\<lambda>_.
     if \<not> historical \<and> get v ''graphRevisionDigest'' \<noteq> Str (revisionDigest g) then Inl (CandidateError KGraphMismatch)
     else if hasOwn v (lit ''integrationBarrierDigest'') \<and> \<not> isSha256Digest (get v ''integrationBarrierDigest'')
     then Inl invalidCandidate
     else bindE (candidateTasks v phase g sha) (\<lambda>(tasks, taskDigest).
     bindE (validateAcceptedAssessments (get v ''acceptedAccountingAssessments'') tasks g sha) (\<lambda>assessments.
     bindE (deriveRequirementsFromGraph g tasks) (\<lambda>rs.
     bindE (requirementsDigest rs sha) (\<lambda>evidencePolicy.
     if includesDigest \<and> Str evidencePolicy \<noteq> get v ''completionEvidencePolicyDigest''
     then Inl (CandidateError KPolicyMismatch)
     else bindE (candidateOutputs v phase attempt sha) (\<lambda>(publications, outputDigest).
       Inr \<lparr>candPhase = phase, candAttempt = attempt, candGraphRevision = textField v ''graphRevisionDigest'',
         candInputBinding = textField v ''inputBindingDigest'', candPublications = publications,
         candOutputSet = outputDigest, candTaskSet = taskDigest, candTasks = tasks, candAssessments = assessments,
         candDependencyBarrier = textField v ''dependencyBarrierDigest'', candEvidencePolicy = evidencePolicy,
         candGatePolicy = textField v ''gatePolicyDigest'',
         candIntegrationBarrier = (if hasOwn v (lit ''integrationBarrierDigest'')
           then Some (textField v ''integrationBarrierDigest'') else None)\<rparr>)))))))))"

definition createPhaseCandidate :: "val \<Rightarrow> val \<Rightarrow> sha256 \<Rightarrow> exn + phaseCandidate" where
  "createPhaseCandidate input graph sha =
     bindE (candidateGraph graph sha) (\<lambda>g.
     bindE (snapshotCanonical invalidCandidate input) (\<lambda>v.
     bindE (phaseCandidateContent v g sha False False) (\<lambda>content.
     bindE (canonicalDigest (encCandidateContent content) sha) (\<lambda>digest.
       Inr (candidateContent.extend content \<lparr>candidateDigest = digest\<rparr>)))))"

definition validatePhaseCandidate :: "val \<Rightarrow> val \<Rightarrow> sha256 \<Rightarrow> bool \<Rightarrow> exn + phaseCandidate" where
  "validatePhaseCandidate v graph sha historical =
     bindE (candidateGraph graph sha) (\<lambda>g.
     bindE (snapshotCanonical invalidCandidate v) (\<lambda>snapshot.
     bindE (phaseCandidateContent snapshot g sha True historical) (\<lambda>content.
     if \<not> isRecord snapshot \<or> \<not> isSha256Digest (get snapshot ''candidateDigest'') then Inl invalidCandidate
     else bindE (canonicalDigest (encCandidateContent content) sha) (\<lambda>computed.
       if Str computed \<noteq> get snapshot ''candidateDigest'' then Inl invalidCandidate
       else Inr (candidateContent.extend content \<lparr>candidateDigest = computed\<rparr>)))))"

section \<open>Authority decisions\<close>

datatype decisionKind = Approve | Reject

fun decisionKindStr :: "decisionKind \<Rightarrow> string" where
  "decisionKindStr Approve = ''approve''"
| "decisionKindStr Reject = ''reject''"

record authorityContent =
  decision :: decisionKind
  decisionApproval :: jstr
  decisionPrincipal :: val
  decisionOccurredAt :: jstr
  decisionCandidate :: jstr
  decisionTask :: "jstr option"
  decisionReason :: "jstr option"

record authorityDecision = authorityContent +
  decisionDigest :: jstr

definition encAuthorityContent :: "'a authorityContent_scheme \<Rightarrow> val" where
  "encAuthorityContent d = Obj ([(lit ''decision'', enumText decisionKindStr (decision d)),
     (lit ''approvalId'', Str (decisionApproval d)), (lit ''principal'', decisionPrincipal d),
     (lit ''occurredAt'', Str (decisionOccurredAt d)), (lit ''candidateDigest'', Str (decisionCandidate d))] @
     optionalField ''taskId'' Str (decisionTask d) @ optionalField ''reason'' Str (decisionReason d))"

definition encDecision :: "authorityDecision \<Rightarrow> val" where
  "encDecision d = Obj (props (encAuthorityContent d) @ [(lit ''decisionDigest'', Str (decisionDigest d))])"

text \<open>\<open>^\d{4}-\d{2}-\d{2}T\d{2}:\d{2}:\d{2}\.\d{3}Z$\<close>\<close>

definition millisTimestamp :: "val \<Rightarrow> bool" where
  "millisTimestamp v = (case v of Str s \<Rightarrow> length s = 24 \<and> isoPattern s | _ \<Rightarrow> False)"

text \<open>An optional property that, when it is there, is a non-empty string.\<close>

definition optionalText :: "val \<Rightarrow> string \<Rightarrow> exn \<Rightarrow> exn + jstr option" where
  "optionalText v k e = (case get v k of Undef \<Rightarrow> Inr None
     | Str s \<Rightarrow> if length s = 0 then Inl e else Inr (Some s)
     | _ \<Rightarrow> Inl e)"

definition authorityDecisionContent :: "val \<Rightarrow> bool \<Rightarrow> exn + authorityContent" where
  "authorityDecisionContent v includesDigest = (let e = CandidateError KInvalidDecision in
     if \<not> isRecord v then Inl e
     else case enumOf decisionKindStr [Approve, Reject] (get v ''decision'') of None \<Rightarrow> Inl e
     | Some kind \<Rightarrow>
     bindE (assertAllowedKeys v ([''decision'', ''approvalId'', ''principal'', ''occurredAt'', ''candidateDigest''] @
       (if includesDigest then [''decisionDigest''] else [])) [''reason'', ''taskId''] e) (\<lambda>_.
     bindE (optionalText v ''reason'' e) (\<lambda>reason.
     bindE (strIf (isIdentity ApprovalKind) e (get v ''approvalId'')) (\<lambda>approval.
     bindE (strIf millisTimestamp e (get v ''occurredAt'')) (\<lambda>occurredAt.
     bindE (digestOf e (get v ''candidateDigest'')) (\<lambda>candidate.
     bindE (optionalText v ''taskId'' e) (\<lambda>task.
       Inr \<lparr>decision = kind, decisionApproval = approval, decisionPrincipal = get v ''principal'',
         decisionOccurredAt = occurredAt, decisionCandidate = candidate, decisionTask = task,
         decisionReason = reason\<rparr>)))))))"

definition createAuthorityDecision :: "val \<Rightarrow> sha256 \<Rightarrow> exn + authorityDecision" where
  "createAuthorityDecision input sha =
     bindE (snapshotCanonical (CandidateError KInvalidDecision) input) (\<lambda>v.
     bindE (authorityDecisionContent v False) (\<lambda>content.
     bindE (canonicalDigest (encAuthorityContent content) sha) (\<lambda>digest.
       Inr (authorityContent.extend content \<lparr>decisionDigest = digest\<rparr>))))"

definition validateAuthorityDecision :: "val \<Rightarrow> sha256 \<Rightarrow> exn + authorityDecision" where
  "validateAuthorityDecision v sha =
     bindE (snapshotCanonical (CandidateError KInvalidDecision) v) (\<lambda>snapshot.
     bindE (authorityDecisionContent snapshot True) (\<lambda>content.
     if \<not> isRecord snapshot \<or> \<not> isSha256Digest (get snapshot ''decisionDigest'')
     then Inl (CandidateError KInvalidDecisionDigest)
     else bindE (canonicalDigest (encAuthorityContent content) sha) (\<lambda>computed.
       if Str computed \<noteq> get snapshot ''decisionDigest'' then Inl (CandidateError KInvalidDecisionDigest)
       else Inr (authorityContent.extend content \<lparr>decisionDigest = computed\<rparr>))))"

section \<open>Closures\<close>

datatype closureApproval = NoApproval | Approved val jstr "jstr list option"

record closureContent =
  closurePhase :: phaseRef
  closureAttempt :: int
  closureGraphRevision :: jstr
  closureOutputSet :: jstr
  closureCandidate :: jstr
  closureGate :: jstr
  closureApproval :: closureApproval

record phaseClosure = closureContent +
  closureDigest :: jstr
  closureAcceptances :: "val list"

fun encApproval :: "closureApproval \<Rightarrow> val" where
  "encApproval NoApproval = Obj [(lit ''policy'', Str (lit ''no-approval''))]"
| "encApproval (Approved authority digest members) = Obj ([(lit ''policy'', Str (lit ''approval-required'')),
     (lit ''authority'', authority), (lit ''decisionDigest'', Str digest)] @
     optionalField ''decisionDigests'' (\<lambda>ds. Arr (map Str ds)) members)"

definition encClosureContent :: "'a closureContent_scheme \<Rightarrow> val" where
  "encClosureContent c = Obj [(lit ''phase'', encPhaseRef (closurePhase c)),
     (lit ''phaseAttempt'', encPhaseAttempt (closurePhase c) (closureAttempt c)),
     (lit ''graphRevisionDigest'', Str (closureGraphRevision c)), (lit ''outputSetDigest'', Str (closureOutputSet c)),
     (lit ''candidateDigest'', Str (closureCandidate c)), (lit ''gateEvaluationDigest'', Str (closureGate c)),
     (lit ''approval'', encApproval (closureApproval c))]"

definition encClosure :: "phaseClosure \<Rightarrow> val" where
  "encClosure c = Obj (props (encClosureContent c) @ [(lit ''closureDigest'', Str (closureDigest c)),
     (lit ''outputAcceptances'', Arr (closureAcceptances c))])"

text \<open>An approving decision of the required authority over this candidate.\<close>

definition approvingDecision :: "val \<Rightarrow> jstr \<Rightarrow> val \<Rightarrow> sha256 \<Rightarrow> exn + authorityDecision" where
  "approvingDecision v candidate authority sha =
     bindE (validateAuthorityDecision v sha) (\<lambda>d.
     if decisionCandidate d \<noteq> candidate then Inl (CandidateError KCandidateMismatch)
     else if decision d \<noteq> Approve then Inl (CandidateError KRejectedAuthority)
     else if canonicalSerialize authority \<noteq> canonicalSerialize (decisionPrincipal d)
     then Inl (CandidateError KWrongAuthority)
     else Inr d)"

definition memberDecision :: "jstr \<Rightarrow> val \<Rightarrow> sha256 \<Rightarrow> (jstr \<times> jstr) list \<Rightarrow> val \<Rightarrow> exn + (jstr \<times> jstr) list" where
  "memberDecision candidate authority sha named v =
     bindE (approvingDecision v candidate authority sha) (\<lambda>d. case decisionTask d of
       None \<Rightarrow> Inl (CandidateError KInvalidApproval)
     | Some t \<Rightarrow> if t \<in> fst ` set named then Inl (CandidateError KInvalidApproval)
         else Inr (named @ [(t, decisionDigest d)]))"

definition memberDecisions :: "val \<Rightarrow> jstr \<Rightarrow> val \<Rightarrow> sha256 \<Rightarrow> exn + jstr list option" where
  "memberDecisions v candidate authority sha =
     (if v = Undef then Inr None
      else case arrOf v of None \<Rightarrow> Inl (CandidateError KInvalidApproval)
      | Some vs \<Rightarrow> bindE (foldE (memberDecision candidate authority sha) [] vs) (\<lambda>named. Inr (Some (map snd named))))"

definition closureApprovalOf :: "val \<Rightarrow> jstr \<Rightarrow> sha256 \<Rightarrow> exn + closureApproval" where
  "closureApprovalOf v candidate sha = (let e = CandidateError KInvalidApproval in
     if \<not> isRecord v then Inl e
     else if get v ''policy'' = Str (lit ''no-approval'') then
       bindE (assertAllowedKeys v [''policy''] [] e) (\<lambda>_. Inr NoApproval)
     else if get v ''policy'' \<noteq> Str (lit ''approval-required'') then Inl e
     else bindE (assertAllowedKeys (without v ''decisions'') [''policy'', ''authority'', ''decision''] [] e) (\<lambda>_.
       bindE (approvingDecision (get v ''decision'') candidate (get v ''authority'') sha) (\<lambda>d.
       bindE (memberDecisions (get v ''decisions'') candidate (get v ''authority'') sha) (\<lambda>members.
         Inr (Approved (get v ''authority'') (decisionDigest d) members)))))"

definition closePhase :: "val \<Rightarrow> sha256 \<Rightarrow> exn + phaseClosure" where
  "closePhase input sha =
     bindE (snapshotCanonical invalidCandidate input) (\<lambda>v.
     bindE (assertAllowedKeys v [''graph'', ''candidate'', ''gateEvidence'', ''approval''] [''historical''] invalidCandidate) (\<lambda>_.
     bindE (validatePhaseCandidate (get v ''candidate'') (get v ''graph'') sha (get v ''historical'' = Bool True)) (\<lambda>c.
     case validateGateEvidence (get v ''gateEvidence'') (Str (candidateDigest c)) sha of
       Inl _ \<Rightarrow> Inl (CandidateError KInvalidGateEvaluation)
     | Inr ev \<Rightarrow>
         if policyDigest (evidenceDefinition ev) \<noteq> candGatePolicy c then Inl (CandidateError KPolicyMismatch)
         else if \<not> accepted (evidenceEvaluation ev) then Inl (CandidateError KRejectedGate)
         else bindE (closureApprovalOf (get v ''approval'') (candidateDigest c) sha) (\<lambda>approval.
           let content = \<lparr>closurePhase = candPhase c, closureAttempt = candAttempt c,
                 closureGraphRevision = candGraphRevision c, closureOutputSet = candOutputSet c,
                 closureCandidate = candidateDigest c,
                 closureGate = evaluationDigest (evidenceEvaluation ev), closureApproval = approval\<rparr> in
           bindE (canonicalDigest (encClosureContent content) sha) (\<lambda>digest.
           bindE (mapE (\<lambda>p. createPhaseOutputAcceptance p (Str (candidateDigest c)) (Str digest) sha)
             (candPublications c)) (\<lambda>acceptances.
             Inr (closureContent.extend content \<lparr>closureDigest = digest, closureAcceptances = acceptances\<rparr>)))))))"

definition validatePhaseClosure :: "val \<Rightarrow> val \<Rightarrow> sha256 \<Rightarrow> exn + phaseClosure" where
  "validatePhaseClosure v input sha =
     bindE (snapshotCanonical (CandidateError KInvalidClosure) v) (\<lambda>submitted.
     bindE (closePhase input sha) (\<lambda>expected.
     if canonicalSerialize submitted \<noteq> canonicalSerialize (encClosure expected)
     then Inl (CandidateError KInvalidClosure) else Inr expected))"

end
