(* ===== verification/CandidateFacts.thy ===== *)
theory CandidateFacts
  imports Candidates CompletionProperties GraphProperties GateEvaluation DataflowRecordProperties
begin

text \<open>
  Facts on candidates.ts: what an accepted assessment says of the submission it holds, and what a
  candidate that validates says of the tasks of its phase.
\<close>

section \<open>Accepted assessments\<close>

text \<open>
  A required criterion is resolved by a submission: satisfied, or waived on the authority the policy
  names.
\<close>

definition resolved :: "'a completionPolicy_scheme \<Rightarrow> submission \<Rightarrow> criterionRequirement \<Rightarrow> bool" where
  "resolved p sub c \<longleftrightarrow> (\<exists>x\<in>set (subCriteria sub). outCriterion x = reqCriterion c \<and>
     (outDisposition x = SatisfiedD \<or> outDisposition x = WaivedD \<and>
       (\<exists>w a. waiverAuthority (policyEvidence p) = Some w \<and> outAuthority x = Some a \<and> norm a = norm w)))"

text \<open>A task is completed under its definition: the contract a closing candidate meets for each of its tasks.\<close>

definition completedUnder :: "'a completionPolicy_scheme \<Rightarrow> taskGenRef \<Rightarrow> accounting \<Rightarrow> bool" where
  "completedUnder p t a \<longleftrightarrow> subTask (accSubmission a) = t \<and> subDisposition (accSubmission a) = CompletedT \<and>
     outCriterion ` set (subCriteria (accSubmission a)) = reqCriterion ` set (policyCriteria p) \<and>
     (\<forall>c\<in>set (policyCriteria p). reqRequired c \<longrightarrow> resolved p (accSubmission a) c) \<and>
     evidenceMet p (accSubmission a)"

lemma evidenceMet_extend [simp]: "evidenceMet (completionPolicy.extend p x) = evidenceMet p"
  by (simp add: fun_eq_iff evidenceMet_def completionPolicy.extend_def Let_def split: evidenceMode.split)

lemma completedUnder_extend [simp]: "completedUnder (completionPolicy.extend p x) = completedUnder p"
  by (simp add: fun_eq_iff completedUnder_def resolved_def) (simp add: completionPolicy.extend_def)

lemma assertAccepted_eq_Inr:
  "assertAcceptedAccountingAssessment a = Inr u \<longleftrightarrow> subDisposition (accSubmission a) = CompletedT \<and> accSatisfied a \<and>
     (\<forall>c\<in>set (accCriteria a). caRequired c \<longrightarrow> caDisposition c = SatisfiedD \<or> caDisposition c = WaivedD)"
  by (auto simp: assertAcceptedAccountingAssessment_def list_ex_iff)

lemma assessed_criterion:
  assumes "mapE (assessCriterion reqs sub) cs = Inr cas" "c \<in> set cs"
  shows "\<exists>x\<in>set (subCriteria sub). \<exists>ca\<in>set cas. outCriterion x = reqCriterion c \<and> caRequired ca = reqRequired c \<and>
    caDisposition ca = outDisposition x"
  using assms
proof (induction cs arbitrary: cas)
  case (Cons d cs)
  from Cons.prems(1) obtain ca cas' where ca: "assessCriterion reqs sub d = Inr ca" "mapE (assessCriterion reqs sub) cs = Inr cas'"
    "cas = ca # cas'" by (auto simp: bindE_eq_Inr)
  show ?case
  proof (cases "c = d")
    case True
    with ca(1) obtain x where "keyed outCriterion (subCriteria sub) (reqCriterion c) = Some x" "caRequired ca = reqRequired c"
        "caDisposition ca = outDisposition x"
      by (auto simp: assessCriterion_def Let_def split: option.splits)
    then show ?thesis using ca(3) by (auto dest!: keyed_Some)
  next
    case False
    then show ?thesis using Cons.IH [OF ca(2)] Cons.prems(2) ca(3) by auto
  qed
qed simp

lemma accepted_completed:
  assumes "reassessCompletionAccounting (encRequirements r) v = Inr a" "assertAcceptedAccountingAssessment a = Inr u"
    and "okCompletion r" "okTaskRef (reqTask r)"
  shows "completedUnder r (reqTask r) a"
proof -
  from assms(1) have a: "assessCompletionSnapshots (encRequirements r) (get v ''submission'') = Inr a"
      and json: "is_json (encRequirements r)" "is_json v" "hasOwn v (lit ''submission'')" by (simp_all add: reassess_eq_Inr)
  have r: "validateRequirements (encRequirements r) = Inr r" using assms(3,4) by (rule validateRequirements_enc)
  from assess_sound [OF json(1) field_is_json [OF json(2,3)] a] r
  have sound: "subTask (accSubmission a) = reqTask r" "distinct (map outCriterion (subCriteria (accSubmission a)))"
    "outCriterion ` set (subCriteria (accSubmission a)) = reqCriterion ` set (policyCriteria r)"
    "\<forall>c\<in>set (policyCriteria r). \<forall>x\<in>set (subCriteria (accSubmission a)). reqRequired c \<and> outCriterion x = reqCriterion c \<longrightarrow>
       (outDisposition x = WaivedD \<longrightarrow>
          (\<exists>w y. waiverAuthority (policyEvidence r) = Some w \<and> outAuthority x = Some y \<and> norm y = norm w))"
    "accSatisfied a \<longleftrightarrow> evidenceMet r (accSubmission a)" by auto
  from assess_parts [OF a] r have cas: "mapE (assessCriterion r (accSubmission a)) (policyCriteria r) = Inr (accCriteria a)" by auto
  note ok = assms(2) [unfolded assertAccepted_eq_Inr]
  have "resolved r (accSubmission a) c" if c: "c \<in> set (policyCriteria r)" "reqRequired c" for c
  proof -
    from assessed_criterion [OF cas c(1)] obtain x ca where x: "x \<in> set (subCriteria (accSubmission a))"
        "ca \<in> set (accCriteria a)" "outCriterion x = reqCriterion c" "caRequired ca = reqRequired c"
        "caDisposition ca = outDisposition x" by blast
    then have "outDisposition x = SatisfiedD \<or> outDisposition x = WaivedD" using ok c(2) by force
    then show ?thesis using sound(4) c x(1,3) unfolding resolved_def by blast
  qed
  then show ?thesis using ok sound by (simp add: completedUnder_def)
qed

section \<open>The assessments of a candidate\<close>

text \<open>An accepted assessment answers the requirements of one of the selected tasks.\<close>

definition answers :: "taskGenRef list \<Rightarrow> requirements list \<Rightarrow> sha256 \<Rightarrow> jstr \<Rightarrow> acceptedAssessment \<Rightarrow> bool" where
  "answers tasks rs sha k x \<longleftrightarrow> (\<exists>t r v. keyed trTask tasks k = Some t \<and> keyed (\<lambda>r. trTask (reqTask r)) rs k = Some r \<and>
     reassessCompletionAccounting (encRequirements r) v = Inr (acceptedAccounting x) \<and>
     assertAcceptedAccountingAssessment (acceptedAccounting x) = Inr () \<and>
     canonicalDigest (encAccounting (acceptedAccounting x)) sha = Inr (acceptedDigest x))"

lemma reassessAccounting_eq_Inr:
  "reassessAccountingAssessment r v = Inr a \<longleftrightarrow> reassessCompletionAccounting (encRequirements r) v = Inr a"
  by (auto simp: reassessAccountingAssessment_def split: sum.splits exn.splits)

lemma acceptAssessmentE:
  assumes "acceptAssessment tasks rs sha found v = Inr found'"
  obtains s r t a d where "keyed (\<lambda>r. trTask (reqTask r)) rs (trTask s) = Some r" "keyed trTask tasks (trTask s) = Some t"
    "reassessCompletionAccounting (encRequirements r) (get v ''assessment'') = Inr a"
    "assertAcceptedAccountingAssessment a = Inr ()" "canonicalDigest (encAccounting a) sha = Inr d" "t = s"
    "found' = mapSet (trTask t) \<lparr>acceptedDigest = d, acceptedAccounting = a\<rparr> found"
proof -
  from assms obtain s where s: "(case (keyed (\<lambda>r. trTask (reqTask r)) rs (trTask s), keyed trTask tasks (trTask s)) of
       (Some r, Some expected) \<Rightarrow>
         if expected \<noteq> s then Inl (CandidateError KAssessmentTaskMismatch)
         else bindE (reassessAccountingAssessment r (get v ''assessment'')) (\<lambda>a.
         bindE (assertAcceptedAccountingAssessment a) (\<lambda>_.
         bindE (canonicalDigest (encAccounting a) sha) (\<lambda>computed.
         if Str computed \<noteq> get v ''assessmentDigest'' then Inl (CandidateError KInvalidAssessmentDigest)
         else if expected \<noteq> subTask (accSubmission a) then Inl (CandidateError KAssessmentTaskMismatch)
         else if mapHas found (trTask expected) then Inl (CandidateError KDuplicateAssessment)
         else Inr (mapSet (trTask expected) \<lparr>acceptedDigest = computed, acceptedAccounting = a\<rparr> found))))
     | _ \<Rightarrow> Inl (CandidateError KUnknownAssessment)) = Inr found'"
    unfolding acceptAssessment_def bindE_eq_Inr if_Inl_eq_Inr by blast
  then obtain r t where keys: "keyed (\<lambda>r. trTask (reqTask r)) rs (trTask s) = Some r" "keyed trTask tasks (trTask s) = Some t"
    by (simp split: option.splits)
  from s [unfolded keys] obtain a d where "t = s" "reassessCompletionAccounting (encRequirements r) (get v ''assessment'') = Inr a"
      "assertAcceptedAccountingAssessment a = Inr ()" "canonicalDigest (encAccounting a) sha = Inr d"
      "found' = mapSet (trTask t) \<lparr>acceptedDigest = d, acceptedAccounting = a\<rparr> found"
    by (auto simp: bindE_eq_Inr if_Inl_eq_Inr reassessAccounting_eq_Inr)
  with keys show thesis by (intro that)
qed

lemma acceptAssessment_answers:
  assumes "acceptAssessment tasks rs sha found v = Inr found'"
    and "\<forall>k x. mapGet found k = Some x \<longrightarrow> answers tasks rs sha k x"
  shows "\<forall>k x. mapGet found' k = Some x \<longrightarrow> answers tasks rs sha k x"
proof -
  from assms(1) obtain s r t a d where
      keys: "keyed (\<lambda>r. trTask (reqTask r)) rs (trTask s) = Some r" "keyed trTask tasks (trTask s) = Some t"
    and a: "reassessCompletionAccounting (encRequirements r) (get v ''assessment'') = Inr a" "assertAcceptedAccountingAssessment a = Inr ()"
      "canonicalDigest (encAccounting a) sha = Inr d" "t = s"
    and f: "found' = mapSet (trTask t) \<lparr>acceptedDigest = d, acceptedAccounting = a\<rparr> found"
    by (rule acceptAssessmentE)
  have "answers tasks rs sha (trTask t) \<lparr>acceptedDigest = d, acceptedAccounting = a\<rparr>"
    unfolding answers_def using keys a by auto
  then show ?thesis using assms(2) by (auto simp: f jsmap.lookup_update)
qed

lemma accepted_each:
  assumes "validateAcceptedAssessments v tasks g sha = Inr as"
  obtains rs where "deriveRequirementsFromGraph g tasks = Inr rs"
    "list_all2 (\<lambda>t x. answers tasks rs sha (trTask t) x) tasks as"
proof -
  from assms obtain vs rs found where rs: "deriveRequirementsFromGraph g tasks = Inr rs"
      and f: "foldE (acceptAssessment tasks rs sha) [] vs = Inr found"
      and as: "mapE (\<lambda>t. case mapGet found (trTask t) of
             None \<Rightarrow> Inl (CandidateError KMissingAssessment) | Some a \<Rightarrow> Inr a) tasks = Inr as"
    by (auto simp: validateAcceptedAssessments_def bindE_eq_Inr split: option.splits)
  have "\<forall>k x. mapGet found k = Some x \<longrightarrow> answers tasks rs sha k x"
    by (rule foldE_invariant [OF f]) (simp add: mapGet_def, rule acceptAssessment_answers)
  then have "list_all2 (\<lambda>t x. answers tasks rs sha (trTask t) x) tasks as"
    using as by (auto simp: mapE_eq_Inr list_all2_conv_all_nth split: option.splits)
  with rs show ?thesis by (rule that)
qed

section \<open>Candidates and their graph\<close>

lemma candidateGraph_eq_Inr: "candidateGraph v sha = Inr g \<longleftrightarrow> validateWorkflowGraph v sha = Inr g"
  by (auto simp: candidateGraph_def split: sum.splits exn.splits)

lemma graph_tasks:
  assumes "validateWorkflowGraph v sha = Inr g"
  shows "d \<in> set (tasksOf (graphNodes g)) \<Longrightarrow> okCompletion (defPolicy d)"
    and "distinct (map defId (tasksOf (graphNodes g)))"
proof -
  from assms obtain i where "compileWorkflowGraph i sha = Inr g" by (rule validate_parts)
  then obtain w ps ts cs where d: "typedIds sha w ps ts cs" "consistentDefs w ps ts cs"
      "buildGraph w ps ts cs sha = Inr g" by (rule compile_parts)
  have "mset (graphNodes g) = mset (allNodes w ps ts cs)"
    using d(3) by (simp add: buildGraph_eq_Inr sortNodes_def)
  from definitionsOf_perm(3) [OF this] have perm: "mset (tasksOf (graphNodes g)) = mset ts" by (simp add: definitionsOf_all)
  then show "d \<in> set (tasksOf (graphNodes g)) \<Longrightarrow> okCompletion (defPolicy d)"
    using d(1) by (auto simp: typedIds_def okTask_def dest!: mset_eq_setD)
  have "distinct (map defId ts)" using d(2) by (simp add: consistentDefs_def)
  moreover have "mset (map defId (tasksOf (graphNodes g))) = mset (map defId ts)" using perm by simp
  ultimately show "distinct (map defId (tasksOf (graphNodes g)))" by (metis mset_eq_imp_distinct_iff)
qed

lemma requirementsOf_eq_Inr:
  "requirementsOf g t = Inr r \<longleftrightarrow> (\<exists>d. keyed defId (tasksOf (graphNodes g)) (trTask t) = Some d \<and>
     defGeneration d = trGeneration t \<and> r = completionPolicy.extend (defPolicy d) \<lparr>reqTask = t\<rparr>)"
  by (auto simp: requirementsOf_def case_option_Inr if_Inl_eq_Inr)

lemma derived_key: "requirementsOf g t = Inr r \<Longrightarrow> reqTask r = t"
  by (auto simp: requirementsOf_eq_Inr completionPolicy.extend_def)

text \<open>The reading of the candidate's tasks.\<close>

lemma sortedTasks:
  assumes "validateAndSortTaskReferences vs = Inr tasks"
  shows "distinct (map trTask tasks)" "\<forall>t\<in>set tasks. okTaskRef t"
proof -
  from assms obtain ts where ts: "mapE (taskReferenceOf invalidCandidate) vs = Inr ts" "distinct (map trTask ts)"
      "tasks = sort_key taskSortText ts" by (auto simp: validateAndSortTaskReferences_def bindE_eq_Inr if_Inl_eq_Inr)
  have "mset (map trTask tasks) = mset (map trTask ts)" by (simp add: ts(3))
  then show "distinct (map trTask tasks)" using ts(2) by (metis mset_eq_imp_distinct_iff)
  show "\<forall>t\<in>set tasks. okTaskRef t" using ts(3) by (auto dest!: mapE_in_set [OF ts(1)] taskReferenceOf_ok)
qed

lemma activeTasks_set:
  "set (activeTasks g p) = {d \<in> set (tasksOf (graphNodes g)). parentId d = p \<and>
     (\<forall>x\<in>set (tasksOf (graphNodes g)). parentId x = p \<longrightarrow> defId d \<notin> set (supersedes x))}"
  by (auto simp: activeTasks_def Let_def)

lemma aligned:
  "length ys = length xs \<Longrightarrow> \<not> list_ex (\<lambda>(x, y). f y \<noteq> g x) (zip xs ys) \<Longrightarrow> map f ys = map g xs"
  by (induction ys xs rule: list_induct2) auto

lemma phase_tasks_match:
  assumes "assertPhaseAndTasksMatchGraph phase tasks g = Inr u"
    and "distinct (map defId (tasksOf (graphNodes g)))"
  shows "map trTask tasks = map defId (activeTasks g (prPhase phase))"
    and "t \<in> set tasks \<Longrightarrow> \<exists>d\<in>set (activeTasks g (prPhase phase)). defId d = trTask t \<and> defGeneration d = trGeneration t"
    and "\<exists>d\<in>set (phasesOf (graphNodes g)). defId d = prPhase phase \<and> defGeneration d = prGeneration phase"
proof -
  let ?active = "activeTasks g (prPhase phase)"
  from assms(1) obtain d where d: "find (\<lambda>d. defId d = prPhase phase) (phasesOf (graphNodes g)) = Some d"
      "defGeneration d = prGeneration phase"
    and len: "length tasks = length ?active" and ids: "\<not> list_ex (\<lambda>(x, t). trTask t \<noteq> defId x) (zip ?active tasks)"
    and each: "\<forall>t\<in>set tasks. (case keyed defId ?active (trTask t) of None \<Rightarrow> Inl (CandidateError KTaskSetMismatch)
        | Some x \<Rightarrow> if defGeneration x \<noteq> trGeneration t then Inl (CandidateError KTaskMismatch) else Inr ()) = Inr ()"
    unfolding assertPhaseAndTasksMatchGraph_def Let_def case_option_Inr if_Inl_eq_Inr forE_eq_Inr by (elim exE conjE) simp
  show "map trTask tasks = map defId ?active"
    using len ids by (rule aligned)
  show "t \<in> set tasks \<Longrightarrow> \<exists>d\<in>set ?active. defId d = trTask t \<and> defGeneration d = trGeneration t"
    using each by (auto simp: case_option_Inr if_Inl_eq_Inr dest: keyed_Some)
  show "\<exists>d\<in>set (phasesOf (graphNodes g)). defId d = prPhase phase \<and> defGeneration d = prGeneration phase"
    using d by (auto simp: find_Some_iff)
qed

text \<open>
  The phase is complete: every active task of its definition in the graph is selected, at the
  generation the graph defines, with an assessment that completes it under its own policy.
\<close>

definition phaseComplete :: "workflowGraph \<Rightarrow> sha256 \<Rightarrow> 'a candidateContent_scheme \<Rightarrow> bool" where
  "phaseComplete g sha c \<longleftrightarrow>
     (\<exists>d\<in>set (phasesOf (graphNodes g)). defId d = prPhase (candPhase c) \<and> defGeneration d = prGeneration (candPhase c)) \<and>
     map trTask (candTasks c) = map defId (activeTasks g (prPhase (candPhase c))) \<and>
     list_all2 (\<lambda>t x. \<exists>d\<in>set (activeTasks g (prPhase (candPhase c))). defId d = trTask t \<and> defGeneration d = trGeneration t \<and>
         completedUnder (defPolicy d) t (acceptedAccounting x) \<and>
         canonicalDigest (encAccounting (acceptedAccounting x)) sha = Inr (acceptedDigest x))
       (candTasks c) (candAssessments c)"

lemma assessments_complete:
  assumes g: "validateWorkflowGraph w sha = Inr g"
    and tasks: "validateAndSortTaskReferences vs = Inr tasks" "assertPhaseAndTasksMatchGraph phase tasks g = Inr u"
    and as: "validateAcceptedAssessments v tasks g sha = Inr as"
  shows "list_all2 (\<lambda>t x. \<exists>d\<in>set (activeTasks g (prPhase phase)). defId d = trTask t \<and> defGeneration d = trGeneration t \<and>
      completedUnder (defPolicy d) t (acceptedAccounting x) \<and>
      canonicalDigest (encAccounting (acceptedAccounting x)) sha = Inr (acceptedDigest x)) tasks as"
proof -
  obtain rs where rs: "mapE (requirementsOf g) tasks = Inr rs" and
      each: "list_all2 (\<lambda>t x. answers tasks rs sha (trTask t) x) tasks as"
    using accepted_each [OF as] by (auto simp: deriveRequirementsFromGraph_def)
  note dist = sortedTasks(1) [OF tasks(1)]
  have "\<exists>d\<in>set (activeTasks g (prPhase phase)). defId d = trTask t \<and> defGeneration d = trGeneration t \<and>
      completedUnder (defPolicy d) t (acceptedAccounting x) \<and>
      canonicalDigest (encAccounting (acceptedAccounting x)) sha = Inr (acceptedDigest x)"
    if t: "t \<in> set tasks" and x: "answers tasks rs sha (trTask t) x" for t x
  proof -
    from x obtain t' r v where r: "keyed trTask tasks (trTask t) = Some t'" "keyed (\<lambda>r. trTask (reqTask r)) rs (trTask t) = Some r"
        "reassessCompletionAccounting (encRequirements r) v = Inr (acceptedAccounting x)"
        "assertAcceptedAccountingAssessment (acceptedAccounting x) = Inr ()"
        "canonicalDigest (encAccounting (acceptedAccounting x)) sha = Inr (acceptedDigest x)"
      by (auto simp: answers_def)
    from keyed_Some [OF r(2)] obtain t2 where t2: "t2 \<in> set tasks" "requirementsOf g t2 = Inr r" "trTask (reqTask r) = trTask t"
      by (auto dest!: mapE_in_set [OF rs])
    with derived_key dist t have t2t: "t2 = t" by (metis distinct_map inj_on_contraD)
    then obtain d where d: "keyed defId (tasksOf (graphNodes g)) (trTask t) = Some d" "defGeneration d = trGeneration t"
        "r = completionPolicy.extend (defPolicy d) \<lparr>reqTask = t\<rparr>" using t2(2) by (auto simp: requirementsOf_eq_Inr)
    obtain d' where d': "d' \<in> set (activeTasks g (prPhase phase))" "defId d' = trTask t"
      using phase_tasks_match(2) [OF tasks(2) graph_tasks(2) [OF g] t] by blast
    then have "keyed defId (tasksOf (graphNodes g)) (trTask t) = Some d'"
      by (simp add: keyed_Some_iff [OF graph_tasks(2) [OF g]] activeTasks_set)
    then have "d' = d" using d(1) by simp
    have "okCompletion (defPolicy d)" using graph_tasks(1) [OF g] keyed_Some [OF d(1)] by blast
    then have "okCompletion r" by (simp add: d(3) okCompletion_def completionPolicy.extend_def)
    moreover have "reqTask r = t" using derived_key [OF t2(2)] t2t by simp
    moreover have "okTaskRef t" using sortedTasks(2) [OF tasks(1)] t by blast
    ultimately have "completedUnder r t (acceptedAccounting x)" using accepted_completed [OF r(3,4)] by simp
    then show ?thesis using d' d(2,3) r(5) \<open>d' = d\<close> by auto
  qed
  with each show ?thesis by (auto simp: list_all2_conv_all_nth)
qed

lemma phaseCandidateContent_parts:
  assumes "phaseCandidateContent v g sha b h = Inr c"
  obtains tasks as rs where "candidateTasks v (candPhase c) g sha = Inr (candTasks c, candTaskSet c)"
    "validateAcceptedAssessments (get v ''acceptedAccountingAssessments'') (candTasks c) g sha = Inr (candAssessments c)"
    "candidateOutputs v (candPhase c) (candAttempt c) sha = Inr (candPublications c, candOutputSet c)"
    "h \<or> candGraphRevision c = revisionDigest g" "isSha256Digest (get v ''graphRevisionDigest'')"
    "candGraphRevision c = textField v ''graphRevisionDigest''"
    "deriveRequirementsFromGraph g (candTasks c) = Inr rs" "requirementsDigest rs sha = Inr (candEvidencePolicy c)"
proof -
  from assms obtain rs where parts: "candidateTasks v (candPhase c) g sha = Inr (candTasks c, candTaskSet c)"
    "validateAcceptedAssessments (get v ''acceptedAccountingAssessments'') (candTasks c) g sha = Inr (candAssessments c)"
    "candidateOutputs v (candPhase c) (candAttempt c) sha = Inr (candPublications c, candOutputSet c)"
    "h \<or> get v ''graphRevisionDigest'' = Str (revisionDigest g)" "isSha256Digest (get v ''graphRevisionDigest'')"
    "candGraphRevision c = textField v ''graphRevisionDigest''"
    "deriveRequirementsFromGraph g (candTasks c) = Inr rs" "requirementsDigest rs sha = Inr (candEvidencePolicy c)"
    unfolding phaseCandidateContent_def bindE_eq_Inr if_Inl_eq_Inr split_paired_Ex prod.case
    by (auto simp: assertDigests_iff candidateDigests_def simp del: not_None_eq)
  then show thesis by (intro that [of rs]) (auto simp: textField_def)
qed

lemma candidateTasks_parts:
  assumes "candidateTasks v phase g sha = Inr (tasks, d)"
  obtains vs u where "validateAndSortTaskReferences vs = Inr tasks" "assertPhaseAndTasksMatchGraph phase tasks g = Inr u"
    "taskSetDigest tasks sha = Inr d"
  using assms by (auto simp: candidateTasks_def case_option_Inr bindE_eq_Inr if_Inl_eq_Inr)

lemma content_complete:
  assumes "phaseCandidateContent v g sha b h = Inr c" "validateWorkflowGraph w sha = Inr g"
  shows "phaseComplete g sha c"
proof -
  from assms(1) have t: "candidateTasks v (candPhase c) g sha = Inr (candTasks c, candTaskSet c)"
      and as: "validateAcceptedAssessments (get v ''acceptedAccountingAssessments'') (candTasks c) g sha = Inr (candAssessments c)"
    by (auto elim: phaseCandidateContent_parts)
  from t obtain vs u where vs: "validateAndSortTaskReferences vs = Inr (candTasks c)"
      "assertPhaseAndTasksMatchGraph (candPhase c) (candTasks c) g = Inr u" by (rule candidateTasks_parts)
  note match = phase_tasks_match [OF vs(2) graph_tasks(2) [OF assms(2)]]
  show ?thesis unfolding phaseComplete_def
    using match(1,3) assessments_complete [OF assms(2) vs as] by simp
qed

section \<open>Decisions\<close>

lemma optionalText_eq_Inr:
  "optionalText v k e = Inr x \<longleftrightarrow> (case x of None \<Rightarrow> get v k = Undef | Some s \<Rightarrow> get v k = Str s \<and> s \<noteq> [])"
  by (cases "get v k"; cases x) (auto simp: optionalText_def)

lemma authorityDecisionContent_principal:
  assumes "authorityDecisionContent v b = Inr c"
  shows "decisionPrincipal c = get v ''principal''" "hasOwn v (lit ''principal'')"
  using assms by (auto simp: authorityDecisionContent_def Let_def case_option_Inr bindE_eq_Inr if_Inl_eq_Inr assertAllowedKeys_eq_Inr)

lemma validateDecision_json:
  assumes "validateAuthorityDecision v sha = Inr d"
  shows "is_json (decisionPrincipal d)"
proof -
  from assms obtain c where "is_json v" "authorityDecisionContent v True = Inr c"
      "decisionPrincipal d = decisionPrincipal c"
    by (auto simp: validateAuthorityDecision_def bindE_eq_Inr snapshotCanonical_eq_Inr if_Inl_eq_Inr authorityContent.extend_def)
  with authorityDecisionContent_principal [OF this(2)] show ?thesis by (simp add: field_is_json)
qed

text \<open>A decision that approves a candidate on behalf of an authority.\<close>

definition approves :: "sha256 \<Rightarrow> jstr \<Rightarrow> val \<Rightarrow> val \<Rightarrow> authorityDecision \<Rightarrow> bool" where
  "approves sha cand authority v d \<longleftrightarrow> validateAuthorityDecision v sha = Inr d \<and> decisionCandidate d = cand \<and>
     decision d = Approve \<and> norm (decisionPrincipal d) = norm authority"

lemma approvingDecision_eq_Inr:
  assumes "is_json authority"
  shows "approvingDecision v cand authority sha = Inr d \<longleftrightarrow> approves sha cand authority v d"
  using validateDecision_json assms
  by (auto simp: approvingDecision_def approves_def bindE_eq_Inr if_Inl_eq_Inr canonicalSerialize_def serialize_eq_iff)

lemma memberDecision_eq_Inr:
  assumes "is_json authority"
  shows "memberDecision cand authority sha named v = Inr named' \<longleftrightarrow> (\<exists>d t. approves sha cand authority v d \<and>
    decisionTask d = Some t \<and> t \<notin> fst ` set named \<and> named' = named @ [(t, decisionDigest d)])"
  by (auto simp: memberDecision_def bindE_eq_Inr case_option_Inr if_Inl_eq_Inr approvingDecision_eq_Inr [OF assms])

lemma memberDecisions_fold:
  assumes "is_json authority" "foldE (memberDecision cand authority sha) named vs = Inr named'"
  shows "\<exists>ds. list_all2 (approves sha cand authority) vs ds \<and> None \<notin> decisionTask ` set ds \<and>
    named' = named @ map (\<lambda>d. (the (decisionTask d), decisionDigest d)) ds \<and>
    (distinct (map fst named) \<longrightarrow> distinct (map fst named'))"
  using assms(2)
proof (induction vs arbitrary: named)
  case (Cons v vs)
  from Cons.prems obtain d t where d: "approves sha cand authority v d" "decisionTask d = Some t" "t \<notin> fst ` set named"
      and f: "foldE (memberDecision cand authority sha) (named @ [(t, decisionDigest d)]) vs = Inr named'"
    by (auto simp: bindE_eq_Inr memberDecision_eq_Inr [OF assms(1)])
  from Cons.IH [OF f] obtain ds where "list_all2 (approves sha cand authority) vs ds" "None \<notin> decisionTask ` set ds"
    "named' = named @ [(t, decisionDigest d)] @ map (\<lambda>d. (the (decisionTask d), decisionDigest d)) ds"
    "distinct (map fst (named @ [(t, decisionDigest d)])) \<longrightarrow> distinct (map fst named')" by auto
  with d show ?case by (intro exI [of _ "d # ds"]) (auto simp: image_iff)
qed auto

text \<open>What the approval of a closure rests on.\<close>

definition approved :: "sha256 \<Rightarrow> jstr \<Rightarrow> val \<Rightarrow> closureApproval \<Rightarrow> bool" where
  "approved sha cand v a \<longleftrightarrow> (case a of
     NoApproval \<Rightarrow> get v ''policy'' = Str (lit ''no-approval'')
   | Approved authority digest members \<Rightarrow> get v ''policy'' = Str (lit ''approval-required'') \<and> get v ''authority'' = authority \<and>
       (\<exists>d. approves sha cand authority (get v ''decision'') d \<and> decisionDigest d = digest) \<and>
       (case members of None \<Rightarrow> get v ''decisions'' = Undef
        | Some digests \<Rightarrow> \<exists>vs ds. get v ''decisions'' = Arr vs \<and> list_all2 (approves sha cand authority) vs ds \<and>
            digests = map decisionDigest ds \<and> None \<notin> decisionTask ` set ds \<and> distinct (map decisionTask ds)))"

lemma memberDecisions_eq_Inr:
  assumes "is_json authority" "memberDecisions v cand authority sha = Inr members"
  shows "case members of None \<Rightarrow> v = Undef
        | Some digests \<Rightarrow> \<exists>vs ds. v = Arr vs \<and> list_all2 (approves sha cand authority) vs ds \<and>
            digests = map decisionDigest ds \<and> None \<notin> decisionTask ` set ds \<and> distinct (map decisionTask ds)"
proof (cases "v = Undef")
  case True
  then show ?thesis using assms(2) by (simp add: memberDecisions_def)
next
  case False
  then obtain vs named where vs: "v = Arr vs" "foldE (memberDecision cand authority sha) [] vs = Inr named"
      "members = Some (map snd named)"
    using assms(2) by (auto simp: memberDecisions_def case_option_Inr bindE_eq_Inr arrOf_eq_Some)
  from memberDecisions_fold [OF assms(1) vs(2)] obtain ds where ds: "list_all2 (approves sha cand authority) vs ds"
      "None \<notin> decisionTask ` set ds" "named = map (\<lambda>d. (the (decisionTask d), decisionDigest d)) ds" "distinct (map fst named)"
    by auto
  have "distinct (map (the \<circ> decisionTask) ds)" using ds(3,4) by (simp add: comp_def)
  then have "distinct (map the (map decisionTask ds))" by simp
  then have "distinct (map decisionTask ds)" by (simp only: distinct_map)
  with ds vs show ?thesis by (auto simp: comp_def)
qed

lemma closureApproval_own:
  assumes "closureApprovalOf v cand sha = Inr a" "get v ''policy'' \<noteq> Str (lit ''no-approval'')"
  shows "hasOwn v (lit ''authority'')"
proof -
  have "isRecord v" "assertAllowedKeys (without v ''decisions'') [''policy'', ''authority'', ''decision''] [] (CandidateError KInvalidApproval) = Inr ()"
    using assms by (auto simp: closureApprovalOf_def Let_def bindE_eq_Inr if_Inl_eq_Inr)
  then have "hasOwn (without v ''decisions'') (lit ''authority'')" by (simp add: assertAllowedKeys_eq_Inr)
  then show ?thesis by (cases v) (auto simp: without_def props_def)
qed

lemma closureApproval_approved:
  assumes "is_json v" "closureApprovalOf v cand sha = Inr a"
  shows "approved sha cand v a"
proof (cases "get v ''policy'' = Str (lit ''no-approval'')")
  case True
  then show ?thesis using assms(2) by (auto simp: closureApprovalOf_def Let_def bindE_eq_Inr if_Inl_eq_Inr approved_def)
next
  case False
  then obtain d members where p: "get v ''policy'' = Str (lit ''approval-required'')"
      "assertAllowedKeys (without v ''decisions'') [''policy'', ''authority'', ''decision''] [] (CandidateError KInvalidApproval) = Inr ()"
      "approvingDecision (get v ''decision'') cand (get v ''authority'') sha = Inr d"
      "memberDecisions (get v ''decisions'') cand (get v ''authority'') sha = Inr members"
      "a = Approved (get v ''authority'') (decisionDigest d) members"
    using assms(2) by (auto simp: closureApprovalOf_def Let_def bindE_eq_Inr if_Inl_eq_Inr)
  have j: "is_json (get v ''authority'')" using closureApproval_own [OF assms(2) False] assms(1) by (simp add: field_is_json)
  show ?thesis using p memberDecisions_eq_Inr [OF j p(4)] approvingDecision_eq_Inr [OF j]
    by (auto simp: approved_def)
qed

section \<open>Reading back a candidate\<close>

lemma encCandidate_fields [simp]:
  "get (encCandidate c) ''phase'' = encPhaseRef (candPhase c)"
  "get (encCandidate c) ''phaseAttempt'' = encPhaseAttempt (candPhase c) (candAttempt c)"
  "get (encCandidate c) ''graphRevisionDigest'' = Str (candGraphRevision c)"
  "get (encCandidate c) ''inputBindingDigest'' = Str (candInputBinding c)"
  "get (encCandidate c) ''requiredOutputPublications'' = Arr (candPublications c)"
  "get (encCandidate c) ''outputSetDigest'' = Str (candOutputSet c)"
  "get (encCandidate c) ''selectedTaskSetDigest'' = Str (candTaskSet c)"
  "get (encCandidate c) ''tasks'' = Arr (map encTaskRef (candTasks c))"
  "get (encCandidate c) ''acceptedAccountingAssessments'' = Arr (map encAccepted (candAssessments c))"
  "get (encCandidate c) ''dependencyBarrierDigest'' = Str (candDependencyBarrier c)"
  "get (encCandidate c) ''completionEvidencePolicyDigest'' = Str (candEvidencePolicy c)"
  "get (encCandidate c) ''gatePolicyDigest'' = Str (candGatePolicy c)"
  "get (encCandidate c) ''candidateDigest'' = Str (candidateDigest c)"
  "get (encCandidate c) ''integrationBarrierDigest'' = (case candIntegrationBarrier c of None \<Rightarrow> Undef | Some d \<Rightarrow> Str d)"
  "hasOwn (encCandidate c) (lit ''integrationBarrierDigest'') \<longleftrightarrow> candIntegrationBarrier c \<noteq> None"
  "isRecord (encCandidate c)"
  by (cases "candIntegrationBarrier c"; simp add: encCandidate_def encCandidateContent_def optionalField_def)+

lemma encCandidate_keys [simp]:
  "assertAllowedKeys (encCandidate c) (candidateKeys True) [''integrationBarrierDigest''] e = Inr ()"
  by (cases "candIntegrationBarrier c")
    (simp_all add: assertAllowedKeys_eq_Inr candidateKeys_def encCandidate_def encCandidateContent_def optionalField_def)

lemma encPhaseRef_read:
  assumes "isIdentity PhaseKind (Str (prPhase p))" "isSafe (prGeneration p)" "1 \<le> prGeneration p"
  shows "phaseReferenceOf e (encPhaseRef p) = Inr p"
  using assms by (auto simp: phaseReferenceOf_def encPhaseRef_def bindE_eq_Inr assertAllowedKeys_eq_Inr strIf_eq_Inr generationOf_eq_Inr)

lemma encPhaseAttempt_read:
  assumes "isIdentity PhaseKind (Str (prPhase p))" "isSafe (prGeneration p)" "1 \<le> prGeneration p" "isSafe n" "1 \<le> n"
  shows "candidatePhaseAttempt (encPhaseAttempt p n) p = Inr n"
  using assms by (auto simp: candidatePhaseAttempt_def encPhaseAttempt_def bindE_eq_Inr assertAllowedKeys_eq_Inr strIf_eq_Inr
      generationOf_eq_Inr posSafeInt_eq_Some case_option_Inr)

section \<open>Closing a phase\<close>

lemma closePhase_parts:
  assumes "closePhase v sha = Inr cl"
  obtains c ev approval digest acceptances where "is_json v" "hasOwn v (lit ''approval'')"
    "validatePhaseCandidate (get v ''candidate'') (get v ''graph'') sha (get v ''historical'' = Bool True) = Inr c"
    "validateGateEvidence (get v ''gateEvidence'') (Str (candidateDigest c)) sha = Inr ev"
    "policyDigest (evidenceDefinition ev) = candGatePolicy c" "accepted (evidenceEvaluation ev)"
    "closureApprovalOf (get v ''approval'') (candidateDigest c) sha = Inr approval"
    "canonicalDigest (encClosureContent cl) sha = Inr digest"
    "mapE (\<lambda>p. createPhaseOutputAcceptance p (Str (candidateDigest c)) (Str digest) sha) (candPublications c) = Inr acceptances"
    "cl = \<lparr>closurePhase = candPhase c, closureAttempt = candAttempt c,
        closureGraphRevision = candGraphRevision c, closureOutputSet = candOutputSet c,
        closureCandidate = candidateDigest c, closureGate = evaluationDigest (evidenceEvaluation ev),
        closureApproval = approval, closureDigest = digest, closureAcceptances = acceptances\<rparr>"
proof -
  have catch: "(case m of Inl _ \<Rightarrow> Inl e | Inr ev \<Rightarrow> f ev) = Inr x \<longleftrightarrow> (\<exists>ev. m = Inr ev \<and> f ev = Inr x)"
    for m :: "exn + gateEvidence" and e :: exn and f and x :: phaseClosure by (cases m) auto
  let ?content = "\<lambda>c ev approval. \<lparr>closurePhase = candPhase c, closureAttempt = candAttempt c,
      closureGraphRevision = candGraphRevision c, closureOutputSet = candOutputSet c,
      closureCandidate = candidateDigest c, closureGate = evaluationDigest (evidenceEvaluation ev), closureApproval = approval\<rparr>"
  from assms obtain c ev approval digest acceptances where v: "is_json v" "hasOwn v (lit ''approval'')"
      "validatePhaseCandidate (get v ''candidate'') (get v ''graph'') sha (get v ''historical'' = Bool True) = Inr c"
      "validateGateEvidence (get v ''gateEvidence'') (Str (candidateDigest c)) sha = Inr ev"
      "policyDigest (evidenceDefinition ev) = candGatePolicy c" "accepted (evidenceEvaluation ev)"
      "closureApprovalOf (get v ''approval'') (candidateDigest c) sha = Inr approval"
    and d: "canonicalDigest (encClosureContent (?content c ev approval)) sha = Inr digest"
    and a: "mapE (\<lambda>p. createPhaseOutputAcceptance p (Str (candidateDigest c)) (Str digest) sha) (candPublications c) = Inr acceptances"
    and cl: "closureContent.extend (?content c ev approval) \<lparr>closureDigest = digest, closureAcceptances = acceptances\<rparr> = cl"
    unfolding closePhase_def bindE_eq_Inr snapshotCanonical_eq_Inr assertAllowedKeys_eq_Inr catch if_Inl_eq_Inr Let_def
    by auto
  show thesis
    by (rule that [OF v _ a]) (use d cl in \<open>simp_all add: encClosureContent_def closureContent.defs flip: cl\<close>)
qed

lemma validateCandidate_parts:
  assumes "validatePhaseCandidate v graph sha h = Inr c"
  obtains g content where "validateWorkflowGraph graph sha = Inr g" "is_json v"
    "phaseCandidateContent v g sha True h = Inr content"
    "canonicalDigest (encCandidateContent content) sha = Inr (candidateDigest c)"
    "c = candidateContent.extend content \<lparr>candidateDigest = candidateDigest c\<rparr>"
  using assms unfolding validatePhaseCandidate_def bindE_eq_Inr candidateGraph_eq_Inr snapshotCanonical_eq_Inr if_Inl_eq_Inr
  by (auto simp: candidateContent.defs)

lemma phaseComplete_extend [simp]: "phaseComplete g sha (candidateContent.extend c x) = phaseComplete g sha c"
  by (simp add: phaseComplete_def candidateContent.defs)

end
