(* ===== verification/CandidateRecords.thy ===== *)
theory CandidateRecords
  imports CandidateFacts
begin

text \<open>
  The records of candidates.ts as values: a decision reads back as itself, a candidate made by
  \<open>createPhaseCandidate\<close> is the one \<open>validatePhaseCandidate\<close> yields, and a closure is plain JSON.
\<close>

section \<open>Decisions\<close>

definition okContent :: "'a authorityContent_scheme \<Rightarrow> bool" where
  "okContent d \<longleftrightarrow> isIdentity ApprovalKind (Str (decisionApproval d)) \<and> millisTimestamp (Str (decisionOccurredAt d)) \<and>
     sha256Pattern (decisionCandidate d) \<and> decisionTask d \<noteq> Some [] \<and> decisionReason d \<noteq> Some [] \<and>
     is_json (decisionPrincipal d)"

definition okDecision :: "sha256 \<Rightarrow> authorityDecision \<Rightarrow> bool" where
  "okDecision sha d \<longleftrightarrow> okContent d \<and> canonicalDigest (encAuthorityContent d) sha = Inr (decisionDigest d)"

lemma inj_decision: "inj decisionKindStr"
  by (rule injI, case_tac x; case_tac y; simp)

lemma decision_word [simp]: "enumOf decisionKindStr [Approve, Reject] (enumText decisionKindStr k) = Some k"
  by (rule enumOf_text [OF inj_decision]) (cases k; simp)

lemma authorityDecisionContent_ok:
  assumes "authorityDecisionContent v b = Inr c" "is_json v"
  shows "okContent c"
proof -
  note p = authorityDecisionContent_principal [OF assms(1)]
  have "is_json (decisionPrincipal c)" using p assms(2) by (simp add: field_is_json)
  then show ?thesis using assms(1)
    by (auto simp: authorityDecisionContent_def Let_def case_option_Inr bindE_eq_Inr if_Inl_eq_Inr okContent_def
        strIf_eq_Inr digestOf_eq_Inr optionalText_eq_Inr)
qed

lemma encContent_fields [simp]:
  "get (encAuthorityContent d) ''decision'' = enumText decisionKindStr (decision d)"
  "get (encAuthorityContent d) ''approvalId'' = Str (decisionApproval d)"
  "get (encAuthorityContent d) ''principal'' = decisionPrincipal d"
  "get (encAuthorityContent d) ''occurredAt'' = Str (decisionOccurredAt d)"
  "get (encAuthorityContent d) ''candidateDigest'' = Str (decisionCandidate d)"
  "get (encAuthorityContent d) ''taskId'' = (case decisionTask d of None \<Rightarrow> Undef | Some t \<Rightarrow> Str t)"
  "get (encAuthorityContent d) ''reason'' = (case decisionReason d of None \<Rightarrow> Undef | Some t \<Rightarrow> Str t)"
  by (cases "decisionTask d"; cases "decisionReason d"; simp add: encAuthorityContent_def optionalField_def)+

lemma encDecision_get [simp]:
  "get (encDecision d) ''decisionDigest'' = Str (decisionDigest d)"
  "k \<noteq> ''decisionDigest'' \<Longrightarrow> get (encDecision d) k = get (encAuthorityContent d) k"
  "isRecord (encDecision d)"
  by (cases "decisionTask d"; cases "decisionReason d"; simp add: encDecision_def encAuthorityContent_def optionalField_def)+

lemma encDecision_keys [simp]:
  "assertAllowedKeys (encDecision d) [''decision'', ''approvalId'', ''principal'', ''occurredAt'', ''candidateDigest'', ''decisionDigest'']
     [''reason'', ''taskId''] e = Inr ()"
  by (cases "decisionTask d"; cases "decisionReason d")
    (simp_all add: assertAllowedKeys_eq_Inr encDecision_def encAuthorityContent_def optionalField_def)

lemma authorityDecisionContent_enc:
  assumes "okContent d"
  shows "authorityDecisionContent (encDecision d) True = Inr (authorityContent.truncate d)"
proof -
  have "optionalText (encDecision d) ''reason'' e = Inr (decisionReason d)" "optionalText (encDecision d) ''taskId'' e = Inr (decisionTask d)" for e
    using assms by (auto simp: optionalText_eq_Inr okContent_def split: option.split)
  moreover have "strIf (isIdentity ApprovalKind) e (Str (decisionApproval d)) = Inr (decisionApproval d)"
      "strIf millisTimestamp e (Str (decisionOccurredAt d)) = Inr (decisionOccurredAt d)"
      "digestOf e (Str (decisionCandidate d)) = Inr (decisionCandidate d)" for e
    using assms by (simp_all add: strIf_eq_Inr digestOf_eq_Inr okContent_def)
  ultimately show ?thesis by (simp add: authorityDecisionContent_def authorityContent.defs)
qed

lemma encDecision_json: "okContent d \<Longrightarrow> is_json (encDecision d)"
  by (cases "decisionTask d"; cases "decisionReason d")
    (simp_all add: encDecision_def encAuthorityContent_def optionalField_def enumText_def okContent_def)

lemma okContent_extend [simp]: "okContent (authorityContent.extend c x) = okContent c"
  by (simp add: okContent_def authorityContent.defs)

lemma encAuthority_extend [simp]: "encAuthorityContent (authorityContent.extend c x) = encAuthorityContent c"
  by (simp add: encAuthorityContent_def authorityContent.defs)

lemma encAuthority_truncate [simp]: "encAuthorityContent (authorityContent.truncate c) = encAuthorityContent c"
  by (simp add: encAuthorityContent_def authorityContent.defs)

lemma decision_digest [simp]: "decisionDigest (authorityContent.extend c \<lparr>decisionDigest = d\<rparr>) = d"
  by (simp add: authorityContent.defs)

interpretation decisions: sealed "\<lambda>v. validateAuthorityDecision v sha" encDecision "okDecision sha"
  "\<lambda>v. createAuthorityDecision v sha" encAuthorityContent decisionDigest sha for sha
proof unfold_locales
  show "validateAuthorityDecision v sha = Inr d \<Longrightarrow> okDecision sha d" for v d
    by (auto simp: validateAuthorityDecision_def bindE_eq_Inr snapshotCanonical_eq_Inr if_Inl_eq_Inr okDecision_def
        dest: authorityDecisionContent_ok)
  show "createAuthorityDecision v sha = Inr d \<Longrightarrow> okDecision sha d" for v d
    by (auto simp: createAuthorityDecision_def bindE_eq_Inr snapshotCanonical_eq_Inr okDecision_def
        dest: authorityDecisionContent_ok)
  show "okDecision sha d \<Longrightarrow> canonicalDigest (encAuthorityContent d) sha = Inr (decisionDigest d)" for d
    by (simp add: okDecision_def)
  show "validateAuthorityDecision (encDecision d) sha = Inr d" if "okDecision sha d" for d
  proof -
    have "sha256Pattern (decisionDigest d)" using that by (auto simp: okDecision_def canonicalDigest_eq_Inr)
    then show ?thesis using that authorityDecisionContent_enc encDecision_json
      by (simp add: validateAuthorityDecision_def snapshotCanonical_def okDecision_def) (simp add: authorityContent.defs)
  qed
qed

section \<open>Publications and assessments read again\<close>

lemma publication_again:
  assumes "validatePhaseOutputPublication p sha = Inr r"
  shows "validatePhaseOutputPublication r sha = Inr r" "is_json r"
proof -
  from assms have "createPhaseOutputPublication (pickFields p publicationFields) sha = Inr r"
    by (simp add: publication.validate_iff)
  note made = publication_created [OF this]
  then show "validatePhaseOutputPublication r sha = Inr r" "is_json r" by (simp_all add: publication.validate_iff)
qed

lemma sortedPublications:
  assumes "validateAndSortOutputPublications vs sha = Inr ps"
  shows "validateAndSortOutputPublications ps sha = Inr ps" "\<forall>p\<in>set ps. is_json p"
proof -
  from assms obtain rs where rs: "mapE (\<lambda>p. validatePhaseOutputPublication p sha) vs = Inr rs"
      "ps = sort_key (\<lambda>p. textField p ''outputName'') rs" "\<not> adjacentEqual (map (\<lambda>p. get p ''outputName'') ps)"
    by (auto simp: validateAndSortOutputPublications_def bindE_eq_Inr Let_def if_Inl_eq_Inr)
  have each: "validatePhaseOutputPublication p sha = Inr p \<and> is_json p" if "p \<in> set ps" for p
    proof -
    have "p \<in> set rs" using that rs(2) by simp
    then obtain q where "validatePhaseOutputPublication q sha = Inr p" using mapE_in_set [OF rs(1)] by blast
    then show ?thesis using publication_again by blast
  qed
  then have "mapE (\<lambda>p. validatePhaseOutputPublication p sha) ps = Inr ps"
    by (auto simp: mapE_eq_Inr list_all2_conv_all_nth)
  moreover have "sort_key (\<lambda>p. textField p ''outputName'') ps = ps" by (rule sort_key_id_if_sorted) (simp add: rs(2))
  ultimately show "validateAndSortOutputPublications ps sha = Inr ps"
    using rs(3) by (simp add: validateAndSortOutputPublications_def)
  show "\<forall>p\<in>set ps. is_json p" using each by blast
qed

lemma sortedTasks_again:
  assumes "validateAndSortTaskReferences vs = Inr tasks"
  shows "validateAndSortTaskReferences (map encTaskRef tasks) = Inr tasks"
proof -
  note ok = sortedTasks [OF assms]
  have "mapE (taskReferenceOf invalidCandidate) (map encTaskRef tasks) = Inr tasks"
    using ok(2) taskReferenceOf_enc by (auto simp: mapE_eq_Inr list_all2_conv_all_nth)
  moreover have "sort_key taskSortText tasks = tasks"
    using assms by (intro sort_key_id_if_sorted) (auto simp: validateAndSortTaskReferences_def bindE_eq_Inr if_Inl_eq_Inr)
  ultimately show ?thesis using ok(1) by (simp add: validateAndSortTaskReferences_def)
qed

lemma digest_pattern: "canonicalDigest v sha = Inr d \<Longrightarrow> sha256Pattern d"
  by (auto simp: canonicalDigest_eq_Inr)

text \<open>The number of evidence items is bounded by the length of a JavaScript array.\<close>

definition countable :: "acceptedAssessment \<Rightarrow> bool" where
  "countable x \<longleftrightarrow> int (length (subEvidence (accSubmission (acceptedAccounting x)))) \<le> maxSafe"

lemma reassess_enc:
  assumes "reassessCompletionAccounting r v = Inr a" "int (length (subEvidence (accSubmission a))) \<le> maxSafe"
  shows "reassessCompletionAccounting r (encAccounting a) = Inr a" "is_json (encAccounting a)"
proof -
  from assms(1) have v: "is_json r" "is_json v" "hasOwn v (lit ''submission'')"
      "assessCompletionSnapshots r (get v ''submission'') = Inr a" by (simp_all add: reassess_eq_Inr)
  show j: "is_json (encAccounting a)"
    using encAccounting_json [OF v(4,1) field_is_json [OF v(2,3)] assms(2)] .
  show "reassessCompletionAccounting r (encAccounting a) = Inr a"
    using j v(1) assess_enc [OF v(4)] by (simp add: reassess_eq_Inr) (simp add: encAccounting_def)
qed

lemma encAccepted_get [simp]:
  "get (encAccepted x) ''assessmentDigest'' = Str (acceptedDigest x)"
  "get (encAccepted x) ''assessment'' = encAccounting (acceptedAccounting x)"
  "assertAllowedKeys (encAccepted x) [''assessmentDigest'', ''assessment''] [] e = Inr ()"
  by (simp_all add: encAccepted_def assertAllowedKeys_eq_Inr)

lemma accept_enc:
  assumes "answers tasks rs sha (trTask t) x" "countable x" "mapGet found (trTask t) = None"
    and t: "keyed trTask tasks (trTask t) = Some t" "okTaskRef t"
    and r: "\<And>r. keyed (\<lambda>r. trTask (reqTask r)) rs (trTask t) = Some r \<Longrightarrow> reqTask r = t"
  shows "acceptAssessment tasks rs sha found (encAccepted x) = Inr (mapSet (trTask t) x found)"
proof -
  from assms(1) obtain r v where r': "keyed (\<lambda>r. trTask (reqTask r)) rs (trTask t) = Some r"
      "reassessCompletionAccounting (encRequirements r) v = Inr (acceptedAccounting x)"
      "assertAcceptedAccountingAssessment (acceptedAccounting x) = Inr ()"
      "canonicalDigest (encAccounting (acceptedAccounting x)) sha = Inr (acceptedDigest x)"
    by (auto simp: answers_def)
  have again: "reassessCompletionAccounting (encRequirements r) (encAccounting (acceptedAccounting x)) = Inr (acceptedAccounting x)"
    using reassess_enc(1) [OF r'(2)] assms(2) by (simp add: countable_def)
  from r'(2) obtain s where "assessCompletionSnapshots (encRequirements r) s = Inr (acceptedAccounting x)"
    by (auto simp: reassess_eq_Inr)
  from assess_parts [OF this] obtain reqs where "validateRequirements (encRequirements r) = Inr reqs"
      "subTask (accSubmission (acceptedAccounting x)) = reqTask reqs" by blast
  moreover from this(1) have "reqTask reqs = t"
    using r [OF r'(1)] taskReferenceOf_enc [OF t(2)]
    by (auto simp: validateRequirements_def bindE_eq_Inr encRequirements_def completionPolicy.extend_def)
  ultimately have sub: "subTask (accSubmission (acceptedAccounting x)) = t" by simp
  have "get (encAccounting (acceptedAccounting x)) ''submission'' = encSubmission (accSubmission (acceptedAccounting x))"
      "isRecord (encAccounting (acceptedAccounting x))" "isRecord (encSubmission (accSubmission (acceptedAccounting x)))"
    by (simp_all add: encAccounting_def encSubmission_def)
  moreover have "isSha256Digest (Str (acceptedDigest x))" using digest_pattern [OF r'(4)] by simp
  moreover have "\<not> mapHas found (trTask t)" using assms(3) by (simp add: mapHas_def)
  ultimately show ?thesis
    using r' again sub t taskReferenceOf_enc [OF t(2)]
    by (cases x) (simp add: acceptAssessment_def encSubmission_fields reassessAccountingAssessment_def)
qed

lemma accept_all:
  assumes "list_all2 (\<lambda>t x. answers tasks rs sha (trTask t) x) ts as" "\<forall>x\<in>set as. countable x" "distinct (map trTask ts)"
    and "\<forall>t\<in>set ts. keyed trTask tasks (trTask t) = Some t \<and> okTaskRef t \<and>
      (\<forall>r. keyed (\<lambda>r. trTask (reqTask r)) rs (trTask t) = Some r \<longrightarrow> reqTask r = t)"
    and "\<forall>t\<in>set ts. mapGet found (trTask t) = None"
  shows "\<exists>found'. foldE (acceptAssessment tasks rs sha) found (map encAccepted as) = Inr found' \<and>
    (\<forall>k. mapGet found' k = (case map_of (zip (map trTask ts) as) k of Some x \<Rightarrow> Some x | None \<Rightarrow> mapGet found k))"
  using assms
proof (induction ts as arbitrary: found rule: list_all2_induct)
  case (Cons t ts x as)
  have step: "acceptAssessment tasks rs sha found (encAccepted x) = Inr (mapSet (trTask t) x found)"
    using Cons.hyps(1) Cons.prems by (intro accept_enc) auto
  have t: "trTask t \<notin> set (map trTask ts)" using Cons.prems(2) by simp
  have fresh: "\<forall>t'\<in>set ts. mapGet (mapSet (trTask t) x found) (trTask t') = None"
  proof
    fix t' assume "t' \<in> set ts"
    then have "trTask t' \<noteq> trTask t" "mapGet found (trTask t') = None" using t Cons.prems(4) by (simp_all, metis imageI)
    then show "mapGet (mapSet (trTask t) x found) (trTask t') = None" by (simp add: jsmap.lookup_update)
  qed
  obtain found' where f:
      "foldE (acceptAssessment tasks rs sha) (mapSet (trTask t) x found) (map encAccepted as) = Inr found'"
      "\<forall>k. mapGet found' k = (case map_of (zip (map trTask ts) as) k of Some x \<Rightarrow> Some x
         | None \<Rightarrow> mapGet (mapSet (trTask t) x found) k)"
    using Cons.IH [OF _ _ _ fresh] Cons.prems(1-3) by force
  note t
  then have "map_of (zip (map trTask ts) as) (trTask t) = None"
    by (auto simp: map_of_eq_None_iff dest!: set_zip_leftD)
  then have "mapGet found' k = (case map_of (zip (map trTask (t # ts)) (x # as)) k of Some x \<Rightarrow> Some x | None \<Rightarrow> mapGet found k)" for k
    using f(2) by (cases "k = trTask t") (simp_all add: jsmap.lookup_update split: option.split)
  then show ?case using f(1) step by simp
qed simp

lemma assessments_again:
  assumes "validateAcceptedAssessments v tasks g sha = Inr as" "\<forall>x\<in>set as. countable x"
    and "distinct (map trTask tasks)" "\<forall>t\<in>set tasks. okTaskRef t"
  shows "validateAcceptedAssessments (Arr (map encAccepted as)) tasks g sha = Inr as"
proof -
  obtain rs where rs: "mapE (requirementsOf g) tasks = Inr rs" and
      each: "list_all2 (\<lambda>t x. answers tasks rs sha (trTask t) x) tasks as"
    using accepted_each [OF assms(1)] by (auto simp: deriveRequirementsFromGraph_def)
  have "reqTask r = t" if t: "t \<in> set tasks" and r: "keyed (\<lambda>r. trTask (reqTask r)) rs (trTask t) = Some r" for t r
  proof -
    from keyed_Some [OF r] obtain t' where "t' \<in> set tasks" "requirementsOf g t' = Inr r" "trTask (reqTask r) = trTask t"
      by (auto dest!: mapE_in_set [OF rs])
    with derived_key assms(3) t show ?thesis by (metis distinct_map inj_on_contraD)
  qed
  then have "\<forall>t\<in>set tasks. keyed trTask tasks (trTask t) = Some t \<and> okTaskRef t \<and>
      (\<forall>r. keyed (\<lambda>r. trTask (reqTask r)) rs (trTask t) = Some r \<longrightarrow> reqTask r = t)"
    using assms(4) by (simp add: keyed_Some_iff [OF assms(3)])
  from accept_all [OF each assms(2,3) this, of "[]"] obtain found where
      f: "foldE (acceptAssessment tasks rs sha) [] (map encAccepted as) = Inr found"
      "\<forall>k. mapGet found k = (case map_of (zip (map trTask tasks) as) k of Some x \<Rightarrow> Some x | None \<Rightarrow> mapGet [] k)"
    by (auto simp: mapGet_def)
  have len: "length tasks = length as" using each by (rule list_all2_lengthD)
  have "map_of (zip (map trTask tasks) as) (trTask (tasks ! i)) = Some (as ! i)" if "i < length tasks" for i
    using that len assms(3) by (intro map_of_is_SomeI) (simp, auto simp: set_zip intro: exI [of _ i])
  then have "mapE (\<lambda>t. case mapGet found (trTask t) of
             None \<Rightarrow> Inl (CandidateError KMissingAssessment) | Some a \<Rightarrow> Inr a) tasks = Inr as"
    using len by (auto simp: mapE_eq_Inr list_all2_conv_all_nth f(2) [rule_format])
  then show ?thesis using rs f(1) by (simp add: validateAcceptedAssessments_def deriveRequirementsFromGraph_def)
qed

section \<open>Candidates\<close>

text \<open>What the reading of a candidate has checked of its content.\<close>

definition wellTyped :: "'a candidateContent_scheme \<Rightarrow> bool" where
  "wellTyped c \<longleftrightarrow> isIdentity PhaseKind (Str (prPhase (candPhase c))) \<and>
     isSafe (prGeneration (candPhase c)) \<and> 1 \<le> prGeneration (candPhase c) \<and> isSafe (candAttempt c) \<and> 1 \<le> candAttempt c \<and>
     (\<forall>d\<in>{candGraphRevision c, candInputBinding c, candOutputSet c, candTaskSet c, candDependencyBarrier c,
        candEvidencePolicy c, candGatePolicy c}. sha256Pattern d) \<and>
     (\<forall>d. candIntegrationBarrier c = Some d \<longrightarrow> sha256Pattern d)"

lemma textField_digest: "isSha256Digest (get v k) \<Longrightarrow> get v k = Str (textField v k) \<and> sha256Pattern (textField v k)"
  by (cases "get v k") (simp_all add: textField_def isSha256Digest_def)

lemma content_typed:
  assumes "phaseCandidateContent v g sha b h = Inr c"
  shows "wellTyped c" "get v ''graphRevisionDigest'' = Str (candGraphRevision c)" "get v ''inputBindingDigest'' = Str (candInputBinding c)"
proof -
  from assms obtain phase attempt where p: "phaseReferenceOf invalidCandidate (get v ''phase'') = Inr phase"
      "candidatePhaseAttempt (get v ''phaseAttempt'') phase = Inr attempt" "candPhase c = phase" "candAttempt c = attempt"
    and d: "isSha256Digest (get v ''graphRevisionDigest'')" "isSha256Digest (get v ''inputBindingDigest'')"
      "isSha256Digest (get v ''dependencyBarrierDigest'')" "isSha256Digest (get v ''gatePolicyDigest'')"
    and f: "candGraphRevision c = textField v ''graphRevisionDigest''" "candInputBinding c = textField v ''inputBindingDigest''"
      "candDependencyBarrier c = textField v ''dependencyBarrierDigest''" "candGatePolicy c = textField v ''gatePolicyDigest''"
    and i: "hasOwn v (lit ''integrationBarrierDigest'') \<longrightarrow> isSha256Digest (get v ''integrationBarrierDigest'')"
      "candIntegrationBarrier c = (if hasOwn v (lit ''integrationBarrierDigest'')
           then Some (textField v ''integrationBarrierDigest'') else None)"
    unfolding phaseCandidateContent_def bindE_eq_Inr if_Inl_eq_Inr split_paired_Ex prod.case
    by (auto simp: assertDigests_iff candidateDigests_def simp del: not_None_eq)
  from assms obtain rs where t: "candidateTasks v (candPhase c) g sha = Inr (candTasks c, candTaskSet c)"
    "candidateOutputs v (candPhase c) (candAttempt c) sha = Inr (candPublications c, candOutputSet c)"
    "requirementsDigest rs sha = Inr (candEvidencePolicy c)" by (rule phaseCandidateContent_parts)
  have "sha256Pattern (candTaskSet c)" using t(1)
    by (auto elim!: candidateTasks_parts intro: digest_pattern simp: taskSetDigest_def)
  moreover have "sha256Pattern (candOutputSet c)" using t(2)
    by (auto simp: candidateOutputs_def case_option_Inr bindE_eq_Inr if_Inl_eq_Inr outputSetDigest_def intro: digest_pattern)
  moreover have "sha256Pattern (candEvidencePolicy c)" using t(3) by (auto simp: requirementsDigest_def intro: digest_pattern)
  moreover have "isIdentity PhaseKind (Str (prPhase phase))" "isSafe (prGeneration phase)" "1 \<le> prGeneration phase"
    using p(1) by (auto simp: phaseReferenceOf_def bindE_eq_Inr strIf_eq_Inr generationOf_eq_Inr)
  moreover have "isSafe attempt" "1 \<le> attempt"
    using p(2) by (auto simp: candidatePhaseAttempt_def bindE_eq_Inr if_Inl_eq_Inr case_option_Inr posSafeInt_eq_Some)
  moreover note d [THEN textField_digest]
  ultimately show "wellTyped c" using p(3,4) f i textField_digest by (auto simp: wellTyped_def)
  show "get v ''graphRevisionDigest'' = Str (candGraphRevision c)" "get v ''inputBindingDigest'' = Str (candInputBinding c)"
    using d(1,2) [THEN textField_digest] f by simp_all
qed

lemma outputs_again:
  assumes "candidateOutputs v phase n sha = Inr (ps, d)"
    and same: "get v ''graphRevisionDigest'' = get w ''graphRevisionDigest''" "get v ''inputBindingDigest'' = get w ''inputBindingDigest''"
    and w: "get w ''requiredOutputPublications'' = Arr ps" "get w ''outputSetDigest'' = Str d"
  shows "candidateOutputs w phase n sha = Inr (ps, d)" "\<forall>p\<in>set ps. is_json p"
proof -
  from assms(1) obtain vs where vs: "validateAndSortOutputPublications vs sha = Inr ps"
      "\<forall>p\<in>set ps. boundToAttempt v phase n p" "outputSetDigest ps sha = Inr d"
    by (auto simp: candidateOutputs_def case_option_Inr bindE_eq_Inr if_Inl_eq_Inr forE_eq_Inr)
  have "boundToAttempt w phase n p = boundToAttempt v phase n p" for p by (simp add: boundToAttempt_def same)
  then have "forE (\<lambda>p. if \<not> boundToAttempt w phase n p then Inl (CandidateError KOutputAttemptMismatch) else Inr ()) ps = Inr ()"
    using vs(2) by (simp add: forE_eq_Inr)
  then show "candidateOutputs w phase n sha = Inr (ps, d)"
    using w vs(3) sortedPublications(1) [OF vs(1)] by (simp add: candidateOutputs_def)
  show "\<forall>p\<in>set ps. is_json p" by (rule sortedPublications(2) [OF vs(1)])
qed

lemma content_again:
  assumes "phaseCandidateContent v g sha b h = Inr content" "\<forall>x\<in>set (candAssessments content). countable x"
    and c: "c = candidateContent.extend content \<lparr>candidateDigest = d\<rparr>" and h: "candGraphRevision content = revisionDigest g \<or> h'"
  shows "phaseCandidateContent (encCandidate c) g sha True h' = Inr content"
    and "is_json (encCandidate c)"
proof -
  obtain rs where tasks: "candidateTasks v (candPhase content) g sha = Inr (candTasks content, candTaskSet content)"
      and as: "validateAcceptedAssessments (get v ''acceptedAccountingAssessments'') (candTasks content) g sha = Inr (candAssessments content)"
      and outs: "candidateOutputs v (candPhase content) (candAttempt content) sha = Inr (candPublications content, candOutputSet content)"
      and rs: "deriveRequirementsFromGraph g (candTasks content) = Inr rs" "requirementsDigest rs sha = Inr (candEvidencePolicy content)"
    using assms(1) by (rule phaseCandidateContent_parts)
  obtain vs u where sorted: "validateAndSortTaskReferences vs = Inr (candTasks content)"
      "assertPhaseAndTasksMatchGraph (candPhase content) (candTasks content) g = Inr u"
      "taskSetDigest (candTasks content) sha = Inr (candTaskSet content)" using tasks by (rule candidateTasks_parts)
  note typed = content_typed [OF assms(1)]
  have sel: "candPhase c = candPhase content" "candAttempt c = candAttempt content" "candGraphRevision c = candGraphRevision content"
    "candInputBinding c = candInputBinding content" "candPublications c = candPublications content" "candOutputSet c = candOutputSet content"
    "candTaskSet c = candTaskSet content" "candTasks c = candTasks content" "candAssessments c = candAssessments content"
    "candDependencyBarrier c = candDependencyBarrier content" "candEvidencePolicy c = candEvidencePolicy content"
    "candGatePolicy c = candGatePolicy content" "candIntegrationBarrier c = candIntegrationBarrier content"
    by (simp_all add: c candidateContent.defs)
  have t': "candidateTasks (encCandidate c) (candPhase content) g sha = Inr (candTasks content, candTaskSet content)"
    using sorted sortedTasks_again [OF sorted(1)] by (simp add: candidateTasks_def sel)
  have a': "validateAcceptedAssessments (Arr (map encAccepted (candAssessments content))) (candTasks content) g sha = Inr (candAssessments content)"
    by (rule assessments_again [OF as assms(2) sortedTasks [OF sorted(1)]])
  have "get v ''graphRevisionDigest'' = get (encCandidate c) ''graphRevisionDigest''"
    "get v ''inputBindingDigest'' = get (encCandidate c) ''inputBindingDigest''" by (simp_all add: typed sel)
  note o' = outputs_again [OF outs this]
  have "candIntegrationBarrier content = None \<or> (\<exists>d. candIntegrationBarrier content = Some d \<and> sha256Pattern d)"
    using typed(1) by (auto simp: wellTyped_def)
  moreover have p: "phaseReferenceOf invalidCandidate (encPhaseRef (candPhase content)) = Inr (candPhase content)"
    "candidatePhaseAttempt (encPhaseAttempt (candPhase content) (candAttempt content)) (candPhase content) = Inr (candAttempt content)"
    using typed(1) by (auto simp: wellTyped_def intro!: encPhaseRef_read encPhaseAttempt_read)
  moreover have "assertDigests invalidCandidate (encCandidate c) (candidateDigests @ [''completionEvidencePolicyDigest'']) = Inr ()"
    using typed(1) by (simp add: assertDigests_iff candidateDigests_def sel wellTyped_def)
  ultimately show "phaseCandidateContent (encCandidate c) g sha True h' = Inr content"
    using t' a' o'(1) rs h
    by (cases content) (auto simp: phaseCandidateContent_def sel textField_def split: option.splits)
  have "is_json (encAccounting (acceptedAccounting x))" if x: "x \<in> set (candAssessments content)" for x
  proof -
    obtain rs where each: "list_all2 (\<lambda>t x. answers (candTasks content) rs sha (trTask t) x) (candTasks content) (candAssessments content)"
      using accepted_each [OF as] by blast
    moreover obtain i where i: "i < length (candAssessments content)" "x = candAssessments content ! i"
      using x by (auto simp: in_set_conv_nth)
    ultimately have "answers (candTasks content) rs sha (trTask (candTasks content ! i)) x"
      by (simp add: list_all2_conv_all_nth)
    then obtain r v where "reassessCompletionAccounting (encRequirements r) v = Inr (acceptedAccounting x)"
      by (auto simp: answers_def)
    then show ?thesis using reassess_enc(2) assms(2) x by (auto simp: countable_def)
  qed
  moreover have "\<forall>p\<in>set (candPublications content). is_json p" using o'(2) by (simp add: sel)
  moreover have "\<forall>t\<in>set (candTasks content). is_json (encTaskRef t)" using sortedTasks(2) [OF sorted(1)] encTaskRef_json by blast
  ultimately show "is_json (encCandidate c)" using typed(1)
    by (cases "candIntegrationBarrier content")
     (simp_all add: encCandidate_def encCandidateContent_def encPhaseRef_def encPhaseAttempt_def encAccepted_def sel list_all_iff
       optionalField_def wellTyped_def safe_wf)
qed

lemma created_candidate:
  assumes "createPhaseCandidate v graph sha = Inr c" "\<forall>x\<in>set (candAssessments c). countable x"
  shows "validatePhaseCandidate (encCandidate c) graph sha h = Inr c"
proof -
  from assms(1) obtain g content d where g: "validateWorkflowGraph graph sha = Inr g"
      and p: "phaseCandidateContent v g sha False False = Inr content"
      and d: "canonicalDigest (encCandidateContent content) sha = Inr d"
      and c: "c = candidateContent.extend content \<lparr>candidateDigest = d\<rparr>"
    by (auto simp: createPhaseCandidate_def bindE_eq_Inr candidateGraph_eq_Inr snapshotCanonical_eq_Inr)
  have "candGraphRevision content = revisionDigest g" using p by (auto elim: phaseCandidateContent_parts)
  moreover have "candAssessments content = candAssessments c" by (simp add: c candidateContent.defs)
  ultimately have "phaseCandidateContent (encCandidate c) g sha True h = Inr content" "is_json (encCandidate c)"
    using content_again [OF p _ c] assms(2) by simp_all
  moreover have "candidateDigest c = d" by (simp add: c candidateContent.defs)
  ultimately show ?thesis using digest_pattern [OF d] d c g
    by (simp add: validatePhaseCandidate_def candidateGraph_eq_Inr [THEN iffD2] snapshotCanonical_def)
qed

section \<open>Closures\<close>

lemma acceptances_json:
  assumes "mapE (\<lambda>p. createPhaseOutputAcceptance p c d sha) ps = Inr as"
  shows "\<forall>a\<in>set as. is_json a"
  using mapE_in_set [OF assms] by (auto simp: createPhaseOutputAcceptance_def bindE_eq_Inr sealRecord_eq_Inr)

lemma approval_json:
  assumes "is_json v" "closureApprovalOf v cand sha = Inr a"
  shows "is_json (encApproval a)"
proof (cases a)
  case (Approved authority digest members)
  have "get v ''policy'' = Str (lit ''approval-required'')" "authority = get v ''authority''"
    using closureApproval_approved [OF assms] by (simp_all add: Approved approved_def)
  moreover from this have "hasOwn v (lit ''authority'')" using closureApproval_own [OF assms(2)] by simp
  ultimately have "is_json authority" using assms(1) by (simp add: field_is_json)
  then show ?thesis by (cases members) (simp_all add: Approved optionalField_def list_all_iff)
qed simp

lemma validated_typed:
  assumes "validatePhaseCandidate v graph sha h = Inr c"
  shows "wellTyped c"
proof -
  from assms obtain g content where "phaseCandidateContent v g sha True h = Inr content"
      "c = candidateContent.extend content \<lparr>candidateDigest = candidateDigest c\<rparr>" by (rule validateCandidate_parts)
  moreover have "wellTyped (candidateContent.extend content x) = wellTyped content" for x
    by (simp add: wellTyped_def candidateContent.defs)
  ultimately show ?thesis using content_typed(1) by metis
qed

lemma closure_json:
  assumes "closePhase v sha = Inr cl"
  shows "is_json (encClosure cl)"
proof -
  from assms obtain c ev approval digest acceptances where v: "is_json v" "hasOwn v (lit ''approval'')"
    and c: "validatePhaseCandidate (get v ''candidate'') (get v ''graph'') sha (get v ''historical'' = Bool True) = Inr c"
    and "validateGateEvidence (get v ''gateEvidence'') (Str (candidateDigest c)) sha = Inr ev"
    and a: "closureApprovalOf (get v ''approval'') (candidateDigest c) sha = Inr approval"
    and acc: "mapE (\<lambda>p. createPhaseOutputAcceptance p (Str (candidateDigest c)) (Str digest) sha) (candPublications c) = Inr acceptances"
    and cl: "cl = \<lparr>closurePhase = candPhase c, closureAttempt = candAttempt c,
        closureGraphRevision = candGraphRevision c, closureOutputSet = candOutputSet c,
        closureCandidate = candidateDigest c, closureGate = evaluationDigest (evidenceEvaluation ev),
        closureApproval = approval, closureDigest = digest, closureAcceptances = acceptances\<rparr>"
    by (rule closePhase_parts)
  have "is_json (encApproval approval)" by (rule approval_json [OF field_is_json [OF v] a])
  with acceptances_json [OF acc] validated_typed [OF c] show ?thesis
    by (simp add: cl encClosure_def encClosureContent_def encPhaseRef_def encPhaseAttempt_def list_all_iff wellTyped_def safe_wf)
qed

lemma closure_iff:
  "validatePhaseClosure v input sha = Inr cl \<longleftrightarrow> is_json v \<and> closePhase input sha = Inr cl \<and> norm v = norm (encClosure cl)"
  using closure_json
  by (auto simp: validatePhaseClosure_def bindE_eq_Inr snapshotCanonical_eq_Inr if_Inl_eq_Inr canonicalSerialize_def serialize_eq_iff)

end
