(* ===== verification/CandidateProperties.thy ===== *)
theory CandidateProperties
  imports CandidateRecords GateProperties
begin

text \<open>
  The properties of candidates.ts. Their examples close the phase \<open>phase_p\<close> of the example graph,
  whose one task satisfied its one criterion, on the example gate and the approval of \<open>lead\<close>.
\<close>

section \<open>The example\<close>

definition zeros :: jstr where
  "zeros = replicate 64 48"

definition doneGraph :: workflowGraph where
  "doneGraph = demoGraph (Str (lit ''Done''))"

definition doneTask :: taskGenRef where
  "doneTask = \<lparr>trTask = lit ''task_t'', trGeneration = 1, trContext = zeros\<rparr>"

definition doneAccounting :: accounting where
  "doneAccounting = \<lparr>accSubmission = \<lparr>subTask = doneTask, subDisposition = CompletedT, subSummary = lit ''done'',
       subCriteria = [\<lparr>outCriterion = lit ''criterion_c'', outDisposition = SatisfiedD, outAuthority = None\<rparr>],
       subEvidence = [], subReplacement = None\<rparr>,
     accCriteria = [\<lparr>caCriterion = lit ''criterion_c'', caRequired = True, caDisposition = SatisfiedD,
       caEvidence = [], caSatisfied = True\<rparr>], accTaskEvidence = [], accSatisfied = True\<rparr>"

definition doneCandidate :: phaseCandidate where
  "doneCandidate = \<lparr>candPhase = \<lparr>prPhase = lit ''phase_p'', prGeneration = 1\<rparr>, candAttempt = 1,
     candGraphRevision = zeros, candInputBinding = zeros, candPublications = [], candOutputSet = zeros,
     candTaskSet = zeros, candTasks = [doneTask],
     candAssessments = [\<lparr>acceptedDigest = zeros, acceptedAccounting = doneAccounting\<rparr>],
     candDependencyBarrier = zeros, candEvidencePolicy = zeros, candGatePolicy = zeros,
     candIntegrationBarrier = None, candidateDigest = zeros\<rparr>"

lemma done_nodes: "tasksOf (graphNodes doneGraph) = [demoTaskDef]" "phasesOf (graphNodes doneGraph) = [demoPhase]"
  by code_simp+

definition doneRequirements :: requirements where
  "doneRequirements = completionPolicy.extend (defPolicy demoTaskDef) \<lparr>reqTask = doneTask\<rparr>"

lemma done_requirements: "requirementsOf doneGraph doneTask = Inr doneRequirements"
  unfolding requirementsOf_def done_nodes by code_simp

lemma done_assessed:
  "assessCompletionSnapshots (encRequirements doneRequirements) (encSubmission (accSubmission doneAccounting)) = Inr doneAccounting"
  "is_json (encRequirements doneRequirements)" "is_json (encAccounting doneAccounting)" "isRecord (encAccounting doneAccounting)"
  "hasOwn (encAccounting doneAccounting) (lit ''submission'')"
  "assertAcceptedAccountingAssessment doneAccounting = Inr ()"
  by code_simp+

lemma done_accounting: "reassessCompletionAccounting (encRequirements doneRequirements) (encAccounting doneAccounting) = Inr doneAccounting"
  using done_assessed by (simp add: reassess_eq_Inr) (simp add: encAccounting_def)

lemma done_match: "assertPhaseAndTasksMatchGraph (candPhase doneCandidate) [doneTask] doneGraph = Inr ()"
  unfolding assertPhaseAndTasksMatchGraph_def activeTasks_def done_nodes by code_simp

lemma done_sort: "validateAndSortTaskReferences [encTaskRef doneTask] = Inr [doneTask]"
  by code_simp

lemma done_accept:
  "acceptAssessment [doneTask] [doneRequirements] flatSha [] (encAccepted \<lparr>acceptedDigest = zeros, acceptedAccounting = doneAccounting\<rparr>) =
     Inr [(lit ''task_t'', \<lparr>acceptedDigest = zeros, acceptedAccounting = doneAccounting\<rparr>)]"
proof -
  let ?v = "encAccepted \<lparr>acceptedDigest = zeros, acceptedAccounting = doneAccounting\<rparr>"
  have "taskReferenceOf invalidCandidate (get (get (get ?v ''assessment'') ''submission'') ''task'') = Inr doneTask"
    "assertAllowedKeys ?v [''assessmentDigest'', ''assessment''] [] (CandidateError KInvalidAssessment) = Inr ()"
    "isSha256Digest (get ?v ''assessmentDigest'')" "isRecord (get ?v ''assessment'')" "isRecord (get (get ?v ''assessment'') ''submission'')"
    "keyed (\<lambda>r. trTask (reqTask r)) [doneRequirements] (trTask doneTask) = Some doneRequirements"
    "keyed trTask [doneTask] (trTask doneTask) = Some doneTask" "subTask (accSubmission doneAccounting) = doneTask"
    "mapHas [] (trTask doneTask) = False" "trTask doneTask = lit ''task_t''"
    by code_simp+
  moreover have "get ?v ''assessment'' = encAccounting doneAccounting" "get ?v ''assessmentDigest'' = Str zeros"
    by (simp_all add: encAccepted_def)
  ultimately show ?thesis using done_accounting done_assessed(6)
    by (simp add: acceptAssessment_def reassessAccountingAssessment_def) (simp add: zeros_def)
qed

lemma done_assessments:
  "validateAcceptedAssessments (Arr [encAccepted \<lparr>acceptedDigest = zeros, acceptedAccounting = doneAccounting\<rparr>]) [doneTask]
     doneGraph flatSha = Inr [\<lparr>acceptedDigest = zeros, acceptedAccounting = doneAccounting\<rparr>]"
  using done_requirements done_accept
  by (simp add: validateAcceptedAssessments_def deriveRequirementsFromGraph_def) (simp add: mapGet_def doneTask_def)

lemma done_read:
  "phaseReferenceOf invalidCandidate (encPhaseRef (candPhase doneCandidate)) = Inr (candPhase doneCandidate)"
  "candidatePhaseAttempt (encPhaseAttempt (candPhase doneCandidate) 1) (candPhase doneCandidate) = Inr 1"
  "sha256Pattern zeros"
  by code_simp+

lemma done_values:
  "candAttempt doneCandidate = 1" "candGraphRevision doneCandidate = zeros" "candInputBinding doneCandidate = zeros"
  "candPublications doneCandidate = []" "candOutputSet doneCandidate = zeros" "candTaskSet doneCandidate = zeros"
  "candTasks doneCandidate = [doneTask]"
  "candAssessments doneCandidate = [\<lparr>acceptedDigest = zeros, acceptedAccounting = doneAccounting\<rparr>]"
  "candDependencyBarrier doneCandidate = zeros" "candEvidencePolicy doneCandidate = zeros"
  "candGatePolicy doneCandidate = zeros" "candIntegrationBarrier doneCandidate = None" "candidateDigest doneCandidate = zeros"
  by (simp_all add: doneCandidate_def)

lemma done_content:
  "phaseCandidateContent (encCandidate doneCandidate) doneGraph flatSha True False =
     Inr (candidateContent.truncate doneCandidate)"
proof -
  have "candidateTasks (encCandidate doneCandidate) (candPhase doneCandidate) doneGraph flatSha = Inr ([doneTask], zeros)"
    using done_sort done_match by (simp add: candidateTasks_def done_values taskSetDigest_def) (simp add: zeros_def)
  moreover have "candidateOutputs (encCandidate doneCandidate) (candPhase doneCandidate) 1 flatSha = Inr ([], zeros)"
    by (simp add: candidateOutputs_def done_values validateAndSortOutputPublications_def outputSetDigest_def) (simp add: zeros_def)
  moreover have "revisionDigest doneGraph = zeros" by (simp add: doneGraph_def demoGraph_def zeros_def)
  ultimately show ?thesis
    using done_read done_assessments done_requirements
    by (simp add: phaseCandidateContent_def done_values deriveRequirementsFromGraph_def requirementsDigest_def textField_def
        assertDigests_def candidateDigests_def)
      (simp add: doneCandidate_def candidateContent.defs zeros_def)
qed

lemma done_graph: "validateWorkflowGraph (encGraph doneGraph) flatSha = Inr doneGraph"
  unfolding doneGraph_def
  by (rule validate_enc(1) [OF demo_typed [OF demo_title(1)] demo_consistent])
   (simp_all add: buildGraph_eq_Inr demoGraph_def sortNodes_def node_set textTitle_def demoPhase_def demoTaskDef_def demoCriterion_def
     demoWorkflow_def)

lemma done_candidate_json: "is_json (encCandidate doneCandidate)"
  using done_assessed(3)
  by (simp add: encCandidate_def encCandidateContent_def encPhaseRef_def encPhaseAttempt_def encAccepted_def encTaskRef_def done_values)
    (simp add: doneCandidate_def doneTask_def wf_num_def optionalField_def)

lemma done_candidate:
  "validatePhaseCandidate (encCandidate doneCandidate) (encGraph doneGraph) flatSha False = Inr doneCandidate"
  using done_content done_graph done_candidate_json done_read(3)
  by (simp add: validatePhaseCandidate_def candidateGraph_eq_Inr [THEN iffD2] snapshotCanonical_def done_values)
    (simp add: candidateContent.defs doneCandidate_def zeros_def)

definition doneDecision :: authorityDecision where
  "doneDecision = \<lparr>decision = Approve, decisionApproval = lit ''approval_a'', decisionPrincipal = Str (lit ''lead''),
     decisionOccurredAt = lit ''2026-01-01T00:00:00.000Z'', decisionCandidate = zeros, decisionTask = Some (lit ''task_t''),
     decisionReason = None, decisionDigest = zeros\<rparr>"

definition doneReading :: sensorReading where
  "doneReading = demoReading\<lparr>inputDigest := zeros\<rparr>"

definition doneEvaluation :: gateEvaluation where
  "doneEvaluation = demoEvaluation\<lparr>candidateInputDigest := zeros\<rparr>"

definition doneEvidence :: gateEvidence where
  "doneEvidence = \<lparr>evidenceDefinition = demoGate, evidenceReadings = [doneReading], evidenceEvaluation = doneEvaluation\<rparr>"

definition doneApproval :: val where
  "doneApproval = Obj [(lit ''policy'', Str (lit ''approval-required'')), (lit ''authority'', Str (lit ''lead'')),
     (lit ''decision'', encDecision doneDecision), (lit ''decisions'', Arr [encDecision doneDecision])]"

definition doneInput :: val where
  "doneInput = Obj [(lit ''graph'', encGraph doneGraph), (lit ''candidate'', encCandidate doneCandidate),
     (lit ''gateEvidence'', encEvidence doneEvidence), (lit ''approval'', doneApproval)]"

definition doneClosure :: phaseClosure where
  "doneClosure = \<lparr>closurePhase = candPhase doneCandidate, closureAttempt = 1, closureGraphRevision = zeros,
     closureOutputSet = zeros, closureCandidate = zeros, closureGate = zeros,
     closureApproval = Approved (Str (lit ''lead'')) zeros (Some [zeros]), closureDigest = zeros, closureAcceptances = []\<rparr>"

lemma done_decision:
  "authorityDecisionContent (encDecision doneDecision) True = Inr (authorityContent.truncate doneDecision)"
  "is_json (encDecision doneDecision)" "isRecord (encDecision doneDecision)"
  "get (encDecision doneDecision) ''decisionDigest'' = Str zeros"
  by code_simp+

lemma done_approves: "approves flatSha zeros (Str (lit ''lead'')) (encDecision doneDecision) doneDecision"
  using done_decision done_read(3)
  by (simp add: approves_def validateAuthorityDecision_def snapshotCanonical_def)
    (simp add: doneDecision_def authorityContent.defs zeros_def)

lemma done_approval:
  "closureApprovalOf doneApproval zeros flatSha = Inr (Approved (Str (lit ''lead'')) zeros (Some [zeros]))"
proof -
  have j: "is_json (Str (lit ''lead''))" by simp
  have "assertAllowedKeys (without doneApproval ''decisions'') [''policy'', ''authority'', ''decision''] [] e = Inr ()" for e
    by (simp add: doneApproval_def without_def assertAllowedKeys_eq_Inr)
  moreover have "approvingDecision (encDecision doneDecision) zeros (Str (lit ''lead'')) flatSha = Inr doneDecision"
    unfolding approvingDecision_eq_Inr [OF j] by (rule done_approves)
  moreover have "memberDecision zeros (Str (lit ''lead'')) flatSha [] (encDecision doneDecision) = Inr [(lit ''task_t'', zeros)]"
    unfolding memberDecision_eq_Inr [OF j] using done_approves
    by (intro exI [of _ doneDecision] exI [of _ "lit ''task_t''"]) (simp add: doneDecision_def)
  ultimately show ?thesis
    by (simp add: closureApprovalOf_def memberDecisions_def) (simp add: doneApproval_def memberDecisions_def doneDecision_def)
qed

lemma done_evidence: "validateGateEvidence (encEvidence doneEvidence) (Str zeros) flatSha = Inr doneEvidence"
proof (rule evidence.dec_enc)
  have "readingContentOf (encReadingContent (readingContent.truncate doneReading)) = Inr (readingContent.truncate doneReading)"
    "is_json (encReadingContent (readingContent.truncate doneReading))" by code_simp+
  then have "createSensorReading (encReadingContent (readingContent.truncate doneReading)) flatSha = Inr doneReading"
    by (simp add: createSensorReading_def snapshotCanonical_def)
      (simp add: doneReading_def demoReading_def readingContent.defs)
  note r = readings.create_ok [OF this]
  have "evaluationSpec demoGate [doneReading] zeros = evaluationContent.truncate doneEvaluation"
    "admissible [doneReading] zeros" by code_simp+
  then show "okEvidence flatSha zeros doneEvidence"
    using gates.create_ok [OF demoGate_defined] r done_read(3)
    by (simp add: okEvidence_def doneEvidence_def) (simp add: doneEvaluation_def demoEvaluation_def evaluationContent.defs)
qed

lemma done_closes: "closePhase doneInput flatSha = Inr doneClosure"
proof -
  have v: "get doneInput ''graph'' = encGraph doneGraph" "get doneInput ''candidate'' = encCandidate doneCandidate"
    "get doneInput ''gateEvidence'' = encEvidence doneEvidence" "get doneInput ''approval'' = doneApproval"
    "get doneInput ''historical'' = Undef"
    "assertAllowedKeys doneInput [''graph'', ''candidate'', ''gateEvidence'', ''approval''] [''historical''] e = Inr ()" for e
    by (simp_all add: doneInput_def assertAllowedKeys_eq_Inr)
  have "is_json (encGraph doneGraph)" using validate_canonical(3) [OF done_graph] .
  moreover have "is_json (encEvidence doneEvidence)" using encEvidence_json [OF evidence.dec_ok [OF done_evidence]] .
  moreover have "is_json doneApproval" using done_decision(2) by (simp add: doneApproval_def)
  ultimately have "is_json doneInput" using done_candidate_json by (simp add: doneInput_def)
  moreover have "evaluationDigest doneEvaluation = zeros" "policyDigest demoGate = zeros" "accepted doneEvaluation"
    by (simp_all add: doneEvaluation_def demoEvaluation_def demoGate_def zeros_def)
  ultimately show ?thesis using v done_candidate done_evidence done_approval
    by (simp add: closePhase_def snapshotCanonical_def done_values)
      (simp add: doneEvidence_def done_values doneClosure_def closureContent.defs zeros_def)
qed

section \<open>The properties\<close>

text \<open>C3. A closed phase was earned. The closure names a candidate that validates against the graph and
  whose every active task is completed under its own policy with the required criteria resolved and
  the evidence met; gate evidence bound to that candidate, under the candidate's gate policy, on whose
  readings every blocking rule holds; and an approval that either the policy does not ask for or that
  rests on approving decisions over this candidate of the required authority, at most one per member.
  Its digest seals all of this.\<close>

theorem closure_sound:
  assumes "closePhase v sha = Inr cl"
  shows "\<exists>g c ev. validateWorkflowGraph (get v ''graph'') sha = Inr g \<and>
     validatePhaseCandidate (get v ''candidate'') (get v ''graph'') sha (get v ''historical'' = Bool True) = Inr c \<and>
     phaseComplete g sha c \<and>
     validateGateEvidence (get v ''gateEvidence'') (Str (candidateDigest c)) sha = Inr ev \<and>
     policyDigest (evidenceDefinition ev) = candGatePolicy c \<and>
     (\<forall>r\<in>set (evidenceReadings ev). inputDigest r = candidateDigest c) \<and>
     (\<forall>rule\<in>set (blocking (evidenceDefinition ev)).
        evaluateCondition (map (\<lambda>r. (sensorKey r, r)) (evidenceReadings ev)) (ruleCondition rule) = Inr TrueV) \<and>
     approved sha (candidateDigest c) (get v ''approval'') (closureApproval cl) \<and>
     closureCandidate cl = candidateDigest c \<and> closurePhase cl = candPhase c \<and> closureAttempt cl = candAttempt c \<and>
     closureGate cl = evaluationDigest (evidenceEvaluation ev) \<and>
     closureDigest cl = sha (canonicalBytes (encClosureContent cl))"
proof -
  from assms obtain c ev approval digest acceptances where v: "is_json v" "hasOwn v (lit ''approval'')"
    and c: "validatePhaseCandidate (get v ''candidate'') (get v ''graph'') sha (get v ''historical'' = Bool True) = Inr c"
    and ev: "validateGateEvidence (get v ''gateEvidence'') (Str (candidateDigest c)) sha = Inr ev"
      "policyDigest (evidenceDefinition ev) = candGatePolicy c" "accepted (evidenceEvaluation ev)"
    and approval: "closureApprovalOf (get v ''approval'') (candidateDigest c) sha = Inr approval"
    and digest: "canonicalDigest (encClosureContent cl) sha = Inr digest"
    and cl: "cl = \<lparr>closurePhase = candPhase c, closureAttempt = candAttempt c,
        closureGraphRevision = candGraphRevision c, closureOutputSet = candOutputSet c,
        closureCandidate = candidateDigest c, closureGate = evaluationDigest (evidenceEvaluation ev),
        closureApproval = approval, closureDigest = digest, closureAcceptances = acceptances\<rparr>"
    by (rule closePhase_parts)
  from c obtain g content where g: "validateWorkflowGraph (get v ''graph'') sha = Inr g"
      "phaseCandidateContent (get v ''candidate'') g sha True (get v ''historical'' = Bool True) = Inr content"
      "c = candidateContent.extend content \<lparr>candidateDigest = candidateDigest c\<rparr>" by (rule validateCandidate_parts)
  have "phaseComplete g sha c" by (subst g(3)) (simp add: content_complete [OF g(2,1)])
  moreover have "approved sha (candidateDigest c) (get v ''approval'') (closureApproval cl)"
    using closureApproval_approved [OF field_is_json [OF v] approval] by (simp add: cl)
  moreover have "closureDigest cl = sha (canonicalBytes (encClosureContent cl))"
    using digest unfolding canonicalDigest_eq_Inr by (simp add: cl)
  ultimately show ?thesis using g(1) c ev evidence_sound [OF ev(1)]
    by (intro exI [of _ g] exI [of _ c] exI [of _ ev]) (simp add: cl)
qed

theorem closure_sound_witness:
  "approved flatSha zeros doneApproval (closureApproval doneClosure) \<and> phaseComplete doneGraph flatSha doneCandidate"
proof -
  have "get doneInput ''graph'' = encGraph doneGraph" "get doneInput ''candidate'' = encCandidate doneCandidate"
    "get doneInput ''historical'' = Undef" "get doneInput ''approval'' = doneApproval" by (simp_all add: doneInput_def)
  with closure_sound [OF done_closes] done_candidate done_graph show ?thesis by (auto simp: done_values)
qed

text \<open>C24. Whatever this module makes, it accepts again as the same record: a decision it creates, a
  candidate it creates (under any later validation, historical or not), and a closure computed from
  its sources, which validates to itself against them. The bound is that of a JavaScript array.\<close>

theorem closing_roundtrip:
  "(\<forall>d. createAuthorityDecision v sha = Inr d \<longrightarrow> validateAuthorityDecision (encDecision d) sha = Inr d) \<and>
   (\<forall>c h. createPhaseCandidate v graph sha = Inr c \<and>
       (\<forall>x\<in>set (candAssessments c). int (length (subEvidence (accSubmission (acceptedAccounting x)))) \<le> maxSafe) \<longrightarrow>
     validatePhaseCandidate (encCandidate c) graph sha h = Inr c) \<and>
   (\<forall>cl. closePhase v sha = Inr cl \<longrightarrow> validatePhaseClosure (encClosure cl) v sha = Inr cl)"
proof (intro conjI allI impI)
  fix d assume "createAuthorityDecision v sha = Inr d"
  then show "validateAuthorityDecision (encDecision d) sha = Inr d" by (rule decisions.created_validates)
next
  fix c h
  assume "createPhaseCandidate v graph sha = Inr c \<and>
    (\<forall>x\<in>set (candAssessments c). int (length (subEvidence (accSubmission (acceptedAccounting x)))) \<le> maxSafe)"
  then show "validatePhaseCandidate (encCandidate c) graph sha h = Inr c"
    by (intro created_candidate [of v]) (simp_all add: countable_def)
next
  fix cl assume "closePhase v sha = Inr cl"
  then show "validatePhaseClosure (encClosure cl) v sha = Inr cl" using closure_json by (simp add: closure_iff)
qed

theorem closing_roundtrip_witness:
  "validatePhaseClosure (encClosure doneClosure) doneInput flatSha = Inr doneClosure"
  using closing_roundtrip [of doneInput flatSha] done_closes by blast

end
