(* ===== verification/Assessments.thy ===== *)
theory Assessments
  imports Candidates
begin

text \<open>
  packages/kernel/src/candidates.ts: \<open>digestAccountingAssessment\<close> and the validation of an
  accounting assessment by itself, without the requirements it was made under.
\<close>

abbreviation invalidAssessment :: exn where
  "invalidAssessment \<equiv> CandidateError KInvalidAssessment"

section \<open>Evidence\<close>

definition evidenceRequirementAssessment :: "val \<Rightarrow> exn + evidenceAssessment" where
  "evidenceRequirementAssessment v =
     bindE (assertAllowedKeys v [''kind'', ''minimumCount'', ''attachmentCount'', ''satisfied''] [] invalidAssessment) (\<lambda>_.
     case (posSafeInt (get v ''minimumCount''), safeInt (get v ''attachmentCount'')) of
       (Some n, Some counted) \<Rightarrow>
         if counted < 0 then Inl invalidAssessment
         else bindE (boolOf invalidAssessment (get v ''satisfied'')) (\<lambda>b.
           if (counted \<ge> n) \<noteq> b then Inl invalidAssessment
           else Inr \<lparr>assKind = get v ''kind'', assMinimum = n, assCount = counted, assSatisfied = b\<rparr>)
     | _ \<Rightarrow> Inl invalidAssessment)"

definition assertUniqueEvidenceKinds :: "evidenceAssessment list \<Rightarrow> exn + unit" where
  "assertUniqueEvidenceKinds xs =
     (if distinct (map (canonicalSerialize \<circ> assKind) xs) then Inr () else Inl invalidAssessment)"

definition assertEvidenceCounts :: "evidenceAssessment list \<Rightarrow> evidenceItem list \<Rightarrow> exn + unit" where
  "assertEvidenceCounts xs items = forE (\<lambda>x.
     if int (length (filter (\<lambda>i. canonicalSerialize (itemKind i) = canonicalSerialize (assKind x)) items)) \<noteq> assCount x
     then Inl invalidAssessment else Inr ()) xs"

section \<open>Criteria\<close>

definition criterionOutcomeIn :: "val \<Rightarrow> exn + criterionOutcome" where
  "criterionOutcomeIn v =
     bindE (assertAllowedKeys v [''criterionId'', ''disposition''] [''authorityFact''] invalidAssessment) (\<lambda>_.
     bindE (strIf (isIdentity CriterionKind) invalidAssessment (get v ''criterionId'')) (\<lambda>c.
     case enumOf criterionDispositionStr [SatisfiedD, UnsatisfiedD, WaivedD, SkippedD] (get v ''disposition'') of
       None \<Rightarrow> Inl invalidAssessment
     | Some d \<Rightarrow>
         if d \<noteq> WaivedD \<and> hasOwn v (lit ''authorityFact'') then Inl invalidAssessment
         else Inr \<lparr>outCriterion = c, outDisposition = d, outAuthority = optionalOf v ''authorityFact''\<rparr>))"

definition evidenceAttachment :: "val \<Rightarrow> exn + evidenceItem" where
  "evidenceAttachment v =
     bindE (assertAllowedKeys v [''assetId'', ''kind'', ''descriptor''] [''criterionId''] invalidAssessment) (\<lambda>_.
     bindE (strIf (isIdentity AssetKind) invalidAssessment (get v ''assetId'')) (\<lambda>a.
     let item = \<lparr>itemAsset = a, itemKind = get v ''kind'', itemDescriptor = get v ''descriptor'', itemCriterion = None\<rparr> in
     if hasOwn v (lit ''criterionId'') then
       bindE (strIf (isIdentity CriterionKind) invalidAssessment (get v ''criterionId'')) (\<lambda>c.
         Inr (item\<lparr>itemCriterion := Some c\<rparr>))
     else Inr item))"

definition criterionAssessmentIn :: "val \<Rightarrow> exn + criterionAssessment" where
  "criterionAssessmentIn v =
     bindE (assertAllowedKeys v [''criterionId'', ''required'', ''disposition'', ''completionEvidence'',
       ''completionEvidenceSatisfied''] [] invalidAssessment) (\<lambda>_.
     bindE (strIf (isIdentity CriterionKind) invalidAssessment (get v ''criterionId'')) (\<lambda>c.
     bindE (boolOf invalidAssessment (get v ''required'')) (\<lambda>required.
     case enumOf criterionDispositionStr [SatisfiedD, UnsatisfiedD, WaivedD, SkippedD] (get v ''disposition'') of
       None \<Rightarrow> Inl invalidAssessment
     | Some d \<Rightarrow>
     (case arrOf (get v ''completionEvidence'') of None \<Rightarrow> Inl invalidAssessment
      | Some es \<Rightarrow>
     bindE (boolOf invalidAssessment (get v ''completionEvidenceSatisfied'')) (\<lambda>b.
     bindE (mapE evidenceRequirementAssessment es) (\<lambda>evidence.
     bindE (assertUniqueEvidenceKinds evidence) (\<lambda>_.
     if list_all assSatisfied evidence \<noteq> b then Inl invalidAssessment
     else Inr \<lparr>caCriterion = c, caRequired = required, caDisposition = d, caEvidence = evidence, caSatisfied = b\<rparr>)))))))"

section \<open>Submissions\<close>

definition completionSubmission :: "val \<Rightarrow> exn + submission" where
  "completionSubmission v =
     (if \<not> isRecord v then Inl invalidAssessment
      else let superseded = get v ''disposition'' = Str (lit ''superseded'') in
     bindE (assertAllowedKeys v ([''task'', ''disposition'', ''summary'', ''criteria'', ''completionEvidence''] @
       (if superseded then [''replacementTask''] else [])) [] invalidAssessment) (\<lambda>_.
     bindE (taskReferenceOf invalidCandidate (get v ''task'')) (\<lambda>task.
     case enumOf dispositionStr [CompletedT, BlockedT, WaivedT, SkippedT, SupersededT] (get v ''disposition'') of
       None \<Rightarrow> Inl invalidAssessment
     | Some disposition \<Rightarrow>
     bindE (strIf isSummary invalidAssessment (get v ''summary'')) (\<lambda>summary.
     case (arrOf (get v ''criteria''), arrOf (get v ''completionEvidence'')) of
       (Some cs, Some es) \<Rightarrow>
         bindE (mapE criterionOutcomeIn cs) (\<lambda>criteria.
         bindE (mapE evidenceAttachment es) (\<lambda>evidence.
         let result = (\<lambda>r. Inr \<lparr>subTask = task, subDisposition = disposition, subSummary = summary,
               subCriteria = criteria, subEvidence = evidence, subReplacement = r\<rparr>) in
         if \<not> distinct (map itemAsset evidence) then Inl invalidAssessment
         else if superseded then
           bindE (taskReferenceOf invalidCandidate (get v ''replacementTask'')) (\<lambda>r.
             if task = r then Inl invalidAssessment else result (Some r))
         else result None))
     | _ \<Rightarrow> Inl invalidAssessment))))"

section \<open>Assessments\<close>

definition strayItem :: "criterionOutcome list \<Rightarrow> evidenceItem \<Rightarrow> bool" where
  "strayItem outs i \<longleftrightarrow> (case itemCriterion i of None \<Rightarrow> False | Some c \<Rightarrow> c \<notin> outCriterion ` set outs)"

definition checkCriterion :: "submission \<Rightarrow> jstr list \<Rightarrow> criterionAssessment \<Rightarrow> exn + jstr list" where
  "checkCriterion sub seen a =
     (if caCriterion a \<in> set seen then Inl invalidAssessment
      else case keyed outCriterion (subCriteria sub) (caCriterion a) of
        None \<Rightarrow> Inl invalidAssessment
      | Some x \<Rightarrow>
          if outDisposition x \<noteq> caDisposition a then Inl invalidAssessment
          else if caRequired a \<and> caDisposition a = SkippedD then Inl invalidAssessment
          else if caRequired a \<and> caDisposition a = WaivedD \<and> outAuthority x = None then Inl invalidAssessment
          else bindE (assertEvidenceCounts (caEvidence a)
            (filter (\<lambda>i. itemCriterion i = Some (caCriterion a)) (subEvidence sub))) (\<lambda>_.
            Inr (seen @ [caCriterion a])))"

definition validateAccountingAssessment :: "val \<Rightarrow> exn + accounting" where
  "validateAccountingAssessment v =
     bindE (assertAllowedKeys v [''submission'', ''criteria'', ''taskEvidence'', ''completionEvidenceSatisfied''] []
       invalidAssessment) (\<lambda>_.
     bindE (completionSubmission (get v ''submission'')) (\<lambda>sub.
     case (arrOf (get v ''criteria''), arrOf (get v ''taskEvidence'')) of
       (Some cs, Some es) \<Rightarrow>
         bindE (mapE criterionAssessmentIn cs) (\<lambda>criteria.
         bindE (mapE evidenceRequirementAssessment es) (\<lambda>taskEvidence.
         bindE (boolOf invalidAssessment (get v ''completionEvidenceSatisfied'')) (\<lambda>b.
         if \<not> distinct (map outCriterion (subCriteria sub)) then Inl invalidAssessment
         else if list_ex (strayItem (subCriteria sub)) (subEvidence sub) then Inl invalidAssessment
         else bindE (assertUniqueEvidenceKinds taskEvidence) (\<lambda>_.
         bindE (assertEvidenceCounts taskEvidence (filter (\<lambda>i. itemCriterion i = None) (subEvidence sub))) (\<lambda>_.
         bindE (foldE (checkCriterion sub) [] criteria) (\<lambda>seen.
         if length (subCriteria sub) \<noteq> length seen \<or> list_ex (\<lambda>x. outCriterion x \<notin> set seen) (subCriteria sub)
         then Inl invalidAssessment
         else let satisfied = list_all assSatisfied taskEvidence \<and> list_all caSatisfied criteria in
           if satisfied \<noteq> b then Inl invalidAssessment
           else Inr \<lparr>accSubmission = sub, accCriteria = criteria, accTaskEvidence = taskEvidence, accSatisfied = b\<rparr>))))))
     | _ \<Rightarrow> Inl invalidAssessment))"

definition digestAccountingAssessment :: "val \<Rightarrow> sha256 \<Rightarrow> exn + jstr" where
  "digestAccountingAssessment v sha =
     bindE (snapshotCanonical invalidAssessment v) (\<lambda>snapshot.
     bindE (validateAccountingAssessment snapshot) (\<lambda>a. canonicalDigest (encAccounting a) sha))"

end
