(* ===== verification/AssessmentProperties.thy ===== *)
theory AssessmentProperties
  imports Assessments CompletionProperties
begin

text \<open>
  The validation of an assessment by itself (candidates.ts) against the computation of the
  assessment (completion.ts): both read submissions alike, and what is computed is valid.
\<close>

section \<open>Reading a submission\<close>

lemma criterionOutcomeIn_eq_Inr: "criterionOutcomeIn v = Inr x \<longleftrightarrow> criterionOutcomeOf v = Inr x"
  by (simp add: criterionOutcomeIn_def criterionOutcomeOf_def Let_def bindE_eq_Inr strIf_eq_Inr assertAllowedKeys_eq_Inr
      case_option_Inr if_Inl_eq_Inr)

lemma evidenceAttachment_eq_Inr: "evidenceAttachment v = Inr x \<longleftrightarrow> evidenceItemOf v = Inr x"
  by (cases "hasOwn v (lit ''criterionId'')")
    (simp_all add: evidenceAttachment_def evidenceItemOf_def Let_def bindE_eq_Inr strIf_eq_Inr assertAllowedKeys_eq_Inr)

lemma taskReference_error: "taskReferenceOf e v = Inr t \<longleftrightarrow> taskReferenceOf e' v = Inr t"
  by (simp add: taskReferenceOf_def bindE_eq_Inr strIf_eq_Inr assertAllowedKeys_eq_Inr generationOf_eq_Inr digestOf_eq_Inr)

lemma mapE_same: "(\<And>v x. f v = Inr x \<longleftrightarrow> g v = Inr x) \<Longrightarrow> mapE f vs = Inr xs \<longleftrightarrow> mapE g vs = Inr xs"
  by (simp add: mapE_eq_Inr)

lemma mapE_enc: "(\<And>x. x \<in> set xs \<Longrightarrow> f (g x) = Inr x) \<Longrightarrow> mapE f (map g xs) = Inr xs"
  by (induction xs) simp_all

lemma distinct_terminal: "enumOf dispositionStr [CompletedT, BlockedT, WaivedT, SkippedT, SupersededT] v = Some d \<Longrightarrow>
    v = Str (lit ''superseded'') \<longleftrightarrow> d = SupersededT"
  by (cases d) (auto dest!: enumOf_eq_Some simp: enumText_def)

lemma optional_key:
  assumes "\<not> list_ex (\<lambda>k. k = r) ks"
  shows "assertAllowedKeys v (ks @ (if b then [r] else [])) [] e = Inr () \<longleftrightarrow>
     assertAllowedKeys v ks [r] e' = Inr () \<and> (hasOwn v (lit r) \<longleftrightarrow> b)"
proof -
  have r: "lit r \<notin> lit ` set ks" using assms by (auto simp: list_ex_iff)
  have "A \<subseteq> insert x B \<and> x \<notin> A \<longleftrightarrow> A \<subseteq> B" if "x \<notin> B" for A B and x :: jstr using that by blast
  from this [OF r, of "set (keys v)"] show ?thesis
    by (cases b) (auto simp: assertAllowedKeys_eq_Inr hasOwn_def)
qed

lemma submission_keys:
  "assertAllowedKeys v ([''task'', ''disposition'', ''summary'', ''criteria'', ''completionEvidence''] @
     (if b then [''replacementTask''] else [])) [] invalidAssessment = Inr () \<longleftrightarrow>
   assertAllowedKeys v [''task'', ''disposition'', ''summary'', ''criteria'', ''completionEvidence''] [''replacementTask'']
     (completionError CInvalidSubmission) = Inr () \<and> (hasOwn v (lit ''replacementTask'') \<longleftrightarrow> b)"
  by (rule optional_key) simp

lemma allowed_record: "assertAllowedKeys v ks os e = Inr u \<Longrightarrow> isRecord v"
  by (simp add: assertAllowedKeys_eq_Inr)

lemma completionSubmission_eq_Inr:
  "completionSubmission v = Inr s \<longleftrightarrow> validateSubmission v = Inr s \<and> distinct (map itemAsset (subEvidence s))"
proof (cases "enumOf dispositionStr [CompletedT, BlockedT, WaivedT, SkippedT, SupersededT] (get v ''disposition'')")
  case None
  then show ?thesis by (simp add: completionSubmission_def validateSubmission_def Let_def bindE_eq_Inr)
next
  case (Some d)
  note sup = distinct_terminal [OF Some]
  note task = taskReference_error [of "completionError CInvalidSubmission" _ _ invalidCandidate]
    taskReference_error [of "completionError CInvalidSupersession" _ _ invalidCandidate]
  show ?thesis
  proof (cases "\<exists>cs es. get v ''criteria'' = Arr cs \<and> get v ''completionEvidence'' = Arr es")
    case True
    then obtain cs es where arr: "arrOf (get v ''criteria'') = Some cs" "arrOf (get v ''completionEvidence'') = Some es" by auto
    show ?thesis
      unfolding completionSubmission_def validateSubmission_def Let_def Some arr option.case prod.case bindE_eq_Inr
        if_Inl_eq_Inr sup mapE_same [OF criterionOutcomeIn_eq_Inr]
        mapE_same [OF evidenceAttachment_eq_Inr] task strIf_eq_Inr
      by (cases "d = SupersededT") (auto simp: bindE_eq_Inr if_Inl_eq_Inr task submission_keys [where b = True, simplified]
        submission_keys [where b = False, simplified] dest: allowed_record)
  next
    case False
    then have "arrOf (get v ''criteria'') = None \<or> arrOf (get v ''completionEvidence'') = None"
      by (metis arrOf_eq_Some not_Some_eq)
    then show ?thesis
      by (auto simp: completionSubmission_def validateSubmission_def Let_def Some bindE_eq_Inr split: option.splits)
  qed
qed

section \<open>Assessments\<close>

text \<open>An assessment that is consistent in itself.\<close>

definition countedIn :: "evidenceItem list \<Rightarrow> evidenceAssessment \<Rightarrow> bool" where
  "countedIn items x \<longleftrightarrow> isSafe (assMinimum x) \<and> 1 \<le> assMinimum x \<and> isSafe (assCount x) \<and>
     assCount x = int (length (filter (\<lambda>i. canonicalSerialize (itemKind i) = canonicalSerialize (assKind x)) items)) \<and>
     (assSatisfied x \<longleftrightarrow> assMinimum x \<le> assCount x)"

definition consistentCriterion :: "submission \<Rightarrow> criterionAssessment \<Rightarrow> bool" where
  "consistentCriterion sub c \<longleftrightarrow> isIdentity CriterionKind (Str (caCriterion c)) \<and>
     (\<exists>x. keyed outCriterion (subCriteria sub) (caCriterion c) = Some x \<and> outDisposition x = caDisposition c \<and>
        (caRequired c \<longrightarrow> caDisposition c \<noteq> SkippedD \<and> (caDisposition c = WaivedD \<longrightarrow> outAuthority x \<noteq> None))) \<and>
     (\<forall>x\<in>set (caEvidence c). countedIn (filter (\<lambda>i. itemCriterion i = Some (caCriterion c)) (subEvidence sub)) x) \<and>
     distinct (map (canonicalSerialize \<circ> assKind) (caEvidence c)) \<and>
     (caSatisfied c \<longleftrightarrow> (\<forall>x\<in>set (caEvidence c). assSatisfied x))"

definition consistentAccounting :: "accounting \<Rightarrow> bool" where
  "consistentAccounting a \<longleftrightarrow> (let sub = accSubmission a in
     okSubmission sub \<and> distinct (map itemAsset (subEvidence sub)) \<and> distinct (map outCriterion (subCriteria sub)) \<and>
     (\<forall>i\<in>set (subEvidence sub). \<forall>c. itemCriterion i = Some c \<longrightarrow> c \<in> outCriterion ` set (subCriteria sub)) \<and>
     distinct (map caCriterion (accCriteria a)) \<and> caCriterion ` set (accCriteria a) = outCriterion ` set (subCriteria sub) \<and>
     (\<forall>c\<in>set (accCriteria a). consistentCriterion sub c) \<and>
     (\<forall>x\<in>set (accTaskEvidence a). countedIn (filter (\<lambda>i. itemCriterion i = None) (subEvidence sub)) x) \<and>
     distinct (map (canonicalSerialize \<circ> assKind) (accTaskEvidence a)) \<and>
     (accSatisfied a \<longleftrightarrow> (\<forall>x\<in>set (accTaskEvidence a). assSatisfied x) \<and> (\<forall>c\<in>set (accCriteria a). caSatisfied c)))"

lemma checkCriterion_eq_Inr:
  "checkCriterion sub seen c = Inr seen' \<longleftrightarrow> seen' = seen @ [caCriterion c] \<and> caCriterion c \<notin> set seen \<and>
     (\<exists>x. keyed outCriterion (subCriteria sub) (caCriterion c) = Some x \<and> outDisposition x = caDisposition c \<and>
        (caRequired c \<longrightarrow> caDisposition c \<noteq> SkippedD \<and> (caDisposition c = WaivedD \<longrightarrow> outAuthority x \<noteq> None))) \<and>
     assertEvidenceCounts (caEvidence c) (filter (\<lambda>i. itemCriterion i = Some (caCriterion c)) (subEvidence sub)) = Inr ()"
  by (auto simp: checkCriterion_def case_option_Inr if_Inl_eq_Inr bindE_eq_Inr)

lemma checkCriteria:
  "foldE (checkCriterion sub) seen cs = Inr seen' \<longleftrightarrow> seen' = seen @ map caCriterion cs \<and>
     distinct (map caCriterion cs) \<and> set seen \<inter> caCriterion ` set cs = {} \<and>
     (\<forall>c\<in>set cs. checkCriterion sub [] c = Inr [caCriterion c])"
  by (induction cs arbitrary: seen) (auto simp: bindE_eq_Inr checkCriterion_eq_Inr)

lemma evidenceIn_eq_Inr:
  "evidenceRequirementAssessment v = Inr x \<Longrightarrow> isSafe (assMinimum x) \<and> 1 \<le> assMinimum x \<and> isSafe (assCount x) \<and> 0 \<le> assCount x \<and>
     (assSatisfied x \<longleftrightarrow> assMinimum x \<le> assCount x)"
  by (auto simp: evidenceRequirementAssessment_def bindE_eq_Inr if_Inl_eq_Inr boolOf_eq_Inr safeInt_eq_Some posSafeInt_eq_Some
      split: option.splits)

lemma evidenceIn_enc:
  assumes "countedIn items x"
  shows "evidenceRequirementAssessment (encEvidenceAssessment x) = Inr x"
  using assms
  by (cases x) (auto simp: countedIn_def evidenceRequirementAssessment_def encEvidenceAssessment_def bindE_eq_Inr
      assertAllowedKeys_eq_Inr posSafeInt_def safeInt_def boolOf_def)

lemma evidences_enc:
  "\<forall>x\<in>set xs. countedIn items x \<Longrightarrow> mapE evidenceRequirementAssessment (map encEvidenceAssessment xs) = Inr xs"
  by (induction xs) (simp_all add: evidenceIn_enc [of items])

lemma counts_iff:
  assumes "mapE evidenceRequirementAssessment vs = Inr xs"
  shows "assertEvidenceCounts xs items = Inr () \<longleftrightarrow> (\<forall>x\<in>set xs. countedIn items x)"
  using mapE_in_set [OF assms] evidenceIn_eq_Inr
  by (auto simp: assertEvidenceCounts_def forE_eq_Inr countedIn_def)

lemma counts_enc: "\<forall>x\<in>set xs. countedIn items x \<Longrightarrow> assertEvidenceCounts xs items = Inr ()"
  by (auto simp: assertEvidenceCounts_def forE_eq_Inr countedIn_def)

lemma kinds_iff: "assertUniqueEvidenceKinds xs = Inr () \<longleftrightarrow> distinct (map (canonicalSerialize \<circ> assKind) xs)"
  by (simp add: assertUniqueEvidenceKinds_def)

lemma criterionIn_parts:
  assumes "criterionAssessmentIn v = Inr c"
  obtains es where "isIdentity CriterionKind (Str (caCriterion c))" "mapE evidenceRequirementAssessment es = Inr (caEvidence c)"
    "distinct (map (canonicalSerialize \<circ> assKind) (caEvidence c))" "caSatisfied c \<longleftrightarrow> (\<forall>x\<in>set (caEvidence c). assSatisfied x)"
  using assms
  by (auto simp: criterionAssessmentIn_def bindE_eq_Inr if_Inl_eq_Inr strIf_eq_Inr boolOf_eq_Inr case_option_Inr kinds_iff
      list_all_iff)

lemma criterionIn_enc:
  assumes "consistentCriterion sub c"
  shows "criterionAssessmentIn (encCriterionAssessment c) = Inr c"
proof -
  have "mapE evidenceRequirementAssessment (map encEvidenceAssessment (caEvidence c)) = Inr (caEvidence c)"
    by (rule evidences_enc [of _ "filter (\<lambda>i. itemCriterion i = Some (caCriterion c)) (subEvidence sub)"])
      (use assms in \<open>simp add: consistentCriterion_def\<close>)
  moreover have "enumOf criterionDispositionStr [SatisfiedD, UnsatisfiedD, WaivedD, SkippedD]
      (enumText criterionDispositionStr (caDisposition c)) = Some (caDisposition c)" by (rule enum_reads) (rule all_words)
  moreover have "get (encCriterionAssessment c) ''criterionId'' = Str (caCriterion c)"
    "get (encCriterionAssessment c) ''required'' = Bool (caRequired c)"
    "get (encCriterionAssessment c) ''disposition'' = enumText criterionDispositionStr (caDisposition c)"
    "get (encCriterionAssessment c) ''completionEvidence'' = Arr (map encEvidenceAssessment (caEvidence c))"
    "get (encCriterionAssessment c) ''completionEvidenceSatisfied'' = Bool (caSatisfied c)"
    "assertAllowedKeys (encCriterionAssessment c) [''criterionId'', ''required'', ''disposition'', ''completionEvidence'',
       ''completionEvidenceSatisfied''] [] invalidAssessment = Inr ()"
    by (simp_all add: encCriterionAssessment_def assertAllowedKeys_eq_Inr)
  moreover have "strIf (isIdentity CriterionKind) invalidAssessment (Str (caCriterion c)) = Inr (caCriterion c)"
    using assms by (simp add: strIf_eq_Inr consistentCriterion_def)
  moreover have "assertUniqueEvidenceKinds (caEvidence c) = Inr ()" "list_all assSatisfied (caEvidence c) = caSatisfied c"
    using assms by (simp_all add: kinds_iff consistentCriterion_def list_all_iff)
  ultimately show ?thesis by (cases c) (simp add: criterionAssessmentIn_def boolOf_def)
qed

lemma validateAccounting_consistent:
  assumes "validateAccountingAssessment v = Inr a"
  shows "consistentAccounting a"
proof -
  let ?sub = "accSubmission a"
  from assms obtain cs es where sub: "completionSubmission (get v ''submission'') = Inr ?sub"
      and cs: "mapE criterionAssessmentIn cs = Inr (accCriteria a)"
      and es: "mapE evidenceRequirementAssessment es = Inr (accTaskEvidence a)"
      and outs: "distinct (map outCriterion (subCriteria ?sub))"
      and items: "\<not> list_ex (strayItem (subCriteria ?sub)) (subEvidence ?sub)"
      and task: "assertUniqueEvidenceKinds (accTaskEvidence a) = Inr ()"
        "assertEvidenceCounts (accTaskEvidence a) (filter (\<lambda>i. itemCriterion i = None) (subEvidence ?sub)) = Inr ()"
      and crit: "foldE (checkCriterion ?sub) [] (accCriteria a) = Inr (map caCriterion (accCriteria a))"
      and all: "\<not> list_ex (\<lambda>x. outCriterion x \<notin> set (map caCriterion (accCriteria a))) (subCriteria ?sub)"
      and sat: "accSatisfied a \<longleftrightarrow> list_all assSatisfied (accTaskEvidence a) \<and> list_all caSatisfied (accCriteria a)"
    unfolding validateAccountingAssessment_def bindE_eq_Inr
    by (auto simp: case_option_Inr bindE_eq_Inr if_Inl_eq_Inr Let_def boolOf_eq_Inr checkCriteria)
  have c: "consistentCriterion ?sub c" if c: "c \<in> set (accCriteria a)" for c
  proof -
    obtain w where "criterionAssessmentIn w = Inr c" using mapE_in_set [OF cs c] by blast
    then obtain es where p: "isIdentity CriterionKind (Str (caCriterion c))" "mapE evidenceRequirementAssessment es = Inr (caEvidence c)"
      "distinct (map (canonicalSerialize \<circ> assKind) (caEvidence c))" "caSatisfied c \<longleftrightarrow> (\<forall>x\<in>set (caEvidence c). assSatisfied x)"
      by (rule criterionIn_parts)
    have "checkCriterion ?sub [] c = Inr [caCriterion c]" using crit c unfolding checkCriteria by blast
    then show ?thesis using p(1,3,4) counts_iff [OF p(2)] by (auto simp: consistentCriterion_def checkCriterion_eq_Inr)
  qed
  have "caCriterion ` set (accCriteria a) = outCriterion ` set (subCriteria ?sub)"
  proof
    show "caCriterion ` set (accCriteria a) \<subseteq> outCriterion ` set (subCriteria ?sub)"
      using c by (auto simp: consistentCriterion_def image_iff dest!: keyed_Some) (metis c consistentCriterion_def keyed_Some)
    show "outCriterion ` set (subCriteria ?sub) \<subseteq> caCriterion ` set (accCriteria a)" using all by (auto simp: list_ex_iff)
  qed
  moreover have "okSubmission ?sub" "distinct (map itemAsset (subEvidence ?sub))"
    using sub validateSubmission_ok by (auto simp: completionSubmission_eq_Inr)
  moreover have "\<forall>i\<in>set (subEvidence ?sub). \<forall>c. itemCriterion i = Some c \<longrightarrow> c \<in> outCriterion ` set (subCriteria ?sub)"
    using items by (force simp: list_ex_iff strayItem_def)
  moreover have "distinct (map caCriterion (accCriteria a))" using crit by (simp add: checkCriteria)
  ultimately show ?thesis using outs c task(1) task(2) sat
    by (simp add: consistentAccounting_def Let_def kinds_iff counts_iff [OF es] list_all_iff)
qed

lemma validateAccounting_enc:
  assumes "consistentAccounting a"
  shows "validateAccountingAssessment (encAccounting a) = Inr a"
proof -
  let ?sub = "accSubmission a"
  note ok = assms [unfolded consistentAccounting_def Let_def]
  have "completionSubmission (encSubmission ?sub) = Inr ?sub"
    using ok submissions.dec_enc by (simp add: completionSubmission_eq_Inr)
  moreover have "mapE criterionAssessmentIn (map encCriterionAssessment (accCriteria a)) = Inr (accCriteria a)"
    by (rule mapE_enc) (use ok criterionIn_enc in blast)
  moreover have "mapE evidenceRequirementAssessment (map encEvidenceAssessment (accTaskEvidence a)) = Inr (accTaskEvidence a)"
    by (rule evidences_enc) (use ok in blast)
  moreover have "foldE (checkCriterion ?sub) [] (accCriteria a) = Inr (map caCriterion (accCriteria a))"
    using ok counts_enc by (auto simp: checkCriteria checkCriterion_eq_Inr consistentCriterion_def)
  moreover have "length (subCriteria ?sub) = length (accCriteria a)"
    using ok by (metis distinct_card length_map set_map)
  moreover have "assertUniqueEvidenceKinds (accTaskEvidence a) = Inr ()"
    "assertEvidenceCounts (accTaskEvidence a) (filter (\<lambda>i. itemCriterion i = None) (subEvidence ?sub)) = Inr ()"
    using ok counts_enc by (simp_all add: kinds_iff)
  moreover have "\<not> list_ex (strayItem (subCriteria ?sub)) (subEvidence ?sub)"
    using ok by (auto simp: list_ex_iff strayItem_def split: option.splits)
  moreover have "\<not> list_ex (\<lambda>x. outCriterion x \<notin> caCriterion ` set (accCriteria a)) (subCriteria ?sub)"
    using ok by (auto simp: list_ex_iff)
  moreover have "(list_all assSatisfied (accTaskEvidence a) \<and> list_all caSatisfied (accCriteria a)) = accSatisfied a"
    using ok by (simp add: list_all_iff)
  moreover have "distinct (map outCriterion (subCriteria ?sub))" using ok by blast
  moreover have "get (encAccounting a) ''submission'' = encSubmission ?sub"
    "get (encAccounting a) ''criteria'' = Arr (map encCriterionAssessment (accCriteria a))"
    "get (encAccounting a) ''taskEvidence'' = Arr (map encEvidenceAssessment (accTaskEvidence a))"
    "get (encAccounting a) ''completionEvidenceSatisfied'' = Bool (accSatisfied a)"
    "assertAllowedKeys (encAccounting a) [''submission'', ''criteria'', ''taskEvidence'', ''completionEvidenceSatisfied''] []
       invalidAssessment = Inr ()"
    by (simp_all add: encAccounting_def assertAllowedKeys_eq_Inr)
  ultimately show ?thesis by (cases a) (simp add: validateAccountingAssessment_def boolOf_def)
qed

interpretation assessments: codec validateAccountingAssessment encAccounting consistentAccounting
  by unfold_locales (rule validateAccounting_consistent, assumption, rule validateAccounting_enc)

section \<open>Computed assessments\<close>

lemma assessed_counted:
  assumes "okEvidenceRequirements rs" "length items \<le> n" "int n \<le> maxSafe"
  shows "\<forall>x\<in>set (assessEvidence rs items). countedIn items x" "distinct (map (canonicalSerialize \<circ> assKind) (assessEvidence rs items))"
proof -
  have "isSafe (int (length (filter P items)))" for P
  proof -
    have "length (filter P items) \<le> n" using length_filter_le assms(2) by (rule le_trans)
    then have "int (length (filter P items)) \<le> maxSafe" using assms(3) by linarith
    then show ?thesis by (simp add: isSafe_def maxSafe_def)
  qed
  then show "\<forall>x\<in>set (assessEvidence rs items). countedIn items x"
    using assms(1) by (auto simp: assessEvidence_def countedIn_def okEvidenceRequirements_def Let_def)
  have "map (canonicalSerialize \<circ> assKind) (assessEvidence rs items) = map (canonicalSerialize \<circ> evKind) rs"
    by (simp add: assessEvidence_def Let_def)
  then show "distinct (map (canonicalSerialize \<circ> assKind) (assessEvidence rs items))"
    using assms(1) by (simp only: okEvidenceRequirements_def)
qed

lemma none_counted: "\<forall>x\<in>set []. countedIn items x" "distinct (map (canonicalSerialize \<circ> assKind) [])"
  by simp_all

lemma computed_consistent:
  assumes "assessCompletionSnapshots r s = Inr a" "int (length (subEvidence (accSubmission a))) \<le> maxSafe"
  shows "consistentAccounting a"
proof -
  let ?sub = "accSubmission a"
  from assess_parts [OF assms(1)] obtain reqs where reqs: "validateRequirements r = Inr reqs" "validateSubmission s = Inr ?sub"
    and outs: "foldE (accountOutcome reqs) [] (subCriteria ?sub) = Inr (map outCriterion (subCriteria ?sub))"
    and all: "reqCriterion ` set (policyCriteria reqs) \<subseteq> outCriterion ` set (subCriteria ?sub)"
    and refs: "assertEvidenceReferences (subEvidence ?sub) (policyCriteria reqs) = Inr ()"
    and cas: "mapE (assessCriterion reqs ?sub) (policyCriteria reqs) = Inr (accCriteria a)"
    and task: "accTaskEvidence a = (if policyMode (policyEvidence reqs) = TaskEvidence
       then assessEvidence (policyRequirements (policyEvidence reqs))
         (filter (\<lambda>x. itemCriterion x = None) (subEvidence ?sub)) else [])"
    and sat: "accSatisfied a = (list_all assSatisfied (accTaskEvidence a) \<and> list_all caSatisfied (accCriteria a))" by blast
  have ok: "okCriteria (policyCriteria reqs)" "okEvidenceRequirements (policyRequirements (policyEvidence reqs))"
    using validateRequirements_ok [OF reqs(1)] by (simp_all add: okCompletion_def okEvidencePolicy_def)
  then have cs: "distinct (map reqCriterion (policyCriteria reqs))" by (simp add: okCriteria_def)
  note counted = assessed_counted [OF ok(2) length_filter_le assms(2)]
  have known: "outCriterion ` set (subCriteria ?sub) = reqCriterion ` set (policyCriteria reqs)"
    using outcomes_declared(2) [OF outs] all by blast
  have c: "consistentCriterion ?sub ca \<and> caCriterion ca = reqCriterion c"
    if c: "c \<in> set (policyCriteria reqs)" and ca: "assessCriterion reqs ?sub c = Inr ca" for c ca
  proof -
    from ca obtain x where x: "keyed outCriterion (subCriteria ?sub) (reqCriterion c) = Some x"
      "caCriterion ca = reqCriterion c" "caRequired ca = reqRequired c" "caDisposition ca = outDisposition x"
      "caEvidence ca = (if evidenceDue (policyMode (policyEvidence reqs)) (reqRequired c) (outDisposition x)
         then assessEvidence (policyRequirements (policyEvidence reqs))
           (filter (\<lambda>x. itemCriterion x = Some (reqCriterion c)) (subEvidence ?sub)) else [])"
      "caSatisfied ca = list_all assSatisfied (caEvidence ca)"
      by (auto simp: assessCriterion_def Let_def split: option.splits)
    from keyed_Some [OF x(1)] outs obtain r' where "keyed reqCriterion (policyCriteria reqs) (reqCriterion c) = Some r'"
      "assertCriterionOutcome r' x (policyEvidence reqs) = Inr ()" by (auto simp: accountOutcomes)
    moreover from this(1) have "r' = c" using c by (simp add: keyed_Some_iff [OF cs])
        (metis c cs distinct_map inj_onD)
    ultimately have "reqRequired c \<longrightarrow> outDisposition x \<noteq> SkippedD \<and> (outDisposition x = WaivedD \<longrightarrow> outAuthority x \<noteq> None)"
      by (auto simp: assertCriterionOutcome_ok)
    then show ?thesis using x counted ok(1) c
      by (auto simp: consistentCriterion_def list_all_iff okCriteria_def)
  qed
  have ids: "map caCriterion (accCriteria a) = map reqCriterion (policyCriteria reqs)"
    using cas c by (auto simp: mapE_eq_Inr list_all2_conv_all_nth list_eq_iff_nth_eq)
  then have "caCriterion ` set (accCriteria a) = outCriterion ` set (subCriteria ?sub)"
    unfolding known by (metis set_map)
  moreover have "distinct (map caCriterion (accCriteria a))" using cs by (simp only: ids)
  moreover have "\<forall>ca\<in>set (accCriteria a). consistentCriterion ?sub ca" using mapE_in_set [OF cas] c by blast
  moreover have "(\<forall>x\<in>set (accTaskEvidence a). countedIn (filter (\<lambda>x. itemCriterion x = None) (subEvidence ?sub)) x) \<and>
      distinct (map (canonicalSerialize \<circ> assKind) (accTaskEvidence a))"
    using counted by (simp add: task)
  moreover have "distinct (map itemAsset (subEvidence ?sub))"
    "\<forall>i\<in>set (subEvidence ?sub). \<forall>c. itemCriterion i = Some c \<longrightarrow> c \<in> outCriterion ` set (subCriteria ?sub)"
    using refs by (simp_all add: assertEvidenceReferences_ok known)
  moreover have "distinct (map outCriterion (subCriteria ?sub))" using outs by (simp add: accountOutcomes)
  ultimately show ?thesis using validateSubmission_ok [OF reqs(2)] sat
    by (simp add: consistentAccounting_def Let_def list_all_iff)
qed

text \<open>C25. An assessment can be checked without the requirements it was made under: what the validation
  accepts are exactly the consistent assessments, with every count recomputed from the submission, every
  verdict implied by the counts and the criteria matching the outcomes one to one; and every
  assessment the kernel computes is one of them, so that its digest is the one a candidate records.\<close>

theorem assessment_selfcheck:
  "((\<exists>v. validateAccountingAssessment v = Inr a) \<longleftrightarrow> consistentAccounting a) \<and>
   (assessCompletionAccounting r s = Inr a \<and> int (length (subEvidence (accSubmission a))) \<le> maxSafe \<longrightarrow>
     consistentAccounting a \<and>
     digestAccountingAssessment (encAccounting a) sha = canonicalDigest (encAccounting a) sha)"
proof (intro conjI impI)
  show "(\<exists>v. validateAccountingAssessment v = Inr a) \<longleftrightarrow> consistentAccounting a" by (rule assessments.accepted_iff)
  assume "assessCompletionAccounting r s = Inr a \<and> int (length (subEvidence (accSubmission a))) \<le> maxSafe"
  then have a: "assessCompletionSnapshots r s = Inr a" "is_json r" "is_json s"
      and len: "int (length (subEvidence (accSubmission a))) \<le> maxSafe" by (simp_all add: assessCompletionAccounting_def err_simps)
  show ok: "consistentAccounting a" by (rule computed_consistent [OF a(1) len])
  have "is_json (encAccounting a)" by (rule encAccounting_json [OF a len])
  with assessments.dec_enc [OF ok]
  show "digestAccountingAssessment (encAccounting a) sha = canonicalDigest (encAccounting a) sha"
    by (simp add: digestAccountingAssessment_def snapshotCanonical_def)
qed

theorem assessment_selfcheck_witness:
  "digestAccountingAssessment (encAccounting demoAccounting) flatSha = Inr (replicate 64 48)"
proof -
  have "int (length (subEvidence (accSubmission demoAccounting))) \<le> maxSafe"
    by (simp add: demoAccounting_def demoSubmission_def maxSafe_def)
  with assessment_selfcheck [of demoAccounting] demo_assessed show ?thesis by (metis flatSha_digest)
qed

end
