(* ===== verification/Lifecycle.thy ===== *)
theory Lifecycle
  imports Budgets Candidates
begin

text \<open>
  packages/kernel/src/lifecycle.ts: the projection of a phase from its current records, with the
  status it is in, what people are asked for, and the digests of the records it was made from.
\<close>

abbreviation lifecycleError :: "lifecycle_code \<Rightarrow> exn" where
  "lifecycleError \<equiv> LifecycleError"

abbreviation invalidInput :: exn where
  "invalidInput \<equiv> LifecycleError LInvalidInput"

section \<open>Data\<close>

datatype approvalScope = PhaseScope | MemberScope

datatype approvalPolicy = NoApprovalPolicy | RequiredApprovalPolicy val "approvalScope option"

datatype lifecycleStatus = AwaitingCompletion | AwaitingGate | GateRejected | AwaitingApproval
  | ApprovalRejected | AwaitingClosure | Closed | Escalated

record taskAccount =
  taTask :: taskGenRef
  taDigest :: jstr
  taDisposition :: terminalDisposition
  taSummary :: jstr

record taskAccounting =
  selectedCount :: int
  accountedCount :: int
  dispositionCounts :: "(terminalDisposition \<times> int) list"
  taskAccounts :: "taskAccount list"

datatype humanNeed = ApprovalNeed jstr val | EscalationNeed escalation

record lifecycleRecords =
  recCandidate :: "jstr option"
  recGateEvaluation :: "jstr option"
  recDecision :: "jstr option"
  recClosure :: "jstr option"
  recEscalations :: "jstr list"

record lifecycleContent =
  projPhase :: phaseRef
  projStatus :: lifecycleStatus
  projPolicy :: approvalPolicy
  projEscalationPolicy :: jstr
  projTasks :: taskAccounting
  projNeeds :: "humanNeed list"
  projRecords :: lifecycleRecords

record lifecycleProjection = lifecycleContent +
  projectionDigest :: jstr

fun scopeStr :: "approvalScope \<Rightarrow> string" where
  "scopeStr PhaseScope = ''phase''"
| "scopeStr MemberScope = ''member''"

fun lifecycleStatusStr :: "lifecycleStatus \<Rightarrow> string" where
  "lifecycleStatusStr AwaitingCompletion = ''awaiting-completion''"
| "lifecycleStatusStr AwaitingGate = ''awaiting-gate''"
| "lifecycleStatusStr GateRejected = ''gate-rejected''"
| "lifecycleStatusStr AwaitingApproval = ''awaiting-approval''"
| "lifecycleStatusStr ApprovalRejected = ''approval-rejected''"
| "lifecycleStatusStr AwaitingClosure = ''awaiting-closure''"
| "lifecycleStatusStr Closed = ''closed''"
| "lifecycleStatusStr Escalated = ''escalated''"

section \<open>Plain values\<close>

fun encApprovalPolicy :: "approvalPolicy \<Rightarrow> val" where
  "encApprovalPolicy NoApprovalPolicy = Obj [(lit ''policy'', Str (lit ''no-approval''))]"
| "encApprovalPolicy (RequiredApprovalPolicy authority sc) = Obj ([(lit ''policy'', Str (lit ''approval-required'')),
     (lit ''authority'', authority)] @ optionalField ''scope'' (enumText scopeStr) sc)"

definition encTaskAccount :: "taskAccount \<Rightarrow> val" where
  "encTaskAccount a = Obj [(lit ''task'', encTaskRef (taTask a)), (lit ''assessmentDigest'', Str (taDigest a)),
     (lit ''disposition'', enumText dispositionStr (taDisposition a)), (lit ''summary'', Str (taSummary a))]"

definition encTaskAccounting :: "taskAccounting \<Rightarrow> val" where
  "encTaskAccounting a = Obj [(lit ''selectedCount'', Num (Whole (selectedCount a))),
     (lit ''accountedCount'', Num (Whole (accountedCount a))),
     (lit ''dispositionCounts'', Obj (map (\<lambda>(d, n). (lit (dispositionStr d), Num (Whole n))) (dispositionCounts a))),
     (lit ''accounts'', Arr (map encTaskAccount (taskAccounts a)))]"

fun encHumanNeed :: "humanNeed \<Rightarrow> val" where
  "encHumanNeed (ApprovalNeed candidate authority) = Obj [(lit ''kind'', Str (lit ''approval'')),
     (lit ''candidateDigest'', Str candidate), (lit ''authority'', authority)]"
| "encHumanNeed (EscalationNeed x) = Obj [(lit ''kind'', Str (lit ''escalation'')), (lit ''escalationId'', Str (escalationId x)),
     (lit ''escalationDigest'', Str (escalationDigest x)), (lit ''owner'', encOwner (owner x)),
     (lit ''trigger'', encTrigger (trigger x)), (lit ''contextDigest'', Str (contextDigest x)),
     (lit ''candidateDigest'', Str (escalationContent.candidateDigest x)), (lit ''policyDigest'', Str (escalationPolicy x)),
     (lit ''unresolvedCriterionIds'', Arr (map Str (unresolvedCriteria x))),
     (lit ''failedReadingDigests'', Arr (map Str (failedReadings x))),
     (lit ''unknownReadingDigests'', Arr (map Str (unknownReadings x))),
     (lit ''allowedResponses'', Arr (map (Str \<circ> responseText) (allowedResponses x)))]"

definition encLifecycleRecords :: "lifecycleRecords \<Rightarrow> val" where
  "encLifecycleRecords r = Obj (optionalField ''candidateDigest'' Str (recCandidate r) @
     optionalField ''gateEvaluationDigest'' Str (recGateEvaluation r) @
     optionalField ''authorityDecisionDigest'' Str (recDecision r) @ optionalField ''closureDigest'' Str (recClosure r) @
     [(lit ''escalationDigests'', Arr (map Str (recEscalations r)))])"

definition encLifecycleContent :: "'a lifecycleContent_scheme \<Rightarrow> val" where
  "encLifecycleContent p = Obj [(lit ''phase'', encPhaseRef (projPhase p)),
     (lit ''status'', enumText lifecycleStatusStr (projStatus p)), (lit ''approvalPolicy'', encApprovalPolicy (projPolicy p)),
     (lit ''escalationPolicyDigest'', Str (projEscalationPolicy p)), (lit ''taskAccounting'', encTaskAccounting (projTasks p)),
     (lit ''humanNeeds'', Arr (map encHumanNeed (projNeeds p))), (lit ''records'', encLifecycleRecords (projRecords p))]"

section \<open>Validation of the records\<close>

definition validateApprovalPolicy :: "val \<Rightarrow> exn + approvalPolicy" where
  "validateApprovalPolicy v =
     (if \<not> isRecord v then Inl invalidInput
      else if get v ''policy'' = Str (lit ''no-approval'') then
        bindE (assertExactKeys v [''policy''] invalidInput) (\<lambda>_. Inr NoApprovalPolicy)
      else if get v ''policy'' \<noteq> Str (lit ''approval-required'') then Inl invalidInput
      else bindE (assertExactKeys (without v ''scope'') [''policy'', ''authority''] invalidInput) (\<lambda>_.
        if get v ''scope'' = Undef then Inr (RequiredApprovalPolicy (get v ''authority'') None)
        else case enumOf scopeStr [PhaseScope, MemberScope] (get v ''scope'') of
          None \<Rightarrow> Inl invalidInput
        | Some sc \<Rightarrow> Inr (RequiredApprovalPolicy (get v ''authority'') (Some sc))))"

definition lifecyclePhase :: "val \<Rightarrow> exn + phaseRef" where
  "lifecyclePhase v =
     bindE (assertExactKeys v [''phaseId'', ''definitionGeneration''] invalidInput) (\<lambda>_.
     bindE (strIf (isIdentity PhaseKind) invalidInput (get v ''phaseId'')) (\<lambda>p.
     bindE (generationOf invalidInput (get v ''definitionGeneration'')) (\<lambda>n.
       Inr \<lparr>prPhase = p, prGeneration = n\<rparr>)))"

fun memberScoped :: "approvalPolicy \<Rightarrow> bool" where
  "memberScoped (RequiredApprovalPolicy _ (Some MemberScope)) \<longleftrightarrow> True"
| "memberScoped _ \<longleftrightarrow> False"

text \<open>The decision of a member-scoped phase for a task, by \<open>String(decision.taskId)\<close>.\<close>

definition decidedTask :: "authorityDecision \<Rightarrow> jstr" where
  "decidedTask d = (case decisionTask d of None \<Rightarrow> lit ''undefined'' | Some t \<Rightarrow> t)"

definition undecidedTasks :: "approvalPolicy \<Rightarrow> phaseCandidate option \<Rightarrow> authorityDecision list \<Rightarrow> jstr list" where
  "undecidedTasks policy candidate decisions =
     (if \<not> memberScoped policy then []
      else case candidate of None \<Rightarrow> []
      | Some c \<Rightarrow> filter (\<lambda>t. t \<notin> decidedTask ` set decisions) (map trTask (candTasks c)))"

definition validateDecisionList :: "val \<Rightarrow> sha256 \<Rightarrow> exn + authorityDecision list" where
  "validateDecisionList v sha =
     (if v = Undef then Inr []
      else case arrOf v of None \<Rightarrow> Inl invalidInput
      | Some vs \<Rightarrow> mapE (\<lambda>d. validateAuthorityDecision d sha) vs)"

definition validateEscalations :: "val \<Rightarrow> sha256 \<Rightarrow> exn + escalation list" where
  "validateEscalations v sha =
     (if v = Undef then Inr []
      else case arrOf v of None \<Rightarrow> Inl invalidInput
      | Some vs \<Rightarrow>
          bindE (mapE (\<lambda>x. validateEscalation x sha) vs) (\<lambda>xs.
          if \<not> distinct (map escalationId xs) \<or> \<not> distinct (map escalationDigest xs)
          then Inl (lifecycleError LDuplicateEscalation)
          else Inr (sort_key escalationDigest xs)))"

section \<open>Relations between the records\<close>

definition validateCandidateRelations :: "phaseRef \<Rightarrow> phaseCandidate option \<Rightarrow> exn + unit" where
  "validateCandidateRelations phase candidate =
     (case candidate of Some c \<Rightarrow> if candPhase c \<noteq> phase then Inl (lifecycleError LPhaseMismatch) else Inr ()
      | None \<Rightarrow> Inr ())"

definition validateGateRelations :: "phaseCandidate option \<Rightarrow> gateEvidence option \<Rightarrow> exn + unit" where
  "validateGateRelations candidate evidence =
     (case evidence of None \<Rightarrow> Inr ()
      | Some ev \<Rightarrow> (case candidate of None \<Rightarrow> Inl (lifecycleError LCandidateRequired)
         | Some c \<Rightarrow> if policyDigest (evidenceDefinition ev) \<noteq> candGatePolicy c
             then Inl (lifecycleError LGatePolicyMismatch) else Inr ()))"

definition decisionRelations ::
  "approvalPolicy \<Rightarrow> phaseCandidate option \<Rightarrow> gateEvaluation option \<Rightarrow> authorityDecision \<Rightarrow> exn + unit" where
  "decisionRelations policy candidate evaluation d =
     (case policy of NoApprovalPolicy \<Rightarrow> Inl (lifecycleError LDecisionPolicyMismatch)
      | RequiredApprovalPolicy authority sc \<Rightarrow>
     (case candidate of None \<Rightarrow> Inl (lifecycleError LCandidateRequired)
      | Some c \<Rightarrow>
          if (case evaluation of None \<Rightarrow> True | Some e \<Rightarrow> \<not> accepted e) then Inl (lifecycleError LDecisionBeforeGate)
          else if decisionCandidate d \<noteq> phaseCandidate.candidateDigest c then Inl (lifecycleError LDecisionCandidateMismatch)
          else if canonicalSerialize (decisionPrincipal d) \<noteq> canonicalSerialize authority
          then Inl (lifecycleError LWrongAuthority) else Inr ()))"

definition validateDecisionRelations ::
  "approvalPolicy \<Rightarrow> phaseCandidate option \<Rightarrow> gateEvaluation option \<Rightarrow> authorityDecision option \<Rightarrow> exn + unit" where
  "validateDecisionRelations policy candidate evaluation d =
     (case d of None \<Rightarrow> Inr () | Some d \<Rightarrow> decisionRelations policy candidate evaluation d)"

definition validateDecisionSetRelations ::
  "approvalPolicy \<Rightarrow> phaseCandidate option \<Rightarrow> gateEvaluation option \<Rightarrow> authorityDecision list \<Rightarrow> exn + unit" where
  "validateDecisionSetRelations policy candidate evaluation ds =
     (if ds = [] then Inr ()
      else if \<not> memberScoped policy then Inl (lifecycleError LDecisionPolicyMismatch)
      else bindE (foldE (\<lambda>named d.
          bindE (decisionRelations policy candidate evaluation d) (\<lambda>_.
          case decisionTask d of None \<Rightarrow> Inl invalidInput
          | Some t \<Rightarrow> if t \<in> set named then Inl (lifecycleError LDuplicateDecision) else Inr (named @ [t]))) [] ds)
        (\<lambda>_. Inr ()))"

definition validateEscalationOwner :: "phaseRef \<Rightarrow> phaseCandidate \<Rightarrow> escalation \<Rightarrow> exn + unit" where
  "validateEscalationOwner phase candidate x = (let e = lifecycleError LEscalationOwnerMismatch in
     bindE (case owner x of
         PhaseOwner i g ctx \<Rightarrow> if i \<noteq> prPhase phase \<or> g \<noteq> prGeneration phase then Inl e else Inr ctx
       | TaskOwner i g ctx \<Rightarrow> (case find (\<lambda>t. trTask t = i) (candTasks candidate) of
           None \<Rightarrow> Inl e
         | Some t \<Rightarrow> if trGeneration t \<noteq> g \<or> trContext t \<noteq> ctx then Inl e else Inr ctx)) (\<lambda>ctx.
     if ctx \<noteq> contextDigest x then Inl (lifecycleError LEscalationContextMismatch) else Inr ()))"

definition validateEscalationRelations ::
  "phaseRef \<Rightarrow> phaseCandidate option \<Rightarrow> jstr \<Rightarrow> escalation list \<Rightarrow> exn + unit" where
  "validateEscalationRelations phase candidate policy xs =
     (if xs = [] then Inr ()
      else case candidate of None \<Rightarrow> Inl (lifecycleError LCandidateRequired)
      | Some c \<Rightarrow> forE (\<lambda>x.
          if escalationContent.candidateDigest x \<noteq> phaseCandidate.candidateDigest c
          then Inl (lifecycleError LEscalationCandidateMismatch)
          else if escalationPolicy x \<noteq> policy then Inl (lifecycleError LEscalationPolicyMismatch)
          else validateEscalationOwner phase c x) xs)"

text \<open>
  \<open>{ ...approvalPolicy, decision: authorityDecision }\<close>: the scope of the policy, when it has one, is
  passed on with the approval.
\<close>

definition closureApprovalInput :: "approvalPolicy \<Rightarrow> authorityDecision option \<Rightarrow> exn + val" where
  "closureApprovalInput policy d = (case policy of
     NoApprovalPolicy \<Rightarrow> Inr (encApprovalPolicy policy)
   | RequiredApprovalPolicy authority sc \<Rightarrow> (case d of
       None \<Rightarrow> Inl (lifecycleError LClosureSourceMissing)
     | Some d \<Rightarrow> Inr (Obj (props (encApprovalPolicy policy) @ [(lit ''decision'', encDecision d)]))))"

definition validateClosure :: "val \<Rightarrow> val \<Rightarrow> phaseCandidate option \<Rightarrow> gateEvidence option \<Rightarrow> approvalPolicy \<Rightarrow>
    authorityDecision option \<Rightarrow> sha256 \<Rightarrow> bool \<Rightarrow> exn + phaseClosure" where
  "validateClosure v graph candidate evidence policy d sha historical =
     (case (candidate, evidence) of
       (Some c, Some ev) \<Rightarrow>
         bindE (closureApprovalInput policy d) (\<lambda>approval.
         validatePhaseClosure v (Obj ([(lit ''graph'', graph), (lit ''candidate'', encCandidate c),
           (lit ''gateEvidence'', encEvidence ev), (lit ''approval'', approval)] @
           (if historical then [(lit ''historical'', Bool True)] else []))) sha)
     | _ \<Rightarrow> Inl (lifecycleError LClosureSourceMissing))"

section \<open>The projection\<close>

definition deriveStatus :: "phaseCandidate option \<Rightarrow> gateEvaluation option \<Rightarrow> approvalPolicy \<Rightarrow> authorityDecision option \<Rightarrow>
    authorityDecision list \<Rightarrow> phaseClosure option \<Rightarrow> escalation list \<Rightarrow> lifecycleStatus" where
  "deriveStatus candidate evaluation policy d ds closure escalations =
     (if escalations \<noteq> [] then Escalated
      else if candidate = None then AwaitingCompletion
      else case evaluation of None \<Rightarrow> AwaitingGate
      | Some e \<Rightarrow>
          if \<not> accepted e then GateRejected
          else if policy \<noteq> NoApprovalPolicy \<and> d = None then AwaitingApproval
          else if map_option decision d = Some Reject then ApprovalRejected
          else if undecidedTasks policy candidate ds \<noteq> [] then AwaitingApproval
          else if closure \<noteq> None then Closed
          else AwaitingClosure)"

definition dispositions :: "terminalDisposition list" where
  "dispositions = [CompletedT, BlockedT, WaivedT, SkippedT, SupersededT]"

definition taskAccountOf :: "acceptedAssessment \<Rightarrow> taskAccount" where
  "taskAccountOf x = (let sub = accSubmission (acceptedAccounting x) in
     \<lparr>taTask = subTask sub, taDigest = acceptedDigest x, taDisposition = subDisposition sub, taSummary = subSummary sub\<rparr>)"

definition projectTaskAccounting :: "phaseCandidate option \<Rightarrow> taskAccounting" where
  "projectTaskAccounting candidate = (case candidate of
     None \<Rightarrow> \<lparr>selectedCount = 0, accountedCount = 0, dispositionCounts = map (\<lambda>d. (d, 0)) dispositions, taskAccounts = []\<rparr>
   | Some c \<Rightarrow> let accounts = map taskAccountOf (candAssessments c) in
       \<lparr>selectedCount = int (length (candTasks c)), accountedCount = int (length accounts),
        dispositionCounts = map (\<lambda>d. (d, int (length (filter (\<lambda>a. taDisposition a = d) accounts)))) dispositions,
        taskAccounts = accounts\<rparr>)"

definition projectHumanNeeds :: "lifecycleStatus \<Rightarrow> approvalPolicy \<Rightarrow> phaseCandidate option \<Rightarrow> escalation list \<Rightarrow> humanNeed list" where
  "projectHumanNeeds status policy candidate escalations =
     (if status = Escalated then map EscalationNeed escalations
      else case (policy, candidate) of
        (RequiredApprovalPolicy authority sc, Some c) \<Rightarrow>
          if status = AwaitingApproval then [ApprovalNeed (phaseCandidate.candidateDigest c) authority] else []
      | _ \<Rightarrow> [])"

definition recordDigests :: "phaseCandidate option \<Rightarrow> gateEvaluation option \<Rightarrow> authorityDecision option \<Rightarrow>
    phaseClosure option \<Rightarrow> escalation list \<Rightarrow> lifecycleRecords" where
  "recordDigests candidate evaluation d closure escalations =
     \<lparr>recCandidate = map_option phaseCandidate.candidateDigest candidate,
      recGateEvaluation = map_option evaluationDigest evaluation, recDecision = map_option decisionDigest d,
      recClosure = map_option closureDigest closure, recEscalations = map escalationDigest escalations\<rparr>"

text \<open>An optional record of the snapshot: absent, or read by its validator.\<close>

definition ifOwn :: "val \<Rightarrow> string \<Rightarrow> (val \<Rightarrow> exn + 'a) \<Rightarrow> exn + 'a option" where
  "ifOwn v k f = (if hasOwn v (lit k) then bindE (f (get v k)) (\<lambda>x. Inr (Some x)) else Inr None)"

definition lifecycleGateEvidence :: "phaseCandidate option \<Rightarrow> sha256 \<Rightarrow> val \<Rightarrow> exn + gateEvidence" where
  "lifecycleGateEvidence candidate sha v = (case candidate of
     None \<Rightarrow> Inl (lifecycleError LCandidateRequired)
   | Some c \<Rightarrow> (case validateGateEvidence v (Str (phaseCandidate.candidateDigest c)) sha of
       Inl _ \<Rightarrow> Inl invalidInput | Inr ev \<Rightarrow> Inr ev))"

definition lifecycleContentOf :: "val \<Rightarrow> sha256 \<Rightarrow> exn + lifecycleContent" where
  "lifecycleContentOf v sha =
     bindE (lifecyclePhase (get v ''phase'')) (\<lambda>phase.
     bindE (validateApprovalPolicy (get v ''approvalPolicy'')) (\<lambda>policy.
     bindE (digestOf invalidInput (get v ''escalationPolicyDigest'')) (\<lambda>escalationPolicy.
     let historical = (get v ''historical'' = Bool True) in
     bindE (ifOwn v ''candidate'' (\<lambda>c. validatePhaseCandidate c (get v ''graph'') sha historical)) (\<lambda>candidate.
     bindE (ifOwn v ''gateEvidence'' (lifecycleGateEvidence candidate sha)) (\<lambda>evidence.
     let evaluation = map_option evidenceEvaluation evidence in
     bindE (ifOwn v ''authorityDecision'' (\<lambda>d. validateAuthorityDecision d sha)) (\<lambda>d.
     bindE (validateDecisionList (get v ''authorityDecisions'') sha) (\<lambda>ds.
     bindE (validateEscalations (get v ''escalations'') sha) (\<lambda>escalations.
     bindE (validateCandidateRelations phase candidate) (\<lambda>_.
     bindE (validateGateRelations candidate evidence) (\<lambda>_.
     bindE (validateDecisionRelations policy candidate evaluation d) (\<lambda>_.
     bindE (validateDecisionSetRelations policy candidate evaluation ds) (\<lambda>_.
     bindE (validateEscalationRelations phase candidate escalationPolicy escalations) (\<lambda>_.
     bindE (ifOwn v ''closure'' (\<lambda>c. validateClosure c (get v ''graph'') candidate evidence policy d sha historical)) (\<lambda>closure.
     if closure \<noteq> None \<and> escalations \<noteq> [] then Inl (lifecycleError LClosureEscalationConflict)
     else let status = deriveStatus candidate evaluation policy d ds closure escalations in
       Inr \<lparr>projPhase = phase, projStatus = status, projPolicy = policy, projEscalationPolicy = escalationPolicy,
         projTasks = projectTaskAccounting candidate, projNeeds = projectHumanNeeds status policy candidate escalations,
         projRecords = recordDigests candidate evaluation d closure escalations\<rparr>))))))))))))))"

definition projectPhaseLifecycle :: "val \<Rightarrow> sha256 \<Rightarrow> exn + lifecycleProjection" where
  "projectPhaseLifecycle input sha =
     bindE (snapshotCanonical invalidInput input) (\<lambda>v.
     bindE (assertAllowedKeys v [''graph'', ''phase'', ''approvalPolicy'', ''escalationPolicyDigest'']
       [''candidate'', ''gateEvidence'', ''authorityDecision'', ''authorityDecisions'', ''closure'', ''escalations'',
        ''historical''] invalidInput) (\<lambda>_.
     bindE (lifecycleContentOf v sha) (\<lambda>content.
     bindE (canonicalDigest (encLifecycleContent content) sha) (\<lambda>digest.
       Inr (lifecycleContent.extend content \<lparr>projectionDigest = digest\<rparr>)))))"

end
