(* ===== verification/LifecycleProperties.thy ===== *)
theory LifecycleProperties
  imports Lifecycle CandidateProperties
begin

text \<open>
  The properties of lifecycle.ts: the status of a phase as a function of its records, and what a closed
  phase has behind it.
\<close>

section \<open>The parts of a projection\<close>

lemma ifOwn_eq_Inr:
  "ifOwn v k f = Inr x \<longleftrightarrow> (case x of None \<Rightarrow> \<not> hasOwn v (lit k) | Some y \<Rightarrow> hasOwn v (lit k) \<and> f (get v k) = Inr y)"
  by (cases x) (auto simp: ifOwn_def bindE_eq_Inr)

text \<open>What the projection was derived from.\<close>

definition derivedFrom :: "val \<Rightarrow> sha256 \<Rightarrow> phaseCandidate option \<Rightarrow> gateEvidence option \<Rightarrow> authorityDecision option \<Rightarrow>
    authorityDecision list \<Rightarrow> escalation list \<Rightarrow> phaseClosure option \<Rightarrow> 'a lifecycleContent_scheme \<Rightarrow> bool" where
  "derivedFrom v sha candidate evidence d ds escalations closure p \<longleftrightarrow>
     validateApprovalPolicy (get v ''approvalPolicy'') = Inr (projPolicy p) \<and>
     ifOwn v ''candidate'' (\<lambda>c. validatePhaseCandidate c (get v ''graph'') sha (get v ''historical'' = Bool True)) = Inr candidate \<and>
     ifOwn v ''gateEvidence'' (lifecycleGateEvidence candidate sha) = Inr evidence \<and>
     ifOwn v ''authorityDecision'' (\<lambda>d. validateAuthorityDecision d sha) = Inr d \<and>
     validateDecisionList (get v ''authorityDecisions'') sha = Inr ds \<and>
     validateEscalations (get v ''escalations'') sha = Inr escalations \<and>
     validateCandidateRelations (projPhase p) candidate = Inr () \<and> validateGateRelations candidate evidence = Inr () \<and>
     validateDecisionRelations (projPolicy p) candidate (map_option evidenceEvaluation evidence) d = Inr () \<and>
     validateDecisionSetRelations (projPolicy p) candidate (map_option evidenceEvaluation evidence) ds = Inr () \<and>
     validateEscalationRelations (projPhase p) candidate (projEscalationPolicy p) escalations = Inr () \<and>
     ifOwn v ''closure'' (\<lambda>c. validateClosure c (get v ''graph'') candidate evidence (projPolicy p) d sha
       (get v ''historical'' = Bool True)) = Inr closure \<and>
     (closure = None \<or> escalations = []) \<and>
     projStatus p = deriveStatus candidate (map_option evidenceEvaluation evidence) (projPolicy p) d ds closure escalations \<and>
     projTasks p = projectTaskAccounting candidate \<and>
     projNeeds p = projectHumanNeeds (projStatus p) (projPolicy p) candidate escalations \<and>
     projRecords p = recordDigests candidate (map_option evidenceEvaluation evidence) d closure escalations"

lemma lifecycle_derived:
  assumes "projectPhaseLifecycle v sha = Inr p"
  obtains candidate evidence d ds escalations closure where "is_json v"
    "derivedFrom v sha candidate evidence d ds escalations closure p"
    "projectionDigest p = sha (canonicalBytes (encLifecycleContent p))"
proof -
  from assms obtain content where v: "is_json v" "lifecycleContentOf v sha = Inr content"
      "canonicalDigest (encLifecycleContent content) sha = Inr (projectionDigest p)"
      "p = lifecycleContent.extend content \<lparr>projectionDigest = projectionDigest p\<rparr>"
    by (auto simp: projectPhaseLifecycle_def bindE_eq_Inr snapshotCanonical_eq_Inr lifecycleContent.defs)
  from v(2) obtain candidate evidence d ds escalations closure where
      c: "derivedFrom v sha candidate evidence d ds escalations closure content"
    unfolding lifecycleContentOf_def Let_def bindE_eq_Inr if_Inl_eq_Inr
    by (elim exE conjE) (auto simp: derivedFrom_def)
  have "derivedFrom v sha candidate evidence d ds escalations closure p"
    using c by (subst v(4)) (simp add: derivedFrom_def lifecycleContent.defs)
  moreover have "encLifecycleContent p = encLifecycleContent content"
    by (subst v(4)) (simp add: encLifecycleContent_def lifecycleContent.defs)
  ultimately show thesis using v(1,3) by (intro that) (auto simp: canonicalDigest_eq_Inr)
qed

section \<open>Closures\<close>

lemma validated_digest:
  "validatePhaseCandidate s graph sha h = Inr c \<Longrightarrow> get s ''candidateDigest'' = Str (phaseCandidate.candidateDigest c)"
  by (auto simp: validatePhaseCandidate_def bindE_eq_Inr if_Inl_eq_Inr snapshotCanonical_eq_Inr candidateContent.defs)

text \<open>An approval that carries a scope has a property \<open>closureApproval\<close> does not know.\<close>

lemma scoped_approval:
  "closureApprovalOf (Obj (props (encApprovalPolicy (RequiredApprovalPolicy authority (Some sc))) @ [(lit ''decision'', d)])) cand sha =
     Inl (CandidateError KInvalidApproval)"
  by (simp add: closureApprovalOf_def optionalField_def without_def assertAllowedKeys_def list_ex_iff)

lemma scoped_closure: "validateClosure w graph candidate evidence (RequiredApprovalPolicy authority (Some sc)) d sha h \<noteq> Inr cl"
proof
  assume "validateClosure w graph candidate evidence (RequiredApprovalPolicy authority (Some sc)) d sha h = Inr cl"
  then obtain c ev d' where "closePhase (Obj ([(lit ''graph'', graph), (lit ''candidate'', encCandidate c),
        (lit ''gateEvidence'', encEvidence ev), (lit ''approval'', Obj (props (encApprovalPolicy
           (RequiredApprovalPolicy authority (Some sc))) @ [(lit ''decision'', encDecision d')]))] @
           (if h then [(lit ''historical'', Bool True)] else []))) sha = Inr cl"
    by (auto simp: validateClosure_def closureApprovalInput_def bindE_eq_Inr closure_iff split: option.splits)
  then show False using scoped_approval by (auto elim!: closePhase_parts)
qed

lemma closure_approved:
  assumes "validateClosure w graph (Some c) (Some ev) policy d sha h = Inr cl"
    and ev: "validateGateEvidence x (Str (phaseCandidate.candidateDigest c)) sha = Inr ev"
    and d: "\<And>y. d = Some y \<Longrightarrow> validateAuthorityDecision z sha = Inr y"
  shows "accepted (evidenceEvaluation ev)" "policy \<noteq> NoApprovalPolicy \<Longrightarrow> \<exists>authority y. policy = RequiredApprovalPolicy authority None \<and>
    d = Some y \<and> decision y = Approve"
    "closureCandidate cl = phaseCandidate.candidateDigest c"
proof -
  let ?in = "\<lambda>a. Obj ([(lit ''graph'', graph), (lit ''candidate'', encCandidate c), (lit ''gateEvidence'', encEvidence ev),
      (lit ''approval'', a)] @ (if h then [(lit ''historical'', Bool True)] else []))"
  from assms(1) obtain a where a: "closureApprovalInput policy d = Inr a" "closePhase (?in a) sha = Inr cl"
    by (auto simp: validateClosure_def bindE_eq_Inr closure_iff)
  have get: "get (?in a) ''candidate'' = encCandidate c" "get (?in a) ''gateEvidence'' = encEvidence ev" "get (?in a) ''approval'' = a"
    by simp_all
  from a(2) obtain c' ev' a' where parts: "is_json (?in a)"
      "validatePhaseCandidate (get (?in a) ''candidate'') (get (?in a) ''graph'') sha (get (?in a) ''historical'' = Bool True) = Inr c'"
      "validateGateEvidence (get (?in a) ''gateEvidence'') (Str (phaseCandidate.candidateDigest c')) sha = Inr ev'"
      "accepted (evidenceEvaluation ev')"
      "closureApprovalOf (get (?in a) ''approval'') (phaseCandidate.candidateDigest c') sha = Inr a'"
      "closureCandidate cl = phaseCandidate.candidateDigest c'"
    by (rule closePhase_parts) simp
  have c': "validatePhaseCandidate (encCandidate c) (get (?in a) ''graph'') sha (get (?in a) ''historical'' = Bool True) = Inr c'"
      "validateGateEvidence (encEvidence ev) (Str (phaseCandidate.candidateDigest c')) sha = Inr ev'" "accepted (evidenceEvaluation ev')"
      "closureApprovalOf a (phaseCandidate.candidateDigest c') sha = Inr a'" "closureCandidate cl = phaseCandidate.candidateDigest c'"
      "is_json (?in a)"
    using parts unfolding get by (fact parts | blast)+
  from validated_digest [OF c'(1)] have same: "phaseCandidate.candidateDigest c' = phaseCandidate.candidateDigest c" by simp
  then show "closureCandidate cl = phaseCandidate.candidateDigest c" using c'(5) by simp
  have "ev' = ev" using evidence.dec_again [OF ev] c'(2) same by simp
  then show "accepted (evidenceEvaluation ev)" using c'(3) by simp
  assume "policy \<noteq> NoApprovalPolicy"
  then obtain authority sc where p: "policy = RequiredApprovalPolicy authority sc" by (cases policy) auto
  with assms(1) scoped_closure have "sc = None" by (cases sc) blast+
  moreover from a(1) p obtain y where y: "d = Some y" "a = Obj (props (encApprovalPolicy policy) @ [(lit ''decision'', encDecision y)])"
    by (auto simp: closureApprovalInput_def split: option.splits)
  moreover have "decision y = Approve"
  proof -
    have j: "is_json a" using c'(6) by simp
    have a'': "get a ''policy'' = Str (lit ''approval-required'')" "get a ''decision'' = encDecision y"
      by (simp_all add: y(2) p optionalField_def \<open>sc = None\<close>)
    then obtain au dg ms where "a' = Approved au dg ms" using closureApproval_approved [OF j c'(4)]
      by (cases a') (auto simp: approved_def)
    then obtain y' where "validateAuthorityDecision (encDecision y) sha = Inr y'" "decision y' = Approve"
      using closureApproval_approved [OF j c'(4)] a'' by (auto simp: approved_def approves_def)
    moreover have "validateAuthorityDecision (encDecision y) sha = Inr y" using d [OF y(1)] by (rule decisions.dec_again)
    ultimately show ?thesis by simp
  qed
  ultimately show "\<exists>authority y. policy = RequiredApprovalPolicy authority None \<and> d = Some y \<and> decision y = Approve" using p by blast
qed

lemma scoped_policy:
  assumes "validateApprovalPolicy v = Inr policy" "get v ''scope'' \<noteq> Undef"
  shows "\<exists>authority sc. policy = RequiredApprovalPolicy authority (Some sc)"
proof (cases "get v ''policy'' = Str (lit ''no-approval'')")
  case True
  then have "exactKeys v [''policy'']" "isRecord v"
    using assms(1) by (auto simp: validateApprovalPolicy_def bindE_eq_Inr if_Inl_eq_Inr assertExactKeys_eq_Inr)
  then have "set (keys v) = {lit ''policy''}" using exactKeys_set by fastforce
  then have "get v ''scope'' = Undef"
    using field_missing [of "lit ''scope''" "props v"] \<open>isRecord v\<close> by (cases v) (simp_all add: keys_def isRecord_def)
  with assms(2) show ?thesis by simp
next
  case False
  then show ?thesis using assms
    by (auto simp: validateApprovalPolicy_def bindE_eq_Inr if_Inl_eq_Inr split: option.splits)
qed

lemma derived_closed:
  assumes "derivedFrom v sha candidate evidence d ds escalations closure p" "closure \<noteq> None"
  shows "escalations = []" "\<exists>c ev. candidate = Some c \<and> evidence = Some ev \<and> accepted (evidenceEvaluation ev)"
    "\<not> memberScoped (projPolicy p)" "projPolicy p \<noteq> NoApprovalPolicy \<Longrightarrow> map_option decision d = Some Approve"
    "projPolicy p = NoApprovalPolicy \<Longrightarrow> d = None"
proof -
  note p = assms(1) [unfolded derivedFrom_def]
  show "escalations = []" using p assms(2) by blast
  obtain cl where cl: "validateClosure (get v ''closure'') (get v ''graph'') candidate evidence (projPolicy p) d sha
      (get v ''historical'' = Bool True) = Inr cl" using p assms(2) by (auto simp: ifOwn_eq_Inr split: option.splits)
  then obtain c ev where ce: "candidate = Some c" "evidence = Some ev"
    by (cases candidate; cases evidence) (auto simp: validateClosure_def)
  have "validateGateEvidence (get v ''gateEvidence'') (Str (phaseCandidate.candidateDigest c)) sha = Inr ev"
    using p ce by (auto simp: ifOwn_eq_Inr lifecycleGateEvidence_def split: sum.splits)
  moreover have "d = Some y \<Longrightarrow> validateAuthorityDecision (get v ''authorityDecision'') sha = Inr y" for y
    using p by (auto simp: ifOwn_eq_Inr)
  ultimately have ok: "accepted (evidenceEvaluation ev)" "projPolicy p \<noteq> NoApprovalPolicy \<Longrightarrow>
      \<exists>authority y. projPolicy p = RequiredApprovalPolicy authority None \<and> d = Some y \<and> decision y = Approve"
    using closure_approved [OF cl [unfolded ce]] by blast+
  show "\<exists>c ev. candidate = Some c \<and> evidence = Some ev \<and> accepted (evidenceEvaluation ev)" using ce ok(1) by blast
  show "\<not> memberScoped (projPolicy p)" using ok(2) by (cases "projPolicy p") auto
  show "projPolicy p \<noteq> NoApprovalPolicy \<Longrightarrow> map_option decision d = Some Approve" using ok(2) by auto
  show "d = None" if "projPolicy p = NoApprovalPolicy"
    using p that by (cases d) (auto simp: validateDecisionRelations_def decisionRelations_def)
qed


section \<open>The properties\<close>


text \<open>C4. A projection only says closed of a phase that was earned: its candidate validates and completes
  every active task of the phase, the gate accepted that candidate, and the authority approved it when
  the policy asks for it.\<close>

theorem closed_earned:
  assumes "projectPhaseLifecycle v sha = Inr p" "projStatus p = Closed"
  shows "\<exists>g c ev. validateWorkflowGraph (get v ''graph'') sha = Inr g \<and> phaseComplete g sha c \<and> candPhase c = projPhase p \<and>
    validatePhaseCandidate (get v ''candidate'') (get v ''graph'') sha (get v ''historical'' = Bool True) = Inr c \<and>
    validateGateEvidence (get v ''gateEvidence'') (Str (phaseCandidate.candidateDigest c)) sha = Inr ev \<and>
    policyDigest (evidenceDefinition ev) = candGatePolicy c \<and> accepted (evidenceEvaluation ev) \<and>
    (projPolicy p = NoApprovalPolicy \<or> (\<exists>authority d. projPolicy p = RequiredApprovalPolicy authority None \<and>
       validateAuthorityDecision (get v ''authorityDecision'') sha = Inr d \<and> decision d = Approve \<and>
       decisionCandidate d = phaseCandidate.candidateDigest c))"
proof -
  from assms(1) obtain candidate evidence d ds escalations closure where
      der: "derivedFrom v sha candidate evidence d ds escalations closure p" by (rule lifecycle_derived)
  note p = der [unfolded derivedFrom_def]
  have cl: "closure \<noteq> None" using p assms(2) by (auto simp: deriveStatus_def split: option.splits if_splits)
  note closed = derived_closed [OF der cl]
  then obtain c ev where ce: "candidate = Some c" "evidence = Some ev" "accepted (evidenceEvaluation ev)" by blast
  have c: "validatePhaseCandidate (get v ''candidate'') (get v ''graph'') sha (get v ''historical'' = Bool True) = Inr c"
    using p ce by (simp add: ifOwn_eq_Inr)
  then obtain g content where g: "validateWorkflowGraph (get v ''graph'') sha = Inr g"
      "phaseCandidateContent (get v ''candidate'') g sha True (get v ''historical'' = Bool True) = Inr content"
      "c = candidateContent.extend content \<lparr>candidateDigest = phaseCandidate.candidateDigest c\<rparr>" by (rule validateCandidate_parts)
  have "phaseComplete g sha c" by (subst g(3)) (simp add: content_complete [OF g(2,1)])
  moreover have "candPhase c = projPhase p" using p ce by (simp add: validateCandidateRelations_def split: if_splits)
  moreover have "validateGateEvidence (get v ''gateEvidence'') (Str (phaseCandidate.candidateDigest c)) sha = Inr ev"
    using p ce by (auto simp: ifOwn_eq_Inr lifecycleGateEvidence_def split: sum.splits)
  moreover have "policyDigest (evidenceDefinition ev) = candGatePolicy c"
    using p ce by (simp add: validateGateRelations_def split: if_splits)
  moreover have "projPolicy p = NoApprovalPolicy \<or> (\<exists>authority d. projPolicy p = RequiredApprovalPolicy authority None \<and>
       validateAuthorityDecision (get v ''authorityDecision'') sha = Inr d \<and> decision d = Approve \<and>
       decisionCandidate d = phaseCandidate.candidateDigest c)"
  proof (cases "projPolicy p")
    case (RequiredApprovalPolicy authority sc)
    then obtain y where y: "d = Some y" "decision y = Approve" using closed(4) by auto
    have "decisionCandidate y = phaseCandidate.candidateDigest c"
      using p ce RequiredApprovalPolicy y(1)
      by (simp add: validateDecisionRelations_def decisionRelations_def split: if_splits)
    moreover have "sc = None"
    proof (cases sc)
      case (Some x)
      then show ?thesis using p cl scoped_closure RequiredApprovalPolicy by (auto simp: ifOwn_eq_Inr split: option.splits)
    qed
    ultimately show ?thesis using p y RequiredApprovalPolicy by (auto simp: ifOwn_eq_Inr)
  qed simp
  ultimately show ?thesis using g(1) c ce(3) by blast
qed

section \<open>The example\<close>

text \<open>The example phase, approved by \<open>lead\<close> without a scope and closed.\<close>

definition leadPolicy :: "approvalScope option \<Rightarrow> val" where
  "leadPolicy sc = encApprovalPolicy (RequiredApprovalPolicy (Str (lit ''lead'')) sc)"

definition leadClosure :: phaseClosure where
  "leadClosure = doneClosure\<lparr>closureApproval := Approved (Str (lit ''lead'')) zeros None\<rparr>"

definition closedInput :: "approvalScope option \<Rightarrow> val" where
  "closedInput sc = Obj [(lit ''graph'', encGraph doneGraph), (lit ''phase'', encPhaseRef (candPhase doneCandidate)),
     (lit ''approvalPolicy'', leadPolicy sc), (lit ''escalationPolicyDigest'', Str zeros),
     (lit ''candidate'', encCandidate doneCandidate), (lit ''gateEvidence'', encEvidence doneEvidence),
     (lit ''authorityDecision'', encDecision doneDecision), (lit ''closure'', encClosure leadClosure)]"

lemma lead_approval:
  "closureApprovalOf (Obj (props (leadPolicy None) @ [(lit ''decision'', encDecision doneDecision)])) zeros flatSha =
     Inr (Approved (Str (lit ''lead'')) zeros None)"
proof -
  have j: "is_json (Str (lit ''lead''))" by simp
  have "approvingDecision (encDecision doneDecision) zeros (Str (lit ''lead'')) flatSha = Inr doneDecision"
    unfolding approvingDecision_eq_Inr [OF j] by (rule done_approves)
  moreover have "assertAllowedKeys (Obj [(lit ''policy'', Str (lit ''approval-required'')), (lit ''authority'', Str (lit ''lead'')),
      (lit ''decision'', encDecision doneDecision)]) [''policy'', ''authority'', ''decision''] [] e = Inr ()" for e
    by (simp add: assertAllowedKeys_eq_Inr)
  moreover have "authorityDecision.decisionDigest doneDecision = zeros" by (simp add: doneDecision_def)
  ultimately show ?thesis
    by (simp add: closureApprovalOf_def leadPolicy_def optionalField_def without_def memberDecisions_def)
qed

lemma lead_closes:
  "closePhase (Obj [(lit ''graph'', encGraph doneGraph), (lit ''candidate'', encCandidate doneCandidate),
     (lit ''gateEvidence'', encEvidence doneEvidence),
     (lit ''approval'', Obj (props (leadPolicy None) @ [(lit ''decision'', encDecision doneDecision)]))]) flatSha = Inr leadClosure"
proof -
  have "is_json (encGraph doneGraph)" using validate_canonical(3) [OF done_graph] .
  moreover have "is_json (encEvidence doneEvidence)" using encEvidence_json [OF evidence.dec_ok [OF done_evidence]] .
  moreover have "evaluationDigest doneEvaluation = zeros" "policyDigest demoGate = zeros" "accepted doneEvaluation"
    by (simp_all add: doneEvaluation_def demoEvaluation_def demoGate_def zeros_def)
  moreover have "is_json (Obj (props (leadPolicy None) @ [(lit ''decision'', encDecision doneDecision)]))"
    using done_decision(2) by (simp add: leadPolicy_def optionalField_def)
  moreover have "assertAllowedKeys (Obj [(lit ''graph'', a), (lit ''candidate'', b), (lit ''gateEvidence'', c), (lit ''approval'', d)])
      [''graph'', ''candidate'', ''gateEvidence'', ''approval''] [''historical''] e = Inr ()" for a b c d e
    by (simp add: assertAllowedKeys_eq_Inr)
  ultimately show ?thesis using done_candidate done_evidence lead_approval done_candidate_json
    by (simp add: closePhase_def snapshotCanonical_def done_values)
      (simp add: doneEvidence_def done_values leadClosure_def doneClosure_def closureContent.defs zeros_def)
qed

lemma lead_closed: "\<exists>p. projectPhaseLifecycle (closedInput None) flatSha = Inr p \<and> projStatus p = Closed"
proof -
  note j = validate_canonical(3) [OF done_graph] encEvidence_json [OF evidence.dec_ok [OF done_evidence]] closure_json [OF lead_closes]
  have v: "is_json (closedInput None)" using j done_candidate_json done_decision(2)
    by (simp add: closedInput_def leadPolicy_def optionalField_def encPhaseRef_def) (simp add: doneCandidate_def wf_num_def)
  have policy: "validateApprovalPolicy (leadPolicy None) = Inr (RequiredApprovalPolicy (Str (lit ''lead'')) None)"
    by (simp add: validateApprovalPolicy_def leadPolicy_def optionalField_def without_def bindE_eq_Inr assertExactKeys_eq_Inr exactKeys_Obj)
  have phase: "lifecyclePhase (encPhaseRef (candPhase doneCandidate)) = Inr (candPhase doneCandidate)"
    using encPhaseRef_read [of "candPhase doneCandidate"] demo_identities(2)
    by (simp add: lifecyclePhase_def encPhaseRef_def assertExactKeys_eq_Inr exactKeys_Obj bindE_eq_Inr strIf_eq_Inr generationOf_eq_Inr)
      (simp add: doneCandidate_def isSafe_def maxSafe_def)
  have closure: "validateClosure (encClosure leadClosure) (encGraph doneGraph) (Some doneCandidate) (Some doneEvidence)
      (RequiredApprovalPolicy (Str (lit ''lead'')) None) (Some doneDecision) flatSha False = Inr leadClosure"
    using lead_closes j(3) by (simp add: validateClosure_def closureApprovalInput_def closure_iff leadPolicy_def)
  have decision: "decisionRelations (RequiredApprovalPolicy (Str (lit ''lead'')) None) (Some doneCandidate) (Some doneEvaluation) doneDecision = Inr ()"
    by (simp add: decisionRelations_def doneDecision_def done_values) (simp add: doneEvaluation_def demoEvaluation_def)
  have gate: "policyDigest (evidenceDefinition doneEvidence) = zeros" "evidenceEvaluation doneEvidence = doneEvaluation"
    "accepted doneEvaluation" "decision doneDecision = Approve"
    by (simp_all add: doneEvidence_def demoGate_def zeros_def doneEvaluation_def demoEvaluation_def doneDecision_def)
  have d: "validateAuthorityDecision (encDecision doneDecision) flatSha = Inr doneDecision"
    using done_approves by (simp add: approves_def)
  have get: "get (closedInput None) ''graph'' = encGraph doneGraph" "get (closedInput None) ''phase'' = encPhaseRef (candPhase doneCandidate)"
    "get (closedInput None) ''approvalPolicy'' = leadPolicy None" "get (closedInput None) ''escalationPolicyDigest'' = Str zeros"
    "get (closedInput None) ''candidate'' = encCandidate doneCandidate" "get (closedInput None) ''gateEvidence'' = encEvidence doneEvidence"
    "get (closedInput None) ''authorityDecision'' = encDecision doneDecision" "get (closedInput None) ''closure'' = encClosure leadClosure"
    "get (closedInput None) ''authorityDecisions'' = Undef" "get (closedInput None) ''escalations'' = Undef"
    "get (closedInput None) ''historical'' = Undef"
    by (simp_all add: closedInput_def)
  have own: "hasOwn (closedInput None) (lit ''candidate'')" "hasOwn (closedInput None) (lit ''gateEvidence'')"
    "hasOwn (closedInput None) (lit ''authorityDecision'')" "hasOwn (closedInput None) (lit ''closure'')"
    by (simp_all add: closedInput_def)
  have keys: "assertAllowedKeys (closedInput None) [''graph'', ''phase'', ''approvalPolicy'', ''escalationPolicyDigest'']
       [''candidate'', ''gateEvidence'', ''authorityDecision'', ''authorityDecisions'', ''closure'', ''escalations'',
        ''historical''] invalidInput = Inr ()" by (simp add: closedInput_def assertAllowedKeys_eq_Inr)
  have "digestOf invalidInput (Str zeros) = Inr zeros" using done_read(3) by (simp add: digestOf_eq_Inr)
  then have "\<exists>c. lifecycleContentOf (closedInput None) flatSha = Inr c \<and> projStatus c = Closed"
    using phase policy done_candidate done_evidence d closure decision gate own
    by (simp add: lifecycleContentOf_def get ifOwn_def lifecycleGateEvidence_def done_values validateDecisionList_def
        validateEscalations_def validateCandidateRelations_def validateGateRelations_def validateDecisionRelations_def
        validateDecisionSetRelations_def validateEscalationRelations_def deriveStatus_def undecidedTasks_def)
  then obtain c where "lifecycleContentOf (closedInput None) flatSha = Inr c" "projStatus c = Closed" by blast
  then show ?thesis using v keys by (simp add: projectPhaseLifecycle_def snapshotCanonical_def) (simp add: lifecycleContent.defs)
qed


theorem closed_earned_witness: "phaseComplete doneGraph flatSha doneCandidate \<and> decision doneDecision = Approve"
proof -
  obtain p where p: "projectPhaseLifecycle (closedInput None) flatSha = Inr p" "projStatus p = Closed" using lead_closed by blast
  have "get (closedInput None) ''graph'' = encGraph doneGraph" "get (closedInput None) ''candidate'' = encCandidate doneCandidate"
    "get (closedInput None) ''historical'' = Undef" by (simp_all add: closedInput_def)
  then have "phaseComplete doneGraph flatSha doneCandidate" using closed_earned [OF p] done_graph done_candidate by auto
  moreover have "decision doneDecision = Approve" by (simp add: doneDecision_def)
  ultimately show ?thesis by simp
qed

end
