(* ===== verification/Spec2Isabelle.thy ===== *)
theory Spec2Isabelle
  imports CanonicalSnapshot CanonicalInjective Identity GateProperties BudgetProperties RunnerProperties RunnerFencing RunnerRecovery RunnerScheduling SchedulerProperties FencedRunnerProperties FencedRunnerDispatch CompletionProperties GraphProperties RunProperties ReadinessProperties ResumeProperties IterationProperties DataflowRecordProperties CandidateProperties AssessmentProperties LifecycleProperties
begin

text \<open>
  A model of the kernel and of the effect runner of senawa, a system that runs workflows of agents
  and people under recorded authority.

  \<^bold>\<open>The program.\<close> The kernel (src/packages/kernel/src) is a set of pure modules over frozen JSON
  objects: every record of the system is a canonical JSON value with a digest, built by a
  \<open>create...\<close> function and read back by a \<open>validate...\<close> function that trusts nothing of its
  argument. The graph compiler turns the definition of a workflow into a graph of phases, tasks and
  criteria; run.ts rebuilds the state of a run from its events; readiness.ts says which tasks may
  start; completion.ts accounts for what a task submitted; gates.ts decides whether a candidate
  passes; dataflow.ts assembles the input of a phase and binds its outputs; candidates.ts bundles
  the accepted work of a phase into a candidate and closes the phase on its gate and approval;
  lifecycle.ts projects the status of a phase from these records; iteration.ts plans the next
  attempt of a phase; budgets.ts keeps what a phase may still spend. The runtime (src/packages/runtime/src) executes effects: a scheduler admits work, the
  runner chooses the next transition of every effect, calls an effect host and records what came of
  it, and an authority keeps the durable state with its leases, fences, reservations and receipts.

  \<^bold>\<open>Theories and sources.\<close>
  \<^item> \<open>Prelude\<close>, \<open>JsValues\<close>, \<open>JsMaps\<close>, \<open>Errors\<close>, \<open>Codecs\<close>, \<open>Timestamps\<close>: exceptions as sums,
    JavaScript values, strings and maps, typed access to fields, and the contracts of validated
    records, the locales \<open>codec\<close> (a validator reads back what it built) and \<open>sealed\<close> (the same with
    an identity derived from the content). A third one, \<open>recreated\<close> of \<open>DataflowRecordProperties\<close>, is for
    records that are valid when making them again gives the same canonical bytes.
  \<^item> \<open>Canonical\<close>, \<open>CanonicalSnapshot\<close>, \<open>CanonicalCodec\<close>, \<open>CanonicalInjective\<close>: canonical.ts. A
    snapshot is the tree an object graph denotes, and canonical bytes determine the value.
  \<^item> \<open>Identity\<close>: identity.ts.
  \<^item> \<open>Graph\<close>, \<open>GraphCompile\<close>, \<open>GraphSearch\<close>, \<open>GraphFacts\<close>, \<open>GraphRelations\<close>, \<open>GraphCodec\<close>,
    \<open>GraphShape\<close>, \<open>GraphProperties\<close>: graph.ts, its cycle search, its relations and
    validation by recompilation.
  \<^item> \<open>Run\<close>, \<open>RunFacts\<close>, \<open>RunProperties\<close>: run.ts, the events of a run and their replay.
  \<^item> \<open>Readiness\<close>, \<open>ReadinessProperties\<close>: readiness.ts, the frontier of tasks that may start.
  \<^item> \<open>Resume\<close>, \<open>ResumeProperties\<close>: resume.ts, reuse of an agent session.
  \<^item> \<open>Iteration\<close>, \<open>IterationProperties\<close>: iteration.ts, phase attempts.
  \<^item> \<open>Completion\<close>, \<open>CompletionFacts\<close>, \<open>CompletionProperties\<close>: completion.ts.
  \<^item> \<open>Gates\<close>, \<open>GateFacts\<close>, \<open>GateEvaluation\<close>, \<open>GateProperties\<close>: gates.ts, with the three-valued
    logic of its conditions.
  \<^item> \<open>Budgets\<close>, \<open>BudgetFacts\<close>, \<open>BudgetHistory\<close>, \<open>BudgetProperties\<close>: budgets.ts; a ledger refines
    a map from units to counters.
  \<^item> \<open>Pointers\<close>, \<open>Dataflow\<close>, \<open>DataflowRecords\<close>, \<open>DataflowFacts\<close>, \<open>DataflowProperties\<close>,
    \<open>DataflowRecordProperties\<close>: dataflow.ts, the evaluation of data mappings and the records that bind
    the inputs, attempts and outputs of phases.
  \<^item> \<open>Candidates\<close>, \<open>CandidateFacts\<close>, \<open>CandidateRecords\<close>, \<open>CandidateProperties\<close>, \<open>Assessments\<close>,
    \<open>AssessmentProperties\<close>: candidates.ts, with the self-contained validation of an assessment.
  \<^item> \<open>Lifecycle\<close>, \<open>LifecycleProperties\<close>: lifecycle.ts, the projection of a phase.
  \<^item> \<open>ProtocolJson\<close>, \<open>ProtocolLimits\<close>: the bounded JSON of src/packages/protocol/src/codec.ts.
  \<^item> \<open>Scheduler\<close>, \<open>SchedulerFacts\<close>, \<open>SchedulerProperties\<close>: scheduler.ts of the runtime.
  \<^item> \<open>Runner\<close>, \<open>RunnerScheduling\<close>: task-currentness.ts and the pure part of runner.ts.
  \<^item> \<open>RunnerAuthority\<close>, \<open>RunnerFacts\<close>, \<open>RunnerSteps\<close>, \<open>RunnerHistory\<close>, \<open>RunnerDemo\<close>,
    \<open>RunnerProperties\<close>, \<open>RunnerFencing\<close>, \<open>RunnerRecovery\<close>: in-memory-runner-authority.ts as a step
    relation, its invariant, what a run never takes back, exclusion and recovery.
  \<^item> \<open>FencedRunner\<close>, \<open>FencedRunnerFacts\<close>, \<open>FencedRunnerMemory\<close>, \<open>FencedRunnerProperties\<close>,
    \<open>FencedRunnerDispatch\<close>: the class \<open>FencedRunner\<close> of runner.ts over any authority that meets the locale
    \<open>fenced_port\<close>, which the in-memory authority interprets, and what a history of batches sends to
    the effect host. A host has a state of its own and does not touch the authority while it runs.

  \<^bold>\<open>Conventions.\<close> A string is the list of its 16 bit code units. A validator takes a \<open>val\<close>, the
  untrusted value, and returns a record; \<open>enc...\<close> is that record as the object the code holds, the
  value it digests and returns. Where the code only copies fields the model keeps the object. An
  exception is \<open>Inl e\<close> with the class and code of the error; its message is left out unless
  building the message can itself throw. Numbers of the code are \<open>Whole\<close>, \<open>Frac\<close> or \<open>NonFinite\<close>;
  what the code proves to be a safe integer is an \<open>int\<close> from there on, with the bound
  \<open>maxSafeInteger\<close> where the code checks it. SHA-256 is a parameter of the definitions, as it is
  in canonical.ts; a theorem that needs more of it than that it is a function says so by naming a
  collision. JavaScript's maps are insertion-ordered association lists.

  \<^bold>\<open>What the lemmas show.\<close> Every validated record is shown to read back from its own object
  (\<open>..._enc\<close>) and to satisfy its invariant (\<open>..._ok\<close>); on top of these stand exact
  characterisations (replay, readiness, resume, iteration, consumption), refinements (snapshots,
  ledgers, a batch of the runner over any host), invariants of the authority over all its
  histories, equivalences (Kleene evaluation, reassessment, order of inputs), and progress (an
  unfinished effect can be finished, a frontier is empty only behind a block, iterations end). A closed phase is traced back to completed tasks, an accepting gate and the
  approval its policy asks for. Where a property needs a side condition the code does not check, its
  statement and its text name it: destinations none of which is a prefix of another, attempt
  identities used once, intents within the JSON limits of the wire.

  \<^bold>\<open>Bounds and termination.\<close> No definition uses fuel. Recursion over untrusted values is structural,
  the cycle search of the graph ends by a measure on the unvisited nodes, and object graphs that
  may be cyclic are walked with the set of ancestors the code keeps. The node and depth limits of
  gate conditions and wire JSON are the constants of the code.

  \<^bold>\<open>Not modelled.\<close> \<open>AsyncFencedRunner\<close>, whose interleaving of promises has no counterpart here;
  \<open>diagnoseWorkflowGraph\<close>, which repeats the checks of the compiler to report all failures at once;
  amendments, contexts, fan-out and integration barriers of the kernel; the wire decoders of the
  protocol package; and the packages whose content is input and output (storage,
  configuration files, execution host, supervisor, portal, reporting, command line).
\<close>

end
